(* ===== verification/Forge_Prelude.thy ===== *)
theory Forge_Prelude
  imports Main "HOL-Library.Word" "HOL-Library.Signed_Division"
begin

section \<open>Shared vocabulary: Go values, results, and the lemmas every component uses\<close>

text \<open>
  The types the Go sources share and the generic facts about them.
  \<^item> A Go string or byte slice is a \<^typ>\<open>string\<close>: a list of 8-bit characters.
  \<^item> \<open>uint64\<close> is \<open>u64\<close>, a 64-bit word: \<open>+\<close> wraps and \<open><\<close> is the unsigned order.
  \<^item> \<open>int64\<close> (and \<open>time.Duration\<close>) is an \<^typ>\<open>int\<close>; every operation that can leave the
    64-bit range is written with \<open>wrap64\<close>.
  \<^item> \<open>time.Time\<close> is an \<^typ>\<open>int\<close>: nanoseconds since Go's zero time, so \<open>IsZero\<close> is \<open>= 0\<close>.
  \<^item> A nil-able pointer is an \<^typ>\<open>'a option\<close>; a function that may fail returns a sum whose
    left side is the error.
\<close>

type_synonym u64 = "64 word"
type_synonym gotime = int
type_synonym duration = int
type_synonym bytes = string

text \<open>Collections the component proofs draw on.\<close>

named_theorems handler_defs \<open>definitions of the event handlers of the reducer\<close>
named_theorems journal_defs \<open>definitions of the journal operations\<close>
named_theorems quota_defs \<open>definitions of the quota transactions\<close>

subsection \<open>Results\<close>

definition res_bind :: "'e + 'a \<Rightarrow> ('a \<Rightarrow> 'e + 'b) \<Rightarrow> 'e + 'b" where
  "res_bind m f = (case m of Inl e \<Rightarrow> Inl e | Inr x \<Rightarrow> f x)"

lemma res_bind_simps [simp]:
  "res_bind (Inl e) f = Inl e"
  "res_bind (Inr x) f = f x"
  by (simp_all add: res_bind_def)

lemma res_bind_Inr_iff: "res_bind m f = Inr y \<longleftrightarrow> (\<exists>x. m = Inr x \<and> f x = Inr y)"
  by (cases m) auto

lemma res_bind_InrE:
  assumes "res_bind m f = Inr y"
  obtains x where "m = Inr x" and "f x = Inr y"
  using assms by (auto simp: res_bind_Inr_iff)

text \<open>\<open>require b e\<close> is the guard \<open>if !b { return e }\<close>.\<close>

definition require :: "bool \<Rightarrow> 'e \<Rightarrow> 'e + unit" where
  "require b e = (if b then Inr () else Inl e)"

lemma require_iff [simp]: "require b e = Inr u \<longleftrightarrow> b"
  by (simp add: require_def)

lemma require_simps [simp]:
  "require True e = Inr ()"
  "require False e = Inl e"
  by (simp_all add: require_def)

subsection \<open>Signed 64-bit integers\<close>

definition max_int64 :: int where "max_int64 = 2 ^ 63 - 1"
definition min_int64 :: int where "min_int64 = - (2 ^ 63)"

definition wrap64 :: "int \<Rightarrow> int" where
  "wrap64 x = (x + 2 ^ 63) mod 2 ^ 64 - 2 ^ 63"

definition in_int64 :: "int \<Rightarrow> bool" where
  "in_int64 x \<longleftrightarrow> min_int64 \<le> x \<and> x \<le> max_int64"

lemmas int64_defs = max_int64_def min_int64_def in_int64_def

lemma wrap64_in [simp]: "in_int64 (wrap64 x)"
proof -
  have "0 \<le> (x + 2 ^ 63) mod 2 ^ 64" and "(x + 2 ^ 63) mod 2 ^ 64 < (2::int) ^ 64"
    by simp_all
  then show ?thesis
    unfolding wrap64_def int64_defs by auto
qed

lemma wrap64_id: "in_int64 x \<Longrightarrow> wrap64 x = x"
  unfolding wrap64_def int64_defs by (simp add: mod_pos_pos_trivial)

text \<open>\<open>Time.Sub\<close> saturates.\<close>

definition time_Sub :: "gotime \<Rightarrow> gotime \<Rightarrow> duration" where
  "time_Sub a b = max min_int64 (min max_int64 (a - b))"

subsection \<open>Unsigned 64-bit words\<close>

definition max_uint64 :: u64 where "max_uint64 = -1"

lemma unat_max_uint64: "unat max_uint64 = 2 ^ 64 - 1"
  by (simp add: max_uint64_def unsigned_minus_1_eq_mask mask_eq_exp_minus_1)

lemma unat_Suc_word: "x \<noteq> max_uint64 \<Longrightarrow> unat (x + 1) = Suc (unat x)"
proof -
  assume "x \<noteq> max_uint64"
  then have "x + 1 \<noteq> 0" by (auto simp: max_uint64_def eq_neg_iff_add_eq_0)
  then show ?thesis by (metis Suc_eq_plus1 add.commute unatSuc)
qed

lemma less_inc_word: "x \<noteq> max_uint64 \<Longrightarrow> x < x + (1 :: u64)"
  by (simp add: word_less_nat_alt unat_Suc_word)

lemma inc_le_word: "x < y \<Longrightarrow> x + (1 :: u64) \<le> y"
  by (rule inc_le)

subsection \<open>Strings\<close>

text \<open>
  \<open>trim_left\<close> is the leading half of \<open>strings.TrimSpace\<close>: it drops the runes with the
  Unicode property White\_Space in their UTF-8 encoding. A string is blank
  (\<open>strings.TrimSpace(s) == ""\<close>) exactly when nothing is left, and what is left starts with
  the first character of the trimmed string.
\<close>

definition ascii_space :: "char \<Rightarrow> bool" where
  "ascii_space c \<longleftrightarrow> (let n = (of_char c :: nat) in (9 \<le> n \<and> n \<le> 13) \<or> n = 32)"

definition wide_space2 :: "nat \<Rightarrow> nat \<Rightarrow> bool" where
  "wide_space2 a b \<longleftrightarrow> a = 194 \<and> (b = 133 \<or> b = 160)"

definition wide_space3 :: "nat \<Rightarrow> nat \<Rightarrow> nat \<Rightarrow> bool" where
  "wide_space3 a b c \<longleftrightarrow>
     (a = 225 \<and> b = 154 \<and> c = 128) \<or>
     (a = 226 \<and> b = 128 \<and> ((128 \<le> c \<and> c \<le> 138) \<or> c = 168 \<or> c = 169 \<or> c = 175)) \<or>
     (a = 226 \<and> b = 129 \<and> c = 159) \<or>
     (a = 227 \<and> b = 128 \<and> c = 128)"

fun trim_left :: "string \<Rightarrow> string" where
  "trim_left [] = []"
| "trim_left [a] = (if ascii_space a then [] else [a])"
| "trim_left [a, b] =
     (if ascii_space a then trim_left [b]
      else if wide_space2 (of_char a) (of_char b) then [] else [a, b])"
| "trim_left (a # b # c # s) =
     (if ascii_space a then trim_left (b # c # s)
      else if wide_space2 (of_char a) (of_char b) then trim_left (c # s)
      else if wide_space3 (of_char a) (of_char b) (of_char c) then trim_left s
      else a # b # c # s)"

definition blank :: "string \<Rightarrow> bool" where
  "blank s \<longleftrightarrow> trim_left s = []"

lemma blank_Nil [simp]: "blank []"
  by (simp add: blank_def)

lemma not_blank_nonempty: "\<not> blank s \<Longrightarrow> s \<noteq> []"
  by auto

subsection \<open>Lists\<close>

definition lastn :: "nat \<Rightarrow> 'a list \<Rightarrow> 'a list" where
  "lastn n xs = drop (length xs - n) xs"

lemma length_lastn: "length (lastn n xs) = min n (length xs)"
  by (simp add: lastn_def)

lemma set_lastn_subset: "set (lastn n xs) \<subseteq> set xs"
  by (simp add: lastn_def set_drop_subset)

lemma distinct_lastn: "distinct xs \<Longrightarrow> distinct (lastn n xs)"
  by (simp add: lastn_def)

end
