(* ===== verification/Go_Json.thy ===== *)
theory Go_Json
  imports Forge_Prelude "HOL-Library.List_Lexorder" "HOL-Library.Char_ord"
begin

section \<open>What the sources use of unicode/utf8 and encoding/json\<close>

text \<open>
  The part of Go's standard library under \<open>domain.CanonicalJSON\<close>: UTF-8 validity,
  \<open>json.Decoder.Decode\<close> with \<open>UseNumber\<close> into an \<open>any\<close>, and \<open>json.Marshal\<close> of the result.
  A decoded \<open>map[string]any\<close> is an association list kept strictly sorted by key, which is
  the order in which \<open>json.Marshal\<close> writes it; a repeated key keeps the last value, as the
  decoder does. A number is its literal text (\<open>json.Number\<close>).
\<close>

datatype jvalue =
    JNull
  | JBool bool
  | JNumber string
  | JString string
  | JArray "jvalue list"
  | JObject "(string \<times> jvalue) list"

subsection \<open>UTF-8\<close>

abbreviation code :: "char \<Rightarrow> nat" where "code c \<equiv> of_char c"

definition cont_byte :: "nat \<Rightarrow> bool" where
  "cont_byte b \<longleftrightarrow> 128 \<le> b \<and> b \<le> 191"

text \<open>
  The number of bytes of the well-formed sequence at the head of the string, 0 when there
  is none (\<open>utf8.DecodeRune\<close> reports \<open>RuneError\<close> with width 1 there).
\<close>

fun rune_size :: "string \<Rightarrow> nat" where
  "rune_size [] = 0"
| "rune_size (a # r) =
     (if code a < 128 then 1
      else if 194 \<le> code a \<and> code a \<le> 223 then
        (case r of b # _ \<Rightarrow> if cont_byte (code b) then 2 else 0 | _ \<Rightarrow> 0)
      else if 224 \<le> code a \<and> code a \<le> 239 then
        (case r of
           b # c # _ \<Rightarrow>
             if (if code a = 224 then 160 else 128) \<le> code b
                \<and> code b \<le> (if code a = 237 then 159 else 191) \<and> cont_byte (code c)
             then 3 else 0
         | _ \<Rightarrow> 0)
      else if 240 \<le> code a \<and> code a \<le> 244 then
        (case r of
           b # c # d # _ \<Rightarrow>
             if (if code a = 240 then 144 else 128) \<le> code b
                \<and> code b \<le> (if code a = 244 then 143 else 191)
                \<and> cont_byte (code c) \<and> cont_byte (code d)
             then 4 else 0
         | _ \<Rightarrow> 0)
      else 0)"

declare rune_size.simps(2) [simp del]

fun utf8_valid_fuel :: "nat \<Rightarrow> string \<Rightarrow> bool" where
  "utf8_valid_fuel 0 s = (s = [])"
| "utf8_valid_fuel (Suc k) s =
     (s = [] \<or> (0 < rune_size s \<and> utf8_valid_fuel k (drop (rune_size s) s)))"

text \<open>\<open>utf8.Valid\<close>; every rune is at least one byte, so the length is enough fuel.\<close>

definition utf8_valid :: "string \<Rightarrow> bool" where
  "utf8_valid s = utf8_valid_fuel (length s) s"

text \<open>\<open>utf8.EncodeRune\<close> of a code point that is not a surrogate.\<close>

definition encode_rune :: "nat \<Rightarrow> string" where
  "encode_rune n =
     (if n < 128 then [char_of n]
      else if n < 2048 then [char_of (192 + n div 64), char_of (128 + n mod 64)]
      else if n < 65536 then
        [char_of (224 + n div 4096), char_of (128 + n div 64 mod 64), char_of (128 + n mod 64)]
      else
        [char_of (240 + n div 262144), char_of (128 + n div 4096 mod 64),
         char_of (128 + n div 64 mod 64), char_of (128 + n mod 64)])"

definition replacement :: string where
  "replacement = encode_rune 65533"

subsection \<open>Decoding string literals\<close>

definition hex_digit :: "char \<Rightarrow> nat option" where
  "hex_digit c =
     (if 48 \<le> code c \<and> code c \<le> 57 then Some (code c - 48)
      else if 97 \<le> code c \<and> code c \<le> 102 then Some (code c - 87)
      else if 65 \<le> code c \<and> code c \<le> 70 then Some (code c - 55)
      else None)"

text \<open>Four hexadecimal digits, as \<open>getu4\<close> reads them after the backslash and the \<open>u\<close>.\<close>

fun hex4 :: "string \<Rightarrow> (nat \<times> string) option" where
  "hex4 (a # b # c # d # r) =
     (case (hex_digit a, hex_digit b, hex_digit c, hex_digit d) of
        (Some w, Some x, Some y, Some z) \<Rightarrow> Some (4096 * w + 256 * x + 16 * y + z, r)
      | _ \<Rightarrow> None)"
| "hex4 _ = None"

definition is_surrogate :: "nat \<Rightarrow> bool" where
  "is_surrogate n \<longleftrightarrow> 55296 \<le> n \<and> n < 57344"

text \<open>
  The escape after a backslash. A surrogate combines with a following escaped low surrogate,
  and is replaced by U+FFFD otherwise.
\<close>

definition unescape_u :: "string \<Rightarrow> (string \<times> string) option" where
  "unescape_u r =
     (case hex4 r of
        None \<Rightarrow> None
      | Some (n, r1) \<Rightarrow>
          if is_surrogate n then
            (case r1 of
               b # u # r2 \<Rightarrow>
                 (if b = CHR 0x5C \<and> u = CHR ''u'' then
                    (case hex4 r2 of
                       Some (m, r3) \<Rightarrow>
                         if n < 56320 \<and> 56320 \<le> m \<and> m < 57344
                         then Some (encode_rune (65536 + (n - 55296) * 1024 + (m - 56320)), r3)
                         else Some (replacement, r1)
                     | None \<Rightarrow> Some (replacement, r1))
                  else Some (replacement, r1))
             | _ \<Rightarrow> Some (replacement, r1))
          else Some (encode_rune n, r1))"

fun unescape :: "string \<Rightarrow> (string \<times> string) option" where
  "unescape [] = None"
| "unescape (e # r) =
     (if e = CHR 0x22 \<or> e = CHR 0x5C \<or> e = CHR ''/'' then Some ([e], r)
      else if e = CHR ''b'' then Some ([CHR 0x08], r)
      else if e = CHR ''f'' then Some ([CHR 0x0C], r)
      else if e = CHR ''n'' then Some ([CHR 0x0A], r)
      else if e = CHR ''r'' then Some ([CHR 0x0D], r)
      else if e = CHR ''t'' then Some ([CHR 0x09], r)
      else if e = CHR ''u'' then unescape_u r
      else None)"

definition prepend :: "string \<Rightarrow> (string \<times> string) option \<Rightarrow> (string \<times> string) option" where
  "prepend bs m = map_option (\<lambda>(t, q). (bs @ t, q)) m"

text \<open>The rest of a string literal after its opening quote: the decoded value and what follows.\<close>

fun parse_str :: "nat \<Rightarrow> string \<Rightarrow> (string \<times> string) option" where
  "parse_str 0 s = None"
| "parse_str (Suc k) [] = None"
| "parse_str (Suc k) (c # r) =
     (if c = CHR 0x22 then Some ([], r)
      else if c = CHR 0x5C then
        (case unescape r of
           None \<Rightarrow> None
         | Some (bs, r') \<Rightarrow> prepend bs (parse_str k r'))
      else if code c < 32 then None
      else if code c < 128 then prepend [c] (parse_str k r)
      else if rune_size (c # r) = 0 then prepend replacement (parse_str k r)
      else prepend (take (rune_size (c # r)) (c # r)) (parse_str k (drop (rune_size (c # r)) (c # r))))"

subsection \<open>Decoding numbers\<close>

definition is_digit :: "char \<Rightarrow> bool" where
  "is_digit c \<longleftrightarrow> 48 \<le> code c \<and> code c \<le> 57"

definition digits1 :: "string \<Rightarrow> (string \<times> string) option" where
  "digits1 s = (case takeWhile is_digit s of [] \<Rightarrow> None | d \<Rightarrow> Some (d, dropWhile is_digit s))"

definition parse_int :: "string \<Rightarrow> (string \<times> string) option" where
  "parse_int s =
     (case s of
        [] \<Rightarrow> None
      | c # r \<Rightarrow> if c = CHR ''0'' then Some ([c], r) else digits1 s)"

definition parse_frac :: "string \<Rightarrow> (string \<times> string) option" where
  "parse_frac s =
     (case s of
        [] \<Rightarrow> Some ([], s)
      | c # r \<Rightarrow> if c = CHR ''.'' then prepend [c] (digits1 r) else Some ([], s))"

definition parse_exp :: "string \<Rightarrow> (string \<times> string) option" where
  "parse_exp s =
     (case s of
        [] \<Rightarrow> Some ([], s)
      | c # r \<Rightarrow>
          if c = CHR ''e'' \<or> c = CHR ''E'' then
            (case r of
               [] \<Rightarrow> None
             | g # r' \<Rightarrow> if g = CHR ''+'' \<or> g = CHR ''-'' then prepend [c, g] (digits1 r')
                         else prepend [c] (digits1 r))
          else Some ([], s))"

definition parse_number :: "string \<Rightarrow> (string \<times> string) option" where
  "parse_number s =
     (let (sg, r0) = (case s of c # r \<Rightarrow> if c = CHR ''-'' then ([c], r) else ([], s) | [] \<Rightarrow> ([], s)) in
      case parse_int r0 of
        None \<Rightarrow> None
      | Some (i, r1) \<Rightarrow>
          (case parse_frac r1 of
             None \<Rightarrow> None
           | Some (f, r2) \<Rightarrow>
               (case parse_exp r2 of
                  None \<Rightarrow> None
                | Some (x, r3) \<Rightarrow> Some (sg @ i @ f @ x, r3))))"

subsection \<open>Decoding values\<close>

definition is_ws :: "char \<Rightarrow> bool" where
  "is_ws c \<longleftrightarrow> code c = 32 \<or> code c = 9 \<or> code c = 10 \<or> code c = 13"

definition skip_ws :: "string \<Rightarrow> string" where
  "skip_ws s = dropWhile is_ws s"

fun map_put :: "string \<Rightarrow> 'v \<Rightarrow> (string \<times> 'v) list \<Rightarrow> (string \<times> 'v) list" where
  "map_put k v [] = [(k, v)]"
| "map_put k v ((k', v') # m) =
     (if k < k' then (k, v) # (k', v') # m
      else if k = k' then (k, v) # m
      else (k', v') # map_put k v m)"

definition strip_prefix :: "string \<Rightarrow> string \<Rightarrow> string option" where
  "strip_prefix p s = (if take (length p) s = p then Some (drop (length p) s) else None)"

definition max_nesting :: nat where "max_nesting = 10000"

text \<open>
  The decoder, by recursive descent with fuel. \<open>d\<close> is the number of open arrays and
  objects; the scanner refuses to open more than \<open>max_nesting\<close>.
\<close>

function (sequential) parse_value :: "nat \<Rightarrow> nat \<Rightarrow> string \<Rightarrow> (jvalue \<times> string) option"
and parse_elems :: "nat \<Rightarrow> nat \<Rightarrow> string \<Rightarrow> (jvalue list \<times> string) option"
and parse_members :: "nat \<Rightarrow> nat \<Rightarrow> (string \<times> jvalue) list \<Rightarrow> string
       \<Rightarrow> ((string \<times> jvalue) list \<times> string) option" where
  "parse_value 0 d s = None"
| "parse_value (Suc k) d s =
     (case skip_ws s of
        [] \<Rightarrow> None
      | c # r \<Rightarrow>
          if c = CHR ''{'' then
            (if max_nesting \<le> d then None
             else if take 1 (skip_ws r) = ''}'' then Some (JObject [], drop 1 (skip_ws r))
             else map_option (\<lambda>(m, q). (JObject m, q)) (parse_members k (Suc d) [] r))
          else if c = CHR ''['' then
            (if max_nesting \<le> d then None
             else if take 1 (skip_ws r) = '']'' then Some (JArray [], drop 1 (skip_ws r))
             else map_option (\<lambda>(xs, q). (JArray xs, q)) (parse_elems k (Suc d) r))
          else if c = CHR 0x22 then
            map_option (\<lambda>(t, q). (JString t, q)) (parse_str (length r) r)
          else if c = CHR ''t'' then
            map_option (\<lambda>q. (JBool True, q)) (strip_prefix ''true'' (c # r))
          else if c = CHR ''f'' then
            map_option (\<lambda>q. (JBool False, q)) (strip_prefix ''false'' (c # r))
          else if c = CHR ''n'' then
            map_option (\<lambda>q. (JNull, q)) (strip_prefix ''null'' (c # r))
          else map_option (\<lambda>(n, q). (JNumber n, q)) (parse_number (c # r)))"
| "parse_elems 0 d s = None"
| "parse_elems (Suc k) d s =
     (case parse_value k d s of
        None \<Rightarrow> None
      | Some (v, r) \<Rightarrow>
          (case skip_ws r of
             c # q \<Rightarrow>
               if c = CHR '','' then map_option (\<lambda>(vs, t). (v # vs, t)) (parse_elems k d q)
               else if c = CHR '']'' then Some ([v], q)
               else None
           | [] \<Rightarrow> None))"
| "parse_members 0 d m s = None"
| "parse_members (Suc k) d m s =
     (case skip_ws s of
        [] \<Rightarrow> None
      | c # r \<Rightarrow>
          if c \<noteq> CHR 0x22 then None
          else
            (case parse_str (length r) r of
               None \<Rightarrow> None
             | Some (key, r1) \<Rightarrow>
                 (case skip_ws r1 of
                    [] \<Rightarrow> None
                  | c1 # r2 \<Rightarrow>
                      if c1 \<noteq> CHR '':'' then None
                      else
                        (case parse_value k d r2 of
                           None \<Rightarrow> None
                         | Some (v, r3) \<Rightarrow>
                             (case skip_ws r3 of
                                [] \<Rightarrow> None
                              | c2 # r4 \<Rightarrow>
                                  if c2 = CHR '','' then parse_members k d (map_put key v m) r4
                                  else if c2 = CHR ''}'' then Some (map_put key v m, r4)
                                  else None)))))"
  by pat_completeness auto
termination
  by (relation "measure (\<lambda>x. case x of
        Inl (k, d, s) \<Rightarrow> k
      | Inr (Inl (k, d, s)) \<Rightarrow> k
      | Inr (Inr (k, d, m, s)) \<Rightarrow> k)") auto

text \<open>
  \<open>Decode\<close> of one value followed by a second \<open>Decode\<close> that must report \<open>io.EOF\<close>: only
  white space may follow. Every call consumes input at each second level of the recursion,
  so twice the length is enough fuel.
\<close>

definition parse_json :: "string \<Rightarrow> jvalue option" where
  "parse_json s =
     (case parse_value (Suc (Suc (length s + length s))) 0 s of
        None \<Rightarrow> None
      | Some (v, r) \<Rightarrow> if skip_ws r = [] then Some v else None)"

subsection \<open>Encoding\<close>

definition hex_char :: "nat \<Rightarrow> char" where
  "hex_char n = (if n < 10 then char_of (48 + n) else char_of (87 + n))"

definition html_safe :: "nat \<Rightarrow> bool" where
  "html_safe n \<longleftrightarrow> 32 \<le> n \<and> n < 128 \<and> n \<noteq> 34 \<and> n \<noteq> 92 \<and> n \<noteq> 60 \<and> n \<noteq> 62 \<and> n \<noteq> 38"

definition escape_ascii :: "char \<Rightarrow> string" where
  "escape_ascii c =
     (if html_safe (code c) then [c]
      else if c = CHR 0x22 \<or> c = CHR 0x5C then [CHR 0x5C, c]
      else if c = CHR 0x08 then [CHR 0x5C, CHR ''b'']
      else if c = CHR 0x0C then [CHR 0x5C, CHR ''f'']
      else if c = CHR 0x0A then [CHR 0x5C, CHR ''n'']
      else if c = CHR 0x0D then [CHR 0x5C, CHR ''r'']
      else if c = CHR 0x09 then [CHR 0x5C, CHR ''t'']
      else [CHR 0x5C, CHR ''u'', CHR ''0'', CHR ''0'',
            hex_char (code c div 16), hex_char (code c mod 16)])"

definition is_line_sep :: "string \<Rightarrow> bool" where
  "is_line_sep bs \<longleftrightarrow> bs = encode_rune 8232 \<or> bs = encode_rune 8233"

definition escape_rune :: "string \<Rightarrow> string" where
  "escape_rune bs =
     (if bs = encode_rune 8232 then [CHR 0x5C] @ ''u2028''
      else if bs = encode_rune 8233 then [CHR 0x5C] @ ''u2029''
      else bs)"

fun escape_str :: "nat \<Rightarrow> string \<Rightarrow> string" where
  "escape_str 0 s = []"
| "escape_str (Suc k) [] = []"
| "escape_str (Suc k) (c # r) =
     (if code c < 128 then escape_ascii c @ escape_str k r
      else if rune_size (c # r) = 0 then [CHR 0x5C] @ ''ufffd'' @ escape_str k r
      else escape_rune (take (rune_size (c # r)) (c # r))
             @ escape_str k (drop (rune_size (c # r)) (c # r)))"

definition print_str :: "string \<Rightarrow> string" where
  "print_str s = [CHR 0x22] @ escape_str (length s) s @ [CHR 0x22]"

fun join_comma :: "string list \<Rightarrow> string" where
  "join_comma [] = []"
| "join_comma [x] = x"
| "join_comma (x # y # xs) = x @ '','' @ join_comma (y # xs)"

fun print_value :: "jvalue \<Rightarrow> string" where
  "print_value JNull = ''null''"
| "print_value (JBool b) = (if b then ''true'' else ''false'')"
| "print_value (JNumber n) = n"
| "print_value (JString s) = print_str s"
| "print_value (JArray xs) = ''['' @ join_comma (map print_value xs) @ '']''"
| "print_value (JObject m) =
     ''{'' @ join_comma (map (\<lambda>kv. print_str (fst kv) @ '':'' @ print_value (snd kv)) m) @ ''}''"

text \<open>What a kernel evaluation of the codec unfolds.\<close>

lemmas json_eval =
  rune_size.simps cont_byte_def utf8_valid_def parse_json_def skip_ws_def is_ws_def
  max_nesting_def prepend_def strip_prefix_def parse_number_def parse_int_def parse_frac_def
  parse_exp_def digits1_def is_digit_def print_str_def escape_ascii_def html_safe_def

end
