(* ===== verification/Domain.thy ===== *)
theory Domain
  imports Go_Json
begin

section \<open>Business values (internal/domain)\<close>

text \<open>
  \<open>types.go\<close> and \<open>canonical.go\<close>: identifiers, the run status and stage enumerations, leases,
  the micro-dollar arithmetic, the error values, and the canonical JSON encoding that every
  argument hash is taken over. The Go enumerations are string types; their constructors
  here are the declared constants, and the \<open>Other\<close> constructor stands for every other
  string (the zero value is \<open>Other []\<close>), so that a malformed snapshot is representable.
\<close>

datatype err =
    ErrContextStale | ErrInvalid | ErrNotFound | ErrForbidden | ErrConflict | ErrFenced
  | ErrTerminal | ErrTransition | ErrUntrusted | ErrReconciliation | ErrOverflow
  | ErrCapacity | ErrReset | ErrSnapshotMigration

subsection \<open>Identifiers\<close>

definition id_char :: "char \<Rightarrow> bool" where
  "id_char c \<longleftrightarrow> (let n = code c in
     (97 \<le> n \<and> n \<le> 122) \<or> (65 \<le> n \<and> n \<le> 90) \<or> (48 \<le> n \<and> n \<le> 57) \<or> n = 45 \<or> n = 95)"

definition ID_Validate :: "string \<Rightarrow> err option" where
  "ID_Validate i =
     (if length i = 0 \<or> 128 < length i then Some ErrInvalid
      else if \<not> list_all id_char i then Some ErrInvalid
      else None)"

abbreviation valid_id :: "string \<Rightarrow> bool" where
  "valid_id i \<equiv> ID_Validate i = None"

lemma valid_id_iff: "valid_id i \<longleftrightarrow> i \<noteq> [] \<and> length i \<le> 128 \<and> list_all id_char i"
  by (auto simp: ID_Validate_def)

lemma valid_id_nonempty [dest]: "valid_id i \<Longrightarrow> i \<noteq> []"
  by (simp add: valid_id_iff)

lemma not_valid_id_Nil [simp]: "\<not> valid_id []"
  by (simp add: valid_id_iff)

subsection \<open>Run status, stage and verification status\<close>

datatype run_status =
    StatusQueued | StatusRunning | StatusWaitingApproval | StatusCancelRequested
  | StatusCancelled | StatusCompleted | StatusFailed | StatusBudgetExhausted
  | StatusNeedsReconciliation | StatusOther string

abbreviation no_status :: run_status where "no_status \<equiv> StatusOther []"

fun RunStatus_Terminal :: "run_status \<Rightarrow> bool" where
  "RunStatus_Terminal StatusCancelled = True"
| "RunStatus_Terminal StatusCompleted = True"
| "RunStatus_Terminal StatusFailed = True"
| "RunStatus_Terminal StatusBudgetExhausted = True"
| "RunStatus_Terminal _ = False"

fun RunStatus_Valid :: "run_status \<Rightarrow> bool" where
  "RunStatus_Valid (StatusOther _) = False"
| "RunStatus_Valid _ = True"

datatype stage =
    StageInitialize | StageAdoptWorkspace | StageBuildContext | StageModel
  | StageValidateTools | StageApprovalGate | StageExecuteEffects | StageIngestResults
  | StageVerify | StageFinalize | StageReconcile | StageStopped | StageOther string

abbreviation no_stage :: stage where "no_stage \<equiv> StageOther []"

fun Stage_Valid :: "stage \<Rightarrow> bool" where
  "Stage_Valid (StageOther _) = False"
| "Stage_Valid _ = True"

datatype verification_status =
    VerificationUnverified | VerificationRegressionOnly | VerificationVerified
  | VerificationOther string

subsection \<open>Leases\<close>

record lease =
  ls_Owner :: string
  ls_Epoch :: u64
  ls_Until :: gotime

text \<open>The expiry boundary is exclusive: a lease that expires at \<open>t\<close> cannot act at \<open>t\<close>.\<close>

definition Lease_ValidAt :: "lease \<Rightarrow> gotime \<Rightarrow> bool" where
  "Lease_ValidAt l at \<longleftrightarrow>
     \<not> blank (ls_Owner l) \<and> 0 < ls_Epoch l \<and> at \<noteq> 0 \<and> at < ls_Until l"

lemma Lease_ValidAtD:
  assumes "Lease_ValidAt l at"
  shows "ls_Owner l \<noteq> []" and "ls_Epoch l \<noteq> 0" and "at < ls_Until l"
  using assms by (auto simp: Lease_ValidAt_def word_neq_0_conv)

subsection \<open>Money\<close>

type_synonym money = int

definition USD :: money where "USD = 1000000"

definition Money_Add :: "money \<Rightarrow> money \<Rightarrow> err + money" where
  "Money_Add m other =
     (if m < 0 \<or> other < 0 then Inl ErrInvalid
      else if wrap64 (max_int64 - other) < m then Inl ErrOverflow
      else Inr (wrap64 (m + other)))"

text \<open>
  \<open>Cost\<close> multiplies tokens by a rate in micro-dollars per million tokens and rounds up, by
  quotient and remainder so that no intermediate product leaves the 64-bit range. Every
  product and sum of the source is wrapped here.
\<close>

definition cost_unit :: int where "cost_unit = 1000000"

definition Cost :: "int \<Rightarrow> money \<Rightarrow> err + money" where
  "Cost tokens rate =
     (if tokens < 0 \<or> rate < 0 then Inl ErrInvalid
      else if tokens = 0 \<or> rate = 0 then Inr 0
      else
        let whole = tokens sdiv cost_unit; rem = tokens smod cost_unit in
        if max_int64 sdiv rate < whole then Inl ErrOverflow
        else
          let result = wrap64 (whole * rate);
              rateWhole = rate sdiv cost_unit; rateRem = rate smod cost_unit;
              fraction = wrap64 (wrap64 (rem * rateWhole)
                 + wrap64 (wrap64 (wrap64 (rem * rateRem) + cost_unit) - 1) sdiv cost_unit) in
          if wrap64 (max_int64 - fraction) < result then Inl ErrOverflow
          else Inr (wrap64 (result + fraction)))"

text \<open>The mathematical value the routine is meant to compute.\<close>

definition exact_cost :: "int \<Rightarrow> int \<Rightarrow> int" where
  "exact_cost tokens rate = (tokens * rate + cost_unit - 1) div cost_unit"

subsection \<open>Canonical JSON\<close>

definition max_args_bytes :: nat where "max_args_bytes = 262144"

function boundedJSON :: "jvalue \<Rightarrow> nat \<Rightarrow> bool" where
  "boundedJSON value depth =
     (if 32 < depth then False
      else
        (case value of
           JObject m \<Rightarrow> list_all (\<lambda>kv. boundedJSON (snd kv) (depth + 1)) m
         | JArray xs \<Rightarrow> list_all (\<lambda>v. boundedJSON v (depth + 1)) xs
         | _ \<Rightarrow> True))"
  by pat_completeness auto
termination
  by (relation "measure (\<lambda>(v, d). 33 - d)") auto

declare boundedJSON.simps [simp del]

definition CanonicalJSON :: "bytes \<Rightarrow> err + bytes" where
  "CanonicalJSON raw =
     (if raw = [] \<or> max_args_bytes < length raw \<or> \<not> utf8_valid raw then Inl ErrInvalid
      else
        (case parse_json raw of
           None \<Rightarrow> Inl ErrInvalid
         | Some value \<Rightarrow>
             (case value of
                JObject m \<Rightarrow>
                  if \<not> boundedJSON value 0 then Inl ErrCapacity else Inr (print_value value)
              | _ \<Rightarrow> Inl ErrInvalid)))"

definition ValidateCanonicalJSON :: "bytes \<Rightarrow> err option" where
  "ValidateCanonicalJSON raw =
     (case CanonicalJSON raw of
        Inl e \<Rightarrow> Some e
      | Inr canonical \<Rightarrow> if canonical \<noteq> raw then Some ErrInvalid else None)"

text \<open>\<open>json.Valid\<close>: the bytes are one JSON value surrounded by white space.\<close>

definition json_valid :: "bytes \<Rightarrow> bool" where
  "json_valid raw \<longleftrightarrow> parse_json raw \<noteq> None"

lemma ValidateCanonicalJSON_iff:
  "ValidateCanonicalJSON raw = None \<longleftrightarrow> CanonicalJSON raw = Inr raw"
  by (auto simp: ValidateCanonicalJSON_def split: sum.splits)

subsection \<open>Money is exact\<close>

lemma Money_Add_Inr:
  assumes "Money_Add m k = Inr r" and "in_int64 m" and "in_int64 k"
  shows "r = m + k \<and> 0 \<le> m \<and> 0 \<le> k \<and> m + k \<le> max_int64"
  using assms wrap64_id [of "max_int64 - k"] wrap64_id [of "m + k"]
  by (auto simp: Money_Add_def int64_defs split: if_splits)


lemma sdiv_nonneg: "0 \<le> a \<Longrightarrow> 0 < b \<Longrightarrow> (a::int) sdiv b = a div b"
  by (simp add: signed_divide_int_def sgn_if zero_less_mult_iff)

lemma smod_nonneg: "0 \<le> a \<Longrightarrow> 0 < b \<Longrightarrow> (a::int) smod b = a mod b"
  by (simp add: signed_modulo_int_def signed_divide_int_def sgn_if minus_div_mult_eq_mod
      [symmetric])

lemma mult_le_iff_le_div:
  assumes "(0::int) < b"
  shows "a * b \<le> c \<longleftrightarrow> \<not> c div b < a"
proof
  assume "a * b \<le> c"
  then have "a * b div b \<le> c div b" using assms by (rule zdiv_mono1)
  then show "\<not> c div b < a" using assms by simp
next
  assume "\<not> c div b < a"
  then have "a * b \<le> c div b * b" using assms by (simp add: mult_right_mono)
  also have "\<dots> \<le> c" using assms by (simp add: minus_mod_eq_div_mult [symmetric])
  finally show "a * b \<le> c" .
qed

lemma exact_cost_split:
  assumes "0 \<le> tokens" and "0 \<le> rate"
  shows "exact_cost tokens rate = (tokens div cost_unit) * rate
     + ((tokens mod cost_unit) * (rate div cost_unit)
        + ((tokens mod cost_unit) * (rate mod cost_unit) + cost_unit - 1) div cost_unit)"
proof -
  define w r rw rr where "w = tokens div cost_unit" and "r = tokens mod cost_unit"
    and "rw = rate div cost_unit" and "rr = rate mod cost_unit"
  have t: "tokens = w * cost_unit + r" and q: "rate = rw * cost_unit + rr"
    by (simp_all add: w_def r_def rw_def rr_def)
  have "tokens * rate + cost_unit - 1 = (w * rate + r * rw) * cost_unit + (r * rr + cost_unit - 1)"
    unfolding t by (simp add: q algebra_simps)
  then have "exact_cost tokens rate = w * rate + r * rw + (r * rr + cost_unit - 1) div cost_unit"
    unfolding exact_cost_def by (simp add: cost_unit_def)
  then show ?thesis unfolding w_def r_def rw_def rr_def by simp
qed

text \<open>
  C36. \<open>Cost\<close> computes the exact price rounded up to the next micro-dollar, for every token
  count and rate that are non-negative \<open>int64\<close> values: none of its intermediate products
  wraps, and it reports an overflow exactly when the price does not fit into an \<open>int64\<close>.
\<close>

theorem cost_exact:
  assumes "0 \<le> tokens" and "tokens \<le> max_int64" and "0 \<le> rate" and "rate \<le> max_int64"
  shows "Cost tokens rate = (if exact_cost tokens rate \<le> max_int64
     then Inr (exact_cost tokens rate) else Inl ErrOverflow)"
proof (cases "tokens = 0 \<or> rate = 0")
  case True
  then show ?thesis using assms by (auto simp: Cost_def exact_cost_def cost_unit_def max_int64_def)
next
  case False
  with assms have pos: "0 < tokens" "0 < rate" by auto
  define w r rw rr where "w = tokens div cost_unit" and "r = tokens mod cost_unit"
    and "rw = rate div cost_unit" and "rr = rate mod cost_unit"
  define low where "low = (r * rr + cost_unit - 1) div cost_unit"
  define fraction where "fraction = r * rw + low"
  have exact: "exact_cost tokens rate = w * rate + fraction"
    using exact_cost_split [OF assms(1,3)] by (simp add: w_def r_def rw_def rr_def low_def fraction_def)
  have b: "0 \<le> w" "0 \<le> r" "r \<le> 999999" "0 \<le> rr" "rr \<le> 999999" "0 \<le> rw" "rw \<le> 9223372036854"
    using assms pos by (auto simp: w_def r_def rw_def rr_def cost_unit_def max_int64_def)
  have m1: "0 \<le> r * rr" "r * rr \<le> 999999 * 999999" using b mult_mono [of r 999999 rr 999999] by auto
  have m2: "0 \<le> r * rw" "r * rw \<le> 999999 * 9223372036854" using b mult_mono [of r 999999 rw 9223372036854] by auto
  have low: "0 \<le> low" "low \<le> 1000000" using m1 by (auto simp: low_def cost_unit_def)
  have f: "0 \<le> fraction" "fraction \<le> max_int64"
    using m2 low by (auto simp: fraction_def max_int64_def)
  have wraps: "wrap64 (wrap64 (r * rw) + wrap64 (wrap64 (wrap64 (r * rr) + cost_unit) - 1) sdiv cost_unit) = fraction"
    using m1 m2 low f
    by (simp add: wrap64_id in_int64_def min_int64_def max_int64_def cost_unit_def sdiv_nonneg low_def fraction_def)
  have "Cost tokens rate = (if max_int64 div rate < w then Inl ErrOverflow
      else if wrap64 (max_int64 - fraction) < wrap64 (w * rate) then Inl ErrOverflow
      else Inr (wrap64 (wrap64 (w * rate) + fraction)))"
    using pos wraps by (simp add: Cost_def Let_def sdiv_nonneg smod_nonneg cost_unit_def
        w_def r_def rw_def rr_def max_int64_def)
  moreover have "w * rate \<le> max_int64 \<longleftrightarrow> \<not> max_int64 div rate < w"
    by (rule mult_le_iff_le_div [OF pos(2)])
  moreover have "0 \<le> w * rate" using b pos by simp
  ultimately show ?thesis
    using f wrap64_id [of "max_int64 - fraction"] wrap64_id [of "w * rate"]
      wrap64_id [of "w * rate + fraction"]
    by (auto simp: exact in_int64_def min_int64_def max_int64_def)
qed

theorem cost_exact_witness:
  "Cost 1500001 4000000 = Inr 6000004 \<and> Cost 9223372036854775807 1000001 = Inl ErrOverflow"
  using cost_exact [of 1500001 4000000] cost_exact [of 9223372036854775807 1000001]
  by (simp add: exact_cost_def cost_unit_def max_int64_def)

text \<open>
  \<open>Money.Add\<close> on \<open>int64\<close> values returns the exact sum, refuses negative amounts, and
  reports an overflow exactly when the sum does not fit.
\<close>

lemma money_add_exact:
  assumes "in_int64 m" and "in_int64 k"
  shows "Money_Add m k = (if m < 0 \<or> k < 0 then Inl ErrInvalid
     else if max_int64 < m + k then Inl ErrOverflow else Inr (m + k))"
  using assms wrap64_id [of "max_int64 - k"] wrap64_id [of "m + k"]
  by (auto simp: Money_Add_def int64_defs)

end
