(* ===== verification/Runtime_Types.thy ===== *)
theory Runtime_Types
  imports Domain
begin

section \<open>State, events and commands of one run (internal/runtime/types.go)\<close>

text \<open>
  One record per Go struct, with the source's field names behind a two-letter prefix (Go
  structs share field names, HOL records of one theory may not). Pointers are options; the
  deep copies of \<open>cloneState\<close>, \<open>cloneEffect\<close> and \<open>cloneApproval\<close> are the identity on these
  immutable values.
\<close>

definition SnapshotSchemaVersion :: nat where "SnapshotSchemaVersion = 2"

datatype effect_status =
    EffectPlanned | EffectInFlight | EffectSucceeded | EffectFailed | EffectCancelled
  | EffectUnknown | EffectOther string

record effect =
  ef_ID :: string
  ef_Kind :: string
  ef_Args :: bytes
  ef_ArgsHash :: string
  ef_ExpectedRevision :: u64
  ef_DispatchEpoch :: u64
  ef_PolicyVersion :: string
  ef_RequiresApproval :: bool
  ef_Status :: effect_status
  ef_ReceiptRef :: string

record approval_binding =
  ap_EffectID :: string
  ap_ArgsHash :: string
  ap_WorkspaceRevision :: u64
  ap_PolicyVersion :: string
  ap_Version :: u64
  ap_Granted :: bool

record limits =
  lm_MaxNoProgressBatches :: u64
  lm_MaxModelRounds :: u64
  lm_MaxToolCalls :: u64
  lm_MaxCost :: money
  lm_Deadline :: gotime

text \<open>\<open>ProgressState\<close>, \<open>ProgressObservation\<close> and \<open>ProgressFrame\<close> of \<open>progress.go\<close>.\<close>

record progress_state =
  ps_LastCheckedStep :: u64
  ps_MessageSeq :: u64
  ps_RepeatedBatches :: u64
  ps_Classification :: string
  ps_RecentEvidence :: "string list"
  ps_RecentTrees :: "string list"

record progress_observation =
  po_EffectID :: string
  po_ReceiptRef :: string
  po_Fingerprint :: string
  po_BeforeHash :: string
  po_AfterHash :: string
  po_Indeterminate :: bool

record progress_frame =
  pf_ContextRef :: string
  pf_PolicyVersion :: nat
  pf_StepSeq :: u64
  pf_MessageSeq :: u64
  pf_AttemptID :: string
  pf_VerificationRef :: string
  pf_Observations :: "progress_observation list"

record state =
  st_Progress :: "progress_state option"
  st_SchemaVersion :: nat
  st_RunID :: string
  st_TenantID :: string
  st_Version :: u64
  st_Status :: run_status
  st_Stage :: stage
  st_ResumeStage :: stage
  st_Lease :: lease
  st_StepSeq :: u64
  st_WorkspaceRevision :: u64
  st_ReconciliationRevision :: u64
  st_PendingEffect :: "effect option"
  st_RemainingEffects :: "effect list"
  st_Approval :: "approval_binding option"
  st_OutputRef :: string
  st_Verification :: verification_status
  st_VerificationReportRef :: string
  st_VerificationRevision :: u64
  st_ModelRounds :: u64
  st_ToolCalls :: u64
  st_Cost :: money
  st_Limits :: limits
  st_FailureReason :: string
  st_StopTarget :: run_status

datatype event_kind =
    EventClaimed | EventCapacityRejected | EventWorkspaceReady | EventWorkspaceAdopted
  | EventContextBuilt | EventModelCompleted | EventToolsValidated | EventEffectCompleted
  | EventEffectUncertain | EventResultsIngested | EventApprovalDecided
  | EventVerificationCompleted | EventFinalized | EventCancelRequested
  | EventCancellationConfirmed | EventResumeRequested | EventReconciled | EventFailed
  | EventBudgetReached | EventOther string

record effect_receipt =
  rc_EffectID :: string
  rc_ArgsHash :: string
  rc_Epoch :: u64
  rc_Status :: effect_status
  rc_BeforeRevision :: u64
  rc_AfterRevision :: u64
  rc_Ref :: string
  rc_Settled :: bool

record approval_decision =
  ad_Binding :: approval_binding
  ad_Approve :: bool

record verification_evidence =
  ve_Trusted :: bool
  ve_ReportRef :: string
  ve_WorkspaceRevision :: u64
  ve_BaselineTargetFailed :: bool
  ve_TargetPassed :: bool
  ve_RegressionPassed :: bool

record stop_receipt =
  sr_Ref :: string
  sr_NoActiveOperations :: bool
  sr_WorkspaceRevision :: u64

record event =
  ev_Progress :: "progress_frame option"
  ev_ProgressRef :: string
  ev_Kind :: event_kind
  ev_ExpectedVersion :: u64
  ev_Owner :: string
  ev_Epoch :: u64
  ev_At :: gotime
  ev_NotBefore :: "gotime option"
  ev_Lease :: "lease option"
  ev_WorkspaceRevision :: u64
  ev_OutputRef :: string
  ev_Complete :: bool
  ev_Finish :: bool
  ev_Effects :: "effect list"
  ev_Receipt :: "effect_receipt option"
  ev_Approval :: "approval_decision option"
  ev_Verification :: "verification_evidence option"
  ev_Stop :: "stop_receipt option"
  ev_Cost :: money
  ev_Reason :: string

datatype command_kind =
    CommandInitializeWorkspace | CommandAdoptWorkspace | CommandBuildContext
  | CommandCallModel | CommandValidateTools | CommandExecuteEffect | CommandRequestApproval
  | CommandIngestResults | CommandVerify | CommandFinalize | CommandInspectEffect
  | CommandStopExecution | CommandPublishTerminal

record command =
  cm_Kind :: command_kind
  cm_Effect :: "effect option"
  cm_Binding :: "approval_binding option"

definition plain_command :: "command_kind \<Rightarrow> command" where
  "plain_command k = \<lparr>cm_Kind = k, cm_Effect = None, cm_Binding = None\<rparr>"

text \<open>\<open>command(kind)\<close>: a batch of one command with no payload.\<close>

definition command_of :: "command_kind \<Rightarrow> command list" where
  "command_of k = [plain_command k]"

definition effect_command :: "command_kind \<Rightarrow> effect option \<Rightarrow> command list" where
  "effect_command k e = [\<lparr>cm_Kind = k, cm_Effect = e, cm_Binding = None\<rparr>]"

lemma command_of_kinds [simp]:
  "c \<in> set (command_of k) \<longleftrightarrow> c = plain_command k"
  "cm_Kind (plain_command k) = k"
  "cm_Effect (plain_command k) = None"
  by (simp_all add: command_of_def plain_command_def)

lemma effect_command_mem [simp]:
  "c \<in> set (effect_command k e) \<longleftrightarrow> c = \<lparr>cm_Kind = k, cm_Effect = e, cm_Binding = None\<rparr>"
  by (simp add: effect_command_def)

definition zero_lease :: lease where
  "zero_lease = \<lparr>ls_Owner = [], ls_Epoch = 0, ls_Until = 0\<rparr>"

definition NewState :: "string \<Rightarrow> string \<Rightarrow> limits \<Rightarrow> state" where
  "NewState tenantID runID lim = \<lparr>
     st_Progress = None,
     st_SchemaVersion = SnapshotSchemaVersion,
     st_RunID = runID,
     st_TenantID = tenantID,
     st_Version = 1,
     st_Status = StatusQueued,
     st_Stage = StageInitialize,
     st_ResumeStage = no_stage,
     st_Lease = zero_lease,
     st_StepSeq = 0,
     st_WorkspaceRevision = 0,
     st_ReconciliationRevision = 0,
     st_PendingEffect = None,
     st_RemainingEffects = [],
     st_Approval = None,
     st_OutputRef = [],
     st_Verification = VerificationUnverified,
     st_VerificationReportRef = [],
     st_VerificationRevision = 0,
     st_ModelRounds = 0,
     st_ToolCalls = 0,
     st_Cost = 0,
     st_Limits = lim,
     st_FailureReason = [],
     st_StopTarget = no_status\<rparr>"

end
