(* ===== verification/Runtime_Progress.thy ===== *)
theory Runtime_Progress
  imports Runtime_Types
begin

section \<open>The closed-batch repetition limit (internal/runtime/progress.go)\<close>

text \<open>
  A bounded memory of evidence and tree hashes decides whether a completed tool batch showed
  anything new. \<open>observeProgress\<close> runs before every model round; the reducer stops the run
  when \<open>ps_RepeatedBatches\<close> reaches the limit.
\<close>

definition DefaultNoProgressBatches :: u64 where "DefaultNoProgressBatches = 3"
definition ProgressPolicyVersion :: nat where "ProgressPolicyVersion = 1"
definition ProgressEvidenceWindow :: nat where "ProgressEvidenceWindow = 512"
definition ProgressTreeWindow :: nat where "ProgressTreeWindow = 32"

text \<open>
  \<open>hex.DecodeString\<close> succeeds, gives 32 bytes, and encodes back to the same text: 64
  lower-case hexadecimal digits.
\<close>

definition lower_hex :: "char \<Rightarrow> bool" where
  "lower_hex c \<longleftrightarrow> (48 \<le> code c \<and> code c \<le> 57) \<or> (97 \<le> code c \<and> code c \<le> 102)"

definition validProgressHash :: "string \<Rightarrow> bool" where
  "validProgressHash s \<longleftrightarrow> length s = 64 \<and> list_all lower_hex s"

definition progress_classes :: "string list" where
  "progress_classes = [''initial'', ''message'', ''new_evidence'', ''repeated'', ''indeterminate'']"

definition valid_hash_list :: "string list \<Rightarrow> bool" where
  "valid_hash_list xs \<longleftrightarrow> list_all validProgressHash xs \<and> distinct xs"

definition validateProgressState :: "state \<Rightarrow> err option" where
  "validateProgressState s =
     (if 20 < lm_MaxNoProgressBatches (st_Limits s)
         \<or> (st_SchemaVersion s = 1
            \<and> (lm_MaxNoProgressBatches (st_Limits s) \<noteq> 0 \<or> st_Progress s \<noteq> None))
      then Some ErrInvalid
      else
        (case st_Progress s of
           None \<Rightarrow> None
         | Some p \<Rightarrow>
             if lm_MaxNoProgressBatches (st_Limits s) = 0
                \<or> st_StepSeq s < ps_LastCheckedStep p
                \<or> lm_MaxNoProgressBatches (st_Limits s) < ps_RepeatedBatches p
                \<or> 64 < ps_MessageSeq p
                \<or> ProgressEvidenceWindow < length (ps_RecentEvidence p)
                \<or> ProgressTreeWindow < length (ps_RecentTrees p)
             then Some ErrInvalid
             else if \<not> valid_hash_list (ps_RecentEvidence p) then Some ErrInvalid
             else if \<not> valid_hash_list (ps_RecentTrees p) then Some ErrInvalid
             else if ps_Classification p \<notin> set progress_classes then Some ErrInvalid
             else None))"

text \<open>\<open>remember\<close> adds only first observations and keeps the last \<open>capacity\<close> of them.\<close>

definition remember :: "string list \<Rightarrow> string \<Rightarrow> nat \<Rightarrow> string list \<times> bool" where
  "remember list v capacity =
     (if v \<in> set list then (list, False)
      else
        let list' = list @ [v] in
        (if capacity < length list' then drop (length list' - capacity) list' else list', True))"

definition valid_observation :: "progress_observation \<Rightarrow> bool" where
  "valid_observation ob \<longleftrightarrow>
     valid_id (po_EffectID ob) \<and> po_ReceiptRef ob \<noteq> []
     \<and> validProgressHash (po_BeforeHash ob) \<and> validProgressHash (po_AfterHash ob)
     \<and> (\<not> po_Indeterminate ob \<longrightarrow> validProgressHash (po_Fingerprint ob))
     \<and> (po_Indeterminate ob \<longrightarrow> po_Fingerprint ob = [])"

text \<open>
  The loop over \<open>f.Observations\<close>: the memories \<open>(trees, evidence)\<close>, the flags
  \<open>(novel, uncertain)\<close> and the effect IDs seen so far are its loop variables.
\<close>

fun observe_loop :: "progress_observation list \<Rightarrow> string list \<Rightarrow> string list \<Rightarrow> bool \<Rightarrow> bool
     \<Rightarrow> string list \<Rightarrow> err + string list \<times> string list \<times> bool \<times> bool" where
  "observe_loop [] trees evidence novel uncertain seen = Inr (trees, evidence, novel, uncertain)"
| "observe_loop (ob # obs) trees evidence novel uncertain seen =
     (if \<not> valid_observation ob \<or> po_EffectID ob \<in> set seen then Inl ErrUntrusted
      else
        let trees0 = (if trees = [] then fst (remember trees (po_BeforeHash ob) ProgressTreeWindow)
                      else trees);
            (trees1, newTree) = remember trees0 (po_AfterHash ob) ProgressTreeWindow;
            (evidence1, newEvidence) =
              (if po_Indeterminate ob then (evidence, False)
               else remember evidence (po_Fingerprint ob) ProgressEvidenceWindow)
        in observe_loop obs trees1 evidence1 (novel \<or> newTree \<or> newEvidence)
             (uncertain \<or> po_Indeterminate ob) (po_EffectID ob # seen))"

definition empty_frame :: progress_frame where
  "empty_frame = \<lparr>pf_ContextRef = [], pf_PolicyVersion = ProgressPolicyVersion, pf_StepSeq = 0,
     pf_MessageSeq = 0, pf_AttemptID = [], pf_VerificationRef = [], pf_Observations = []\<rparr>"

text \<open>Which frame is assessed: an absent one stands for the empty initial context.\<close>

definition progress_frame_of :: "state \<Rightarrow> event \<Rightarrow> progress_frame option" where
  "progress_frame_of s e =
     (if ev_Progress e = None \<and> st_StepSeq s = 0 then Some empty_frame else ev_Progress e)"

definition classify_batch :: "progress_state \<Rightarrow> progress_frame \<Rightarrow> bool \<Rightarrow> bool \<Rightarrow> u64 \<times> string" where
  "classify_batch p f novel uncertain =
     (if ps_MessageSeq p < pf_MessageSeq f then (0, ''message'')
      else if novel then (0, ''new_evidence'')
      else if uncertain then (0, ''indeterminate'')
      else (ps_RepeatedBatches p + 1, ''repeated''))"

definition observeProgress :: "state \<Rightarrow> event \<Rightarrow> err + state" where
  "observeProgress s e =
     (if lm_MaxNoProgressBatches (st_Limits s) = 0 then Inr s
      else
        (case progress_frame_of s e of
           None \<Rightarrow> Inl ErrInvalid
         | Some f \<Rightarrow>
             if (pf_ContextRef f \<noteq> [] \<and> pf_ContextRef f \<noteq> ev_OutputRef e)
                \<or> pf_PolicyVersion f \<noteq> ProgressPolicyVersion
                \<or> pf_StepSeq f \<noteq> st_StepSeq s \<or> 64 < pf_MessageSeq f
                \<or> 130 < length (pf_Observations f)
                \<or> st_PendingEffect s \<noteq> None \<or> st_RemainingEffects s \<noteq> []
             then Inl ErrInvalid
             else if (case st_Progress s of
                         None \<Rightarrow> False
                       | Some p \<Rightarrow> pf_MessageSeq f < ps_MessageSeq p
                                  \<or> pf_StepSeq f \<le> ps_LastCheckedStep p)
             then Inl ErrConflict
             else if pf_StepSeq f = 0 then
               (if pf_AttemptID f \<noteq> [] \<or> pf_Observations f \<noteq> [] \<or> pf_VerificationRef f \<noteq> []
                then Inl ErrInvalid
                else Inr (s\<lparr>st_Progress := Some \<lparr>ps_LastCheckedStep = 0,
                       ps_MessageSeq = pf_MessageSeq f, ps_RepeatedBatches = 0,
                       ps_Classification = ''initial'', ps_RecentEvidence = [],
                       ps_RecentTrees = []\<rparr>\<rparr>))
             else if pf_AttemptID f = [] \<or> pf_Observations f = [] \<or> ev_ProgressRef e = []
             then Inl ErrUntrusted
             else
               (case st_Progress s of
                  None \<Rightarrow> Inl ErrInvalid
                | Some p \<Rightarrow>
                    (case observe_loop (pf_Observations f) (ps_RecentTrees p)
                            (ps_RecentEvidence p) False False [] of
                       Inl er \<Rightarrow> Inl er
                     | Inr (trees, evidence, novel, uncertain) \<Rightarrow>
                         let (rep, cls) = classify_batch p f novel uncertain in
                         Inr (s\<lparr>st_Progress := Some \<lparr>ps_LastCheckedStep = pf_StepSeq f,
                           ps_MessageSeq = pf_MessageSeq f, ps_RepeatedBatches = rep,
                           ps_Classification = cls, ps_RecentEvidence = evidence,
                           ps_RecentTrees = trees\<rparr>\<rparr>)))))"

subsection \<open>The bounded memory\<close>

lemma remember_lastn:
  "remember xs v cap = (if v \<in> set xs then (xs, False) else (lastn cap (xs @ [v]), True))"
  by (simp add: remember_def lastn_def Let_def)

definition hash_memory :: "nat \<Rightarrow> string list \<Rightarrow> bool" where
  "hash_memory cap xs \<longleftrightarrow> valid_hash_list xs \<and> length xs \<le> cap"

lemma remember_memory:
  assumes "hash_memory cap xs" and "validProgressHash v"
  shows "hash_memory cap (fst (remember xs v cap))"
proof -
  have "set (lastn cap (xs @ [v])) \<subseteq> insert v (set xs)" using set_lastn_subset by fastforce
  moreover have "distinct (lastn cap (xs @ [v]))" if "v \<notin> set xs"
    using assms(1) that by (intro distinct_lastn) (simp add: hash_memory_def valid_hash_list_def)
  ultimately show ?thesis
    using assms
    by (auto simp: remember_lastn hash_memory_def valid_hash_list_def list_all_iff length_lastn)
qed

text \<open>One turn of the loop over the observations.\<close>

definition observe_trees :: "progress_observation \<Rightarrow> string list \<Rightarrow> string list \<times> bool" where
  "observe_trees ob trees =
     remember (if trees = [] then fst (remember trees (po_BeforeHash ob) ProgressTreeWindow) else trees)
       (po_AfterHash ob) ProgressTreeWindow"

definition observe_evidence :: "progress_observation \<Rightarrow> string list \<Rightarrow> string list \<times> bool" where
  "observe_evidence ob evidence =
     (if po_Indeterminate ob then (evidence, False)
      else remember evidence (po_Fingerprint ob) ProgressEvidenceWindow)"

lemma observe_loop_Cons:
  "observe_loop (ob # obs) trees evidence novel uncertain seen =
     (if \<not> valid_observation ob \<or> po_EffectID ob \<in> set seen then Inl ErrUntrusted
      else observe_loop obs (fst (observe_trees ob trees)) (fst (observe_evidence ob evidence))
             (novel \<or> snd (observe_trees ob trees) \<or> snd (observe_evidence ob evidence))
             (uncertain \<or> po_Indeterminate ob) (po_EffectID ob # seen))"
  by (simp add: observe_trees_def observe_evidence_def Let_def split: prod.split)

lemma observe_memory:
  assumes "valid_observation ob"
  shows "hash_memory ProgressTreeWindow trees \<Longrightarrow> hash_memory ProgressTreeWindow (fst (observe_trees ob trees))"
    and "hash_memory ProgressEvidenceWindow evidence \<Longrightarrow> hash_memory ProgressEvidenceWindow (fst (observe_evidence ob evidence))"
  using assms remember_memory [of ProgressTreeWindow "[]"]
  by (auto simp: observe_trees_def observe_evidence_def valid_observation_def intro!: remember_memory)

lemma observe_loop_memory:
  assumes "observe_loop obs trees evidence novel uncertain seen = Inr (trees', evidence', novel', uncertain')"
    and "hash_memory ProgressTreeWindow trees" and "hash_memory ProgressEvidenceWindow evidence"
  shows "hash_memory ProgressTreeWindow trees' \<and> hash_memory ProgressEvidenceWindow evidence'"
  using assms
proof (induction obs arbitrary: trees evidence novel uncertain seen)
  case (Cons ob obs)
  have ok: "valid_observation ob" "po_EffectID ob \<notin> set seen"
    and rest: "observe_loop obs (fst (observe_trees ob trees)) (fst (observe_evidence ob evidence))
             (novel \<or> snd (observe_trees ob trees) \<or> snd (observe_evidence ob evidence))
             (uncertain \<or> po_Indeterminate ob) (po_EffectID ob # seen) = Inr (trees', evidence', novel', uncertain')"
    using Cons.prems(1) unfolding observe_loop_Cons by (auto split: if_splits)
  show ?case by (rule Cons.IH [OF rest observe_memory(1) [OF ok(1) Cons.prems(2)] observe_memory(2) [OF ok(1) Cons.prems(3)]])
qed simp

text \<open>An observation that the memory already holds changes nothing.\<close>

definition known_observation :: "string list \<Rightarrow> string list \<Rightarrow> progress_observation \<Rightarrow> bool" where
  "known_observation trees evidence ob \<longleftrightarrow> po_AfterHash ob \<in> set trees
     \<and> (po_Indeterminate ob \<or> po_Fingerprint ob \<in> set evidence)"

lemma observe_known:
  assumes "trees \<noteq> []"
  shows "\<not> snd (observe_trees ob trees) \<and> \<not> snd (observe_evidence ob evidence)
      \<longleftrightarrow> known_observation trees evidence ob"
    and "known_observation trees evidence ob \<Longrightarrow> fst (observe_trees ob trees) = trees \<and> fst (observe_evidence ob evidence) = evidence"
  using assms by (auto simp: observe_trees_def observe_evidence_def known_observation_def remember_lastn)

lemma observe_loop_novel_stays:
  "observe_loop obs trees evidence True uncertain seen = Inr (trees', evidence', novel', uncertain') \<Longrightarrow> novel'"
proof (induction obs arbitrary: trees evidence uncertain seen)
  case (Cons ob obs)
  then show ?case unfolding observe_loop_Cons by (auto split: if_splits)
qed simp

lemma observe_loop_uncertain:
  "observe_loop obs trees evidence novel uncertain seen = Inr (trees', evidence', novel', uncertain')
    \<Longrightarrow> uncertain' \<longleftrightarrow> uncertain \<or> list_ex po_Indeterminate obs"
proof (induction obs arbitrary: trees evidence novel uncertain seen)
  case (Cons ob obs)
  then show ?case unfolding observe_loop_Cons by (fastforce split: if_splits)
qed simp

lemma observe_loop_novel:
  assumes "observe_loop obs trees evidence False uncertain seen = Inr (trees', evidence', novel', uncertain')"
    and "trees \<noteq> []"
  shows "if list_all (known_observation trees evidence) obs
         then \<not> novel' \<and> trees' = trees \<and> evidence' = evidence else novel'"
  using assms(1)
proof (induction obs arbitrary: uncertain seen)
  case (Cons ob obs)
  show ?case
  proof (cases "known_observation trees evidence ob")
    case True
    then show ?thesis
      using Cons observe_known(1) [OF assms(2), where ob = ob and evidence = evidence]
        observe_known(2) [OF assms(2) True] unfolding observe_loop_Cons
      by (auto split: if_splits)
  next
    case False
    then have "snd (observe_trees ob trees) \<or> snd (observe_evidence ob evidence)"
      using observe_known(1) [OF assms(2)] by blast
    then have novel'
      using Cons.prems unfolding observe_loop_Cons by (auto split: if_splits dest: observe_loop_novel_stays)
    then show ?thesis using False by simp
  qed
qed simp


subsection \<open>Closing a batch\<close>

lemma validateProgressState_SomeD:
  assumes "validateProgressState s = None" and "st_Progress s = Some p"
  shows "hash_memory ProgressTreeWindow (ps_RecentTrees p)"
    and "hash_memory ProgressEvidenceWindow (ps_RecentEvidence p)"
    and "ps_LastCheckedStep p \<le> st_StepSeq s"
    and "ps_RepeatedBatches p \<le> lm_MaxNoProgressBatches (st_Limits s)"
  using assms by (auto simp: validateProgressState_def hash_memory_def split: if_splits)

lemma observeProgress_cases:
  assumes "observeProgress s e = Inr n" and "lm_MaxNoProgressBatches (st_Limits s) \<noteq> 0"
  obtains (initial) f where "st_StepSeq s = 0" "progress_frame_of s e = Some f" "pf_MessageSeq f \<le> 64"
      "n = s\<lparr>st_Progress := Some \<lparr>ps_LastCheckedStep = 0,
                       ps_MessageSeq = pf_MessageSeq f, ps_RepeatedBatches = 0,
                       ps_Classification = ''initial'', ps_RecentEvidence = [],
                       ps_RecentTrees = []\<rparr>\<rparr>"
  | (batch) f p trees evidence novel uncertain where
      "st_StepSeq s \<noteq> 0" "ev_Progress e = Some f" "pf_StepSeq f = st_StepSeq s" "pf_MessageSeq f \<le> 64"
      "st_Progress s = Some p" "ps_MessageSeq p \<le> pf_MessageSeq f" "ps_LastCheckedStep p < st_StepSeq s"
      "observe_loop (pf_Observations f) (ps_RecentTrees p) (ps_RecentEvidence p) False False []
         = Inr (trees, evidence, novel, uncertain)"
      "n = s\<lparr>st_Progress := Some \<lparr>ps_LastCheckedStep = st_StepSeq s,
                           ps_MessageSeq = pf_MessageSeq f, ps_RepeatedBatches = fst (classify_batch p f novel uncertain),
                           ps_Classification = snd (classify_batch p f novel uncertain), ps_RecentEvidence = evidence,
                           ps_RecentTrees = trees\<rparr>\<rparr>"
proof (cases "st_StepSeq s = 0")
  case True
  then show thesis using assms initial
    by (auto simp: observeProgress_def not_less split: if_splits option.splits)
next
  case False
  then show thesis using assms batch
    by (auto simp: observeProgress_def progress_frame_of_def not_less not_le case_prod_beta Let_def
        split: if_splits option.splits sum.splits prod.splits)
qed

lemma observeProgress_valid:
  assumes ok: "observeProgress s e = Inr n" and v: "validateProgressState s = None"
    and left: "\<And>p. st_Progress s = Some p \<Longrightarrow> ps_RepeatedBatches p < lm_MaxNoProgressBatches (st_Limits s)"
  shows "validateProgressState n = None"
proof (cases "lm_MaxNoProgressBatches (st_Limits s) = 0")
  case True
  then show ?thesis using ok v by (simp add: observeProgress_def)
next
  case False
  from ok False show ?thesis
  proof (cases rule: observeProgress_cases)
    case (initial f)
    then show ?thesis using v False
      by (auto simp: validateProgressState_def valid_hash_list_def progress_classes_def split: if_splits)
  next
    case (batch f p trees evidence novel uncertain)
    have "hash_memory ProgressTreeWindow trees \<and> hash_memory ProgressEvidenceWindow evidence"
      using observe_loop_memory [OF batch(8)] validateProgressState_SomeD(1,2) [OF v batch(5)] by blast
    moreover have "fst (classify_batch p f novel uncertain) \<le> lm_MaxNoProgressBatches (st_Limits s)"
      using left [OF batch(5)] by (simp add: classify_batch_def inc_le_word)
    moreover have "snd (classify_batch p f novel uncertain) \<in> set progress_classes"
      by (simp add: classify_batch_def progress_classes_def)
    ultimately show ?thesis using v False batch
      by (auto simp: validateProgressState_def hash_memory_def not_less split: if_splits)
  qed
qed

end
