(* ===== verification/Runtime_Reducer.thy ===== *)
theory Runtime_Reducer
  imports Runtime_Progress
begin

section \<open>The deterministic reducer of one run (internal/runtime/reducer.go)\<close>

text \<open>
  \<open>Transition\<close> with every helper it calls, in the order of the source. The helpers that
  mutate \<open>next\<close> through a pointer return the new state; where the source returns an error
  after a partial mutation the mutation is lost, because \<open>Transition\<close> then returns the
  original state. \<open>sha\<close> is the hexadecimal SHA-256 digest of a byte string: nothing below
  depends on which function it is.
\<close>

subsection \<open>Predicates\<close>

definition unsettled :: "effect option \<Rightarrow> bool" where
  "unsettled eo = (case eo of
      None \<Rightarrow> False
    | Some e \<Rightarrow> ef_Status e = EffectInFlight \<or> ef_Status e = EffectUnknown)"

definition controlEvent :: "event_kind \<Rightarrow> bool" where
  "controlEvent k \<longleftrightarrow> k = EventCancelRequested \<or> k = EventApprovalDecided \<or> k = EventResumeRequested"

definition allowedDuringStop :: "event_kind \<Rightarrow> bool" where
  "allowedDuringStop k \<longleftrightarrow> k = EventClaimed \<or> k = EventCancelRequested
     \<or> k = EventCancellationConfirmed \<or> k = EventReconciled"

definition allowedDuringReconciliation :: "event_kind \<Rightarrow> bool" where
  "allowedDuringReconciliation k \<longleftrightarrow> k = EventClaimed \<or> k = EventCancelRequested
     \<or> k = EventResumeRequested \<or> k = EventReconciled \<or> k = EventWorkspaceAdopted"

definition approvalMatches :: "approval_binding \<Rightarrow> effect \<Rightarrow> u64 \<Rightarrow> bool" where
  "approvalMatches a e revision \<longleftrightarrow>
     ap_EffectID a = ef_ID e \<and> ap_ArgsHash a = ef_ArgsHash e
     \<and> ap_WorkspaceRevision a = revision \<and> ef_ExpectedRevision e = revision
     \<and> ap_PolicyVersion a = ef_PolicyVersion e"

definition requireStage :: "state \<Rightarrow> stage \<Rightarrow> err + unit" where
  "requireStage s g = require (st_Status s = StatusRunning \<and> st_Stage s = g) ErrTransition"

definition budgetReached :: "state \<Rightarrow> event \<Rightarrow> bool \<Rightarrow> bool \<Rightarrow> bool" where
  "budgetReached s e model tool \<longleftrightarrow>
     (lm_Deadline (st_Limits s) \<noteq> 0 \<and> \<not> ev_At e < lm_Deadline (st_Limits s))
     \<or> (0 < lm_MaxCost (st_Limits s) \<and> lm_MaxCost (st_Limits s) \<le> st_Cost s)
     \<or> (model \<and> 0 < lm_MaxModelRounds (st_Limits s)
        \<and> lm_MaxModelRounds (st_Limits s) \<le> st_ModelRounds s)
     \<or> (tool \<and> 0 < lm_MaxToolCalls (st_Limits s)
        \<and> lm_MaxToolCalls (st_Limits s) \<le> st_ToolCalls s)
     \<or> (model \<and> (st_ModelRounds s = max_uint64 \<or> st_StepSeq s = max_uint64))
     \<or> (tool \<and> st_ToolCalls s = max_uint64)"

subsection \<open>Validation of effects and snapshots\<close>

definition has_brace_prefix :: "bytes \<Rightarrow> bool" where
  "has_brace_prefix s \<longleftrightarrow> take 1 (trim_left s) = ''{''"

definition validateEffect :: "(bytes \<Rightarrow> string) \<Rightarrow> effect \<Rightarrow> err option" where
  "validateEffect sha e =
     (case ValidateCanonicalJSON (ef_Args e) of
        Some er \<Rightarrow> Some er
      | None \<Rightarrow>
        (case ID_Validate (ef_ID e) of
           Some er \<Rightarrow> Some er
         | None \<Rightarrow>
           if blank (ef_Kind e) \<or> ef_PolicyVersion e = [] \<or> 262144 < length (ef_Args e)
              \<or> \<not> json_valid (ef_Args e) \<or> \<not> has_brace_prefix (ef_Args e)
              \<or> (ef_Status e \<noteq> EffectOther [] \<and> ef_Status e \<noteq> EffectPlanned)
              \<or> ef_DispatchEpoch e \<noteq> 0 \<or> ef_ReceiptRef e \<noteq> []
           then Some ErrInvalid
           else if ef_ArgsHash e \<noteq> sha (ef_Args e) then Some ErrConflict
           else None))"

text \<open>
  The loop over a batch: every effect is valid and no operation ID repeats. \<open>dup\<close> is the
  error of a repetition: \<open>ErrInvalid\<close> in a snapshot, \<open>ErrConflict\<close> in a tool batch.
\<close>

fun check_batch :: "(bytes \<Rightarrow> string) \<Rightarrow> err \<Rightarrow> string list \<Rightarrow> effect list \<Rightarrow> err option" where
  "check_batch sha dup seen [] = None"
| "check_batch sha dup seen (e # es) =
     (case validateEffect sha e of
        Some er \<Rightarrow> Some er
      | None \<Rightarrow> if ef_ID e \<in> set seen then Some dup
                else check_batch sha dup (ef_ID e # seen) es)"

text \<open>The checks of \<open>validateState\<close> on the pending effect.\<close>

definition validate_pending :: "(bytes \<Rightarrow> string) \<Rightarrow> state \<Rightarrow> err option" where
  "validate_pending sha s =
     (case st_PendingEffect s of
        None \<Rightarrow> None
      | Some e \<Rightarrow>
          if ef_ID e \<in> ef_ID ` set (st_RemainingEffects s) then Some ErrInvalid
          else
            (case validateEffect sha
                    (e\<lparr>ef_Status := EffectPlanned, ef_DispatchEpoch := 0, ef_ReceiptRef := []\<rparr>) of
               Some er \<Rightarrow> Some er
             | None \<Rightarrow>
                 if ef_ExpectedRevision e = 0 then Some ErrInvalid
                 else
                   (case ef_Status e of
                      EffectPlanned \<Rightarrow>
                        if ef_DispatchEpoch e \<noteq> 0 \<or> ef_ReceiptRef e \<noteq> [] then Some ErrInvalid
                        else None
                    | EffectInFlight \<Rightarrow>
                        if ef_DispatchEpoch e = 0 \<or> ef_ReceiptRef e \<noteq> [] then Some ErrInvalid
                        else if st_Status s \<noteq> StatusCancelRequested
                                \<and> st_Stage s \<noteq> StageExecuteEffects
                                \<and> st_Stage s \<noteq> StageAdoptWorkspace
                                \<and> st_Stage s \<noteq> StageReconcile then Some ErrInvalid
                        else None
                    | EffectUnknown \<Rightarrow>
                        if ef_DispatchEpoch e = 0 \<or> ef_ReceiptRef e \<noteq> [] then Some ErrInvalid
                        else if st_Status s \<noteq> StatusCancelRequested
                                \<and> st_Stage s \<noteq> StageExecuteEffects
                                \<and> st_Stage s \<noteq> StageAdoptWorkspace
                                \<and> st_Stage s \<noteq> StageReconcile then Some ErrInvalid
                        else None
                    | EffectOther _ \<Rightarrow> Some ErrInvalid
                    | _ \<Rightarrow>
                        if ef_DispatchEpoch e = 0 \<or> ef_ReceiptRef e = [] then Some ErrInvalid
                        else None)))"

definition waiting_inconsistent :: "state \<Rightarrow> bool" where
  "waiting_inconsistent s \<longleftrightarrow>
     st_Stage s \<noteq> StageApprovalGate \<or> ls_Owner (st_Lease s) \<noteq> []
     \<or> (case st_PendingEffect s of
          None \<Rightarrow> True
        | Some e \<Rightarrow> ef_Status e \<noteq> EffectPlanned \<or> \<not> ef_RequiresApproval e)
     \<or> (case st_Approval s of None \<Rightarrow> True | Some a \<Rightarrow> ap_Granted a)"

definition approval_unbound :: "state \<Rightarrow> bool" where
  "approval_unbound s =
     (case st_Approval s of
        None \<Rightarrow> False
      | Some a \<Rightarrow>
          (case st_PendingEffect s of
             None \<Rightarrow> True
           | Some e \<Rightarrow> \<not> ef_RequiresApproval e \<or> ap_Version a = 0
                       \<or> \<not> approvalMatches a e (st_WorkspaceRevision s)))"

text \<open>The checks of \<open>validateState\<close> before the effects: header, status and stage agree.\<close>

definition validate_shape :: "state \<Rightarrow> err option" where
  "validate_shape s =
     (if (st_SchemaVersion s \<noteq> 1 \<and> st_SchemaVersion s \<noteq> SnapshotSchemaVersion)
         \<or> st_Version s = 0 \<or> \<not> RunStatus_Valid (st_Status s) \<or> \<not> Stage_Valid (st_Stage s)
         \<or> st_Cost s < 0 \<or> lm_MaxCost (st_Limits s) < 0 then Some ErrInvalid
      else
        (case validateProgressState s of
           Some er \<Rightarrow> Some er
         | None \<Rightarrow>
           if ID_Validate (st_RunID s) \<noteq> None then ID_Validate (st_RunID s)
           else if ID_Validate (st_TenantID s) \<noteq> None then ID_Validate (st_TenantID s)
           else if RunStatus_Terminal (st_Status s)
                   \<and> (st_Stage s \<noteq> StageStopped \<or> unsettled (st_PendingEffect s))
           then Some ErrInvalid
           else if \<not> RunStatus_Terminal (st_Status s) \<and> st_Stage s = StageStopped
           then Some ErrInvalid
           else if (if st_Status s = StatusCancelRequested
                    then st_StopTarget s \<noteq> StatusCancelled \<and> st_StopTarget s \<noteq> StatusFailed
                         \<and> st_StopTarget s \<noteq> StatusBudgetExhausted
                    else st_StopTarget s \<noteq> no_status
                         \<and> (\<not> RunStatus_Terminal (st_Status s) \<or> st_StopTarget s \<noteq> st_Status s))
           then Some ErrInvalid
           else if st_Status s = StatusRunning
                   \<and> (ls_Owner (st_Lease s) = [] \<or> ls_Epoch (st_Lease s) = 0)
           then Some ErrInvalid
           else if st_Status s = StatusQueued
                   \<and> (ls_Owner (st_Lease s) \<noteq> [] \<or> unsettled (st_PendingEffect s))
           then Some ErrInvalid
           else if st_Status s = StatusNeedsReconciliation \<and> st_Stage s \<noteq> StageReconcile
                   \<and> st_Stage s \<noteq> StageAdoptWorkspace
           then Some ErrInvalid
           else if st_Status s = StatusWaitingApproval \<and> waiting_inconsistent s
           then Some ErrInvalid
           else if 128 < length (st_RemainingEffects s) then Some ErrInvalid
           else None))"

definition validate_evidence :: "state \<Rightarrow> err option" where
  "validate_evidence s =
     (if approval_unbound s then Some ErrInvalid
      else if st_Status s = StatusRunning \<and> st_Stage s = StageExecuteEffects
              \<and> \<not> unsettled (st_PendingEffect s)
      then Some ErrInvalid
      else if st_Verification s \<noteq> VerificationUnverified
              \<and> st_Verification s \<noteq> VerificationRegressionOnly
              \<and> st_Verification s \<noteq> VerificationVerified
      then Some ErrInvalid
      else if st_Verification s \<noteq> VerificationUnverified
              \<and> (st_VerificationReportRef s = []
                 \<or> st_VerificationRevision s \<noteq> st_WorkspaceRevision s)
      then Some ErrInvalid
      else None)"

definition validateState :: "(bytes \<Rightarrow> string) \<Rightarrow> state \<Rightarrow> err option" where
  "validateState sha s =
     (case validate_shape s of
        Some er \<Rightarrow> Some er
      | None \<Rightarrow>
        (case check_batch sha ErrInvalid [] (st_RemainingEffects s) of
           Some er \<Rightarrow> Some er
         | None \<Rightarrow>
           (case validate_pending sha s of
              Some er \<Rightarrow> Some er
            | None \<Rightarrow> validate_evidence s)))"

abbreviation valid_state :: "(bytes \<Rightarrow> string) \<Rightarrow> state \<Rightarrow> bool" where
  "valid_state sha s \<equiv> validateState sha s = None"

subsection \<open>Scheduling effects\<close>

type_synonym step = "err + state \<times> command list"

definition stop :: "state \<Rightarrow> run_status \<Rightarrow> string \<Rightarrow> state \<times> command list" where
  "stop next target reason =
     (next\<lparr>st_StopTarget := target, st_Status := StatusCancelRequested,
           st_FailureReason := reason\<rparr>,
      command_of CommandStopExecution)"

text \<open>Callers pass a state whose pending effect is present; a nil pointer would panic.\<close>

definition dispatchEffect :: "state \<Rightarrow> state \<times> command list" where
  "dispatchEffect next =
     (let pending = map_option (\<lambda>e. e\<lparr>ef_Status := EffectInFlight,
                      ef_DispatchEpoch := ls_Epoch (st_Lease next)\<rparr>) (st_PendingEffect next) in
      (next\<lparr>st_Stage := StageExecuteEffects, st_PendingEffect := pending,
            st_ToolCalls := st_ToolCalls next + 1\<rparr>,
       effect_command CommandExecuteEffect pending))"

definition scheduleEffect :: "state \<Rightarrow> event \<Rightarrow> state \<times> command list" where
  "scheduleEffect next e =
     (case st_RemainingEffects next of
        [] \<Rightarrow> (next\<lparr>st_Stage := StageIngestResults\<rparr>, command_of CommandIngestResults)
      | first # rest \<Rightarrow>
          if budgetReached next e False True
          then stop next StatusBudgetExhausted ''tool budget reached''
          else
            let ef = first\<lparr>ef_ExpectedRevision := st_WorkspaceRevision next,
                           ef_Status := EffectPlanned\<rparr>;
                next1 = next\<lparr>st_RemainingEffects := rest, st_PendingEffect := Some ef\<rparr> in
            if ef_RequiresApproval ef then
              let binding = \<lparr>ap_EffectID = ef_ID ef, ap_ArgsHash = ef_ArgsHash ef,
                             ap_WorkspaceRevision = st_WorkspaceRevision next,
                             ap_PolicyVersion = ef_PolicyVersion ef,
                             ap_Version = 1, ap_Granted = False\<rparr> in
              (next1\<lparr>st_Approval := Some binding, st_Status := StatusWaitingApproval,
                     st_Stage := StageApprovalGate,
                     st_Lease := (st_Lease next)\<lparr>ls_Owner := [], ls_Until := ev_At e\<rparr>\<rparr>,
               [\<lparr>cm_Kind = CommandRequestApproval, cm_Effect = Some ef,
                 cm_Binding = Some binding\<rparr>])
            else dispatchEffect next1)"

definition commandForStage :: "state \<Rightarrow> step" where
  "commandForStage next =
     (case st_Stage next of
        StageBuildContext \<Rightarrow> Inr (next, command_of CommandBuildContext)
      | StageModel \<Rightarrow> Inr (next, command_of CommandCallModel)
      | StageValidateTools \<Rightarrow> Inr (next, command_of CommandValidateTools)
      | StageIngestResults \<Rightarrow> Inr (next, command_of CommandIngestResults)
      | StageVerify \<Rightarrow> Inr (next, command_of CommandVerify)
      | StageFinalize \<Rightarrow> Inr (next, command_of CommandFinalize)
      | StageExecuteEffects \<Rightarrow>
          (case st_PendingEffect next of
             None \<Rightarrow> Inl ErrReconciliation
           | Some e \<Rightarrow>
               if ef_Status e \<noteq> EffectPlanned then Inl ErrReconciliation
               else if ef_RequiresApproval e
                       \<and> (case st_Approval next of
                            None \<Rightarrow> True
                          | Some a \<Rightarrow> \<not> ap_Granted a
                              \<or> \<not> approvalMatches a e (st_WorkspaceRevision next))
               then Inl ErrConflict
               else Inr (dispatchEffect next))
      | _ \<Rightarrow> Inl ErrTransition)"

subsection \<open>Handlers\<close>

definition claim :: "state \<Rightarrow> event \<Rightarrow> step" where
  "claim next e =
     (case ev_Lease e of
        None \<Rightarrow> Inl ErrFenced
      | Some l \<Rightarrow>
          if \<not> Lease_ValidAt l (ev_At e) \<or> ls_Epoch l \<le> ls_Epoch (st_Lease next)
             \<or> Lease_ValidAt (st_Lease next) (ev_At e)
             \<or> ev_Owner e \<noteq> ls_Owner l \<or> ev_Epoch e \<noteq> ls_Epoch l
          then Inl ErrFenced
          else if st_Status next \<noteq> StatusQueued \<and> st_Status next \<noteq> StatusRunning
                  \<and> st_Status next \<noteq> StatusNeedsReconciliation
                  \<and> st_Status next \<noteq> StatusCancelRequested
          then Inl ErrTransition
          else
            let n1 = next\<lparr>st_Lease := l\<rparr> in
            if st_Status n1 = StatusCancelRequested
            then Inr (n1, command_of CommandStopExecution)
            else
              let n2 = (if st_Status n1 \<noteq> StatusNeedsReconciliation
                        then n1\<lparr>st_Status := StatusRunning\<rparr> else n1) in
              if st_WorkspaceRevision n2 \<noteq> 0 then
                let n3 = (if st_Stage n2 \<noteq> StageAdoptWorkspace
                          then n2\<lparr>st_ResumeStage := st_Stage n2\<rparr> else n2) in
                Inr (n3\<lparr>st_Stage := StageAdoptWorkspace\<rparr>, command_of CommandAdoptWorkspace)
              else if st_Stage n2 \<noteq> StageInitialize \<or> st_PendingEffect n2 \<noteq> None
              then Inl ErrInvalid
              else Inr (n2, command_of CommandInitializeWorkspace))"

definition capacity_rejected :: "state \<Rightarrow> event \<Rightarrow> step" where
  "capacity_rejected next e =
     (if st_Status next \<noteq> StatusRunning \<or> st_Stage next \<noteq> StageInitialize
         \<or> st_WorkspaceRevision next \<noteq> 0 \<or> st_StepSeq next \<noteq> 0 \<or> st_ModelRounds next \<noteq> 0
         \<or> st_ToolCalls next \<noteq> 0 \<or> st_Cost next \<noteq> 0 \<or> st_OutputRef next \<noteq> []
         \<or> st_PendingEffect next \<noteq> None \<or> st_RemainingEffects next \<noteq> []
         \<or> st_Approval next \<noteq> None \<or> st_ResumeStage next \<noteq> no_stage
      then Inl ErrTransition
      else
        (case ev_NotBefore e of
           None \<Rightarrow> Inl ErrInvalid
         | Some nb \<Rightarrow>
             if \<not> ev_At e < nb then Inl ErrInvalid
             else Inr (next\<lparr>st_Status := StatusQueued,
                         st_Lease := zero_lease\<lparr>ls_Epoch := ls_Epoch (st_Lease next)\<rparr>\<rparr>, [])))"

definition workspace_ready :: "state \<Rightarrow> event \<Rightarrow> step" where
  "workspace_ready next e =
     res_bind (requireStage next StageInitialize) (\<lambda>_.
       if ev_OutputRef e = [] \<or> ev_WorkspaceRevision e = 0 then Inl ErrInvalid
       else Inr (next\<lparr>st_WorkspaceRevision := ev_WorkspaceRevision e,
                      st_OutputRef := ev_OutputRef e, st_Stage := StageBuildContext\<rparr>,
                 command_of CommandBuildContext))"

definition adopt :: "state \<Rightarrow> event \<Rightarrow> step" where
  "adopt next e =
     (if st_Stage next \<noteq> StageAdoptWorkspace
         \<or> (st_Status next \<noteq> StatusRunning \<and> st_Status next \<noteq> StatusNeedsReconciliation)
      then Inl ErrTransition
      else
        (case ev_Stop e of
           None \<Rightarrow> Inl ErrUntrusted
         | Some sr \<Rightarrow>
             if \<not> sr_NoActiveOperations sr \<or> sr_Ref sr = []
                \<or> sr_WorkspaceRevision sr < st_WorkspaceRevision next
             then Inl ErrUntrusted
             else if unsettled (st_PendingEffect next) then
               Inr (next\<lparr>st_ReconciliationRevision := sr_WorkspaceRevision sr,
                         st_Status := StatusNeedsReconciliation, st_Stage := StageReconcile\<rparr>,
                    effect_command CommandInspectEffect (st_PendingEffect next))
             else if sr_WorkspaceRevision sr \<noteq> st_WorkspaceRevision next then
               Inr (next\<lparr>st_Status := StatusNeedsReconciliation, st_Stage := StageReconcile,
                         st_FailureReason := ''workspace changed without a pending ledger effect''\<rparr>,
                    [])
             else
               let n1 = next\<lparr>st_Stage := st_ResumeStage next, st_ResumeStage := no_stage\<rparr> in
               if st_Stage n1 = StageReconcile then Inl ErrReconciliation
               else if budgetReached n1 e False (st_Stage n1 = StageExecuteEffects)
               then Inr (stop n1 StatusBudgetExhausted
                           ''budget reached while workspace was suspended'')
               else commandForStage n1))"

definition context_built :: "state \<Rightarrow> event \<Rightarrow> step" where
  "context_built next e =
     res_bind (requireStage next StageBuildContext) (\<lambda>_.
       if ev_OutputRef e = [] then Inl ErrInvalid
       else
         res_bind (observeProgress next e) (\<lambda>n1.
           if budgetReached n1 e True False
           then Inr (stop n1 StatusBudgetExhausted ''model budget reached'')
           else if (case st_Progress n1 of
                      None \<Rightarrow> False
                    | Some p \<Rightarrow> 0 < lm_MaxNoProgressBatches (st_Limits n1)
                        \<and> lm_MaxNoProgressBatches (st_Limits n1) \<le> ps_RepeatedBatches p)
           then Inr (stop n1 StatusBudgetExhausted ''repeated_no_progress'')
           else Inr (n1\<lparr>st_OutputRef := ev_OutputRef e, st_Stage := StageModel,
                        st_ModelRounds := st_ModelRounds n1 + 1,
                        st_StepSeq := st_StepSeq n1 + 1\<rparr>,
                     command_of CommandCallModel)))"

definition model_completed :: "state \<Rightarrow> event \<Rightarrow> step" where
  "model_completed next e =
     res_bind (requireStage next StageModel) (\<lambda>_.
       if \<not> ev_Complete e \<or> ev_OutputRef e = [] then Inl ErrInvalid
       else
         res_bind (Money_Add (st_Cost next) (ev_Cost e)) (\<lambda>cost.
           let n1 = next\<lparr>st_Cost := cost, st_OutputRef := ev_OutputRef e\<rparr> in
           if budgetReached n1 e False False
           then Inr (stop n1 StatusBudgetExhausted ''cost or runtime budget reached'')
           else if ev_Finish e
           then Inr (n1\<lparr>st_Stage := StageVerify\<rparr>, command_of CommandVerify)
           else Inr (n1\<lparr>st_Stage := StageValidateTools\<rparr>, command_of CommandValidateTools)))"

definition tools_validated :: "(bytes \<Rightarrow> string) \<Rightarrow> state \<Rightarrow> event \<Rightarrow> step" where
  "tools_validated sha next e =
     res_bind (requireStage next StageValidateTools) (\<lambda>_.
       if ev_OutputRef e = [] \<or> \<not> ev_Complete e \<or> ev_Effects e = [] then Inl ErrInvalid
       else if 128 < length (ev_Effects e) then Inl ErrInvalid
       else
         (case check_batch sha ErrConflict [] (ev_Effects e) of
            Some er \<Rightarrow> Inl er
          | None \<Rightarrow>
              Inr (scheduleEffect (next\<lparr>st_OutputRef := ev_OutputRef e,
                                        st_RemainingEffects := ev_Effects e\<rparr>) e)))"

definition receipt_binds :: "state \<Rightarrow> effect \<Rightarrow> effect_receipt \<Rightarrow> bool" where
  "receipt_binds s ef r \<longleftrightarrow>
     rc_EffectID r = ef_ID ef \<and> rc_ArgsHash r = ef_ArgsHash ef
     \<and> rc_Epoch r = ef_DispatchEpoch ef \<and> rc_BeforeRevision r = ef_ExpectedRevision ef
     \<and> \<not> rc_AfterRevision r < rc_BeforeRevision r \<and> rc_Ref r \<noteq> [] \<and> rc_Settled r
     \<and> \<not> (st_ReconciliationRevision s \<noteq> 0
          \<and> rc_AfterRevision r \<noteq> st_ReconciliationRevision s)"

definition settled_outcome :: "effect_status \<Rightarrow> bool" where
  "settled_outcome x \<longleftrightarrow> x = EffectSucceeded \<or> x = EffectFailed \<or> x = EffectCancelled"

definition settleEffect :: "state \<Rightarrow> event \<Rightarrow> bool \<Rightarrow> step" where
  "settleEffect next e reconciliation =
     (case (st_PendingEffect next, ev_Receipt e) of
        (Some ef, Some r) \<Rightarrow>
          if \<not> unsettled (Some ef) then Inl ErrTransition
          else if \<not> receipt_binds next ef r then Inl ErrConflict
          else if \<not> settled_outcome (rc_Status r) then Inl ErrReconciliation
          else if \<not> reconciliation \<and> rc_Epoch r \<noteq> ls_Epoch (st_Lease next) then Inl ErrFenced
          else
            let ef' = ef\<lparr>ef_Status := rc_Status r, ef_ReceiptRef := rc_Ref r\<rparr>;
                n1 = next\<lparr>st_PendingEffect := Some ef',
                          st_WorkspaceRevision := rc_AfterRevision r,
                          st_ReconciliationRevision := 0,
                          st_OutputRef := rc_Ref r,
                          st_Verification := VerificationUnverified,
                          st_VerificationReportRef := [],
                          st_VerificationRevision := 0,
                          st_Approval := None\<rparr> in
            if st_Status n1 = StatusCancelRequested
            then Inr (n1, command_of CommandStopExecution)
            else
              let n2 = n1\<lparr>st_Status := StatusRunning, st_PendingEffect := None,
                          st_FailureReason := []\<rparr>;
                  n3 = (if rc_Status r \<noteq> EffectSucceeded
                        then n2\<lparr>st_RemainingEffects := []\<rparr> else n2) in
              Inr (scheduleEffect n3 e)
      | _ \<Rightarrow> Inl ErrTransition)"

definition effect_completed :: "state \<Rightarrow> event \<Rightarrow> step" where
  "effect_completed next e =
     res_bind (requireStage next StageExecuteEffects) (\<lambda>_. settleEffect next e False)"

definition effect_uncertain :: "state \<Rightarrow> event \<Rightarrow> step" where
  "effect_uncertain next e =
     res_bind (requireStage next StageExecuteEffects) (\<lambda>_.
       if \<not> unsettled (st_PendingEffect next) then Inl ErrTransition
       else
         let pending = map_option (\<lambda>x. x\<lparr>ef_Status := EffectUnknown\<rparr>) (st_PendingEffect next) in
         Inr (next\<lparr>st_PendingEffect := pending, st_Status := StatusNeedsReconciliation,
                   st_ResumeStage := StageExecuteEffects, st_Stage := StageReconcile,
                   st_FailureReason := ev_Reason e\<rparr>,
              effect_command CommandInspectEffect pending))"

definition results_ingested :: "state \<Rightarrow> event \<Rightarrow> step" where
  "results_ingested next e =
     res_bind (requireStage next StageIngestResults) (\<lambda>_.
       if ev_OutputRef e = [] then Inl ErrInvalid
       else Inr (next\<lparr>st_OutputRef := ev_OutputRef e, st_Stage := StageBuildContext\<rparr>,
                 command_of CommandBuildContext))"

definition decideApproval :: "state \<Rightarrow> event \<Rightarrow> step" where
  "decideApproval next e =
     (if st_Status next \<noteq> StatusWaitingApproval \<or> st_Stage next \<noteq> StageApprovalGate
      then Inl ErrTransition
      else
        (case (st_Approval next, st_PendingEffect next, ev_Approval e) of
           (Some a, Some ef, Some d) \<Rightarrow>
             if ad_Binding d \<noteq> a \<or> ap_Granted (ad_Binding d)
                \<or> \<not> approvalMatches a ef (st_WorkspaceRevision next)
             then Inl ErrConflict
             else if \<not> ad_Approve d
             then Inr (stop next StatusFailed ''operation approval denied'')
             else if ap_Version a = max_uint64 then Inl ErrOverflow
             else Inr (next\<lparr>st_Approval := Some (a\<lparr>ap_Granted := True,
                                                    ap_Version := ap_Version a + 1\<rparr>),
                            st_Status := StatusQueued, st_Stage := StageExecuteEffects\<rparr>, [])
         | _ \<Rightarrow> Inl ErrTransition))"

definition verify :: "state \<Rightarrow> event \<Rightarrow> step" where
  "verify next e =
     res_bind (requireStage next StageVerify) (\<lambda>_.
       (case ev_Verification e of
          None \<Rightarrow> Inl ErrUntrusted
        | Some v \<Rightarrow>
            if \<not> ve_Trusted v \<or> ve_ReportRef v = [] then Inl ErrUntrusted
            else if ve_WorkspaceRevision v \<noteq> st_WorkspaceRevision next then Inl ErrConflict
            else
              let n1 = next\<lparr>st_VerificationReportRef := ve_ReportRef v,
                            st_VerificationRevision := ve_WorkspaceRevision v\<rparr> in
              if \<not> ve_RegressionPassed v \<or> (ve_BaselineTargetFailed v \<and> \<not> ve_TargetPassed v)
              then Inr (n1\<lparr>st_Verification := VerificationUnverified,
                           st_Stage := StageBuildContext, st_OutputRef := ve_ReportRef v\<rparr>,
                        command_of CommandBuildContext)
              else Inr (n1\<lparr>st_Verification :=
                             (if ve_BaselineTargetFailed v \<and> ve_TargetPassed v
                              then VerificationVerified else VerificationRegressionOnly),
                           st_Stage := StageFinalize\<rparr>,
                        command_of CommandFinalize)))"

definition finalized :: "state \<Rightarrow> event \<Rightarrow> step" where
  "finalized next e =
     res_bind (requireStage next StageFinalize) (\<lambda>_.
       if ev_OutputRef e = [] \<or> st_VerificationReportRef next = []
          \<or> st_VerificationRevision next \<noteq> st_WorkspaceRevision next
          \<or> st_Verification next = VerificationUnverified
          \<or> unsettled (st_PendingEffect next) \<or> st_RemainingEffects next \<noteq> []
       then Inl ErrInvalid
       else Inr (next\<lparr>st_OutputRef := ev_OutputRef e, st_Status := StatusCompleted,
                      st_Stage := StageStopped\<rparr>,
                 command_of CommandPublishTerminal))"

definition confirmStop :: "state \<Rightarrow> event \<Rightarrow> step" where
  "confirmStop next e =
     (case ev_Stop e of
        None \<Rightarrow> Inl ErrUntrusted
      | Some sr \<Rightarrow>
          if st_Status next \<noteq> StatusCancelRequested \<or> st_StopTarget next = no_status
             \<or> \<not> sr_NoActiveOperations sr \<or> sr_Ref sr = []
             \<or> sr_WorkspaceRevision sr < st_WorkspaceRevision next
          then Inl ErrUntrusted
          else if unsettled (st_PendingEffect next) then Inl ErrReconciliation
          else
            let n1 = (if st_WorkspaceRevision next \<noteq> sr_WorkspaceRevision sr
                      then next\<lparr>st_Verification := VerificationUnverified,
                                st_VerificationReportRef := [], st_VerificationRevision := 0\<rparr>
                      else next) in
            Inr (n1\<lparr>st_WorkspaceRevision := sr_WorkspaceRevision sr,
                     st_OutputRef := sr_Ref sr, st_Status := st_StopTarget next,
                     st_Stage := StageStopped, st_RemainingEffects := [], st_Approval := None\<rparr>,
                 command_of CommandPublishTerminal))"

definition resume_requested :: "state \<Rightarrow> event \<Rightarrow> step" where
  "resume_requested next e =
     (if st_Status next \<noteq> StatusNeedsReconciliation then Inl ErrTransition
      else if Lease_ValidAt (st_Lease next) (ev_At e) then Inl ErrConflict
      else Inr (next\<lparr>st_Lease := (st_Lease next)\<lparr>ls_Owner := [], ls_Until := ev_At e\<rparr>\<rparr>, []))"

definition reconciled :: "state \<Rightarrow> event \<Rightarrow> step" where
  "reconciled next e =
     (if st_Status next \<noteq> StatusNeedsReconciliation \<and> st_Status next \<noteq> StatusCancelRequested
      then Inl ErrTransition
      else if st_Status next = StatusNeedsReconciliation \<and> st_Stage next \<noteq> StageReconcile
      then Inl ErrTransition
      else settleEffect next e True)"

definition failed :: "state \<Rightarrow> event \<Rightarrow> step" where
  "failed next e =
     (if blank (ev_Reason e) then Inl ErrInvalid
      else Inr (stop next StatusFailed (ev_Reason e)))"

subsection \<open>The transition function\<close>

text \<open>The \<open>switch\<close> on the event kind, without the no-op of a repeated cancellation.\<close>

fun apply_event :: "(bytes \<Rightarrow> string) \<Rightarrow> event_kind \<Rightarrow> state \<Rightarrow> event \<Rightarrow> step" where
  "apply_event sha EventClaimed s e = claim s e"
| "apply_event sha EventCapacityRejected s e = capacity_rejected s e"
| "apply_event sha EventWorkspaceReady s e = workspace_ready s e"
| "apply_event sha EventWorkspaceAdopted s e = adopt s e"
| "apply_event sha EventContextBuilt s e = context_built s e"
| "apply_event sha EventModelCompleted s e = model_completed s e"
| "apply_event sha EventToolsValidated s e = tools_validated sha s e"
| "apply_event sha EventEffectCompleted s e = effect_completed s e"
| "apply_event sha EventEffectUncertain s e = effect_uncertain s e"
| "apply_event sha EventResultsIngested s e = results_ingested s e"
| "apply_event sha EventApprovalDecided s e = decideApproval s e"
| "apply_event sha EventVerificationCompleted s e = verify s e"
| "apply_event sha EventFinalized s e = finalized s e"
| "apply_event sha EventCancelRequested s e = Inr (stop s StatusCancelled ''cancellation requested'')"
| "apply_event sha EventCancellationConfirmed s e = confirmStop s e"
| "apply_event sha EventResumeRequested s e = resume_requested s e"
| "apply_event sha EventReconciled s e = reconciled s e"
| "apply_event sha EventFailed s e = failed s e"
| "apply_event sha EventBudgetReached s e = Inr (stop s StatusBudgetExhausted (ev_Reason e))"
| "apply_event sha (EventOther _) s e = Inl ErrInvalid"

text \<open>The checks before the \<open>switch\<close>, in the order of the source.\<close>

definition admission :: "(bytes \<Rightarrow> string) \<Rightarrow> state \<Rightarrow> event \<Rightarrow> err option" where
  "admission sha s e =
     (if validateState sha s \<noteq> None then validateState sha s
      else if ev_ExpectedVersion e \<noteq> st_Version s then Some ErrConflict
      else if RunStatus_Terminal (st_Status s) then Some ErrTerminal
      else if st_Version s = max_uint64 \<or> ev_At e = 0 \<or> ev_Cost e < 0 then Some ErrInvalid
      else if \<not> controlEvent (ev_Kind e) \<and> ev_Kind e \<noteq> EventClaimed
              \<and> (ev_Owner e \<noteq> ls_Owner (st_Lease s) \<or> ev_Epoch e \<noteq> ls_Epoch (st_Lease s)
                 \<or> \<not> Lease_ValidAt (st_Lease s) (ev_At e))
      then Some ErrFenced
      else if st_Status s = StatusCancelRequested \<and> \<not> allowedDuringStop (ev_Kind e)
      then Some ErrTransition
      else if st_Status s = StatusNeedsReconciliation
              \<and> \<not> allowedDuringReconciliation (ev_Kind e)
      then Some ErrReconciliation
      else if st_Status s = StatusWaitingApproval \<and> ev_Kind e \<noteq> EventApprovalDecided
              \<and> ev_Kind e \<noteq> EventCancelRequested
      then Some ErrTransition
      else None)"

definition Transition :: "(bytes \<Rightarrow> string) \<Rightarrow> state \<Rightarrow> event
     \<Rightarrow> state \<times> command list \<times> err option" where
  "Transition sha s e =
     (case admission sha s e of
        Some er \<Rightarrow> (s, [], Some er)
      | None \<Rightarrow>
          if ev_Kind e = EventCancelRequested \<and> st_Status s = StatusCancelRequested
          then (s, [], None)
          else
            (case apply_event sha (ev_Kind e) s e of
               Inl er \<Rightarrow> (s, [], Some er)
             | Inr (next, commands) \<Rightarrow>
                 let next' = next\<lparr>st_Version := st_Version next + 1\<rparr> in
                 (case validateState sha next' of
                    Some er \<Rightarrow> (s, [], Some er)
                  | None \<Rightarrow> (next', commands, None))))"

lemmas handler_def_facts [handler_defs] =
  claim_def capacity_rejected_def workspace_ready_def adopt_def context_built_def
  model_completed_def tools_validated_def effect_completed_def effect_uncertain_def
  results_ingested_def decideApproval_def verify_def finalized_def confirmStop_def
  resume_requested_def reconciled_def failed_def

end
