(* ===== verification/Forge_Machine.thy ===== *)
theory Forge_Machine
  imports Forge_Prelude
begin

section \<open>Executions of a component and their invariants\<close>

text \<open>
  Several components are machines that accept one event (or request) at a time: the reducer,
  the runner's journal, the quota ledger. \<open>exec\<close> is the finite execution of such a machine
  together with its history, the events accepted so far with what each of them emitted. The
  locale \<open>ghost_invariant\<close> is the interface through which a component obtains a fact about
  every execution: it promises that a relation between history and state holds initially and
  is kept by every step, under facts already known of every execution.
\<close>

type_synonym ('e, 'c) history = "('e \<times> 'c) list"

inductive exec :: "('s \<Rightarrow> 'e \<Rightarrow> 'c \<Rightarrow> 's \<Rightarrow> bool) \<Rightarrow> 's \<Rightarrow> ('e, 'c) history \<Rightarrow> 's \<Rightarrow> bool"
  for step :: "'s \<Rightarrow> 'e \<Rightarrow> 'c \<Rightarrow> 's \<Rightarrow> bool" and s0 :: 's where
  exec_init: "exec step s0 [] s0"
| exec_step: "exec step s0 tr s \<Longrightarrow> step s e c s' \<Longrightarrow> exec step s0 (tr @ [(e, c)]) s'"

inductive_cases exec_NilE: "exec step s0 [] s"
inductive_cases exec_snocE: "exec step s0 (tr @ [x]) s"

lemma exec_one: "step s e c s' \<Longrightarrow> exec step s [(e, c)] s'"
  using exec_step [OF exec_init, of step s e c s'] by simp

lemma exec_append: "exec step s1 tr2 s2 \<Longrightarrow> exec step s0 tr1 s1 \<Longrightarrow> exec step s0 (tr1 @ tr2) s2"
proof (induction rule: exec.induct)
  case exec_init
  then show ?case by simp
next
  case (exec_step tr s e c s')
  have "exec step s0 ((tr1 @ tr) @ [(e, c)]) s'"
    by (rule exec.exec_step [OF exec_step.IH [OF exec_step.prems] exec_step.hyps(2)])
  then show ?case by simp
qed

lemma exec_Cons: "step s e c s1 \<Longrightarrow> exec step s1 tr s2 \<Longrightarrow> exec step s ((e, c) # tr) s2"
  using exec_append [OF _ exec_one [of step s e c s1]] by fastforce

lemma exec_prefix:
  assumes "exec step s0 (tr1 @ tr2) s"
  obtains s1 where "exec step s0 tr1 s1" and "exec step s1 tr2 s"
proof -
  have "\<exists>s1. exec step s0 tr1 s1 \<and> exec step s1 tr2 s"
    using assms
  proof (induction tr2 arbitrary: s rule: rev_induct)
    case Nil
    then show ?case using exec_init by fastforce
  next
    case (snoc x tr2)
    from snoc.prems have "exec step s0 ((tr1 @ tr2) @ [x]) s" by simp
    then obtain m e c where "x = (e, c)" and "exec step s0 (tr1 @ tr2) m" and "step m e c s"
      by (rule exec_snocE)
    then show ?case using snoc.IH exec_step by metis
  qed
  then show thesis using that by blast
qed

text \<open>The state before and after a given entry of the history.\<close>

lemma exec_at:
  assumes "exec step s0 (tr1 @ (e, c) # tr2) s"
  obtains s1 s2 where "exec step s0 tr1 s1" and "step s1 e c s2" and "exec step s2 tr2 s"
proof -
  from assms have "exec step s0 ((tr1 @ [(e, c)]) @ tr2) s" by simp
  then obtain s2 where "exec step s0 (tr1 @ [(e, c)]) s2" and "exec step s2 tr2 s"
    by (rule exec_prefix)
  then show thesis using that by (auto elim: exec_snocE)
qed

text \<open>Running a total machine on a list of events.\<close>

fun replay :: "('s \<Rightarrow> 'e \<Rightarrow> 's \<times> 'c) \<Rightarrow> 's \<Rightarrow> 'e list \<Rightarrow> ('e, 'c) history \<times> 's" where
  "replay f s [] = ([], s)"
| "replay f s (e # es) =
     (let (s', c) = f s e; (tr, t) = replay f s' es in ((e, c) # tr, t))"

lemma replay_exec:
  assumes "\<And>s e. e \<in> set es \<Longrightarrow> step s e (snd (f s e)) (fst (f s e))"
  shows "exec step s (fst (replay f s es)) (snd (replay f s es))"
  using assms
proof (induction es arbitrary: s)
  case Nil
  show ?case by (simp add: exec_init)
next
  case (Cons e es)
  obtain s' c tr t where f: "f s e = (s', c)" and r: "replay f s' es = (tr, t)" by fastforce
  have "exec step s ([(e, c)] @ tr) t"
    using Cons.IH [of s'] Cons.prems [of e s] Cons.prems f r
    by (intro exec_append [of step s'] exec_one [of step]) simp_all
  then show ?case by (simp add: f r)
qed

locale ghost_invariant =
  fixes step :: "'s \<Rightarrow> 'e \<Rightarrow> 'c \<Rightarrow> 's \<Rightarrow> bool"
    and known :: "('e, 'c) history \<Rightarrow> 's \<Rightarrow> bool"
    and I :: "('e, 'c) history \<Rightarrow> 's \<Rightarrow> bool"
    and s0 :: 's
  assumes known_holds: "exec step s0 tr s \<Longrightarrow> known tr s"
    and initially: "I [] s0"
    and kept: "known tr s \<Longrightarrow> I tr s \<Longrightarrow> step s e c s' \<Longrightarrow> I (tr @ [(e, c)]) s'"
begin

lemma always: "exec step s0 tr s \<Longrightarrow> I tr s"
proof (induction rule: exec.induct)
  case exec_init
  show ?case by (rule initially)
next
  case (exec_step tr s e c s')
  then show ?case using known_holds kept by blast
qed

text \<open>The invariant held at every earlier point of the execution too.\<close>

lemma always_prefix: "exec step s0 (tr1 @ tr2) s \<Longrightarrow> \<exists>s1. exec step s0 tr1 s1 \<and> I tr1 s1"
  by (meson always exec_prefix)

end

text \<open>Counting the history entries that satisfy a predicate.\<close>

definition count_history :: "('e \<times> 'c \<Rightarrow> bool) \<Rightarrow> ('e, 'c) history \<Rightarrow> nat" where
  "count_history P tr = length (filter P tr)"

lemma count_history_simps [simp]:
  "count_history P [] = 0"
  "count_history P (tr @ [x]) = count_history P tr + (if P x then 1 else 0)"
  by (simp_all add: count_history_def)

end
