(* ===== verification/Runtime_Rules.thy ===== *)
theory Runtime_Rules
  imports Runtime_Reducer Forge_Machine
begin

section \<open>The reducer as a relation: one rule per accepted outcome\<close>

text \<open>
  \<open>schedules\<close> and \<open>rule\<close> state what the reducer promises, one introduction rule per way an
  event can be accepted, with its guards and its exact state change. \<open>apply_event_iff_rule\<close>
  shows that the translated handlers implement precisely these rules, so that the invariants
  of the later theories are proved by cases on the rules.
\<close>

subsection \<open>Scheduling\<close>

definition planned :: "state \<Rightarrow> effect \<Rightarrow> effect" where
  "planned s ef = ef\<lparr>ef_ExpectedRevision := st_WorkspaceRevision s, ef_Status := EffectPlanned\<rparr>"

definition dispatched :: "state \<Rightarrow> effect \<Rightarrow> effect" where
  "dispatched s ef = ef\<lparr>ef_Status := EffectInFlight, ef_DispatchEpoch := ls_Epoch (st_Lease s)\<rparr>"

definition binding_of :: "state \<Rightarrow> effect \<Rightarrow> approval_binding" where
  "binding_of s ef = \<lparr>ap_EffectID = ef_ID ef, ap_ArgsHash = ef_ArgsHash ef,
     ap_WorkspaceRevision = st_WorkspaceRevision s, ap_PolicyVersion = ef_PolicyVersion ef,
     ap_Version = 1, ap_Granted = False\<rparr>"

definition stopped :: "state \<Rightarrow> run_status \<Rightarrow> string \<Rightarrow> state" where
  "stopped s target reason =
     s\<lparr>st_StopTarget := target, st_Status := StatusCancelRequested, st_FailureReason := reason\<rparr>"

definition executing :: "state \<Rightarrow> effect \<Rightarrow> state" where
  "executing s ef = s\<lparr>st_Stage := StageExecuteEffects, st_PendingEffect := Some (dispatched s ef),
     st_ToolCalls := st_ToolCalls s + 1\<rparr>"

lemma stop_eq: "stop s target reason = (stopped s target reason, command_of CommandStopExecution)"
  by (simp add: stop_def stopped_def)

lemma dispatchEffect_eq: "st_PendingEffect s = Some ef \<Longrightarrow>
    dispatchEffect s = (executing s ef, effect_command CommandExecuteEffect (Some (dispatched s ef)))"
  by (simp add: dispatchEffect_def executing_def dispatched_def Let_def)

inductive schedules :: "event \<Rightarrow> state \<Rightarrow> command list \<Rightarrow> state \<Rightarrow> bool" for e :: event where
  sched_done: "st_RemainingEffects s = [] \<Longrightarrow>
     schedules e s (command_of CommandIngestResults) (s\<lparr>st_Stage := StageIngestResults\<rparr>)"
| sched_budget: "st_RemainingEffects s = ef # rest \<Longrightarrow> budgetReached s e False True \<Longrightarrow>
     schedules e s (command_of CommandStopExecution)
       (stopped s StatusBudgetExhausted ''tool budget reached'')"
| sched_approval: "st_RemainingEffects s = ef # rest \<Longrightarrow> \<not> budgetReached s e False True \<Longrightarrow>
     ef_RequiresApproval ef \<Longrightarrow>
     schedules e s
       [\<lparr>cm_Kind = CommandRequestApproval, cm_Effect = Some (planned s ef),
         cm_Binding = Some (binding_of s ef)\<rparr>]
       (s\<lparr>st_RemainingEffects := rest, st_PendingEffect := Some (planned s ef),
          st_Approval := Some (binding_of s ef), st_Status := StatusWaitingApproval,
          st_Stage := StageApprovalGate,
          st_Lease := (st_Lease s)\<lparr>ls_Owner := [], ls_Until := ev_At e\<rparr>\<rparr>)"
| sched_dispatch: "st_RemainingEffects s = ef # rest \<Longrightarrow> \<not> budgetReached s e False True \<Longrightarrow>
     \<not> ef_RequiresApproval ef \<Longrightarrow>
     schedules e s
       (effect_command CommandExecuteEffect (Some (dispatched s (planned s ef))))
       (executing (s\<lparr>st_RemainingEffects := rest\<rparr>) (planned s ef))"

lemma schedules_scheduleEffect: "schedules e s (snd (scheduleEffect s e)) (fst (scheduleEffect s e))"
proof (cases "st_RemainingEffects s")
  case Nil
  then show ?thesis by (simp add: scheduleEffect_def sched_done)
next
  case (Cons ef rest)
  consider "budgetReached s e False True"
    | "\<not> budgetReached s e False True" "ef_RequiresApproval ef"
    | "\<not> budgetReached s e False True" "\<not> ef_RequiresApproval ef" by blast
  then show ?thesis
  proof cases
    case 1
    then show ?thesis using Cons
      by (simp add: scheduleEffect_def stop_eq sched_budget)
  next
    case 2
    then show ?thesis using Cons sched_approval [OF Cons 2]
      by (simp add: scheduleEffect_def Let_def planned_def binding_of_def)
  next
    case 3
    have "scheduleEffect s e = (executing (s\<lparr>st_RemainingEffects := rest\<rparr>) (planned s ef),
        effect_command CommandExecuteEffect (Some (dispatched s (planned s ef))))"
      using Cons 3 by (simp add: scheduleEffect_def Let_def dispatchEffect_eq planned_def
          executing_def dispatched_def)
    then show ?thesis using sched_dispatch [OF Cons 3] by simp
  qed
qed

lemma schedules_fun: "schedules e s cs n \<longleftrightarrow> scheduleEffect s e = (n, cs)"
proof
  assume "schedules e s cs n"
  then show "scheduleEffect s e = (n, cs)"
    by (cases rule: schedules.cases)
      (simp_all add: scheduleEffect_def Let_def stop_eq dispatchEffect_eq planned_def
          binding_of_def executing_def dispatched_def)
next
  assume "scheduleEffect s e = (n, cs)"
  then show "schedules e s cs n" using schedules_scheduleEffect [of e s] by simp
qed

subsection \<open>Outcomes of an event\<close>

definition reclaimed :: "state \<Rightarrow> lease \<Rightarrow> state" where
  "reclaimed s l =
     (if st_Status s \<noteq> StatusNeedsReconciliation
      then s\<lparr>st_Lease := l, st_Status := StatusRunning\<rparr> else s\<lparr>st_Lease := l\<rparr>)"

definition to_adoption :: "state \<Rightarrow> state" where
  "to_adoption s =
     (if st_Stage s \<noteq> StageAdoptWorkspace then s\<lparr>st_ResumeStage := st_Stage s\<rparr> else s)
     \<lparr>st_Stage := StageAdoptWorkspace\<rparr>"

definition claimable :: "state \<Rightarrow> event \<Rightarrow> lease \<Rightarrow> bool" where
  "claimable s e l \<longleftrightarrow> ev_Lease e = Some l \<and> Lease_ValidAt l (ev_At e)
     \<and> ls_Epoch (st_Lease s) < ls_Epoch l \<and> \<not> Lease_ValidAt (st_Lease s) (ev_At e)
     \<and> ev_Owner e = ls_Owner l \<and> ev_Epoch e = ls_Epoch l"

definition stop_evidence :: "state \<Rightarrow> event \<Rightarrow> stop_receipt \<Rightarrow> bool" where
  "stop_evidence s e sr \<longleftrightarrow> ev_Stop e = Some sr \<and> sr_NoActiveOperations sr \<and> sr_Ref sr \<noteq> []
     \<and> st_WorkspaceRevision s \<le> sr_WorkspaceRevision sr"

definition resumed :: "state \<Rightarrow> state" where
  "resumed s = s\<lparr>st_Stage := st_ResumeStage s, st_ResumeStage := no_stage\<rparr>"

fun resume_command :: "stage \<Rightarrow> command_kind option" where
  "resume_command StageBuildContext = Some CommandBuildContext"
| "resume_command StageModel = Some CommandCallModel"
| "resume_command StageValidateTools = Some CommandValidateTools"
| "resume_command StageIngestResults = Some CommandIngestResults"
| "resume_command StageVerify = Some CommandVerify"
| "resume_command StageFinalize = Some CommandFinalize"
| "resume_command _ = None"

definition settled_state :: "state \<Rightarrow> effect \<Rightarrow> effect_receipt \<Rightarrow> state" where
  "settled_state s ef r = s\<lparr>
     st_PendingEffect := Some (ef\<lparr>ef_Status := rc_Status r, ef_ReceiptRef := rc_Ref r\<rparr>),
     st_WorkspaceRevision := rc_AfterRevision r, st_ReconciliationRevision := 0,
     st_OutputRef := rc_Ref r, st_Verification := VerificationUnverified,
     st_VerificationReportRef := [], st_VerificationRevision := 0, st_Approval := None\<rparr>"

definition continued :: "state \<Rightarrow> effect_receipt \<Rightarrow> state" where
  "continued s r =
     (if rc_Status r \<noteq> EffectSucceeded
      then s\<lparr>st_Status := StatusRunning, st_PendingEffect := None, st_FailureReason := [],
             st_RemainingEffects := []\<rparr>
      else s\<lparr>st_Status := StatusRunning, st_PendingEffect := None, st_FailureReason := []\<rparr>)"

definition settles :: "state \<Rightarrow> event \<Rightarrow> effect \<Rightarrow> effect_receipt \<Rightarrow> bool" where
  "settles s e ef r \<longleftrightarrow> st_PendingEffect s = Some ef \<and> ev_Receipt e = Some r
     \<and> unsettled (Some ef) \<and> receipt_binds s ef r \<and> settled_outcome (rc_Status r)
     \<and> (ev_Kind e = EventEffectCompleted \<and> st_Status s = StatusRunning
          \<and> st_Stage s = StageExecuteEffects \<and> rc_Epoch r = ls_Epoch (st_Lease s)
        \<or> ev_Kind e = EventReconciled
          \<and> (st_Status s = StatusNeedsReconciliation \<and> st_Stage s = StageReconcile
             \<or> st_Status s = StatusCancelRequested))"

definition verified_state :: "state \<Rightarrow> verification_evidence \<Rightarrow> verification_status \<Rightarrow> state" where
  "verified_state s v vs = s\<lparr>st_VerificationReportRef := ve_ReportRef v,
     st_VerificationRevision := ve_WorkspaceRevision v, st_Verification := vs\<rparr>"

definition trusted_evidence :: "state \<Rightarrow> event \<Rightarrow> verification_evidence \<Rightarrow> bool" where
  "trusted_evidence s e v \<longleftrightarrow> ev_Verification e = Some v \<and> ve_Trusted v \<and> ve_ReportRef v \<noteq> []
     \<and> ve_WorkspaceRevision v = st_WorkspaceRevision s"

definition evidence_passes :: "verification_evidence \<Rightarrow> bool" where
  "evidence_passes v \<longleftrightarrow> ve_RegressionPassed v \<and> (ve_BaselineTargetFailed v \<longrightarrow> ve_TargetPassed v)"

definition no_progress_left :: "state \<Rightarrow> bool" where
  "no_progress_left s =
     (case st_Progress s of
        None \<Rightarrow> False
      | Some p \<Rightarrow> 0 < lm_MaxNoProgressBatches (st_Limits s)
                  \<and> lm_MaxNoProgressBatches (st_Limits s) \<le> ps_RepeatedBatches p)"

definition confirmed_state :: "state \<Rightarrow> stop_receipt \<Rightarrow> state" where
  "confirmed_state s sr =
     (if st_WorkspaceRevision s \<noteq> sr_WorkspaceRevision sr
      then s\<lparr>st_Verification := VerificationUnverified, st_VerificationReportRef := [],
             st_VerificationRevision := 0\<rparr> else s)
     \<lparr>st_WorkspaceRevision := sr_WorkspaceRevision sr, st_OutputRef := sr_Ref sr,
      st_Status := st_StopTarget s, st_Stage := StageStopped, st_RemainingEffects := [],
      st_Approval := None\<rparr>"

definition charged :: "state \<Rightarrow> event \<Rightarrow> money \<Rightarrow> state" where
  "charged s e cost = s\<lparr>st_Cost := cost, st_OutputRef := ev_OutputRef e\<rparr>"

abbreviation at_stage :: "state \<Rightarrow> event \<Rightarrow> event_kind \<Rightarrow> stage \<Rightarrow> bool" where
  "at_stage s e k g \<equiv> ev_Kind e = k \<and> st_Status s = StatusRunning \<and> st_Stage s = g"

inductive rule :: "(bytes \<Rightarrow> string) \<Rightarrow> state \<Rightarrow> event \<Rightarrow> command list \<Rightarrow> state \<Rightarrow> bool"
  for sha :: "bytes \<Rightarrow> string" and s :: state and e :: event where
  r_claim_stop: "\<lbrakk>ev_Kind e = EventClaimed; claimable s e l; st_Status s = StatusCancelRequested\<rbrakk> \<Longrightarrow>
     rule sha s e (command_of CommandStopExecution) (s\<lparr>st_Lease := l\<rparr>)"
| r_claim_adopt: "\<lbrakk>ev_Kind e = EventClaimed; claimable s e l;
     st_Status s \<in> {StatusQueued, StatusRunning, StatusNeedsReconciliation};
     st_WorkspaceRevision s \<noteq> 0\<rbrakk> \<Longrightarrow>
     rule sha s e (command_of CommandAdoptWorkspace) (to_adoption (reclaimed s l))"
| r_claim_init: "\<lbrakk>ev_Kind e = EventClaimed; claimable s e l;
     st_Status s \<in> {StatusQueued, StatusRunning, StatusNeedsReconciliation};
     st_WorkspaceRevision s = 0; st_Stage s = StageInitialize; st_PendingEffect s = None\<rbrakk> \<Longrightarrow>
     rule sha s e (command_of CommandInitializeWorkspace) (reclaimed s l)"
| r_capacity: "\<lbrakk>at_stage s e EventCapacityRejected StageInitialize; st_WorkspaceRevision s = 0;
     st_StepSeq s = 0; st_ModelRounds s = 0; st_ToolCalls s = 0; st_Cost s = 0;
     st_OutputRef s = []; st_PendingEffect s = None; st_RemainingEffects s = [];
     st_Approval s = None; st_ResumeStage s = no_stage; ev_NotBefore e = Some nb; ev_At e < nb\<rbrakk> \<Longrightarrow>
     rule sha s e []
       (s\<lparr>st_Status := StatusQueued,
          st_Lease := \<lparr>ls_Owner = [], ls_Epoch = ls_Epoch (st_Lease s), ls_Until = 0\<rparr>\<rparr>)"
| r_ready: "\<lbrakk>at_stage s e EventWorkspaceReady StageInitialize; ev_OutputRef e \<noteq> [];
     ev_WorkspaceRevision e \<noteq> 0\<rbrakk> \<Longrightarrow>
     rule sha s e (command_of CommandBuildContext)
       (s\<lparr>st_WorkspaceRevision := ev_WorkspaceRevision e, st_OutputRef := ev_OutputRef e,
          st_Stage := StageBuildContext\<rparr>)"
| r_adopt_unsettled: "\<lbrakk>ev_Kind e = EventWorkspaceAdopted; st_Stage s = StageAdoptWorkspace;
     st_Status s \<in> {StatusRunning, StatusNeedsReconciliation}; stop_evidence s e sr;
     unsettled (st_PendingEffect s)\<rbrakk> \<Longrightarrow>
     rule sha s e (effect_command CommandInspectEffect (st_PendingEffect s))
       (s\<lparr>st_ReconciliationRevision := sr_WorkspaceRevision sr,
          st_Status := StatusNeedsReconciliation, st_Stage := StageReconcile\<rparr>)"
| r_adopt_changed: "\<lbrakk>ev_Kind e = EventWorkspaceAdopted; st_Stage s = StageAdoptWorkspace;
     st_Status s \<in> {StatusRunning, StatusNeedsReconciliation}; stop_evidence s e sr;
     \<not> unsettled (st_PendingEffect s); sr_WorkspaceRevision sr \<noteq> st_WorkspaceRevision s\<rbrakk> \<Longrightarrow>
     rule sha s e []
       (s\<lparr>st_Status := StatusNeedsReconciliation, st_Stage := StageReconcile,
          st_FailureReason := ''workspace changed without a pending ledger effect''\<rparr>)"
| r_adopt_budget: "\<lbrakk>ev_Kind e = EventWorkspaceAdopted; st_Stage s = StageAdoptWorkspace;
     st_Status s \<in> {StatusRunning, StatusNeedsReconciliation}; stop_evidence s e sr;
     \<not> unsettled (st_PendingEffect s); sr_WorkspaceRevision sr = st_WorkspaceRevision s;
     st_ResumeStage s \<noteq> StageReconcile;
     budgetReached (resumed s) e False (st_ResumeStage s = StageExecuteEffects)\<rbrakk> \<Longrightarrow>
     rule sha s e (command_of CommandStopExecution)
       (stopped (resumed s) StatusBudgetExhausted ''budget reached while workspace was suspended'')"
| r_adopt_resume: "\<lbrakk>ev_Kind e = EventWorkspaceAdopted; st_Stage s = StageAdoptWorkspace;
     st_Status s \<in> {StatusRunning, StatusNeedsReconciliation}; stop_evidence s e sr;
     \<not> unsettled (st_PendingEffect s); sr_WorkspaceRevision sr = st_WorkspaceRevision s;
     resume_command (st_ResumeStage s) = Some k; \<not> budgetReached (resumed s) e False False\<rbrakk> \<Longrightarrow>
     rule sha s e (command_of k) (resumed s)"
| r_adopt_dispatch: "\<lbrakk>ev_Kind e = EventWorkspaceAdopted; st_Stage s = StageAdoptWorkspace;
     st_Status s \<in> {StatusRunning, StatusNeedsReconciliation}; stop_evidence s e sr;
     sr_WorkspaceRevision sr = st_WorkspaceRevision s; st_ResumeStage s = StageExecuteEffects;
     \<not> budgetReached (resumed s) e False True;
     st_PendingEffect s = Some ef; ef_Status ef = EffectPlanned;
     ef_RequiresApproval ef \<Longrightarrow> \<exists>a. st_Approval s = Some a \<and> ap_Granted a
        \<and> approvalMatches a ef (st_WorkspaceRevision s)\<rbrakk> \<Longrightarrow>
     rule sha s e (effect_command CommandExecuteEffect (Some (dispatched s ef)))
       (executing (resumed s) ef)"
| r_context_stop: "\<lbrakk>at_stage s e EventContextBuilt StageBuildContext; ev_OutputRef e \<noteq> [];
     observeProgress s e = Inr n;
     if budgetReached n e True False then reason = ''model budget reached''
     else no_progress_left n \<and> reason = ''repeated_no_progress''\<rbrakk> \<Longrightarrow>
     rule sha s e (command_of CommandStopExecution) (stopped n StatusBudgetExhausted reason)"
| r_context_call: "\<lbrakk>at_stage s e EventContextBuilt StageBuildContext; ev_OutputRef e \<noteq> [];
     observeProgress s e = Inr n; \<not> budgetReached n e True False; \<not> no_progress_left n\<rbrakk> \<Longrightarrow>
     rule sha s e (command_of CommandCallModel)
       (n\<lparr>st_OutputRef := ev_OutputRef e, st_Stage := StageModel,
          st_ModelRounds := st_ModelRounds n + 1, st_StepSeq := st_StepSeq n + 1\<rparr>)"
| r_model_stop: "\<lbrakk>at_stage s e EventModelCompleted StageModel; ev_Complete e; ev_OutputRef e \<noteq> [];
     Money_Add (st_Cost s) (ev_Cost e) = Inr cost; n = charged s e cost;
     budgetReached n e False False\<rbrakk> \<Longrightarrow>
     rule sha s e (command_of CommandStopExecution)
       (stopped n StatusBudgetExhausted ''cost or runtime budget reached'')"
| r_model_finish: "\<lbrakk>at_stage s e EventModelCompleted StageModel; ev_Complete e; ev_OutputRef e \<noteq> [];
     Money_Add (st_Cost s) (ev_Cost e) = Inr cost; n = charged s e cost;
     \<not> budgetReached n e False False; ev_Finish e\<rbrakk> \<Longrightarrow>
     rule sha s e (command_of CommandVerify) (n\<lparr>st_Stage := StageVerify\<rparr>)"
| r_model_tools: "\<lbrakk>at_stage s e EventModelCompleted StageModel; ev_Complete e; ev_OutputRef e \<noteq> [];
     Money_Add (st_Cost s) (ev_Cost e) = Inr cost; n = charged s e cost;
     \<not> budgetReached n e False False; \<not> ev_Finish e\<rbrakk> \<Longrightarrow>
     rule sha s e (command_of CommandValidateTools) (n\<lparr>st_Stage := StageValidateTools\<rparr>)"
| r_tools: "\<lbrakk>at_stage s e EventToolsValidated StageValidateTools; ev_OutputRef e \<noteq> [];
     ev_Complete e; ev_Effects e \<noteq> []; length (ev_Effects e) \<le> 128;
     check_batch sha ErrConflict [] (ev_Effects e) = None;
     schedules e (s\<lparr>st_OutputRef := ev_OutputRef e, st_RemainingEffects := ev_Effects e\<rparr>) cs n\<rbrakk> \<Longrightarrow>
     rule sha s e cs n"
| r_settle_stop: "\<lbrakk>settles s e ef r; st_Status s = StatusCancelRequested\<rbrakk> \<Longrightarrow>
     rule sha s e (command_of CommandStopExecution) (settled_state s ef r)"
| r_settle: "\<lbrakk>settles s e ef r; st_Status s \<noteq> StatusCancelRequested;
     schedules e (continued (settled_state s ef r) r) cs n\<rbrakk> \<Longrightarrow>
     rule sha s e cs n"
| r_uncertain: "\<lbrakk>at_stage s e EventEffectUncertain StageExecuteEffects;
     st_PendingEffect s = Some ef; unsettled (Some ef)\<rbrakk> \<Longrightarrow>
     rule sha s e (effect_command CommandInspectEffect (Some (ef\<lparr>ef_Status := EffectUnknown\<rparr>)))
       (s\<lparr>st_PendingEffect := Some (ef\<lparr>ef_Status := EffectUnknown\<rparr>),
          st_Status := StatusNeedsReconciliation, st_ResumeStage := StageExecuteEffects,
          st_Stage := StageReconcile, st_FailureReason := ev_Reason e\<rparr>)"
| r_ingested: "\<lbrakk>at_stage s e EventResultsIngested StageIngestResults; ev_OutputRef e \<noteq> []\<rbrakk> \<Longrightarrow>
     rule sha s e (command_of CommandBuildContext)
       (s\<lparr>st_OutputRef := ev_OutputRef e, st_Stage := StageBuildContext\<rparr>)"
| r_deny: "\<lbrakk>ev_Kind e = EventApprovalDecided; st_Status s = StatusWaitingApproval;
     st_Stage s = StageApprovalGate; st_Approval s = Some a; st_PendingEffect s = Some ef;
     ev_Approval e = Some d; ad_Binding d = a; \<not> ap_Granted a;
     approvalMatches a ef (st_WorkspaceRevision s); \<not> ad_Approve d\<rbrakk> \<Longrightarrow>
     rule sha s e (command_of CommandStopExecution)
       (stopped s StatusFailed ''operation approval denied'')"
| r_approve: "\<lbrakk>ev_Kind e = EventApprovalDecided; st_Status s = StatusWaitingApproval;
     st_Stage s = StageApprovalGate; st_Approval s = Some a; st_PendingEffect s = Some ef;
     ev_Approval e = Some d; ad_Binding d = a; \<not> ap_Granted a;
     approvalMatches a ef (st_WorkspaceRevision s); ad_Approve d; ap_Version a \<noteq> max_uint64\<rbrakk> \<Longrightarrow>
     rule sha s e []
       (s\<lparr>st_Approval := Some (a\<lparr>ap_Granted := True, ap_Version := ap_Version a + 1\<rparr>),
          st_Status := StatusQueued, st_Stage := StageExecuteEffects\<rparr>)"
| r_verify_retry: "\<lbrakk>at_stage s e EventVerificationCompleted StageVerify; trusted_evidence s e v;
     \<not> evidence_passes v\<rbrakk> \<Longrightarrow>
     rule sha s e (command_of CommandBuildContext)
       ((verified_state s v VerificationUnverified)
          \<lparr>st_Stage := StageBuildContext, st_OutputRef := ve_ReportRef v\<rparr>)"
| r_verify_ok: "\<lbrakk>at_stage s e EventVerificationCompleted StageVerify; trusted_evidence s e v;
     evidence_passes v\<rbrakk> \<Longrightarrow>
     rule sha s e (command_of CommandFinalize)
       ((verified_state s v (if ve_BaselineTargetFailed v then VerificationVerified
                             else VerificationRegressionOnly))\<lparr>st_Stage := StageFinalize\<rparr>)"
| r_finalized: "\<lbrakk>at_stage s e EventFinalized StageFinalize; ev_OutputRef e \<noteq> [];
     st_VerificationReportRef s \<noteq> []; st_VerificationRevision s = st_WorkspaceRevision s;
     st_Verification s \<noteq> VerificationUnverified; \<not> unsettled (st_PendingEffect s);
     st_RemainingEffects s = []\<rbrakk> \<Longrightarrow>
     rule sha s e (command_of CommandPublishTerminal)
       (s\<lparr>st_OutputRef := ev_OutputRef e, st_Status := StatusCompleted, st_Stage := StageStopped\<rparr>)"
| r_cancel: "ev_Kind e = EventCancelRequested \<Longrightarrow>
     rule sha s e (command_of CommandStopExecution)
       (stopped s StatusCancelled ''cancellation requested'')"
| r_confirm: "\<lbrakk>ev_Kind e = EventCancellationConfirmed; st_Status s = StatusCancelRequested;
     st_StopTarget s \<noteq> no_status; stop_evidence s e sr; \<not> unsettled (st_PendingEffect s)\<rbrakk> \<Longrightarrow>
     rule sha s e (command_of CommandPublishTerminal) (confirmed_state s sr)"
| r_resume: "\<lbrakk>ev_Kind e = EventResumeRequested; st_Status s = StatusNeedsReconciliation;
     \<not> Lease_ValidAt (st_Lease s) (ev_At e)\<rbrakk> \<Longrightarrow>
     rule sha s e [] (s\<lparr>st_Lease := (st_Lease s)\<lparr>ls_Owner := [], ls_Until := ev_At e\<rparr>\<rparr>)"
| r_failed: "\<lbrakk>ev_Kind e = EventFailed; \<not> blank (ev_Reason e)\<rbrakk> \<Longrightarrow>
     rule sha s e (command_of CommandStopExecution) (stopped s StatusFailed (ev_Reason e))"
| r_budget: "ev_Kind e = EventBudgetReached \<Longrightarrow>
     rule sha s e (command_of CommandStopExecution)
       (stopped s StatusBudgetExhausted (ev_Reason e))"

subsection \<open>The handlers implement the rules\<close>

lemma command_of_inject [simp]: "command_of k = command_of k' \<longleftrightarrow> k = k'"
  by (simp add: command_of_def plain_command_def)

lemma claim_rule:
  assumes "claim s e = Inr (n, cs)" and k: "ev_Kind e = EventClaimed"
  shows "rule sha s e cs n"
proof -
  from assms(1) obtain l where l: "claimable s e l"
    by (auto simp: claim_def claimable_def not_le split: option.splits if_splits)
  then have "ev_Lease e = Some l" by (simp add: claimable_def)
  with assms(1) l consider
      "st_Status s = StatusCancelRequested" "n = s\<lparr>st_Lease := l\<rparr>" "cs = command_of CommandStopExecution"
    | "st_Status s \<in> {StatusQueued, StatusRunning, StatusNeedsReconciliation}"
      "st_WorkspaceRevision s \<noteq> 0" "cs = command_of CommandAdoptWorkspace"
      "n = to_adoption (reclaimed s l)"
    | "st_Status s \<in> {StatusQueued, StatusRunning, StatusNeedsReconciliation}"
      "st_WorkspaceRevision s = 0" "st_Stage s = StageInitialize" "st_PendingEffect s = None"
      "n = reclaimed s l" "cs = command_of CommandInitializeWorkspace"
    by (simp add: claim_def claimable_def reclaimed_def to_adoption_def Let_def not_le split: if_splits)
  then show ?thesis
    by cases (simp_all add: rule.r_claim_stop rule.r_claim_adopt rule.r_claim_init k l)
qed

lemma settleEffect_rule:
  assumes ok: "settleEffect s e rec = Inr (n, cs)"
    and "\<not> rec \<Longrightarrow> at_stage s e EventEffectCompleted StageExecuteEffects"
    and "rec \<Longrightarrow> ev_Kind e = EventReconciled \<and>
      (st_Status s = StatusNeedsReconciliation \<and> st_Stage s = StageReconcile
             \<or> st_Status s = StatusCancelRequested)"
  shows "rule sha s e cs n"
proof -
  from ok obtain ef r where p: "st_PendingEffect s = Some ef" and v: "ev_Receipt e = Some r"
    by (auto simp: settleEffect_def split: option.splits prod.splits)
  have st: "settles s e ef r"
    using assms by (cases rec) (auto simp: settleEffect_def settles_def p v split: if_splits)
  then have "settleEffect s e rec = (if st_Status s = StatusCancelRequested
      then Inr (settled_state s ef r, command_of CommandStopExecution)
      else Inr (scheduleEffect (continued (settled_state s ef r) r) e))"
    using assms(2) by (cases rec) (auto simp: settleEffect_def p v settles_def settled_state_def
        continued_def Let_def)
  then show ?thesis
    using ok rule.r_settle_stop [OF st] rule.r_settle [OF st]
    by (cases "st_Status s = StatusCancelRequested") (simp_all add: schedules_fun)
qed

lemma commandForStage_cases:
  assumes "commandForStage s = Inr (n, cs)"
  obtains (command) k where "resume_command (st_Stage s) = Some k" "n = s" "cs = command_of k"
  | (dispatch) ef where "st_Stage s = StageExecuteEffects" "st_PendingEffect s = Some ef" "ef_Status ef = EffectPlanned"
        "ef_RequiresApproval ef \<Longrightarrow> (\<exists>a. st_Approval s = Some a \<and> ap_Granted a \<and> approvalMatches a ef (st_WorkspaceRevision s))"
        "n = executing s ef" "cs = effect_command CommandExecuteEffect (Some (dispatched s ef))"
  using assms
  by (auto simp: commandForStage_def dispatchEffect_eq split: stage.splits option.splits if_splits)

lemma adopt_rule:
  assumes ok: "adopt s e = Inr (n, cs)" and k: "ev_Kind e = EventWorkspaceAdopted"
  shows "rule sha s e cs n"
proof -
  from ok obtain sr where sr: "stop_evidence s e sr" and g: "st_Stage s = StageAdoptWorkspace"
      and q: "st_Status s \<in> {StatusRunning, StatusNeedsReconciliation}"
    by (auto simp: adopt_def stop_evidence_def not_less split: option.splits if_splits)
  note base = k g q sr
  have eq: "adopt s e =
     (if unsettled (st_PendingEffect s)
      then Inr (s\<lparr>st_ReconciliationRevision := sr_WorkspaceRevision sr,
                  st_Status := StatusNeedsReconciliation, st_Stage := StageReconcile\<rparr>,
                effect_command CommandInspectEffect (st_PendingEffect s))
      else if sr_WorkspaceRevision sr \<noteq> st_WorkspaceRevision s
      then Inr (s\<lparr>st_Status := StatusNeedsReconciliation, st_Stage := StageReconcile,
             st_FailureReason := ''workspace changed without a pending ledger effect''\<rparr>, [])
      else if st_ResumeStage s = StageReconcile then Inl ErrReconciliation
      else if budgetReached (resumed s) e False (st_ResumeStage s = StageExecuteEffects)
      then Inr (stopped (resumed s) StatusBudgetExhausted
             ''budget reached while workspace was suspended'', command_of CommandStopExecution)
      else commandForStage (resumed s))"
    using sr g q by (auto simp: adopt_def stop_evidence_def resumed_def stop_eq not_less Let_def)
  consider "unsettled (st_PendingEffect s)"
    | "\<not> unsettled (st_PendingEffect s)" "sr_WorkspaceRevision sr \<noteq> st_WorkspaceRevision s"
    | (same) "\<not> unsettled (st_PendingEffect s)" "sr_WorkspaceRevision sr = st_WorkspaceRevision s"
    by blast
  then show ?thesis
  proof cases
    case same
    note same_base = base same
    show ?thesis
    proof (cases "budgetReached (resumed s) e False (st_ResumeStage s = StageExecuteEffects)")
      case True
      then show ?thesis using ok eq same rule.r_adopt_budget [OF same_base]
        by (auto split: if_splits)
    next
      case False
      then have "commandForStage (resumed s) = Inr (n, cs)" using ok eq same by (auto split: if_splits)
      then show ?thesis
      proof (cases rule: commandForStage_cases)
        case (command k)
        then show ?thesis using rule.r_adopt_resume [OF same_base, of k] False
          by (cases "st_ResumeStage s") (auto simp: resumed_def)
      next
        case (dispatch ef)
        then show ?thesis using rule.r_adopt_dispatch [OF base same(2), of ef] False
          by (simp add: resumed_def dispatched_def)
      qed
    qed
  qed (use ok eq base in \<open>auto intro: rule.r_adopt_unsettled rule.r_adopt_changed\<close>)
qed


lemma context_rule:
  assumes ok: "context_built s e = Inr (n, cs)" and k: "ev_Kind e = EventContextBuilt"
  shows "rule sha s e cs n"
proof -
  from ok obtain m where base: "at_stage s e EventContextBuilt StageBuildContext"
      "ev_OutputRef e \<noteq> []" "observeProgress s e = Inr m"
    using k by (auto simp: context_built_def requireStage_def res_bind_Inr_iff split: if_splits)
  then have "context_built s e =
     (if budgetReached m e True False
      then Inr (stopped m StatusBudgetExhausted ''model budget reached'', command_of CommandStopExecution)
      else if no_progress_left m
      then Inr (stopped m StatusBudgetExhausted ''repeated_no_progress'', command_of CommandStopExecution)
      else Inr (m\<lparr>st_OutputRef := ev_OutputRef e, st_Stage := StageModel,
          st_ModelRounds := st_ModelRounds m + 1, st_StepSeq := st_StepSeq m + 1\<rparr>,
          command_of CommandCallModel))"
    by (simp add: context_built_def requireStage_def stop_eq no_progress_left_def)
  then show ?thesis
    using ok rule.r_context_stop [OF base, of _ sha] rule.r_context_call [OF base, of sha]
    by (auto split: if_splits)
qed

lemma model_rule:
  assumes ok: "model_completed s e = Inr (n, cs)" and k: "ev_Kind e = EventModelCompleted"
  shows "rule sha s e cs n"
proof -
  from ok obtain cost where base: "at_stage s e EventModelCompleted StageModel"
      "ev_Complete e" "ev_OutputRef e \<noteq> []" "Money_Add (st_Cost s) (ev_Cost e) = Inr cost"
    using k by (auto simp: model_completed_def requireStage_def res_bind_Inr_iff split: if_splits)
  then have "model_completed s e =
     (if budgetReached (charged s e cost) e False False
      then Inr (stopped (charged s e cost) StatusBudgetExhausted ''cost or runtime budget reached'',
             command_of CommandStopExecution)
      else if ev_Finish e
      then Inr ((charged s e cost)\<lparr>st_Stage := StageVerify\<rparr>, command_of CommandVerify)
      else Inr ((charged s e cost)\<lparr>st_Stage := StageValidateTools\<rparr>, command_of CommandValidateTools))"
    by (simp add: model_completed_def requireStage_def stop_eq charged_def Let_def)
  then show ?thesis
    using ok rule.r_model_stop [OF base refl, of sha] rule.r_model_finish [OF base refl, of sha]
      rule.r_model_tools [OF base refl, of sha]
    by (auto split: if_splits)
qed

lemma tools_rule: "tools_validated sha s e = Inr (n, cs) \<Longrightarrow> ev_Kind e = EventToolsValidated \<Longrightarrow> rule sha s e cs n"
  by (auto simp: tools_validated_def requireStage_def res_bind_Inr_iff schedules_fun
      split: if_splits option.splits intro!: rule.r_tools)

lemma approval_rule:
  assumes ok: "decideApproval s e = Inr (n, cs)" and k: "ev_Kind e = EventApprovalDecided"
  shows "rule sha s e cs n"
proof -
  from ok obtain a ef d where base: "st_Status s = StatusWaitingApproval"
      "st_Stage s = StageApprovalGate" "st_Approval s = Some a" "st_PendingEffect s = Some ef"
      "ev_Approval e = Some d" "ad_Binding d = a" "\<not> ap_Granted a"
      "approvalMatches a ef (st_WorkspaceRevision s)"
    by (auto simp: decideApproval_def split: if_splits option.splits)
  then show ?thesis
    using ok rule.r_deny [OF k base, of sha] rule.r_approve [OF k base, of sha]
    by (auto simp: decideApproval_def stop_eq split: if_splits)
qed

lemma verify_rule:
  assumes ok: "verify s e = Inr (n, cs)" and k: "ev_Kind e = EventVerificationCompleted"
  shows "rule sha s e cs n"
proof -
  from ok obtain v where base: "at_stage s e EventVerificationCompleted StageVerify" "trusted_evidence s e v"
    using k by (auto simp: verify_def requireStage_def res_bind_Inr_iff trusted_evidence_def
        split: if_splits option.splits)
  then have "verify s e = (if evidence_passes v
      then Inr ((verified_state s v (if ve_BaselineTargetFailed v then VerificationVerified
                else VerificationRegressionOnly))\<lparr>st_Stage := StageFinalize\<rparr>, command_of CommandFinalize)
      else Inr ((verified_state s v VerificationUnverified)
          \<lparr>st_Stage := StageBuildContext, st_OutputRef := ve_ReportRef v\<rparr>, command_of CommandBuildContext))"
    by (auto simp: verify_def requireStage_def trusted_evidence_def evidence_passes_def
        verified_state_def Let_def)
  then show ?thesis
    using ok rule.r_verify_retry [OF base, of sha] rule.r_verify_ok [OF base, of sha]
    by (auto split: if_splits)
qed

lemma confirm_rule:
  assumes ok: "confirmStop s e = Inr (n, cs)" and k: "ev_Kind e = EventCancellationConfirmed"
  shows "rule sha s e cs n"
proof -
  from ok obtain sr where base: "st_Status s = StatusCancelRequested" "st_StopTarget s \<noteq> no_status"
      "stop_evidence s e sr" "\<not> unsettled (st_PendingEffect s)"
    by (auto simp: confirmStop_def stop_evidence_def not_less split: if_splits option.splits)
  then have "confirmStop s e = Inr (confirmed_state s sr, command_of CommandPublishTerminal)"
    by (auto simp: confirmStop_def stop_evidence_def confirmed_state_def Let_def not_less)
  then show ?thesis
    using ok rule.r_confirm [OF k base, of sha] by simp
qed

lemma uncertain_rule:
  assumes ok: "effect_uncertain s e = Inr (n, cs)" and k: "ev_Kind e = EventEffectUncertain"
  shows "rule sha s e cs n"
proof -
  from ok obtain ef where base: "at_stage s e EventEffectUncertain StageExecuteEffects" "st_PendingEffect s = Some ef" "unsettled (Some ef)"
    using k by (cases "st_PendingEffect s")
       (auto simp: effect_uncertain_def requireStage_def res_bind_Inr_iff unsettled_def split: if_splits)
  then show ?thesis
    using ok rule.r_uncertain [OF base, of sha]
    by (auto simp: effect_uncertain_def requireStage_def Let_def)
qed

lemma capacity_rule:
  assumes ok: "capacity_rejected s e = Inr (n, cs)" and k: "ev_Kind e = EventCapacityRejected"
  shows "rule sha s e cs n"
  using assms by (auto simp: capacity_rejected_def zero_lease_def split: if_splits option.splits
      intro!: rule.r_capacity)

lemma apply_event_sound:
  assumes "apply_event sha (ev_Kind e) s e = Inr (n, cs)"
  shows "rule sha s e cs n"
proof (cases "ev_Kind e")
  case EventClaimed
  then show ?thesis using assms claim_rule by simp
next
  case EventCapacityRejected
  then show ?thesis using assms capacity_rule by simp
next
  case EventWorkspaceReady
  then show ?thesis using assms by (auto simp: workspace_ready_def requireStage_def res_bind_Inr_iff
    split: if_splits intro: rule.r_ready)
qed (use assms in \<open>auto simp: effect_completed_def reconciled_def results_ingested_def finalized_def
   resume_requested_def failed_def requireStage_def res_bind_Inr_iff stop_eq
   split: if_splits intro: adopt_rule context_rule tools_rule settleEffect_rule uncertain_rule
   model_rule approval_rule verify_rule confirm_rule rule.r_ingested rule.r_finalized rule.r_cancel rule.r_resume
   rule.r_failed rule.r_budget\<close>)


lemma apply_event_complete:
  assumes "rule sha s e cs n"
  shows "apply_event sha (ev_Kind e) s e = Inr (n, cs)"
  using assms
proof (cases rule: rule.cases)
  case (r_claim_stop l)
  then show ?thesis by (auto simp: claim_def claimable_def)
next
  case (r_claim_adopt l)
  then show ?thesis by (auto simp: claim_def claimable_def reclaimed_def to_adoption_def Let_def)
next
  case (r_claim_init l)
  then show ?thesis by (auto simp: claim_def claimable_def reclaimed_def Let_def)
next
  case (r_capacity nb)
  then show ?thesis by (simp add: capacity_rejected_def zero_lease_def)
next
  case (r_adopt_resume sr k)
  then show ?thesis
    by (cases "st_ResumeStage s")
      (auto simp: adopt_def stop_evidence_def resumed_def commandForStage_def not_less Let_def)
next
  case (r_adopt_dispatch sr ef)
  then show ?thesis
    by (auto simp: adopt_def stop_evidence_def resumed_def commandForStage_def not_less Let_def
      unsettled_def dispatchEffect_def executing_def dispatched_def)
next
  case (r_settle_stop ef r)
  then show ?thesis
    by (auto simp: settles_def reconciled_def settleEffect_def settled_state_def Let_def)
next
  case (r_settle ef r)
  then show ?thesis
    by (auto simp: settles_def reconciled_def effect_completed_def requireStage_def settleEffect_def
       settled_state_def continued_def schedules_fun Let_def)
qed (auto simp: workspace_ready_def adopt_def context_built_def model_completed_def tools_validated_def
    effect_uncertain_def results_ingested_def decideApproval_def verify_def finalized_def confirmStop_def
    resume_requested_def failed_def requireStage_def stop_eq stop_evidence_def not_less schedules_fun
    resumed_def charged_def Let_def trusted_evidence_def evidence_passes_def verified_state_def
    confirmed_state_def no_progress_left_def split: if_splits option.splits)


theorem apply_event_iff_rule:
  "apply_event sha (ev_Kind e) s e = Inr (n, cs) \<longleftrightarrow> rule sha s e cs n"
  using apply_event_sound apply_event_complete by blast

text \<open>An accepted event: \<open>Transition\<close> returned no error.\<close>

definition accepted :: "(bytes \<Rightarrow> string) \<Rightarrow> state \<Rightarrow> event \<Rightarrow> command list \<Rightarrow> state \<Rightarrow> bool" where
  "accepted sha s e cs s' \<longleftrightarrow> Transition sha s e = (s', cs, None)"

abbreviation repeated_cancel :: "state \<Rightarrow> event \<Rightarrow> bool" where
  "repeated_cancel s e \<equiv> ev_Kind e = EventCancelRequested \<and> st_Status s = StatusCancelRequested"

definition bumped :: "state \<Rightarrow> state" where
  "bumped n = n\<lparr>st_Version := st_Version n + 1\<rparr>"

lemma accepted_iff:
  "accepted sha s e cs s' \<longleftrightarrow>
     admission sha s e = None \<and>
     (if repeated_cancel s e then s' = s \<and> cs = []
      else \<exists>n. rule sha s e cs n \<and> s' = bumped n \<and> valid_state sha s')"
  by (auto simp: accepted_def Transition_def bumped_def Let_def apply_event_iff_rule [symmetric]
      split: option.splits sum.splits prod.splits)

lemma acceptedE:
  assumes "accepted sha s e cs s'"
  obtains (noop) "repeated_cancel s e" "s' = s" "cs = []" "admission sha s e = None"
  | (step) n where "admission sha s e = None" "\<not> repeated_cancel s e" "rule sha s e cs n"
      "s' = bumped n" "valid_state sha s'"
  using assms by (auto simp: accepted_iff split: if_splits)

end
