(* ===== verification/Runtime_Steps.thy ===== *)
theory Runtime_Steps
  imports Runtime_Rules
begin

section \<open>What one accepted event changes\<close>

text \<open>
  Facts about a single application of a reducer rule, one group per concern: the fields no
  event touches, the lease epoch, the ledger of dispatched effects, the counters and budgets,
  approvals, verification evidence, stopping, and unattributed workspace changes. They are
  proved by cases on the rules of \<open>Runtime_Rules\<close> and lifted to whole executions in
  \<open>Runtime_Runs\<close>.
\<close>

subsection \<open>Frames\<close>

lemmas outcome_defs = stopped_def executing_def dispatched_def planned_def binding_of_def
  reclaimed_def to_adoption_def resumed_def settled_state_def continued_def verified_state_def
  confirmed_state_def charged_def bumped_def

lemma observeProgress_frame:
  assumes "observeProgress s e = Inr n"
  obtains p where "n = s\<lparr>st_Progress := p\<rparr>"
proof -
  have "n = s \<or> (\<exists>p. n = s\<lparr>st_Progress := p\<rparr>)"
    using assms unfolding observeProgress_def
    by (auto simp: Let_def split: if_splits option.splits sum.splits prod.splits)
  moreover have "s = s\<lparr>st_Progress := st_Progress s\<rparr>" by simp
  ultimately show thesis using that by metis
qed

lemma schedules_frame:
  assumes "schedules e s cs n"
  shows "st_Version n = st_Version s" "st_RunID n = st_RunID s" "st_TenantID n = st_TenantID s"
    "st_SchemaVersion n = st_SchemaVersion s" "st_Limits n = st_Limits s"
    "st_Progress n = st_Progress s" "st_StepSeq n = st_StepSeq s"
    "st_WorkspaceRevision n = st_WorkspaceRevision s" "st_ReconciliationRevision n = st_ReconciliationRevision s"
    "st_Verification n = st_Verification s" "st_VerificationReportRef n = st_VerificationReportRef s"
    "st_VerificationRevision n = st_VerificationRevision s" "st_ModelRounds n = st_ModelRounds s"
    "st_Cost n = st_Cost s" "st_OutputRef n = st_OutputRef s" "ls_Epoch (st_Lease n) = ls_Epoch (st_Lease s)"
    "st_ResumeStage n = st_ResumeStage s"
  using assms by (cases rule: schedules.cases; simp add: outcome_defs)+

lemma continued_frame [simp]:
    "st_Version (continued s r) = st_Version s" "st_RunID (continued s r) = st_RunID s"
    "st_TenantID (continued s r) = st_TenantID s"
    "st_SchemaVersion (continued s r) = st_SchemaVersion s" "st_Limits (continued s r) = st_Limits s"
    "st_Lease (continued s r) = st_Lease s"
    "st_Status (continued s r) = StatusRunning" "st_PendingEffect (continued s r) = None"
  by (simp_all add: continued_def)

lemma rule_frame:
  assumes "rule sha s e cs n"
  shows "st_Version n = st_Version s \<and> st_RunID n = st_RunID s \<and> st_TenantID n = st_TenantID s
    \<and> st_SchemaVersion n = st_SchemaVersion s \<and> st_Limits n = st_Limits s"
  using assms
  by (cases rule: rule.cases) (auto simp: outcome_defs schedules_frame elim: observeProgress_frame)

lemma rule_epoch:
  assumes "rule sha s e cs n"
  shows "if ev_Kind e = EventClaimed
     then ls_Epoch (st_Lease s) < ls_Epoch (st_Lease n) \<and> ls_Epoch (st_Lease n) = ev_Epoch e
     else ls_Epoch (st_Lease n) = ls_Epoch (st_Lease s)"
  using assms
  by (cases rule: rule.cases) (auto simp: outcome_defs claimable_def settles_def schedules_frame elim: observeProgress_frame)


subsection \<open>Effects\<close>

definition effect_key :: "effect \<Rightarrow> string \<times> string \<times> u64 \<times> u64" where
  "effect_key ef = (ef_ID ef, ef_ArgsHash ef, ef_DispatchEpoch ef, ef_ExpectedRevision ef)"

definition receipt_key :: "effect_receipt \<Rightarrow> string \<times> string \<times> u64 \<times> u64" where
  "receipt_key r = (rc_EffectID r, rc_ArgsHash r, rc_Epoch r, rc_BeforeRevision r)"

definition executes :: "command list \<Rightarrow> effect list" where
  "executes cs = List.map_filter (\<lambda>c. if cm_Kind c = CommandExecuteEffect then cm_Effect c else None) cs"

definition receipts :: "event \<Rightarrow> effect_receipt list" where
  "receipts e = (if ev_Kind e \<in> {EventEffectCompleted, EventReconciled}
     then (case ev_Receipt e of None \<Rightarrow> [] | Some r \<Rightarrow> [r]) else [])"

definition outstanding :: "state \<Rightarrow> effect list" where
  "outstanding s = (case st_PendingEffect s of None \<Rightarrow> [] | Some ef \<Rightarrow> if unsettled (Some ef) then [ef] else [])"

lemma executes_simps [simp]:
  "executes [] = []"
  "executes (command_of k) = []"
  "executes (effect_command CommandExecuteEffect (Some ef)) = [ef]"
  "executes (effect_command CommandInspectEffect x) = []"
  "executes [\<lparr>cm_Kind = CommandRequestApproval, cm_Effect = x, cm_Binding = b\<rparr>] = []"
  by (simp_all add: executes_def command_of_def plain_command_def effect_command_def List.map_filter_simps)

lemma settled_not_unsettled: "settled_outcome x \<Longrightarrow> \<not> unsettled (Some (ef\<lparr>ef_Status := x, ef_ReceiptRef := y\<rparr>))"
  by (auto simp: settled_outcome_def unsettled_def)

lemma schedules_executes:
  assumes "schedules e s cs n" and "outstanding s = []"
  shows "outstanding n = executes cs"
  using assms by (cases rule: schedules.cases) (auto simp: outcome_defs outstanding_def unsettled_def split: option.splits)


lemma validate_pendingD:
  assumes "validate_pending sha s = None" and "st_PendingEffect s = Some ef"
  shows "ef_ExpectedRevision ef \<noteq> 0"
    and "ef_ID ef \<notin> ef_ID ` set (st_RemainingEffects s)"
    and "validateEffect sha (ef\<lparr>ef_Status := EffectPlanned, ef_DispatchEpoch := 0, ef_ReceiptRef := []\<rparr>) = None"
    and "unsettled (Some ef) \<Longrightarrow> ef_DispatchEpoch ef \<noteq> 0 \<and> ef_ReceiptRef ef = []
      \<and> (st_Status s = StatusCancelRequested
         \<or> st_Stage s \<in> {StageExecuteEffects, StageAdoptWorkspace, StageReconcile})"
  using assms by (auto simp: validate_pending_def unsettled_def split: if_splits option.splits effect_status.splits)

lemma valid_stateD:
  assumes "valid_state sha s"
  shows "validate_shape s = None" "check_batch sha ErrInvalid [] (st_RemainingEffects s) = None"
    "validate_pending sha s = None" "validate_evidence s = None"
  using assms by (auto simp: validateState_def split: option.splits)

lemma valid_unsettled_stage:
  assumes "valid_state sha s" and "unsettled (st_PendingEffect s)"
  shows "st_Status s = StatusCancelRequested
    \<or> st_Stage s \<in> {StageExecuteEffects, StageAdoptWorkspace, StageReconcile}"
  using assms validate_pendingD(4) [OF valid_stateD(3) [OF assms(1)]]
  by (cases "st_PendingEffect s") (auto simp: unsettled_def)

lemma settles_keys: "settles s e ef r \<Longrightarrow> receipts e = [r] \<and> outstanding s = [ef] \<and> effect_key ef = receipt_key r"
  by (auto simp: settles_def receipts_def outstanding_def effect_key_def receipt_key_def receipt_binds_def)

lemma outstanding_settled: "settles s e ef r \<Longrightarrow> outstanding (settled_state s ef r) = []"
  by (auto simp: settles_def outstanding_def settled_state_def settled_not_unsettled)

lemma outstanding_cong: "st_PendingEffect n = st_PendingEffect s \<Longrightarrow> outstanding n = outstanding s"
  by (simp add: outstanding_def)

lemma outstanding_eq_Nil: "outstanding s = [] \<longleftrightarrow> \<not> unsettled (st_PendingEffect s)"
  by (auto simp: outstanding_def unsettled_def split: option.splits)

lemma rule_outstanding:
  assumes "rule sha s e cs n" and "valid_state sha s"
  shows "map effect_key (outstanding s) @ map effect_key (executes cs)
       = map receipt_key (receipts e) @ map effect_key (outstanding n)"
  using assms(1)
proof (cases rule: rule.cases)
  case (r_tools)
  then have "outstanding s = []"
    using valid_unsettled_stage [OF assms(2)] by (auto simp: outstanding_eq_Nil)
  then show ?thesis
    using r_tools schedules_executes [OF r_tools(7)] by (simp add: outstanding_def receipts_def)
next
  case (r_settle_stop ef r)
  then show ?thesis using settles_keys outstanding_settled by simp
next
  case (r_settle ef r)
  have "outstanding (continued (settled_state s ef r) r) = []" by (simp add: outstanding_def)
  from schedules_executes [OF r_settle(3) this] settles_keys [OF r_settle(1)]
  show ?thesis by simp
next
  case (r_adopt_dispatch sr ef)
  then show ?thesis by (auto simp: outstanding_def unsettled_def outcome_defs receipts_def)
next
  case (r_uncertain ef)
  then show ?thesis by (auto simp: outstanding_def unsettled_def receipts_def effect_key_def)
qed (auto simp: outcome_defs receipts_def outstanding_def elim: observeProgress_frame)


subsection \<open>Counters and budgets\<close>

definition within :: "u64 \<Rightarrow> u64 \<Rightarrow> bool" where
  "within count limit \<longleftrightarrow> (0 < limit \<longrightarrow> count \<le> limit)"

lemma budgetReachedD:
  assumes "\<not> budgetReached s e model tool"
  shows "lm_Deadline (st_Limits s) \<noteq> 0 \<Longrightarrow> ev_At e < lm_Deadline (st_Limits s)"
    and "0 < lm_MaxCost (st_Limits s) \<Longrightarrow> st_Cost s < lm_MaxCost (st_Limits s)"
    and "model \<Longrightarrow> within (st_ModelRounds s + 1) (lm_MaxModelRounds (st_Limits s))
           \<and> st_ModelRounds s \<noteq> max_uint64 \<and> st_StepSeq s \<noteq> max_uint64"
    and "tool \<Longrightarrow> within (st_ToolCalls s + 1) (lm_MaxToolCalls (st_Limits s))
           \<and> st_ToolCalls s \<noteq> max_uint64"
  using assms by (auto simp: budgetReached_def within_def not_le intro: inc_le_word)

lemma schedules_ToolCalls:
  assumes "schedules e s cs n"
  shows "if executes cs = [] then st_ToolCalls n = st_ToolCalls s
    else st_ToolCalls n = st_ToolCalls s + 1 \<and> length (executes cs) = 1
         \<and> \<not> budgetReached s e False True"
  using assms by (cases rule: schedules.cases) (auto simp: outcome_defs)

lemma continued_counters [simp]:
  "st_ToolCalls (continued s r) = st_ToolCalls s"
  "st_ModelRounds (continued s r) = st_ModelRounds s"
  "st_StepSeq (continued s r) = st_StepSeq s"
  "st_Cost (continued s r) = st_Cost s"
  "st_WorkspaceRevision (continued s r) = st_WorkspaceRevision s"
  "st_Approval (continued s r) = st_Approval s"
  "st_Verification (continued s r) = st_Verification s"
  "st_VerificationReportRef (continued s r) = st_VerificationReportRef s"
  "st_VerificationRevision (continued s r) = st_VerificationRevision s"
  by (simp_all add: continued_def)

lemma rule_ToolCalls:
  assumes "rule sha s e cs n"
  shows "if executes cs = [] then st_ToolCalls n = st_ToolCalls s
    else st_ToolCalls n = st_ToolCalls s + 1 \<and> length (executes cs) = 1
         \<and> \<not> budgetReached s e False True"
  using assms
proof (cases rule: rule.cases)
  case r_tools
  from schedules_ToolCalls [OF r_tools(7)] show ?thesis
    by (auto simp: budgetReached_def split: if_splits)
next
  case (r_settle ef r)
  from schedules_ToolCalls [OF r_settle(3)] show ?thesis
    by (auto simp: settled_state_def budgetReached_def split: if_splits)
next
  case (r_adopt_dispatch sr ef)
  then show ?thesis by (simp add: outcome_defs budgetReached_def)
qed (auto simp: outcome_defs elim: observeProgress_frame)

definition model_call :: "event \<Rightarrow> command list \<Rightarrow> bool" where
  "model_call e cs \<longleftrightarrow> ev_Kind e = EventContextBuilt \<and> cs = command_of CommandCallModel"

lemma rule_ModelRounds:
  assumes "rule sha s e cs n"
  shows "if model_call e cs
    then st_ModelRounds n = st_ModelRounds s + 1 \<and> st_StepSeq n = st_StepSeq s + 1
         \<and> \<not> budgetReached s e True False
    else st_ModelRounds n = st_ModelRounds s \<and> st_StepSeq n = st_StepSeq s"
  using assms
proof (cases rule: rule.cases)
  case (r_context_call m)
  then obtain p where "m = s\<lparr>st_Progress := p\<rparr>" by (blast elim: observeProgress_frame)
  then show ?thesis using r_context_call by (simp add: model_call_def budgetReached_def)
next
  case r_tools
  then show ?thesis by (simp add: model_call_def schedules_frame)
next
  case r_settle
  then show ?thesis by (auto simp: model_call_def schedules_frame settles_def settled_state_def)
qed (auto simp: outcome_defs model_call_def settles_def elim: observeProgress_frame)

lemma rule_Cost:
  assumes "rule sha s e cs n"
  shows "if ev_Kind e = EventModelCompleted then Money_Add (st_Cost s) (ev_Cost e) = Inr (st_Cost n)
         else st_Cost n = st_Cost s"
  using assms
  by (cases rule: rule.cases)
    (auto simp: outcome_defs settles_def schedules_frame elim: observeProgress_frame)

lemma schedules_kinds: "schedules e s cs n \<Longrightarrow> c \<in> set cs \<Longrightarrow> cm_Kind c \<in>
   {CommandIngestResults, CommandStopExecution, CommandRequestApproval, CommandExecuteEffect}
   \<and> (cm_Kind c = CommandExecuteEffect \<longrightarrow> executes cs \<noteq> [])"
  by (cases rule: schedules.cases) auto


definition may_spend :: "state \<Rightarrow> event \<Rightarrow> bool" where
  "may_spend s e \<longleftrightarrow> (lm_Deadline (st_Limits s) \<noteq> 0 \<longrightarrow> ev_At e < lm_Deadline (st_Limits s))
     \<and> (0 < lm_MaxCost (st_Limits s) \<longrightarrow> st_Cost s < lm_MaxCost (st_Limits s))"

lemma budget_may_spend: "\<not> budgetReached s e model tool \<Longrightarrow> may_spend s e"
  using budgetReachedD(1,2) by (auto simp: may_spend_def)

lemma resume_command_kind:
  "resume_command g = Some k \<Longrightarrow> k \<in> {CommandBuildContext, CommandCallModel, CommandValidateTools,
     CommandIngestResults, CommandVerify, CommandFinalize}"
  by (cases g) auto

lemma rule_spends:
  assumes "rule sha s e cs n" and "c \<in> set cs"
    and "cm_Kind c \<in> {CommandCallModel, CommandExecuteEffect}"
  shows "may_spend s e \<and> st_Cost n = st_Cost s"
proof (cases "cm_Kind c = CommandExecuteEffect")
  case True
  from assms(1) have "executes cs \<noteq> [] \<and> st_Cost n = st_Cost s"
    by (cases rule: rule.cases)
      (use assms(2) True schedules_kinds in \<open>auto dest: resume_command_kind simp: outcome_defs schedules_frame elim: observeProgress_frame\<close>)
  then show ?thesis using rule_ToolCalls [OF assms(1)] budget_may_spend by auto
next
  case False
  with assms(3) have c: "cm_Kind c = CommandCallModel" by simp
  from assms(1) show ?thesis
  proof (cases rule: rule.cases)
    case (r_adopt_resume sr k)
    then show ?thesis using budget_may_spend by (fastforce simp: may_spend_def resumed_def)
  next
    case (r_context_call m)
    then obtain p where "m = s\<lparr>st_Progress := p\<rparr>" by (blast elim: observeProgress_frame)
    then show ?thesis using r_context_call budget_may_spend by (fastforce simp: may_spend_def)
  qed (use assms(2) c in \<open>auto dest: schedules_kinds\<close>)
qed


subsection \<open>Approvals\<close>

definition approves :: "event \<Rightarrow> bool" where
  "approves e \<longleftrightarrow> ev_Kind e = EventApprovalDecided
     \<and> (case ev_Approval e of None \<Rightarrow> False | Some d \<Rightarrow> ad_Approve d)"

text \<open>The decision \<open>e\<close> approved exactly this effect at this revision and policy.\<close>

definition approves_effect :: "event \<Rightarrow> effect \<Rightarrow> bool" where
  "approves_effect e ef \<longleftrightarrow> approves e
     \<and> (case ev_Approval e of None \<Rightarrow> False
        | Some d \<Rightarrow> approvalMatches (ad_Binding d) ef (ef_ExpectedRevision ef))"

definition granted_for :: "state \<Rightarrow> effect \<Rightarrow> bool" where
  "granted_for s ef =
     (case st_Approval s of
        None \<Rightarrow> False
      | Some a \<Rightarrow> ap_Granted a \<and> approvalMatches a ef (ef_ExpectedRevision ef))"

lemma approvalMatches_frame [simp]:
  "approvalMatches (a\<lparr>ap_Granted := g, ap_Version := v\<rparr>) ef r = approvalMatches a ef r"
  "approvalMatches a (ef\<lparr>ef_Status := x\<rparr>) r = approvalMatches a ef r"
  "approvalMatches a (ef\<lparr>ef_DispatchEpoch := y\<rparr>) r = approvalMatches a ef r"
  by (simp_all add: approvalMatches_def)

lemma schedules_Approval:
  assumes "schedules e s cs n"
  shows "st_Approval n = st_Approval s \<and> (\<forall>ef\<in>set (executes cs). \<not> ef_RequiresApproval ef)
    \<or> (\<exists>a. st_Approval n = Some a \<and> \<not> ap_Granted a) \<and> executes cs = []"
  using assms by (cases rule: schedules.cases) (auto simp: outcome_defs)

text \<open>A granted approval after an event was granted before it or by it.\<close>

lemma rule_granted:
  assumes "rule sha s e cs n" and "granted_for n ef"
  shows "granted_for s ef \<or> approves_effect e ef"
  using assms(1)
proof (cases rule: rule.cases)
  case r_tools
  from schedules_Approval [OF r_tools(7)] assms(2) show ?thesis by (auto simp: granted_for_def)
next
  case (r_settle f r)
  from schedules_Approval [OF r_settle(3)] assms(2) show ?thesis
    by (auto simp: granted_for_def settled_state_def)
next
  case (r_approve a f d)
  then show ?thesis using assms(2)
    by (auto simp: granted_for_def approves_effect_def approves_def)
qed (use assms(2) in \<open>auto simp: granted_for_def outcome_defs split: if_splits elim: observeProgress_frame\<close>)

lemma rule_execute_granted:
  assumes "rule sha s e cs n" and "ef \<in> set (executes cs)" and "ef_RequiresApproval ef"
  shows "granted_for s ef"
  using assms(1)
proof (cases rule: rule.cases)
  case r_tools
  from schedules_Approval [OF r_tools(7)] assms(2,3) show ?thesis by auto
next
  case (r_settle f r)
  from schedules_Approval [OF r_settle(3)] assms(2,3) show ?thesis by auto
next
  case (r_adopt_dispatch sr f)
  then show ?thesis using assms(2,3)
    by (auto simp: granted_for_def dispatched_def approvalMatches_def)
qed (use assms(2) in auto)

text \<open>A grant that no dispatch has used yet.\<close>

definition grant_open :: "state \<Rightarrow> bool" where
  "grant_open s \<longleftrightarrow>
     (case (st_Approval s, st_PendingEffect s) of
        (Some a, Some ef) \<Rightarrow> ap_Granted a \<and> ef_Status ef = EffectPlanned
      | _ \<Rightarrow> False)"

definition approved_executes :: "command list \<Rightarrow> nat" where
  "approved_executes cs = length (filter ef_RequiresApproval (executes cs))"

lemma rule_grant_open:
  assumes "rule sha s e cs n"
  shows "approved_executes cs + of_bool (grant_open n) \<le> of_bool (grant_open s) + of_bool (approves e)"
  using assms
proof (cases rule: rule.cases)
  case r_tools
  from r_tools(7) show ?thesis
    by (cases rule: schedules.cases)
      (auto simp: outcome_defs grant_open_def approved_executes_def split: option.splits)
next
  case (r_settle f r)
  from r_settle(3) show ?thesis
    by (cases rule: schedules.cases) 
     (auto simp: outcome_defs grant_open_def approved_executes_def split: option.splits)
next
  case (r_adopt_dispatch sr f)
  then show ?thesis
    by (auto simp: outcome_defs grant_open_def approved_executes_def split: option.splits)
next
  case (r_approve a f d)
  then show ?thesis by (auto simp: grant_open_def approved_executes_def approves_def)
qed (auto simp: approved_executes_def grant_open_def outcome_defs split: option.splits elim: observeProgress_frame)


subsection \<open>Verification and termination of a run\<close>

definition evidence_for :: "state \<Rightarrow> event \<Rightarrow> bool" where
  "evidence_for s e \<longleftrightarrow> ev_Kind e = EventVerificationCompleted
     \<and> (case ev_Verification e of None \<Rightarrow> False
        | Some v \<Rightarrow> ve_Trusted v \<and> evidence_passes v
            \<and> ve_ReportRef v = st_VerificationReportRef s
            \<and> ve_WorkspaceRevision v = st_VerificationRevision s
            \<and> (st_Verification s = VerificationVerified
               \<longrightarrow> ve_BaselineTargetFailed v \<and> ve_TargetPassed v))"

lemma evidence_for_cong:
  "st_VerificationReportRef n = st_VerificationReportRef s \<Longrightarrow> st_VerificationRevision n = st_VerificationRevision s
   \<Longrightarrow> st_Verification n = st_Verification s \<Longrightarrow> evidence_for n = evidence_for s"
  by (rule ext) (simp add: evidence_for_def split: option.split)

lemma rule_evidence:
  assumes "rule sha s e cs n" and "st_Verification n \<noteq> VerificationUnverified"
  shows "evidence_for n e \<or> (st_Verification s \<noteq> VerificationUnverified \<and> evidence_for n = evidence_for s)"
  using assms(1)
proof (cases rule: rule.cases)
  case (r_verify_ok v)
  then show ?thesis
    by (auto simp: evidence_for_def verified_state_def trusted_evidence_def evidence_passes_def)
next
  case r_tools
  then show ?thesis using assms(2) evidence_for_cong [of n s] schedules_frame [OF r_tools(7)] by simp
next
  case (r_settle ef r)
  then show ?thesis using assms(2) schedules_frame [OF r_settle(3)] by (simp add: settled_state_def)
qed (use assms(2) evidence_for_cong [of n s] in \<open>auto simp: outcome_defs split: if_splits elim: observeProgress_frame\<close>)

text \<open>Only a finalization completes a run, and it needs current evidence.\<close>

lemma schedules_status: "schedules e s cs n \<Longrightarrow> st_Status n \<in> {st_Status s, StatusCancelRequested, StatusWaitingApproval}"
  by (cases rule: schedules.cases) (auto simp: outcome_defs)

lemma rule_completed:
  assumes "rule sha s e cs n" and "st_Status n = StatusCompleted" and "\<not> RunStatus_Terminal (st_Status s)"
    and "valid_state sha s"
  shows "ev_Kind e = EventFinalized \<and> st_Verification n \<noteq> VerificationUnverified
    \<and> st_VerificationRevision n = st_WorkspaceRevision n"
  using assms(1)
proof (cases rule: rule.cases)
  case r_tools
  then show ?thesis using assms(2) schedules_status [OF r_tools(7)] by auto
next
  case (r_settle ef r)
  then show ?thesis using assms(2) schedules_status [OF r_settle(3)] by auto
next
  case (r_confirm sr)
  then show ?thesis using assms(2,4) valid_stateD(1) [OF assms(4)]
    by (auto simp: confirmed_state_def validate_shape_def split: if_splits option.splits)
qed (use assms(2,3) in \<open>auto simp: outcome_defs split: if_splits elim: observeProgress_frame\<close>)

subsection \<open>Stopping\<close>

lemma rule_stopping:
  assumes "rule sha s e cs n" and "st_Status s = StatusCancelRequested" and "admission sha s e = None" and "\<not> repeated_cancel s e"
  shows "st_Status n = StatusCancelRequested \<and> cs = command_of CommandStopExecution
       \<or> st_Status n = st_StopTarget s \<and> cs = command_of CommandPublishTerminal"
    and "st_StopTarget n = st_StopTarget s"
proof -
  have k: "allowedDuringStop (ev_Kind e)"
    using assms(2,3) by (auto simp: admission_def split: if_splits)
  from assms(1) have "(st_Status n = StatusCancelRequested \<and> cs = command_of CommandStopExecution
       \<or> st_Status n = st_StopTarget s \<and> cs = command_of CommandPublishTerminal) \<and> st_StopTarget n = st_StopTarget s"
    by (cases rule: rule.cases) (use assms(2,4) k in \<open>auto simp: outcome_defs allowedDuringStop_def settles_def\<close>)
  then show "st_Status n = StatusCancelRequested \<and> cs = command_of CommandStopExecution
       \<or> st_Status n = st_StopTarget s \<and> cs = command_of CommandPublishTerminal"
    and "st_StopTarget n = st_StopTarget s" by auto
qed

lemma rule_publish:
  assumes "rule sha s e cs n" and "\<not> RunStatus_Terminal (st_Status s)" and "valid_state sha s" 
  shows "RunStatus_Terminal (st_Status n) \<longleftrightarrow> CommandPublishTerminal \<in> cm_Kind ` set cs"
  using assms(1)
proof (cases rule: rule.cases)
  case r_tools
  then show ?thesis using schedules_status [OF r_tools(7)] schedules_kinds [OF r_tools(7)] by fastforce
next
  case (r_settle ef r)
  then show ?thesis using schedules_status [OF r_settle(3)] schedules_kinds [OF r_settle(3)] by fastforce
next
  case (r_confirm sr)
  then show ?thesis using valid_stateD(1) [OF assms(3)]
    by (auto simp: confirmed_state_def validate_shape_def split: if_splits option.splits)
next
  case (r_adopt_resume sr k)
  then show ?thesis using assms(2) by (auto simp: resumed_def dest: resume_command_kind)
qed (use assms(2) in \<open>auto simp: outcome_defs split: if_splits elim: observeProgress_frame\<close>)


subsection \<open>Unattributed workspace changes\<close>

text \<open>
  The runner reported a revision that no recorded effect explains. The run then waits in
  reconciliation, or at the adoption barrier on its way back there.
\<close>

definition unattributed :: "state \<Rightarrow> bool" where
  "unattributed s \<longleftrightarrow> st_Status s = StatusNeedsReconciliation \<and> \<not> unsettled (st_PendingEffect s)
     \<and> (st_Stage s = StageReconcile
        \<or> st_Stage s = StageAdoptWorkspace \<and> st_ResumeStage s = StageReconcile)"

lemma rule_unattributed:
  assumes "rule sha s e cs n" and "unattributed s" and "admission sha s e = None"
  shows "(if ev_Kind e = EventCancelRequested then st_Status n = StatusCancelRequested
          else unattributed n)"
    and "c \<in> set cs \<Longrightarrow> cm_Kind c \<in> {CommandAdoptWorkspace, CommandStopExecution}"
proof -
  have k: "allowedDuringReconciliation (ev_Kind e)"
    using assms(2,3) by (auto simp: admission_def unattributed_def split: if_splits)
  from assms(1) have "(if ev_Kind e = EventCancelRequested then st_Status n = StatusCancelRequested
          else unattributed n) \<and> (\<forall>c\<in>set cs. cm_Kind c \<in> {CommandAdoptWorkspace, CommandStopExecution})"
    by (cases rule: rule.cases)
      (use assms(2) k in \<open>auto simp: outcome_defs unattributed_def allowedDuringReconciliation_def settles_def unsettled_def\<close>)
  then show "if ev_Kind e = EventCancelRequested then st_Status n = StatusCancelRequested else unattributed n"
    and "c \<in> set cs \<Longrightarrow> cm_Kind c \<in> {CommandAdoptWorkspace, CommandStopExecution}" by auto
qed

lemma admission_facts:
  assumes "admission sha s e = None"
  shows "valid_state sha s" and "\<not> RunStatus_Terminal (st_Status s)" and "ev_ExpectedVersion e = st_Version s"
    and "st_Version s \<noteq> max_uint64" and "ev_At e \<noteq> 0" and "0 \<le> ev_Cost e"
    and "\<not> controlEvent (ev_Kind e) \<Longrightarrow> ev_Kind e \<noteq> EventClaimed \<Longrightarrow>
      ev_Owner e = ls_Owner (st_Lease s) \<and> ev_Epoch e = ls_Epoch (st_Lease s) \<and> Lease_ValidAt (st_Lease s) (ev_At e)"
  using assms by (auto simp: admission_def not_less split: if_splits)

end
