(* ===== verification/Runtime_Runs.thy ===== *)
theory Runtime_Runs
  imports Runtime_Steps
begin

section \<open>Invariants of whole runs\<close>

text \<open>
  A run is an execution of \<open>Transition\<close> from \<open>NewState\<close>: its history lists the accepted events
  with the commands each of them returned. Every invariant below relates the history to the
  snapshot, and is an interpretation of \<open>ghost_invariant\<close> on the reducer.
\<close>

abbreviation run :: "(bytes \<Rightarrow> string) \<Rightarrow> string \<Rightarrow> string \<Rightarrow> limits
    \<Rightarrow> (event, command list) history \<Rightarrow> state \<Rightarrow> bool" where
  "run sha tenant rid lim \<equiv> exec (accepted sha) (NewState tenant rid lim)"

text \<open>Driving the reducer with a list of events, all of which must be accepted.\<close>

fun drive :: "(bytes \<Rightarrow> string) \<Rightarrow> state \<Rightarrow> event list
    \<Rightarrow> ((event, command list) history \<times> state) option" where
  "drive sha s [] = Some ([], s)"
| "drive sha s (e # es) =
     (case Transition sha s e of
        (s', cs, None) \<Rightarrow> map_option (\<lambda>(tr, t). ((e, cs) # tr, t)) (drive sha s' es)
      | _ \<Rightarrow> None)"

lemma drive_exec: "drive sha s es = Some (tr, t) \<Longrightarrow> exec (accepted sha) s tr t"
proof (induction es arbitrary: s tr)
  case Nil
  then show ?case by (simp add: exec_init)
next
  case (Cons e es)
  from Cons.prems obtain s' cs tr' where one: "Transition sha s e = (s', cs, None)"
    and rest: "drive sha s' es = Some (tr', t)" and tr: "tr = (e, cs) # tr'"
    by (auto split: prod.splits option.splits)
  have "exec (accepted sha) s ([(e, cs)] @ tr') t"
    by (rule exec_append [OF Cons.IH [OF rest] exec_one [of "accepted sha"]])
      (simp add: accepted_def one)
  then show ?case by (simp add: tr)
qed

subsection \<open>Projections of the history\<close>

definition dispatches :: "(event, command list) history \<Rightarrow> effect list" where
  "dispatches tr = concat (map (executes \<circ> snd) tr)"

definition settlements :: "(event, command list) history \<Rightarrow> effect_receipt list" where
  "settlements tr = concat (map (receipts \<circ> fst) tr)"

definition claim_epochs :: "(event, command list) history \<Rightarrow> u64 list" where
  "claim_epochs tr = map (ev_Epoch \<circ> fst) (filter (\<lambda>(e, cs). ev_Kind e = EventClaimed) tr)"

definition charges :: "(event, command list) history \<Rightarrow> int" where
  "charges tr = sum_list (map (ev_Cost \<circ> fst) (filter (\<lambda>(e, cs). ev_Kind e = EventModelCompleted) tr))"

definition publishes :: "command list \<Rightarrow> bool" where
  "publishes cs \<longleftrightarrow> CommandPublishTerminal \<in> cm_Kind ` set cs"

lemma projections_snoc [simp]:
  "dispatches (tr @ [(e, cs)]) = dispatches tr @ executes cs"
  "settlements (tr @ [(e, cs)]) = settlements tr @ receipts e"
  "claim_epochs (tr @ [(e, cs)]) = claim_epochs tr @ (if ev_Kind e = EventClaimed then [ev_Epoch e] else [])"
  "charges (tr @ [(e, cs)]) = charges tr + (if ev_Kind e = EventModelCompleted then ev_Cost e else 0)"
  by (simp_all add: dispatches_def settlements_def claim_epochs_def charges_def)

lemma projections_Nil [simp]:
  "dispatches [] = []" "settlements [] = []" "claim_epochs [] = []" "charges [] = 0"
  by (simp_all add: dispatches_def settlements_def claim_epochs_def charges_def)

lemma bumped_frame [simp]:
  "st_PendingEffect (bumped n) = st_PendingEffect n" "st_Status (bumped n) = st_Status n"
  "st_Stage (bumped n) = st_Stage n" "st_Lease (bumped n) = st_Lease n"
  "st_ToolCalls (bumped n) = st_ToolCalls n" "st_ModelRounds (bumped n) = st_ModelRounds n"
  "st_StepSeq (bumped n) = st_StepSeq n" "st_Cost (bumped n) = st_Cost n"
  "st_Limits (bumped n) = st_Limits n" "st_Approval (bumped n) = st_Approval n"
  "st_Verification (bumped n) = st_Verification n" "st_StopTarget (bumped n) = st_StopTarget n"
  "st_VerificationReportRef (bumped n) = st_VerificationReportRef n"
  "st_VerificationRevision (bumped n) = st_VerificationRevision n"
  "st_WorkspaceRevision (bumped n) = st_WorkspaceRevision n"
  "st_RunID (bumped n) = st_RunID n" "st_TenantID (bumped n) = st_TenantID n"
  "st_SchemaVersion (bumped n) = st_SchemaVersion n" "st_ResumeStage (bumped n) = st_ResumeStage n"
  "outstanding (bumped n) = outstanding n" "granted_for (bumped n) = granted_for n"
  "grant_open (bumped n) = grant_open n" "evidence_for (bumped n) = evidence_for n"
  "unattributed (bumped n) = unattributed n"
  by (simp_all add: bumped_def outstanding_def granted_for_def grant_open_def evidence_for_def
      unattributed_def fun_eq_iff split: option.split)

lemma noop_projections:
  assumes "ev_Kind e = EventCancelRequested"
  shows "receipts e = []" "ev_Kind e \<noteq> EventClaimed" "ev_Kind e \<noteq> EventModelCompleted"
    "\<not> approves e" "\<not> model_call e cs" "\<not> evidence_for s e"
  using assms by (auto simp: receipts_def approves_def model_call_def evidence_for_def)

subsection \<open>The contract of a run invariant\<close>

text \<open>
  What an invariant of runs has to promise of the reducer: it ignores the repeated
  cancellation that \<open>Transition\<close> answers without a new version, and every other accepted
  event keeps it. Both give a \<open>ghost_invariant\<close> of \<open>Transition\<close>.
\<close>

locale reducer_invariant =
  fixes sha :: "bytes \<Rightarrow> string"
    and known :: "(event, command list) history \<Rightarrow> state \<Rightarrow> bool"
    and I :: "(event, command list) history \<Rightarrow> state \<Rightarrow> bool"
    and s0 :: state
  assumes known_run: "exec (accepted sha) s0 tr s \<Longrightarrow> known tr s"
    and start: "I [] s0"
    and ignores_noop: "I tr s \<Longrightarrow> ev_Kind e = EventCancelRequested \<Longrightarrow>
          st_Status s = StatusCancelRequested \<Longrightarrow> I (tr @ [(e, [])]) s"
    and kept_by_rule: "known tr s \<Longrightarrow> I tr s \<Longrightarrow> admission sha s e = None \<Longrightarrow>
          \<not> repeated_cancel s e \<Longrightarrow> rule sha s e cs n \<Longrightarrow> valid_state sha (bumped n) \<Longrightarrow>
          I (tr @ [(e, cs)]) (bumped n)"

sublocale reducer_invariant \<subseteq> ghost_invariant "accepted sha" known I s0
proof
  show "exec (accepted sha) s0 tr s \<Longrightarrow> known tr s" for tr s by (rule known_run)
  show "I [] s0" by (rule start)
  show "I (tr @ [(e, cs)]) s'" if "known tr s" "I tr s" "accepted sha s e cs s'" for tr s e cs s'
    using that(3) by (cases rule: acceptedE) (use that ignores_noop kept_by_rule in auto)
qed

subsection \<open>The effect ledger\<close>

text \<open>Everything dispatched has been settled in the same order, but for the outstanding effect.\<close>

definition ledger_inv :: "(event, command list) history \<Rightarrow> state \<Rightarrow> bool" where
  "ledger_inv tr s \<longleftrightarrow>
     map effect_key (dispatches tr) = map receipt_key (settlements tr) @ map effect_key (outstanding s)"

interpretation ledger: reducer_invariant sha "\<lambda>_ _. True" ledger_inv "NewState tenant rid lim"
  for sha tenant rid lim
  by unfold_locales
    (use rule_outstanding [OF _ admission_facts(1)] in
      \<open>simp_all add: ledger_inv_def NewState_def outstanding_def noop_projections\<close>)

subsection \<open>Lease epochs\<close>

definition epoch_inv :: "(event, command list) history \<Rightarrow> state \<Rightarrow> bool" where
  "epoch_inv tr s \<longleftrightarrow> sorted_wrt (<) (0 # claim_epochs tr)
     \<and> ls_Epoch (st_Lease s) = last (0 # claim_epochs tr)"

lemma sorted_wrt_snoc:
  fixes x :: "'a::linorder"
  shows "sorted_wrt (<) (xs @ [x]) \<longleftrightarrow> sorted_wrt (<) xs \<and> (xs = [] \<or> last xs < x)"
proof (cases xs rule: rev_cases)
  case (snoc ys y)
  then show ?thesis by (auto simp: sorted_wrt_append)
qed simp

interpretation epoch: reducer_invariant sha "\<lambda>_ _. True" epoch_inv "NewState tenant rid lim"
  for sha tenant rid lim
proof unfold_locales
  show "epoch_inv (tr @ [(e, cs)]) (bumped n)"
    if "epoch_inv tr s" "rule sha s e cs n" for tr s e cs n
  proof -
    have "sorted_wrt (<) ((0 # claim_epochs tr) @ [ev_Epoch e])" if "ev_Kind e = EventClaimed"
      using rule_epoch [OF \<open>rule sha s e cs n\<close>] \<open>epoch_inv tr s\<close> that
      unfolding sorted_wrt_snoc epoch_inv_def by (auto split: if_splits)
    then show ?thesis
      using rule_epoch [OF that(2)] that(1) by (auto simp: epoch_inv_def split: if_splits)
  qed
qed (simp_all add: epoch_inv_def NewState_def zero_lease_def noop_projections)

subsection \<open>Counters, budgets and cost\<close>

definition budget_inv :: "(event, command list) history \<Rightarrow> state \<Rightarrow> bool" where
  "budget_inv tr s \<longleftrightarrow>
     unat (st_ToolCalls s) = length (dispatches tr)
     \<and> within (st_ToolCalls s) (lm_MaxToolCalls (st_Limits s))
     \<and> unat (st_ModelRounds s) = count_history (\<lambda>(e, cs). model_call e cs) tr
     \<and> within (st_ModelRounds s) (lm_MaxModelRounds (st_Limits s))
     \<and> st_StepSeq s = st_ModelRounds s"

interpretation budget: reducer_invariant sha "\<lambda>_ _. True" budget_inv "NewState tenant rid lim"
  for sha tenant rid lim
proof unfold_locales
  show "budget_inv (tr @ [(e, cs)]) (bumped n)"
    if "budget_inv tr s" "rule sha s e cs n" for tr s e cs n
    using that(1) rule_frame [OF that(2)] rule_ToolCalls [OF that(2)] rule_ModelRounds [OF that(2)]
      budgetReachedD(4) [of s e False True] budgetReachedD(3) [of s e True False]
      unat_Suc_word [of "st_ToolCalls s"] unat_Suc_word [of "st_ModelRounds s"]
    by (auto simp: budget_inv_def split: if_splits)
qed (simp_all add: budget_inv_def NewState_def within_def noop_projections)

text \<open>Costs are \<open>int64\<close> values in the source; the accumulated sum never wraps.\<close>

definition cost_inv :: "(event, command list) history \<Rightarrow> state \<Rightarrow> bool" where
  "cost_inv tr s \<longleftrightarrow> (\<forall>x\<in>set tr. in_int64 (ev_Cost (fst x))) \<longrightarrow>
     st_Cost s = charges tr \<and> 0 \<le> charges tr \<and> charges tr \<le> max_int64"

interpretation cost: reducer_invariant sha "\<lambda>_ _. True" cost_inv "NewState tenant rid lim"
  for sha tenant rid lim
proof unfold_locales
  show "cost_inv (tr @ [(e, cs)]) (bumped n)"
    if "cost_inv tr s" "rule sha s e cs n" for tr s e cs n
    using that(1) rule_Cost [OF that(2)] Money_Add_Inr [of "st_Cost s" "ev_Cost e" "st_Cost n"]
    by (auto simp: cost_inv_def int64_defs split: if_splits)
qed (auto simp: cost_inv_def NewState_def max_int64_def noop_projections)

subsection \<open>Approvals\<close>

text \<open>A granted binding in the snapshot comes from an approving decision for that effect.\<close>

definition approval_inv :: "(event, command list) history \<Rightarrow> state \<Rightarrow> bool" where
  "approval_inv tr s \<longleftrightarrow>
     (\<forall>ef. granted_for s ef \<longrightarrow> (\<exists>x\<in>set tr. approves_effect (fst x) ef))
     \<and> length (filter ef_RequiresApproval (dispatches tr)) + of_bool (grant_open s)
         \<le> count_history (\<lambda>(e, cs). approves e) tr"

interpretation approval: reducer_invariant sha "\<lambda>_ _. True" approval_inv "NewState tenant rid lim"
  for sha tenant rid lim
proof unfold_locales
  show "approval_inv (tr @ [(e, cs)]) (bumped n)"
    if "approval_inv tr s" "rule sha s e cs n" for tr s e cs n
    using that(1) rule_granted [OF that(2)] rule_grant_open [OF that(2)]
    by (fastforce simp: approval_inv_def approved_executes_def split: if_splits)
qed (auto simp: approval_inv_def NewState_def granted_for_def grant_open_def noop_projections)

subsection \<open>Verification\<close>

definition evidence_inv :: "(event, command list) history \<Rightarrow> state \<Rightarrow> bool" where
  "evidence_inv tr s \<longleftrightarrow> st_Verification s \<noteq> VerificationUnverified \<longrightarrow>
     (\<exists>x\<in>set tr. evidence_for s (fst x))"

interpretation evidence: reducer_invariant sha "\<lambda>_ _. True" evidence_inv "NewState tenant rid lim"
  for sha tenant rid lim
proof unfold_locales
  show "evidence_inv (tr @ [(e, cs)]) (bumped n)"
    if "evidence_inv tr s" "rule sha s e cs n" for tr s e cs n
    using that(1) rule_evidence [OF that(2)] by (fastforce simp: evidence_inv_def)
qed (auto simp: evidence_inv_def NewState_def)

text \<open>A completed run rests on evidence for the revision it ends with.\<close>

definition completed_inv :: "(event, command list) history \<Rightarrow> state \<Rightarrow> bool" where
  "completed_inv tr s \<longleftrightarrow> st_Status s = StatusCompleted \<longrightarrow>
     st_Verification s \<noteq> VerificationUnverified \<and> st_VerificationRevision s = st_WorkspaceRevision s"

interpretation completed: reducer_invariant sha "\<lambda>_ _. True" completed_inv "NewState tenant rid lim"
  for sha tenant rid lim
proof unfold_locales
  show "completed_inv (tr @ [(e, cs)]) (bumped n)"
    if "admission sha s e = None" "rule sha s e cs n" for tr s e cs n
    using rule_completed [OF that(2) _ admission_facts(2,1) [OF that(1)]]
    by (simp add: completed_inv_def)
qed (auto simp: completed_inv_def NewState_def)

subsection \<open>The end of a run\<close>

definition publish_inv :: "(event, command list) history \<Rightarrow> state \<Rightarrow> bool" where
  "publish_inv tr s \<longleftrightarrow>
     count_history (\<lambda>(e, cs). publishes cs) tr = of_bool (RunStatus_Terminal (st_Status s))"

interpretation publish: reducer_invariant sha "\<lambda>_ _. True" publish_inv "NewState tenant rid lim"
  for sha tenant rid lim
proof unfold_locales
  show "publish_inv (tr @ [(e, cs)]) (bumped n)"
    if "publish_inv tr s" "admission sha s e = None" "rule sha s e cs n" for tr s e cs n
    using that(1) rule_publish [OF that(3) admission_facts(2,1) [OF that(2)]] admission_facts(2) [OF that(2)]
    by (simp add: publish_inv_def publishes_def)
qed (auto simp: publish_inv_def NewState_def publishes_def)

lemma accepted_valid: "accepted sha s e cs s' \<Longrightarrow> valid_state sha s'"
  by (erule acceptedE) (auto dest: admission_facts(1))

subsection \<open>Unattributed workspace changes\<close>

definition unattributed_inv :: "state \<Rightarrow> (event, command list) history \<Rightarrow> state \<Rightarrow> bool" where
  "unattributed_inv s0 tr s \<longleftrightarrow>
     unattributed s0 \<and> (\<forall>x\<in>set tr. ev_Kind (fst x) \<noteq> EventCancelRequested) \<longrightarrow>
     unattributed s
     \<and> (\<forall>x\<in>set tr. \<forall>c\<in>set (snd x). cm_Kind c \<in> {CommandAdoptWorkspace, CommandStopExecution})"

interpretation unattr: reducer_invariant sha "\<lambda>_ _. True" "unattributed_inv s0" s0
  for sha s0
proof unfold_locales
  show "unattributed_inv s0 (tr @ [(e, cs)]) (bumped n)"
    if "unattributed_inv s0 tr s" "admission sha s e = None" "rule sha s e cs n" for tr s e cs n
    using that(1) rule_unattributed [OF that(3) _ that(2)]
    by (auto simp: unattributed_inv_def split: if_splits)
qed (auto simp: unattributed_inv_def)

end
