(* ===== verification/Runtime_Liveness.thy ===== *)
theory Runtime_Liveness
  imports Runtime_Runs
begin

section \<open>Snapshots stay valid while a run stops, and every run can be stopped\<close>

text \<open>
  \<open>Transition\<close> validates its result before returning it, so an event whose outcome were invalid
  would be refused for ever. This theory shows that the events that stop a run are never lost
  that way: from every valid unfinished snapshot of a run at most four events, a cancellation,
  a claim by a new worker, the reconciliation of the dispatched effect and the confirmation,
  lead to the recorded stop target.
\<close>

subsection \<open>Validity of the stopping states\<close>

lemma inc_nonzero: "x \<noteq> max_uint64 \<Longrightarrow> x + 1 \<noteq> (0 :: u64)"
  by (auto simp: max_uint64_def eq_neg_iff_add_eq_0)

lemma validate_pending_upd:
  assumes v: "validate_pending sha s = None" and p: "st_PendingEffect n = st_PendingEffect s"
    and r: "set (st_RemainingEffects n) \<subseteq> set (st_RemainingEffects s)"
    and u: "st_Status n = StatusCancelRequested \<or> \<not> unsettled (st_PendingEffect s)"
  shows "validate_pending sha n = None"
proof (cases "st_PendingEffect s")
  case None
  then show ?thesis using p by (simp add: validate_pending_def)
next
  case (Some ef)
  have "ef_ID ef \<notin> ef_ID ` set (st_RemainingEffects n)"
    using validate_pendingD(2) [OF v Some] r by blast
  then show ?thesis
    using v u Some p by (cases "ef_Status ef")
      (auto simp: validate_pending_def unsettled_def split: option.splits if_splits)
qed

lemma validateProgressState_cong:
  "st_Limits n = st_Limits s \<Longrightarrow> st_SchemaVersion n = st_SchemaVersion s \<Longrightarrow> st_Progress n = st_Progress s
   \<Longrightarrow> st_StepSeq n = st_StepSeq s \<Longrightarrow> validateProgressState n = validateProgressState s"
  by (simp add: validateProgressState_def split: option.split)

text \<open>A chain of guards that return an error succeeds when no guard fires.\<close>

lemma guard_iffs:
  "(if b then Some x else y) = None \<longleftrightarrow> \<not> b \<and> y = None"
  "(case o' of None \<Rightarrow> y | Some er \<Rightarrow> Some er) = None \<longleftrightarrow> o' = None \<and> y = None"
  "(if o' \<noteq> None then o' else y) = None \<longleftrightarrow> o' = None \<and> y = None"
  by (auto split: option.splits)

lemma validate_shape_iff:
  "validate_shape s = None \<longleftrightarrow>
     (st_SchemaVersion s = 1 \<or> st_SchemaVersion s = SnapshotSchemaVersion) \<and> st_Version s \<noteq> 0
     \<and> RunStatus_Valid (st_Status s) \<and> Stage_Valid (st_Stage s) \<and> 0 \<le> st_Cost s
     \<and> 0 \<le> lm_MaxCost (st_Limits s) \<and> validateProgressState s = None
     \<and> valid_id (st_RunID s) \<and> valid_id (st_TenantID s)
     \<and> (RunStatus_Terminal (st_Status s) \<longleftrightarrow> st_Stage s = StageStopped)
     \<and> (RunStatus_Terminal (st_Status s) \<longrightarrow> \<not> unsettled (st_PendingEffect s))
     \<and> (if st_Status s = StatusCancelRequested
        then st_StopTarget s \<in> {StatusCancelled, StatusFailed, StatusBudgetExhausted}
        else st_StopTarget s = no_status
             \<or> RunStatus_Terminal (st_Status s) \<and> st_StopTarget s = st_Status s)
     \<and> (st_Status s = StatusRunning \<longrightarrow> ls_Owner (st_Lease s) \<noteq> [] \<and> ls_Epoch (st_Lease s) \<noteq> 0)
     \<and> (st_Status s = StatusQueued \<longrightarrow>
          ls_Owner (st_Lease s) = [] \<and> \<not> unsettled (st_PendingEffect s))
     \<and> (st_Status s = StatusNeedsReconciliation \<longrightarrow>
          st_Stage s = StageReconcile \<or> st_Stage s = StageAdoptWorkspace)
     \<and> (st_Status s = StatusWaitingApproval \<longrightarrow> \<not> waiting_inconsistent s)
     \<and> length (st_RemainingEffects s) \<le> 128"
  unfolding validate_shape_def guard_iffs not_less de_Morgan_conj de_Morgan_disj not_not
    if_distrib [of Not] insert_iff empty_iff
  by (cases "st_Status s = StatusCancelRequested"; cases "RunStatus_Terminal (st_Status s)") (auto split: if_splits)

lemma validate_evidence_upd:
  assumes "validate_evidence s = None" and "st_Status n \<noteq> StatusRunning"
    and "st_Approval n = None \<or> (st_Approval n = st_Approval s \<and> st_PendingEffect n = st_PendingEffect s
       \<and> st_WorkspaceRevision n = st_WorkspaceRevision s)"
    and "st_Verification n = VerificationUnverified \<or> (st_Verification n = st_Verification s
       \<and> st_VerificationReportRef n = st_VerificationReportRef s
       \<and> st_VerificationRevision n = st_VerificationRevision s \<and> st_WorkspaceRevision n = st_WorkspaceRevision s)"
  shows "validate_evidence n = None"
proof -
  have "\<not> approval_unbound n"
    using assms(1,3) by (auto simp: validate_evidence_def approval_unbound_def split: if_splits option.splits)
  then show ?thesis using assms(1,2,4) by (auto simp: validate_evidence_def split: if_splits)
qed

lemma valid_stopped:
  assumes v: "valid_state sha s" and "\<not> RunStatus_Terminal (st_Status s)" and "st_Version s \<noteq> max_uint64"
    and "target \<in> {StatusCancelled, StatusFailed, StatusBudgetExhausted}"
  shows "valid_state sha (bumped (stopped s target reason))"
proof -
  let ?n = "bumped (stopped s target reason)"
  have "validate_shape ?n = None"
    using valid_stateD(1) [OF v] assms(2-4) inc_nonzero [of "st_Version s"]
     validateProgressState_cong [of ?n s]
    by (auto simp: validate_shape_iff stopped_def bumped_def)
  moreover have "validate_pending sha ?n = None"
    by (rule validate_pending_upd [OF valid_stateD(3) [OF v]]) (simp_all add: stopped_def bumped_def)
  moreover have "validate_evidence ?n = None"
    by (rule validate_evidence_upd [OF valid_stateD(4) [OF v]]) (simp_all add: stopped_def bumped_def)
  ultimately show ?thesis using valid_stateD(2) [OF v]
    by (simp add: validateState_def stopped_def bumped_def)
qed


lemma valid_leased:
  assumes v: "valid_state sha s" and "st_Status s = StatusCancelRequested" and "st_Version s \<noteq> max_uint64"
  shows "valid_state sha (bumped (s\<lparr>st_Lease := l\<rparr>))"
proof -
  let ?n = "bumped (s\<lparr>st_Lease := l\<rparr>)"
  have "validate_shape ?n = None"
    using valid_stateD(1) [OF v] assms(2-3) inc_nonzero [of "st_Version s"]
     validateProgressState_cong [of ?n s]
    by (auto simp: validate_shape_iff bumped_def)
  moreover have "validate_pending sha ?n = None"
    by (rule validate_pending_upd [OF valid_stateD(3) [OF v]]) (simp_all add: bumped_def assms(2))
  moreover have "validate_evidence ?n = None"
    by (rule validate_evidence_upd [OF valid_stateD(4) [OF v]]) (simp_all add: bumped_def assms(2))
  ultimately show ?thesis using valid_stateD(2) [OF v]
    by (simp add: validateState_def bumped_def)
qed

lemma valid_settled:
  assumes v: "valid_state sha s" and q: "st_Status s = StatusCancelRequested" and "st_Version s \<noteq> max_uint64"
    and st: "settles s e ef r"
  shows "valid_state sha (bumped (settled_state s ef r))"
proof -
  let ?n = "bumped (settled_state s ef r)"
  have ef: "st_PendingEffect s = Some ef" and u: "unsettled (Some ef)" and o: "settled_outcome (rc_Status r)"
    and rr: "rc_Ref r \<noteq> []"
    using st by (auto simp: settles_def receipt_binds_def)
  note pd = validate_pendingD [OF valid_stateD(3) [OF v] ef]
  have "validate_shape ?n = None"
    using valid_stateD(1) [OF v] assms(2-3) inc_nonzero [of "st_Version s"]
     validateProgressState_cong [of ?n s]
    by (auto simp: validate_shape_iff settled_state_def bumped_def)
  moreover have "validate_pending sha ?n = None"
    using pd(1-3) pd(4) [OF u] o rr
    by (auto simp: validate_pending_def settled_state_def bumped_def settled_outcome_def)
  moreover have "validate_evidence ?n = None"
    using q by (simp add: validate_evidence_def approval_unbound_def settled_state_def bumped_def)
  ultimately show ?thesis using valid_stateD(2) [OF v]
    by (simp add: validateState_def settled_state_def bumped_def)
qed

lemma valid_confirmed:
  assumes v: "valid_state sha s" and q: "st_Status s = StatusCancelRequested" and "st_Version s \<noteq> max_uint64"
    and u: "\<not> unsettled (st_PendingEffect s)"
  shows "valid_state sha (bumped (confirmed_state s sr))"
proof -
  let ?n = "bumped (confirmed_state s sr)"
  have t: "st_StopTarget s \<in> {StatusCancelled, StatusFailed, StatusBudgetExhausted}"
    using valid_stateD(1) [OF v] q by (simp add: validate_shape_iff)
  have "validate_shape ?n = None"
    using valid_stateD(1) [OF v] assms(2-4) t inc_nonzero [of "st_Version s"]
     validateProgressState_cong [of ?n s]
    by (auto simp: validate_shape_iff confirmed_state_def bumped_def)
  moreover have "validate_pending sha ?n = None"
    by (rule validate_pending_upd [OF valid_stateD(3) [OF v]]) (simp_all add: bumped_def confirmed_state_def u)
  moreover have "validate_evidence ?n = None"
    by (rule validate_evidence_upd [OF valid_stateD(4) [OF v]])
      (use t in \<open>auto simp: bumped_def confirmed_state_def\<close>)
  ultimately show ?thesis
    by (simp add: validateState_def bumped_def confirmed_state_def)
qed


subsection \<open>Revisions of the pending effect\<close>

text \<open>
  The pending effect of a run that is not over was planned at the current workspace revision,
  and a reconciliation revision is recorded only for an unsettled effect and never behind it.
\<close>

fun revisions_ok :: "effect option \<Rightarrow> bool \<Rightarrow> u64 \<Rightarrow> u64 \<Rightarrow> bool" where
  "revisions_ok None over workspace recon \<longleftrightarrow> recon = 0"
| "revisions_ok (Some ef) over workspace recon \<longleftrightarrow>
     (unsettled (Some ef) \<or> ef_Status ef = EffectPlanned \<and> \<not> over
        \<longrightarrow> ef_ExpectedRevision ef = workspace)
     \<and> (\<not> unsettled (Some ef) \<longrightarrow> recon = 0)
     \<and> (recon \<noteq> 0 \<longrightarrow> workspace \<le> recon)"

lemma revisions_ok_over: "revisions_ok p over w r \<Longrightarrow> revisions_ok p True w r"
  by (cases p) auto

lemma revisions_ok_settled: "revisions_ok p over w r \<Longrightarrow> \<not> unsettled p \<Longrightarrow> r = 0"
  by (cases p) auto

abbreviation revisions_of :: "state \<Rightarrow> bool" where
  "revisions_of s \<equiv> revisions_ok (st_PendingEffect s) (RunStatus_Terminal (st_Status s))
     (st_WorkspaceRevision s) (st_ReconciliationRevision s)"

definition pending_inv :: "(event, command list) history \<Rightarrow> state \<Rightarrow> bool" where
  "pending_inv tr s \<longleftrightarrow> revisions_of s
     \<and> (st_Stage s = StageInitialize \<longrightarrow> st_PendingEffect s = None \<and> st_WorkspaceRevision s = 0)
     \<and> st_ResumeStage s \<noteq> StageInitialize"

lemma schedules_pending:
  assumes "schedules e s cs n" and "st_ReconciliationRevision s = 0"
    and "pending_inv tr s" and "st_Stage s \<noteq> StageInitialize" and "st_Status s = StatusRunning"
  shows "pending_inv (tr @ [x]) n"
  using assms by (cases rule: schedules.cases) (auto simp: pending_inv_def outcome_defs unsettled_def)

lemma rule_pending:
  assumes "rule sha s e cs n" and "pending_inv tr s" and "valid_state sha s" and "\<not> RunStatus_Terminal (st_Status s)"
  shows "pending_inv (tr @ [x]) n"
  using assms(1)
proof (cases rule: rule.cases)
  case r_tools
  have "\<not> unsettled (st_PendingEffect s)"
    using valid_unsettled_stage [OF assms(3)] r_tools(1) by auto
  then have "st_ReconciliationRevision s = 0"
    using assms(2) revisions_ok_settled by (auto simp: pending_inv_def)
  then show ?thesis
    using assms(2) r_tools(1) by (intro schedules_pending [OF r_tools(7)]) (auto simp: pending_inv_def)
next
  case (r_settle ef r)
  then have "st_Stage s \<noteq> StageInitialize" using assms(2) by (auto simp: settles_def)
  then show ?thesis using assms(2)
    by (intro schedules_pending [OF r_settle(3)])
      (auto simp: pending_inv_def continued_def settled_state_def)
next
  case (r_settle_stop ef r)
  then show ?thesis using assms(2) 
    by (auto simp: pending_inv_def settled_state_def settled_not_unsettled settles_def settled_outcome_def)
next
  case (r_confirm sr)
  then have "RunStatus_Terminal (st_StopTarget s)"
    using valid_stateD(1) [OF assms(3)] by (auto simp: validate_shape_iff)
  then show ?thesis using assms(2) r_confirm
    by (cases "st_PendingEffect s") (auto simp: pending_inv_def confirmed_state_def)
next
  case (r_adopt_unsettled sr)
  then show ?thesis using assms(2,4)
    by (cases "st_PendingEffect s") (auto simp: pending_inv_def stop_evidence_def unsettled_def)
qed (use assms(2,4) in \<open>auto simp: pending_inv_def outcome_defs unsettled_def
      elim: observeProgress_frame intro: revisions_ok_over\<close>)

interpretation pending: reducer_invariant sha "\<lambda>_ _. True" pending_inv "NewState tenant rid lim"
  for sha tenant rid lim
proof unfold_locales
  show "pending_inv (tr @ [(e, cs)]) (bumped n)"
    if "pending_inv tr s" "admission sha s e = None" "rule sha s e cs n" for tr s e cs n
    using rule_pending [OF that(3,1) admission_facts(1,2) [OF that(2)], of "(e, cs)"]
    by (simp add: pending_inv_def bumped_def)
qed (simp_all add: pending_inv_def NewState_def)

subsection \<open>Every run can be stopped\<close>

text \<open>The events of a worker that takes over a stopping run and drives it to its end.\<close>

definition blank_event :: "event_kind \<Rightarrow> state \<Rightarrow> gotime \<Rightarrow> event" where
  "blank_event k s at = \<lparr>ev_Progress = None, ev_ProgressRef = [], ev_Kind = k,
     ev_ExpectedVersion = st_Version s, ev_Owner = ls_Owner (st_Lease s),
     ev_Epoch = ls_Epoch (st_Lease s), ev_At = at, ev_NotBefore = None, ev_Lease = None,
     ev_WorkspaceRevision = 0, ev_OutputRef = [], ev_Complete = False, ev_Finish = False,
     ev_Effects = [], ev_Receipt = None, ev_Approval = None, ev_Verification = None,
     ev_Stop = None, ev_Cost = 0, ev_Reason = []\<rparr>"

definition takeover :: "state \<Rightarrow> gotime \<Rightarrow> event" where
  "takeover s at =
     (let l = \<lparr>ls_Owner = ''worker'', ls_Epoch = ls_Epoch (st_Lease s) + 1, ls_Until = at + 1\<rparr> in
      (blank_event EventClaimed s at)
        \<lparr>ev_Lease := Some l, ev_Owner := ls_Owner l, ev_Epoch := ls_Epoch l\<rparr>)"

definition cancelled_receipt :: "state \<Rightarrow> effect \<Rightarrow> effect_receipt" where
  "cancelled_receipt s ef =
     \<lparr>rc_EffectID = ef_ID ef, rc_ArgsHash = ef_ArgsHash ef, rc_Epoch = ef_DispatchEpoch ef,
      rc_Status = EffectCancelled, rc_BeforeRevision = ef_ExpectedRevision ef,
      rc_AfterRevision = (if st_ReconciliationRevision s \<noteq> 0 then st_ReconciliationRevision s
                          else ef_ExpectedRevision ef),
      rc_Ref = ''receipt'', rc_Settled = True\<rparr>"

definition reconciliation :: "state \<Rightarrow> effect \<Rightarrow> gotime \<Rightarrow> event" where
  "reconciliation s ef at =
     (blank_event EventReconciled s at)\<lparr>ev_Receipt := Some (cancelled_receipt s ef)\<rparr>"

definition confirmation :: "state \<Rightarrow> gotime \<Rightarrow> event" where
  "confirmation s at = (blank_event EventCancellationConfirmed s at)\<lparr>ev_Stop := Some
     \<lparr>sr_Ref = ''stopped'', sr_NoActiveOperations = True,
      sr_WorkspaceRevision = st_WorkspaceRevision s\<rparr>\<rparr>"

lemma blank_event_sel [simp]:
  "ev_Kind (blank_event k s at) = k" "ev_ExpectedVersion (blank_event k s at) = st_Version s"
  "ev_Owner (blank_event k s at) = ls_Owner (st_Lease s)"
  "ev_Epoch (blank_event k s at) = ls_Epoch (st_Lease s)" "ev_At (blank_event k s at) = at"
  "ev_Cost (blank_event k s at) = 0"
  by (simp_all add: blank_event_def)

lemma worker_not_blank: "\<not> blank ''worker''"
  by (simp add: blank_def ascii_space_def wide_space2_def wide_space3_def)

lemma admission_stopping:
  assumes "valid_state sha s" and "st_Status s = StatusCancelRequested" and "st_Version s \<noteq> max_uint64"
    and "allowedDuringStop (ev_Kind e)" and "ev_ExpectedVersion e = st_Version s" and "ev_At e \<noteq> 0" and "0 \<le> ev_Cost e"
    and "ev_Kind e \<noteq> EventClaimed \<Longrightarrow> ev_Owner e = ls_Owner (st_Lease s) \<and> ev_Epoch e = ls_Epoch (st_Lease s)
        \<and> Lease_ValidAt (st_Lease s) (ev_At e)"
  shows "admission sha s e = None"
  using assms by (auto simp: admission_def)

lemma accepted_ruleI:
  "admission sha s e = None \<Longrightarrow> \<not> repeated_cancel s e \<Longrightarrow> rule sha s e cs n \<Longrightarrow> valid_state sha (bumped n)
    \<Longrightarrow> accepted sha s e cs (bumped n)"
  by (auto simp: accepted_iff)

lemma stop_accepted:
  assumes "valid_state sha s" and "\<not> RunStatus_Terminal (st_Status s)" and "st_Status s \<noteq> StatusCancelRequested"
    and "st_Version s \<noteq> max_uint64" and "at \<noteq> 0"
  shows "accepted sha s (blank_event EventCancelRequested s at) (command_of CommandStopExecution)
     (bumped (stopped s StatusCancelled ''cancellation requested''))"
  using assms
  by (intro accepted_ruleI rule.r_cancel valid_stopped)
    (auto simp: admission_def controlEvent_def allowedDuringReconciliation_def)

lemma takeover_accepted:
  assumes "valid_state sha s" and "st_Status s = StatusCancelRequested" and "st_Version s \<noteq> max_uint64"
    and "ls_Epoch (st_Lease s) \<noteq> max_uint64" and "0 < at" and "ls_Until (st_Lease s) \<le> at"
  shows "accepted sha s (takeover s at) (command_of CommandStopExecution)
     (bumped (s\<lparr>st_Lease := \<lparr>ls_Owner = ''worker'', ls_Epoch = ls_Epoch (st_Lease s) + 1, ls_Until = at + 1\<rparr>\<rparr>))"
  using assms less_inc_word [OF assms(4)] inc_nonzero [OF assms(4)]
  by (intro accepted_ruleI admission_stopping rule.r_claim_stop valid_leased)
    (auto simp: takeover_def Let_def allowedDuringStop_def claimable_def Lease_ValidAt_def
      worker_not_blank word_neq_0_conv blank_event_def)

lemma reconciliation_settles:
  assumes "pending_inv tr s" and "st_PendingEffect s = Some ef" and "unsettled (Some ef)"
    and "st_Status s = StatusCancelRequested"
  shows "settles s (reconciliation s ef at) ef (cancelled_receipt s ef)"
  using assms
  by (auto simp: reconciliation_def settles_def receipt_binds_def settled_outcome_def
      cancelled_receipt_def blank_event_def pending_inv_def)

lemma reconciliation_accepted:
  assumes "valid_state sha s" and "st_Status s = StatusCancelRequested" and "st_Version s \<noteq> max_uint64"
    and "Lease_ValidAt (st_Lease s) at" and "settles s (reconciliation s ef at) ef (cancelled_receipt s ef)"
  shows "accepted sha s (reconciliation s ef at) (command_of CommandStopExecution)
     (bumped (settled_state s ef (cancelled_receipt s ef)))"
  using assms
  by (intro accepted_ruleI admission_stopping rule.r_settle_stop valid_settled)
    (auto simp: reconciliation_def allowedDuringStop_def Lease_ValidAt_def)

lemma confirmation_accepted:
  assumes "valid_state sha s" and "st_Status s = StatusCancelRequested" and "st_Version s \<noteq> max_uint64"
    and "Lease_ValidAt (st_Lease s) at" and "\<not> unsettled (st_PendingEffect s)"
  shows "\<exists>n. accepted sha s (confirmation s at) (command_of CommandPublishTerminal) n
     \<and> st_Status n = st_StopTarget s"
proof -
  let ?sr = "\<lparr>sr_Ref = ''stopped'', sr_NoActiveOperations = True,
      sr_WorkspaceRevision = st_WorkspaceRevision s\<rparr>"
  have "st_StopTarget s \<noteq> no_status"
    using valid_stateD(1) [OF assms(1)] assms(2) by (auto simp: validate_shape_iff)
  then have "accepted sha s (confirmation s at) (command_of CommandPublishTerminal)
     (bumped (confirmed_state s ?sr))"
    using assms
    by (intro accepted_ruleI admission_stopping rule.r_confirm valid_confirmed)
      (auto simp: confirmation_def allowedDuringStop_def Lease_ValidAt_def stop_evidence_def)
  then show ?thesis by (auto simp: confirmed_state_def intro!: exI)
qed

text \<open>With a valid lease, at most two more events end a stopping run.\<close>

lemma stopping_ends:
  assumes "valid_state sha s" and "st_Status s = StatusCancelRequested"
    and "unat (st_Version s) + 2 < 2 ^ 64"
    and "Lease_ValidAt (st_Lease s) at" and "pending_inv tr s"
  shows "\<exists>tr' s'. exec (accepted sha) s tr' s' \<and> length tr' \<le> 2 \<and> st_Status s' = st_StopTarget s"
proof (cases "unsettled (st_PendingEffect s)")
  case False
  have "st_Version s \<noteq> max_uint64" using assms(3) by (auto simp: unat_max_uint64)
  from confirmation_accepted [OF assms(1,2) this assms(4) False] obtain n
    where "accepted sha s (confirmation s at) (command_of CommandPublishTerminal) n"
      "st_Status n = st_StopTarget s" by blast
  then show ?thesis
    by (intro exI [of _ "[(confirmation s at, command_of CommandPublishTerminal)]"] exI [of _ n])
      (simp add: exec_one)
next
  case True
  then obtain ef where ef: "st_PendingEffect s = Some ef" "unsettled (Some ef)"
    by (cases "st_PendingEffect s") (auto simp: unsettled_def)
  have v: "st_Version s \<noteq> max_uint64" using assms(3) by (auto simp: unat_max_uint64)
  note st = reconciliation_settles [OF assms(5) ef assms(2), of at]
  let ?m = "bumped (settled_state s ef (cancelled_receipt s ef))"
  have step1: "accepted sha s (reconciliation s ef at) (command_of CommandStopExecution) ?m"
    by (rule reconciliation_accepted [OF assms(1,2) v assms(4) st])
  have "valid_state sha ?m" by (rule valid_settled [OF assms(1,2) v st])
  moreover have "st_Status ?m = StatusCancelRequested" "st_StopTarget ?m = st_StopTarget s"
    "st_Lease ?m = st_Lease s" "\<not> unsettled (st_PendingEffect ?m)"
    using assms(2) by (simp_all add: settled_state_def bumped_def cancelled_receipt_def unsettled_def)
  moreover have "st_Version ?m \<noteq> max_uint64"
    using unat_Suc_word [OF v] assms(3) by (auto simp: settled_state_def bumped_def unat_max_uint64)
  ultimately obtain n
    where step2: "accepted sha ?m (confirmation ?m at) (command_of CommandPublishTerminal) n"
      and "st_Status n = st_StopTarget s"
    using confirmation_accepted [of sha ?m at] assms(4) by auto
  moreover have "exec (accepted sha) s ([(reconciliation s ef at, command_of CommandStopExecution)]
      @ [(confirmation ?m at, command_of CommandPublishTerminal)]) n"
    by (rule exec_step [of "accepted sha"], rule exec_one [of "accepted sha"], rule step1, rule step2)
  ultimately show ?thesis by (intro exI conjI) auto
qed

lemma takeover_ends:
  assumes v: "valid_state sha s" and q: "st_Status s = StatusCancelRequested"
    and "unat (st_Version s) + 3 < 2 ^ 64" and e: "ls_Epoch (st_Lease s) \<noteq> max_uint64" and p: "pending_inv tr s"
  shows "\<exists>tr' s'. exec (accepted sha) s tr' s' \<and> length tr' \<le> 3 \<and> st_Status s' = st_StopTarget s"
proof -
  define at where "at = max 1 (ls_Until (st_Lease s))"
  let ?l = "\<lparr>ls_Owner = ''worker'', ls_Epoch = ls_Epoch (st_Lease s) + 1, ls_Until = at + 1\<rparr>"
  let ?m = "bumped (s\<lparr>st_Lease := ?l\<rparr>)"
  have ver: "st_Version s \<noteq> max_uint64" using assms(3) by (auto simp: unat_max_uint64)
  have step: "accepted sha s (takeover s at) (command_of CommandStopExecution) ?m"
    by (rule takeover_accepted [OF v q ver e]) (simp_all add: at_def)
  have "\<exists>tr' s'. exec (accepted sha) ?m tr' s' \<and> length tr' \<le> 2 \<and> st_Status s' = st_StopTarget ?m"
  proof (rule stopping_ends [where tr = tr and at = at])
    show "valid_state sha ?m" by (rule valid_leased [OF v q ver])
    show "unat (st_Version ?m) + 2 < 2 ^ 64"
      using unat_Suc_word [OF ver] assms(3) by (simp add: bumped_def)
    show "Lease_ValidAt (st_Lease ?m) at"
      using inc_nonzero [OF e] by (simp add: Lease_ValidAt_def worker_not_blank word_neq_0_conv at_def)
    show "pending_inv tr ?m" using p by (simp add: pending_inv_def bumped_def)
  qed (simp add: q)
  then obtain tr' s' where "exec (accepted sha) ?m tr' s'" "length tr' \<le> 2" "st_Status s' = st_StopTarget s"
    by auto
  moreover from exec_append [OF this(1) exec_one [of "accepted sha", OF step]]
  have "exec (accepted sha) s ((takeover s at, command_of CommandStopExecution) # tr') s'" by simp
  ultimately show ?thesis
    by (intro exI [of _ "(takeover s at, command_of CommandStopExecution) # tr'"] exI [of _ s']) simp
qed

lemma run_can_stop:
  assumes v: "valid_state sha s" and t: "\<not> RunStatus_Terminal (st_Status s)"
    and "unat (st_Version s) + 4 < 2 ^ 64" and e: "ls_Epoch (st_Lease s) \<noteq> max_uint64" and p: "pending_inv tr s"
  shows "\<exists>tr' s'. exec (accepted sha) s tr' s' \<and> length tr' \<le> 4
    \<and> st_Status s' = (if st_Status s = StatusCancelRequested then st_StopTarget s else StatusCancelled)"
proof (cases "st_Status s = StatusCancelRequested")
  case True
  obtain tr' s' where "exec (accepted sha) s tr' s'" "length tr' \<le> 3" "st_Status s' = st_StopTarget s"
    using takeover_ends [OF v True _ e p] assms(3) by auto
  then show ?thesis using True by (intro exI conjI) auto
next
  case False
  let ?m = "bumped (stopped s StatusCancelled ''cancellation requested'')"
  let ?x = "(blank_event EventCancelRequested s 1, command_of CommandStopExecution)"
  have ver: "st_Version s \<noteq> max_uint64" using assms(3) by (auto simp: unat_max_uint64)
  have step: "accepted sha s (blank_event EventCancelRequested s 1) (command_of CommandStopExecution) ?m"
    by (rule stop_accepted [OF v t False ver]) simp
  have "\<exists>tr' s'. exec (accepted sha) ?m tr' s' \<and> length tr' \<le> 3 \<and> st_Status s' = st_StopTarget ?m"
  proof (rule takeover_ends [where tr = tr])
    show "valid_state sha ?m" by (rule valid_stopped [OF v t ver]) simp
    show "unat (st_Version ?m) + 3 < 2 ^ 64"
      using unat_Suc_word [OF ver] assms(3) by (simp add: bumped_def stopped_def)
    show "pending_inv tr ?m" using p t by (simp add: pending_inv_def bumped_def stopped_def)
  qed (simp_all add: stopped_def e)
  then obtain tr' s' where "exec (accepted sha) ?m tr' s'" "length tr' \<le> 3" "st_Status s' = StatusCancelled"
    by (auto simp: stopped_def)
  moreover from exec_append [OF this(1) exec_one [of "accepted sha", OF step]]
  have "exec (accepted sha) s (?x # tr') s'" by simp
  ultimately show ?thesis
    using False by (intro exI [of _ "?x # tr'"] exI [of _ s']) simp
qed

end
