(* ===== verification/Runtime_Demo.thy ===== *)
theory Runtime_Demo
  imports Runtime_Liveness
begin

section \<open>One complete run, evaluated\<close>

text \<open>
  A run of fourteen events from creation to completion: a claim, the workspace, one model
  round whose tool call needs approval, the approval, a second claim with the adoption
  barrier, the effect and its receipt, a second round that finishes, verification and
  finalization. Every step is \<open>Transition\<close> evaluated by the simplifier. The witnesses of the
  theorems about runs use it.
\<close>

definition demo_sha :: "bytes \<Rightarrow> string" where
  "demo_sha b = ''digest''"

definition demo_limits :: limits where
  "demo_limits = \<lparr>lm_MaxNoProgressBatches = 0, lm_MaxModelRounds = 4, lm_MaxToolCalls = 2,
     lm_MaxCost = 100, lm_Deadline = 0\<rparr>"

definition demo_lease :: "u64 \<Rightarrow> gotime \<Rightarrow> lease" where
  "demo_lease n t = \<lparr>ls_Owner = ''w'', ls_Epoch = n, ls_Until = t\<rparr>"

definition worker_event :: "event_kind \<Rightarrow> u64 \<Rightarrow> u64 \<Rightarrow> gotime \<Rightarrow> event" where
  "worker_event k v epoch at = \<lparr>ev_Progress = None, ev_ProgressRef = [], ev_Kind = k,
     ev_ExpectedVersion = v, ev_Owner = ''w'', ev_Epoch = epoch, ev_At = at,
     ev_NotBefore = None, ev_Lease = None, ev_WorkspaceRevision = 0, ev_OutputRef = ''ref'',
     ev_Complete = True, ev_Finish = False, ev_Effects = [], ev_Receipt = None,
     ev_Approval = None, ev_Verification = None, ev_Stop = None, ev_Cost = 0, ev_Reason = []\<rparr>"

definition demo_effect :: effect where
  "demo_effect = \<lparr>ef_ID = ''op'', ef_Kind = ''write'', ef_Args = ''{}'', ef_ArgsHash = ''digest'',
     ef_ExpectedRevision = 0, ef_DispatchEpoch = 0, ef_PolicyVersion = ''p1'',
     ef_RequiresApproval = True, ef_Status = EffectPlanned, ef_ReceiptRef = []\<rparr>"

definition demo_planned :: effect where
  "demo_planned = demo_effect\<lparr>ef_ExpectedRevision := 5\<rparr>"

definition demo_binding :: approval_binding where
  "demo_binding = \<lparr>ap_EffectID = ''op'', ap_ArgsHash = ''digest'', ap_WorkspaceRevision = 5,
     ap_PolicyVersion = ''p1'', ap_Version = 1, ap_Granted = False\<rparr>"

definition demo_inflight :: effect where
  "demo_inflight = demo_planned\<lparr>ef_Status := EffectInFlight, ef_DispatchEpoch := 2\<rparr>"

definition demo_receipt :: effect_receipt where
  "demo_receipt = \<lparr>rc_EffectID = ''op'', rc_ArgsHash = ''digest'', rc_Epoch = 2,
     rc_Status = EffectSucceeded, rc_BeforeRevision = 5, rc_AfterRevision = 6,
     rc_Ref = ''receipt'', rc_Settled = True\<rparr>"

definition demo_evidence :: verification_evidence where
  "demo_evidence = \<lparr>ve_Trusted = True, ve_ReportRef = ''report'', ve_WorkspaceRevision = 6,
     ve_BaselineTargetFailed = True, ve_TargetPassed = True, ve_RegressionPassed = True\<rparr>"

definition demo0 :: state where
  "demo0 = NewState ''t'' ''r'' demo_limits"

definition demo_ev1 :: event where
  "demo_ev1 = (worker_event EventClaimed 1 1 10)\<lparr>ev_Lease := Some (demo_lease 1 100)\<rparr>"

definition demo1 :: state where
  "demo1 = demo0\<lparr>st_Version := 2, st_Status := StatusRunning, st_Lease := demo_lease 1 100\<rparr>"

definition demo_cs1 :: "command list" where
  "demo_cs1 = command_of CommandInitializeWorkspace"

definition demo_ev2 :: event where
  "demo_ev2 = (worker_event EventWorkspaceReady 2 1 11)\<lparr>ev_WorkspaceRevision := 5\<rparr>"

definition demo2 :: state where
  "demo2 = demo1\<lparr>st_Version := 3, st_WorkspaceRevision := 5, st_OutputRef := ''ref'', st_Stage := StageBuildContext\<rparr>"

definition demo_cs2 :: "command list" where
  "demo_cs2 = command_of CommandBuildContext"

definition demo_ev3 :: event where
  "demo_ev3 = worker_event EventContextBuilt 3 1 12"

definition demo3 :: state where
  "demo3 = demo2\<lparr>st_Version := 4, st_Stage := StageModel, st_ModelRounds := 1, st_StepSeq := 1\<rparr>"

definition demo_cs3 :: "command list" where
  "demo_cs3 = command_of CommandCallModel"

definition demo_ev4 :: event where
  "demo_ev4 = (worker_event EventModelCompleted 4 1 13)\<lparr>ev_Cost := 7\<rparr>"

definition demo4 :: state where
  "demo4 = demo3\<lparr>st_Version := 5, st_Stage := StageValidateTools, st_Cost := 7\<rparr>"

definition demo_cs4 :: "command list" where
  "demo_cs4 = command_of CommandValidateTools"

definition demo_ev5 :: event where
  "demo_ev5 = (worker_event EventToolsValidated 5 1 14)\<lparr>ev_Effects := [demo_effect]\<rparr>"

definition demo5 :: state where
  "demo5 = demo4\<lparr>st_Version := 6, st_PendingEffect := Some demo_planned, st_Approval := Some demo_binding, st_Status := StatusWaitingApproval, st_Stage := StageApprovalGate, st_Lease := \<lparr>ls_Owner = [], ls_Epoch = 1, ls_Until = 14\<rparr>\<rparr>"

definition demo_cs5 :: "command list" where
  "demo_cs5 = [\<lparr>cm_Kind = CommandRequestApproval, cm_Effect = Some demo_planned, cm_Binding = Some demo_binding\<rparr>]"

definition demo_ev6 :: event where
  "demo_ev6 = (worker_event EventApprovalDecided 6 1 15)\<lparr>ev_Approval := Some \<lparr>ad_Binding = demo_binding, ad_Approve = True\<rparr>\<rparr>"

definition demo6 :: state where
  "demo6 = demo5\<lparr>st_Version := 7, st_Approval := Some (demo_binding\<lparr>ap_Granted := True, ap_Version := 2\<rparr>), st_Status := StatusQueued, st_Stage := StageExecuteEffects\<rparr>"

definition demo_cs6 :: "command list" where
  "demo_cs6 = []"

definition demo_ev7 :: event where
  "demo_ev7 = (worker_event EventClaimed 7 2 16)\<lparr>ev_Lease := Some (demo_lease 2 100)\<rparr>"

definition demo7 :: state where
  "demo7 = demo6\<lparr>st_Version := 8, st_Status := StatusRunning, st_Lease := demo_lease 2 100, st_ResumeStage := StageExecuteEffects, st_Stage := StageAdoptWorkspace\<rparr>"

definition demo_cs7 :: "command list" where
  "demo_cs7 = command_of CommandAdoptWorkspace"

definition demo_ev8 :: event where
  "demo_ev8 = (worker_event EventWorkspaceAdopted 8 2 17)\<lparr>ev_Stop := Some \<lparr>sr_Ref = ''stop'', sr_NoActiveOperations = True, sr_WorkspaceRevision = 5\<rparr>\<rparr>"

definition demo8 :: state where
  "demo8 = demo7\<lparr>st_Version := 9, st_Stage := StageExecuteEffects, st_ResumeStage := no_stage, st_PendingEffect := Some demo_inflight, st_ToolCalls := 1\<rparr>"

definition demo_cs8 :: "command list" where
  "demo_cs8 = effect_command CommandExecuteEffect (Some demo_inflight)"

definition demo_ev9 :: event where
  "demo_ev9 = (worker_event EventEffectCompleted 9 2 18)\<lparr>ev_Receipt := Some demo_receipt\<rparr>"

definition demo9 :: state where
  "demo9 = demo8\<lparr>st_Version := 10, st_PendingEffect := None, st_Approval := None, st_WorkspaceRevision := 6, st_OutputRef := ''receipt'', st_Stage := StageIngestResults\<rparr>"

definition demo_cs9 :: "command list" where
  "demo_cs9 = command_of CommandIngestResults"

definition demo_ev10 :: event where
  "demo_ev10 = worker_event EventResultsIngested 10 2 19"

definition demo10 :: state where
  "demo10 = demo9\<lparr>st_Version := 11, st_OutputRef := ''ref'', st_Stage := StageBuildContext\<rparr>"

definition demo_cs10 :: "command list" where
  "demo_cs10 = command_of CommandBuildContext"

definition demo_ev11 :: event where
  "demo_ev11 = worker_event EventContextBuilt 11 2 20"

definition demo11 :: state where
  "demo11 = demo10\<lparr>st_Version := 12, st_Stage := StageModel, st_ModelRounds := 2, st_StepSeq := 2\<rparr>"

definition demo_cs11 :: "command list" where
  "demo_cs11 = command_of CommandCallModel"

definition demo_ev12 :: event where
  "demo_ev12 = (worker_event EventModelCompleted 12 2 21)\<lparr>ev_Cost := 8, ev_Finish := True\<rparr>"

definition demo12 :: state where
  "demo12 = demo11\<lparr>st_Version := 13, st_Cost := 15, st_Stage := StageVerify\<rparr>"

definition demo_cs12 :: "command list" where
  "demo_cs12 = command_of CommandVerify"

definition demo_ev13 :: event where
  "demo_ev13 = (worker_event EventVerificationCompleted 13 2 22)\<lparr>ev_Verification := Some demo_evidence\<rparr>"

definition demo13 :: state where
  "demo13 = demo12\<lparr>st_Version := 14, st_VerificationReportRef := ''report'', st_VerificationRevision := 6, st_Verification := VerificationVerified, st_Stage := StageFinalize\<rparr>"

definition demo_cs13 :: "command list" where
  "demo_cs13 = command_of CommandFinalize"

definition demo_ev14 :: event where
  "demo_ev14 = worker_event EventFinalized 14 2 23"

definition demo14 :: state where
  "demo14 = demo13\<lparr>st_Version := 15, st_Status := StatusCompleted, st_Stage := StageStopped\<rparr>"

definition demo_cs14 :: "command list" where
  "demo_cs14 = command_of CommandPublishTerminal"

lemmas demo_state_defs = demo_limits_def NewState_def demo_lease_def worker_event_def
  demo_effect_def demo_planned_def demo_binding_def demo_inflight_def demo_receipt_def
  demo_evidence_def zero_lease_def command_of_def plain_command_def effect_command_def
  demo1_def demo_ev1_def demo_cs1_def
  demo2_def demo_ev2_def demo_cs2_def
  demo3_def demo_ev3_def demo_cs3_def
  demo4_def demo_ev4_def demo_cs4_def
  demo5_def demo_ev5_def demo_cs5_def
  demo6_def demo_ev6_def demo_cs6_def
  demo7_def demo_ev7_def demo_cs7_def
  demo8_def demo_ev8_def demo_cs8_def
  demo9_def demo_ev9_def demo_cs9_def
  demo10_def demo_ev10_def demo_cs10_def
  demo11_def demo_ev11_def demo_cs11_def
  demo12_def demo_ev12_def demo_cs12_def
  demo13_def demo_ev13_def demo_cs13_def
  demo14_def demo_ev14_def demo_cs14_def demo0_def

lemmas demo_eval = Transition_def admission_def validateState_def validate_shape_def
  validateProgressState_def validate_pending_def validate_evidence_def approval_unbound_def
  waiting_inconsistent_def ID_Validate_def id_char_def SnapshotSchemaVersion_def unsettled_def
  controlEvent_def allowedDuringStop_def allowedDuringReconciliation_def Lease_ValidAt_def
  ascii_space_def wide_space2_def wide_space3_def blank_def max_uint64_def Let_def
  handler_defs requireStage_def observeProgress_def budgetReached_def Money_Add_def
  scheduleEffect_def dispatchEffect_def settleEffect_def stop_def commandForStage_def
  approvalMatches_def receipt_binds_def settled_outcome_def has_brace_prefix_def
  max_int64_def wrap64_def

lemma demo_args: "ValidateCanonicalJSON ''{}'' = None" "json_valid ''{}''"
  by (simp_all add: ValidateCanonicalJSON_def CanonicalJSON_def max_args_bytes_def
      boundedJSON.simps json_valid_def json_eval)

lemma small_words [simp]: "\<not> (2 :: u64) \<le> 1" "\<not> (4 :: u64) \<le> 1"
  by (simp_all add: not_le)

lemma demo_effect_checked [simp]:
  "validateEffect demo_sha \<lparr>ef_ID = ''op'', ef_Kind = ''write'', ef_Args = ''{}'',
     ef_ArgsHash = ''digest'', ef_ExpectedRevision = x, ef_DispatchEpoch = 0,
     ef_PolicyVersion = ''p1'', ef_RequiresApproval = True, ef_Status = EffectPlanned,
     ef_ReceiptRef = []\<rparr> = None"
  by (simp add: validateEffect_def demo_sha_def demo_args ID_Validate_def id_char_def
      blank_def has_brace_prefix_def ascii_space_def wide_space2_def wide_space3_def Let_def)

lemma demo_steps:
  "Transition demo_sha demo0 demo_ev1 = (demo1, demo_cs1, None)"
  "Transition demo_sha demo1 demo_ev2 = (demo2, demo_cs2, None)"
  "Transition demo_sha demo2 demo_ev3 = (demo3, demo_cs3, None)"
  "Transition demo_sha demo3 demo_ev4 = (demo4, demo_cs4, None)"
  "Transition demo_sha demo4 demo_ev5 = (demo5, demo_cs5, None)"
  "Transition demo_sha demo5 demo_ev6 = (demo6, demo_cs6, None)"
  "Transition demo_sha demo6 demo_ev7 = (demo7, demo_cs7, None)"
  "Transition demo_sha demo7 demo_ev8 = (demo8, demo_cs8, None)"
  "Transition demo_sha demo8 demo_ev9 = (demo9, demo_cs9, None)"
  "Transition demo_sha demo9 demo_ev10 = (demo10, demo_cs10, None)"
  "Transition demo_sha demo10 demo_ev11 = (demo11, demo_cs11, None)"
  "Transition demo_sha demo11 demo_ev12 = (demo12, demo_cs12, None)"
  "Transition demo_sha demo12 demo_ev13 = (demo13, demo_cs13, None)"
  "Transition demo_sha demo13 demo_ev14 = (demo14, demo_cs14, None)"
  by (simp_all add: demo_state_defs demo_eval)

definition demo_events :: "event list" where
  "demo_events = [demo_ev1, demo_ev2, demo_ev3, demo_ev4, demo_ev5, demo_ev6, demo_ev7,
     demo_ev8, demo_ev9, demo_ev10, demo_ev11, demo_ev12, demo_ev13, demo_ev14]"

definition demo_history :: "(event, command list) history" where
  "demo_history = [(demo_ev1, demo_cs1), (demo_ev2, demo_cs2), (demo_ev3, demo_cs3), (demo_ev4, demo_cs4),
     (demo_ev5, demo_cs5), (demo_ev6, demo_cs6), (demo_ev7, demo_cs7), (demo_ev8, demo_cs8),
     (demo_ev9, demo_cs9), (demo_ev10, demo_cs10), (demo_ev11, demo_cs11), (demo_ev12, demo_cs12),
     (demo_ev13, demo_cs13), (demo_ev14, demo_cs14)]"

lemma demo_run: "run demo_sha ''t'' ''r'' demo_limits demo_history demo14"
  unfolding demo0_def [symmetric]
  by (rule drive_exec [of _ _ demo_events])
    (simp add: demo_events_def demo_history_def demo_steps)

text \<open>The prefix that ends with the approved effect in flight.\<close>

lemma demo_run8: "run demo_sha ''t'' ''r'' demo_limits (take 8 demo_history) demo8"
  unfolding demo0_def [symmetric]
  by (rule drive_exec [of _ _ "take 8 demo_events"])
    (simp add: demo_events_def demo_history_def demo_steps)

end
