(* ===== verification/Runtime_Correct.thy ===== *)
theory Runtime_Correct
  imports Runtime_Demo
begin

section \<open>Correctness of the run reducer\<close>

text \<open>
  The properties of \<open>Transition\<close>: each is a short consequence of the run invariants of
  \<open>Runtime_Runs\<close> and \<open>Runtime_Liveness\<close>, with a witness on the evaluated run of
  \<open>Runtime_Demo\<close>.
\<close>

subsection \<open>Effects and approvals\<close>

text \<open>
  C1. In every run, an effect that requires approval is dispatched only after an accepted
  approval decision whose binding names that very effect: its ID, its argument hash, the
  workspace revision it is dispatched at and its policy version.
\<close>

theorem approved_effects_only:
  assumes "run sha tenant rid lim (tr1 @ (e, cs) # tr2) s"
    and "ef \<in> set (executes cs)" and "ef_RequiresApproval ef"
  shows "\<exists>x\<in>set tr1. approves_effect (fst x) ef"
proof -
  from assms(1) obtain s1 s2 where pre: "run sha tenant rid lim tr1 s1"
    and acc: "accepted sha s1 e cs s2" by (rule exec_at)
  have "approval_inv tr1 s1" by (rule approval.always [OF pre])
  from acc show ?thesis
  proof (cases rule: acceptedE)
    case (step n)
    then show ?thesis
      using rule_execute_granted [OF step(3) assms(2,3)] \<open>approval_inv tr1 s1\<close>
      by (auto simp: approval_inv_def)
  qed (use assms(2) in simp)
qed

theorem approved_effects_only_witness:
  "\<exists>x\<in>set (take 7 demo_history). approves_effect (fst x) demo_inflight"
proof -
  have "run demo_sha ''t'' ''r'' demo_limits (take 7 demo_history @ (demo_ev8, demo_cs8) # []) demo8"
    using demo_run8 by (simp add: demo_history_def)
  moreover have "demo_inflight \<in> set (executes demo_cs8)" by (simp add: demo_cs8_def)
  ultimately show ?thesis
    by (rule approved_effects_only) (simp add: demo_inflight_def demo_planned_def demo_effect_def)
qed

text \<open>
  No approval is used twice: in every run at most as many effects that require approval
  have been dispatched as approving decisions have been accepted, and a grant that is still
  open is one of the unused decisions.
\<close>

theorem approvals_used_once:
  assumes "run sha tenant rid lim tr s"
  shows "length (filter ef_RequiresApproval (dispatches tr)) + of_bool (grant_open s)
       \<le> count_history (\<lambda>(e, cs). approves e) tr"
  using approval.always [OF assms] by (simp add: approval_inv_def)

theorem approvals_used_once_witness:
  "length (filter ef_RequiresApproval (dispatches demo_history)) + of_bool (grant_open demo14)
     \<le> count_history (\<lambda>(e, cs). approves e) demo_history"
  by (rule approvals_used_once [OF demo_run])

text \<open>
  C2. The dispatched effects of a run and the receipts accepted for them agree, in order, in
  operation ID, argument hash, dispatch epoch and expected revision; the only dispatch
  without a receipt is the pending unsettled effect of the snapshot. So no dispatched effect
  is dropped, settled twice, or overtaken by another dispatch.
\<close>

theorem effects_settle_in_order:
  assumes "run sha tenant rid lim tr s"
  shows "map effect_key (dispatches tr)
       = map receipt_key (settlements tr) @ map effect_key (outstanding s)"
  using ledger.always [OF assms] by (simp add: ledger_inv_def)

theorem effects_settle_in_order_witness:
  "map effect_key (dispatches (take 8 demo_history))
     = map receipt_key (settlements (take 8 demo_history)) @ map effect_key (outstanding demo8)"
  by (rule effects_settle_in_order [OF demo_run8])

subsection \<open>Leases\<close>

text \<open>
  C3. Fencing: the epochs of the accepted claims of a run strictly increase, and every
  accepted event other than a claim or a control-plane event carries the epoch of the latest
  claim before it.
\<close>

theorem worker_events_fenced:
  assumes "run sha tenant rid lim (tr1 @ (e, cs) # tr2) s"
    and "ev_Kind e \<noteq> EventClaimed" and "\<not> controlEvent (ev_Kind e)"
  shows "ev_Epoch e = last (0 # claim_epochs tr1) \<and> sorted_wrt (<) (0 # claim_epochs (tr1 @ (e, cs) # tr2))"
proof -
  from assms(1) obtain s1 s2 where pre: "run sha tenant rid lim tr1 s1"
    and acc: "accepted sha s1 e cs s2" by (rule exec_at)
  have "ev_Epoch e = ls_Epoch (st_Lease s1)"
    using acc admission_facts(7) [OF _ assms(3,2)] by (auto simp: accepted_iff)
  then show ?thesis
    using epoch.always [OF pre] epoch.always [OF assms(1)] by (simp add: epoch_inv_def)
qed

theorem worker_events_fenced_witness:
  "ev_Epoch demo_ev8 = last (0 # claim_epochs (take 7 demo_history))
    \<and> sorted_wrt (<) (0 # claim_epochs (take 7 demo_history @ (demo_ev8, demo_cs8) # []))"
proof (rule worker_events_fenced [where s = demo8])
  show "run demo_sha ''t'' ''r'' demo_limits (take 7 demo_history @ (demo_ev8, demo_cs8) # []) demo8"
    using demo_run8 by (simp add: demo_history_def)
qed (simp_all add: demo_ev8_def worker_event_def controlEvent_def)

subsection \<open>Completion and budgets\<close>

text \<open>
  C4. A run completes only on trusted evidence: the history of a completed run contains a
  verification event from a trusted verifier whose regression tests passed, whose target test
  passed if it failed on the baseline, and whose workspace revision is the final one. A
  \<open>Verified\<close> result further means that the target failed on the baseline and passed now.
\<close>

theorem completed_run_verified:
  assumes "run sha tenant rid lim tr s" and "st_Status s = StatusCompleted"
  shows "\<exists>x\<in>set tr. evidence_for s (fst x) \<and> st_VerificationRevision s = st_WorkspaceRevision s"
  using evidence.always [OF assms(1)] completed.always [OF assms(1)] assms(2)
  by (auto simp: evidence_inv_def completed_inv_def)

theorem completed_run_verified_witness:
  "\<exists>x\<in>set demo_history. evidence_for demo14 (fst x)
     \<and> st_VerificationRevision demo14 = st_WorkspaceRevision demo14"
  by (rule completed_run_verified [OF demo_run]) (simp add: demo14_def)

text \<open>
  The tool-call counter is the number of dispatched effects and the round counter the
  number of context events that called the model; neither wraps nor exceeds its limit.
\<close>

theorem budgets_respected:
  assumes "run sha tenant rid lim tr s"
  shows "unat (st_ToolCalls s) = length (dispatches tr)
    \<and> unat (st_ModelRounds s) = count_history (\<lambda>(e, cs). model_call e cs) tr
    \<and> within (st_ToolCalls s) (lm_MaxToolCalls (st_Limits s))
    \<and> within (st_ModelRounds s) (lm_MaxModelRounds (st_Limits s))"
  using budget.always [OF assms] by (simp add: budget_inv_def)

theorem budgets_respected_witness:
  "unat (st_ToolCalls demo14) = length (dispatches demo_history)
    \<and> unat (st_ModelRounds demo14) = count_history (\<lambda>(e, cs). model_call e cs) demo_history
    \<and> within (st_ToolCalls demo14) (lm_MaxToolCalls (st_Limits demo14))
    \<and> within (st_ModelRounds demo14) (lm_MaxModelRounds (st_Limits demo14))"
  by (rule budgets_respected [OF demo_run])

text \<open>
  No spending past a budget: an accepted event returns a model call or an effect to
  execute only before the deadline and while the accumulated cost is below the cost limit.
\<close>

theorem no_spending_past_budget:
  assumes "accepted sha s e cs s'" and "c \<in> set cs"
    and "cm_Kind c = CommandCallModel \<or> cm_Kind c = CommandExecuteEffect"
  shows "(lm_Deadline (st_Limits s) \<noteq> 0 \<longrightarrow> ev_At e < lm_Deadline (st_Limits s))
    \<and> (0 < lm_MaxCost (st_Limits s') \<longrightarrow> st_Cost s' < lm_MaxCost (st_Limits s'))"
  using assms(1)
proof (cases rule: acceptedE)
  case (step n)
  then show ?thesis
    using rule_spends [OF step(3) assms(2)] assms(3) rule_frame [OF step(3)]
    by (auto simp: may_spend_def)
qed (use assms(2) in simp)

theorem no_spending_past_budget_witness:
  "cm_Kind (hd demo_cs8) = CommandExecuteEffect \<and> st_Cost demo8 < lm_MaxCost (st_Limits demo8)"
proof
  show k: "cm_Kind (hd demo_cs8) = CommandExecuteEffect"
    by (simp add: demo_cs8_def effect_command_def)
  have "accepted demo_sha demo7 demo_ev8 demo_cs8 demo8" by (simp add: accepted_def demo_steps)
  moreover have "hd demo_cs8 \<in> set demo_cs8" by (simp add: demo_cs8_def effect_command_def)
  ultimately have "0 < lm_MaxCost (st_Limits demo8) \<longrightarrow> st_Cost demo8 < lm_MaxCost (st_Limits demo8)"
    using no_spending_past_budget k by blast
  then show "st_Cost demo8 < lm_MaxCost (st_Limits demo8)" by (simp add: demo_state_defs)
qed

text \<open>
  The recorded cost of a run is the exact sum of the costs its model events reported
  (\<open>int64\<close> values in the source): additions never wrap.
\<close>

theorem cost_is_exact_sum:
  assumes "run sha tenant rid lim tr s" and "\<forall>x\<in>set tr. in_int64 (ev_Cost (fst x))"
  shows "st_Cost s = charges tr \<and> charges tr \<le> max_int64"
  using cost.always [OF assms(1)] assms(2) by (simp add: cost_inv_def)

theorem cost_is_exact_sum_witness: "st_Cost demo14 = charges demo_history \<and> charges demo_history \<le> max_int64"
  by (rule cost_is_exact_sum [OF demo_run]) (simp add: demo_history_def demo_state_defs int64_defs)

subsection \<open>Cancellation and the end of a run\<close>

lemma demo8_valid: "valid_state demo_sha demo8"
  by (rule accepted_valid [of _ demo7 demo_ev8 demo_cs8]) (simp add: accepted_def demo_steps)

text \<open>
  C10. Cancellation dominates: once a stop was requested, every accepted event keeps the stop
  target, and leaves the run stopping (asking the executor to stop, or nothing for a repeated
  cancellation) or ends it in exactly that target; nothing else is ever commanded again.
\<close>

theorem cancellation_dominates:
  assumes "accepted sha s e cs s'" and "st_Status s = StatusCancelRequested"
  shows "st_StopTarget s' = st_StopTarget s
    \<and> (st_Status s' = StatusCancelRequested \<and> (cs = [] \<or> cs = command_of CommandStopExecution)
       \<or> st_Status s' = st_StopTarget s \<and> cs = command_of CommandPublishTerminal)"
  using assms(1)
proof (cases rule: acceptedE)
  case (step n)
  then show ?thesis using rule_stopping [OF step(3) assms(2) step(1,2)] by auto
qed (use assms(2) in simp)

theorem cancellation_dominates_witness:
  "let s = bumped (stopped demo8 StatusCancelled ''cancellation requested'');
       s' = bumped (s\<lparr>st_Lease := \<lparr>ls_Owner = ''worker'', ls_Epoch = 3, ls_Until = 101\<rparr>\<rparr>) in
   st_StopTarget s' = st_StopTarget s
    \<and> (st_Status s' = StatusCancelRequested \<or> st_Status s' = st_StopTarget s)"
proof -
  let ?s = "bumped (stopped demo8 StatusCancelled ''cancellation requested'')"
  have "valid_state demo_sha ?s"
    by (rule valid_stopped [OF demo8_valid]) (simp_all add: demo_state_defs max_uint64_def)
  then have "accepted demo_sha ?s (takeover ?s 100) (command_of CommandStopExecution)
     (bumped (?s\<lparr>st_Lease := \<lparr>ls_Owner = ''worker'', ls_Epoch = ls_Epoch (st_Lease ?s) + 1, ls_Until = 100 + 1\<rparr>\<rparr>))"
    by (rule takeover_accepted) (simp_all add: stopped_def bumped_def demo_state_defs max_uint64_def)
  from cancellation_dominates [OF this] show ?thesis
    by (simp add: Let_def stopped_def demo_state_defs)
qed

text \<open>
  C11. A run ends once: the number of published terminal results of a run is one if its status
  is terminal and zero otherwise, and a terminal snapshot accepts no event at all.
\<close>

theorem run_ends_once:
  assumes "run sha tenant rid lim tr s"
  shows "count_history (\<lambda>(e, cs). publishes cs) tr = of_bool (RunStatus_Terminal (st_Status s))
    \<and> (RunStatus_Terminal (st_Status s) \<longrightarrow> \<not> accepted sha s e cs s')"
  using publish.always [OF assms] admission_facts(2) [of sha s e]
  by (auto simp: publish_inv_def accepted_iff)

theorem run_ends_once_witness:
  "count_history (\<lambda>(e, cs). publishes cs) demo_history = 1
    \<and> \<not> accepted demo_sha demo14 demo_ev1 [] demo0"
  using run_ends_once [OF demo_run, of demo_ev1 "[]" demo0] by (simp add: demo14_def)

text \<open>
  C5. Every run can be brought to an end: from every valid unfinished snapshot of a run
  (with room for four more versions and one more epoch) some sequence of at most four
  accepted events reaches the recorded stop target, or \<open>Cancelled\<close> if none was recorded.
\<close>

theorem every_run_can_end:
  assumes "run sha tenant rid lim tr s" and "valid_state sha s"
    and "\<not> RunStatus_Terminal (st_Status s)"
    and "unat (st_Version s) + 4 < 2 ^ 64" and "ls_Epoch (st_Lease s) \<noteq> max_uint64"
  shows "\<exists>tr' s'. exec (accepted sha) s tr' s' \<and> length tr' \<le> 4
    \<and> st_Status s' = (if st_Status s = StatusCancelRequested then st_StopTarget s
                     else StatusCancelled)"
  by (rule run_can_stop [OF assms(2-5) pending.always [OF assms(1)]])

theorem every_run_can_end_witness:
  "\<exists>tr' s'. exec (accepted demo_sha) demo8 tr' s' \<and> length tr' \<le> 4
    \<and> st_Status s' = (if st_Status demo8 = StatusCancelRequested then st_StopTarget demo8
                     else StatusCancelled)"
  by (rule every_run_can_end [OF demo_run8 demo8_valid])
    (simp_all add: demo_state_defs max_uint64_def)


subsection \<open>The reducer as a whole\<close>

text \<open>
  C6. \<open>Transition\<close> implements the rules of the run state machine: it returns an error with
  the snapshot untouched and no command, or answers a repeated cancellation without a new
  version, or applies exactly one rule, in which case the version grows by one, identity,
  limits and schema are unchanged, the lease epoch does not decrease, and the new snapshot is
  valid.
\<close>

theorem transition_refines_rules:
  shows "case Transition sha s e of
     (s', cs, Some er) \<Rightarrow> s' = s \<and> cs = []
   | (s', cs, None) \<Rightarrow>
       (if repeated_cancel s e then s' = s \<and> cs = []
        else \<exists>n. rule sha s e cs n \<and> s' = bumped n \<and> unat (st_Version s') = Suc (unat (st_Version s))
           \<and> st_RunID s' = st_RunID s \<and> st_TenantID s' = st_TenantID s \<and> st_Limits s' = st_Limits s
           \<and> st_SchemaVersion s' = st_SchemaVersion s
           \<and> ls_Epoch (st_Lease s) \<le> ls_Epoch (st_Lease s'))
       \<and> valid_state sha s'"
proof (cases "Transition sha s e")
  case (fields s' cs er)
  show ?thesis
  proof (cases er)
    case None
    then have acc: "accepted sha s e cs s'" using fields by (simp add: accepted_def)
    from acc show ?thesis
    proof (cases rule: acceptedE)
      case (step n)
      then show ?thesis
        using None fields acc rule_frame [OF step(3)] rule_epoch [OF step(3)]
          unat_Suc_word [OF admission_facts(4) [OF step(1)]]
        by (auto simp: bumped_def less_imp_le split: if_splits)
    qed (use None fields accepted_valid [OF acc] in auto)
  qed (use fields in \<open>auto simp: Transition_def Let_def split: option.splits sum.splits prod.splits if_splits\<close>)
qed







subsection \<open>Progress\<close>

text \<open>
  A closed batch counts as a repetition exactly when the context has no newer message and
  every observation of the batch is conclusive and shows only a tree and a fingerprint the
  bounded memory already holds; a repetition adds one to the counter and leaves the memory
  alone, anything else resets the counter; and the memory stays valid either way.
\<close>

theorem batch_repetition_exact:
  assumes "observeProgress s e = Inr n" and "validateProgressState s = None"
    and "st_Progress s = Some p" and "ev_Progress e = Some f"
    and "st_StepSeq s \<noteq> 0" and "ps_RecentTrees p \<noteq> []"
    and "ps_RepeatedBatches p < lm_MaxNoProgressBatches (st_Limits s)"
  shows "\<exists>q. st_Progress n = Some q \<and> validateProgressState n = None
     \<and> (if pf_MessageSeq f = ps_MessageSeq p
           \<and> list_all (\<lambda>ob. \<not> po_Indeterminate ob
                \<and> po_AfterHash ob \<in> set (ps_RecentTrees p)
                \<and> po_Fingerprint ob \<in> set (ps_RecentEvidence p)) (pf_Observations f)
        then ps_Classification q = ''repeated'' \<and> ps_RepeatedBatches q = ps_RepeatedBatches p + 1
             \<and> ps_RecentTrees q = ps_RecentTrees p \<and> ps_RecentEvidence q = ps_RecentEvidence p
        else ps_Classification q \<noteq> ''repeated'' \<and> ps_RepeatedBatches q = 0)"
proof -
  have nz: "lm_MaxNoProgressBatches (st_Limits s) \<noteq> 0" using assms(7) by auto
  have v: "validateProgressState n = None"
    using observeProgress_valid [OF assms(1,2)] assms(3,7) by auto
  from assms(1) nz show ?thesis
  proof (cases rule: observeProgress_cases)
    case (batch f' p' trees evidence novel uncertain)
    then have [simp]: "f' = f" "p' = p" using assms(3,4) by auto
    have known: "list_all (\<lambda>ob. \<not> po_Indeterminate ob \<and> po_AfterHash ob \<in> set (ps_RecentTrees p)
        \<and> po_Fingerprint ob \<in> set (ps_RecentEvidence p)) (pf_Observations f)
      \<longleftrightarrow> list_all (known_observation (ps_RecentTrees p) (ps_RecentEvidence p)) (pf_Observations f)
          \<and> \<not> list_ex po_Indeterminate (pf_Observations f)"
      by (auto simp: list_all_iff list_ex_iff known_observation_def)
    show ?thesis
      using batch v observe_loop_novel [OF batch(8)] observe_loop_uncertain [OF batch(8)] assms(6)
      unfolding known by (auto simp: classify_batch_def split: if_splits)
  qed (use assms(5) in simp)
qed


definition hash_a :: string where "hash_a = replicate 64 (CHR ''a'')"
definition hash_b :: string where "hash_b = replicate 64 (CHR ''b'')"

lemma hash_ab [simp]: "validProgressHash hash_a" "validProgressHash hash_b" "hash_a \<noteq> hash_b"
  by (simp_all add: validProgressHash_def hash_a_def hash_b_def lower_hex_def list_all_iff)

definition batch_memory :: progress_state where
  "batch_memory = \<lparr>ps_LastCheckedStep = 1, ps_MessageSeq = 0, ps_RepeatedBatches = 1,
     ps_Classification = ''repeated'', ps_RecentEvidence = [hash_b], ps_RecentTrees = [hash_a]\<rparr>"

definition batch_state :: state where
  "batch_state = demo10\<lparr>st_StepSeq := 2, st_Progress := Some batch_memory,
     st_Limits := demo_limits\<lparr>lm_MaxNoProgressBatches := 3\<rparr>\<rparr>"

definition batch_frame :: progress_frame where
  "batch_frame = \<lparr>pf_ContextRef = [], pf_PolicyVersion = 1, pf_StepSeq = 2, pf_MessageSeq = 0,
     pf_AttemptID = ''a'', pf_VerificationRef = [],
     pf_Observations = [\<lparr>po_EffectID = ''op'', po_ReceiptRef = ''r'', po_Fingerprint = hash_b,
       po_BeforeHash = hash_a, po_AfterHash = hash_a, po_Indeterminate = False\<rparr>]\<rparr>"

definition batch_event :: event where
  "batch_event = (worker_event EventContextBuilt 11 2 20)
     \<lparr>ev_Progress := Some batch_frame, ev_ProgressRef := ''progress''\<rparr>"

definition batch_next :: state where
  "batch_next = batch_state\<lparr>st_Progress := Some (batch_memory
     \<lparr>ps_LastCheckedStep := 2, ps_RepeatedBatches := 2\<rparr>)\<rparr>"

lemma batch_observed: "observeProgress batch_state batch_event = Inr batch_next"
  by (simp add: observeProgress_def batch_state_def batch_event_def batch_next_def batch_memory_def
      batch_frame_def progress_frame_of_def demo_state_defs ProgressPolicyVersion_def remember_def
      valid_observation_def classify_batch_def ID_Validate_def id_char_def ProgressTreeWindow_def
      ProgressEvidenceWindow_def)

theorem batch_repetition_exact_witness:
  "\<exists>q. st_Progress batch_next = Some q \<and> validateProgressState batch_next = None
     \<and> (if pf_MessageSeq batch_frame = ps_MessageSeq batch_memory
           \<and> list_all (\<lambda>ob. \<not> po_Indeterminate ob
                \<and> po_AfterHash ob \<in> set (ps_RecentTrees batch_memory)
                \<and> po_Fingerprint ob \<in> set (ps_RecentEvidence batch_memory))
              (pf_Observations batch_frame)
        then ps_Classification q = ''repeated''
             \<and> ps_RepeatedBatches q = ps_RepeatedBatches batch_memory + 1
             \<and> ps_RecentTrees q = ps_RecentTrees batch_memory
             \<and> ps_RecentEvidence q = ps_RecentEvidence batch_memory
        else ps_Classification q \<noteq> ''repeated'' \<and> ps_RepeatedBatches q = 0)"
  by (rule batch_repetition_exact [OF batch_observed])
    (simp_all add: batch_state_def batch_event_def batch_memory_def demo_state_defs
      validateProgressState_def SnapshotSchemaVersion_def valid_hash_list_def progress_classes_def
      ProgressTreeWindow_def ProgressEvidenceWindow_def)

end
