(* ===== verification/Quota_Store.thy ===== *)
theory Quota_Store
  imports Domain Forge_Machine
begin

section \<open>Credential-group quotas (internal/quota/types.go, store.go)\<close>

text \<open>
  The quota ledger is two tables, \<open>provider_quotas\<close> and \<open>quota_reservations\<close>. Every mutation
  runs in one transaction that first locks the row of the credential group, so mutations of
  a group are serialized and each is one function of the database and the clock value read
  after the lock. The SQL statements are translated with the rows as records; a failed CHECK,
  UNIQUE or FOREIGN KEY constraint of the schema aborts the transaction (\<open>QErrDatabase\<close>).

  \<open>rhash\<close> is the SHA-256 digest of the JSON encoding of a normalized request and
  \<open>run_exists\<close> the foreign key into the runs table; nothing depends on their definitions.
\<close>

datatype quota_err =
    QErrInvalid | QErrConflict | QErrNotFound | QErrAlreadyDispatched
  | QErrDomain err
  | QCapacityError string gotime
  | QErrDatabase

record quota_config =
  qc_CredentialGroup :: string
  qc_MaxConcurrent :: int
  qc_MaxTokens :: int
  qc_MaxCost :: money
  qc_WindowDuration :: duration
  qc_FailureThreshold :: int
  qc_BreakerCooldown :: duration

record quota_request =
  rq_TenantID :: string
  rq_RunID :: string
  rq_AttemptID :: string
  rq_CredentialGroup :: string
  rq_InputTokens :: int
  rq_MaxOutputTokens :: int
  rq_MaxCost :: money
  rq_PriceVersion :: string
  rq_RequestDeadline :: gotime

text \<open>The schema admits three values of \<open>status\<close> and two of \<open>settlement_kind\<close>.\<close>

datatype reservation_status = RsReserved | RsSettled | RsUnknown
datatype settlement_kind = ActualUsage | NotDispatched

record reservation =
  rv_TenantID :: string
  rv_RunID :: string
  rv_AttemptID :: string
  rv_CredentialGroup :: string
  rv_Tokens :: int
  rv_Cost :: money
  rv_Status :: reservation_status
  rv_SlotReleased :: bool
  rv_RequestDeadline :: gotime
  rv_DispatchedAt :: "gotime option"
  rv_ActualTokens :: "int option"
  rv_ActualCost :: "money option"
  rv_SettlementKind :: "settlement_kind option"
  rv_Outcome :: "string option"
  rv_WindowGeneration :: int
  rv_requestHash :: string

record settlement =
  se_Tokens :: int
  se_Cost :: money

text \<open>\<open>Snapshot\<close>: one row of \<open>provider_quotas\<close>. The schema makes the probe columns both NULL or neither.\<close>

record quota_row =
  qr_CredentialGroup :: string
  qr_MaxConcurrent :: int
  qr_MaxTokens :: int
  qr_MaxCost :: money
  qr_ActiveRequests :: int
  qr_ReservedTokens :: int
  qr_CommittedTokens :: int
  qr_ReservedCost :: money
  qr_CommittedCost :: money
  qr_WindowEndsAt :: gotime
  qr_WindowGeneration :: int
  qr_BreakerUntil :: "gotime option"
  qr_ConsecutiveFailures :: int
  qr_ProbeTenantID :: "string option"
  qr_ProbeAttemptID :: "string option"
  qr_windowDurationMS :: int
  qr_failureThreshold :: int
  qr_breakerCooldownMS :: int

record quota_db =
  qd_Quotas :: "(string \<times> quota_row) list"
  qd_Reservations :: "reservation list"

text \<open>A transaction either fails and changes nothing or commits; \<open>Reserve\<close> also commits some denials.\<close>

type_synonym 'a quota_result = "quota_db \<times> (quota_err + 'a)"

subsection \<open>Rows\<close>

definition put_quota :: "quota_row \<Rightarrow> quota_db \<Rightarrow> quota_db" where
  "put_quota q db = db\<lparr>qd_Quotas :=
     map (\<lambda>(g, x). if g = qr_CredentialGroup q then (g, q) else (g, x)) (qd_Quotas db)\<rparr>"

definition is_row :: "string \<Rightarrow> string \<Rightarrow> reservation \<Rightarrow> bool" where
  "is_row tenant i r \<longleftrightarrow> rv_TenantID r = tenant \<and> rv_AttemptID r = i"

definition find_row :: "string \<Rightarrow> string \<Rightarrow> quota_db \<Rightarrow> reservation option" where
  "find_row tenant i db = List.find (is_row tenant i) (qd_Reservations db)"

definition put_row :: "reservation \<Rightarrow> quota_db \<Rightarrow> quota_db" where
  "put_row r db = db\<lparr>qd_Reservations :=
     map (\<lambda>x. if is_row (rv_TenantID r) (rv_AttemptID r) x then r else x) (qd_Reservations db)\<rparr>"

text \<open>\<open>Get\<close> and \<open>Snapshot\<close>.\<close>

definition Store_Get :: "quota_db \<Rightarrow> string \<Rightarrow> string \<Rightarrow> quota_err + reservation" where
  "Store_Get db tenant i =
     (case find_row tenant i db of None \<Rightarrow> Inl QErrNotFound | Some r \<Rightarrow> Inr r)"

definition Store_Snapshot :: "quota_db \<Rightarrow> string \<Rightarrow> quota_err + quota_row" where
  "Store_Snapshot db g =
     (case map_of (qd_Quotas db) g of None \<Rightarrow> Inl QErrNotFound | Some q \<Rightarrow> Inr q)"

text \<open>The CHECK constraints of \<open>provider_quotas\<close> on the columns that \<open>saveQuota\<close> writes.\<close>

definition quota_checks :: "quota_row \<Rightarrow> bool" where
  "quota_checks q \<longleftrightarrow> 0 \<le> qr_ActiveRequests q \<and> 0 \<le> qr_ReservedTokens q
     \<and> 0 \<le> qr_CommittedTokens q \<and> 0 \<le> qr_ReservedCost q \<and> 0 \<le> qr_CommittedCost q
     \<and> 0 < qr_WindowGeneration q \<and> 0 \<le> qr_ConsecutiveFailures q
     \<and> (qr_ProbeTenantID q = None \<longleftrightarrow> qr_ProbeAttemptID q = None)"

definition saveQuota :: "quota_row \<Rightarrow> quota_db \<Rightarrow> quota_err + quota_db" where
  "saveQuota q db = (if quota_checks q then Inr (put_quota q db) else Inl QErrDatabase)"

definition milliseconds :: "int \<Rightarrow> duration" where
  "milliseconds ms = wrap64 (ms * 1000000)"

subsection \<open>Configure\<close>

definition new_quota_row :: "quota_config \<Rightarrow> gotime \<Rightarrow> quota_row" where
  "new_quota_row c now = \<lparr>
     qr_CredentialGroup = qc_CredentialGroup c, qr_MaxConcurrent = qc_MaxConcurrent c,
     qr_MaxTokens = qc_MaxTokens c, qr_MaxCost = qc_MaxCost c, qr_ActiveRequests = 0,
     qr_ReservedTokens = 0, qr_CommittedTokens = 0, qr_ReservedCost = 0, qr_CommittedCost = 0,
     qr_WindowEndsAt = now + (qc_WindowDuration c sdiv 1000000) * 1000000,
     qr_WindowGeneration = 1, qr_BreakerUntil = None, qr_ConsecutiveFailures = 0,
     qr_ProbeTenantID = None, qr_ProbeAttemptID = None,
     qr_windowDurationMS = qc_WindowDuration c sdiv 1000000,
     qr_failureThreshold = qc_FailureThreshold c,
     qr_breakerCooldownMS = qc_BreakerCooldown c sdiv 1000000\<rparr>"

definition Store_Configure :: "quota_db \<Rightarrow> gotime \<Rightarrow> quota_config \<Rightarrow> unit quota_result" where
  "Store_Configure db now c =
     (if qc_CredentialGroup c = [] \<or> 128 < length (qc_CredentialGroup c)
         \<or> qc_MaxConcurrent c \<le> 0 \<or> qc_MaxTokens c < 0 \<or> qc_MaxCost c < 0
         \<or> qc_WindowDuration c < 1000000 \<or> 365 * 24 * 3600000000000 < qc_WindowDuration c
         \<or> qc_FailureThreshold c \<le> 0
         \<or> qc_BreakerCooldown c < 1000000 \<or> 24 * 3600000000000 < qc_BreakerCooldown c
      then (db, Inl QErrInvalid)
      else if 2147483647 < qc_MaxConcurrent c \<or> 2147483647 < qc_FailureThreshold c
      then (db, Inl QErrDatabase)
      else
        (case map_of (qd_Quotas db) (qc_CredentialGroup c) of
           None \<Rightarrow> (db\<lparr>qd_Quotas := (qc_CredentialGroup c, new_quota_row c now) # qd_Quotas db\<rparr>,
                    Inr ())
         | Some q \<Rightarrow>
             (put_quota (q\<lparr>qr_MaxConcurrent := qc_MaxConcurrent c,
                 qr_MaxTokens := qc_MaxTokens c, qr_MaxCost := qc_MaxCost c,
                 qr_windowDurationMS := qc_WindowDuration c sdiv 1000000,
                 qr_failureThreshold := qc_FailureThreshold c,
                 qr_breakerCooldownMS := qc_BreakerCooldown c sdiv 1000000\<rparr>) db, Inr ())))"

subsection \<open>Locking a group and expiring request slots\<close>

definition rotate_window :: "quota_row \<Rightarrow> gotime \<Rightarrow> quota_row" where
  "rotate_window q now =
     (if \<not> now < qr_WindowEndsAt q
      then q\<lparr>qr_CommittedCost := 0, qr_CommittedTokens := 0,
             qr_WindowGeneration := wrap64 (qr_WindowGeneration q + 1),
             qr_WindowEndsAt := now + milliseconds (qr_windowDurationMS q)\<rparr>
      else q)"

definition lockGroup :: "quota_db \<Rightarrow> gotime \<Rightarrow> string \<Rightarrow> quota_err + quota_row" where
  "lockGroup db now g =
     (case map_of (qd_Quotas db) g of
        None \<Rightarrow> Inl QErrNotFound
      | Some q \<Rightarrow> Inr (rotate_window q now))"

definition ownsProbe :: "quota_row \<Rightarrow> reservation \<Rightarrow> bool" where
  "ownsProbe q r \<longleftrightarrow> qr_ProbeTenantID q = Some (rv_TenantID r)
     \<and> qr_ProbeAttemptID q = Some (rv_AttemptID r)"

definition reopen :: "quota_row \<Rightarrow> gotime \<Rightarrow> quota_row" where
  "reopen q now = q\<lparr>qr_BreakerUntil := Some (now + milliseconds (qr_breakerCooldownMS q)),
     qr_ProbeTenantID := None, qr_ProbeAttemptID := None\<rparr>"

definition expiring :: "string \<Rightarrow> gotime \<Rightarrow> reservation \<Rightarrow> bool" where
  "expiring g now r \<longleftrightarrow> rv_CredentialGroup r = g \<and> \<not> rv_SlotReleased r \<and> rv_RequestDeadline r \<le> now"

definition expire_row :: "reservation \<Rightarrow> reservation" where
  "expire_row r = r\<lparr>rv_SlotReleased := True,
     rv_Status := (if rv_Status r = RsSettled then RsSettled else RsUnknown)\<rparr>"

text \<open>The loop over the returned rows: the probe is cleared when its own slot expired.\<close>

fun clear_probe :: "reservation list \<Rightarrow> quota_row \<Rightarrow> gotime \<Rightarrow> quota_row" where
  "clear_probe [] q now = q"
| "clear_probe (r # rs) q now = clear_probe rs (if ownsProbe q r then reopen q now else q) now"

definition expireSlots :: "quota_db \<Rightarrow> quota_row \<Rightarrow> gotime
     \<Rightarrow> quota_err + quota_db \<times> quota_row \<times> nat" where
  "expireSlots db q now =
     (let expired = filter (expiring (qr_CredentialGroup q) now) (qd_Reservations db);
          db1 = db\<lparr>qd_Reservations :=
                  map (\<lambda>r. if expiring (qr_CredentialGroup q) now r then expire_row r else r)
                    (qd_Reservations db)\<rparr>;
          q1 = clear_probe expired q now;
          q2 = q1\<lparr>qr_ActiveRequests := qr_ActiveRequests q1 - int (length expired)\<rparr> in
      case (qr_ProbeTenantID q2, qr_ProbeAttemptID q2) of
        (Some tenant, Some i) \<Rightarrow>
          (case find_row tenant i db1 of
             None \<Rightarrow> Inl QErrDatabase
           | Some r \<Rightarrow>
               Inr (db1, if \<not> now < rv_RequestDeadline r then reopen q2 now else q2,
                    length expired))
      | _ \<Rightarrow> Inr (db1, q2, length expired))"

subsection \<open>Reserve\<close>

definition truncate_us :: "gotime \<Rightarrow> gotime" where
  "truncate_us t = t - t mod 1000"

definition Request_normalized :: "(quota_request \<Rightarrow> string) \<Rightarrow> quota_request
     \<Rightarrow> quota_err + quota_request \<times> int \<times> string" where
  "Request_normalized rhash r =
     (if \<not> valid_id (rq_TenantID r) \<or> \<not> valid_id (rq_RunID r) \<or> \<not> valid_id (rq_AttemptID r)
         \<or> rq_CredentialGroup r = [] \<or> 128 < length (rq_CredentialGroup r)
         \<or> rq_PriceVersion r = [] \<or> rq_RequestDeadline r = 0
      then Inl QErrInvalid
      else if rq_InputTokens r < 0 \<or> rq_MaxOutputTokens r \<le> 0
              \<or> wrap64 (max_int64 - rq_MaxOutputTokens r) < rq_InputTokens r \<or> rq_MaxCost r < 0
      then Inl QErrInvalid
      else
        let r' = r\<lparr>rq_RequestDeadline := truncate_us (rq_RequestDeadline r)\<rparr> in
        Inr (r', wrap64 (rq_InputTokens r + rq_MaxOutputTokens r), rhash r'))"

definition new_reservation :: "quota_request \<Rightarrow> int \<Rightarrow> string \<Rightarrow> int \<Rightarrow> reservation" where
  "new_reservation r tokens hash gen = \<lparr>
     rv_TenantID = rq_TenantID r, rv_RunID = rq_RunID r, rv_AttemptID = rq_AttemptID r,
     rv_CredentialGroup = rq_CredentialGroup r, rv_Tokens = tokens, rv_Cost = rq_MaxCost r,
     rv_Status = RsReserved, rv_SlotReleased = False,
     rv_RequestDeadline = rq_RequestDeadline r, rv_DispatchedAt = None,
     rv_ActualTokens = None, rv_ActualCost = None, rv_SettlementKind = None,
     rv_Outcome = None, rv_WindowGeneration = gen, rv_requestHash = hash\<rparr>"

text \<open>The reason to deny admission, in the order of the source.\<close>

definition admission_denied :: "quota_row \<Rightarrow> gotime \<Rightarrow> int \<Rightarrow> money \<Rightarrow> (string \<times> gotime) option" where
  "admission_denied q now tokens cost =
     (let budgets =
        (if qr_MaxConcurrent q \<le> qr_ActiveRequests q
         then Some (''concurrent request limit'', 0)
         else if qr_MaxTokens q < qr_CommittedTokens q
                 \<or> wrap64 (qr_MaxTokens q - qr_CommittedTokens q) < qr_ReservedTokens q
                 \<or> wrap64 (wrap64 (qr_MaxTokens q - qr_CommittedTokens q) - qr_ReservedTokens q) < tokens
         then Some (''token budget'', qr_WindowEndsAt q)
         else if qr_MaxCost q < qr_CommittedCost q
                 \<or> wrap64 (qr_MaxCost q - qr_CommittedCost q) < qr_ReservedCost q
                 \<or> wrap64 (wrap64 (qr_MaxCost q - qr_CommittedCost q) - qr_ReservedCost q) < cost
         then Some (''cost budget'', qr_WindowEndsAt q)
         else None) in
      case qr_BreakerUntil q of
        None \<Rightarrow> budgets
      | Some until \<Rightarrow>
          if now < until then Some (''circuit open'', until)
          else if qr_ProbeAttemptID q \<noteq> None then Some (''half-open probe in progress'', 0)
          else budgets)"

definition admitted :: "quota_row \<Rightarrow> quota_request \<Rightarrow> int \<Rightarrow> quota_row" where
  "admitted q r tokens =
     (let q1 = q\<lparr>qr_ActiveRequests := qr_ActiveRequests q + 1,
                 qr_ReservedTokens := wrap64 (qr_ReservedTokens q + tokens),
                 qr_ReservedCost := wrap64 (qr_ReservedCost q + rq_MaxCost r)\<rparr> in
      if qr_BreakerUntil q \<noteq> None
      then q1\<lparr>qr_ProbeTenantID := Some (rq_TenantID r),
              qr_ProbeAttemptID := Some (rq_AttemptID r)\<rparr>
      else q1)"

definition commit_quota :: "quota_db \<Rightarrow> quota_row \<Rightarrow> quota_db \<Rightarrow> quota_err + 'a \<Rightarrow> 'a quota_result" where
  "commit_quota db0 q db res =
     (case saveQuota q db of Inl er \<Rightarrow> (db0, Inl er) | Inr db' \<Rightarrow> (db', res))"

definition Store_Reserve :: "(quota_request \<Rightarrow> string) \<Rightarrow> (string \<Rightarrow> string \<Rightarrow> bool) \<Rightarrow> quota_db \<Rightarrow> gotime
     \<Rightarrow> quota_request \<Rightarrow> reservation quota_result" where
  "Store_Reserve rhash run_exists db now request =
     (case Request_normalized rhash request of
        Inl er \<Rightarrow> (db, Inl er)
      | Inr (req, tokens, hash) \<Rightarrow>
        (case lockGroup db now (rq_CredentialGroup req) of
           Inl er \<Rightarrow> (db, Inl er)
         | Inr q0 \<Rightarrow>
           (case expireSlots db q0 now of
              Inl er \<Rightarrow> (db, Inl er)
            | Inr (db1, q, expired) \<Rightarrow>
              (case find_row (rq_TenantID req) (rq_AttemptID req) db1 of
                 Some existing \<Rightarrow>
                   if rv_requestHash existing \<noteq> hash then (db, Inl QErrConflict)
                   else commit_quota db q db1 (Inr existing)
               | None \<Rightarrow>
                   if \<not> now < rq_RequestDeadline req then (db, Inl QErrInvalid)
                   else
                     (case admission_denied q now tokens (rq_MaxCost req) of
                        Some (reason, retryAt) \<Rightarrow>
                          commit_quota db q db1 (Inl (QCapacityError reason retryAt))
                      | None \<Rightarrow>
                          if \<not> run_exists (rq_TenantID req) (rq_RunID req)
                          then (db, Inl QErrDatabase)
                          else
                            let r = new_reservation req tokens hash (qr_WindowGeneration q) in
                            commit_quota db (admitted q req tokens)
                              (db1\<lparr>qd_Reservations := r # qd_Reservations db1\<rparr>) (Inr r))))))"

subsection \<open>Mutations of one reservation\<close>

text \<open>\<open>mutate\<close>: the update function sees the locked group and row and returns both changed.\<close>

type_synonym quota_mutation =
  "quota_row \<Rightarrow> reservation \<Rightarrow> gotime \<Rightarrow> quota_err + quota_row \<times> reservation"

definition Store_mutate :: "quota_db \<Rightarrow> gotime \<Rightarrow> string \<Rightarrow> string \<Rightarrow> quota_mutation
     \<Rightarrow> unit quota_result" where
  "Store_mutate db now tenant i fn =
     (case Store_Get db tenant i of
        Inl er \<Rightarrow> (db, Inl er)
      | Inr r \<Rightarrow>
        (case lockGroup db now (rv_CredentialGroup r) of
           Inl er \<Rightarrow> (db, Inl er)
         | Inr q \<Rightarrow>
           (case fn q r now of
              Inl er \<Rightarrow> (db, Inl er)
            | Inr (q', r') \<Rightarrow> commit_quota db q' (put_row r' db) (Inr ()))))"

definition dispatch_mutation :: quota_mutation where
  "dispatch_mutation q r now =
     (if rv_DispatchedAt r \<noteq> None then Inl QErrAlreadyDispatched
      else if rv_Status r \<noteq> RsReserved \<or> rv_SlotReleased r \<or> \<not> now < rv_RequestDeadline r
      then Inl QErrConflict
      else Inr (q, r\<lparr>rv_DispatchedAt := Some now\<rparr>))"

definition unknown_mutation :: quota_mutation where
  "unknown_mutation q r now =
     (if rv_Status r = RsSettled then Inl QErrConflict
      else Inr (q, r\<lparr>rv_Status := RsUnknown\<rparr>))"

definition complete_unknown_mutation :: quota_mutation where
  "complete_unknown_mutation q r now =
     (if rv_DispatchedAt r = None \<or> rv_Status r = RsSettled then Inl QErrConflict
      else Inr (if \<not> rv_SlotReleased r then q\<lparr>qr_ActiveRequests := qr_ActiveRequests q - 1\<rparr> else q,
                r\<lparr>rv_Status := RsUnknown, rv_SlotReleased := True\<rparr>))"

definition same_settlement :: "reservation \<Rightarrow> settlement \<Rightarrow> settlement_kind \<Rightarrow> bool" where
  "same_settlement r actual kind \<longleftrightarrow> rv_SettlementKind r = Some kind
     \<and> rv_ActualTokens r = Some (se_Tokens actual) \<and> rv_ActualCost r = Some (se_Cost actual)"

definition settle_mutation :: "settlement \<Rightarrow> settlement_kind \<Rightarrow> quota_mutation" where
  "settle_mutation actual kind q r now =
     (if rv_Status r = RsSettled
      then (if same_settlement r actual kind then Inr (q, r) else Inl QErrConflict)
      else if kind = NotDispatched \<and> rv_DispatchedAt r \<noteq> None then Inl QErrAlreadyDispatched
      else if kind = ActualUsage \<and> rv_DispatchedAt r = None then Inl QErrConflict
      else if wrap64 (max_int64 - qr_CommittedTokens q) < se_Tokens actual
      then Inl (QErrDomain ErrOverflow)
      else
        (case Money_Add (qr_CommittedCost q) (se_Cost actual) of
           Inl er \<Rightarrow> Inl (QErrDomain er)
         | Inr cost \<Rightarrow>
             let q1 = q\<lparr>qr_ReservedTokens := wrap64 (qr_ReservedTokens q - rv_Tokens r),
                        qr_ReservedCost := wrap64 (qr_ReservedCost q - rv_Cost r),
                        qr_CommittedTokens := wrap64 (qr_CommittedTokens q + se_Tokens actual),
                        qr_CommittedCost := cost\<rparr>;
                 q2 = (if \<not> rv_SlotReleased r
                       then q1\<lparr>qr_ActiveRequests := qr_ActiveRequests q1 - 1\<rparr> else q1);
                 r' = r\<lparr>rv_Status := RsSettled, rv_ActualTokens := Some (se_Tokens actual),
                        rv_ActualCost := Some (se_Cost actual),
                        rv_SettlementKind := Some kind, rv_SlotReleased := True\<rparr> in
             Inr (if kind = NotDispatched \<and> ownsProbe q2 r then reopen q2 now else q2, r')))"

text \<open>The \<open>switch\<close> on the outcome: the circuit breaker.\<close>

definition circuit_outcome :: "string \<Rightarrow> bool \<Rightarrow> quota_row \<Rightarrow> gotime \<Rightarrow> quota_row" where
  "circuit_outcome outcome probe q now =
     (if outcome = ''success'' then
        (if qr_BreakerUntil q = None \<or> probe
         then q\<lparr>qr_ConsecutiveFailures := 0, qr_BreakerUntil := None,
                qr_ProbeTenantID := None, qr_ProbeAttemptID := None\<rparr>
         else q)
      else if outcome = ''failure'' then
        (let q1 = (if qr_ConsecutiveFailures q < qr_failureThreshold q
                   then q\<lparr>qr_ConsecutiveFailures := qr_ConsecutiveFailures q + 1\<rparr> else q) in
         if qr_failureThreshold q1 \<le> qr_ConsecutiveFailures q1 \<or> probe then reopen q1 now else q1)
      else if outcome = ''neutral'' then (if probe then reopen q now else q)
      else q)"

definition outcome_mutation :: "string \<Rightarrow> quota_mutation" where
  "outcome_mutation outcome q r now =
     (case rv_Outcome r of
        Some old \<Rightarrow> if old = outcome then Inr (q, r) else Inl QErrConflict
      | None \<Rightarrow>
          if rv_DispatchedAt r = None then Inl QErrConflict
          else Inr (circuit_outcome outcome (ownsProbe q r) q now,
                    r\<lparr>rv_Outcome := Some outcome\<rparr>))"

definition Store_MarkDispatched :: "quota_db \<Rightarrow> gotime \<Rightarrow> string \<Rightarrow> string \<Rightarrow> unit quota_result" where
  "Store_MarkDispatched db now tenant i = Store_mutate db now tenant i dispatch_mutation"

definition Store_MarkUnknown :: "quota_db \<Rightarrow> gotime \<Rightarrow> string \<Rightarrow> string \<Rightarrow> unit quota_result" where
  "Store_MarkUnknown db now tenant i = Store_mutate db now tenant i unknown_mutation"

definition Store_CompleteWithUnknownUsage ::
    "quota_db \<Rightarrow> gotime \<Rightarrow> string \<Rightarrow> string \<Rightarrow> unit quota_result" where
  "Store_CompleteWithUnknownUsage db now tenant i =
     Store_mutate db now tenant i complete_unknown_mutation"

definition Store_Settle :: "quota_db \<Rightarrow> gotime \<Rightarrow> string \<Rightarrow> string \<Rightarrow> settlement \<Rightarrow> unit quota_result" where
  "Store_Settle db now tenant i actual =
     (if se_Tokens actual < 0 \<or> se_Cost actual < 0 then (db, Inl QErrInvalid)
      else Store_mutate db now tenant i (settle_mutation actual ActualUsage))"

definition Store_AbandonBeforeDispatch ::
    "quota_db \<Rightarrow> gotime \<Rightarrow> string \<Rightarrow> string \<Rightarrow> unit quota_result" where
  "Store_AbandonBeforeDispatch db now tenant i =
     Store_mutate db now tenant i
       (settle_mutation \<lparr>se_Tokens = 0, se_Cost = 0\<rparr> NotDispatched)"

definition Store_RecordOutcome ::
    "quota_db \<Rightarrow> gotime \<Rightarrow> string \<Rightarrow> string \<Rightarrow> string \<Rightarrow> unit quota_result" where
  "Store_RecordOutcome db now tenant i outcome =
     (if outcome \<noteq> ''success'' \<and> outcome \<noteq> ''failure'' \<and> outcome \<noteq> ''neutral''
      then (db, Inl QErrInvalid)
      else Store_mutate db now tenant i (outcome_mutation outcome))"

definition Store_ExpireRequestSlots :: "quota_db \<Rightarrow> gotime \<Rightarrow> string \<Rightarrow> nat quota_result" where
  "Store_ExpireRequestSlots db now g =
     (case lockGroup db now g of
        Inl er \<Rightarrow> (db, Inl er)
      | Inr q0 \<Rightarrow>
        (case expireSlots db q0 now of
           Inl er \<Rightarrow> (db, Inl er)
         | Inr (db1, q, n) \<Rightarrow> commit_quota db q db1 (Inr n)))"

lemmas quota_mutation_defs [quota_defs] =
  dispatch_mutation_def unknown_mutation_def complete_unknown_mutation_def settle_mutation_def
  outcome_mutation_def

end
