(* ===== verification/Quota_Accounting.thy ===== *)
theory Quota_Accounting
  imports Quota_Store
begin

section \<open>The quota ledger balances\<close>

text \<open>
  The counters of a credential group are redundant: they must equal what the reservation rows
  add up to. \<open>mutation_law\<close> is the contract of an update function under \<open>mutate\<close>: the counters
  change by exactly what its row change is worth. Every update function of the store
  satisfies it (the interpretations below), so every mutation keeps the ledger balanced.
\<close>

subsection \<open>What rows are worth\<close>

definition row_key :: "reservation \<Rightarrow> string \<times> string" where
  "row_key r = (rv_TenantID r, rv_AttemptID r)"

definition slot :: "reservation \<Rightarrow> int" where
  "slot r = of_bool (\<not> rv_SlotReleased r)"

definition open_tokens :: "reservation \<Rightarrow> int" where
  "open_tokens r = (if rv_Status r = RsSettled then 0 else rv_Tokens r)"

definition open_cost :: "reservation \<Rightarrow> int" where
  "open_cost r = (if rv_Status r = RsSettled then 0 else rv_Cost r)"

definition row_total :: "(reservation \<Rightarrow> int) \<Rightarrow> string \<Rightarrow> reservation list \<Rightarrow> int" where
  "row_total w g rows = sum_list (map w (filter (\<lambda>r. rv_CredentialGroup r = g) rows))"

lemma is_row_key: "is_row t i r \<longleftrightarrow> row_key r = (t, i)"
  by (auto simp: is_row_def row_key_def)

lemma total_simps [simp]:
  "row_total w g [] = 0"
  "row_total w g (r # rows) = (if rv_CredentialGroup r = g then w r else 0) + row_total w g rows"
  by (simp_all add: row_total_def)

text \<open>Replacing the row of a key changes the total by the difference of the two rows.\<close>

lemma total_replace:
  assumes "distinct (map row_key rows)" and "r \<in> set rows"
    and "row_key r' = row_key r" and "rv_CredentialGroup r' = rv_CredentialGroup r"
  shows "row_total w g (map (\<lambda>x. if row_key x = row_key r then r' else x) rows)
       = row_total w g rows + (if rv_CredentialGroup r = g then w r' - w r else 0)"
  using assms(1,2)
proof (induction rows)
  case (Cons x rows)
  have rest: "map (\<lambda>y. if row_key y = row_key x then r' else y) rows = rows"
    using Cons.prems(1) by (intro map_idI) (auto, metis imageI)
  show ?case
  proof (cases "row_key x = row_key r")
    case True
    then have "x = r" using Cons.prems by (auto simp: image_iff)
    then show ?thesis using rest assms(4) by auto
  next
    case False
    then have "r \<in> set rows" using Cons.prems(2) by auto
    then show ?thesis using Cons False by auto
  qed
qed simp

lemma total_nonneg: "(\<And>r. r \<in> set rows \<Longrightarrow> 0 \<le> w r) \<Longrightarrow> 0 \<le> row_total w g rows"
  by (induction rows) auto

lemma total_ge: "(\<And>r. r \<in> set rows \<Longrightarrow> 0 \<le> w r) \<Longrightarrow> r \<in> set rows \<Longrightarrow> rv_CredentialGroup r = g
    \<Longrightarrow> w r \<le> row_total w g rows"
proof (induction rows)
  case (Cons x rows)
  then show ?case using total_nonneg [of rows w g] by fastforce
qed simp

subsection \<open>The invariant\<close>

definition row_ok :: "reservation \<Rightarrow> bool" where
  "row_ok r \<longleftrightarrow> 0 \<le> rv_Tokens r \<and> 0 \<le> rv_Cost r \<and> (rv_Status r = RsSettled \<longrightarrow> rv_SlotReleased r)"

text \<open>The part of a group row that does not depend on the reservations.\<close>

definition quota_typed :: "quota_row \<Rightarrow> bool" where
  "quota_typed q \<longleftrightarrow>
     0 \<le> qr_CommittedTokens q \<and> qr_CommittedTokens q \<le> max_int64
     \<and> 0 \<le> qr_CommittedCost q \<and> qr_CommittedCost q \<le> max_int64
     \<and> 0 \<le> qr_MaxTokens q \<and> qr_MaxTokens q \<le> max_int64
     \<and> 0 \<le> qr_MaxCost q \<and> qr_MaxCost q \<le> max_int64
     \<and> 0 < qr_WindowGeneration q \<and> qr_WindowGeneration q \<le> max_int64
     \<and> 0 \<le> qr_ConsecutiveFailures q
     \<and> qr_ReservedTokens q \<le> max_int64 \<and> qr_ReservedCost q \<le> max_int64
     \<and> (qr_ProbeTenantID q = None \<longleftrightarrow> qr_ProbeAttemptID q = None)
     \<and> (qr_ProbeAttemptID q \<noteq> None \<longrightarrow> qr_BreakerUntil q \<noteq> None)"

fun probe_ok :: "string option \<Rightarrow> string option \<Rightarrow> string \<Rightarrow> reservation list \<Rightarrow> bool" where
  "probe_ok (Some t) (Some i) g rows \<longleftrightarrow>
     (t, i) \<in> row_key ` {r \<in> set rows. rv_CredentialGroup r = g}"
| "probe_ok _ _ g rows \<longleftrightarrow> True"

definition balanced :: "reservation list \<Rightarrow> quota_row \<Rightarrow> bool" where
  "balanced rows q \<longleftrightarrow>
     qr_ActiveRequests q = row_total slot (qr_CredentialGroup q) rows
     \<and> qr_ReservedTokens q = row_total open_tokens (qr_CredentialGroup q) rows
     \<and> qr_ReservedCost q = row_total open_cost (qr_CredentialGroup q) rows
     \<and> quota_typed q
     \<and> probe_ok (qr_ProbeTenantID q) (qr_ProbeAttemptID q) (qr_CredentialGroup q) rows"

definition quota_inv :: "quota_db \<Rightarrow> bool" where
  "quota_inv db \<longleftrightarrow>
     distinct (map fst (qd_Quotas db))
     \<and> (\<forall>(g, q)\<in>set (qd_Quotas db). qr_CredentialGroup q = g \<and> balanced (qd_Reservations db) q)
     \<and> distinct (map row_key (qd_Reservations db))
     \<and> (\<forall>r\<in>set (qd_Reservations db). row_ok r)"

lemma find_rowD:
  assumes "find_row t i db = Some r"
  shows "r \<in> set (qd_Reservations db)" and "row_key r = (t, i)"
  using assms by (auto simp: find_row_def find_Some_iff is_row_key)

lemma find_row_None: "find_row t i db = None \<longleftrightarrow> (t, i) \<notin> row_key ` set (qd_Reservations db)"
  by (auto simp: find_row_def find_None_iff is_row_key image_iff)

lemma quota_invD:
  assumes "quota_inv db" and "map_of (qd_Quotas db) g = Some q"
  shows "qr_CredentialGroup q = g" and "balanced (qd_Reservations db) q"
  using assms map_of_SomeD [OF assms(2)] by (auto simp: quota_inv_def)

lemma row_worth: "row_ok r \<Longrightarrow> 0 \<le> slot r \<and> 0 \<le> open_tokens r \<and> 0 \<le> open_cost r"
  by (auto simp: row_ok_def slot_def open_tokens_def open_cost_def)

lemma balanced_nonneg:
  assumes "balanced rows q" and "\<forall>r\<in>set rows. row_ok r"
  shows "0 \<le> qr_ActiveRequests q" "0 \<le> qr_ReservedTokens q" "0 \<le> qr_ReservedCost q"
  using assms by (auto simp: balanced_def intro!: total_nonneg dest: row_worth)

text \<open>Rotation of the accounting window keeps everything but a generation at its maximum.\<close>

lemma rotate_window_frame [simp]:
  "qr_CredentialGroup (rotate_window q now) = qr_CredentialGroup q"
  "qr_ActiveRequests (rotate_window q now) = qr_ActiveRequests q"
  "qr_ReservedTokens (rotate_window q now) = qr_ReservedTokens q"
  "qr_ReservedCost (rotate_window q now) = qr_ReservedCost q"
  "qr_ProbeTenantID (rotate_window q now) = qr_ProbeTenantID q"
  "qr_ProbeAttemptID (rotate_window q now) = qr_ProbeAttemptID q"
  "qr_BreakerUntil (rotate_window q now) = qr_BreakerUntil q"
  "qr_MaxTokens (rotate_window q now) = qr_MaxTokens q"
  "qr_MaxCost (rotate_window q now) = qr_MaxCost q"
  "qr_MaxConcurrent (rotate_window q now) = qr_MaxConcurrent q"
  "qr_ConsecutiveFailures (rotate_window q now) = qr_ConsecutiveFailures q"
  "qr_failureThreshold (rotate_window q now) = qr_failureThreshold q"
  by (simp_all add: rotate_window_def)

lemma rotate_balanced:
  assumes "balanced rows q" and "0 < qr_WindowGeneration (rotate_window q now)"
  shows "balanced rows (rotate_window q now)"
proof -
  have "in_int64 (wrap64 (qr_WindowGeneration q + 1))" by simp
  then have "quota_typed (rotate_window q now)"
    using assms by (auto simp: balanced_def quota_typed_def rotate_window_def int64_defs)
  then show ?thesis using assms(1) by (simp add: balanced_def)
qed


subsection \<open>The contract of a mutation\<close>

text \<open>What the locked group and row satisfy when an update function runs.\<close>

definition locked_ok :: "quota_row \<Rightarrow> reservation \<Rightarrow> bool" where
  "locked_ok q r \<longleftrightarrow> quota_typed q \<and> row_ok r
     \<and> open_tokens r \<le> qr_ReservedTokens q \<and> open_cost r \<le> qr_ReservedCost q"

definition probe_kept :: "quota_row \<Rightarrow> quota_row \<Rightarrow> bool" where
  "probe_kept q q' \<longleftrightarrow>
     (qr_ProbeTenantID q' = qr_ProbeTenantID q \<and> qr_ProbeAttemptID q' = qr_ProbeAttemptID q
        \<and> (qr_BreakerUntil q \<noteq> None \<longrightarrow> qr_BreakerUntil q' \<noteq> None))
     \<or> (qr_ProbeTenantID q' = None \<and> qr_ProbeAttemptID q' = None)"

locale mutation_law =
  fixes pre :: bool and fn :: quota_mutation
  assumes law: "pre \<Longrightarrow> fn q r now = Inr (q', r') \<Longrightarrow> locked_ok q r \<Longrightarrow>
      row_key r' = row_key r \<and> rv_CredentialGroup r' = rv_CredentialGroup r \<and> row_ok r'
      \<and> qr_CredentialGroup q' = qr_CredentialGroup q
      \<and> qr_ActiveRequests q' = qr_ActiveRequests q + (slot r' - slot r)
      \<and> qr_ReservedTokens q' = qr_ReservedTokens q + (open_tokens r' - open_tokens r)
      \<and> qr_ReservedCost q' = qr_ReservedCost q + (open_cost r' - open_cost r)
      \<and> quota_typed q' \<and> probe_kept q q'"
    and frame: "fn q r now = Inr (q', r') \<Longrightarrow> qr_WindowGeneration q' = qr_WindowGeneration q
      \<and> row_key r' = row_key r \<and> rv_CredentialGroup r' = rv_CredentialGroup r"

lemma put_row_key:
  "put_row r db = db\<lparr>qd_Reservations :=
     map (\<lambda>x. if row_key x = row_key r then r else x) (qd_Reservations db)\<rparr>"
  unfolding put_row_def is_row_key by (simp add: row_key_def)

lemma keys_replace: "row_key r' = row_key r \<Longrightarrow>
    map row_key (map (\<lambda>x. if row_key x = row_key r then r' else x) rows) = map row_key rows"
  by (induction rows) auto

lemma put_quota_inv:
  assumes "distinct (map fst qs)" and "map_of qs g = Some q" and "qr_CredentialGroup q' = g"
    and "P q'" and "\<And>h x. (h, x) \<in> set qs \<Longrightarrow> h \<noteq> g \<Longrightarrow> qr_CredentialGroup x = h \<and> P x"
  shows "\<forall>(h, x)\<in>set (map (\<lambda>(h, x). if h = qr_CredentialGroup q' then (h, q') else (h, x)) qs).
     qr_CredentialGroup x = h \<and> P x"
  using assms(3-5) by (auto split: if_splits)

lemma balanced_other:
  assumes "balanced rows q" and "\<And>w. row_total w (qr_CredentialGroup q) rows' = row_total w (qr_CredentialGroup q) rows"
    and "\<And>k. k \<in> row_key ` {r \<in> set rows. rv_CredentialGroup r = qr_CredentialGroup q}
      \<Longrightarrow> k \<in> row_key ` {r \<in> set rows'. rv_CredentialGroup r = qr_CredentialGroup q}"
  shows "balanced rows' q"
proof -
  have "probe_ok (qr_ProbeTenantID q) (qr_ProbeAttemptID q) (qr_CredentialGroup q) rows'"
    using assms(1,3)
    by (cases "(qr_ProbeTenantID q, qr_ProbeAttemptID q, qr_CredentialGroup q, rows')" rule: probe_ok.cases)
      (auto simp: balanced_def)
  then show ?thesis using assms(1,2) by (simp add: balanced_def)
qed

text \<open>Replacing a row keeps the set of keys of every group.\<close>

lemma group_keys_replace:
  assumes "r \<in> set rows" and "distinct (map row_key rows)" and "row_key r' = row_key r"
    and "rv_CredentialGroup r' = rv_CredentialGroup r"
  shows "row_key ` {x \<in> set (map (\<lambda>x. if row_key x = row_key r then r' else x) rows). rv_CredentialGroup x = g}
    = row_key ` {x \<in> set rows. rv_CredentialGroup x = g}"
proof -
  have same: "x = r" if "x \<in> set rows" "row_key x = row_key r" for x
    using assms(1,2) that by (auto simp: distinct_map inj_on_def)
  show ?thesis
  proof (rule set_eqI)
    fix k
    show "k \<in> row_key ` {x \<in> set (map (\<lambda>x. if row_key x = row_key r then r' else x) rows). rv_CredentialGroup x = g}
      \<longleftrightarrow> k \<in> row_key ` {x \<in> set rows. rv_CredentialGroup x = g}"
      using assms same by (auto simp: image_iff; metis)
  qed
qed


lemma probe_kept_ok:
  assumes "probe_kept q q'" and "probe_ok (qr_ProbeTenantID q) (qr_ProbeAttemptID q) g rows"
  shows "probe_ok (qr_ProbeTenantID q') (qr_ProbeAttemptID q') g rows"
  using assms by (auto simp: probe_kept_def)

lemma probe_ok_keys:
  "row_key ` {r \<in> set rows. rv_CredentialGroup r = g} \<subseteq> row_key ` {r \<in> set rows'. rv_CredentialGroup r = g}
   \<Longrightarrow> probe_ok a b g rows \<Longrightarrow> probe_ok a b g rows'"
  by (cases "(a, b, g, rows')" rule: probe_ok.cases) auto

text \<open>The checked columns hold in a balanced ledger, so the schema never rejects its rows.\<close>

lemma balanced_checks: "balanced rows q \<Longrightarrow> \<forall>r\<in>set rows. row_ok r \<Longrightarrow> quota_checks q"
  using balanced_nonneg [of rows q] by (auto simp: balanced_def quota_typed_def quota_checks_def)

lemma balanced_locked:
  assumes "balanced rows q" and "\<forall>r\<in>set rows. row_ok r" and "r \<in> set rows"
    and "rv_CredentialGroup r = qr_CredentialGroup q"
  shows "locked_ok q r"
proof -
  have "open_tokens r \<le> row_total open_tokens (qr_CredentialGroup q) rows"
    "open_cost r \<le> row_total open_cost (qr_CredentialGroup q) rows"
    using assms(2) by (auto intro!: total_ge assms(3,4) dest: row_worth)
  then show ?thesis using assms by (simp add: locked_ok_def balanced_def)
qed

lemma Store_mutate_cases:
  assumes "Store_mutate db now t i fn = (db', res)"
  obtains (fails) er where "db' = db" "res = Inl er"
  | (commits) r q0 q' r' where "find_row t i db = Some r"
      "map_of (qd_Quotas db) (rv_CredentialGroup r) = Some q0"
      "fn (rotate_window q0 now) r now = Inr (q', r')" "quota_checks q'"
      "db' = put_quota q' (put_row r' db)" "res = Inr ()"
proof (cases "find_row t i db")
  case None
  then show thesis using assms fails by (auto simp: Store_mutate_def Store_Get_def)
next
  case (Some r)
  note r = Some
  show thesis
  proof (cases "map_of (qd_Quotas db) (rv_CredentialGroup r)")
    case None
    then show thesis using assms fails r
      by (auto simp: Store_mutate_def Store_Get_def lockGroup_def)
  next
    case (Some q0)
    have eq: "Store_mutate db now t i fn =
        (case fn (rotate_window q0 now) r now of
           Inl er \<Rightarrow> (db, Inl er)
         | Inr (q', r') \<Rightarrow> commit_quota db q' (put_row r' db) (Inr ()))"
      using r Some by (simp add: Store_mutate_def Store_Get_def lockGroup_def)
    show thesis
    proof (cases "fn (rotate_window q0 now) r now")
      case (Inl er)
      then show thesis using assms eq fails by auto
    next
      case (Inr qr)
      obtain q' r' where "qr = (q', r')" by fastforce
      then have fn: "fn (rotate_window q0 now) r now = Inr (q', r')" using Inr by simp
      then have "(db', res) = commit_quota db q' (put_row r' db) (Inr ())" using assms eq by simp
      then show thesis
        using commits [OF r Some fn] fails
        by (simp add: commit_quota_def saveQuota_def split: if_splits)
    qed
  qed
qed

context mutation_law
begin

lemma mutate_balances:
  assumes pre: pre and inv: "quota_inv db" and q0: "map_of (qd_Quotas db) (rv_CredentialGroup r) = Some q0"
    and r: "r \<in> set (qd_Reservations db)"
    and ok: "fn (rotate_window q0 now) r now = Inr (q', r')"
    and gen: "0 < qr_WindowGeneration q'"
  shows "quota_inv (put_quota q' (put_row r' db))"
proof -
  let ?q = "rotate_window q0 now" and ?rows = "qd_Reservations db"
  let ?new = "map (\<lambda>x. if row_key x = row_key r' then r' else x) ?rows"
  have rows: "distinct (map row_key ?rows)" "\<forall>r\<in>set ?rows. row_ok r"
    using inv by (auto simp: quota_inv_def)
  have g: "qr_CredentialGroup ?q = rv_CredentialGroup r" using quota_invD(1) [OF inv q0] by simp
  have bal: "balanced ?rows ?q"
    using rotate_balanced quota_invD(2) [OF inv q0] gen frame [OF ok] by simp
  note law = law [OF pre ok balanced_locked [OF bal rows(2) r g [symmetric]]]
  have rep: "row_total w h ?new = row_total w h ?rows + (if rv_CredentialGroup r = h then w r' - w r else 0)" for w h
    using total_replace [OF rows(1) r, of r' w h] law by simp
  have keys: "row_key ` {x \<in> set ?new. rv_CredentialGroup x = h} = row_key ` {x \<in> set ?rows. rv_CredentialGroup x = h}" for h
    using group_keys_replace [OF r rows(1), of r' h] law by simp
  have "probe_ok (qr_ProbeTenantID q') (qr_ProbeAttemptID q') (qr_CredentialGroup q') ?rows"
    using probe_kept_ok [of ?q q'] bal law by (simp add: balanced_def)
  then have "probe_ok (qr_ProbeTenantID q') (qr_ProbeAttemptID q') (qr_CredentialGroup q') ?new"
    by (rule probe_ok_keys [rotated]) (simp only: keys subset_refl)
  then have new: "balanced ?new q'"
    using bal law g unfolding balanced_def rep by simp
  have other: "balanced ?new x" if "(h, x) \<in> set (qd_Quotas db)" "h \<noteq> rv_CredentialGroup r" for h x
  proof (rule balanced_other [of ?rows])
    have h: "qr_CredentialGroup x = h" using that(1) inv by (auto simp: quota_inv_def)
    show "balanced ?rows x" using that(1) inv by (auto simp: quota_inv_def)
    show "row_total w (qr_CredentialGroup x) ?new = row_total w (qr_CredentialGroup x) ?rows" for w
      unfolding rep h using that(2) by simp
  qed (simp only: keys)
  have "\<forall>r\<in>set ?new. row_ok r" using rows(2) law by auto
  moreover have "map row_key ?new = map row_key ?rows"
    using keys_replace [of r' r ?rows] law by simp
  moreover have "\<forall>(h, x)\<in>set (map (\<lambda>(h, x). if h = qr_CredentialGroup q' then (h, q') else (h, x)) (qd_Quotas db)).
     qr_CredentialGroup x = h \<and> balanced ?new x"
    using inv q0 law g new other by (intro put_quota_inv [where g = "rv_CredentialGroup r" and q = q0]) (auto simp: quota_inv_def)
  moreover have "map fst (map (\<lambda>(h, x). if h = qr_CredentialGroup q' then (h, q') else (h, x)) (qd_Quotas db)) = map fst (qd_Quotas db)"
    by auto
  ultimately show ?thesis
    using inv rows(1) by (simp add: quota_inv_def put_quota_def put_row_key del: map_map list.map_comp)
qed

lemma mutate_inv:
  assumes "quota_inv db" and "Store_mutate db now t i fn = (db', res)" and pre
  shows "quota_inv db'"
  using assms(2)
proof (cases rule: Store_mutate_cases)
  case (commits r q0 q' r')
  then show ?thesis
    using mutate_balances [OF assms(3,1) commits(2) find_rowD(1) [OF commits(1)] commits(3)]
    by (simp add: quota_checks_def)
qed (use assms(1) in simp)

end


subsection \<open>Every mutation of the store obeys the contract\<close>

lemma reopen_frame [simp]:
  "qr_CredentialGroup (reopen q now) = qr_CredentialGroup q"
  "qr_ActiveRequests (reopen q now) = qr_ActiveRequests q"
  "qr_ReservedTokens (reopen q now) = qr_ReservedTokens q"
  "qr_ReservedCost (reopen q now) = qr_ReservedCost q"
  "qr_WindowGeneration (reopen q now) = qr_WindowGeneration q"
  "qr_MaxTokens (reopen q now) = qr_MaxTokens q" "qr_MaxCost (reopen q now) = qr_MaxCost q"
  "qr_CommittedTokens (reopen q now) = qr_CommittedTokens q"
  "qr_CommittedCost (reopen q now) = qr_CommittedCost q"
  "qr_ProbeTenantID (reopen q now) = None" "qr_ProbeAttemptID (reopen q now) = None"
  "quota_typed q \<Longrightarrow> quota_typed (reopen q now)" "probe_kept q' (reopen q now)"
  by (simp_all add: reopen_def quota_typed_def probe_kept_def)

lemma reopen_balanced: "balanced rows q \<Longrightarrow> balanced rows (reopen q now)"
  by (simp add: balanced_def)

lemma probe_kept_refl [simp]: "probe_kept q q"
  by (simp add: probe_kept_def)

lemma kept_row_worth [simp]:
  "slot (r\<lparr>rv_DispatchedAt := d\<rparr>) = slot r" "open_tokens (r\<lparr>rv_DispatchedAt := d\<rparr>) = open_tokens r"
  "open_cost (r\<lparr>rv_DispatchedAt := d\<rparr>) = open_cost r" "row_key (r\<lparr>rv_DispatchedAt := d\<rparr>) = row_key r"
  "row_ok (r\<lparr>rv_DispatchedAt := d\<rparr>) = row_ok r"
  "slot (r\<lparr>rv_Outcome := x\<rparr>) = slot r" "open_tokens (r\<lparr>rv_Outcome := x\<rparr>) = open_tokens r"
  "open_cost (r\<lparr>rv_Outcome := x\<rparr>) = open_cost r" "row_key (r\<lparr>rv_Outcome := x\<rparr>) = row_key r"
  "row_ok (r\<lparr>rv_Outcome := x\<rparr>) = row_ok r"
  by (simp_all add: slot_def open_tokens_def open_cost_def row_key_def row_ok_def)

interpretation dispatch: mutation_law True dispatch_mutation
  by unfold_locales (auto simp: dispatch_mutation_def locked_ok_def split: if_splits)

interpretation unknown: mutation_law True unknown_mutation
  by unfold_locales
    (auto simp: unknown_mutation_def locked_ok_def slot_def open_tokens_def open_cost_def
      row_key_def row_ok_def split: if_splits)

interpretation complete: mutation_law True complete_unknown_mutation
  by unfold_locales
    (auto simp: complete_unknown_mutation_def locked_ok_def slot_def open_tokens_def open_cost_def
      row_key_def row_ok_def quota_typed_def probe_kept_def split: if_splits)

lemma circuit_outcome_frame:
  "qr_CredentialGroup (circuit_outcome x p q now) = qr_CredentialGroup q"
  "qr_ActiveRequests (circuit_outcome x p q now) = qr_ActiveRequests q"
  "qr_ReservedTokens (circuit_outcome x p q now) = qr_ReservedTokens q"
  "qr_ReservedCost (circuit_outcome x p q now) = qr_ReservedCost q"
  "qr_WindowGeneration (circuit_outcome x p q now) = qr_WindowGeneration q"
  "probe_kept q (circuit_outcome x p q now)"
  by (simp_all add: circuit_outcome_def Let_def) (simp_all add: probe_kept_def)

lemma circuit_outcome_typed:
  assumes "quota_typed q"
  shows "quota_typed (circuit_outcome x p q now)"
proof -
  have "quota_typed (q\<lparr>qr_ConsecutiveFailures := qr_ConsecutiveFailures q + 1\<rparr>)"
    "quota_typed (q\<lparr>qr_ConsecutiveFailures := 0, qr_BreakerUntil := None,
        qr_ProbeTenantID := None, qr_ProbeAttemptID := None\<rparr>)"
    using assms by (simp_all add: quota_typed_def)
  then show ?thesis using assms by (simp add: circuit_outcome_def Let_def)
qed

lemma outcome_mutation_cases:
  assumes "outcome_mutation x q r now = Inr (q', r')"
  obtains "q' = q" "r' = r"
  | "q' = circuit_outcome x (ownsProbe q r) q now" "r' = r\<lparr>rv_Outcome := Some x\<rparr>"
proof (cases "rv_Outcome r")
  case None
  then show thesis using assms that(2) by (simp add: outcome_mutation_def split: if_splits)
next
  case (Some old)
  then show thesis using assms that(1) by (simp add: outcome_mutation_def split: if_splits)
qed

interpretation outcome: mutation_law True "outcome_mutation x" for x
proof unfold_locales
  show "row_key r' = row_key r \<and> rv_CredentialGroup r' = rv_CredentialGroup r \<and> row_ok r'
      \<and> qr_CredentialGroup q' = qr_CredentialGroup q
      \<and> qr_ActiveRequests q' = qr_ActiveRequests q + (slot r' - slot r)
      \<and> qr_ReservedTokens q' = qr_ReservedTokens q + (open_tokens r' - open_tokens r)
      \<and> qr_ReservedCost q' = qr_ReservedCost q + (open_cost r' - open_cost r)
      \<and> quota_typed q' \<and> probe_kept q q'"
    if "outcome_mutation x q r now = Inr (q', r')" "locked_ok q r" for q r now q' r'
    using that(1) by (rule outcome_mutation_cases)
      (use that(2) circuit_outcome_frame circuit_outcome_typed in \<open>auto simp: locked_ok_def\<close>)
qed (erule outcome_mutation_cases, simp_all add: circuit_outcome_frame)

definition settlement_int64 :: "settlement \<Rightarrow> bool" where
  "settlement_int64 a \<longleftrightarrow> 0 \<le> se_Tokens a \<and> se_Tokens a \<le> max_int64 \<and> 0 \<le> se_Cost a \<and> se_Cost a \<le> max_int64"

lemma settle_fresh:
  assumes ok: "settle_mutation a kind q r now = Inr (q', r')" and "locked_ok q r"
    and "settlement_int64 a" and open_row: "rv_Status r \<noteq> RsSettled"
  shows "qr_CredentialGroup q' = qr_CredentialGroup q"
    "qr_ActiveRequests q' = qr_ActiveRequests q - slot r"
    "qr_ReservedTokens q' = qr_ReservedTokens q - rv_Tokens r"
    "qr_ReservedCost q' = qr_ReservedCost q - rv_Cost r"
    "qr_CommittedTokens q' = qr_CommittedTokens q + se_Tokens a"
    "qr_CommittedCost q' = qr_CommittedCost q + se_Cost a"
    "quota_typed q'" "probe_kept q q'"
    "r' = r\<lparr>rv_Status := RsSettled, rv_ActualTokens := Some (se_Tokens a),
            rv_ActualCost := Some (se_Cost a), rv_SettlementKind := Some kind, rv_SlotReleased := True\<rparr>"
proof -
  have typed: "quota_typed q" "0 \<le> rv_Tokens r" "0 \<le> rv_Cost r"
    "rv_Tokens r \<le> qr_ReservedTokens q" "rv_Cost r \<le> qr_ReservedCost q"
    using assms(2) open_row by (auto simp: locked_ok_def row_ok_def open_tokens_def open_cost_def)
  have wraps: "wrap64 (max_int64 - qr_CommittedTokens q) = max_int64 - qr_CommittedTokens q"
    "wrap64 (qr_ReservedTokens q - rv_Tokens r) = qr_ReservedTokens q - rv_Tokens r"
    "wrap64 (qr_ReservedCost q - rv_Cost r) = qr_ReservedCost q - rv_Cost r"
    using typed by (auto intro!: wrap64_id simp: quota_typed_def int64_defs)
  obtain cost where c: "Money_Add (qr_CommittedCost q) (se_Cost a) = Inr cost"
      and g: "se_Tokens a \<le> max_int64 - qr_CommittedTokens q"
    using ok open_row by (auto simp: settle_mutation_def wraps not_less split: if_splits sum.splits)
  have cost: "cost = qr_CommittedCost q + se_Cost a" "cost \<le> max_int64" "0 \<le> cost"
    using Money_Add_Inr [OF c] typed(1) assms(3)
    by (auto simp: quota_typed_def settlement_int64_def int64_defs)
  have tok: "wrap64 (qr_CommittedTokens q + se_Tokens a) = qr_CommittedTokens q + se_Tokens a"
    using typed g assms(3) by (auto intro!: wrap64_id simp: quota_typed_def settlement_int64_def int64_defs)
  define q2 where "q2 = q\<lparr>qr_ReservedTokens := qr_ReservedTokens q - rv_Tokens r,
      qr_ReservedCost := qr_ReservedCost q - rv_Cost r,
      qr_CommittedTokens := qr_CommittedTokens q + se_Tokens a, qr_CommittedCost := cost,
      qr_ActiveRequests := qr_ActiveRequests q - slot r\<rparr>"
  have q': "q' = q2 \<or> q' = reopen q2 now"
    and r': "r' = r\<lparr>rv_Status := RsSettled, rv_ActualTokens := Some (se_Tokens a),
            rv_ActualCost := Some (se_Cost a), rv_SettlementKind := Some kind, rv_SlotReleased := True\<rparr>"
    using ok open_row c
    by (auto simp: settle_mutation_def wraps tok q2_def slot_def Let_def split: if_splits)
  have q2: "quota_typed q2" "probe_kept q q2"
    using typed g cost assms(3) by (auto simp: q2_def quota_typed_def probe_kept_def settlement_int64_def)
  then have "quota_typed q' \<and> probe_kept q q'" using q' by auto
  then show "quota_typed q'" "probe_kept q q'" by auto
  show "r' = r\<lparr>rv_Status := RsSettled, rv_ActualTokens := Some (se_Tokens a),
            rv_ActualCost := Some (se_Cost a), rv_SettlementKind := Some kind, rv_SlotReleased := True\<rparr>"
    by (rule r')
  show "qr_CredentialGroup q' = qr_CredentialGroup q"
    "qr_ActiveRequests q' = qr_ActiveRequests q - slot r"
    "qr_ReservedTokens q' = qr_ReservedTokens q - rv_Tokens r"
    "qr_ReservedCost q' = qr_ReservedCost q - rv_Cost r"
    "qr_CommittedTokens q' = qr_CommittedTokens q + se_Tokens a"
    "qr_CommittedCost q' = qr_CommittedCost q + se_Cost a"
    using q' by (auto simp: q2_def cost)
qed

interpretation settle: mutation_law "settlement_int64 a" "settle_mutation a kind" for a kind
proof unfold_locales
  show "row_key r' = row_key r \<and> rv_CredentialGroup r' = rv_CredentialGroup r \<and> row_ok r'
      \<and> qr_CredentialGroup q' = qr_CredentialGroup q
      \<and> qr_ActiveRequests q' = qr_ActiveRequests q + (slot r' - slot r)
      \<and> qr_ReservedTokens q' = qr_ReservedTokens q + (open_tokens r' - open_tokens r)
      \<and> qr_ReservedCost q' = qr_ReservedCost q + (open_cost r' - open_cost r)
      \<and> quota_typed q' \<and> probe_kept q q'"
    if "settlement_int64 a" "settle_mutation a kind q r now = Inr (q', r')" "locked_ok q r"
    for q r now q' r'
  proof (cases "rv_Status r = RsSettled")
    case True
    then have "q' = q" "r' = r" using that(2) by (auto simp: settle_mutation_def split: if_splits)
    then show ?thesis using that(3) by (simp add: locked_ok_def)
  next
    case False
    note f = settle_fresh [OF that(2,3,1) False]
    then show ?thesis
      using that(3) False
      by (auto simp: row_key_def row_ok_def slot_def open_tokens_def open_cost_def locked_ok_def)
  qed
  show "qr_WindowGeneration q' = qr_WindowGeneration q \<and> row_key r' = row_key r
      \<and> rv_CredentialGroup r' = rv_CredentialGroup r"
    if "settle_mutation a kind q r now = Inr (q', r')" for q r now q' r'
    using that by (auto simp: settle_mutation_def Let_def reopen_def row_key_def
        split: if_splits sum.splits)
qed



subsection \<open>Expiring request slots\<close>

lemma clear_probe_eq:
  "clear_probe rs q now = (if list_ex (ownsProbe q) rs then reopen q now else q)"
proof (induction rs arbitrary: q)
  case (Cons r rs)
  have "\<not> ownsProbe (reopen q now) x" for x by (simp add: ownsProbe_def reopen_def)
  then have "\<not> list_ex (ownsProbe (reopen q now)) rs" by (simp add: list_ex_iff)
  then show ?case using Cons [of "reopen q now"] Cons [of q] by simp
qed simp

definition expire_rows :: "string \<Rightarrow> gotime \<Rightarrow> reservation list \<Rightarrow> reservation list" where
  "expire_rows g now rows = map (\<lambda>r. if expiring g now r then expire_row r else r) rows"

lemma expire_row_frame [simp]:
  "row_key (expire_row r) = row_key r" "rv_CredentialGroup (expire_row r) = rv_CredentialGroup r"
  "open_tokens (expire_row r) = open_tokens r" "open_cost (expire_row r) = open_cost r"
  "row_ok r \<Longrightarrow> row_ok (expire_row r)" "slot (expire_row r) = 0"
  "rv_SlotReleased (expire_row r)" "rv_DispatchedAt (expire_row r) = rv_DispatchedAt r"
  "rv_SettlementKind (expire_row r) = rv_SettlementKind r"
  "rv_Tokens (expire_row r) = rv_Tokens r" "rv_Cost (expire_row r) = rv_Cost r"
  by (simp_all add: expire_row_def row_key_def open_tokens_def open_cost_def row_ok_def slot_def)

lemma expire_rows_total:
  "row_total open_tokens h (expire_rows g now rows) = row_total open_tokens h rows"
  "row_total open_cost h (expire_rows g now rows) = row_total open_cost h rows"
  "row_total slot h (expire_rows g now rows)
     = row_total slot h rows - (if h = g then int (length (filter (expiring g now) rows)) else 0)"
  by (induction rows) (auto simp: expire_rows_def expiring_def slot_def)

lemma expire_rows_other: "h \<noteq> g \<Longrightarrow> row_total w h (expire_rows g now rows) = row_total w h rows"
  by (induction rows) (auto simp: expire_rows_def expiring_def)

lemma expire_rows_keys [simp]: "map row_key (expire_rows g now rows) = map row_key rows"
  by (simp add: expire_rows_def)

lemma expire_rows_group_keys:
  "row_key ` {r \<in> set (expire_rows g now rows). rv_CredentialGroup r = h}
     = row_key ` {r \<in> set rows. rv_CredentialGroup r = h}"
proof -
  have "row_key ` {r \<in> set (expire_rows g now rows). rv_CredentialGroup r = h}
      = (\<lambda>r. row_key (if expiring g now r then expire_row r else r)) `
          {r \<in> set rows. rv_CredentialGroup (if expiring g now r then expire_row r else r) = h}"
    by (auto simp: expire_rows_def)
  also have "\<dots> = row_key ` {r \<in> set rows. rv_CredentialGroup r = h}"
    by (intro image_cong) auto
  finally show ?thesis .
qed

lemma expire_rows_ok: "\<forall>r\<in>set rows. row_ok r \<Longrightarrow> \<forall>r\<in>set (expire_rows g now rows). row_ok r"
  by (auto simp: expire_rows_def)

text \<open>
  The two maintenance steps of a transaction, rotation and expiry, keep the ledger balanced
  and never lose the probe's row.
\<close>

lemma expireSlots_cases:
  assumes "expireSlots db q now = Inr (db1, q', n)"
  shows "db1 = db\<lparr>qd_Reservations := expire_rows (qr_CredentialGroup q) now (qd_Reservations db)\<rparr>"
    and "n = length (filter (expiring (qr_CredentialGroup q) now) (qd_Reservations db))"
    and "q' = q\<lparr>qr_ActiveRequests := qr_ActiveRequests q - int n\<rparr>
       \<or> q' = reopen (q\<lparr>qr_ActiveRequests := qr_ActiveRequests q - int n\<rparr>) now"
proof -
  let ?n = "length (filter (expiring (qr_CredentialGroup q) now) (qd_Reservations db))"
  let ?db1 = "db\<lparr>qd_Reservations := expire_rows (qr_CredentialGroup q) now (qd_Reservations db)\<rparr>"
  let ?q1 = "clear_probe (filter (expiring (qr_CredentialGroup q) now) (qd_Reservations db)) q now"
  let ?q2 = "?q1\<lparr>qr_ActiveRequests := qr_ActiveRequests ?q1 - int ?n\<rparr>"
  have "db1 = ?db1 \<and> n = ?n \<and> (q' = ?q2 \<or> q' = reopen ?q2 now)"
    using assms unfolding expireSlots_def expire_rows_def Let_def
    by (simp split: option.splits if_splits) auto
  moreover have "?q2 = q\<lparr>qr_ActiveRequests := qr_ActiveRequests q - int ?n\<rparr>
      \<or> ?q2 = reopen (q\<lparr>qr_ActiveRequests := qr_ActiveRequests q - int ?n\<rparr>) now"
    by (simp add: clear_probe_eq reopen_def)
  moreover have "reopen (reopen x now) now = reopen x now" for x by (simp add: reopen_def)
  ultimately show "db1 = ?db1" "n = ?n"
    "q' = q\<lparr>qr_ActiveRequests := qr_ActiveRequests q - int n\<rparr>
       \<or> q' = reopen (q\<lparr>qr_ActiveRequests := qr_ActiveRequests q - int n\<rparr>) now" by auto
qed

lemma expireSlots_balanced:
  assumes "expireSlots db q now = Inr (db1, q', n)" and "balanced (qd_Reservations db) q"
  shows "balanced (qd_Reservations db1) q'" and "qr_CredentialGroup q' = qr_CredentialGroup q"
    and "qr_WindowGeneration q' = qr_WindowGeneration q"
proof -
  note e = expireSlots_cases [OF assms(1)]
  let ?rows = "qd_Reservations db"
  let ?new = "expire_rows (qr_CredentialGroup q) now ?rows"
  let ?q = "q\<lparr>qr_ActiveRequests := qr_ActiveRequests q - int n\<rparr>"
  have "probe_ok (qr_ProbeTenantID q) (qr_ProbeAttemptID q) (qr_CredentialGroup q) ?new"
    using assms(2) probe_ok_keys [of ?rows "qr_CredentialGroup q" ?new] expire_rows_group_keys
    by (simp add: balanced_def)
  then have bal: "balanced ?new ?q"
    using assms(2) e(2) by (simp add: balanced_def expire_rows_total quota_typed_def)
  moreover have "balanced ?new (reopen ?q now)" by (rule reopen_balanced [OF bal])
  ultimately show "balanced (qd_Reservations db1) q'" using e by auto
  show "qr_CredentialGroup q' = qr_CredentialGroup q" "qr_WindowGeneration q' = qr_WindowGeneration q"
    using e(3) by auto
qed

lemma balanced_probe_found:
  assumes "balanced (qd_Reservations db) q" and "qr_ProbeTenantID q = Some t" and "qr_ProbeAttemptID q = Some i"
  shows "find_row t i db \<noteq> None"
  using assms by (auto simp: balanced_def find_row_None)


subsection \<open>Committing a group row\<close>

text \<open>
  A transaction that ends with \<open>commit_quota\<close> keeps the ledger when its group row balances the
  new rows and the totals and keys of the other groups are unchanged.
\<close>

lemma put_quota_keeps:
  assumes inv: "quota_inv db" and q0: "map_of (qd_Quotas db) g = Some q0"
    and q: "qr_CredentialGroup q = g" "balanced (qd_Reservations db1) q"
    and quotas: "qd_Quotas db1 = qd_Quotas db"
    and rows: "distinct (map row_key (qd_Reservations db1))" "\<forall>r\<in>set (qd_Reservations db1). row_ok r"
    and other: "\<And>h x. (h, x) \<in> set (qd_Quotas db) \<Longrightarrow> h \<noteq> g \<Longrightarrow> balanced (qd_Reservations db1) x"
  shows "quota_inv (put_quota q db1)"
proof -
  have "\<forall>(h, x)\<in>set (map (\<lambda>(h, x). if h = qr_CredentialGroup q then (h, q) else (h, x)) (qd_Quotas db)).
     qr_CredentialGroup x = h \<and> balanced (qd_Reservations db1) x"
    using inv q other by (intro put_quota_inv [OF _ q0]) (auto simp: quota_inv_def)
  moreover have "map fst (map (\<lambda>(h, x). if h = qr_CredentialGroup q then (h, q) else (h, x)) (qd_Quotas db))
      = map fst (qd_Quotas db)" by auto
  ultimately show ?thesis
    using inv rows by (simp add: quota_inv_def put_quota_def quotas del: map_map list.map_comp)
qed

lemma maintained:
  assumes inv: "quota_inv db" and lock: "lockGroup db now g = Inr q0"
    and ex: "expireSlots db q0 now = Inr (db1, q, n)" and gen: "0 < qr_WindowGeneration q"
  shows "balanced (qd_Reservations db1) q" "qr_CredentialGroup q = g" "qd_Quotas db1 = qd_Quotas db"
    "distinct (map row_key (qd_Reservations db1))" "\<forall>r\<in>set (qd_Reservations db1). row_ok r"
    "(h, x) \<in> set (qd_Quotas db) \<Longrightarrow> h \<noteq> g \<Longrightarrow> balanced (qd_Reservations db1) x"
proof -
  obtain p where p: "map_of (qd_Quotas db) g = Some p" "q0 = rotate_window p now"
    using lock by (auto simp: lockGroup_def split: option.splits)
  note e = expireSlots_cases [OF ex]
  have g: "qr_CredentialGroup q0 = g" using quota_invD(1) [OF inv p(1)] p(2) by simp
  have rows1: "qd_Reservations db1 = expire_rows g now (qd_Reservations db)" using e(1) g by simp
  have bal0: "balanced (qd_Reservations db) q0"
    using rotate_balanced quota_invD(2) [OF inv p(1)] p(2) gen e(3) by auto
  show "balanced (qd_Reservations db1) q" "qr_CredentialGroup q = g"
    using expireSlots_balanced [OF ex bal0] g by simp_all
  show "qd_Quotas db1 = qd_Quotas db" using e(1) by simp
  show "distinct (map row_key (qd_Reservations db1))" "\<forall>r\<in>set (qd_Reservations db1). row_ok r"
    using inv e(1) expire_rows_ok by (auto simp: quota_inv_def)
  show "balanced (qd_Reservations db1) x" if "(h, x) \<in> set (qd_Quotas db)" "h \<noteq> g" for h x
  proof (rule balanced_other [of "qd_Reservations db"])
    have h: "qr_CredentialGroup x = h" using that(1) inv by (auto simp: quota_inv_def)
    show "balanced (qd_Reservations db) x" using that(1) inv by (auto simp: quota_inv_def)
    show "row_total w (qr_CredentialGroup x) (qd_Reservations db1)
        = row_total w (qr_CredentialGroup x) (qd_Reservations db)" for w
      using that(2) h expire_rows_other [of h g] by (simp add: rows1)
  qed (simp only: rows1 expire_rows_group_keys)
qed


subsection \<open>Admission\<close>

lemma admission_bounds:
  assumes "admission_denied q now tokens cost = None" and "quota_typed q"
    and "0 \<le> qr_ReservedTokens q" and "0 \<le> qr_ReservedCost q"
  shows "qr_ActiveRequests q < qr_MaxConcurrent q"
    and "qr_CommittedTokens q + qr_ReservedTokens q + tokens \<le> qr_MaxTokens q"
    and "qr_CommittedCost q + qr_ReservedCost q + cost \<le> qr_MaxCost q"
    and "qr_BreakerUntil q = None \<or> qr_ProbeAttemptID q = None"
proof -
  let ?budget = "\<lambda>lim c r t. lim < c \<or> wrap64 (lim - c) < r \<or> wrap64 (wrap64 (lim - c) - r) < t"
  have within: "c + r + t \<le> lim" if "\<not> ?budget lim c r t" "0 \<le> c" "0 \<le> r" "lim \<le> max_int64" for lim c r t
  proof -
    have a: "wrap64 (lim - c) = lim - c" using that by (intro wrap64_id) (auto simp: int64_defs)
    have "wrap64 (lim - c - r) = lim - c - r" using that a by (intro wrap64_id) (auto simp: int64_defs)
    then show ?thesis using that a by auto
  qed
  from assms(1) have d: "qr_ActiveRequests q < qr_MaxConcurrent q"
    "\<not> ?budget (qr_MaxTokens q) (qr_CommittedTokens q) (qr_ReservedTokens q) tokens"
    "\<not> ?budget (qr_MaxCost q) (qr_CommittedCost q) (qr_ReservedCost q) cost"
    "qr_BreakerUntil q = None \<or> qr_ProbeAttemptID q = None"
    by (auto simp: admission_denied_def Let_def split: if_splits option.splits)
  show "qr_ActiveRequests q < qr_MaxConcurrent q" "qr_BreakerUntil q = None \<or> qr_ProbeAttemptID q = None"
    by (rule d)+
  show "qr_CommittedTokens q + qr_ReservedTokens q + tokens \<le> qr_MaxTokens q"
    "qr_CommittedCost q + qr_ReservedCost q + cost \<le> qr_MaxCost q"
    using within [OF d(2)] within [OF d(3)] assms(2-4) by (auto simp: quota_typed_def)
qed

text \<open>The Go types of a request and of a configuration.\<close>

definition request_int64 :: "quota_request \<Rightarrow> bool" where
  "request_int64 r \<longleftrightarrow> in_int64 (rq_InputTokens r) \<and> in_int64 (rq_MaxOutputTokens r) \<and> in_int64 (rq_MaxCost r)"

lemma normalized_facts:
  assumes "Request_normalized rhash request = Inr (req, tokens, hash)" and "request_int64 request"
  shows "0 \<le> tokens" "tokens = rq_InputTokens request + rq_MaxOutputTokens request"
    "0 \<le> rq_MaxCost req" "rq_MaxCost req = rq_MaxCost request"
    "req = request\<lparr>rq_RequestDeadline := truncate_us (rq_RequestDeadline request)\<rparr>" "hash = rhash req"
  using assms wrap64_id [of "max_int64 - rq_MaxOutputTokens request"]
    wrap64_id [of "rq_InputTokens request + rq_MaxOutputTokens request"]
  by (auto simp: Request_normalized_def request_int64_def int64_defs Let_def split: if_splits)

lemma Store_Reserve_cases:
  assumes "Store_Reserve rhash rex db now request = (db', res)"
  obtains (fails) er where "db' = db" "res = Inl er"
  | (locked) req tokens hash q0 db1 q n where
      "Request_normalized rhash request = Inr (req, tokens, hash)"
      "lockGroup db now (rq_CredentialGroup req) = Inr q0"
      "expireSlots db q0 now = Inr (db1, q, n)"
      "(find_row (rq_TenantID req) (rq_AttemptID req) db1 \<noteq> None \<or> (\<exists>er. res = Inl er))
        \<and> quota_checks q \<and> db' = put_quota q db1
       \<or> find_row (rq_TenantID req) (rq_AttemptID req) db1 = None
        \<and> admission_denied q now tokens (rq_MaxCost req) = None
        \<and> now < rq_RequestDeadline req
        \<and> quota_checks (admitted q req tokens)
        \<and> res = Inr (new_reservation req tokens hash (qr_WindowGeneration q))
        \<and> db' = put_quota (admitted q req tokens) (db1\<lparr>qd_Reservations :=
              new_reservation req tokens hash (qr_WindowGeneration q) # qd_Reservations db1\<rparr>)"
proof (cases "Request_normalized rhash request")
  case (Inl er)
  then show thesis using assms fails by (auto simp: Store_Reserve_def)
next
  case (Inr x)
  obtain req tokens hash where x: "Request_normalized rhash request = Inr (req, tokens, hash)"
    using Inr by (cases x) auto
  show thesis
  proof (cases "lockGroup db now (rq_CredentialGroup req)")
    case (Inl er)
    then show thesis using assms fails x by (auto simp: Store_Reserve_def)
  next
    case (Inr q0)
    note q0 = Inr
    show thesis
    proof (cases "expireSlots db q0 now")
      case (Inl er)
      then show thesis using assms fails x q0 by (auto simp: Store_Reserve_def)
    next
      case (Inr y)
      obtain db1 q n where y: "expireSlots db q0 now = Inr (db1, q, n)" using Inr by (cases y) auto
      show thesis
        using assms fails locked [OF x q0 y]
        by (cases "find_row (rq_TenantID req) (rq_AttemptID req) db1";
            cases "admission_denied q now tokens (rq_MaxCost req)")
          (auto simp: Store_Reserve_def x q0 y commit_quota_def saveQuota_def Let_def split: if_splits)
    qed
  qed
qed

end
