(* ===== verification/Quota_Correct.thy ===== *)
theory Quota_Correct
  imports Quota_Accounting
begin

section \<open>Correctness of the quota store\<close>

text \<open>
  Executions of the store: any interleaving of its transactions, each with the clock value it
  read after locking its group. The arguments are the \<open>int64\<close> values the Go types allow.
\<close>

subsection \<open>Operations keep the ledger\<close>

lemma admitted_frame [simp]:
  "qr_CredentialGroup (admitted q r tokens) = qr_CredentialGroup q"
  "qr_ActiveRequests (admitted q r tokens) = qr_ActiveRequests q + 1"
  "qr_ReservedTokens (admitted q r tokens) = wrap64 (qr_ReservedTokens q + tokens)"
  "qr_ReservedCost (admitted q r tokens) = wrap64 (qr_ReservedCost q + rq_MaxCost r)"
  "qr_WindowGeneration (admitted q r tokens) = qr_WindowGeneration q"
  "qr_MaxConcurrent (admitted q r tokens) = qr_MaxConcurrent q"
  "qr_MaxTokens (admitted q r tokens) = qr_MaxTokens q"
  "qr_MaxCost (admitted q r tokens) = qr_MaxCost q"
  "qr_CommittedTokens (admitted q r tokens) = qr_CommittedTokens q"
  "qr_CommittedCost (admitted q r tokens) = qr_CommittedCost q"
  "qr_BreakerUntil (admitted q r tokens) = qr_BreakerUntil q"
  by (simp_all add: admitted_def Let_def)

lemma new_reservation_worth [simp]:
  "row_key (new_reservation r tokens hash gen) = (rq_TenantID r, rq_AttemptID r)"
  "rv_CredentialGroup (new_reservation r tokens hash gen) = rq_CredentialGroup r"
  "slot (new_reservation r tokens hash gen) = 1"
  "open_tokens (new_reservation r tokens hash gen) = tokens"
  "open_cost (new_reservation r tokens hash gen) = rq_MaxCost r"
  by (simp_all add: new_reservation_def row_key_def slot_def open_tokens_def open_cost_def)

lemma reserve_inv:
  assumes inv: "quota_inv db" and "request_int64 request"
    and run: "Store_Reserve rhash rex db now request = (db', res)"
  shows "quota_inv db'"
  using run
proof (cases rule: Store_Reserve_cases)
  case (fails er)
  then show ?thesis using inv by simp
next
  case (locked req tokens hash q0 db1 q n)
  let ?r = "new_reservation req tokens hash (qr_WindowGeneration q)"
  note norm = normalized_facts [OF locked(1) assms(2)]
  obtain p where p: "map_of (qd_Quotas db) (rq_CredentialGroup req) = Some p"
    using locked(2) by (auto simp: lockGroup_def split: option.splits)
  from locked(4) show ?thesis
  proof
    assume a: "(find_row (rq_TenantID req) (rq_AttemptID req) db1 \<noteq> None \<or> (\<exists>er. res = Inl er))
        \<and> quota_checks q \<and> db' = put_quota q db1"
    then have "0 < qr_WindowGeneration q" by (simp add: quota_checks_def)
    note m = maintained [OF inv locked(2,3) this]
    show ?thesis using a put_quota_keeps [OF inv p m(2,1,3,4,5)] m(6) by auto
  next
    assume a: "find_row (rq_TenantID req) (rq_AttemptID req) db1 = None
        \<and> admission_denied q now tokens (rq_MaxCost req) = None
        \<and> now < rq_RequestDeadline req
        \<and> quota_checks (admitted q req tokens)
        \<and> res = Inr ?r
        \<and> db' = put_quota (admitted q req tokens) (db1\<lparr>qd_Reservations := ?r # qd_Reservations db1\<rparr>)"
    then have "0 < qr_WindowGeneration q" by (simp add: quota_checks_def)
    note m = maintained [OF inv locked(2,3) this]
    note nonneg = balanced_nonneg [OF m(1,5)]
    have typed: "quota_typed q" using m(1) by (simp add: balanced_def)
    note adm = admission_bounds [OF _ typed nonneg(2,3), of now tokens "rq_MaxCost req"]
    have wraps: "wrap64 (qr_ReservedTokens q + tokens) = qr_ReservedTokens q + tokens"
        "wrap64 (qr_ReservedCost q + rq_MaxCost req) = qr_ReservedCost q + rq_MaxCost req"
      using adm a typed nonneg norm(1,3) by (auto intro!: wrap64_id simp: quota_typed_def int64_defs)
    have "quota_typed (admitted q req tokens)"
      using typed adm a wraps by (auto simp: admitted_def quota_typed_def Let_def)
    moreover have "probe_ok (qr_ProbeTenantID (admitted q req tokens)) (qr_ProbeAttemptID (admitted q req tokens))
        (rq_CredentialGroup req) (?r # qd_Reservations db1)"
    proof (cases "qr_BreakerUntil q")
      case None
      then have "qr_ProbeTenantID q = None" using typed by (auto simp: quota_typed_def)
      then show ?thesis using None by (simp add: admitted_def Let_def)
    next
      case (Some u)
      have "(rq_TenantID req, rq_AttemptID req) \<in> row_key ` {x \<in> set (?r # qd_Reservations db1).
          rv_CredentialGroup x = rq_CredentialGroup req}"
        by (rule image_eqI [of _ _ ?r]) simp_all
      then show ?thesis using Some by (simp add: admitted_def Let_def)
    qed
    ultimately have bal: "balanced (?r # qd_Reservations db1) (admitted q req tokens)"
      using m(1,2) wraps by (simp add: balanced_def)
    have "quota_inv (put_quota (admitted q req tokens) (db1\<lparr>qd_Reservations := ?r # qd_Reservations db1\<rparr>))"
    proof (rule put_quota_keeps [OF inv p])
      show "qr_CredentialGroup (admitted q req tokens) = rq_CredentialGroup req"
        using m(2) by simp
      show "distinct (map row_key (qd_Reservations (db1\<lparr>qd_Reservations := ?r # qd_Reservations db1\<rparr>)))"
        using m(4) a by (simp add: find_row_None)
      show "\<forall>r\<in>set (qd_Reservations (db1\<lparr>qd_Reservations := ?r # qd_Reservations db1\<rparr>)). row_ok r"
        using m(5) norm by (simp add: row_ok_def new_reservation_def)
      show "balanced (qd_Reservations (db1\<lparr>qd_Reservations := ?r # qd_Reservations db1\<rparr>)) x"
        if "(h, x) \<in> set (qd_Quotas db)" "h \<noteq> rq_CredentialGroup req" for h x
      proof (rule balanced_other [of "qd_Reservations db1"])
        have h: "qr_CredentialGroup x = h" using that(1) inv by (auto simp: quota_inv_def)
        show "balanced (qd_Reservations db1) x" by (rule m(6) [OF that])
        show "row_total w (qr_CredentialGroup x) (qd_Reservations (db1\<lparr>qd_Reservations := ?r # qd_Reservations db1\<rparr>))
            = row_total w (qr_CredentialGroup x) (qd_Reservations db1)" for w
          using that(2) h by simp
      qed auto
    qed (use bal m(3) in simp_all)
    then show ?thesis using a by simp
  qed
qed

definition config_int64 :: "quota_config \<Rightarrow> bool" where
  "config_int64 c \<longleftrightarrow> in_int64 (qc_MaxTokens c) \<and> in_int64 (qc_MaxCost c)"

lemma expire_inv:
  assumes inv: "quota_inv db" and run: "Store_ExpireRequestSlots db now g = (db', res)"
  shows "quota_inv db'"
proof (cases "db' = db")
  case True
  then show ?thesis using inv by simp
next
  case False
  with run obtain q0 db1 q n where l: "lockGroup db now g = Inr q0"
      and e: "expireSlots db q0 now = Inr (db1, q, n)" and c: "quota_checks q" "db' = put_quota q db1"
    by (auto simp: Store_ExpireRequestSlots_def commit_quota_def saveQuota_def
        split: sum.splits prod.splits if_splits)
  obtain p where p: "map_of (qd_Quotas db) g = Some p"
    using l by (auto simp: lockGroup_def split: option.splits)
  have "0 < qr_WindowGeneration q" using c(1) by (simp add: quota_checks_def)
  note m = maintained [OF inv l e this]
  show ?thesis using put_quota_keeps [OF inv p m(2,1,3,4,5)] m(6) c(2) by auto
qed

text \<open>The foreign key from a reservation to its group.\<close>

definition row_groups :: "quota_db \<Rightarrow> string set" where
  "row_groups db = rv_CredentialGroup ` set (qd_Reservations db)"

definition quota_groups :: "quota_db \<Rightarrow> string set" where
  "quota_groups db = fst ` set (qd_Quotas db)"

definition groups_known :: "quota_db \<Rightarrow> bool" where
  "groups_known db \<longleftrightarrow> row_groups db \<subseteq> quota_groups db"

lemma row_total_absent: "g \<notin> rv_CredentialGroup ` set rows \<Longrightarrow> row_total w g rows = 0"
  by (induction rows) auto

lemma configure_inv:
  assumes inv: "quota_inv db" and c: "config_int64 c" and fk: "groups_known db"
    and run: "Store_Configure db now c = (db', res)"
  shows "quota_inv db'"
proof (cases "res = Inr ()")
  case False
  then have "db' = db" using run by (auto simp: Store_Configure_def split: if_splits option.splits)
  then show ?thesis using inv by simp
next
  case ok: True
  have pos: "0 \<le> qc_MaxTokens c" "0 \<le> qc_MaxCost c"
    using run ok by (auto simp: Store_Configure_def split: if_splits)
  show ?thesis
  proof (cases "map_of (qd_Quotas db) (qc_CredentialGroup c)")
    case None
    then have absent: "qc_CredentialGroup c \<notin> fst ` set (qd_Quotas db)" by (simp add: map_of_eq_None_iff)
    then have "qc_CredentialGroup c \<notin> rv_CredentialGroup ` set (qd_Reservations db)"
      using fk by (auto simp: groups_known_def row_groups_def quota_groups_def)
    then have "balanced (qd_Reservations db) (new_quota_row c now)"
      using c pos by (simp add: balanced_def new_quota_row_def row_total_absent quota_typed_def
          config_int64_def int64_defs)
    moreover have "db' = db\<lparr>qd_Quotas := (qc_CredentialGroup c, new_quota_row c now) # qd_Quotas db\<rparr>"
      using run ok None by (auto simp: Store_Configure_def split: if_splits)
    ultimately show ?thesis
      using inv absent by (auto simp: quota_inv_def new_quota_row_def)
  next
    case (Some q)
    let ?q = "q\<lparr>qr_MaxConcurrent := qc_MaxConcurrent c,
                 qr_MaxTokens := qc_MaxTokens c, qr_MaxCost := qc_MaxCost c,
                 qr_windowDurationMS := qc_WindowDuration c sdiv 1000000,
                 qr_failureThreshold := qc_FailureThreshold c,
                 qr_breakerCooldownMS := qc_BreakerCooldown c sdiv 1000000\<rparr>"
    have "balanced (qd_Reservations db) ?q"
      using quota_invD(2) [OF inv Some] c pos
      by (simp add: balanced_def quota_typed_def config_int64_def int64_defs)
    moreover have "db' = put_quota ?q db"
      using run ok Some by (auto simp: Store_Configure_def split: if_splits)
    ultimately show ?thesis
      using put_quota_keeps [OF inv Some, of ?q db] quota_invD(1) [OF inv Some] inv
      by (auto simp: quota_inv_def)
  qed
qed


subsection \<open>Executions of the store\<close>

datatype quota_op =
    OpConfigure quota_config
  | OpReserve quota_request
  | OpMarkDispatched string string
  | OpMarkUnknown string string
  | OpCompleteWithUnknownUsage string string
  | OpSettle string string settlement
  | OpAbandonBeforeDispatch string string
  | OpRecordOutcome string string string
  | OpExpireRequestSlots string

definition op_error :: "quota_err + 'a \<Rightarrow> quota_err option" where
  "op_error res = (case res of Inl er \<Rightarrow> Some er | Inr _ \<Rightarrow> None)"

fun quota_apply :: "(quota_request \<Rightarrow> string) \<Rightarrow> (string \<Rightarrow> string \<Rightarrow> bool) \<Rightarrow> quota_db \<Rightarrow> gotime
    \<Rightarrow> quota_op \<Rightarrow> quota_db \<times> quota_err option" where
  "quota_apply rhash rex db now (OpConfigure c) = apsnd op_error (Store_Configure db now c)"
| "quota_apply rhash rex db now (OpReserve r) = apsnd op_error (Store_Reserve rhash rex db now r)"
| "quota_apply rhash rex db now (OpMarkDispatched t i) = apsnd op_error (Store_MarkDispatched db now t i)"
| "quota_apply rhash rex db now (OpMarkUnknown t i) = apsnd op_error (Store_MarkUnknown db now t i)"
| "quota_apply rhash rex db now (OpCompleteWithUnknownUsage t i) =
     apsnd op_error (Store_CompleteWithUnknownUsage db now t i)"
| "quota_apply rhash rex db now (OpSettle t i a) = apsnd op_error (Store_Settle db now t i a)"
| "quota_apply rhash rex db now (OpAbandonBeforeDispatch t i) =
     apsnd op_error (Store_AbandonBeforeDispatch db now t i)"
| "quota_apply rhash rex db now (OpRecordOutcome t i x) =
     apsnd op_error (Store_RecordOutcome db now t i x)"
| "quota_apply rhash rex db now (OpExpireRequestSlots g) =
     apsnd op_error (Store_ExpireRequestSlots db now g)"

fun op_int64 :: "quota_op \<Rightarrow> bool" where
  "op_int64 (OpConfigure c) \<longleftrightarrow> config_int64 c"
| "op_int64 (OpReserve r) \<longleftrightarrow> request_int64 r"
| "op_int64 (OpSettle t i a) \<longleftrightarrow> in_int64 (se_Tokens a) \<and> in_int64 (se_Cost a)"
| "op_int64 _ \<longleftrightarrow> True"

definition quota_step :: "(quota_request \<Rightarrow> string) \<Rightarrow> (string \<Rightarrow> string \<Rightarrow> bool) \<Rightarrow> quota_db
    \<Rightarrow> gotime \<times> quota_op \<Rightarrow> quota_err option \<Rightarrow> quota_db \<Rightarrow> bool" where
  "quota_step rhash rex db x er db' \<longleftrightarrow>
     op_int64 (snd x) \<and> quota_apply rhash rex db (fst x) (snd x) = (db', er)"

definition empty_db :: quota_db where
  "empty_db = \<lparr>qd_Quotas = [], qd_Reservations = []\<rparr>"

text \<open>Every transaction either fails without a trace, runs a mutation of one row, or is one of the three others.\<close>

lemma op_error_eq: "apsnd op_error p = (db', er) \<longleftrightarrow> (\<exists>res. p = (db', res) \<and> er = op_error res)"
  by (cases p) auto

lemma quota_apply_inv:
  assumes "quota_inv db" and "groups_known db" and "op_int64 op"
    and "quota_apply rhash rex db now op = (db', er)"
  shows "quota_inv db'"
proof (cases op)
  case (OpConfigure c)
  then show ?thesis using assms configure_inv by (auto simp: op_error_eq)
next
  case (OpReserve r)
  then show ?thesis using assms reserve_inv by (auto simp: op_error_eq)
next
  case (OpMarkDispatched t i)
  then show ?thesis using assms dispatch.mutate_inv by (auto simp: op_error_eq Store_MarkDispatched_def)
next
  case (OpMarkUnknown t i)
  then show ?thesis using assms unknown.mutate_inv by (auto simp: op_error_eq Store_MarkUnknown_def)
next
  case (OpCompleteWithUnknownUsage t i)
  then show ?thesis using assms complete.mutate_inv
    by (auto simp: op_error_eq Store_CompleteWithUnknownUsage_def)
next
  case (OpSettle t i a)
  then show ?thesis using assms settle.mutate_inv
    by (auto simp: op_error_eq Store_Settle_def settlement_int64_def int64_defs split: if_splits)
next
  case (OpAbandonBeforeDispatch t i)
  then show ?thesis using assms settle.mutate_inv
    by (fastforce simp: op_error_eq Store_AbandonBeforeDispatch_def settlement_int64_def int64_defs)
next
  case (OpRecordOutcome t i x)
  then show ?thesis using assms outcome.mutate_inv
    by (auto simp: op_error_eq Store_RecordOutcome_def split: if_splits)
next
  case (OpExpireRequestSlots g)
  then show ?thesis using assms expire_inv by (auto simp: op_error_eq)
qed

subsection \<open>How rows evolve\<close>

text \<open>
  A row is never deleted; its identity, its amounts, the dispatch time, the outcome and a
  settlement are written once.
\<close>

definition row_grows :: "reservation \<Rightarrow> reservation \<Rightarrow> bool" where
  "row_grows r r' \<longleftrightarrow> row_key r' = row_key r \<and> rv_CredentialGroup r' = rv_CredentialGroup r
     \<and> rv_Tokens r' = rv_Tokens r \<and> rv_Cost r' = rv_Cost r \<and> rv_requestHash r' = rv_requestHash r
     \<and> (rv_DispatchedAt r \<noteq> None \<longrightarrow> rv_DispatchedAt r' = rv_DispatchedAt r)
     \<and> (rv_Outcome r \<noteq> None \<longrightarrow> rv_Outcome r' = rv_Outcome r)
     \<and> (rv_Status r = RsSettled \<longrightarrow> rv_Status r' = RsSettled
          \<and> rv_DispatchedAt r' = rv_DispatchedAt r
          \<and> rv_SettlementKind r' = rv_SettlementKind r \<and> rv_ActualTokens r' = rv_ActualTokens r
          \<and> rv_ActualCost r' = rv_ActualCost r)"

lemma row_grows_refl [simp]: "row_grows r r"
  by (simp add: row_grows_def)

lemma mutations_grow:
  "dispatch_mutation q r now = Inr (q', r') \<Longrightarrow> row_grows r r'"
  "unknown_mutation q r now = Inr (q', r') \<Longrightarrow> row_grows r r'"
  "complete_unknown_mutation q r now = Inr (q', r') \<Longrightarrow> row_grows r r'"
  "settle_mutation a kind q r now = Inr (q', r') \<Longrightarrow> row_grows r r'"
  by (auto simp: dispatch_mutation_def unknown_mutation_def complete_unknown_mutation_def
      settle_mutation_def row_grows_def row_key_def Let_def split: if_splits sum.splits)

lemma outcome_grows: "outcome_mutation x q r now = Inr (q', r') \<Longrightarrow> row_grows r r'"
  by (cases "rv_Outcome r")
    (auto simp: outcome_mutation_def row_grows_def row_key_def split: if_splits)

lemma expire_row_grows [simp]: "row_grows r (expire_row r)"
  by (auto simp: row_grows_def expire_row_def row_key_def)

lemma find_map: "List.find P (map f xs) = map_option f (List.find (P \<circ> f) xs)"
  by (induction xs) auto

lemma find_row_map:
  assumes "\<And>r. r \<in> set (qd_Reservations db) \<Longrightarrow> row_key (f r) = row_key r"
  shows "find_row t i (db\<lparr>qd_Reservations := map f (qd_Reservations db)\<rparr>) = map_option f (find_row t i db)"
proof -
  have "List.find (is_row t i \<circ> f) xs = List.find (is_row t i) xs" if "\<And>r. r \<in> set xs \<Longrightarrow> row_key (f r) = row_key r" for xs
    using that by (induction xs) (auto simp: is_row_key)
  then show ?thesis using assms by (simp add: find_row_def find_map)
qed

lemma find_row_put_quota [simp]: "find_row t i (put_quota q db) = find_row t i db"
  by (simp add: find_row_def put_quota_def)

lemma find_row_put_row:
  assumes "find_row t0 i0 db = Some r" and "row_key r' = row_key r"
  shows "find_row t i (put_row r' db) = (if (t, i) = (t0, i0) then Some r' else find_row t i db)"
proof -
  have k: "row_key r = (t0, i0)" using find_rowD(2) [OF assms(1)] .
  have "find_row t i (put_row r' db) = map_option (\<lambda>x. if row_key x = row_key r' then r' else x) (find_row t i db)"
    unfolding put_row_key by (rule find_row_map) auto
  then show ?thesis
    using assms k find_rowD(2) [of t i db] by (cases "find_row t i db") auto
qed

lemma find_row_expire:
  "find_row t i (db\<lparr>qd_Reservations := expire_rows g now (qd_Reservations db)\<rparr>)
     = map_option (\<lambda>r. if expiring g now r then expire_row r else r) (find_row t i db)"
  unfolding expire_rows_def by (rule find_row_map) simp


lemma mutate_rows:
  assumes "Store_mutate db now t0 i0 fn = (db', res)" and "find_row t i db = Some r"
    and key: "\<And>q r q' r'. fn q r now = Inr (q', r') \<Longrightarrow> row_grows r r'"
  shows "if (t, i) = (t0, i0) \<and> op_error res = None
    then \<exists>q q' r'. fn q r now = Inr (q', r') \<and> find_row t i db' = Some r'
    else find_row t i db' = Some r"
  using assms(1)
proof (cases rule: Store_mutate_cases)
  case (fails er)
  then show ?thesis using assms(2) by (simp add: op_error_def)
next
  case (commits r0 q0 q' r')
  have k: "row_key r' = row_key r0" using key [OF commits(3)] by (simp add: row_grows_def)
  show ?thesis
    using commits assms(2) find_row_put_row [OF commits(1) k, of t i]
    by (auto simp: op_error_def, blast)
qed

text \<open>Maintenance and insertion leave the dispatch time of every row alone.\<close>

lemma reserve_rows:
  assumes "Store_Reserve rhash rex db now request = (db', res)" and "find_row t i db = Some r"
  shows "\<exists>r'. find_row t i db' = Some r' \<and> row_grows r r' \<and> rv_DispatchedAt r' = rv_DispatchedAt r
    \<and> rv_SettlementKind r' = rv_SettlementKind r"
  using assms(1)
proof (cases rule: Store_Reserve_cases)
  case (fails er)
  then show ?thesis using assms(2) by auto
next
  case (locked req tokens hash q0 db1 q n)
  have f: "find_row t i db1 = map_option (\<lambda>r. if expiring (qr_CredentialGroup q0) now r then expire_row r else r) (Some r)"
    using expireSlots_cases(1) [OF locked(3)] assms(2) find_row_expire [where db = db] by simp
  then have old: "\<exists>r'. find_row t i db1 = Some r' \<and> row_grows r r' \<and> rv_DispatchedAt r' = rv_DispatchedAt r
      \<and> rv_SettlementKind r' = rv_SettlementKind r"
    by auto
  have "find_row t i db' = find_row t i db1"
    using locked(4)
  proof
    assume "find_row (rq_TenantID req) (rq_AttemptID req) db1 = None
        \<and> admission_denied q now tokens (rq_MaxCost req) = None \<and> now < rq_RequestDeadline req
        \<and> quota_checks (admitted q req tokens)
        \<and> res = Inr (new_reservation req tokens hash (qr_WindowGeneration q))
        \<and> db' = put_quota (admitted q req tokens) (db1\<lparr>qd_Reservations :=
              new_reservation req tokens hash (qr_WindowGeneration q) # qd_Reservations db1\<rparr>)"
    moreover from this have "(t, i) \<noteq> (rq_TenantID req, rq_AttemptID req)" using f by auto
    ultimately show ?thesis by (auto simp: find_row_def is_row_key put_quota_def)
  qed auto
  then show ?thesis using old by simp
qed

lemma expire_op_rows:
  assumes "Store_ExpireRequestSlots db now g = (db', res)" and "find_row t i db = Some r"
  shows "\<exists>r'. find_row t i db' = Some r' \<and> row_grows r r' \<and> rv_DispatchedAt r' = rv_DispatchedAt r
    \<and> rv_SettlementKind r' = rv_SettlementKind r"
proof (cases "db' = db")
  case False
  with assms(1) obtain q0 db1 q n where e: "expireSlots db q0 now = Inr (db1, q, n)" and "db' = put_quota q db1"
    by (auto simp: Store_ExpireRequestSlots_def commit_quota_def saveQuota_def split: sum.splits prod.splits if_splits)
  then show ?thesis
    using expireSlots_cases(1) [OF e] assms(2) find_row_expire [where db = db] by auto
qed (use assms(2) in auto)

lemma configure_rows: "Store_Configure db now c = (db', res) \<Longrightarrow> find_row t i db' = find_row t i db"
  by (auto simp: Store_Configure_def find_row_def put_quota_def split: if_splits option.splits)

lemma quota_apply_mutates:
  "quota_apply rhash rex db now (OpMarkDispatched t i) =
     apsnd op_error (Store_mutate db now t i dispatch_mutation)"
  "quota_apply rhash rex db now (OpMarkUnknown t i) =
     apsnd op_error (Store_mutate db now t i unknown_mutation)"
  "quota_apply rhash rex db now (OpCompleteWithUnknownUsage t i) =
     apsnd op_error (Store_mutate db now t i complete_unknown_mutation)"
  "quota_apply rhash rex db now (OpAbandonBeforeDispatch t i) =
     apsnd op_error (Store_mutate db now t i (settle_mutation \<lparr>se_Tokens = 0, se_Cost = 0\<rparr> NotDispatched))"
  by (simp_all add: Store_MarkDispatched_def Store_MarkUnknown_def
      Store_CompleteWithUnknownUsage_def Store_AbandonBeforeDispatch_def)

text \<open>What one transaction does to an existing row.\<close>

definition row_effect :: "quota_op \<Rightarrow> quota_err option \<Rightarrow> string \<Rightarrow> string \<Rightarrow> reservation \<Rightarrow> reservation \<Rightarrow> bool" where
  "row_effect op er t i r r' \<longleftrightarrow> row_grows r r'
    \<and> (if op = OpMarkDispatched t i \<and> er = None
       then rv_DispatchedAt r = None \<and> rv_DispatchedAt r' \<noteq> None
       else rv_DispatchedAt r' = rv_DispatchedAt r)
    \<and> (op = OpAbandonBeforeDispatch t i \<and> er = None \<longrightarrow> rv_Status r' = RsSettled
         \<and> rv_SettlementKind r' = Some NotDispatched)
    \<and> (rv_SettlementKind r' \<noteq> rv_SettlementKind r \<longrightarrow> rv_Status r' = RsSettled
         \<and> (rv_SettlementKind r' = Some NotDispatched \<longrightarrow> rv_DispatchedAt r' = None))"

lemma row_effect_refl:
  "\<not> (op \<in> {OpMarkDispatched t i, OpAbandonBeforeDispatch t i} \<and> er = None) \<Longrightarrow> row_effect op er t i r r"
  by (auto simp: row_effect_def)

lemma mutation_effect:
  "dispatch_mutation q r now = Inr (q', r') \<Longrightarrow> row_effect (OpMarkDispatched t i) None t i r r'"
  "unknown_mutation q r now = Inr (q', r') \<Longrightarrow> row_effect (OpMarkUnknown t i) None t i r r'"
  "complete_unknown_mutation q r now = Inr (q', r') \<Longrightarrow>
     row_effect (OpCompleteWithUnknownUsage t i) None t i r r'"
  "settle_mutation a ActualUsage q r now = Inr (q', r') \<Longrightarrow> row_effect (OpSettle t i a) None t i r r'"
  "settle_mutation a NotDispatched q r now = Inr (q', r') \<Longrightarrow>
     row_effect (OpAbandonBeforeDispatch t i) None t i r r'"
  using mutations_grow(1-3) [of q r now q' r'] mutations_grow(4) [of a _ q r now q' r']
  by (auto simp: row_effect_def dispatch_mutation_def unknown_mutation_def complete_unknown_mutation_def
      settle_mutation_def same_settlement_def Let_def split: if_splits sum.splits)

lemma outcome_effect:
  "outcome_mutation x q r now = Inr (q', r') \<Longrightarrow> row_effect (OpRecordOutcome t i x) None t i r r'"
  using outcome_grows [of x q r now q' r']
  by (cases "rv_Outcome r") (auto simp: row_effect_def outcome_mutation_def split: if_splits)

lemma mutate_effect:
  assumes "Store_mutate db now t0 i0 fn = (db', res)" and "find_row t i db = Some r"
    and grow: "\<And>q r q' r'. fn q r now = Inr (q', r') \<Longrightarrow> row_grows r r'"
    and eff: "\<And>q r q' r' t i. fn q r now = Inr (q', r') \<Longrightarrow> row_effect (mk t i) None t i r r'"
    and mk: "\<And>t i. mk t0 i0 \<in> {OpMarkDispatched t i, OpAbandonBeforeDispatch t i} \<Longrightarrow> (t, i) = (t0, i0)"
  shows "\<exists>r'. find_row t i db' = Some r' \<and> row_effect (mk t0 i0) (op_error res) t i r r'"
proof -
  have m: "if (t, i) = (t0, i0) \<and> op_error res = None
    then \<exists>q q' r'. fn q r now = Inr (q', r') \<and> find_row t i db' = Some r'
    else find_row t i db' = Some r"
    by (rule mutate_rows [OF assms(1,2)]) (rule grow)
  show ?thesis
  proof (cases "(t, i) = (t0, i0) \<and> op_error res = None")
    case True
    then show ?thesis using m eff [of _ r _ _ t0 i0] by auto
  next
    case False
    then have "row_effect (mk t0 i0) (op_error res) t i r r"
      using mk [of t i] by (intro row_effect_refl) auto
    then show ?thesis using m False by auto
  qed
qed

lemma quota_apply_rows:
  assumes "quota_apply rhash rex db now op = (db', er)" and "find_row t i db = Some r"
  shows "\<exists>r'. find_row t i db' = Some r' \<and> row_effect op er t i r r'"
proof (cases op)
  case (OpConfigure c)
  then show ?thesis using assms configure_rows by (fastforce simp: op_error_eq row_effect_def)
next
  case (OpReserve r)
  then show ?thesis using assms reserve_rows by (fastforce simp: op_error_eq row_effect_def)
next
  case (OpMarkDispatched t0 i0)
  then show ?thesis using assms mutate_effect [where mk = OpMarkDispatched and fn = dispatch_mutation, OF _ assms(2) mutations_grow(1) mutation_effect(1)]
    by (auto simp: quota_apply_mutates op_error_eq simp del: quota_apply.simps)
next
  case (OpMarkUnknown t0 i0)
  then show ?thesis using assms mutate_effect [where mk = OpMarkUnknown and fn = unknown_mutation, OF _ assms(2) mutations_grow(2) mutation_effect(2)]
    by (auto simp: quota_apply_mutates op_error_eq simp del: quota_apply.simps)
next
  case (OpCompleteWithUnknownUsage t0 i0)
  then show ?thesis using assms mutate_effect [where mk = OpCompleteWithUnknownUsage and fn = complete_unknown_mutation, OF _ assms(2) mutations_grow(3) mutation_effect(3)]
    by (auto simp: quota_apply_mutates op_error_eq simp del: quota_apply.simps)
next
  case (OpSettle t0 i0 a)
  then show ?thesis using assms row_effect_refl [of op t i er r]
      mutate_effect [where mk = "\<lambda>t i. OpSettle t i a" and fn = "settle_mutation a ActualUsage", OF _ assms(2) mutations_grow(4) mutation_effect(4)]
    by (auto simp: Store_Settle_def op_error_eq split: if_splits)
next
  case (OpAbandonBeforeDispatch t0 i0)
  then show ?thesis using assms mutate_effect [where mk = OpAbandonBeforeDispatch and fn = "settle_mutation \<lparr>se_Tokens = 0, se_Cost = 0\<rparr> NotDispatched", OF _ assms(2) mutations_grow(4) mutation_effect(5)]
    by (auto simp: quota_apply_mutates op_error_eq simp del: quota_apply.simps)
next
  case (OpRecordOutcome t0 i0 x)
  then show ?thesis using assms row_effect_refl [of op t i er r]
      mutate_effect [where mk = "\<lambda>t i. OpRecordOutcome t i x" and fn = "outcome_mutation x", OF _ assms(2) outcome_grows outcome_effect]
    by (auto simp: Store_RecordOutcome_def op_error_eq split: if_splits)
next
  case (OpExpireRequestSlots g)
  then show ?thesis using assms expire_op_rows by (fastforce simp: op_error_eq row_effect_def)
qed


text \<open>A row that did not exist is created undispatched by \<open>Reserve\<close> or still does not exist.\<close>

lemma mutate_absent:
  assumes "Store_mutate db now t0 i0 fn = (db', res)" and "find_row t i db = None"
    and key: "\<And>q r q' r'. fn q r now = Inr (q', r') \<Longrightarrow> row_grows r r'"
  shows "find_row t i db' = None \<and> ((t, i) = (t0, i0) \<longrightarrow> op_error res \<noteq> None)"
  using assms(1)
proof (cases rule: Store_mutate_cases)
  case (commits r0 q0 q' r')
  have "row_key r' = row_key r0" using key [OF commits(3)] by (simp add: row_grows_def)
  then show ?thesis using commits assms(2) find_row_put_row [OF commits(1), of r' t i] by auto
qed (use assms(2) in \<open>simp add: op_error_def\<close>)

lemma find_row_expired_None:
  "expireSlots db q0 now = Inr (db1, q, n) \<Longrightarrow> find_row t i db1 = None \<longleftrightarrow> find_row t i db = None"
  using expireSlots_cases(1) [of db q0 now db1 q n] find_row_expire [where db = db] by simp

lemma reserve_absent:
  assumes "Store_Reserve rhash rex db now request = (db', res)" and "find_row t i db = None"
    and "find_row t i db' = Some r"
  shows "rv_DispatchedAt r = None \<and> rv_SettlementKind r = None"
  using assms(1)
proof (cases rule: Store_Reserve_cases)
  case (locked req tokens hash q0 db1 q n)
  then show ?thesis
    using assms(2,3) find_row_expired_None [OF locked(3), of t i]
    by (auto simp: find_row_def put_quota_def new_reservation_def split: if_splits)
qed (use assms(2,3) in simp)

lemma expire_op_absent:
  "Store_ExpireRequestSlots db now g = (db', res) \<Longrightarrow> find_row t i db = None \<Longrightarrow> find_row t i db' = None"
  using find_row_expired_None
  by (auto simp: Store_ExpireRequestSlots_def commit_quota_def saveQuota_def
      split: sum.splits prod.splits if_splits)

lemma quota_apply_absent:
  assumes "quota_apply rhash rex db now op = (db', er)" and "find_row t i db = None"
  shows "(case find_row t i db' of None \<Rightarrow> True | Some r \<Rightarrow> rv_DispatchedAt r = None \<and> rv_SettlementKind r = None)
    \<and> \<not> (op \<in> {OpMarkDispatched t i, OpAbandonBeforeDispatch t i} \<and> er = None)"
proof (cases op)
  case (OpReserve r)
  then show ?thesis using assms reserve_absent by (fastforce simp: op_error_eq split: option.splits)
next
  case (OpConfigure c)
  then show ?thesis using assms configure_rows by (fastforce simp: op_error_eq)
next
  case (OpExpireRequestSlots g)
  then show ?thesis using assms expire_op_absent by (fastforce simp: op_error_eq)
next
  case (OpSettle t0 i0 a)
  then show ?thesis using assms mutate_absent [OF _ assms(2) mutations_grow(4)]
    by (fastforce simp: Store_Settle_def op_error_eq split: if_splits)
next
  case (OpRecordOutcome t0 i0 x)
  then show ?thesis using assms mutate_absent [OF _ assms(2) outcome_grows]
    by (fastforce simp: Store_RecordOutcome_def op_error_eq split: if_splits)
qed (use assms mutate_absent [OF _ assms(2) mutations_grow(1)] mutate_absent [OF _ assms(2) mutations_grow(2)]
    mutate_absent [OF _ assms(2) mutations_grow(3)] mutate_absent [OF _ assms(2) mutations_grow(4)]
    in \<open>fastforce simp: quota_apply_mutates op_error_eq simp del: quota_apply.simps\<close>)+

subsection \<open>Invariants of executions\<close>

lemma put_quota_groups [simp]:
  "quota_groups (put_quota q db) = quota_groups db" "row_groups (put_quota q db) = row_groups db"
proof -
  have "fst \<circ> (\<lambda>(g, x). if g = qr_CredentialGroup q then (g, q) else (g, x)) = fst" by auto
  then show "quota_groups (put_quota q db) = quota_groups db"
    by (simp add: quota_groups_def put_quota_def image_comp)
qed (simp add: row_groups_def put_quota_def)

lemma put_row_groups [simp]:
  "quota_groups (put_row r db) = quota_groups db"
  "row_groups (put_row r db) \<subseteq> insert (rv_CredentialGroup r) (row_groups db)"
  by (auto simp: quota_groups_def row_groups_def put_row_def)

lemma expired_groups:
  assumes "expireSlots db q0 now = Inr (db1, q, n)"
  shows "quota_groups db1 = quota_groups db" "row_groups db1 = row_groups db"
proof -
  have "rv_CredentialGroup ` set (expire_rows g now rows) = rv_CredentialGroup ` set rows" for g rows
    unfolding expire_rows_def set_map image_image by (intro image_cong) auto
  then show "quota_groups db1 = quota_groups db" "row_groups db1 = row_groups db"
    using expireSlots_cases(1) [OF assms] by (simp_all add: quota_groups_def row_groups_def)
qed

lemma locked_group: "lockGroup db now g = Inr q \<Longrightarrow> g \<in> quota_groups db"
  using map_of_eq_None_iff [of "qd_Quotas db" g]
  by (cases "map_of (qd_Quotas db) g") (auto simp: lockGroup_def quota_groups_def)

lemma mutate_groups:
  assumes "Store_mutate db now t i fn = (db', res)" and "groups_known db"
    and key: "\<And>q r q' r'. fn q r now = Inr (q', r') \<Longrightarrow> row_grows r r'"
  shows "groups_known db'"
  using assms(1)
proof (cases rule: Store_mutate_cases)
  case (commits r q0 q' r')
  have "rv_CredentialGroup r' = rv_CredentialGroup r" using key [OF commits(3)] by (simp add: row_grows_def)
  moreover have "rv_CredentialGroup r \<in> row_groups db"
    using find_rowD(1) [OF commits(1)] by (simp add: row_groups_def)
  ultimately show ?thesis
    using assms(2) put_row_groups(2) [of r' db] unfolding commits(5) groups_known_def by auto
qed (use assms(2) in simp)

lemma reserve_groups:
  assumes "Store_Reserve rhash rex db now request = (db', res)" and "groups_known db"
  shows "groups_known db'"
  using assms(1)
proof (cases rule: Store_Reserve_cases)
  case (locked req tokens hash q0 db1 q n)
  have "row_groups (db1\<lparr>qd_Reservations := r # qd_Reservations db1\<rparr>) = insert (rv_CredentialGroup r) (row_groups db1)"
    "quota_groups (db1\<lparr>qd_Reservations := r # qd_Reservations db1\<rparr>) = quota_groups db1" for r
    by (simp_all add: row_groups_def quota_groups_def)
  then show ?thesis
    using locked(4) assms(2) expired_groups [OF locked(3)] locked_group [OF locked(2)]
    unfolding groups_known_def by auto
qed (use assms(2) in simp)

lemma expire_op_groups:
  assumes "Store_ExpireRequestSlots db now g = (db', res)" and "groups_known db"
  shows "groups_known db'"
proof (cases "db' = db")
  case False
  with assms(1) obtain q0 db1 q n where e: "expireSlots db q0 now = Inr (db1, q, n)" and "db' = put_quota q db1"
    by (auto simp: Store_ExpireRequestSlots_def commit_quota_def saveQuota_def split: sum.splits prod.splits if_splits)
  then show ?thesis using assms(2) expired_groups [OF e] by (simp add: groups_known_def)
qed (use assms(2) in simp)

lemma configure_groups:
  assumes "Store_Configure db now c = (db', res)" and "groups_known db"
  shows "groups_known db'"
proof -
  have "quota_groups (db\<lparr>qd_Quotas := x # qd_Quotas db\<rparr>) = insert (fst x) (quota_groups db)"
    "row_groups (db\<lparr>qd_Quotas := x # qd_Quotas db\<rparr>) = row_groups db" for x
    by (simp_all add: quota_groups_def row_groups_def)
  then show ?thesis
    using assms by (auto simp: Store_Configure_def groups_known_def split: if_splits option.splits)
qed

lemma quota_apply_groups:
  assumes "quota_apply rhash rex db now op = (db', er)" and fk: "groups_known db"
  shows "groups_known db'"
proof (cases op)
  case (OpSettle t i a)
  then show ?thesis using assms mutate_groups [OF _ fk mutations_grow(4)]
    by (auto simp: Store_Settle_def op_error_eq split: if_splits)
next
  case (OpRecordOutcome t i x)
  then show ?thesis using assms mutate_groups [OF _ fk outcome_grows]
    by (auto simp: Store_RecordOutcome_def op_error_eq split: if_splits)
qed (use assms configure_groups [OF _ fk] reserve_groups [OF _ fk] expire_op_groups [OF _ fk]
    mutate_groups [OF _ fk mutations_grow(1)] mutate_groups [OF _ fk mutations_grow(2)]
    mutate_groups [OF _ fk mutations_grow(3)] mutate_groups [OF _ fk mutations_grow(4)]
    in \<open>auto simp: quota_apply_mutates op_error_eq simp del: quota_apply.simps(3-5,7)\<close>)


definition quota_ledger_inv :: "(gotime \<times> quota_op, quota_err option) history \<Rightarrow> quota_db \<Rightarrow> bool" where
  "quota_ledger_inv tr db \<longleftrightarrow> quota_inv db \<and> groups_known db"

interpretation quota_ledger: ghost_invariant "quota_step rhash rex" "\<lambda>_ _. True" quota_ledger_inv empty_db
  for rhash rex
proof unfold_locales
  show "quota_ledger_inv (tr @ [(x, er)]) db'" if "quota_ledger_inv tr db" "quota_step rhash rex db x er db'" for tr db x er db'
    using that quota_apply_inv quota_apply_groups unfolding quota_ledger_inv_def quota_step_def by blast
qed (simp_all add: quota_ledger_inv_def quota_inv_def groups_known_def empty_db_def row_groups_def)

definition dispatched_in :: "quota_db \<Rightarrow> string \<Rightarrow> string \<Rightarrow> bool" where
  "dispatched_in db t i =
     (case find_row t i db of None \<Rightarrow> False | Some r \<Rightarrow> rv_DispatchedAt r \<noteq> None)"

definition abandoned_in :: "quota_db \<Rightarrow> string \<Rightarrow> string \<Rightarrow> bool" where
  "abandoned_in db t i =
     (case find_row t i db of None \<Rightarrow> False | Some r \<Rightarrow> rv_SettlementKind r = Some NotDispatched)"

abbreviation dispatch_of :: "string \<Rightarrow> string \<Rightarrow> (gotime \<times> quota_op) \<times> quota_err option \<Rightarrow> bool" where
  "dispatch_of t i x \<equiv> snd (fst x) = OpMarkDispatched t i \<and> snd x = None"

abbreviation abandon_of :: "string \<Rightarrow> string \<Rightarrow> (gotime \<times> quota_op) \<times> quota_err option \<Rightarrow> bool" where
  "abandon_of t i x \<equiv> snd (fst x) = OpAbandonBeforeDispatch t i \<and> snd x = None"

text \<open>The rows record which attempts were dispatched and which were abandoned.\<close>

definition sent_inv :: "string \<Rightarrow> string \<Rightarrow> (gotime \<times> quota_op, quota_err option) history \<Rightarrow> quota_db \<Rightarrow> bool" where
  "sent_inv t i tr db \<longleftrightarrow>
     count_history (dispatch_of t i) tr = of_bool (dispatched_in db t i)
     \<and> (list_ex (abandon_of t i) tr \<longrightarrow> abandoned_in db t i)
     \<and> (case find_row t i db of None \<Rightarrow> True
        | Some r \<Rightarrow> rv_SettlementKind r = Some NotDispatched \<longrightarrow>
            rv_Status r = RsSettled \<and> rv_DispatchedAt r = None)"

lemma sent_inv_step:
  assumes inv: "sent_inv t i tr db" and step: "quota_apply rhash rex db now op = (db', er)"
  shows "sent_inv t i (tr @ [((now, op), er)]) db'"
proof (cases "find_row t i db")
  case None
  then show ?thesis
    using inv quota_apply_absent [OF step None]
    by (auto simp: sent_inv_def dispatched_in_def abandoned_in_def split: option.splits)
next
  case (Some r)
  obtain r' where r': "find_row t i db' = Some r'" and eff: "row_effect op er t i r r'"
    using quota_apply_rows [OF step Some] by blast
  have grow: "row_grows r r'" using eff by (simp add: row_effect_def)
  show ?thesis
    using inv eff grow Some r'
    by (auto simp: sent_inv_def dispatched_in_def abandoned_in_def row_effect_def row_grows_def split: if_splits)
qed

interpretation sent: ghost_invariant "quota_step rhash rex" "\<lambda>_ _. True" "sent_inv t i" empty_db
  for rhash rex t i
proof unfold_locales
  show "sent_inv t i (tr @ [(x, er)]) db'" if "sent_inv t i tr db" "quota_step rhash rex db x er db'" for tr db x er db'
    using that sent_inv_step [of t i tr db rhash rex "fst x" "snd x" db' er] by (simp add: quota_step_def)
qed (simp_all add: sent_inv_def dispatched_in_def find_row_def empty_db_def)




subsection \<open>An evaluated execution\<close>

definition demo_config :: quota_config where
  "demo_config = \<lparr>qc_CredentialGroup = ''g'', qc_MaxConcurrent = 1, qc_MaxTokens = 100,
     qc_MaxCost = 50, qc_WindowDuration = 1000000000, qc_FailureThreshold = 2,
     qc_BreakerCooldown = 1000000\<rparr>"

definition demo_request :: quota_request where
  "demo_request = \<lparr>rq_TenantID = ''t'', rq_RunID = ''r'', rq_AttemptID = ''a'',
     rq_CredentialGroup = ''g'', rq_InputTokens = 30, rq_MaxOutputTokens = 20, rq_MaxCost = 10,
     rq_PriceVersion = ''p'', rq_RequestDeadline = 900000000\<rparr>"

abbreviation demo_rhash :: "quota_request \<Rightarrow> string" where "demo_rhash \<equiv> (\<lambda>r. ''h'')"
abbreviation demo_rex :: "string \<Rightarrow> string \<Rightarrow> bool" where "demo_rex \<equiv> (\<lambda>t r. True)"

definition demo_db1 :: quota_db where
  "demo_db1 = \<lparr>qd_Quotas = [(''g'', new_quota_row demo_config 1000)], qd_Reservations = []\<rparr>"

definition demo_row :: reservation where
  "demo_row = new_reservation demo_request 50 ''h'' 1"

definition demo_db2 :: quota_db where
  "demo_db2 = \<lparr>qd_Quotas = [(''g'', (new_quota_row demo_config 1000)\<lparr>qr_ActiveRequests := 1,
       qr_ReservedTokens := 50, qr_ReservedCost := 10\<rparr>)], qd_Reservations = [demo_row]\<rparr>"

definition demo_db3 :: quota_db where
  "demo_db3 = demo_db2\<lparr>qd_Reservations := [demo_row\<lparr>rv_DispatchedAt := Some 3000\<rparr>]\<rparr>"

lemmas demo_quota_defs = demo_config_def demo_request_def demo_db1_def demo_row_def demo_db2_def
  demo_db3_def new_quota_row_def new_reservation_def empty_db_def

lemmas demo_quota_eval = Store_Configure_def Store_Reserve_def Store_MarkDispatched_def
  Store_mutate_def Store_Get_def Request_normalized_def lockGroup_def rotate_window_def
  expireSlots_def admission_denied_def admitted_def commit_quota_def saveQuota_def
  quota_checks_def put_quota_def put_row_def find_row_def is_row_def truncate_us_def
  dispatch_mutation_def expiring_def op_error_def ID_Validate_def id_char_def
  signed_divide_int_def wrap64_def max_int64_def Let_def

lemma quota_demo_steps:
  "Store_Configure empty_db 1000 demo_config = (demo_db1, Inr ())"
  "Store_Reserve demo_rhash demo_rex demo_db1 2000 demo_request = (demo_db2, Inr demo_row)"
  "Store_MarkDispatched demo_db2 3000 ''t'' ''a'' = (demo_db3, Inr ())"
  by (simp_all add: demo_quota_defs demo_quota_eval)

lemma demo_typed [simp]: "config_int64 demo_config" "request_int64 demo_request"
  by (simp_all add: demo_config_def demo_request_def config_int64_def request_int64_def int64_defs)

lemma demo_quota_steps:
  "quota_step demo_rhash demo_rex empty_db (1000, OpConfigure demo_config) None demo_db1"
  "quota_step demo_rhash demo_rex demo_db1 (2000, OpReserve demo_request) None demo_db2"
  "quota_step demo_rhash demo_rex demo_db2 (3000, OpMarkDispatched ''t'' ''a'') None demo_db3"
  by (simp_all add: quota_step_def quota_demo_steps op_error_def)

lemma demo_exec1:
  "exec (quota_step demo_rhash demo_rex) empty_db [((1000, OpConfigure demo_config), None)] demo_db1"
  by (rule exec_one [of "quota_step demo_rhash demo_rex"]) (rule demo_quota_steps)

lemma demo_exec3:
  "exec (quota_step demo_rhash demo_rex) empty_db
     (([((1000, OpConfigure demo_config), None)] @ [((2000, OpReserve demo_request), None)])
      @ [((3000, OpMarkDispatched ''t'' ''a''), None)]) demo_db3"
  by (rule exec_step [of "quota_step demo_rhash demo_rex"],
      rule exec_step [of "quota_step demo_rhash demo_rex"], rule demo_exec1)
    (rule demo_quota_steps)+

lemma demo_db3_group: "map_of (qd_Quotas demo_db3) ''g'' = Some ((new_quota_row demo_config 1000)
    \<lparr>qr_ActiveRequests := 1, qr_ReservedTokens := 50, qr_ReservedCost := 10\<rparr>)"
  by (simp add: demo_db3_def demo_db2_def)

subsection \<open>Properties\<close>

text \<open>
  C16. After any sequence of transactions the counters of every credential group are exactly
  what its reservation rows add up to: active requests the unreleased slots, reserved tokens
  and cost the amounts of the reservations that are not settled; and none is negative.
\<close>

theorem quota_ledger_balances:
  assumes "exec (quota_step rhash rex) empty_db tr db" and "map_of (qd_Quotas db) g = Some q"
  shows "qr_ActiveRequests q = row_total slot g (qd_Reservations db)
    \<and> qr_ReservedTokens q = row_total open_tokens g (qd_Reservations db)
    \<and> qr_ReservedCost q = row_total open_cost g (qd_Reservations db)
    \<and> 0 \<le> qr_ActiveRequests q \<and> 0 \<le> qr_ReservedTokens q \<and> 0 \<le> qr_ReservedCost q"
proof -
  have inv: "quota_inv db" using quota_ledger.always [OF assms(1)] by (simp add: quota_ledger_inv_def)
  have "\<forall>r\<in>set (qd_Reservations db). row_ok r" using inv by (simp add: quota_inv_def)
  then show ?thesis
    using quota_invD [OF inv assms(2)] balanced_nonneg [of "qd_Reservations db" q]
    by (simp add: balanced_def)
qed

theorem quota_ledger_balances_witness:
  "row_total open_tokens ''g'' (qd_Reservations demo_db3) = 50
   \<and> row_total slot ''g'' (qd_Reservations demo_db3) = 1"
  using quota_ledger_balances [OF demo_exec3 demo_db3_group] by (simp add: new_quota_row_def)



text \<open>
  C15. A provider request is sent at most once per attempt: in any execution at most one
  \<open>MarkDispatched\<close> of an attempt succeeds, and none if the attempt was abandoned at any time.
\<close>

theorem attempt_dispatched_once:
  assumes "exec (quota_step rhash rex) empty_db tr db"
  shows "count_history (dispatch_of t i) tr \<le> 1
    \<and> (list_ex (abandon_of t i) tr \<longrightarrow> count_history (dispatch_of t i) tr = 0)"
  using sent.always [OF assms, of t i]
  by (auto simp: sent_inv_def dispatched_in_def abandoned_in_def split: option.splits)

theorem attempt_dispatched_once_witness:
  "count_history (dispatch_of ''t'' ''a'')
     (([((1000, OpConfigure demo_config), None)] @ [((2000, OpReserve demo_request), None)])
      @ [((3000, OpMarkDispatched ''t'' ''a''), None)]) \<le> 1"
  using attempt_dispatched_once [OF demo_exec3, of "''t''" "''a''"] by (rule conjunct1)




end
