(* ===== verification/Quota_Retry.thy ===== *)
theory Quota_Retry
  imports Domain
begin

section \<open>The bounded retry policy (internal/quota/retry.go)\<close>

text \<open>
  \<open>RetryPolicy.Next\<close>. Durations are \<open>int64\<close> nanoseconds. The floating-point product of the
  delay cap and the jitter is the one computation that is not modelled: \<open>ri_Scaled\<close> is the
  duration the conversion \<open>time.Duration(float64(cap) * in.Jitter)\<close> yields, as a function of
  the cap, and may be any \<open>int64\<close>; the source clamps it. \<open>ri_JitterValid\<close> says that the jitter
  is a number between 0 and 1.
\<close>

record retry_policy =
  rp_MaxAttempts :: int
  rp_BaseDelay :: duration
  rp_MaxDelay :: duration
  rp_TotalBudget :: duration

record retry_input =
  ri_Now :: gotime
  ri_FirstAttemptAt :: gotime
  ri_Deadline :: gotime
  ri_CompletedAttempts :: int
  ri_Retryable :: bool
  ri_RetryAfter :: duration
  ri_JitterValid :: bool
  ri_Scaled :: "duration \<Rightarrow> duration"

record retry_decision =
  rd_Retry :: bool
  rd_NotBefore :: gotime
  rd_Reason :: string

definition no_retry :: "string \<Rightarrow> retry_decision" where
  "no_retry reason = \<lparr>rd_Retry = False, rd_NotBefore = 0, rd_Reason = reason\<rparr>"

text \<open>\<open>for n := 1; n < completed && cap < maxDelay; n++\<close> doubles the cap without overflow.\<close>

function backoff_loop :: "duration \<Rightarrow> int \<Rightarrow> int \<Rightarrow> duration \<Rightarrow> duration" where
  "backoff_loop maxDelay completed n cap =
     (if n < completed \<and> cap < maxDelay
      then backoff_loop maxDelay completed (n + 1)
             (if maxDelay sdiv 2 < cap then maxDelay else wrap64 (cap * 2))
      else cap)"
  by pat_completeness auto
termination
  by (relation "measure (\<lambda>(m, c, n, d). nat (c - n))") auto

declare backoff_loop.simps [simp del]

definition RetryPolicy_Next :: "retry_policy \<Rightarrow> retry_input \<Rightarrow> err + retry_decision" where
  "RetryPolicy_Next p i =
     (if rp_MaxAttempts p \<le> 0 \<or> rp_BaseDelay p \<le> 0 \<or> rp_MaxDelay p < rp_BaseDelay p
         \<or> rp_TotalBudget p \<le> 0 \<or> ri_CompletedAttempts i \<le> 0 \<or> ri_Now i = 0
         \<or> ri_FirstAttemptAt i = 0 \<or> \<not> ri_JitterValid i \<or> ri_RetryAfter i < 0
      then Inl ErrInvalid
      else if \<not> ri_Retryable i then Inr (no_retry ''permanent failure'')
      else if rp_MaxAttempts p \<le> ri_CompletedAttempts i
      then Inr (no_retry ''attempt budget exhausted'')
      else
        let cap = backoff_loop (rp_MaxDelay p) (ri_CompletedAttempts i) 1 (rp_BaseDelay p);
            delay0 = ri_Scaled i cap;
            delay1 = (if delay0 < 0 \<or> cap < delay0 then cap else delay0);
            delay = (if delay1 < ri_RetryAfter i then ri_RetryAfter i else delay1);
            until0 = ri_FirstAttemptAt i + rp_TotalBudget p;
            until = (if ri_Deadline i \<noteq> 0 \<and> ri_Deadline i < until0 then ri_Deadline i else until0);
            next = ri_Now i + delay in
        if \<not> next < until then Inr (no_retry ''retry would exceed deadline or total budget'')
        else Inr \<lparr>rd_Retry = True, rd_NotBefore = next,
                   rd_Reason = ''transient provider failure''\<rparr>)"

subsection \<open>The delay cap\<close>

lemma backoff_loop_value:
  assumes "0 < cap" and "cap \<le> maxDelay" and "maxDelay \<le> max_int64"
  shows "backoff_loop maxDelay completed n cap = min maxDelay (cap * 2 ^ nat (completed - n))"
  using assms
proof (induction maxDelay completed n cap rule: backoff_loop.induct)
  case (1 maxDelay completed n cap)
  show ?case
  proof (cases "n < completed \<and> cap < maxDelay")
    case False
    then have "backoff_loop maxDelay completed n cap = cap" by (subst backoff_loop.simps) auto
    moreover have "min maxDelay (cap * 2 ^ nat (completed - n)) = cap"
    proof (cases "n < completed")
      case True
      then have "cap = maxDelay" using False "1.prems"(2) by auto
      moreover have "cap * 1 \<le> cap * 2 ^ nat (completed - n)"
        using "1.prems"(1) by (intro mult_left_mono) auto
      ultimately show ?thesis by simp
    qed (use "1.prems"(2) in simp)
    ultimately show ?thesis by simp
  next
    case True
    have e: "nat (completed - n) = Suc (nat (completed - (n + 1)))" using True by auto
    have half: "maxDelay sdiv 2 = maxDelay div 2" using "1.prems" by (intro sdiv_nonneg) auto
    define cap' where "cap' = (if maxDelay sdiv 2 < cap then maxDelay else wrap64 (cap * 2))"
    have "backoff_loop maxDelay completed n cap = backoff_loop maxDelay completed (n + 1) cap'"
      using True by (subst backoff_loop.simps) (simp add: cap'_def)
    moreover have cap': "cap' = min maxDelay (cap * 2)"
    proof (cases "maxDelay div 2 < cap")
      case True
      then show ?thesis by (auto simp: cap'_def half)
    next
      case False
      then have "cap * 2 \<le> maxDelay" by auto
      then show ?thesis
        using False "1.prems" wrap64_id [of "cap * 2"] by (simp add: cap'_def half int64_defs)
    qed
    moreover have "backoff_loop maxDelay completed (n + 1) cap'
        = min maxDelay (cap' * 2 ^ nat (completed - (n + 1)))"
      unfolding cap'_def using "1.IH" [OF True] cap' "1.prems" by (simp add: cap'_def)
    moreover have "min maxDelay (min maxDelay x * k) = min maxDelay (x * k)"
      if "(1::int) \<le> k" "0 < x" "0 < maxDelay" for x k
      using that mult_left_mono [of 1 k maxDelay] mult_mono [of maxDelay x 1 k] by (auto simp: min_def)
    ultimately show ?thesis using "1.prems" by (simp add: e mult.assoc [symmetric])
  qed
qed

subsection \<open>Retries stay within every budget\<close>

text \<open>
  A retry is granted only while attempts are left, never earlier than the provider's
  retry-after hint, strictly before both the deadline and the end of the total retry budget,
  and no later than the larger of that hint and the exponential backoff cap
  \<open>min MaxDelay (BaseDelay * 2 ^ (completed - 1))\<close>, which the doubling loop computes without
  overflow, whatever the floating-point jitter product is.
\<close>

theorem retry_within_bounds:
  assumes "RetryPolicy_Next p i = Inr d" and "rd_Retry d" and "rp_MaxDelay p \<le> max_int64"
  shows "ri_CompletedAttempts i < rp_MaxAttempts p
    \<and> ri_Now i + ri_RetryAfter i \<le> rd_NotBefore d
    \<and> rd_NotBefore d < ri_FirstAttemptAt i + rp_TotalBudget p
    \<and> (ri_Deadline i \<noteq> 0 \<longrightarrow> rd_NotBefore d < ri_Deadline i)
    \<and> rd_NotBefore d \<le> ri_Now i + max (ri_RetryAfter i)
         (min (rp_MaxDelay p) (rp_BaseDelay p * 2 ^ nat (ri_CompletedAttempts i - 1)))"
proof -
  have ok: "0 < rp_BaseDelay p" "rp_BaseDelay p \<le> rp_MaxDelay p" "0 \<le> ri_RetryAfter i"
    using assms(1) by (auto simp: RetryPolicy_Next_def split: if_splits)
  define cap where
    "cap = backoff_loop (rp_MaxDelay p) (ri_CompletedAttempts i) 1 (rp_BaseDelay p)"
  have "ri_CompletedAttempts i < rp_MaxAttempts p
    \<and> ri_Now i + ri_RetryAfter i \<le> rd_NotBefore d
    \<and> rd_NotBefore d < ri_FirstAttemptAt i + rp_TotalBudget p
    \<and> (ri_Deadline i \<noteq> 0 \<longrightarrow> rd_NotBefore d < ri_Deadline i)
    \<and> rd_NotBefore d \<le> ri_Now i + max (ri_RetryAfter i) cap"
    using assms(1,2) ok unfolding RetryPolicy_Next_def cap_def [symmetric] Let_def
    by (auto simp: no_retry_def split: if_splits)
  then show ?thesis
    unfolding cap_def backoff_loop_value [OF ok(1,2) assms(3)] .
qed

definition demo_policy :: retry_policy where
  "demo_policy = \<lparr>rp_MaxAttempts = 5, rp_BaseDelay = 10, rp_MaxDelay = 25, rp_TotalBudget = 1000\<rparr>"

definition demo_input :: retry_input where
  "demo_input = \<lparr>ri_Now = 100, ri_FirstAttemptAt = 50, ri_Deadline = 400,
     ri_CompletedAttempts = 3, ri_Retryable = True, ri_RetryAfter = 3,
     ri_JitterValid = True, ri_Scaled = (\<lambda>cap. cap)\<rparr>"

theorem retry_within_bounds_witness:
  "RetryPolicy_Next demo_policy demo_input
     = Inr \<lparr>rd_Retry = True, rd_NotBefore = 125, rd_Reason = ''transient provider failure''\<rparr>
   \<and> (125 :: int) < ri_FirstAttemptAt demo_input + rp_TotalBudget demo_policy"
proof
  show r: "RetryPolicy_Next demo_policy demo_input
     = Inr \<lparr>rd_Retry = True, rd_NotBefore = 125, rd_Reason = ''transient provider failure''\<rparr>"
    by (simp add: RetryPolicy_Next_def demo_policy_def demo_input_def backoff_loop.simps [of 25 3]
        signed_divide_int_def wrap64_def)
  show "(125 :: int) < ri_FirstAttemptAt demo_input + rp_TotalBudget demo_policy"
    using retry_within_bounds [OF r] by (simp add: demo_policy_def max_int64_def)
qed

end
