(* ===== verification/Forge_Table.thy ===== *)
theory Forge_Table
  imports Forge_Machine
begin

section \<open>Tables\<close>

text \<open>
  A database table is the list of its rows; \<open>key\<close> is the primary key. \<open>tfind\<close> is
  \<open>SELECT ... WHERE id=?\<close>, \<open>tmodify\<close> is \<open>UPDATE ... WHERE id=?\<close> and \<open>tinsert\<close> is an
  \<open>INSERT\<close> whose key was found to be free. \<open>tcount\<close> is \<open>SELECT count(*)\<close>.
\<close>

definition tfind :: "('r \<Rightarrow> 'k) \<Rightarrow> 'k \<Rightarrow> 'r list \<Rightarrow> 'r option" where
  "tfind key k rows = List.find (\<lambda>r. key r = k) rows"

definition tmodify :: "('r \<Rightarrow> 'k) \<Rightarrow> 'k \<Rightarrow> ('r \<Rightarrow> 'r) \<Rightarrow> 'r list \<Rightarrow> 'r list" where
  "tmodify key k f rows = map (\<lambda>r. if key r = k then f r else r) rows"

definition tinsert :: "'r \<Rightarrow> 'r list \<Rightarrow> 'r list" where
  "tinsert r rows = r # rows"

definition tcount :: "('r \<Rightarrow> bool) \<Rightarrow> 'r list \<Rightarrow> nat" where
  "tcount P rows = length (filter P rows)"

lemma tfind_Nil [simp]: "tfind key k [] = None"
  by (simp add: tfind_def)

lemma tfind_Cons [simp]: "tfind key k (r # rows) = (if key r = k then Some r else tfind key k rows)"
  by (simp add: tfind_def)

lemma tfind_tinsert [simp]:
  "tfind key k (tinsert r rows) = (if key r = k then Some r else tfind key k rows)"
  by (simp add: tinsert_def)

lemma tfind_key: "tfind key k rows = Some r \<Longrightarrow> key r = k"
  by (induction rows) (auto split: if_splits)

lemma tfind_mem: "tfind key k rows = Some r \<Longrightarrow> r \<in> set rows"
  by (induction rows) (auto split: if_splits)

lemma tfind_None: "tfind key k rows = None \<longleftrightarrow> k \<notin> key ` set rows"
  by (induction rows) auto

text \<open>An update that keeps the key changes exactly the addressed row.\<close>

lemma tfind_tmodify:
  assumes "\<And>r. key (f r) = key r"
  shows "tfind key k' (tmodify key k f rows) =
    (if k' = k then map_option f (tfind key k rows) else tfind key k' rows)"
  using assms by (induction rows) (auto simp: tmodify_def)

lemma tmodify_keys:
  assumes "\<And>r. key (f r) = key r"
  shows "map key (tmodify key k f rows) = map key rows"
  using assms by (induction rows) (auto simp: tmodify_def)

lemma set_tmodify: "r \<in> set (tmodify key k f rows) \<longleftrightarrow>
    (\<exists>x \<in> set rows. r = (if key x = k then f x else x))"
  unfolding tmodify_def set_map image_iff ..

lemma set_tinsert [simp]: "set (tinsert r rows) = insert r (set rows)"
  by (simp add: tinsert_def)

lemma tfind_distinct:
  assumes "distinct (map key rows)" "r \<in> set rows"
  shows "tfind key (key r) rows = Some r"
  using assms by (induction rows) auto

lemma tmodify_id: "(\<And>r. r \<in> set rows \<Longrightarrow> key r = k \<Longrightarrow> f r = r) \<Longrightarrow> tmodify key k f rows = rows"
  by (induction rows) (auto simp: tmodify_def)

lemma tmodify_absent: "tfind key k rows = None \<Longrightarrow> tmodify key k f rows = rows"
  by (rule tmodify_id) (auto simp: tfind_None)

lemma tcount_Nil [simp]: "tcount P [] = 0"
  by (simp add: tcount_def)

lemma tcount_tinsert [simp]: "tcount P (tinsert r rows) = tcount P rows + (if P r then 1 else 0)"
  by (simp add: tcount_def tinsert_def)

lemma tcount_eq_0: "tcount P rows = 0 \<longleftrightarrow> (\<forall>r \<in> set rows. \<not> P r)"
  by (auto simp: tcount_def filter_empty_conv)

lemma tcount_tmodify_same:
  assumes "\<And>r. key r = k \<Longrightarrow> P (f r) = P r"
  shows "tcount P (tmodify key k f rows) = tcount P rows"
  using assms by (induction rows) (auto simp: tcount_def tmodify_def)

text \<open>What an update keeps of every row: a property each row has is kept when \<open>f\<close> keeps it.\<close>

lemma all_tmodify:
  assumes "\<forall>r \<in> set rows. P r" "\<And>r. r \<in> set rows \<Longrightarrow> key r = k \<Longrightarrow> P r \<Longrightarrow> P (f r)"
  shows "\<forall>r \<in> set (tmodify key k f rows). P r"
  using assms by (auto simp: set_tmodify)

end
