(* ===== verification/Runner_Types.thy ===== *)
theory Runner_Types
  imports Domain Forge_Table
begin

section \<open>Requests, workspaces and operations of the runner\<close>

text \<open>
  The structs of \<open>internal/runner/types.go\<close>, \<open>internal/sandbox/types.go\<close>,
  \<open>internal/sandbox/logs.go\<close> and the object reference of \<open>internal/artifact/local.go\<close>. An
  embedded struct is a field of its own (\<open>or_Workspace\<close> is the \<open>WorkspaceRequest\<close> embedded in
  \<open>OperationRequest\<close>). Statuses are the six values the operations table admits.

  A runner error is a sentinel of the domain package with its text, or any other error with
  its text: \<open>errors.Is\<close> looks at the sentinel and \<open>Error()\<close> returns the text.
\<close>

subsection \<open>Errors\<close>

definition err_text :: "err \<Rightarrow> string" where
  "err_text e = (case e of
     ErrContextStale \<Rightarrow> ''context_message_watermark_stale''
   | ErrInvalid \<Rightarrow> ''invalid_argument''
   | ErrNotFound \<Rightarrow> ''not_found''
   | ErrForbidden \<Rightarrow> ''forbidden''
   | ErrConflict \<Rightarrow> ''conflict''
   | ErrFenced \<Rightarrow> ''lease_fenced''
   | ErrTerminal \<Rightarrow> ''terminal_run''
   | ErrTransition \<Rightarrow> ''invalid_transition''
   | ErrUntrusted \<Rightarrow> ''untrusted_evidence''
   | ErrReconciliation \<Rightarrow> ''reconciliation_required''
   | ErrOverflow \<Rightarrow> ''numeric_overflow''
   | ErrCapacity \<Rightarrow> ''capacity_exhausted''
   | ErrReset \<Rightarrow> ''reset_required''
   | ErrSnapshotMigration \<Rightarrow> ''snapshot_migration_required'')"

datatype rerr = RErr err string | ROther string

definition sentinel :: "err \<Rightarrow> rerr" where
  "sentinel e = RErr e (err_text e)"

text \<open>\<open>fmt.Errorf("%w: text", e)\<close>.\<close>

definition wrapped :: "err \<Rightarrow> string \<Rightarrow> rerr" where
  "wrapped e t = RErr e (err_text e @ '': '' @ t)"

fun is_err :: "rerr \<Rightarrow> err \<Rightarrow> bool" where
  "is_err (RErr e t) x \<longleftrightarrow> e = x"
| "is_err (ROther t) x \<longleftrightarrow> False"

fun error_text :: "rerr \<Rightarrow> string" where
  "error_text (RErr e t) = t"
| "error_text (ROther t) = t"

definition sql_range_error :: rerr where
  "sql_range_error = ROther ''sql: converting argument: uint64 values with high bit set are not supported''"

definition constraint_error :: rerr where
  "constraint_error = ROther ''constraint failed''"

lemma is_err_sentinel [simp]: "is_err (sentinel e) x \<longleftrightarrow> e = x" "is_err (wrapped e t) x \<longleftrightarrow> e = x"
  by (simp_all add: sentinel_def wrapped_def)

lemma sentinel_eq [simp]: "sentinel a = sentinel b \<longleftrightarrow> a = b"
  by (auto simp: sentinel_def)

subsection \<open>Requests\<close>

record workspace_request =
  wr_TenantID :: string
  wr_RunID :: string
  wr_WorkspaceID :: string
  wr_Epoch :: u64
  wr_Grant :: string

record prepare_request =
  pr_Workspace :: workspace_request
  pr_SourceID :: string
  pr_ProfileID :: string

record operation_request =
  or_Workspace :: workspace_request
  or_OperationID :: string
  or_ExpectedRevision :: u64
  or_Kind :: string
  or_Args :: bytes
  or_ArgsHash :: string
  or_PolicyVersion :: string
  or_Deadline :: gotime

record inspect_request =
  ir_Workspace :: workspace_request
  ir_OperationID :: string

abbreviation or_TenantID :: "operation_request \<Rightarrow> string" where
  "or_TenantID r \<equiv> wr_TenantID (or_Workspace r)"
abbreviation or_RunID :: "operation_request \<Rightarrow> string" where
  "or_RunID r \<equiv> wr_RunID (or_Workspace r)"
abbreviation or_WorkspaceID :: "operation_request \<Rightarrow> string" where
  "or_WorkspaceID r \<equiv> wr_WorkspaceID (or_Workspace r)"
abbreviation or_Epoch :: "operation_request \<Rightarrow> u64" where
  "or_Epoch r \<equiv> wr_Epoch (or_Workspace r)"

definition without_grant :: "operation_request \<Rightarrow> operation_request" where
  "without_grant r = r\<lparr>or_Workspace := (or_Workspace r)\<lparr>wr_Grant := []\<rparr>\<rparr>"

lemma without_grant_frame [simp]:
  "or_OperationID (without_grant r) = or_OperationID r"
  "or_ExpectedRevision (without_grant r) = or_ExpectedRevision r"
  "or_Kind (without_grant r) = or_Kind r" "or_Args (without_grant r) = or_Args r"
  "or_ArgsHash (without_grant r) = or_ArgsHash r"
  "or_PolicyVersion (without_grant r) = or_PolicyVersion r"
  "or_Deadline (without_grant r) = or_Deadline r"
  "or_TenantID (without_grant r) = or_TenantID r" "or_RunID (without_grant r) = or_RunID r"
  "or_WorkspaceID (without_grant r) = or_WorkspaceID r" "or_Epoch (without_grant r) = or_Epoch r"
  "wr_Grant (or_Workspace (without_grant r)) = []"
  by (simp_all add: without_grant_def)

subsection \<open>Workspaces and operations\<close>

record artifact_ref =
  ar_TenantID :: string
  ar_RunID :: string
  ar_Kind :: string
  ar_ObjectKey :: string
  ar_SHA256 :: string
  ar_Size :: int

definition zero_ref :: artifact_ref where
  "zero_ref = \<lparr>ar_TenantID = [], ar_RunID = [], ar_Kind = [], ar_ObjectKey = [], ar_SHA256 = [],
     ar_Size = 0\<rparr>"

record workspace =
  ws_TenantID :: string
  ws_RunID :: string
  ws_ID :: string
  ws_SourceID :: string
  ws_ProfileID :: string
  ws_Epoch :: u64
  ws_Revision :: u64
  ws_ActiveOperation :: string
  ws_Stopped :: bool
  ws_Adopting :: bool
  ws_Released :: bool
  ws_BaselineHash :: string

datatype op_status = OpPrepared | OpRunning | OpSucceeded | OpFailed | OpCancelled | OpUnknown

fun Status_Terminal :: "op_status \<Rightarrow> bool" where
  "Status_Terminal OpSucceeded = True"
| "Status_Terminal OpFailed = True"
| "Status_Terminal OpCancelled = True"
| "Status_Terminal _ = False"

lemma Status_Terminal_iff: "Status_Terminal s \<longleftrightarrow> s = OpSucceeded \<or> s = OpFailed \<or> s = OpCancelled"
  by (cases s) simp_all

lemma not_Terminal_iff: "\<not> Status_Terminal s \<longleftrightarrow> s \<in> {OpPrepared, OpRunning, OpUnknown}"
  by (cases s) simp_all

record operation =
  op_Request :: operation_request
  op_Status :: op_status
  op_JobID :: string
  op_BeforeHash :: string
  op_ExpectedAfterHash :: string
  op_AfterHash :: string
  op_AfterRevision :: u64
  op_Result :: bytes
  op_ResultTruncated :: bool
  op_Receipt :: artifact_ref
  op_Error :: string
  op_CancelRequested :: bool

abbreviation op_ID :: "operation \<Rightarrow> string" where
  "op_ID o' \<equiv> or_OperationID (op_Request o')"

abbreviation op_WorkspaceID :: "operation \<Rightarrow> string" where
  "op_WorkspaceID o' \<equiv> or_WorkspaceID (op_Request o')"

record runner_stop_receipt =
  rs_Workspace :: workspace
  rs_NoActiveOperations :: bool
  rs_Ref :: artifact_ref

text \<open>\<open>Snapshot\<close> and \<open>ReleaseResult\<close>.\<close>

record snapshot =
  sn_Workspace :: workspace
  sn_Hash :: string
  sn_Artifact :: artifact_ref

record release_result =
  rl_WorkspaceID :: string
  rl_Released :: bool

definition isProcess :: "string \<Rightarrow> bool" where
  "isProcess kind \<longleftrightarrow> kind = ''run_command'' \<or> kind = ''verify''"

subsection \<open>Log policies\<close>

record log_policy =
  lp_EntryBytes :: int
  lp_OperationBytes :: int
  lp_RunBytes :: int
  lp_MaxOperations :: int
  lp_PreviewBytes :: int

text \<open>One turn of the loop of \<open>Normalize\<close>: a zero limit becomes its maximum.\<close>

definition normalize_limit :: "int \<Rightarrow> int \<Rightarrow> rerr + int" where
  "normalize_limit mx v =
     (let v' = (if v = 0 then mx else v)
      in if v' < 1 \<or> mx < v' then Inl (wrapped ErrInvalid ''log policy limit'') else Inr v')"

definition LogPolicy_Normalize :: "log_policy \<Rightarrow> rerr + log_policy" where
  "LogPolicy_Normalize p =
     res_bind (normalize_limit 16384 (lp_EntryBytes p)) (\<lambda>entry.
     res_bind (normalize_limit 524288 (lp_OperationBytes p)) (\<lambda>oper.
     res_bind (normalize_limit 16777216 (lp_RunBytes p)) (\<lambda>run.
     res_bind (normalize_limit 32 (lp_MaxOperations p)) (\<lambda>ops.
     res_bind (normalize_limit 65536 (lp_PreviewBytes p)) (\<lambda>preview.
       if entry < 64 \<or> oper < entry \<or> run < oper \<or> oper < preview
       then Inl (wrapped ErrInvalid ''inconsistent log policy'')
       else Inr \<lparr>lp_EntryBytes = entry, lp_OperationBytes = oper, lp_RunBytes = run,
                 lp_MaxOperations = ops, lp_PreviewBytes = preview\<rparr>)))))"

definition log_policy_ok :: "log_policy \<Rightarrow> bool" where
  "log_policy_ok p \<longleftrightarrow> 64 \<le> lp_EntryBytes p \<and> lp_EntryBytes p \<le> lp_OperationBytes p
     \<and> lp_OperationBytes p \<le> lp_RunBytes p \<and> 1 \<le> lp_PreviewBytes p
     \<and> lp_PreviewBytes p \<le> lp_OperationBytes p \<and> 1 \<le> lp_MaxOperations p
     \<and> lp_EntryBytes p \<le> 16384 \<and> lp_OperationBytes p \<le> 524288 \<and> lp_RunBytes p \<le> 16777216
     \<and> lp_MaxOperations p \<le> 32 \<and> lp_PreviewBytes p \<le> 65536"

lemma normalize_limit_Inr:
  "0 < mx \<Longrightarrow> normalize_limit mx v = Inr w \<longleftrightarrow> (v = 0 \<and> w = mx) \<or> (v = w \<and> 1 \<le> w \<and> w \<le> mx)"
  by (auto simp: normalize_limit_def Let_def)

lemma LogPolicy_Normalize_ok: "LogPolicy_Normalize p = Inr q \<Longrightarrow> log_policy_ok q"
  unfolding LogPolicy_Normalize_def
  by (elim res_bind_InrE) (auto simp: normalize_limit_Inr log_policy_ok_def split: if_splits)

text \<open>A normalized policy is its own normal form, which is what a stored policy is checked against.\<close>

lemma LogPolicy_Normalize_id: "LogPolicy_Normalize q = Inr q \<longleftrightarrow> log_policy_ok q"
proof
  assume ok: "log_policy_ok q"
  then have "normalize_limit 16384 (lp_EntryBytes q) = Inr (lp_EntryBytes q)"
    "normalize_limit 524288 (lp_OperationBytes q) = Inr (lp_OperationBytes q)"
    "normalize_limit 16777216 (lp_RunBytes q) = Inr (lp_RunBytes q)"
    "normalize_limit 32 (lp_MaxOperations q) = Inr (lp_MaxOperations q)"
    "normalize_limit 65536 (lp_PreviewBytes q) = Inr (lp_PreviewBytes q)"
    by (auto simp: normalize_limit_Inr log_policy_ok_def)
  with ok show "LogPolicy_Normalize q = Inr q"
    by (simp add: LogPolicy_Normalize_def log_policy_ok_def)
qed (rule LogPolicy_Normalize_ok)

subsection \<open>Sandbox jobs\<close>

record log_summary =
  lg_SchemaVersion :: int
  lg_Policy :: log_policy
  lg_OperationID :: string
  lg_BindingHash :: string
  lg_StdoutSeen :: u64
  lg_StderrSeen :: u64
  lg_RetainedBytes :: int
  lg_RetainedPayload :: int
  lg_Records :: u64
  lg_Complete :: bool
  lg_DroppedKnown :: bool
  lg_DroppedBytes :: u64
  lg_Truncated :: bool
  lg_Reason :: string
  lg_TerminationRequested :: bool
  lg_TerminationObserved :: bool
  lg_Artifact :: artifact_ref

record job =
  jb_ContainerID :: string
  jb_ContainerName :: string
  jb_StrictLogs :: bool
  jb_Log :: "log_summary option"
  jb_ID :: string
  jb_Running :: bool
  jb_ExitCode :: int
  jb_Started :: bool
  jb_Output :: bytes
  jb_Truncated :: bool
  jb_Error :: string
  jb_Interrupted :: bool
  jb_NeverStarted :: bool

definition VerificationLogValid :: "job \<Rightarrow> bool" where
  "VerificationLogValid j = (case jb_Log j of None \<Rightarrow> True
     | Some l \<Rightarrow> lg_Complete l \<and> \<not> lg_Truncated l \<and> lg_Reason l = [] \<and> \<not> lg_TerminationRequested l)"

end
