(* ===== verification/Go_Base64.thy ===== *)
theory Go_Base64
  imports Go_Text
begin

section \<open>base64.RawURLEncoding\<close>

text \<open>
  The unpadded URL alphabet of \<open>encoding/base64\<close>. \<open>DecodeString\<close> skips carriage returns and
  line feeds, ignores the unused low bits of an incomplete final quantum, and rejects a
  single left-over character and every character outside the alphabet, \<open>=\<close> included.
\<close>

definition b64_char :: "nat \<Rightarrow> char" where
  "b64_char n = char_of
     (if n < 26 then 65 + n else if n < 52 then 71 + n else if n < 62 then n - 4
      else if n = 62 then 45 else 95 :: nat)"

definition b64_val :: "char \<Rightarrow> nat option" where
  "b64_val c = (let n = (of_char c :: nat) in
     if 65 \<le> n \<and> n < 91 then Some (n - 65)
     else if 97 \<le> n \<and> n < 123 then Some (n - 71)
     else if 48 \<le> n \<and> n < 58 then Some (n + 4)
     else if n = 45 then Some 62
     else if n = 95 then Some 63
     else None)"

fun b64_sextets :: "nat list \<Rightarrow> nat list" where
  "b64_sextets [] = []"
| "b64_sextets [a] = [a div 4, (a mod 4) * 16]"
| "b64_sextets [a, b] = [a div 4, (a mod 4) * 16 + b div 16, (b mod 16) * 4]"
| "b64_sextets (a # b # c # s) =
     [a div 4, (a mod 4) * 16 + b div 16, (b mod 16) * 4 + c div 64, c mod 64] @ b64_sextets s"

fun b64_octets :: "nat list \<Rightarrow> nat list option" where
  "b64_octets [] = Some []"
| "b64_octets [a] = None"
| "b64_octets [a, b] = Some [a * 4 + b div 16]"
| "b64_octets [a, b, c] = Some [a * 4 + b div 16, (b mod 16) * 16 + c div 4]"
| "b64_octets (a # b # c # d # s) =
     map_option ((@) [a * 4 + b div 16, (b mod 16) * 16 + c div 4, (c mod 4) * 64 + d]) (b64_octets s)"

definition b64_encode :: "bytes \<Rightarrow> string" where
  "b64_encode s = map b64_char (b64_sextets (map of_char s))"

definition b64_newline :: "char \<Rightarrow> bool" where
  "b64_newline c \<longleftrightarrow> (of_char c :: nat) = 10 \<or> (of_char c :: nat) = 13"

definition b64_decode :: "string \<Rightarrow> bytes option" where
  "b64_decode s =
     (case those (map b64_val (filter (\<lambda>c. \<not> b64_newline c) s)) of
        None \<Rightarrow> None
      | Some vs \<Rightarrow> map_option (map char_of) (b64_octets vs))"

lemma b64_char_code:
  "n < 64 \<Longrightarrow> of_char (b64_char n) =
     (if n < 26 then 65 + n else if n < 52 then 71 + n else if n < 62 then n - 4
      else if n = 62 then 45 else 95)"
  by (simp add: b64_char_def)

lemma b64_val_char: "n < 64 \<Longrightarrow> b64_val (b64_char n) = Some n"
  unfolding b64_val_def Let_def by (simp add: b64_char_code; arith)

lemma b64_char_not_newline: "n < 64 \<Longrightarrow> \<not> b64_newline (b64_char n)"
  unfolding b64_newline_def by (simp add: b64_char_code; arith)

lemma b64_char_not_dot: "n < 64 \<Longrightarrow> b64_char n \<noteq> CHR ''.''"
proof
  assume n: "n < 64" and "b64_char n = CHR ''.''"
  then have "b64_val (CHR ''.'') = Some n" using b64_val_char by metis
  then show False by (simp add: b64_val_def Let_def)
qed

lemma b64_sextets_bound: "\<forall>x \<in> set s. x < 256 \<Longrightarrow> \<forall>n \<in> set (b64_sextets s). n < 64"
proof (induction s rule: b64_sextets.induct)
  case (4 a b c s)
  have "a div 4 < 64" "b div 16 < 16" "c div 64 < 4" using 4(2) by auto
  moreover have "a mod 4 < 4" "b mod 16 < 16" by simp_all
  ultimately have "(a mod 4) * 16 + b div 16 < 64" "(b mod 16) * 4 + c div 64 < 64" by linarith+
  with 4 show ?case by auto
next
  case (3 a b)
  have "a mod 4 < 4" "b div 16 < 16" "b mod 16 < 16" using 3 by auto
  then have "(a mod 4) * 16 + b div 16 < 64" "(b mod 16) * 4 < 64" by linarith+
  with 3 show ?case by auto
next
  case (2 a)
  have "(a mod 4) * 16 < 64" using mod_less_divisor [of 4 a] by linarith
  with 2 show ?case by auto
qed simp

lemma b64_octets_sextets: "\<forall>x \<in> set s. x < 256 \<Longrightarrow> b64_octets (b64_sextets s) = Some s"
proof (induction s rule: b64_sextets.induct)
  case (4 a b c s)
  have q: "((a mod 4) * 16 + b div 16) div 16 = a mod 4" "((a mod 4) * 16 + b div 16) mod 16 = b div 16"
    "((b mod 16) * 4 + c div 64) div 4 = b mod 16" "((b mod 16) * 4 + c div 64) mod 4 = c div 64"
    using 4(2) by (auto simp: div_add1_eq mod_add_eq)
  with 4 show ?case by (auto simp: div_mult_mod_eq mult.commute)
next
  case (3 a b)
  have q: "((a mod 4) * 16 + b div 16) div 16 = a mod 4" "((a mod 4) * 16 + b div 16) mod 16 = b div 16"
    using 3 by (auto simp: div_add1_eq)
  then show ?case by simp
qed simp_all

lemma of_char_bound: "x \<in> set (map of_char (s :: string)) \<Longrightarrow> x < (256 :: nat)"
  by auto

lemma b64_decode_encode: "b64_decode (b64_encode s) = Some s"
proof -
  let ?b = "b64_sextets (map of_char s)"
  have bound: "\<forall>n \<in> set ?b. n < 64"
    by (rule b64_sextets_bound) (auto dest: of_char_bound)
  have "filter (\<lambda>c. \<not> b64_newline c) (map b64_char ?b) = map b64_char ?b"
    using bound by (intro filter_True) (auto simp: b64_char_not_newline)
  moreover have "those (map b64_val (map b64_char ns)) = Some ns" if "\<forall>n \<in> set ns. n < 64" for ns
    using that by (induction ns) (auto simp: b64_val_char)
  moreover have "b64_octets ?b = Some (map of_char s)"
    by (rule b64_octets_sextets) (auto dest: of_char_bound)
  ultimately show ?thesis using bound
    by (simp add: b64_decode_def b64_encode_def comp_def map_idI)
qed

lemma b64_encode_no_dot: "CHR ''.'' \<notin> set (b64_encode s)"
proof
  assume "CHR ''.'' \<in> set (b64_encode s)"
  then obtain n where n: "n \<in> set (b64_sextets (map of_char s))" and c: "b64_char n = CHR ''.''"
    by (auto simp: b64_encode_def)
  have "n < 64" using b64_sextets_bound [of "map of_char s"] n by (auto dest: of_char_bound)
  then show False using b64_char_not_dot c by blast
qed

end
