(* ===== verification/Runner_Grant.thy ===== *)
theory Runner_Grant
  imports Runner_Types Go_Base64
begin

section \<open>Execution grants (internal/runner/grant.go)\<close>

text \<open>
  A grant is the base64 form of a JSON document of claims, a dot, and the base64 form of its
  HMAC-SHA256 under the key the control plane and the runner share. \<open>hmac\<close> is the digest,
  \<open>enc\<close> and \<open>dec\<close> are \<open>json.Marshal\<close> and \<open>json.Unmarshal\<close> of \<open>Claims\<close> (either may fail); the
  theorems name what they use of them. Times are unbounded nanosecond counts, and the
  saturation of \<open>time.Sub\<close> is written out.
\<close>

record claims =
  cl_Purpose :: string
  cl_CleanupID :: string
  cl_TenantID :: string
  cl_RunID :: string
  cl_WorkspaceID :: string
  cl_Epoch :: u64
  cl_Permissions :: "string list"
  cl_IssuedAt :: gotime
  cl_ExpiresAt :: gotime

record signer =
  sg_key :: bytes
  sg_Skew :: duration
  sg_MaxTTL :: duration

definition NewSigner :: "bytes \<Rightarrow> err + signer" where
  "NewSigner key =
     (if length key < 32 then Inl ErrInvalid
      else Inr \<lparr>sg_key = key, sg_Skew = 1000000000, sg_MaxTTL = 120000000000\<rparr>)"

text \<open>The two permission lists of the switch.\<close>

definition maintenance_permission :: "string \<Rightarrow> bool" where
  "maintenance_permission p \<longleftrightarrow> p = ''cancel'' \<or> p = ''snapshot'' \<or> p = ''inspect'' \<or> p = ''release''"

definition execution_permission :: "string \<Rightarrow> bool" where
  "execution_permission p \<longleftrightarrow> p = ''prepare'' \<or> p = ''adopt'' \<or> p = ''execute'' \<or> p = ''verify''"

definition permission_allowed :: "string \<Rightarrow> string \<Rightarrow> bool" where
  "permission_allowed purpose p \<longleftrightarrow>
     maintenance_permission p \<or> (execution_permission p \<and> purpose \<noteq> ''cleanup'')"

definition Signer_validate :: "signer \<Rightarrow> claims \<Rightarrow> gotime \<Rightarrow> err option" where
  "Signer_validate s c now =
     (if cl_Purpose c = [] \<and> cl_CleanupID c \<noteq> [] then Some ErrForbidden
      else if cl_Purpose c = ''cleanup'' \<and> \<not> valid_id (cl_CleanupID c) then Some ErrForbidden
      else if cl_Purpose c \<noteq> [] \<and> cl_Purpose c \<noteq> ''cleanup'' then Some ErrForbidden
      else if cl_Permissions c = [] then Some ErrForbidden
      else if \<not> list_all (permission_allowed (cl_Purpose c)) (cl_Permissions c) then Some ErrForbidden
      else if \<not> valid_id (cl_TenantID c) \<or> \<not> valid_id (cl_RunID c) \<or> \<not> valid_id (cl_WorkspaceID c)
        \<or> cl_Epoch c = 0 \<or> 2 ^ 63 - 1 < cl_Epoch c \<or> cl_IssuedAt c = 0 \<or> now = 0
        \<or> \<not> now < cl_ExpiresAt c \<or> now + sg_Skew s < cl_IssuedAt c
        \<or> \<not> cl_IssuedAt c < cl_ExpiresAt c
        \<or> sg_MaxTTL s < time_Sub (cl_ExpiresAt c) (cl_IssuedAt c)
      then Some ErrFenced
      else None)"

type_synonym hmac_fun = "bytes \<Rightarrow> bytes \<Rightarrow> bytes"
type_synonym claims_encoder = "claims \<Rightarrow> bytes option"
type_synonym claims_decoder = "bytes \<Rightarrow> claims option"

definition marshal_error :: rerr where
  "marshal_error = ROther ''json: error calling MarshalJSON''"

definition Signer_sign :: "hmac_fun \<Rightarrow> claims_encoder \<Rightarrow> signer \<Rightarrow> claims \<Rightarrow> gotime \<Rightarrow> rerr + string" where
  "Signer_sign hmac enc s c leaseUntil =
     (case Signer_validate s c (cl_IssuedAt c) of
        Some e \<Rightarrow> Inl (sentinel e)
      | None \<Rightarrow>
          if leaseUntil - sg_Skew s < cl_ExpiresAt c
          then Inl (wrapped ErrFenced ''grant outlives database lease safety margin'')
          else case enc c of
              None \<Rightarrow> Inl marshal_error
            | Some body \<Rightarrow>
                Inr (b64_encode body @ ''.'' @ b64_encode (hmac (sg_key s) (b64_encode body))))"

definition Signer_Sign :: "hmac_fun \<Rightarrow> claims_encoder \<Rightarrow> signer \<Rightarrow> claims \<Rightarrow> gotime \<Rightarrow> rerr + string" where
  "Signer_Sign hmac enc s c leaseUntil =
     (if cl_Purpose c \<noteq> [] \<or> cl_CleanupID c \<noteq> [] then Inl (sentinel ErrForbidden)
      else Signer_sign hmac enc s c leaseUntil)"

definition Signer_SignCleanup ::
    "hmac_fun \<Rightarrow> claims_encoder \<Rightarrow> signer \<Rightarrow> claims \<Rightarrow> gotime \<Rightarrow> rerr + string" where
  "Signer_SignCleanup hmac enc s c cleanupLeaseUntil =
     (if cl_Purpose c \<noteq> ''cleanup'' \<or> \<not> valid_id (cl_CleanupID c) then Inl (sentinel ErrForbidden)
      else Signer_sign hmac enc s c cleanupLeaseUntil)"

text \<open>The body of the token when its signature is right.\<close>

definition authentic_body :: "hmac_fun \<Rightarrow> signer \<Rightarrow> string \<Rightarrow> bytes option" where
  "authentic_body hmac s token =
     (if 8192 < length token then None
      else case split_on CHR ''.'' token of
          [encoded, signature] \<Rightarrow>
            (case b64_decode signature of
               None \<Rightarrow> None
             | Some sig \<Rightarrow> if sig \<noteq> hmac (sg_key s) encoded then None else b64_decode encoded)
        | _ \<Rightarrow> None)"

definition Signer_Verify :: "hmac_fun \<Rightarrow> claims_decoder \<Rightarrow> signer \<Rightarrow> string \<Rightarrow> workspace_request
    \<Rightarrow> string \<Rightarrow> gotime \<Rightarrow> err option" where
  "Signer_Verify hmac dec s token request permission now =
     (case authentic_body hmac s token of
        None \<Rightarrow> Some ErrForbidden
      | Some body \<Rightarrow>
          (case dec body of
             None \<Rightarrow> Some ErrForbidden
           | Some c \<Rightarrow>
               (case Signer_validate s c now of
                  Some e \<Rightarrow> Some e
                | None \<Rightarrow>
                    if cl_TenantID c \<noteq> wr_TenantID request \<or> cl_RunID c \<noteq> wr_RunID request
                      \<or> cl_WorkspaceID c \<noteq> wr_WorkspaceID request \<or> cl_Epoch c \<noteq> wr_Epoch request
                    then Some ErrForbidden
                    else if permission \<in> set (cl_Permissions c) then None
                    else Some ErrForbidden)))"

subsection \<open>What validation and verification establish\<close>

lemma Signer_validate_None:
  "Signer_validate s c now = None \<longleftrightarrow>
     ((cl_Purpose c = [] \<and> cl_CleanupID c = []) \<or> (cl_Purpose c = ''cleanup'' \<and> valid_id (cl_CleanupID c)))
     \<and> cl_Permissions c \<noteq> [] \<and> list_all (permission_allowed (cl_Purpose c)) (cl_Permissions c)
     \<and> valid_id (cl_TenantID c) \<and> valid_id (cl_RunID c) \<and> valid_id (cl_WorkspaceID c)
     \<and> 0 < cl_Epoch c \<and> cl_Epoch c \<le> 2 ^ 63 - 1 \<and> cl_IssuedAt c \<noteq> 0 \<and> now \<noteq> 0
     \<and> now < cl_ExpiresAt c \<and> cl_IssuedAt c \<le> now + sg_Skew s \<and> cl_IssuedAt c < cl_ExpiresAt c
     \<and> time_Sub (cl_ExpiresAt c) (cl_IssuedAt c) \<le> sg_MaxTTL s"
  unfolding Signer_validate_def by (auto simp: word_neq_0_conv not_less)

lemma permission_allowed_cases:
  "permission_allowed purpose p \<Longrightarrow> maintenance_permission p \<or> (execution_permission p \<and> purpose \<noteq> ''cleanup'')"
  by (simp add: permission_allowed_def)

lemma maintenance_not_execution: "maintenance_permission p \<Longrightarrow> \<not> execution_permission p"
  by (auto simp: maintenance_permission_def execution_permission_def)

lemma authentic_body_Some:
  "authentic_body hmac s token = Some body \<longleftrightarrow>
     length token \<le> 8192 \<and> (\<exists>encoded signature.
       token = encoded @ ''.'' @ signature \<and> CHR ''.'' \<notin> set encoded \<and> CHR ''.'' \<notin> set signature
       \<and> b64_decode signature = Some (hmac (sg_key s) encoded) \<and> b64_decode encoded = Some body)"
proof -
  have "(case ps of [e, sig] \<Rightarrow>
            (case b64_decode sig of None \<Rightarrow> None
             | Some m \<Rightarrow> if m \<noteq> hmac (sg_key s) e then None else b64_decode e) | _ \<Rightarrow> None) = Some body
     \<longleftrightarrow> (\<exists>e sig. ps = [e, sig] \<and> b64_decode sig = Some (hmac (sg_key s) e) \<and> b64_decode e = Some body)"
    for ps
    by (auto split: list.splits option.splits)
  from this [of "split_on CHR ''.'' token"] show ?thesis
    unfolding authentic_body_def by (auto simp: split_on_two_iff not_less)
qed

lemma Signer_Verify_None:
  "Signer_Verify hmac dec s token r p now = None \<longleftrightarrow>
     (\<exists>body c. authentic_body hmac s token = Some body \<and> dec body = Some c
        \<and> Signer_validate s c now = None \<and> cl_TenantID c = wr_TenantID r \<and> cl_RunID c = wr_RunID r
        \<and> cl_WorkspaceID c = wr_WorkspaceID r \<and> cl_Epoch c = wr_Epoch r \<and> p \<in> set (cl_Permissions c))"
  unfolding Signer_Verify_def by (auto split: option.splits)

lemma Signer_Verify_bound:
  assumes "Signer_Verify hmac dec s token r p now = None"
  shows "0 < wr_Epoch r" "wr_Epoch r \<le> 2 ^ 63 - 1" "valid_id (wr_WorkspaceID r)"
    "valid_id (wr_TenantID r)" "valid_id (wr_RunID r)"
  using assms unfolding Signer_Verify_None Signer_validate_None by auto

lemma Signer_sign_Inr:
  assumes "Signer_sign hmac enc s c until = Inr token"
  obtains body where "Signer_validate s c (cl_IssuedAt c) = None"
    and "cl_ExpiresAt c \<le> until - sg_Skew s" and "enc c = Some body"
    and "token = b64_encode body @ ''.'' @ b64_encode (hmac (sg_key s) (b64_encode body))"
  using assms unfolding Signer_sign_def by (auto split: option.splits if_splits simp: not_less)

lemma authentic_signed:
  assumes "length (b64_encode body @ ''.'' @ b64_encode (hmac (sg_key s) (b64_encode body))) \<le> 8192"
  shows "authentic_body hmac s (b64_encode body @ ''.'' @ b64_encode (hmac (sg_key s) (b64_encode body)))
     = Some body"
  using assms unfolding authentic_body_Some
  by (auto simp: b64_encode_no_dot b64_decode_encode intro!: exI)

definition issued :: "hmac_fun \<Rightarrow> claims_encoder \<Rightarrow> signer \<Rightarrow> claims \<Rightarrow> gotime \<Rightarrow> string \<Rightarrow> bool" where
  "issued hmac enc s c until token \<longleftrightarrow>
     Signer_Sign hmac enc s c until = Inr token \<or> Signer_SignCleanup hmac enc s c until = Inr token"

lemma issued_signed: "issued hmac enc s c until token \<Longrightarrow> Signer_sign hmac enc s c until = Inr token"
  by (auto simp: issued_def Signer_Sign_def Signer_SignCleanup_def split: if_splits)

subsection \<open>Properties\<close>

text \<open>
  C30. A grant the control plane issued is accepted by the runner for exactly the workspace and
  epoch it names, for every permission it lists, at every moment of its lifetime and from up to
  the clock skew before it was issued.
\<close>

theorem issued_grant_verifies:
  assumes round_trip: "\<And>c body. enc c = Some body \<Longrightarrow> dec body = Some c"
    and token: "issued hmac enc s c until token" and fits: "length token \<le> 8192"
    and bound: "wr_TenantID r = cl_TenantID c" "wr_RunID r = cl_RunID c"
      "wr_WorkspaceID r = cl_WorkspaceID c" "wr_Epoch r = cl_Epoch c"
    and now: "cl_IssuedAt c - sg_Skew s \<le> now" "now < cl_ExpiresAt c" "now \<noteq> 0"
  shows "Signer_Verify hmac dec s token r p now = None \<longleftrightarrow> p \<in> set (cl_Permissions c)"
proof -
  obtain body where valid: "Signer_validate s c (cl_IssuedAt c) = None" and body: "enc c = Some body"
    and tok: "token = b64_encode body @ ''.'' @ b64_encode (hmac (sg_key s) (b64_encode body))"
    using issued_signed [OF token] by (rule Signer_sign_Inr)
  have auth: "authentic_body hmac s token = Some body"
    using fits unfolding tok by (rule authentic_signed)
  have "Signer_validate s c now = None"
    using valid now unfolding Signer_validate_None by auto
  then show ?thesis
    unfolding Signer_Verify_None using auth round_trip [OF body] bound by auto
qed

definition gdemo_claims :: claims where
  "gdemo_claims = \<lparr>cl_Purpose = [], cl_CleanupID = [], cl_TenantID = ''t1'', cl_RunID = ''r1'',
     cl_WorkspaceID = ''w1'', cl_Epoch = 3, cl_Permissions = [''execute'', ''inspect''],
     cl_IssuedAt = 1000000000000, cl_ExpiresAt = 1060000000000\<rparr>"

definition gdemo_signer :: signer where
  "gdemo_signer = \<lparr>sg_key = replicate 32 CHR ''k'', sg_Skew = 1000000000, sg_MaxTTL = 120000000000\<rparr>"

definition gdemo_request :: workspace_request where
  "gdemo_request = \<lparr>wr_TenantID = ''t1'', wr_RunID = ''r1'', wr_WorkspaceID = ''w1'', wr_Epoch = 3,
     wr_Grant = []\<rparr>"

definition gdemo_enc :: claims_encoder where
  "gdemo_enc c = (if c = gdemo_claims then Some ''{}'' else None)"

definition gdemo_dec :: claims_decoder where
  "gdemo_dec b = (if b = ''{}'' then Some gdemo_claims else None)"

definition gdemo_hmac :: hmac_fun where
  "gdemo_hmac k b = rev b"

lemmas gdemo_grant_defs = gdemo_claims_def gdemo_signer_def gdemo_request_def gdemo_hmac_def

lemma gdemo_token:
  "Signer_Sign gdemo_hmac gdemo_enc gdemo_signer gdemo_claims 1100000000000 = Inr ''e30.MDNl''"
  by code_simp

theorem issued_grant_verifies_witness:
  "Signer_Verify gdemo_hmac gdemo_dec gdemo_signer ''e30.MDNl'' gdemo_request ''execute'' 1010000000000 = None
   \<and> Signer_Verify gdemo_hmac gdemo_dec gdemo_signer ''e30.MDNl'' gdemo_request ''release'' 1010000000000
     \<noteq> None"
proof -
  have tok: "issued gdemo_hmac gdemo_enc gdemo_signer gdemo_claims 1100000000000 ''e30.MDNl''"
    by (simp add: issued_def gdemo_token)
  have rt: "\<And>c body. gdemo_enc c = Some body \<Longrightarrow> gdemo_dec body = Some c"
    by (auto simp: gdemo_enc_def gdemo_dec_def split: if_splits)
  note ok = issued_grant_verifies [of gdemo_enc gdemo_dec gdemo_hmac gdemo_signer gdemo_claims
      1100000000000 "''e30.MDNl''" gdemo_request 1010000000000, OF rt tok]
  show ?thesis
    using ok [of "''execute''"] ok [of "''release''"] by (simp add: gdemo_grant_defs)
qed



text \<open>
  A grant issued for workspace cleanup is accepted for cancelling, inspecting, snapshotting
  and releasing the workspace it names, and never for preparing, adopting, executing or verifying.
\<close>

theorem cleanup_grant_cannot_execute:
  assumes round_trip: "\<And>c body. enc c = Some body \<Longrightarrow> dec body = Some c"
    and token: "Signer_SignCleanup hmac enc s c until = Inr token"
    and accepted: "Signer_Verify hmac dec s token r p now = None"
  shows "maintenance_permission p \<and> \<not> execution_permission p
     \<and> wr_WorkspaceID r = cl_WorkspaceID c \<and> wr_Epoch r = cl_Epoch c"
proof -
  have sign: "Signer_sign hmac enc s c until = Inr token" and purpose: "cl_Purpose c = ''cleanup''"
    using token by (auto simp: Signer_SignCleanup_def split: if_splits)
  obtain body where body: "enc c = Some body"
    and tok: "token = b64_encode body @ ''.'' @ b64_encode (hmac (sg_key s) (b64_encode body))"
    using sign by (rule Signer_sign_Inr)
  obtain b c' where auth: "authentic_body hmac s token = Some b" and dec: "dec b = Some c'"
    and valid: "Signer_validate s c' now = None" and perm: "p \<in> set (cl_Permissions c')"
    and bound: "cl_WorkspaceID c' = wr_WorkspaceID r" "cl_Epoch c' = wr_Epoch r"
    using accepted unfolding Signer_Verify_None by blast
  have "authentic_body hmac s token = Some body"
    using auth unfolding authentic_body_Some tok
    by (auto simp: b64_encode_no_dot b64_decode_encode intro!: exI)
  then have "c' = c" using auth dec round_trip [OF body] by simp
  moreover have "permission_allowed (cl_Purpose c') p"
    using valid perm unfolding Signer_validate_None by (auto simp: list_all_iff)
  ultimately have "maintenance_permission p" using purpose by (auto simp: permission_allowed_def)
  then show ?thesis using bound \<open>c' = c\<close> maintenance_not_execution by auto
qed

definition gdemo_cleanup :: claims where
  "gdemo_cleanup = gdemo_claims\<lparr>cl_Purpose := ''cleanup'', cl_CleanupID := ''c1'',
     cl_Permissions := [''release'']\<rparr>"

theorem cleanup_grant_cannot_execute_witness:
  "maintenance_permission ''release'' \<and> \<not> execution_permission ''release''
   \<and> wr_WorkspaceID gdemo_request = cl_WorkspaceID gdemo_cleanup
   \<and> wr_Epoch gdemo_request = cl_Epoch gdemo_cleanup"
proof -
  define enc :: claims_encoder where "enc c = (if c = gdemo_cleanup then Some ''{}'' else None)" for c
  define dec :: claims_decoder where "dec b = (if b = ''{}'' then Some gdemo_cleanup else None)" for b
  have valid: "Signer_validate gdemo_signer gdemo_cleanup now = None"
    if "now = 1000000000000 \<or> now = 1010000000000" for now
    using that by (auto simp: gdemo_grant_defs gdemo_cleanup_def Signer_validate_None time_Sub_def
        int64_defs permission_allowed_def maintenance_permission_def ID_Validate_def id_char_def
        Let_def)
  have tok: "Signer_SignCleanup gdemo_hmac enc gdemo_signer gdemo_cleanup 1100000000000 = Inr ''e30.MDNl''"
  proof -
    have "b64_encode ''{}'' = ''e30''" "b64_encode (gdemo_hmac k ''e30'') = ''MDNl''" for k
      unfolding gdemo_hmac_def by code_simp+
    then show ?thesis using valid [of "cl_IssuedAt gdemo_cleanup"]
      by (auto simp: Signer_SignCleanup_def Signer_sign_def enc_def gdemo_cleanup_def gdemo_grant_defs
          ID_Validate_def id_char_def Let_def)
  qed
  have body: "authentic_body gdemo_hmac gdemo_signer ''e30.MDNl'' = Some ''{}''" by code_simp
  have acc: "Signer_Verify gdemo_hmac dec gdemo_signer ''e30.MDNl'' gdemo_request ''release''
      1010000000000 = None"
    unfolding Signer_Verify_None body
    using valid [of 1010000000000] by (auto simp: dec_def gdemo_cleanup_def gdemo_claims_def gdemo_request_def)
  show ?thesis
    by (rule cleanup_grant_cannot_execute [OF _ tok acc])
      (auto simp: enc_def dec_def split: if_splits)
qed

end
