(* ===== verification/Runner_Journal.thy ===== *)
theory Runner_Journal
  imports Runner_Types
begin

section \<open>The runner's journal (internal/runner/journal.go, log_journal.go, storage.go)\<close>

text \<open>
  The SQLite journal is the runner's only durable state. Each definition is one transaction:
  it returns the journal after the commit, or the unchanged journal and the error after the
  rollback. The connection pool has a single connection and every transaction is
  \<open>IMMEDIATE\<close>, so transactions do not overlap. A row holds the decoded form of its JSON columns;
  what \<open>json.Marshal\<close> does to a request on the way in (\<open>encode_request\<close>) is written out. I/O
  failures of SQLite, which change nothing, are not modelled.
\<close>

subsection \<open>Rows\<close>

record op_row =
  rw_ID :: string
  rw_WorkspaceID :: string
  rw_TenantID :: string
  rw_RunID :: string
  rw_Operation :: operation
  rw_DispatchStarted :: bool
  rw_DockerStartIntent :: bool

record log_run =
  lr_TenantID :: string
  lr_RunID :: string
  lr_Policy :: log_policy
  lr_ReservedBytes :: int
  lr_Operations :: int

datatype cleanup_state = Retained | Removing | Removed

record operation_log =
  ol_OperationID :: string
  ol_Policy :: log_policy
  ol_ContainerID :: string
  ol_CleanupState :: cleanup_state

record volume_spec =
  vs_ID :: string
  vs_MountPath :: string
  vs_ImagePath :: string
  vs_ImageDevice :: u64
  vs_ImageInode :: u64
  vs_ImageBytes :: int
  vs_Device :: string
  vs_FilesystemUUID :: string
  vs_MaxInodes :: u64

record volume_lease =
  vl_WorkspaceID :: string
  vl_SlotID :: string
  vl_TenantID :: string
  vl_RunID :: string
  vl_SourceID :: string
  vl_ProfileID :: string
  vl_Released :: bool
  vl_Epoch :: u64
  vl_SourceHash :: string

record journal =
  jr_Identity :: string
  jr_Workspaces :: "workspace list"
  jr_Operations :: "op_row list"
  jr_Artifacts :: "artifact_ref list"
  jr_LogRuns :: "log_run list"
  jr_OperationLogs :: "operation_log list"
  jr_VolumeSlots :: "volume_spec list"
  jr_VolumeLeases :: "volume_lease list"

type_synonym 'a journal_result = "journal \<times> (rerr + 'a)"

definition empty_journal :: "string \<Rightarrow> journal" where
  "empty_journal i = \<lparr>jr_Identity = i, jr_Workspaces = [], jr_Operations = [], jr_Artifacts = [],
     jr_LogRuns = [], jr_OperationLogs = [], jr_VolumeSlots = [], jr_VolumeLeases = []\<rparr>"

text \<open>\<open>database/sql\<close> refuses a \<open>uint64\<close> argument with the high bit set.\<close>

definition db_uint :: "u64 \<Rightarrow> bool" where
  "db_uint x \<longleftrightarrow> x < 2 ^ 63"

text \<open>\<open>identity\<close>: the stored identity must be the canonical hex form of 32 bytes.\<close>

definition hex_lower :: "char \<Rightarrow> bool" where
  "hex_lower c \<longleftrightarrow> (let n = (of_char c :: nat) in (48 \<le> n \<and> n < 58) \<or> (97 \<le> n \<and> n < 103))"

definition journal_identity :: "journal \<Rightarrow> rerr + string" where
  "journal_identity j =
     (if length (jr_Identity j) = 64 \<and> list_all hex_lower (jr_Identity j) then Inr (jr_Identity j)
      else Inl (wrapped ErrInvalid ''malformed journal identity''))"

abbreviation find_ws :: "journal \<Rightarrow> string \<Rightarrow> workspace option" where
  "find_ws j i \<equiv> tfind ws_ID i (jr_Workspaces j)"

abbreviation find_op :: "journal \<Rightarrow> string \<Rightarrow> op_row option" where
  "find_op j i \<equiv> tfind rw_ID i (jr_Operations j)"

definition modify_ws :: "string \<Rightarrow> (workspace \<Rightarrow> workspace) \<Rightarrow> journal \<Rightarrow> journal" where
  "modify_ws i f j = j\<lparr>jr_Workspaces := tmodify ws_ID i f (jr_Workspaces j)\<rparr>"

definition modify_op :: "string \<Rightarrow> (op_row \<Rightarrow> op_row) \<Rightarrow> journal \<Rightarrow> journal" where
  "modify_op i f j = j\<lparr>jr_Operations := tmodify rw_ID i f (jr_Operations j)\<rparr>"

subsection \<open>Requests as JSON\<close>

text \<open>
  \<open>json.Marshal\<close> of a request fails when its deadline has a year outside 0 to 9999 or its
  arguments are not JSON. It stores the arguments compacted: white space outside strings
  goes, and the characters \<open><\<close>, \<open>>\<close>, \<open>&\<close> and the two Unicode line separators are escaped.
  The first argument says whether the position is inside a string.
\<close>

fun compact_chars :: "bool \<Rightarrow> string \<Rightarrow> string" where
  "compact_chars q [] = []"
| "compact_chars q [c] =
     (if \<not> q \<and> is_ws c then []
      else if c = CHR ''<'' \<or> c = CHR ''>'' \<or> c = CHR ''&'' then escape_ascii c else [c])"
| "compact_chars q (c # d # s) =
     (if \<not> q \<and> is_ws c then compact_chars q (d # s)
      else if q \<and> c = CHR 0x5C then c # d # compact_chars q s
      else if c = CHR 0x22 then c # compact_chars (\<not> q) (d # s)
      else if c = CHR ''<'' \<or> c = CHR ''>'' \<or> c = CHR ''&'' then escape_ascii c @ compact_chars q (d # s)
      else if is_line_sep (c # d # take 1 s) then escape_rune (c # d # take 1 s) @ compact_chars q (drop 1 s)
      else c # compact_chars q (d # s))"

definition compact_args :: "bytes \<Rightarrow> bytes option" where
  "compact_args a =
     (if a = [] then Some ''null'' else if json_valid a then Some (compact_chars False a) else None)"

definition day :: duration where "day = 86400000000000"

definition json_time :: "gotime \<Rightarrow> bool" where
  "json_time t \<longleftrightarrow> - (366 * day) \<le> t \<and> t < 3652059 * day"

definition encode_request :: "operation_request \<Rightarrow> operation_request option" where
  "encode_request r =
     (if json_time (or_Deadline r)
      then map_option (\<lambda>a. r\<lparr>or_Args := a\<rparr>) (compact_args (or_Args r))
      else None)"

text \<open>
  \<open>sameBinding\<close> compares the encodings of the two requests with grant and epoch cleared; it
  ignores encoding errors, whose encoding is the empty string.
\<close>

definition wire_binding :: "operation_request \<Rightarrow> operation_request" where
  "wire_binding r = r\<lparr>or_Workspace := (or_Workspace r)\<lparr>wr_Grant := [], wr_Epoch := 0\<rparr>\<rparr>"

definition sameBinding :: "operation_request \<Rightarrow> operation_request \<Rightarrow> bool" where
  "sameBinding a b \<longleftrightarrow> encode_request (wire_binding a) = encode_request (wire_binding b)"

definition workspaceBinding :: "workspace \<Rightarrow> workspace_request \<Rightarrow> rerr option" where
  "workspaceBinding w r =
     (if ws_TenantID w \<noteq> wr_TenantID r \<or> ws_RunID w \<noteq> wr_RunID r \<or> ws_ID w \<noteq> wr_WorkspaceID r
      then Some (sentinel ErrForbidden) else None)"

subsection \<open>Reading\<close>

definition journal_workspace :: "journal \<Rightarrow> string \<Rightarrow> rerr + workspace" where
  "journal_workspace j i =
     (case find_ws j i of None \<Rightarrow> Inl (sentinel ErrNotFound) | Some w \<Rightarrow> Inr w)"

definition journal_operation :: "journal \<Rightarrow> string \<Rightarrow> rerr + operation" where
  "journal_operation j i =
     (case find_op j i of None \<Rightarrow> Inl (sentinel ErrNotFound) | Some r \<Rightarrow> Inr (rw_Operation r))"

subsection \<open>Workspaces\<close>

definition new_workspace_row :: "workspace \<Rightarrow> workspace" where
  "new_workspace_row w = w\<lparr>ws_ActiveOperation := [], ws_Stopped := False, ws_Adopting := False,
     ws_Released := False\<rparr>"

definition createWorkspace :: "journal \<Rightarrow> workspace \<Rightarrow> workspace journal_result" where
  "createWorkspace j w =
     (if \<not> db_uint (ws_Epoch w) \<or> \<not> db_uint (ws_Revision w) then (j, Inl sql_range_error)
      else case find_ws j (ws_ID w) of
          None \<Rightarrow>
            if ws_Epoch w = 0 \<or> ws_Revision w = 0 then (j, Inl constraint_error)
            else (j\<lparr>jr_Workspaces := tinsert (new_workspace_row w) (jr_Workspaces j)\<rparr>,
                  Inr (new_workspace_row w))
        | Some existing \<Rightarrow>
            if ws_TenantID existing \<noteq> ws_TenantID w \<or> ws_RunID existing \<noteq> ws_RunID w
              \<or> ws_SourceID existing \<noteq> ws_SourceID w \<or> ws_ProfileID existing \<noteq> ws_ProfileID w
              \<or> ws_BaselineHash existing \<noteq> ws_BaselineHash w
            then (j, Inl (sentinel ErrConflict)) else (j, Inr existing))"

definition setFence :: "journal \<Rightarrow> workspace_request \<Rightarrow> bool \<Rightarrow> workspace journal_result" where
  "setFence j r stop =
     (case find_ws j (wr_WorkspaceID r) of
        None \<Rightarrow> (j, Inl (sentinel ErrNotFound))
      | Some w \<Rightarrow>
          (case workspaceBinding w r of
             Some e \<Rightarrow> (j, Inl e)
           | None \<Rightarrow>
               if wr_Epoch r < ws_Epoch w \<or> ws_Released w \<or> (ws_Stopped w \<and> \<not> stop)
               then (j, Inl (sentinel ErrFenced))
               else if \<not> db_uint (wr_Epoch r) then (j, Inl sql_range_error)
               else (let f = (\<lambda>w. w\<lparr>ws_Epoch := wr_Epoch r, ws_Adopting := True,
                                    ws_Stopped := ws_Stopped w \<or> stop\<rparr>)
                     in (modify_ws (ws_ID w) f j, Inr (f w)))))"

definition fence :: "journal \<Rightarrow> workspace_request \<Rightarrow> workspace journal_result" where
  "fence j r = setFence j r False"

definition stopFence :: "journal \<Rightarrow> workspace_request \<Rightarrow> workspace journal_result" where
  "stopFence j r = setFence j r True"

definition completeAdoption :: "journal \<Rightarrow> workspace_request \<Rightarrow> workspace journal_result" where
  "completeAdoption j r =
     (if \<not> db_uint (wr_Epoch r) then (j, Inl sql_range_error)
      else case find_ws j (wr_WorkspaceID r) of
          None \<Rightarrow> (j, Inl (sentinel ErrReconciliation))
        | Some w \<Rightarrow>
            if ws_Epoch w = wr_Epoch r \<and> ws_ActiveOperation w = [] \<and> \<not> ws_Stopped w \<and> \<not> ws_Released w
            then (modify_ws (ws_ID w) (ws_Adopting_update (\<lambda>_. False)) j, Inr (w\<lparr>ws_Adopting := False\<rparr>))
            else (j, Inl (sentinel ErrReconciliation)))"

text \<open>The \<open>UPDATE\<close> of \<open>ReleaseWorkspace\<close>.\<close>

definition releaseRow :: "journal \<Rightarrow> workspace_request \<Rightarrow> unit journal_result" where
  "releaseRow j r =
     (if \<not> db_uint (wr_Epoch r) then (j, Inl sql_range_error)
      else case find_ws j (wr_WorkspaceID r) of
          None \<Rightarrow> (j, Inl (sentinel ErrFenced))
        | Some w \<Rightarrow>
            if ws_Epoch w = wr_Epoch r \<and> ws_ActiveOperation w = []
            then (modify_ws (ws_ID w) (\<lambda>w. w\<lparr>ws_Released := True, ws_Adopting := True\<rparr>) j, Inr ())
            else (j, Inl (sentinel ErrFenced)))"

subsection \<open>Log reservations\<close>

definition run_key :: "log_run \<Rightarrow> string \<times> string" where
  "run_key l = (lr_TenantID l, lr_RunID l)"

definition op_run :: "operation \<Rightarrow> string \<times> string" where
  "op_run x = (or_TenantID (op_Request x), or_RunID (op_Request x))"

text \<open>A process operation of the run, other than \<open>x\<close>, that has no log reservation.\<close>

definition legacy_row :: "journal \<Rightarrow> operation \<Rightarrow> op_row \<Rightarrow> bool" where
  "legacy_row j x r \<longleftrightarrow> rw_TenantID r = or_TenantID (op_Request x) \<and> rw_RunID r = or_RunID (op_Request x)
     \<and> rw_ID r \<noteq> op_ID x \<and> isProcess (or_Kind (op_Request (rw_Operation r)))
     \<and> tfind ol_OperationID (rw_ID r) (jr_OperationLogs j) = None"

definition reserveLogs :: "journal \<Rightarrow> operation \<Rightarrow> log_policy \<Rightarrow> rerr + journal" where
  "reserveLogs j x p =
     (if tcount (legacy_row j x) (jr_Operations j) \<noteq> 0
      then Inl (wrapped ErrReconciliation ''legacy log run requires a fresh run'')
      else
        (let runs = (case tfind run_key (op_run x) (jr_LogRuns j) of
                Some l \<Rightarrow> jr_LogRuns j
              | None \<Rightarrow> tinsert \<lparr>lr_TenantID = or_TenantID (op_Request x), lr_RunID = or_RunID (op_Request x),
                  lr_Policy = p, lr_ReservedBytes = 0, lr_Operations = 0\<rparr> (jr_LogRuns j))
         in case tfind run_key (op_run x) runs of
             None \<Rightarrow> Inl (ROther ''sql: no rows in result set'')
           | Some l \<Rightarrow>
               if lr_Policy l \<noteq> p then Inl (wrapped ErrConflict ''run log policy is immutable'')
               else if lp_MaxOperations p \<le> lr_Operations l
                 \<or> lp_RunBytes p - lp_OperationBytes p < lr_ReservedBytes l
               then Inl (wrapped ErrCapacity ''cumulative run log reservation exhausted'')
               else if tfind ol_OperationID (op_ID x) (jr_OperationLogs j) \<noteq> None
               then Inl constraint_error
               else Inr (j\<lparr>jr_LogRuns := tmodify run_key (op_run x)
                       (\<lambda>l. l\<lparr>lr_ReservedBytes := lr_ReservedBytes l + lp_OperationBytes p,
                              lr_Operations := lr_Operations l + 1\<rparr>) runs,
                     jr_OperationLogs := tinsert \<lparr>ol_OperationID = op_ID x, ol_Policy = p,
                       ol_ContainerID = [], ol_CleanupState = Retained\<rparr> (jr_OperationLogs j)\<rparr>)))"

definition logPolicy :: "journal \<Rightarrow> string \<Rightarrow> rerr + log_policy option" where
  "logPolicy j i =
     (case tfind ol_OperationID i (jr_OperationLogs j) of
        None \<Rightarrow> Inr None
      | Some l \<Rightarrow>
          (case LogPolicy_Normalize (ol_Policy l) of
             Inl e \<Rightarrow> Inl (sentinel ErrReconciliation)
           | Inr p \<Rightarrow> if p \<noteq> ol_Policy l then Inl (sentinel ErrReconciliation) else Inr (Some p)))"

definition recordLogContainer :: "journal \<Rightarrow> string \<Rightarrow> string \<Rightarrow> unit journal_result" where
  "recordLogContainer j i container =
     (case tfind ol_OperationID i (jr_OperationLogs j) of
        None \<Rightarrow> (j, Inl (sentinel ErrConflict))
      | Some l \<Rightarrow>
          if ol_ContainerID l = [] \<or> ol_ContainerID l = container
          then (j\<lparr>jr_OperationLogs := tmodify ol_OperationID i
                   (\<lambda>l. l\<lparr>ol_ContainerID := container\<rparr>) (jr_OperationLogs j)\<rparr>, Inr ())
          else (j, Inl (sentinel ErrConflict)))"

text \<open>The two \<open>UPDATE\<close>s of \<open>cleanupLogContainers\<close>.\<close>

definition setCleanupState :: "journal \<Rightarrow> string \<Rightarrow> cleanup_state \<Rightarrow> journal" where
  "setCleanupState j i s = j\<lparr>jr_OperationLogs := tmodify ol_OperationID i
     (\<lambda>l. l\<lparr>ol_CleanupState := s\<rparr>) (jr_OperationLogs j)\<rparr>"

subsection \<open>Operations\<close>

definition new_op_row :: "workspace \<Rightarrow> operation \<Rightarrow> operation_request \<Rightarrow> op_row" where
  "new_op_row w x req = \<lparr>rw_ID = op_ID x, rw_WorkspaceID = ws_ID w, rw_TenantID = ws_TenantID w,
     rw_RunID = ws_RunID w,
     rw_Operation = \<lparr>op_Request = req, op_Status = OpPrepared, op_JobID = op_JobID x,
       op_BeforeHash = op_BeforeHash x, op_ExpectedAfterHash = op_ExpectedAfterHash x,
       op_AfterHash = [], op_AfterRevision = 0, op_Result = ''{}'', op_ResultTruncated = False,
       op_Receipt = zero_ref, op_Error = [], op_CancelRequested = False\<rparr>,
     rw_DispatchStarted = False, rw_DockerStartIntent = False\<rparr>"

text \<open>The flag of the result says whether this call created the operation.\<close>

definition reserve :: "journal \<Rightarrow> operation \<Rightarrow> log_policy option \<Rightarrow> (operation \<times> bool) journal_result" where
  "reserve j x logs =
     (case find_ws j (op_WorkspaceID x) of
        None \<Rightarrow> (j, Inl (sentinel ErrNotFound))
      | Some w \<Rightarrow>
          (case workspaceBinding w (or_Workspace (op_Request x)) of
             Some e \<Rightarrow> (j, Inl e)
           | None \<Rightarrow>
               if ws_Epoch w \<noteq> or_Epoch (op_Request x) \<or> ws_Adopting w \<or> ws_Released w \<or> ws_Stopped w
               then (j, Inl (sentinel ErrFenced))
               else (case find_op j (op_ID x) of
                  Some existing \<Rightarrow>
                    if sameBinding (op_Request (rw_Operation existing)) (op_Request x)
                    then (j, Inr (rw_Operation existing, False)) else (j, Inl (sentinel ErrConflict))
                | None \<Rightarrow>
                    if ws_ActiveOperation w \<noteq> [] then (j, Inl (sentinel ErrCapacity))
                    else if ws_Revision w \<noteq> or_ExpectedRevision (op_Request x)
                    then (j, Inl (sentinel ErrConflict))
                    else (case encode_request (without_grant (op_Request x)) of
                       None \<Rightarrow> (j, Inl (ROther ''json: unsupported value''))
                     | Some req \<Rightarrow>
                         (let j1 = j\<lparr>jr_Operations := tinsert (new_op_row w x req) (jr_Operations j)\<rparr>;
                              x1 = x\<lparr>op_Request := without_grant (op_Request x), op_Status := OpPrepared\<rparr>
                          in case (case logs of
                                 Some p \<Rightarrow> if isProcess (or_Kind (op_Request x)) then reserveLogs j1 x p else Inr j1
                               | None \<Rightarrow> Inr j1) of
                              Inl e \<Rightarrow> (j, Inl e)
                            | Inr j2 \<Rightarrow> (modify_ws (ws_ID w) (\<lambda>w. w\<lparr>ws_ActiveOperation := op_ID x\<rparr>) j2,
                                        Inr (x1, True)))))))"

abbreviation set_status :: "op_status \<Rightarrow> op_row \<Rightarrow> op_row" where
  "set_status s r \<equiv> r\<lparr>rw_Operation := (rw_Operation r)\<lparr>op_Status := s\<rparr>\<rparr>"

definition run_row :: "op_row \<Rightarrow> op_row" where
  "run_row r = (if op_Status (rw_Operation r) = OpPrepared
     then (set_status OpRunning r)\<lparr>rw_DispatchStarted := True\<rparr> else r)"

definition markRunning :: "journal \<Rightarrow> string \<Rightarrow> journal" where
  "markRunning j i = modify_op i run_row j"

definition unknown_row :: "string \<Rightarrow> op_row \<Rightarrow> op_row" where
  "unknown_row reason r = (if Status_Terminal (op_Status (rw_Operation r)) then r
     else r\<lparr>rw_Operation := (rw_Operation r)\<lparr>op_Status := OpUnknown, op_Error := reason\<rparr>\<rparr>)"

definition markUnknown :: "journal \<Rightarrow> string \<Rightarrow> string \<Rightarrow> journal" where
  "markUnknown j i reason = modify_op i (unknown_row reason) j"

definition cancel_row :: "op_row \<Rightarrow> op_row" where
  "cancel_row r = (if Status_Terminal (op_Status (rw_Operation r)) then r
     else r\<lparr>rw_Operation := (rw_Operation r)\<lparr>op_CancelRequested := True\<rparr>\<rparr>)"

definition requestCancel :: "journal \<Rightarrow> string \<Rightarrow> journal" where
  "requestCancel j i = modify_op i cancel_row j"

text \<open>The \<open>UPDATE\<close> of the \<open>BeforeStart\<close> callback of \<open>execute\<close>.\<close>

definition startIntent :: "journal \<Rightarrow> string \<Rightarrow> unit journal_result" where
  "startIntent j i =
     (case find_op j i of
        None \<Rightarrow> (j, Inl (sentinel ErrReconciliation))
      | Some r \<Rightarrow>
          if op_Status (rw_Operation r) = OpRunning \<and> \<not> op_CancelRequested (rw_Operation r)
          then (modify_op i (rw_DockerStartIntent_update (\<lambda>_. True)) j, Inr ())
          else (j, Inl (sentinel ErrReconciliation)))"

definition with_result :: "operation \<Rightarrow> operation" where
  "with_result x = (if op_Result x = [] then x\<lparr>op_Result := ''{}''\<rparr> else x)"

definition finish_row :: "operation \<Rightarrow> op_row \<Rightarrow> op_row" where
  "finish_row x r = r\<lparr>rw_Operation := (rw_Operation r)\<lparr>op_Status := op_Status x,
     op_AfterHash := op_AfterHash x, op_AfterRevision := op_AfterRevision x, op_Result := op_Result x,
     op_Receipt := op_Receipt x, op_Error := op_Error x\<rparr>\<rparr>"

definition finish :: "journal \<Rightarrow> operation \<Rightarrow> operation journal_result" where
  "finish j x0 =
     (if \<not> Status_Terminal (op_Status x0) \<or> ar_ObjectKey (op_Receipt x0) = [] \<or> op_AfterHash x0 = []
      then (j, Inl (sentinel ErrInvalid))
      else case find_op j (op_ID x0) of
          None \<Rightarrow> (j, Inl (sentinel ErrNotFound))
        | Some old \<Rightarrow>
            if Status_Terminal (op_Status (rw_Operation old)) then (j, Inr (rw_Operation old))
            else (case find_ws j (op_WorkspaceID x0) of
                None \<Rightarrow> (j, Inl (sentinel ErrNotFound))
              | Some w \<Rightarrow>
                  if ws_ActiveOperation w \<noteq> op_ID x0 then (j, Inl (sentinel ErrConflict))
                  else if op_AfterRevision x0 < ws_Revision w then (j, Inl (sentinel ErrConflict))
                  else if \<not> db_uint (op_AfterRevision x0) then (j, Inl sql_range_error)
                  else (let x = with_result x0
                        in (modify_ws (ws_ID w) (\<lambda>w. w\<lparr>ws_ActiveOperation := [],
                               ws_Revision := op_AfterRevision x\<rparr>)
                             (modify_op (op_ID x) (finish_row x) j), Inr x))))"

subsection \<open>Pinned artifacts\<close>

definition pinArtifact :: "journal \<Rightarrow> artifact_ref \<Rightarrow> unit journal_result" where
  "pinArtifact j ref =
     (if ar_ObjectKey ref = [] \<or> ar_SHA256 ref = [] then (j, Inl (sentinel ErrInvalid))
      else case tfind ar_ObjectKey (ar_ObjectKey ref) (jr_Artifacts j) of
          None \<Rightarrow> (j\<lparr>jr_Artifacts := tinsert ref (jr_Artifacts j)\<rparr>, Inr ())
        | Some pinned \<Rightarrow>
            if pinned\<lparr>ar_Kind := ar_Kind ref\<rparr> \<noteq> ref then (j, Inl (sentinel ErrConflict))
            else (j, Inr ()))"

subsection \<open>Volume leases\<close>

text \<open>The registration of one configured slot in \<open>openStorage\<close>.\<close>

definition registerSlot :: "journal \<Rightarrow> volume_spec \<Rightarrow> unit journal_result" where
  "registerSlot j slot =
     (case tfind vs_ID (vs_ID slot) (jr_VolumeSlots j) of
        None \<Rightarrow> (j\<lparr>jr_VolumeSlots := tinsert slot (jr_VolumeSlots j)\<rparr>, Inr ())
      | Some stored \<Rightarrow>
          if stored \<noteq> slot then (j, Inl (wrapped ErrConflict ''persisted pool identity changed''))
          else (j, Inr ()))"

definition occupied :: "journal \<Rightarrow> string \<Rightarrow> nat" where
  "occupied j sid = tcount (\<lambda>l. vl_SlotID l = sid \<and> \<not> vl_Released l) (jr_VolumeLeases j)"

text \<open>The loop over the configured slots: the first one without an unreleased lease.\<close>

definition free_slot :: "journal \<Rightarrow> volume_spec list \<Rightarrow> volume_spec option" where
  "free_slot j slots = List.find (\<lambda>s. occupied j (vs_ID s) = 0) slots"

definition new_lease :: "prepare_request \<Rightarrow> string \<Rightarrow> string \<Rightarrow> volume_lease" where
  "new_lease r sid sourceHash = \<lparr>vl_WorkspaceID = wr_WorkspaceID (pr_Workspace r), vl_SlotID = sid,
     vl_TenantID = wr_TenantID (pr_Workspace r), vl_RunID = wr_RunID (pr_Workspace r),
     vl_SourceID = pr_SourceID r, vl_ProfileID = pr_ProfileID r, vl_Released = False,
     vl_Epoch = wr_Epoch (pr_Workspace r), vl_SourceHash = sourceHash\<rparr>"

text \<open>The transaction of \<open>allocateStorage\<close>; the result is the slot.\<close>

definition allocateLease :: "journal \<Rightarrow> volume_spec list \<Rightarrow> prepare_request \<Rightarrow> string
    \<Rightarrow> string journal_result" where
  "allocateLease j slots r sourceHash =
     (let wid = wr_WorkspaceID (pr_Workspace r); epoch = wr_Epoch (pr_Workspace r)
      in case tfind vl_WorkspaceID wid (jr_VolumeLeases j) of
          Some l \<Rightarrow>
            if vl_TenantID l \<noteq> wr_TenantID (pr_Workspace r) \<or> vl_RunID l \<noteq> wr_RunID (pr_Workspace r)
              \<or> vl_SourceID l \<noteq> pr_SourceID r \<or> vl_ProfileID l \<noteq> pr_ProfileID r
            then (j, Inl (sentinel ErrConflict))
            else if vl_SourceHash l = []
            then (j, Inl (wrapped ErrReconciliation ''legacy initialization has no pinned source hash''))
            else if vl_SourceHash l \<noteq> sourceHash then (j, Inl (sentinel ErrConflict))
            else if epoch < vl_Epoch l then (j, Inl (sentinel ErrFenced))
            else if vl_Released l then (j, Inl (sentinel ErrFenced))
            else if \<not> db_uint epoch then (j, Inl sql_range_error)
            else (j\<lparr>jr_VolumeLeases := tmodify vl_WorkspaceID wid (\<lambda>l. l\<lparr>vl_Epoch := epoch\<rparr>)
                     (jr_VolumeLeases j)\<rparr>, Inr (vl_SlotID l))
        | None \<Rightarrow>
            (case free_slot j slots of
               None \<Rightarrow> (j, Inl (sentinel ErrCapacity))
             | Some s \<Rightarrow>
                 if vs_ID s = [] then (j, Inl (sentinel ErrCapacity))
                 else if \<not> db_uint epoch then (j, Inl sql_range_error)
                 else if tfind vs_ID (vs_ID s) (jr_VolumeSlots j) = None then (j, Inl constraint_error)
                 else (j\<lparr>jr_VolumeLeases := tinsert (new_lease r (vs_ID s) sourceHash)
                          (jr_VolumeLeases j)\<rparr>, Inr (vs_ID s))))"

text \<open>The \<open>UPDATE\<close> that ends \<open>releaseStorage\<close>.\<close>

definition freeLease :: "journal \<Rightarrow> string \<Rightarrow> journal" where
  "freeLease j wid = j\<lparr>jr_VolumeLeases :=
     tmodify vl_WorkspaceID wid (\<lambda>l. l\<lparr>vl_Released := True\<rparr>) (jr_VolumeLeases j)\<rparr>"

end
