(* ===== verification/Runner_Machine.thy ===== *)
theory Runner_Machine
  imports Runner_Journal
begin

section \<open>The journal as a machine\<close>

text \<open>
  Every change of the runner's durable state is one of the transactions below. Several
  handlers, executors and runner processes may interleave them in any order, and a crash
  may end a handler between two of them; an execution of \<open>journal_step\<close> is such an
  interleaving, so what holds of every execution holds whatever the scheduling and wherever
  the crashes. A reservation carries a non-empty operation identifier and a normalized log
  policy, which \<open>StartOperation\<close> and \<open>Open\<close> check before.
\<close>

datatype journal_op =
    JCreate workspace
  | JReserve operation "log_policy option"
  | JRunning string
  | JUnknown string string
  | JCancel string
  | JStartIntent string
  | JFinish operation
  | JFence workspace_request bool
  | JCompleteAdoption workspace_request
  | JRelease workspace_request
  | JPin artifact_ref
  | JRecordContainer string string
  | JCleanup string cleanup_state
  | JRegisterSlot volume_spec
  | JAllocate "volume_spec list" prepare_request string
  | JFreeLease string

datatype journal_out =
    OErr rerr | OUnit | OWorkspace workspace | OOperation operation bool | OSlot string

fun out_of :: "('a \<Rightarrow> journal_out) \<Rightarrow> 'a journal_result \<Rightarrow> journal \<times> journal_out" where
  "out_of f (j, Inl e) = (j, OErr e)"
| "out_of f (j, Inr x) = (j, f x)"

fun journal_apply :: "journal \<Rightarrow> journal_op \<Rightarrow> journal \<times> journal_out" where
  "journal_apply j (JCreate w) = out_of OWorkspace (createWorkspace j w)"
| "journal_apply j (JReserve x logs) = out_of (\<lambda>(y, created). OOperation y created) (reserve j x logs)"
| "journal_apply j (JRunning i) = (markRunning j i, OUnit)"
| "journal_apply j (JUnknown i reason) = (markUnknown j i reason, OUnit)"
| "journal_apply j (JCancel i) = (requestCancel j i, OUnit)"
| "journal_apply j (JStartIntent i) = out_of (\<lambda>_. OUnit) (startIntent j i)"
| "journal_apply j (JFinish x) = out_of (\<lambda>y. OOperation y False) (finish j x)"
| "journal_apply j (JFence r stop) = out_of OWorkspace (setFence j r stop)"
| "journal_apply j (JCompleteAdoption r) = out_of OWorkspace (completeAdoption j r)"
| "journal_apply j (JRelease r) = out_of (\<lambda>_. OUnit) (releaseRow j r)"
| "journal_apply j (JPin ref) = out_of (\<lambda>_. OUnit) (pinArtifact j ref)"
| "journal_apply j (JRecordContainer i c) = out_of (\<lambda>_. OUnit) (recordLogContainer j i c)"
| "journal_apply j (JCleanup i s) = (setCleanupState j i s, OUnit)"
| "journal_apply j (JRegisterSlot s) = out_of (\<lambda>_. OUnit) (registerSlot j s)"
| "journal_apply j (JAllocate slots r h) = out_of OSlot (allocateLease j slots r h)"
| "journal_apply j (JFreeLease i) = (freeLease j i, OUnit)"

fun admissible :: "journal_op \<Rightarrow> bool" where
  "admissible (JReserve x logs) \<longleftrightarrow> op_ID x \<noteq> [] \<and> (case logs of None \<Rightarrow> True | Some p \<Rightarrow> log_policy_ok p)"
| "admissible _ \<longleftrightarrow> True"

definition journal_step :: "journal \<Rightarrow> journal_op \<Rightarrow> journal_out \<Rightarrow> journal \<Rightarrow> bool" where
  "journal_step j a out j' \<longleftrightarrow> admissible a \<and> journal_apply j a = (j', out)"

abbreviation journal_run :: "string \<Rightarrow> (journal_op, journal_out) history \<Rightarrow> journal \<Rightarrow> bool" where
  "journal_run i \<equiv> exec journal_step (empty_journal i)"

lemma out_of_eq:
  "out_of f r = (j', out) \<longleftrightarrow> (\<exists>e. r = (j', Inl e) \<and> out = OErr e) \<or> (\<exists>x. r = (j', Inr x) \<and> out = f x)"
  by (cases "(f, r)" rule: out_of.cases) auto

subsection \<open>Looking rows up after a transaction\<close>

lemma find_modify_ws [simp]:
  "(\<And>w. ws_ID (f w) = ws_ID w) \<Longrightarrow>
    find_ws (modify_ws i f j) k = (if k = i then map_option f (find_ws j i) else find_ws j k)"
  by (simp add: modify_ws_def tfind_tmodify)

lemma find_modify_op [simp]:
  "(\<And>r. rw_ID (f r) = rw_ID r) \<Longrightarrow>
    find_op (modify_op i f j) k = (if k = i then map_option f (find_op j i) else find_op j k)"
  by (simp add: modify_op_def tfind_tmodify)

lemma modify_frame [simp]:
  "jr_Operations (modify_ws i f j) = jr_Operations j" "jr_Workspaces (modify_op i g j) = jr_Workspaces j"
  "jr_Artifacts (modify_ws i f j) = jr_Artifacts j" "jr_Artifacts (modify_op i g j) = jr_Artifacts j"
  "jr_LogRuns (modify_ws i f j) = jr_LogRuns j" "jr_LogRuns (modify_op i g j) = jr_LogRuns j"
  "jr_OperationLogs (modify_ws i f j) = jr_OperationLogs j"
  "jr_OperationLogs (modify_op i g j) = jr_OperationLogs j"
  "jr_VolumeSlots (modify_ws i f j) = jr_VolumeSlots j" "jr_VolumeSlots (modify_op i g j) = jr_VolumeSlots j"
  "jr_VolumeLeases (modify_ws i f j) = jr_VolumeLeases j"
  "jr_VolumeLeases (modify_op i g j) = jr_VolumeLeases j"
  by (simp_all add: modify_ws_def modify_op_def)

lemma modify_keys [simp]:
  "(\<And>w. ws_ID (f w) = ws_ID w) \<Longrightarrow> map ws_ID (jr_Workspaces (modify_ws i f j)) = map ws_ID (jr_Workspaces j)"
  "(\<And>r. rw_ID (g r) = rw_ID r) \<Longrightarrow> map rw_ID (jr_Operations (modify_op i g j)) = map rw_ID (jr_Operations j)"
  by (simp_all add: modify_ws_def modify_op_def tmodify_keys)

lemma row_updates_key [simp]:
  "rw_ID (run_row r) = rw_ID r" "rw_ID (unknown_row s r) = rw_ID r" "rw_ID (cancel_row r) = rw_ID r"
  "rw_ID (finish_row x r) = rw_ID r" "rw_ID (new_op_row w x req) = op_ID x"
  by (simp_all add: run_row_def unknown_row_def cancel_row_def finish_row_def new_op_row_def)

lemma reserveLogs_frame:
  assumes "reserveLogs j x p = Inr j'"
  shows "jr_Workspaces j' = jr_Workspaces j" "jr_Operations j' = jr_Operations j"
    "jr_Artifacts j' = jr_Artifacts j" "jr_VolumeSlots j' = jr_VolumeSlots j"
    "jr_VolumeLeases j' = jr_VolumeLeases j"
  using assms by (auto simp: reserveLogs_def Let_def split: if_splits option.splits)

subsection \<open>Outcomes of the larger transactions\<close>

lemma workspaceBinding_None:
  "workspaceBinding w r = None \<longleftrightarrow>
     ws_TenantID w = wr_TenantID r \<and> ws_RunID w = wr_RunID r \<and> ws_ID w = wr_WorkspaceID r"
  by (auto simp: workspaceBinding_def)

lemma encode_request_Some:
  assumes "encode_request r = Some q"
  shows "or_Workspace q = or_Workspace r" "or_OperationID q = or_OperationID r"
    "or_ExpectedRevision q = or_ExpectedRevision r" "or_Kind q = or_Kind r"
    "or_ArgsHash q = or_ArgsHash r" "or_PolicyVersion q = or_PolicyVersion r"
    "or_Deadline q = or_Deadline r"
  using assms by (auto simp: encode_request_def split: if_splits)

lemma reserve_cases:
  assumes "reserve j x logs = (j', res)"
  obtains (fails) e where "j' = j" "res = Inl e"
  | (existing) r where "j' = j" "find_op j (op_ID x) = Some r" "res = Inr (rw_Operation r, False)"
      "sameBinding (op_Request (rw_Operation r)) (op_Request x)"
  | (created) w req j2 where "find_ws j (op_WorkspaceID x) = Some w" "find_op j (op_ID x) = None"
      "workspaceBinding w (or_Workspace (op_Request x)) = None"
      "ws_Epoch w = or_Epoch (op_Request x)" "\<not> ws_Adopting w" "\<not> ws_Released w" "\<not> ws_Stopped w"
      "ws_ActiveOperation w = []" "ws_Revision w = or_ExpectedRevision (op_Request x)"
      "encode_request (without_grant (op_Request x)) = Some req"
      "j2 = j\<lparr>jr_Operations := tinsert (new_op_row w x req) (jr_Operations j)\<rparr> \<or>
        (\<exists>p. logs = Some p \<and> isProcess (or_Kind (op_Request x)) \<and>
          reserveLogs (j\<lparr>jr_Operations := tinsert (new_op_row w x req) (jr_Operations j)\<rparr>) x p = Inr j2)"
      "j' = modify_ws (ws_ID w) (\<lambda>w. w\<lparr>ws_ActiveOperation := op_ID x\<rparr>) j2"
      "res = Inr (x\<lparr>op_Request := without_grant (op_Request x), op_Status := OpPrepared\<rparr>, True)"
proof -
  note d = reserve_def [of j x logs, unfolded assms]
  show thesis
  proof (cases "find_ws j (op_WorkspaceID x)")
    case None
    then show thesis using d fails by simp
  next
    case w: (Some w)
    show thesis
    proof (cases "workspaceBinding w (or_Workspace (op_Request x))")
      case (Some e)
      then show thesis using d w fails by simp
    next
      case b: None
      show thesis
      proof (cases "ws_Epoch w \<noteq> or_Epoch (op_Request x) \<or> ws_Adopting w \<or> ws_Released w \<or> ws_Stopped w")
        case True
        then show thesis using d w b fails by simp
      next
        case adm: False
        show thesis
        proof (cases "find_op j (op_ID x)")
          case (Some r)
          then show thesis using d w b adm existing [of r] fails by (simp split: if_splits)
        next
          case n: None
          show thesis
          proof (cases "encode_request (without_grant (op_Request x))")
            case None
            then show thesis using d w b adm n fails by (simp split: if_splits)
          next
            case (Some req)
            then show thesis using d w b adm n fails created [of w req]
              by (auto simp: Let_def split: if_splits option.splits sum.splits)
          qed
        qed
      qed
    qed
  qed
qed

lemma finish_cases:
  assumes "finish j x = (j', res)"
  obtains (fails) e where "j' = j" "res = Inl e"
  | (settled) r where "j' = j" "find_op j (op_ID x) = Some r" "res = Inr (rw_Operation r)"
      "Status_Terminal (op_Status (rw_Operation r))"
  | (finished) r w where "find_op j (op_ID x) = Some r" "\<not> Status_Terminal (op_Status (rw_Operation r))"
      "Status_Terminal (op_Status x)" "ar_ObjectKey (op_Receipt x) \<noteq> []" "op_AfterHash x \<noteq> []"
      "find_ws j (op_WorkspaceID x) = Some w" "ws_ActiveOperation w = op_ID x"
      "ws_Revision w \<le> op_AfterRevision x" "db_uint (op_AfterRevision x)"
      "j' = modify_ws (ws_ID w) (\<lambda>w. w\<lparr>ws_ActiveOperation := [], ws_Revision := op_AfterRevision x\<rparr>)
         (modify_op (op_ID x) (finish_row (with_result x)) j)"
      "res = Inr (with_result x)"
proof -
  have wr: "op_ID (with_result x) = op_ID x" "op_AfterRevision (with_result x) = op_AfterRevision x"
    by (simp_all add: with_result_def)
  note d = finish_def [of j x, unfolded assms]
  show thesis
  proof (cases "find_op j (op_ID x)")
    case None
    then show thesis using d fails by (simp split: if_splits)
  next
    case r: (Some r)
    show thesis
    proof (cases "find_ws j (op_WorkspaceID x)")
      case None
      then show thesis using d r fails settled [of r] by (simp split: if_splits)
    next
      case (Some w)
      then show thesis using d r fails settled [of r] finished [of r w] wr
        by (auto simp: Let_def not_less split: if_splits)
    qed
  qed
qed

end
