(* ===== verification/Forge_Order.thy ===== *)
theory Forge_Order
  imports Forge_Machine
begin

section \<open>What only grows along an execution\<close>

text \<open>
  \<open>monotone_machine\<close> is the interface through which a component obtains a fact about two moments
  of one execution: a preorder on states that every step from a known state respects relates
  every earlier state to every later one.
\<close>

locale monotone_machine =
  fixes step :: "'s \<Rightarrow> 'e \<Rightarrow> 'c \<Rightarrow> 's \<Rightarrow> bool"
    and known :: "'s \<Rightarrow> bool"
    and R :: "'s \<Rightarrow> 's \<Rightarrow> bool"
  assumes reflexive: "R s s"
    and transitive: "R s t \<Longrightarrow> R t u \<Longrightarrow> R s u"
    and step_known: "known s \<Longrightarrow> step s e c s' \<Longrightarrow> known s'"
    and step_grows: "known s \<Longrightarrow> step s e c s' \<Longrightarrow> R s s'"
begin

lemma grows: "exec step s tr t \<Longrightarrow> known s \<Longrightarrow> known t \<and> R s t"
proof (induction rule: exec.induct)
  case exec_init
  then show ?case by (simp add: reflexive)
next
  case (exec_step tr u e c v)
  then show ?case using step_known step_grows transitive by blast
qed

text \<open>Nothing that the order forbids happens after an entry of the history.\<close>

lemma after:
  assumes "exec step s0 (tr1 @ (e, c) # tr2) t" "\<And>tr s. exec step s0 tr s \<Longrightarrow> known s"
  obtains s1 s2 where "exec step s0 tr1 s1" "step s1 e c s2" "known s1" "known s2" "R s1 s2" "R s2 t"
    "exec step s2 tr2 t"
proof -
  obtain s1 s2 where run: "exec step s0 tr1 s1" "step s1 e c s2" "exec step s2 tr2 t"
    using assms(1) by (rule exec_at)
  have "known s1" using assms(2) run(1) by blast
  then show thesis using that run step_known step_grows grows by blast
qed

end

end
