(* ===== verification/Runner_Invariant.thy ===== *)
theory Runner_Invariant
  imports Runner_Machine Forge_Order
begin

section \<open>The journal's invariant\<close>

text \<open>
  \<open>op_row_ok\<close> ties an operation to its workspace: an operation that is not settled is the one its
  workspace names as active, and was admitted at the revision the workspace still has.
  \<open>ws_ok\<close> is the converse, with the flags: a stopped or released workspace is closed, and a
  released one has no active operation. \<open>journal_inv\<close> says so of every row.
\<close>

definition op_row_ok :: "journal \<Rightarrow> op_row \<Rightarrow> bool" where
  "op_row_ok j r \<longleftrightarrow>
     rw_ID r \<noteq> [] \<and> op_ID (rw_Operation r) = rw_ID r
     \<and> op_WorkspaceID (rw_Operation r) = rw_WorkspaceID r
     \<and> or_TenantID (op_Request (rw_Operation r)) = rw_TenantID r
     \<and> or_RunID (op_Request (rw_Operation r)) = rw_RunID r
     \<and> (op_Status (rw_Operation r) = OpPrepared \<longrightarrow> \<not> rw_DispatchStarted r)
     \<and> (op_Status (rw_Operation r) = OpRunning \<longrightarrow> rw_DispatchStarted r)
     \<and> (rw_DockerStartIntent r \<longrightarrow> rw_DispatchStarted r)
     \<and> (Status_Terminal (op_Status (rw_Operation r)) \<longrightarrow>
          ar_ObjectKey (op_Receipt (rw_Operation r)) \<noteq> [] \<and> op_AfterHash (rw_Operation r) \<noteq> [])
     \<and> (\<exists>w. find_ws j (rw_WorkspaceID r) = Some w
          \<and> ws_TenantID w = rw_TenantID r \<and> ws_RunID w = rw_RunID r
          \<and> or_Epoch (op_Request (rw_Operation r)) \<le> ws_Epoch w
          \<and> (Status_Terminal (op_Status (rw_Operation r)) \<longrightarrow>
                op_AfterRevision (rw_Operation r) \<le> ws_Revision w)
          \<and> (\<not> Status_Terminal (op_Status (rw_Operation r)) \<longrightarrow>
                ws_ActiveOperation w = rw_ID r
                \<and> or_ExpectedRevision (op_Request (rw_Operation r)) = ws_Revision w))"

definition ws_ok :: "journal \<Rightarrow> workspace \<Rightarrow> bool" where
  "ws_ok j w \<longleftrightarrow>
     0 < ws_Epoch w \<and> db_uint (ws_Epoch w) \<and> 0 < ws_Revision w \<and> db_uint (ws_Revision w)
     \<and> (ws_Released w \<or> ws_Stopped w \<longrightarrow> ws_Adopting w)
     \<and> (ws_Released w \<longrightarrow> ws_ActiveOperation w = [])
     \<and> (ws_ActiveOperation w \<noteq> [] \<longrightarrow>
          (\<exists>r. find_op j (ws_ActiveOperation w) = Some r \<and> rw_WorkspaceID r = ws_ID w
             \<and> \<not> Status_Terminal (op_Status (rw_Operation r))))"

definition journal_inv :: "journal \<Rightarrow> bool" where
  "journal_inv j \<longleftrightarrow>
     distinct (map ws_ID (jr_Workspaces j)) \<and> distinct (map rw_ID (jr_Operations j))
     \<and> (\<forall>i w. find_ws j i = Some w \<longrightarrow> ws_ok j w)
     \<and> (\<forall>i r. find_op j i = Some r \<longrightarrow> op_row_ok j r)"

lemma journal_inv_frame:
  "jr_Workspaces j' = jr_Workspaces j \<Longrightarrow> jr_Operations j' = jr_Operations j \<Longrightarrow>
    journal_inv j' = journal_inv j"
  by (simp add: journal_inv_def ws_ok_def op_row_ok_def)

lemma journal_inv_ws: "journal_inv j \<Longrightarrow> find_ws j i = Some w \<Longrightarrow> ws_ok j w"
  by (simp add: journal_inv_def)

lemma journal_inv_op: "journal_inv j \<Longrightarrow> find_op j i = Some r \<Longrightarrow> op_row_ok j r"
  by (simp add: journal_inv_def)

lemma empty_journal_inv: "journal_inv (empty_journal i)"
  by (simp add: journal_inv_def empty_journal_def)

lemma find_ws_key: "find_ws j i = Some w \<Longrightarrow> ws_ID w = i"
  by (rule tfind_key)

lemma find_op_key: "find_op j i = Some r \<Longrightarrow> rw_ID r = i"
  by (rule tfind_key)

subsection \<open>Updates of one row\<close>

text \<open>An update of an operation row that keeps its identity and whether it is settled.\<close>

lemma modify_op_inv:
  assumes inv: "journal_inv j"
    and key: "\<And>r. rw_ID (f r) = rw_ID r"
    and same: "\<And>r. find_op j i = Some r \<Longrightarrow>
       rw_WorkspaceID (f r) = rw_WorkspaceID r \<and>
       (Status_Terminal (op_Status (rw_Operation (f r))) \<longleftrightarrow> Status_Terminal (op_Status (rw_Operation r)))"
    and ok: "\<And>r. find_op j i = Some r \<Longrightarrow> op_row_ok j r \<Longrightarrow> op_row_ok j (f r)"
  shows "journal_inv (modify_op i f j)"
  unfolding journal_inv_def
proof (intro conjI allI impI)
  show "distinct (map ws_ID (jr_Workspaces (modify_op i f j)))"
    "distinct (map rw_ID (jr_Operations (modify_op i f j)))"
    using inv key by (simp_all add: journal_inv_def)
next
  fix k w
  assume w: "find_ws (modify_op i f j) k = Some w"
  then have "ws_ok j w" using inv by (simp add: journal_inv_def)
  then show "ws_ok (modify_op i f j) w"
    using key same by (auto simp: ws_ok_def)
next
  fix k r
  assume r: "find_op (modify_op i f j) k = Some r"
  then have "op_row_ok j r"
    using inv ok key by (auto simp: journal_inv_def split: if_splits)
  then show "op_row_ok (modify_op i f j) r" by (simp add: op_row_ok_def)
qed

text \<open>An update of a workspace row that keeps what its operations rely on.\<close>

lemma modify_ws_inv:
  assumes inv: "journal_inv j" and w: "find_ws j i = Some w"
    and key: "\<And>w. ws_ID (f w) = ws_ID w"
    and ok: "ws_ok j (f w)"
    and same: "ws_TenantID (f w) = ws_TenantID w" "ws_RunID (f w) = ws_RunID w"
      "ws_ActiveOperation (f w) = ws_ActiveOperation w" "ws_Revision (f w) = ws_Revision w"
      "ws_Epoch w \<le> ws_Epoch (f w)"
  shows "journal_inv (modify_ws i f j)"
  unfolding journal_inv_def
proof (intro conjI allI impI)
  show "distinct (map ws_ID (jr_Workspaces (modify_ws i f j)))"
    "distinct (map rw_ID (jr_Operations (modify_ws i f j)))"
    using inv key by (simp_all add: journal_inv_def)
next
  fix k v
  assume "find_ws (modify_ws i f j) k = Some v"
  then have "ws_ok j v" using inv w ok key by (auto simp: journal_inv_def split: if_splits)
  then show "ws_ok (modify_ws i f j) v" by (simp add: ws_ok_def)
next
  fix k r
  assume "find_op (modify_ws i f j) k = Some r"
  then have "op_row_ok j r" using inv by (simp add: journal_inv_def)
  then show "op_row_ok (modify_ws i f j) r"
    using w same key by (auto simp: op_row_ok_def)
qed

subsection \<open>Every transaction keeps the invariant\<close>

lemma markRunning_inv: "journal_inv j \<Longrightarrow> journal_inv (markRunning j i)"
  unfolding markRunning_def
  by (rule modify_op_inv) (auto simp: run_row_def op_row_ok_def)

lemma markUnknown_inv: "journal_inv j \<Longrightarrow> journal_inv (markUnknown j i s)"
  unfolding markUnknown_def
  by (rule modify_op_inv) (auto simp: unknown_row_def op_row_ok_def)

lemma requestCancel_inv: "journal_inv j \<Longrightarrow> journal_inv (requestCancel j i)"
  unfolding requestCancel_def
  by (rule modify_op_inv) (auto simp: cancel_row_def op_row_ok_def)

lemma startIntent_inv:
  assumes "journal_inv j" "startIntent j i = (j', res)"
  shows "journal_inv j'"
proof (cases "\<exists>r. find_op j i = Some r \<and> op_Status (rw_Operation r) = OpRunning
    \<and> \<not> op_CancelRequested (rw_Operation r)")
  case True
  then have j': "j' = modify_op i (rw_DockerStartIntent_update (\<lambda>_. True)) j"
    and run: "\<And>r. find_op j i = Some r \<Longrightarrow> op_Status (rw_Operation r) = OpRunning"
    using assms(2) by (auto simp: startIntent_def)
  show ?thesis unfolding j'
    by (rule modify_op_inv [OF assms(1)]) (auto simp: op_row_ok_def dest: run)
next
  case False
  then show ?thesis using assms by (auto simp: startIntent_def split: option.splits if_splits)
qed

lemma createWorkspace_inv:
  assumes inv: "journal_inv j" and "createWorkspace j w = (j', res)"
  shows "journal_inv j'"
proof (cases "j' = j")
  case False
  let ?w = "new_workspace_row w"
  have new: "find_ws j (ws_ID w) = None" "0 < ws_Epoch w" "0 < ws_Revision w"
      "db_uint (ws_Epoch w)" "db_uint (ws_Revision w)"
    and j': "j' = j\<lparr>jr_Workspaces := tinsert ?w (jr_Workspaces j)\<rparr>"
    using assms False
    by (auto simp: createWorkspace_def word_neq_0_conv split: if_splits option.splits)
  have id: "ws_ID ?w = ws_ID w" by (simp add: new_workspace_row_def)
  have old: "find_ws j' i = Some v" if "find_ws j i = Some v" for i v
    using that new(1) id by (auto simp: j')
  have ops: "find_op j' i = find_op j i" for i by (simp add: j')
  show ?thesis unfolding journal_inv_def
  proof (intro conjI allI impI)
    show "distinct (map ws_ID (jr_Workspaces j'))"
      using inv new(1) id by (auto simp: j' journal_inv_def tinsert_def tfind_None)
    show "distinct (map rw_ID (jr_Operations j'))" using inv by (simp add: j' journal_inv_def)
    show "ws_ok j' v" if "find_ws j' i = Some v" for i v
    proof (cases "v = ?w")
      case True
      then show ?thesis using new by (simp add: ws_ok_def new_workspace_row_def)
    next
      case False
      then have "find_ws j i = Some v" using that by (auto simp: j' split: if_splits)
      then show ?thesis using journal_inv_ws [OF inv] by (auto simp: ws_ok_def ops)
    qed
    show "op_row_ok j' r" if "find_op j' i = Some r" for i r
      using that journal_inv_op [OF inv, of i r] old by (auto simp: op_row_ok_def ops)
  qed
qed (use inv in simp)

lemma setFence_cases:
  assumes "setFence j r stop = (j', res)"
  obtains (fails) e where "j' = j" "res = Inl e"
  | (set) w where "find_ws j (wr_WorkspaceID r) = Some w" "workspaceBinding w r = None"
      "ws_Epoch w \<le> wr_Epoch r" "\<not> ws_Released w" "ws_Stopped w \<longrightarrow> stop" "db_uint (wr_Epoch r)"
      "j' = modify_ws (ws_ID w) (\<lambda>w. w\<lparr>ws_Epoch := wr_Epoch r, ws_Adopting := True,
         ws_Stopped := ws_Stopped w \<or> stop\<rparr>) j"
      "res = Inr (w\<lparr>ws_Epoch := wr_Epoch r, ws_Adopting := True, ws_Stopped := ws_Stopped w \<or> stop\<rparr>)"
proof (cases "find_ws j (wr_WorkspaceID r)")
  case None
  then show thesis using assms fails by (auto simp: setFence_def)
next
  case w: (Some w)
  show thesis
  proof (cases "workspaceBinding w r")
    case None
    then show thesis using assms w fails set [of w]
      by (auto simp: setFence_def Let_def not_less split: if_splits)
  next
    case (Some e)
    then show thesis using assms w fails by (auto simp: setFence_def)
  qed
qed

lemma setFence_inv:
  assumes inv: "journal_inv j" and "setFence j r stop = (j', res)"
  shows "journal_inv j'"
  using assms(2)
proof (cases rule: setFence_cases)
  case (set w)
  have w: "find_ws j (ws_ID w) = Some w" using set(1) find_ws_key by metis
  show ?thesis unfolding set(7)
    by (rule modify_ws_inv [OF inv w])
      (use set journal_inv_ws [OF inv w] in \<open>auto simp: ws_ok_def\<close>)
qed (use inv in simp)

lemma completeAdoption_inv:
  assumes inv: "journal_inv j" and "completeAdoption j r = (j', res)"
  shows "journal_inv j'"
proof (cases "j' = j")
  case False
  then obtain w where w: "find_ws j (wr_WorkspaceID r) = Some w" "\<not> ws_Stopped w" "\<not> ws_Released w"
    and j': "j' = modify_ws (ws_ID w) (ws_Adopting_update (\<lambda>_. False)) j"
    using assms(2) by (auto simp: completeAdoption_def split: if_splits option.splits)
  have w': "find_ws j (ws_ID w) = Some w" using w(1) find_ws_key by metis
  show ?thesis unfolding j'
    by (rule modify_ws_inv [OF inv w']) (use w journal_inv_ws [OF inv w'] in \<open>auto simp: ws_ok_def\<close>)
qed (use inv in simp)

lemma releaseRow_inv:
  assumes inv: "journal_inv j" and "releaseRow j r = (j', res)"
  shows "journal_inv j'"
proof (cases "j' = j")
  case False
  then obtain w where w: "find_ws j (wr_WorkspaceID r) = Some w" "ws_ActiveOperation w = []"
    and j': "j' = modify_ws (ws_ID w) (\<lambda>w. w\<lparr>ws_Released := True, ws_Adopting := True\<rparr>) j"
    using assms(2) by (auto simp: releaseRow_def split: if_splits option.splits)
  have w': "find_ws j (ws_ID w) = Some w" using w(1) find_ws_key by metis
  show ?thesis unfolding j'
    by (rule modify_ws_inv [OF inv w']) (use w journal_inv_ws [OF inv w'] in \<open>auto simp: ws_ok_def\<close>)
qed (use inv in simp)

text \<open>The new row belongs to the workspace, which now names it.\<close>

lemma reserve_keeps:
  assumes inv: "journal_inv j" and id: "op_ID x \<noteq> []" and "reserve j x logs = (j', res)"
  shows "journal_inv j'"
  using assms(3)
proof (cases rule: reserve_cases)
  case (created w req j2)
  let ?r = "new_op_row w x req"
  note req = encode_request_Some [OF created(10)]
  have tables: "jr_Workspaces j2 = jr_Workspaces j" "jr_Operations j2 = tinsert ?r (jr_Operations j)"
    using created(11) by (auto dest: reserveLogs_frame)
  have wid: "ws_ID w = op_WorkspaceID x" using created(1) by (rule find_ws_key)
  have ws: "find_ws j' i = (if i = ws_ID w then Some (w\<lparr>ws_ActiveOperation := op_ID x\<rparr>) else find_ws j i)" for i
    using created(1) by (simp add: created(12) tables wid)
  have ops: "find_op j' i = (if i = op_ID x then Some ?r else find_op j i)" for i
    by (simp add: created(12) tables)
  have wok: "ws_ok j w" using inv created(1) by (rule journal_inv_ws)
  show ?thesis unfolding journal_inv_def
  proof (intro conjI allI impI)
    show "distinct (map ws_ID (jr_Workspaces j'))"
      using inv by (simp add: created(12) tables journal_inv_def)
    show "distinct (map rw_ID (jr_Operations j'))"
      using inv created(2) by (auto simp: created(12) tables journal_inv_def tinsert_def tfind_None)
    show "ws_ok j' v" if "find_ws j' i = Some v" for i v
    proof (cases "i = ws_ID w")
      case True
      then have "v = w\<lparr>ws_ActiveOperation := op_ID x\<rparr>" using that ws by simp
      then show ?thesis using wok created(5,6,7) by (simp add: ws_ok_def ops new_op_row_def)
    next
      case False
      then have v: "find_ws j i = Some v" using that ws by simp
      show ?thesis using journal_inv_ws [OF inv v] created(2) by (auto simp: ws_ok_def ops)
    qed
    show "op_row_ok j' r" if "find_op j' i = Some r" for i r
    proof (cases "i = op_ID x")
      case True
      then have r: "r = ?r" using that ops by simp
      show ?thesis unfolding r
        using id wid created(3,4,9) req
        by (simp add: op_row_ok_def new_op_row_def ws workspaceBinding_None)
    next
      case False
      then have r: "find_op j i = Some r" using that ops by simp
      have ok: "op_row_ok j r" using inv r by (rule journal_inv_op)
      then obtain v where v: "find_ws j (rw_WorkspaceID r) = Some v" by (auto simp: op_row_ok_def)
      have "v = w" if "rw_WorkspaceID r = ws_ID w" using that v created(1) wid by simp
      then have "rw_WorkspaceID r = ws_ID w \<longrightarrow> Status_Terminal (op_Status (rw_Operation r))"
        using ok v created(8) by (auto simp: op_row_ok_def)
      then show ?thesis using ok v \<open>rw_WorkspaceID r = ws_ID w \<Longrightarrow> v = w\<close>
        by (auto simp: op_row_ok_def ws)
    qed
  qed
qed (use inv in simp_all)

text \<open>Settling the active operation frees its workspace; no other operation was waiting on it.\<close>

lemma finish_inv:
  assumes inv: "journal_inv j" and "finish j x = (j', res)"
  shows "journal_inv j'"
  using assms(2)
proof (cases rule: finish_cases)
  case (finished r w)
  let ?x = "with_result x"
  let ?w = "w\<lparr>ws_ActiveOperation := [], ws_Revision := op_AfterRevision x\<rparr>"
  have x: "op_Status ?x = op_Status x" "op_AfterHash ?x = op_AfterHash x"
    "op_AfterRevision ?x = op_AfterRevision x" "op_Receipt ?x = op_Receipt x"
    by (simp_all add: with_result_def)
  have wid: "ws_ID w = op_WorkspaceID x" using finished(6) by (rule find_ws_key)
  have rid: "rw_ID r = op_ID x" using finished(1) by (rule find_op_key)
  have ws: "find_ws j' i = (if i = ws_ID w then Some ?w else find_ws j i)" for i
    using finished(6) by (simp add: finished(10) wid)
  have ops: "find_op j' i = (if i = op_ID x then Some (finish_row ?x r) else find_op j i)" for i
    using finished(1) by (simp add: finished(10))
  have rok: "op_row_ok j r" using inv finished(1) by (rule journal_inv_op)
  have wok: "ws_ok j w" using inv finished(6) by (rule journal_inv_ws)
  have rws: "rw_WorkspaceID r = ws_ID w"
    using wok rok finished(1,7) rid by (auto simp: ws_ok_def op_row_ok_def)
  show ?thesis unfolding journal_inv_def
  proof (intro conjI allI impI)
    show "distinct (map ws_ID (jr_Workspaces j'))" "distinct (map rw_ID (jr_Operations j'))"
      using inv by (simp_all add: finished(10) journal_inv_def)
    show "ws_ok j' v" if "find_ws j' i = Some v" for i v
    proof (cases "i = ws_ID w")
      case True
      then have v: "v = ?w" using that ws by simp
      have "0 < op_AfterRevision x" using wok finished(8) by (auto simp: ws_ok_def)
      then show ?thesis using wok finished(9) by (simp add: ws_ok_def v)
    next
      case False
      then have v: "find_ws j i = Some v" using that ws by simp
      have "ws_ID v = i" using v by (rule find_ws_key)
      then have "ws_ActiveOperation v \<noteq> op_ID x"
        using journal_inv_ws [OF inv v] finished(1) rws False rok rid by (auto simp: ws_ok_def op_row_ok_def)
      then show ?thesis using journal_inv_ws [OF inv v] by (auto simp: ws_ok_def ops)
    qed
    show "op_row_ok j' q" if "find_op j' i = Some q" for i q
    proof (cases "i = op_ID x")
      case True
      then have q: "q = finish_row ?x r" using that ops by simp
      have st: "op_Status x \<noteq> OpPrepared" "op_Status x \<noteq> OpRunning" using finished(3) by auto
      obtain v where "find_ws j (rw_WorkspaceID r) = Some v" "ws_TenantID v = rw_TenantID r"
          "ws_RunID v = rw_RunID r" "or_Epoch (op_Request (rw_Operation r)) \<le> ws_Epoch v"
        using rok unfolding op_row_ok_def by blast
      moreover have "find_ws j (rw_WorkspaceID r) = Some w" using finished(6) wid rws by simp
      ultimately have "ws_TenantID w = rw_TenantID r" "ws_RunID w = rw_RunID r"
          "or_Epoch (op_Request (rw_Operation r)) \<le> ws_Epoch w" by simp_all
      then show ?thesis unfolding q
        using rok finished(3,4,5) by (simp add: op_row_ok_def finish_row_def ws rws x st)
    next
      case False
      then have q: "find_op j i = Some q" using that ops by simp
      have qok: "op_row_ok j q" using inv q by (rule journal_inv_op)
      have qid: "rw_ID q = i" using q by (rule find_op_key)
      have "Status_Terminal (op_Status (rw_Operation q))" if "rw_WorkspaceID q = ws_ID w"
        using that qok finished(6,7) wid qid False by (auto simp: op_row_ok_def)
      then show ?thesis using qok finished(6,8) wid
        by (auto simp: op_row_ok_def ws)
    qed
  qed
qed (use inv in simp_all)

text \<open>The remaining transactions change neither workspaces nor operations.\<close>

lemma side_tables_frame:
  "pinArtifact j ref = (j', r1) \<Longrightarrow> jr_Workspaces j' = jr_Workspaces j \<and> jr_Operations j' = jr_Operations j"
  "recordLogContainer j i c = (j', r2) \<Longrightarrow> jr_Workspaces j' = jr_Workspaces j \<and> jr_Operations j' = jr_Operations j"
  "registerSlot j v = (j', r3) \<Longrightarrow> jr_Workspaces j' = jr_Workspaces j \<and> jr_Operations j' = jr_Operations j"
  "allocateLease j vs p h = (j', r4) \<Longrightarrow> jr_Workspaces j' = jr_Workspaces j \<and> jr_Operations j' = jr_Operations j"
  "jr_Workspaces (setCleanupState j i cs) = jr_Workspaces j \<and> jr_Operations (setCleanupState j i cs) = jr_Operations j"
  "jr_Workspaces (freeLease j i) = jr_Workspaces j \<and> jr_Operations (freeLease j i) = jr_Operations j"
  by (auto simp: pinArtifact_def recordLogContainer_def setCleanupState_def registerSlot_def
      allocateLease_def freeLease_def Let_def split: if_splits option.splits)

definition side_op :: "journal_op \<Rightarrow> bool" where
  "side_op a \<longleftrightarrow> (case a of JPin _ \<Rightarrow> True | JRecordContainer _ _ \<Rightarrow> True | JCleanup _ _ \<Rightarrow> True
     | JRegisterSlot _ \<Rightarrow> True | JAllocate _ _ _ \<Rightarrow> True | JFreeLease _ \<Rightarrow> True | _ \<Rightarrow> False)"

lemma side_op_frame:
  assumes "side_op a" "journal_apply j a = (j', out)"
  shows "jr_Workspaces j' = jr_Workspaces j" "jr_Operations j' = jr_Operations j"
  using assms by (cases a; auto simp: side_op_def out_of_eq side_tables_frame dest: side_tables_frame(1-4))+

text \<open>Together: any interleaving of transactions keeps the invariant.\<close>

lemma journal_step_inv:
  assumes inv: "journal_inv j" and step: "journal_step j a out j'"
  shows "journal_inv j'"
proof -
  have run: "journal_apply j a = (j', out)" "admissible a" using step by (auto simp: journal_step_def)
  have side: "side_op a \<Longrightarrow> journal_inv j'"
    using journal_inv_frame [of j' j] side_op_frame [OF _ run(1)] inv by blast
  show ?thesis
  proof (cases a)
    case (JCreate w)
    then show ?thesis using run createWorkspace_inv [OF inv] by (auto simp: out_of_eq)
  next
    case (JReserve x logs)
    then show ?thesis using run reserve_keeps [OF inv] by (auto simp: out_of_eq)
  next
    case (JRunning i)
    then show ?thesis using run markRunning_inv [OF inv] by auto
  next
    case (JUnknown i s)
    then show ?thesis using run markUnknown_inv [OF inv] by auto
  next
    case (JCancel i)
    then show ?thesis using run requestCancel_inv [OF inv] by auto
  next
    case (JStartIntent i)
    then show ?thesis using run startIntent_inv [OF inv] by (auto simp: out_of_eq)
  next
    case (JFinish x)
    then show ?thesis using run finish_inv [OF inv] by (auto simp: out_of_eq)
  next
    case (JFence r stop)
    then show ?thesis using run setFence_inv [OF inv] by (auto simp: out_of_eq)
  next
    case (JCompleteAdoption r)
    then show ?thesis using run completeAdoption_inv [OF inv] by (auto simp: out_of_eq)
  next
    case (JRelease r)
    then show ?thesis using run releaseRow_inv [OF inv] by (auto simp: out_of_eq)
  qed (use side in \<open>simp_all add: side_op_def\<close>)
qed

interpretation journal_rows: ghost_invariant journal_step "\<lambda>tr j. True" "\<lambda>tr j. journal_inv j"
    "empty_journal i" for i
  by unfold_locales (auto intro: empty_journal_inv journal_step_inv)

end
