(* ===== verification/Runner_History.thy ===== *)
theory Runner_History
  imports Runner_Invariant
begin

section \<open>What the journal never takes back\<close>

text \<open>
  Along every execution epochs and revisions only grow, a stop or release is never undone, an
  operation keeps its request and its settlement is final, and a pinned artifact keeps its
  reference. \<open>journal_grows\<close> collects these, and is an interpretation of \<open>monotone_machine\<close>.
\<close>

definition ws_grows :: "workspace \<Rightarrow> workspace \<Rightarrow> bool" where
  "ws_grows w v \<longleftrightarrow> ws_ID v = ws_ID w \<and> ws_TenantID v = ws_TenantID w \<and> ws_RunID v = ws_RunID w
     \<and> ws_SourceID v = ws_SourceID w \<and> ws_ProfileID v = ws_ProfileID w
     \<and> ws_BaselineHash v = ws_BaselineHash w \<and> ws_Epoch w \<le> ws_Epoch v \<and> ws_Revision w \<le> ws_Revision v
     \<and> (ws_Stopped w \<longrightarrow> ws_Stopped v) \<and> (ws_Released w \<longrightarrow> ws_Released v)"

definition op_grows :: "op_row \<Rightarrow> op_row \<Rightarrow> bool" where
  "op_grows r q \<longleftrightarrow> rw_ID q = rw_ID r \<and> rw_WorkspaceID q = rw_WorkspaceID r
     \<and> rw_TenantID q = rw_TenantID r \<and> rw_RunID q = rw_RunID r
     \<and> op_Request (rw_Operation q) = op_Request (rw_Operation r)
     \<and> op_JobID (rw_Operation q) = op_JobID (rw_Operation r)
     \<and> op_BeforeHash (rw_Operation q) = op_BeforeHash (rw_Operation r)
     \<and> op_ExpectedAfterHash (rw_Operation q) = op_ExpectedAfterHash (rw_Operation r)
     \<and> (op_CancelRequested (rw_Operation r) \<longrightarrow> op_CancelRequested (rw_Operation q))
     \<and> (rw_DispatchStarted r \<longrightarrow> rw_DispatchStarted q) \<and> (rw_DockerStartIntent r \<longrightarrow> rw_DockerStartIntent q)
     \<and> (Status_Terminal (op_Status (rw_Operation r)) \<longrightarrow> q = r)"

definition journal_grows :: "journal \<Rightarrow> journal \<Rightarrow> bool" where
  "journal_grows j j' \<longleftrightarrow>
     (\<forall>i w. find_ws j i = Some w \<longrightarrow> (\<exists>v. find_ws j' i = Some v \<and> ws_grows w v))
     \<and> (\<forall>i r. find_op j i = Some r \<longrightarrow> (\<exists>q. find_op j' i = Some q \<and> op_grows r q))
     \<and> (\<forall>k a. tfind ar_ObjectKey k (jr_Artifacts j) = Some a \<longrightarrow>
           tfind ar_ObjectKey k (jr_Artifacts j') = Some a)"

lemma ws_grows_refl [simp]: "ws_grows w w"
  by (simp add: ws_grows_def)

lemma op_grows_refl [simp]: "op_grows r r"
  by (simp add: op_grows_def)

lemma ws_grows_trans: "ws_grows u v \<Longrightarrow> ws_grows v w \<Longrightarrow> ws_grows u w"
  by (auto simp: ws_grows_def)

lemma op_grows_trans: "op_grows p q \<Longrightarrow> op_grows q r \<Longrightarrow> op_grows p r"
  unfolding op_grows_def by metis

lemma journal_grows_refl [simp]: "journal_grows j j"
  by (simp add: journal_grows_def)

lemma journal_grows_trans:
  assumes "journal_grows a b" "journal_grows b c"
  shows "journal_grows a c"
  using assms ws_grows_trans op_grows_trans unfolding journal_grows_def by meson

lemma journal_grows_ws:
  assumes "journal_grows j j'" "find_ws j i = Some w"
  obtains v where "find_ws j' i = Some v" "ws_grows w v"
  using assms unfolding journal_grows_def by blast

lemma journal_grows_op:
  assumes "journal_grows j j'" "find_op j i = Some r"
  obtains q where "find_op j' i = Some q" "op_grows r q"
  using assms unfolding journal_grows_def by blast

text \<open>Updates of single rows.\<close>

lemma modify_ws_grows:
  assumes "\<And>w. ws_ID (f w) = ws_ID w" "\<And>w. find_ws j i = Some w \<Longrightarrow> ws_grows w (f w)"
  shows "journal_grows j (modify_ws i f j)"
  using assms by (simp add: journal_grows_def)

lemma modify_op_grows:
  assumes "\<And>r. rw_ID (f r) = rw_ID r" "\<And>r. find_op j i = Some r \<Longrightarrow> op_grows r (f r)"
  shows "journal_grows j (modify_op i f j)"
  using assms by (simp add: journal_grows_def)

lemma run_row_grows: "op_grows r (run_row r)"
  by (simp add: op_grows_def run_row_def)

lemma unknown_row_grows: "op_grows r (unknown_row s r)"
  by (simp add: op_grows_def unknown_row_def)

lemma cancel_row_grows: "op_grows r (cancel_row r)"
  by (simp add: op_grows_def cancel_row_def)

lemma finish_row_grows: "\<not> Status_Terminal (op_Status (rw_Operation r)) \<Longrightarrow> op_grows r (finish_row x r)"
  by (simp add: op_grows_def finish_row_def)

lemma reserve_grows:
  assumes "reserve j x logs = (j', res)"
  shows "journal_grows j j'"
  using assms
proof (cases rule: reserve_cases)
  case (created w req j2)
  have "jr_Workspaces j2 = jr_Workspaces j" "jr_Operations j2 = tinsert (new_op_row w x req) (jr_Operations j)"
    "jr_Artifacts j2 = jr_Artifacts j"
    using created(11) by (auto dest: reserveLogs_frame)
  then show ?thesis using created(2,12)
    by (auto simp: journal_grows_def ws_grows_def)
qed simp_all

lemma finish_grows:
  assumes "finish j x = (j', res)"
  shows "journal_grows j j'"
  using assms
proof (cases rule: finish_cases)
  case (finished r w)
  have "journal_grows j (modify_op (op_ID x) (finish_row (with_result x)) j)"
    using finished(1,2) by (intro modify_op_grows) (auto intro: finish_row_grows)
  moreover have "journal_grows (modify_op (op_ID x) (finish_row (with_result x)) j) j'"
    unfolding finished(10) using finished(6,8) find_ws_key [OF finished(6)]
    by (intro modify_ws_grows) (auto simp: ws_grows_def)
  ultimately show ?thesis by (rule journal_grows_trans)
qed simp_all

lemma setFence_grows:
  assumes "setFence j r stop = (j', res)"
  shows "journal_grows j j'"
  using assms
proof (cases rule: setFence_cases)
  case (set w)
  show ?thesis unfolding set(7) using set(1,3) find_ws_key [OF set(1)]
    by (intro modify_ws_grows) (auto simp: ws_grows_def)
qed simp

lemma small_grows:
  "createWorkspace j w = (j', r1) \<Longrightarrow> journal_grows j j'"
  "completeAdoption j q = (j', r2) \<Longrightarrow> journal_grows j j'"
  "releaseRow j q = (j', r3) \<Longrightarrow> journal_grows j j'"
  "startIntent j i = (j', r4) \<Longrightarrow> journal_grows j j'"
  "pinArtifact j ref = (j', r5) \<Longrightarrow> journal_grows j j'"
proof -
  show "createWorkspace j w = (j', r1) \<Longrightarrow> journal_grows j j'"
    by (auto simp: createWorkspace_def journal_grows_def new_workspace_row_def split: if_splits option.splits)
  show "completeAdoption j q = (j', r2) \<Longrightarrow> journal_grows j j'"
    by (auto simp: completeAdoption_def ws_grows_def intro!: modify_ws_grows split: if_splits option.splits)
  show "releaseRow j q = (j', r3) \<Longrightarrow> journal_grows j j'"
    by (auto simp: releaseRow_def ws_grows_def intro!: modify_ws_grows split: if_splits option.splits)
  show "startIntent j i = (j', r4) \<Longrightarrow> journal_grows j j'"
    by (auto simp: startIntent_def op_grows_def intro!: modify_op_grows split: if_splits option.splits)
  show "pinArtifact j ref = (j', r5) \<Longrightarrow> journal_grows j j'"
    by (auto simp: pinArtifact_def journal_grows_def split: if_splits option.splits)
qed

lemma frame_grows:
  assumes "jr_Workspaces j' = jr_Workspaces j" "jr_Operations j' = jr_Operations j"
    "jr_Artifacts j' = jr_Artifacts j"
  shows "journal_grows j j'"
  using assms by (simp add: journal_grows_def)

lemma journal_step_grows:
  assumes "journal_step j a out j'"
  shows "journal_grows j j'"
proof -
  have run: "journal_apply j a = (j', out)" using assms by (simp add: journal_step_def)
  show ?thesis
  proof (cases a)
    case (JReserve x logs)
    then show ?thesis using run reserve_grows by (auto simp: out_of_eq)
  next
    case (JFinish x)
    then show ?thesis using run finish_grows by (auto simp: out_of_eq)
  next
    case (JFence r stop)
    then show ?thesis using run setFence_grows by (auto simp: out_of_eq)
  next
    case (JRunning i)
    then show ?thesis using run by (auto simp: markRunning_def intro!: modify_op_grows run_row_grows)
  next
    case (JUnknown i s)
    then show ?thesis using run by (auto simp: markUnknown_def intro!: modify_op_grows unknown_row_grows)
  next
    case (JCancel i)
    then show ?thesis using run by (auto simp: requestCancel_def intro!: modify_op_grows cancel_row_grows)
  next
    case (JRecordContainer i c)
    then show ?thesis using run
      by (auto simp: out_of_eq recordLogContainer_def intro!: frame_grows split: option.splits if_splits)
  next
    case (JCleanup i s)
    then show ?thesis using run by (auto simp: setCleanupState_def intro!: frame_grows)
  next
    case (JRegisterSlot s)
    then show ?thesis using run
      by (auto simp: out_of_eq registerSlot_def intro!: frame_grows split: option.splits if_splits)
  next
    case (JAllocate vs r h)
    then show ?thesis using run
      by (auto simp: out_of_eq allocateLease_def Let_def intro!: frame_grows split: option.splits if_splits)
  next
    case (JFreeLease i)
    then show ?thesis using run by (auto simp: freeLease_def intro!: frame_grows)
  qed (use run small_grows in \<open>auto simp: out_of_eq\<close>)
qed

interpretation journal_order: monotone_machine journal_step journal_inv journal_grows
  by unfold_locales
    (auto intro: journal_grows_trans journal_step_inv journal_step_grows)

subsection \<open>What an accepted transaction shows\<close>

lemma reserve_created:
  assumes "journal_step j (JReserve x logs) (OOperation y True) j'"
  obtains w req where "find_ws j (op_WorkspaceID x) = Some w" "find_op j (op_ID x) = None"
    "ws_Epoch w = or_Epoch (op_Request x)" "\<not> ws_Adopting w" "\<not> ws_Released w" "\<not> ws_Stopped w"
    "ws_ActiveOperation w = []" "ws_Revision w = or_ExpectedRevision (op_Request x)"
    "find_op j' (op_ID x) = Some (new_op_row w x req)"
    "encode_request (without_grant (op_Request x)) = Some req"
proof -
  have "reserve j x logs = (j', Inr (y, True))"
    using assms by (auto simp: journal_step_def out_of_eq)
  then show thesis
  proof (cases rule: reserve_cases)
    case (created w req j2)
    have "find_op j2 (op_ID x) = Some (new_op_row w x req)"
      using created(11) by (auto dest: reserveLogs_frame)
    then show thesis using created that [of w req] by simp
  qed auto
qed

lemma fence_accepted:
  assumes "journal_step j (JFence r stop) (OWorkspace w) j'"
  shows "find_ws j' (wr_WorkspaceID r) = Some w" "ws_Epoch w = wr_Epoch r" "ws_Adopting w"
    "stop \<longrightarrow> ws_Stopped w"
proof -
  have "setFence j r stop = (j', Inr w)" using assms by (auto simp: journal_step_def out_of_eq)
  then have "find_ws j' (wr_WorkspaceID r) = Some w \<and> ws_Epoch w = wr_Epoch r \<and> ws_Adopting w
     \<and> (stop \<longrightarrow> ws_Stopped w)"
  proof (cases rule: setFence_cases)
    case (set v)
    then show ?thesis using find_ws_key [OF set(1)] by auto
  qed simp
  then show "find_ws j' (wr_WorkspaceID r) = Some w" "ws_Epoch w = wr_Epoch r" "ws_Adopting w"
    "stop \<longrightarrow> ws_Stopped w" by auto
qed

lemma release_accepted:
  assumes "journal_step j (JRelease r) OUnit j'"
  obtains w where "find_ws j' (wr_WorkspaceID r) = Some w" "ws_Released w"
  using assms find_ws_key
  by (fastforce simp: journal_step_def out_of_eq releaseRow_def split: option.splits if_splits)

text \<open>A closed workspace reopens only through an accepted \<open>completeAdoption\<close>.\<close>

lemma adopting_step:
  assumes "journal_step j a out j'" "find_ws j i = Some w" "ws_Adopting w" "find_ws j' i = Some v"
  shows "ws_Adopting v \<or> (\<exists>r u. a = JCompleteAdoption r \<and> wr_WorkspaceID r = i \<and> out = OWorkspace u)"
proof (cases "side_op a")
  case True
  then show ?thesis using assms side_op_frame [OF True] by (auto simp: journal_step_def)
next
  case False
  have run: "journal_apply j a = (j', out)" using assms(1) by (simp add: journal_step_def)
  show ?thesis
  proof (cases a)
    case (JReserve x logs)
    obtain res where "reserve j x logs = (j', res)"
      using run JReserve by (auto simp: out_of_eq)
    then show ?thesis
    proof (cases rule: reserve_cases)
      case (created w' req j2)
      have "jr_Workspaces j2 = jr_Workspaces j" using created(11) by (auto dest: reserveLogs_frame)
      then show ?thesis using assms created(12) by (auto split: if_splits)
    qed (use assms in auto)
  next
    case (JFinish x)
    obtain res where "finish j x = (j', res)" using run JFinish by (auto simp: out_of_eq)
    then show ?thesis
      by (cases rule: finish_cases) (use assms in \<open>auto split: if_splits\<close>)
  next
    case (JFence r stop)
    obtain res where "setFence j r stop = (j', res)" using run JFence by (auto simp: out_of_eq)
    then show ?thesis
      by (cases rule: setFence_cases) (use assms in \<open>auto split: if_splits\<close>)
  next
    case (JCreate u)
    then show ?thesis using run assms
      by (auto simp: out_of_eq createWorkspace_def new_workspace_row_def split: if_splits option.splits)
  next
    case (JCompleteAdoption r)
    then show ?thesis using run assms find_ws_key
      by (fastforce simp: out_of_eq completeAdoption_def split: if_splits option.splits)
  next
    case (JRelease r)
    then show ?thesis using run assms
      by (auto simp: out_of_eq releaseRow_def split: if_splits option.splits)
  qed (use False run assms in \<open>auto simp: side_op_def out_of_eq markRunning_def markUnknown_def
        requestCancel_def startIntent_def split: if_splits option.splits\<close>)
qed

lemma adopting_until:
  assumes "exec journal_step j tr j'" "journal_inv j" "find_ws j i = Some w" "ws_Adopting w"
    and "find_ws j' i = Some v" "\<not> ws_Adopting v"
  shows "\<exists>r u. (JCompleteAdoption r, OWorkspace u) \<in> set tr \<and> wr_WorkspaceID r = i"
  using assms
proof (induction arbitrary: v rule: exec.induct)
  case exec_init
  then show ?case by simp
next
  case (exec_step tr s a out s')
  have "journal_grows j s" using journal_order.grows exec_step.hyps(1) exec_step.prems(1) by blast
  then obtain u where u: "find_ws s i = Some u" using exec_step.prems(2) journal_grows_ws by metis
  show ?case
  proof (cases "ws_Adopting u")
    case True
    then show ?thesis using adopting_step [OF exec_step.hyps(2) u True] exec_step.prems by auto
  next
    case False
    then show ?thesis using exec_step.IH [OF exec_step.prems(1,2,3) u False] by auto
  qed
qed

end
