(* ===== verification/Runner_Budget.thy ===== *)
theory Runner_Budget
  imports Runner_History
begin

section \<open>Log budgets and volume leases\<close>

text \<open>
  \<open>log_inv\<close>: the counters of a run's log budget are what its operations reserved, under the
  one policy the run was admitted with. \<open>lease_inv\<close>: a volume slot carries at most one lease
  that has not been released. Both rest on the row invariant and on the journal's order.
\<close>

definition op_run_of :: "journal \<Rightarrow> string \<Rightarrow> (string \<times> string) option" where
  "op_run_of j i = map_option (\<lambda>r. (rw_TenantID r, rw_RunID r)) (find_op j i)"

definition reserved_in :: "journal \<Rightarrow> string \<times> string \<Rightarrow> nat" where
  "reserved_in j k = tcount (\<lambda>l. op_run_of j (ol_OperationID l) = Some k) (jr_OperationLogs j)"

definition log_run_ok :: "journal \<Rightarrow> log_run \<Rightarrow> bool" where
  "log_run_ok j l \<longleftrightarrow> log_policy_ok (lr_Policy l)
     \<and> lr_Operations l = int (reserved_in j (run_key l))
     \<and> lr_ReservedBytes l = lr_Operations l * lp_OperationBytes (lr_Policy l)
     \<and> lr_Operations l \<le> lp_MaxOperations (lr_Policy l)
     \<and> lr_ReservedBytes l \<le> lp_RunBytes (lr_Policy l)"

definition op_log_ok :: "journal \<Rightarrow> operation_log \<Rightarrow> bool" where
  "op_log_ok j o' \<longleftrightarrow> (\<exists>k l. op_run_of j (ol_OperationID o') = Some k
     \<and> tfind run_key k (jr_LogRuns j) = Some l \<and> lr_Policy l = ol_Policy o')"

definition log_inv :: "journal \<Rightarrow> bool" where
  "log_inv j \<longleftrightarrow> distinct (map ol_OperationID (jr_OperationLogs j))
     \<and> (\<forall>k l. tfind run_key k (jr_LogRuns j) = Some l \<longrightarrow> log_run_ok j l)
     \<and> (\<forall>o' \<in> set (jr_OperationLogs j). op_log_ok j o')"

lemma op_run_of_grows: "journal_grows j j' \<Longrightarrow> op_run_of j i = Some k \<Longrightarrow> op_run_of j' i = Some k"
  by (auto simp: op_run_of_def op_grows_def elim!: journal_grows_op)

lemma reserved_in_grows:
  assumes "journal_grows j j'" "log_inv j" "jr_OperationLogs j' = jr_OperationLogs j"
  shows "reserved_in j' k = reserved_in j k"
proof -
  have "op_run_of j' (ol_OperationID o') = op_run_of j (ol_OperationID o')"
    if "o' \<in> set (jr_OperationLogs j)" for o'
    using that assms(2) op_run_of_grows [OF assms(1)] unfolding log_inv_def op_log_ok_def by fastforce
  then show ?thesis unfolding reserved_in_def tcount_def assms(3) by (intro arg_cong [of _ _ length] filter_cong) auto
qed

lemma log_run_ok_cong: "reserved_in j' (run_key l) = reserved_in j (run_key l) \<Longrightarrow> log_run_ok j' l = log_run_ok j l"
  by (simp add: log_run_ok_def)

lemma log_inv_run: "log_inv j \<Longrightarrow> tfind run_key k (jr_LogRuns j) = Some l \<Longrightarrow> log_run_ok j l"
  unfolding log_inv_def by blast

lemma log_inv_frame:
  assumes "log_inv j" "journal_grows j j'" "jr_LogRuns j' = jr_LogRuns j"
    "jr_OperationLogs j' = jr_OperationLogs j"
  shows "log_inv j'"
proof -
  have "log_run_ok j' l = log_run_ok j l" for l
    by (rule log_run_ok_cong) (rule reserved_in_grows [OF assms(2,1,4)])
  moreover have "op_log_ok j o' \<Longrightarrow> op_log_ok j' o'" for o'
    using op_run_of_grows [OF assms(2)] unfolding op_log_ok_def assms(3) by blast
  ultimately show ?thesis using assms(1) by (simp add: log_inv_def assms(3,4))
qed

text \<open>An update of a log row that keeps its operation and policy.\<close>

lemma log_row_update:
  assumes inv: "log_inv j" and ops: "jr_Operations j' = jr_Operations j" and runs: "jr_LogRuns j' = jr_LogRuns j"
    and logs: "jr_OperationLogs j' = tmodify ol_OperationID i f (jr_OperationLogs j)"
    and keep: "\<And>l. ol_OperationID (f l) = ol_OperationID l \<and> ol_Policy (f l) = ol_Policy l"
  shows "log_inv j'"
proof -
  have run: "op_run_of j' = op_run_of j" by (simp add: fun_eq_iff op_run_of_def ops)
  have res: "reserved_in j' k = reserved_in j k" for k
    unfolding reserved_in_def logs run using keep by (simp add: tcount_tmodify_same)
  have "log_run_ok j' l = log_run_ok j l" for l
    by (rule log_run_ok_cong) (rule res)
  moreover have "op_log_ok j o' \<Longrightarrow> op_log_ok j' o'" and "op_log_ok j o' \<Longrightarrow> op_log_ok j' (f o')" for o'
    using keep by (simp_all add: op_log_ok_def run runs)
  ultimately show ?thesis using inv keep
    by (auto simp: log_inv_def runs logs tmodify_keys set_tmodify)
qed

lemma reserveLogs_Inr:
  assumes "reserveLogs j x p = Inr j'"
  obtains l where "tfind run_key (op_run x) (jr_LogRuns j) = Some l \<or>
      (tfind run_key (op_run x) (jr_LogRuns j) = None \<and> l = \<lparr>lr_TenantID = or_TenantID (op_Request x),
         lr_RunID = or_RunID (op_Request x), lr_Policy = p, lr_ReservedBytes = 0, lr_Operations = 0\<rparr>)"
    and "lr_Policy l = p" and "lr_Operations l < lp_MaxOperations p"
    and "lr_ReservedBytes l \<le> lp_RunBytes p - lp_OperationBytes p"
    and "tfind ol_OperationID (op_ID x) (jr_OperationLogs j) = None"
    and "\<And>k. tfind run_key k (jr_LogRuns j') = (if k = op_run x
          then Some (l\<lparr>lr_ReservedBytes := lr_ReservedBytes l + lp_OperationBytes p,
                       lr_Operations := lr_Operations l + 1\<rparr>)
          else tfind run_key k (jr_LogRuns j))"
    and "jr_OperationLogs j' = tinsert \<lparr>ol_OperationID = op_ID x, ol_Policy = p, ol_ContainerID = [],
          ol_CleanupState = Retained\<rparr> (jr_OperationLogs j)"
proof -
  let ?new = "\<lparr>lr_TenantID = or_TenantID (op_Request x),
         lr_RunID = or_RunID (op_Request x), lr_Policy = p, lr_ReservedBytes = 0, lr_Operations = 0\<rparr>"
  have key: "run_key ?new = op_run x" by (simp add: run_key_def op_run_def)
  have upd: "run_key (l\<lparr>lr_ReservedBytes := b, lr_Operations := n\<rparr>) = run_key l" for l :: log_run and b n
    by (simp add: run_key_def)
  show thesis
  proof (cases "tfind run_key (op_run x) (jr_LogRuns j)")
    case None
    then show thesis using assms key upd that [of ?new]
      by (auto simp: reserveLogs_def Let_def tfind_tmodify split: if_splits)
  next
    case (Some l)
    then show thesis using assms upd that [of l]
      by (auto simp: reserveLogs_def Let_def tfind_tmodify split: if_splits)
  qed
qed

lemma reserveLogs_inv:
  assumes inv: "log_inv j" and pol: "log_policy_ok p"
    and own: "op_run_of j (op_ID x) = Some (op_run x)"
    and res: "reserveLogs j x p = Inr j'"
  shows "log_inv j'"
proof -
  obtain l where l: "tfind run_key (op_run x) (jr_LogRuns j) = Some l \<or>
      (tfind run_key (op_run x) (jr_LogRuns j) = None \<and> l = \<lparr>lr_TenantID = or_TenantID (op_Request x),
         lr_RunID = or_RunID (op_Request x), lr_Policy = p, lr_ReservedBytes = 0, lr_Operations = 0\<rparr>)"
    and lp: "lr_Policy l = p" "lr_Operations l < lp_MaxOperations p"
      "lr_ReservedBytes l \<le> lp_RunBytes p - lp_OperationBytes p"
    and free: "tfind ol_OperationID (op_ID x) (jr_OperationLogs j) = None"
    and runs: "\<And>k. tfind run_key k (jr_LogRuns j') = (if k = op_run x
          then Some (l\<lparr>lr_ReservedBytes := lr_ReservedBytes l + lp_OperationBytes p,
                       lr_Operations := lr_Operations l + 1\<rparr>)
          else tfind run_key k (jr_LogRuns j))"
    and logs: "jr_OperationLogs j' = tinsert \<lparr>ol_OperationID = op_ID x, ol_Policy = p,
          ol_ContainerID = [], ol_CleanupState = Retained\<rparr> (jr_OperationLogs j)"
    by (rule reserveLogs_Inr [OF res]) blast
  have lkey: "run_key l = op_run x" using l tfind_key by (fastforce simp: run_key_def op_run_def)
  have op: "op_run_of j' = op_run_of j"
    using reserveLogs_frame(2) [OF res] by (simp add: fun_eq_iff op_run_of_def)
  have res': "reserved_in j' k = reserved_in j k + (if k = op_run x then 1 else 0)" for k
    using own by (auto simp: reserved_in_def logs op)
  have zero: "reserved_in j (op_run x) = 0" if "tfind run_key (op_run x) (jr_LogRuns j) = None"
  proof -
    have "op_run_of j (ol_OperationID o') \<noteq> Some (op_run x)" if "o' \<in> set (jr_OperationLogs j)" for o'
      using that inv \<open>tfind run_key (op_run x) (jr_LogRuns j) = None\<close>
      by (auto simp: log_inv_def op_log_ok_def)
    then show ?thesis by (auto simp: reserved_in_def tcount_eq_0)
  qed
  have lok: "lr_Operations l = int (reserved_in j (op_run x))"
      "lr_ReservedBytes l = lr_Operations l * lp_OperationBytes p"
  proof -
    consider "log_run_ok j l" | "tfind run_key (op_run x) (jr_LogRuns j) = None"
        "lr_Operations l = 0" "lr_ReservedBytes l = 0"
      using l log_inv_run [OF inv] by (elim disjE conjE) auto
    then show "lr_Operations l = int (reserved_in j (op_run x))"
        "lr_ReservedBytes l = lr_Operations l * lp_OperationBytes p"
      using zero lkey lp(1) by (cases; simp add: log_run_ok_def)+
  qed
  show ?thesis unfolding log_inv_def
  proof (intro conjI allI impI ballI)
    show "distinct (map ol_OperationID (jr_OperationLogs j'))"
      using inv free by (auto simp: logs log_inv_def tinsert_def tfind_None)
    show "log_run_ok j' m" if m: "tfind run_key k (jr_LogRuns j') = Some m" for k m
    proof (cases "k = op_run x")
      case True
      then have m': "m = l\<lparr>lr_ReservedBytes := lr_ReservedBytes l + lp_OperationBytes p,
                       lr_Operations := lr_Operations l + 1\<rparr>" using m runs by simp
      have "run_key m = op_run x" using lkey by (simp add: m' run_key_def)
      then show ?thesis using lok lp pol by (simp add: m' log_run_ok_def res' algebra_simps)
    next
      case False
      then have old: "tfind run_key k (jr_LogRuns j) = Some m" using m runs by simp
      have "run_key m = k" using old by (rule tfind_key)
      then have "log_run_ok j' m = log_run_ok j m" using False by (intro log_run_ok_cong) (simp add: res')
      then show ?thesis using log_inv_run [OF inv old] by simp
    qed
    show "op_log_ok j' o'" if "o' \<in> set (jr_OperationLogs j')" for o'
    proof (cases "o' \<in> set (jr_OperationLogs j)")
      case True
      then obtain k m where k: "op_run_of j (ol_OperationID o') = Some k"
          "tfind run_key k (jr_LogRuns j) = Some m" "lr_Policy m = ol_Policy o'"
        using inv by (auto simp: log_inv_def op_log_ok_def)
      then show ?thesis using l lp by (auto simp: op_log_ok_def op runs)
    next
      case False
      then show ?thesis using that own lp by (auto simp: op_log_ok_def op runs logs)
    qed
  qed
qed

lemma reserve_log_inv:
  assumes inv: "log_inv j" and jinv: "journal_inv j" and adm: "admissible (JReserve x logs)"
    and res: "reserve j x logs = (j', r)"
  shows "log_inv j'"
  using res
proof (cases rule: reserve_cases)
  case (created w req j2)
  let ?j1 = "j\<lparr>jr_Operations := tinsert (new_op_row w x req) (jr_Operations j)\<rparr>"
  have g1: "journal_grows j ?j1" using created(2) by (auto simp: journal_grows_def)
  have inv1: "log_inv ?j1" using inv g1 by (rule log_inv_frame) simp_all
  have own: "op_run_of ?j1 (op_ID x) = Some (op_run x)"
    using created(3) by (simp add: op_run_of_def op_run_def new_op_row_def workspaceBinding_None)
  have inv2: "log_inv j2"
    using created(11)
  proof
    assume "\<exists>p. logs = Some p \<and> isProcess (or_Kind (op_Request x)) \<and> reserveLogs ?j1 x p = Inr j2"
    then show ?thesis using reserveLogs_inv [OF inv1 _ own] adm by auto
  qed (use inv1 in simp)
  show ?thesis unfolding created(12)
    by (rule log_inv_frame [OF inv2]) (auto intro!: modify_ws_grows simp: ws_grows_def)
qed (use inv in simp_all)

text \<open>Which transactions touch the log tables at all.\<close>

definition log_op :: "journal_op \<Rightarrow> bool" where
  "log_op a \<longleftrightarrow> (case a of JReserve _ _ \<Rightarrow> True | JRecordContainer _ _ \<Rightarrow> True | JCleanup _ _ \<Rightarrow> True | _ \<Rightarrow> False)"

lemma log_tables_frame:
  assumes "journal_apply j a = (j', out)" "\<not> log_op a"
  shows "jr_LogRuns j' = jr_LogRuns j \<and> jr_OperationLogs j' = jr_OperationLogs j"
proof (cases a)
  case (JFinish x)
  obtain res where "finish j x = (j', res)" using assms JFinish by (auto simp: out_of_eq)
  then show ?thesis by (cases rule: finish_cases) auto
next
  case (JFence r stop)
  obtain res where "setFence j r stop = (j', res)" using assms JFence by (auto simp: out_of_eq)
  then show ?thesis by (cases rule: setFence_cases) auto
next
  case (JCreate w)
  then show ?thesis using assms by (auto simp: out_of_eq createWorkspace_def split: if_splits option.splits)
next
  case (JAllocate vs r h)
  then show ?thesis using assms
    by (auto simp: out_of_eq allocateLease_def Let_def split: if_splits option.splits)
qed (use assms in \<open>auto simp: log_op_def out_of_eq markRunning_def markUnknown_def requestCancel_def
      startIntent_def completeAdoption_def releaseRow_def pinArtifact_def registerSlot_def freeLease_def
      split: if_splits option.splits\<close>)

lemma log_step_inv:
  assumes "journal_inv j" "log_inv j" "journal_step j a out j'"
  shows "log_inv j'"
proof -
  have run: "journal_apply j a = (j', out)" "admissible a" using assms(3) by (auto simp: journal_step_def)
  show ?thesis
  proof (cases "log_op a")
    case False
    then show ?thesis
      using log_inv_frame [OF assms(2) journal_step_grows [OF assms(3)]] log_tables_frame [OF run(1)] by simp
  next
    case True
    then consider (res) x logs where "a = JReserve x logs" | (cont) i c where "a = JRecordContainer i c"
      | (clean) i s where "a = JCleanup i s" by (cases a) (auto simp: log_op_def)
    then show ?thesis
    proof cases
      case res
      then show ?thesis using run reserve_log_inv [OF assms(2,1)] by (auto simp: out_of_eq)
    next
      case cont
      then have "j' = j \<or> j' = j\<lparr>jr_OperationLogs := tmodify ol_OperationID i
          (\<lambda>l. l\<lparr>ol_ContainerID := c\<rparr>) (jr_OperationLogs j)\<rparr>"
        using run by (auto simp: out_of_eq recordLogContainer_def split: if_splits option.splits)
      then show ?thesis using assms(2) by (auto intro: log_row_update [OF assms(2)])
    next
      case clean
      then show ?thesis using run(1)
        by (intro log_row_update [OF assms(2), of _ i "\<lambda>l. l\<lparr>ol_CleanupState := s\<rparr>"])
          (auto simp: setCleanupState_def)
    qed
  qed
qed

interpretation log_budget: ghost_invariant journal_step "\<lambda>tr j. journal_inv j" "\<lambda>tr j. log_inv j"
    "empty_journal i" for i
proof
  show "exec journal_step (empty_journal i) tr j \<Longrightarrow> journal_inv j" for tr j
    by (rule journal_rows.always)
  show "log_inv (empty_journal i)" by (simp add: log_inv_def empty_journal_def)
qed (auto intro: log_step_inv)

subsection \<open>Volume leases\<close>

definition open_leases :: "journal \<Rightarrow> volume_lease list" where
  "open_leases j = filter (\<lambda>l. \<not> vl_Released l) (jr_VolumeLeases j)"

definition lease_inv :: "journal \<Rightarrow> bool" where
  "lease_inv j \<longleftrightarrow> distinct (map vl_WorkspaceID (jr_VolumeLeases j))
     \<and> distinct (map vl_SlotID (open_leases j))
     \<and> (\<forall>l \<in> set (jr_VolumeLeases j). tfind vs_ID (vl_SlotID l) (jr_VolumeSlots j) \<noteq> None)"

lemma distinct_filter_tmodify:
  assumes "distinct (map g (filter P rows))" "\<And>r. g (f r) = g r" "\<And>r. P (f r) \<Longrightarrow> P r"
  shows "distinct (map g (filter P (tmodify key k f rows)))"
proof -
  have "g ` set (filter P (tmodify key k f rows)) \<subseteq> g ` set (filter P rows)" for rows
    using assms(2,3) by (fastforce simp: set_tmodify)
  then show ?thesis using assms by (induction rows) (auto simp: tmodify_def split: if_splits)
qed

lemma free_slot_Some:
  assumes "free_slot j slots = Some s"
  shows "vs_ID s \<notin> vl_SlotID ` set (open_leases j)"
proof -
  have "occupied j (vs_ID s) = 0" using assms by (auto simp: free_slot_def find_Some_iff)
  then show ?thesis by (auto simp: occupied_def tcount_eq_0 open_leases_def)
qed

lemma allocateLease_inv:
  assumes inv: "lease_inv j" and "allocateLease j slots r h = (j', res)"
  shows "lease_inv j'"
proof (cases "tfind vl_WorkspaceID (wr_WorkspaceID (pr_Workspace r)) (jr_VolumeLeases j)")
  case (Some l)
  then have "j' = j \<or> j' = j\<lparr>jr_VolumeLeases := tmodify vl_WorkspaceID (wr_WorkspaceID (pr_Workspace r))
      (\<lambda>l. l\<lparr>vl_Epoch := wr_Epoch (pr_Workspace r)\<rparr>) (jr_VolumeLeases j)\<rparr>"
    using assms(2) by (auto simp: allocateLease_def Let_def split: if_splits)
  then show ?thesis using inv
    by (auto simp: lease_inv_def open_leases_def tmodify_keys set_tmodify intro!: distinct_filter_tmodify)
next
  case None
  note free = None
  show ?thesis
  proof (cases "free_slot j slots")
    case None
    then show ?thesis using free assms by (simp add: allocateLease_def Let_def)
  next
    case (Some s)
    show ?thesis
    proof (cases "j' = j")
      case False
      have j': "j' = j\<lparr>jr_VolumeLeases := tinsert (new_lease r (vs_ID s) h) (jr_VolumeLeases j)\<rparr>"
        and slot: "tfind vs_ID (vs_ID s) (jr_VolumeSlots j) \<noteq> None"
        using free Some assms(2) False by (simp_all add: allocateLease_def Let_def split: if_splits)
      show ?thesis using inv free slot free_slot_Some [OF Some]
        by (auto simp: j' lease_inv_def open_leases_def new_lease_def tinsert_def tfind_None)
    qed (use inv in simp)
  qed
qed

definition lease_op :: "journal_op \<Rightarrow> bool" where
  "lease_op a \<longleftrightarrow> (case a of JRegisterSlot _ \<Rightarrow> True | JAllocate _ _ _ \<Rightarrow> True | JFreeLease _ \<Rightarrow> True | _ \<Rightarrow> False)"

lemma lease_tables_frame:
  assumes "journal_apply j a = (j', out)" "\<not> lease_op a"
  shows "jr_VolumeLeases j' = jr_VolumeLeases j \<and> jr_VolumeSlots j' = jr_VolumeSlots j"
proof (cases a)
  case (JReserve x logs)
  obtain res where "reserve j x logs = (j', res)" using assms JReserve by (auto simp: out_of_eq)
  then show ?thesis
  proof (cases rule: reserve_cases)
    case (created w req j2)
    then show ?thesis by (auto dest: reserveLogs_frame)
  qed auto
next
  case (JFinish x)
  obtain res where "finish j x = (j', res)" using assms JFinish by (auto simp: out_of_eq)
  then show ?thesis by (cases rule: finish_cases) auto
next
  case (JFence r stop)
  obtain res where "setFence j r stop = (j', res)" using assms JFence by (auto simp: out_of_eq)
  then show ?thesis by (cases rule: setFence_cases) auto
next
  case (JCreate w)
  then show ?thesis using assms by (auto simp: out_of_eq createWorkspace_def split: if_splits option.splits)
qed (use assms in \<open>auto simp: lease_op_def out_of_eq markRunning_def markUnknown_def requestCancel_def
      startIntent_def completeAdoption_def releaseRow_def pinArtifact_def recordLogContainer_def
      setCleanupState_def split: if_splits option.splits\<close>)

lemma lease_step_inv:
  assumes "lease_inv j" "journal_step j a out j'"
  shows "lease_inv j'"
proof -
  have run: "journal_apply j a = (j', out)" using assms(2) by (simp add: journal_step_def)
  show ?thesis
  proof (cases "lease_op a")
    case False
    then show ?thesis using assms(1) lease_tables_frame [OF run] by (simp add: lease_inv_def open_leases_def)
  next
    case True
    then consider (reg) s where "a = JRegisterSlot s" | (all) vs r h where "a = JAllocate vs r h"
      | (free) i where "a = JFreeLease i" by (cases a) (auto simp: lease_op_def)
    then show ?thesis
    proof cases
      case reg
      then show ?thesis using run assms(1)
        by (auto simp: out_of_eq registerSlot_def lease_inv_def open_leases_def split: if_splits option.splits)
    next
      case all
      then show ?thesis using run allocateLease_inv [OF assms(1)] by (auto simp: out_of_eq)
    next
      case free
      then have "j' = freeLease j i" using run by simp
      then show ?thesis using assms(1)
        by (auto simp: freeLease_def lease_inv_def open_leases_def tmodify_keys set_tmodify
            intro!: distinct_filter_tmodify)
    qed
  qed
qed

interpretation volume_pool: ghost_invariant journal_step "\<lambda>tr j. True" "\<lambda>tr j. lease_inv j"
    "empty_journal i" for i
proof
  show "lease_inv (empty_journal i)" by (simp add: lease_inv_def empty_journal_def open_leases_def)
qed (auto intro: lease_step_inv)

end
