(* ===== verification/Runner_Demo.thy ===== *)
theory Runner_Demo
  imports Runner_Budget
begin

section \<open>An evaluated execution of the journal\<close>

text \<open>
  The life of one workspace: a slot is registered and leased, the workspace is created, a
  command is admitted, dispatched, started and settled; a second worker takes over under a
  higher epoch and admits a second operation; a third stops and releases the workspace after
  that operation was cancelled. The properties of the journal are applied to its history.
\<close>

definition jdemo_wr :: "u64 \<Rightarrow> workspace_request" where
  "jdemo_wr e = \<lparr>wr_TenantID = ''t'', wr_RunID = ''r'', wr_WorkspaceID = ''w'', wr_Epoch = e, wr_Grant = ''g''\<rparr>"

definition jdemo_ws :: workspace where
  "jdemo_ws = \<lparr>ws_TenantID = ''t'', ws_RunID = ''r'', ws_ID = ''w'', ws_SourceID = ''s'',
     ws_ProfileID = ''p'', ws_Epoch = 1, ws_Revision = 1, ws_ActiveOperation = [], ws_Stopped = False,
     ws_Adopting = False, ws_Released = False, ws_BaselineHash = ''h0''\<rparr>"

definition jdemo_oper :: "string \<Rightarrow> u64 \<Rightarrow> u64 \<Rightarrow> operation" where
  "jdemo_oper i e n = \<lparr>op_Request = \<lparr>or_Workspace = jdemo_wr e, or_OperationID = i,
       or_ExpectedRevision = n, or_Kind = ''run_command'', or_Args = ''{}'', or_ArgsHash = ''h'',
       or_PolicyVersion = ''v1'', or_Deadline = 1000\<rparr>,
     op_Status = OpUnknown, op_JobID = ''job'', op_BeforeHash = ''h0'', op_ExpectedAfterHash = [],
     op_AfterHash = [], op_AfterRevision = 0, op_Result = [], op_ResultTruncated = False,
     op_Receipt = zero_ref, op_Error = [], op_CancelRequested = False\<rparr>"

definition jdemo_ref :: artifact_ref where
  "jdemo_ref = \<lparr>ar_TenantID = ''t'', ar_RunID = ''r'', ar_Kind = ''operation_receipt'', ar_ObjectKey = ''k'',
     ar_SHA256 = ''d'', ar_Size = 2\<rparr>"

definition jdemo_done :: "string \<Rightarrow> u64 \<Rightarrow> u64 \<Rightarrow> op_status \<Rightarrow> u64 \<Rightarrow> operation" where
  "jdemo_done i e n st after = (jdemo_oper i e n)\<lparr>op_Status := st, op_AfterHash := ''h1'',
     op_AfterRevision := after, op_Receipt := jdemo_ref\<rparr>"

definition jdemo_policy :: log_policy where
  "jdemo_policy = \<lparr>lp_EntryBytes = 64, lp_OperationBytes = 100, lp_RunBytes = 250, lp_MaxOperations = 2,
     lp_PreviewBytes = 10\<rparr>"

definition jdemo_slot :: volume_spec where
  "jdemo_slot = \<lparr>vs_ID = ''v'', vs_MountPath = ''/v'', vs_ImagePath = ''/i'', vs_ImageDevice = 1,
     vs_ImageInode = 1, vs_ImageBytes = 1, vs_Device = ''d'', vs_FilesystemUUID = ''u'', vs_MaxInodes = 1\<rparr>"

definition jdemo_start :: journal where
  "jdemo_start = empty_journal (replicate 64 CHR ''a'')"

definition jdemo_ops1 :: "journal_op list" where
  "jdemo_ops1 = [JRegisterSlot jdemo_slot,
     JAllocate [jdemo_slot] \<lparr>pr_Workspace = jdemo_wr 1, pr_SourceID = ''s'', pr_ProfileID = ''p''\<rparr> ''h0'',
     JCreate jdemo_ws,
     JReserve (jdemo_oper ''a'' 1 1) (Some jdemo_policy),
     JRunning ''a'', JStartIntent ''a'', JPin jdemo_ref,
     JFinish (jdemo_done ''a'' 1 1 OpSucceeded 2)]"

definition jdemo_ops2 :: "journal_op list" where
  "jdemo_ops2 = [JFence (jdemo_wr 2) False, JCompleteAdoption (jdemo_wr 2),
     JReserve (jdemo_oper ''b'' 2 2) (Some jdemo_policy)]"

definition jdemo_ops3 :: "journal_op list" where
  "jdemo_ops3 = [JCancel ''b'', JFence (jdemo_wr 3) True,
     JFinish (jdemo_done ''b'' 2 2 OpCancelled 2), JRelease (jdemo_wr 3), JFreeLease ''w''] "

definition jdemo_ops :: "journal_op list" where
  "jdemo_ops = jdemo_ops1 @ jdemo_ops2 @ jdemo_ops3"

lemmas jdemo_journal_defs = jdemo_wr_def jdemo_ws_def jdemo_oper_def jdemo_ref_def jdemo_done_def
  jdemo_policy_def jdemo_slot_def jdemo_start_def jdemo_ops1_def jdemo_ops2_def jdemo_ops3_def jdemo_ops_def

lemma jdemo_admissible: "a \<in> set jdemo_ops \<Longrightarrow> admissible a"
  by (auto simp: jdemo_journal_defs log_policy_ok_def)

lemma jdemo_exec:
  assumes "set as \<subseteq> set jdemo_ops"
  shows "exec journal_step j (fst (replay journal_apply j as)) (snd (replay journal_apply j as))"
  by (rule replay_exec) (use assms jdemo_admissible in \<open>auto simp: journal_step_def\<close>)


lemma jdemo_args: "compact_args ''{}'' = Some ''{}''"
  by (simp add: compact_args_def json_valid_def json_eval is_line_sep_def escape_rune_def encode_rune_def)

lemma jdemo_encode [simp]:
  "encode_request (without_grant (op_Request (jdemo_oper i e n))) =
     Some (without_grant (op_Request (jdemo_oper i e n)))"
  by (simp add: encode_request_def jdemo_oper_def without_grant_def jdemo_args json_time_def day_def)

subsection \<open>The states it passes\<close>

definition jdemo_row :: "string \<Rightarrow> u64 \<Rightarrow> u64 \<Rightarrow> op_row" where
  "jdemo_row i e n = \<lparr>rw_ID = i, rw_WorkspaceID = ''w'', rw_TenantID = ''t'', rw_RunID = ''r'',
     rw_Operation = (jdemo_oper i e n)\<lparr>op_Request := without_grant (op_Request (jdemo_oper i e n)),
       op_Status := OpPrepared, op_Result := ''{}''\<rparr>,
     rw_DispatchStarted = False, rw_DockerStartIntent = False\<rparr>"

definition jdemo_row_a :: op_row where
  "jdemo_row_a = (finish_row (with_result (jdemo_done ''a'' 1 1 OpSucceeded 2))
     (set_status OpRunning (jdemo_row ''a'' 1 1)))\<lparr>rw_DispatchStarted := True, rw_DockerStartIntent := True\<rparr>"

definition jdemo_row_b :: op_row where
  "jdemo_row_b = finish_row (with_result (jdemo_done ''b'' 2 2 OpCancelled 2)) (cancel_row (jdemo_row ''b'' 2 2))"

definition jdemo_lease :: volume_lease where
  "jdemo_lease = new_lease \<lparr>pr_Workspace = jdemo_wr 1, pr_SourceID = ''s'', pr_ProfileID = ''p''\<rparr> ''v'' ''h0''"

definition jdemo_oplog :: "string \<Rightarrow> operation_log" where
  "jdemo_oplog i = \<lparr>ol_OperationID = i, ol_Policy = jdemo_policy, ol_ContainerID = [], ol_CleanupState = Retained\<rparr>"

definition jdemo_logrun :: "int \<Rightarrow> log_run" where
  "jdemo_logrun n = \<lparr>lr_TenantID = ''t'', lr_RunID = ''r'', lr_Policy = jdemo_policy,
     lr_ReservedBytes = 100 * n, lr_Operations = n\<rparr>"

definition jdemo_state :: "workspace list \<Rightarrow> op_row list \<Rightarrow> artifact_ref list \<Rightarrow> log_run list
    \<Rightarrow> operation_log list \<Rightarrow> volume_lease list \<Rightarrow> journal" where
  "jdemo_state ws ops arts runs logs leases = \<lparr>jr_Identity = replicate 64 CHR ''a'', jr_Workspaces = ws,
     jr_Operations = ops, jr_Artifacts = arts, jr_LogRuns = runs, jr_OperationLogs = logs,
     jr_VolumeSlots = [jdemo_slot], jr_VolumeLeases = leases\<rparr>"

definition jdemo_mid1 :: journal where
  "jdemo_mid1 = jdemo_state [jdemo_ws\<lparr>ws_Revision := 2\<rparr>] [jdemo_row_a] [jdemo_ref] [jdemo_logrun 1]
     [jdemo_oplog ''a''] [jdemo_lease]"

definition jdemo_mid2 :: journal where
  "jdemo_mid2 = jdemo_state [jdemo_ws\<lparr>ws_Revision := 2, ws_Epoch := 2, ws_ActiveOperation := ''b''\<rparr>]
     [jdemo_row ''b'' 2 2, jdemo_row_a] [jdemo_ref] [jdemo_logrun 2] [jdemo_oplog ''b'', jdemo_oplog ''a'']
     [jdemo_lease]"

definition jdemo_end :: journal where
  "jdemo_end = jdemo_state [jdemo_ws\<lparr>ws_Revision := 2, ws_Epoch := 3, ws_Stopped := True,
       ws_Adopting := True, ws_Released := True\<rparr>]
     [jdemo_row_b, jdemo_row_a] [jdemo_ref] [jdemo_logrun 2] [jdemo_oplog ''b'', jdemo_oplog ''a'']
     [jdemo_lease\<lparr>vl_Released := True\<rparr>]"

definition jdemo_outs1 :: "journal_out list" where
  "jdemo_outs1 = [OUnit, OSlot ''v'', OWorkspace jdemo_ws,
     OOperation ((jdemo_oper ''a'' 1 1)\<lparr>op_Request := without_grant (op_Request (jdemo_oper ''a'' 1 1)),
       op_Status := OpPrepared\<rparr>) True, OUnit, OUnit, OUnit,
     OOperation (with_result (jdemo_done ''a'' 1 1 OpSucceeded 2)) False]"

definition jdemo_outs2 :: "journal_out list" where
  "jdemo_outs2 = [OWorkspace (jdemo_ws\<lparr>ws_Revision := 2, ws_Epoch := 2, ws_Adopting := True\<rparr>),
     OWorkspace (jdemo_ws\<lparr>ws_Revision := 2, ws_Epoch := 2\<rparr>),
     OOperation ((jdemo_oper ''b'' 2 2)\<lparr>op_Request := without_grant (op_Request (jdemo_oper ''b'' 2 2)),
       op_Status := OpPrepared\<rparr>) True]"

definition jdemo_outs3 :: "journal_out list" where
  "jdemo_outs3 = [OUnit, OWorkspace (jdemo_ws\<lparr>ws_Revision := 2, ws_Epoch := 3, ws_Adopting := True,
       ws_Stopped := True, ws_ActiveOperation := ''b''\<rparr>),
     OOperation (with_result (jdemo_done ''b'' 2 2 OpCancelled 2)) False, OUnit, OUnit]"

lemma jdemo_sel [simp]:
  "op_ID (jdemo_oper i e n) = i" "or_Workspace (op_Request (jdemo_oper i e n)) = jdemo_wr e"
  "or_ExpectedRevision (op_Request (jdemo_oper i e n)) = n"
  "or_Kind (op_Request (jdemo_oper i e n)) = ''run_command''"
  "wr_TenantID (jdemo_wr e) = ''t''" "wr_RunID (jdemo_wr e) = ''r''" "wr_WorkspaceID (jdemo_wr e) = ''w''"
  "wr_Epoch (jdemo_wr e) = e"
  by (simp_all add: jdemo_oper_def jdemo_wr_def)

lemmas jdemo_tables = tcount_def tinsert_def tmodify_def modify_ws_def modify_op_def jdemo_state_def

lemma jdemo_new_row: "new_op_row w (jdemo_oper i e n) (without_grant (op_Request (jdemo_oper i e n))) =
    jdemo_row i e n" if "ws_ID w = ''w''" "ws_TenantID w = ''t''" "ws_RunID w = ''r''"
  using that by (simp add: new_op_row_def jdemo_row_def jdemo_oper_def)

lemma jdemo_step1: "journal_apply jdemo_start (JRegisterSlot jdemo_slot) = (jdemo_state [] [] [] [] [] [], OUnit)"
  by (simp add: jdemo_start_def empty_journal_def registerSlot_def jdemo_tables)

lemma jdemo_step2: "journal_apply (jdemo_state [] [] [] [] [] [])
    (JAllocate [jdemo_slot] \<lparr>pr_Workspace = jdemo_wr 1, pr_SourceID = ''s'', pr_ProfileID = ''p''\<rparr> ''h0'')
    = (jdemo_state [] [] [] [] [] [jdemo_lease], OSlot ''v'')"
  by (simp add: allocateLease_def free_slot_def occupied_def jdemo_tables Let_def db_uint_def
      jdemo_lease_def jdemo_slot_def)

lemma jdemo_step3: "journal_apply (jdemo_state [] [] [] [] [] ls) (JCreate jdemo_ws)
    = (jdemo_state [jdemo_ws] [] [] [] [] ls, OWorkspace jdemo_ws)"
  by (simp add: createWorkspace_def jdemo_ws_def db_uint_def jdemo_tables new_workspace_row_def)

lemma jdemo_step4: "journal_apply (jdemo_state [jdemo_ws] [] [] [] [] ls)
     (JReserve (jdemo_oper ''a'' 1 1) (Some jdemo_policy))
   = (jdemo_state [jdemo_ws\<lparr>ws_ActiveOperation := ''a''\<rparr>] [jdemo_row ''a'' 1 1] [] [jdemo_logrun 1] [jdemo_oplog ''a''] ls,
      OOperation ((jdemo_oper ''a'' 1 1)\<lparr>op_Request := without_grant (op_Request (jdemo_oper ''a'' 1 1)),
       op_Status := OpPrepared\<rparr>) True)"
  by (simp add: reserve_def workspaceBinding_def jdemo_ws_def jdemo_state_def jdemo_new_row reserveLogs_def
      legacy_row_def isProcess_def op_run_def run_key_def jdemo_policy_def jdemo_logrun_def jdemo_oplog_def
      tcount_def tinsert_def tmodify_def modify_ws_def Let_def jdemo_row_def)

lemma jdemo_row_sel [simp]:
  "rw_ID (jdemo_row i e n) = i" "op_Status (rw_Operation (jdemo_row i e n)) = OpPrepared"
  "op_CancelRequested (rw_Operation (jdemo_row i e n)) = False"
  "rw_TenantID (jdemo_row i e n) = ''t''" "rw_RunID (jdemo_row i e n) = ''r''"
  by (simp_all add: jdemo_row_def jdemo_oper_def)

lemma jdemo_done_sel [simp]:
  "op_ID (jdemo_done i e n st m) = i" "op_Status (jdemo_done i e n st m) = st"
  "op_WorkspaceID (jdemo_done i e n st m) = ''w''" "op_AfterRevision (jdemo_done i e n st m) = m"
  "op_AfterHash (jdemo_done i e n st m) = ''h1''" "ar_ObjectKey (op_Receipt (jdemo_done i e n st m)) = ''k''"
  "op_ID (with_result (jdemo_done i e n st m)) = i"
  "op_AfterRevision (with_result (jdemo_done i e n st m)) = m"
  by (simp_all add: jdemo_done_def jdemo_oper_def jdemo_ref_def with_result_def jdemo_wr_def)

abbreviation jdemo_row_running :: op_row where
  "jdemo_row_running \<equiv> (set_status OpRunning (jdemo_row ''a'' 1 1))\<lparr>rw_DispatchStarted := True\<rparr>"

lemma jdemo_step5: "journal_apply (jdemo_state ws [jdemo_row ''a'' 1 1] as rs os ls) (JRunning ''a'')
   = (jdemo_state ws [jdemo_row_running] as rs os ls, OUnit)"
  by (simp add: markRunning_def run_row_def jdemo_tables)

lemma jdemo_step6: "journal_apply (jdemo_state ws [jdemo_row_running] as rs os ls) (JStartIntent ''a'')
   = (jdemo_state ws [jdemo_row_running\<lparr>rw_DockerStartIntent := True\<rparr>] as rs os ls, OUnit)"
  by (simp add: startIntent_def jdemo_tables)

lemma jdemo_step7: "journal_apply (jdemo_state ws ops [] rs os ls) (JPin jdemo_ref)
   = (jdemo_state ws ops [jdemo_ref] rs os ls, OUnit)"
  by (simp add: pinArtifact_def jdemo_tables jdemo_ref_def)

lemma jdemo_step8: "journal_apply (jdemo_state [jdemo_ws\<lparr>ws_ActiveOperation := ''a''\<rparr>]
     [jdemo_row_running\<lparr>rw_DockerStartIntent := True\<rparr>] as rs os ls) (JFinish (jdemo_done ''a'' 1 1 OpSucceeded 2))
   = (jdemo_state [jdemo_ws\<lparr>ws_Revision := 2\<rparr>] [jdemo_row_a] as rs os ls,
      OOperation (with_result (jdemo_done ''a'' 1 1 OpSucceeded 2)) False)"
  by (simp add: finish_def jdemo_tables jdemo_ws_def db_uint_def Let_def jdemo_row_a_def finish_row_def)

lemma jdemo_step9: "journal_apply (jdemo_state [jdemo_ws\<lparr>ws_Revision := 2\<rparr>] ops as rs os ls)
     (JFence (jdemo_wr 2) False)
   = (jdemo_state [jdemo_ws\<lparr>ws_Revision := 2, ws_Epoch := 2, ws_Adopting := True\<rparr>] ops as rs os ls,
      OWorkspace (jdemo_ws\<lparr>ws_Revision := 2, ws_Epoch := 2, ws_Adopting := True\<rparr>))"
  by (simp add: setFence_def workspaceBinding_def jdemo_tables jdemo_ws_def db_uint_def Let_def)

lemma jdemo_step10: "journal_apply (jdemo_state [jdemo_ws\<lparr>ws_Revision := 2, ws_Epoch := 2, ws_Adopting := True\<rparr>]
     ops as rs os ls) (JCompleteAdoption (jdemo_wr 2))
   = (jdemo_state [jdemo_ws\<lparr>ws_Revision := 2, ws_Epoch := 2\<rparr>] ops as rs os ls,
      OWorkspace (jdemo_ws\<lparr>ws_Revision := 2, ws_Epoch := 2\<rparr>))"
  by (simp add: completeAdoption_def jdemo_tables jdemo_ws_def db_uint_def)

lemma jdemo_row_a_sel [simp]: "rw_ID jdemo_row_a = ''a''"
  by (simp add: jdemo_row_a_def)

lemma jdemo_step11: "journal_apply (jdemo_state [jdemo_ws\<lparr>ws_Revision := 2, ws_Epoch := 2\<rparr>] [jdemo_row_a] as
     [jdemo_logrun 1] [jdemo_oplog ''a''] ls) (JReserve (jdemo_oper ''b'' 2 2) (Some jdemo_policy))
   = (jdemo_state [jdemo_ws\<lparr>ws_Revision := 2, ws_Epoch := 2, ws_ActiveOperation := ''b''\<rparr>]
       [jdemo_row ''b'' 2 2, jdemo_row_a] as [jdemo_logrun 2] [jdemo_oplog ''b'', jdemo_oplog ''a''] ls,
      OOperation ((jdemo_oper ''b'' 2 2)\<lparr>op_Request := without_grant (op_Request (jdemo_oper ''b'' 2 2)),
       op_Status := OpPrepared\<rparr>) True)"
  by (simp add: reserve_def workspaceBinding_def jdemo_ws_def jdemo_state_def jdemo_new_row reserveLogs_def
      legacy_row_def isProcess_def op_run_def run_key_def jdemo_policy_def jdemo_logrun_def jdemo_oplog_def
      tcount_def tinsert_def tmodify_def modify_ws_def Let_def)

lemma jdemo_step12: "journal_apply (jdemo_state ws [jdemo_row ''b'' 2 2, jdemo_row_a] as rs os ls) (JCancel ''b'')
   = (jdemo_state ws [cancel_row (jdemo_row ''b'' 2 2), jdemo_row_a] as rs os ls, OUnit)"
  by (simp add: requestCancel_def jdemo_tables)

lemma jdemo_step13: "journal_apply (jdemo_state [jdemo_ws\<lparr>ws_Revision := 2, ws_Epoch := 2, ws_ActiveOperation := ''b''\<rparr>]
     ops as rs os ls) (JFence (jdemo_wr 3) True)
   = (jdemo_state [jdemo_ws\<lparr>ws_Revision := 2, ws_Epoch := 3, ws_Adopting := True, ws_Stopped := True,
         ws_ActiveOperation := ''b''\<rparr>] ops as rs os ls,
      OWorkspace (jdemo_ws\<lparr>ws_Revision := 2, ws_Epoch := 3, ws_Adopting := True, ws_Stopped := True,
         ws_ActiveOperation := ''b''\<rparr>))"
  by (simp add: setFence_def workspaceBinding_def jdemo_tables jdemo_ws_def db_uint_def Let_def)

lemma jdemo_step14: "journal_apply (jdemo_state [jdemo_ws\<lparr>ws_Revision := 2, ws_Epoch := 3, ws_Adopting := True,
     ws_Stopped := True, ws_ActiveOperation := ''b''\<rparr>] [cancel_row (jdemo_row ''b'' 2 2), jdemo_row_a] as rs os ls)
     (JFinish (jdemo_done ''b'' 2 2 OpCancelled 2))
   = (jdemo_state [jdemo_ws\<lparr>ws_Revision := 2, ws_Epoch := 3, ws_Adopting := True, ws_Stopped := True\<rparr>]
       [jdemo_row_b, jdemo_row_a] as rs os ls,
      OOperation (with_result (jdemo_done ''b'' 2 2 OpCancelled 2)) False)"
proof -
  have "op_Status (rw_Operation (cancel_row (jdemo_row ''b'' 2 2))) = OpPrepared"
    by (simp add: cancel_row_def)
  then show ?thesis
    by (simp add: finish_def jdemo_tables jdemo_ws_def db_uint_def Let_def jdemo_row_b_def)
qed

lemma jdemo_step15: "journal_apply (jdemo_state [jdemo_ws\<lparr>ws_Revision := 2, ws_Epoch := 3, ws_Adopting := True,
     ws_Stopped := True\<rparr>] ops as rs os ls) (JRelease (jdemo_wr 3))
   = (jdemo_state [jdemo_ws\<lparr>ws_Revision := 2, ws_Epoch := 3, ws_Stopped := True, ws_Adopting := True,
       ws_Released := True\<rparr>] ops as rs os ls, OUnit)"
  by (simp add: releaseRow_def jdemo_tables jdemo_ws_def db_uint_def)

lemma jdemo_step16: "journal_apply (jdemo_state ws ops as rs os [jdemo_lease]) (JFreeLease ''w'')
   = (jdemo_state ws ops as rs os [jdemo_lease\<lparr>vl_Released := True\<rparr>], OUnit)"
  by (simp add: freeLease_def jdemo_tables jdemo_lease_def new_lease_def)

lemmas jdemo_steps = jdemo_step1 jdemo_step2 jdemo_step3 jdemo_step4 jdemo_step5 jdemo_step6 jdemo_step7
  jdemo_step8 jdemo_step9 jdemo_step10 jdemo_step11 jdemo_step12 jdemo_step13 jdemo_step14 jdemo_step15 jdemo_step16

lemma jdemo_run1: "replay journal_apply jdemo_start jdemo_ops1 = (zip jdemo_ops1 jdemo_outs1, jdemo_mid1)"
  by (simp add: jdemo_ops1_def jdemo_outs1_def jdemo_mid1_def jdemo_steps del: journal_apply.simps)

lemma jdemo_run2: "replay journal_apply jdemo_mid1 jdemo_ops2 = (zip jdemo_ops2 jdemo_outs2, jdemo_mid2)"
  by (simp add: jdemo_ops2_def jdemo_outs2_def jdemo_mid1_def jdemo_mid2_def jdemo_steps del: journal_apply.simps)

lemma jdemo_run3: "replay journal_apply jdemo_mid2 jdemo_ops3 = (zip jdemo_ops3 jdemo_outs3, jdemo_end)"
  by (simp add: jdemo_ops3_def jdemo_outs3_def jdemo_end_def jdemo_mid2_def jdemo_steps del: journal_apply.simps)

definition jdemo_history1 :: "(journal_op, journal_out) history" where
  "jdemo_history1 = zip jdemo_ops1 jdemo_outs1"
definition jdemo_history2 :: "(journal_op, journal_out) history" where
  "jdemo_history2 = zip jdemo_ops2 jdemo_outs2"
definition jdemo_history3 :: "(journal_op, journal_out) history" where
  "jdemo_history3 = zip jdemo_ops3 jdemo_outs3"

lemma jdemo_exec1: "journal_run (replicate 64 CHR ''a'') jdemo_history1 jdemo_mid1"
  using jdemo_exec [of jdemo_ops1 jdemo_start] unfolding jdemo_run1 jdemo_history1_def
  by (simp add: jdemo_ops_def jdemo_start_def)

lemma jdemo_exec2: "exec journal_step jdemo_mid1 jdemo_history2 jdemo_mid2"
  using jdemo_exec [of jdemo_ops2 jdemo_mid1] unfolding jdemo_run2 jdemo_history2_def
  by (auto simp: jdemo_ops_def)

lemma jdemo_exec3: "exec journal_step jdemo_mid2 jdemo_history3 jdemo_end"
  using jdemo_exec [of jdemo_ops3 jdemo_mid2] unfolding jdemo_run3 jdemo_history3_def
  by (auto simp: jdemo_ops_def)

lemma jdemo_exec12: "journal_run (replicate 64 CHR ''a'') (jdemo_history1 @ jdemo_history2) jdemo_mid2"
  by (rule exec_append [OF jdemo_exec2 jdemo_exec1])

lemma jdemo_exec123:
  "journal_run (replicate 64 CHR ''a'') (jdemo_history1 @ jdemo_history2 @ jdemo_history3) jdemo_end"
  using exec_append [OF jdemo_exec3 jdemo_exec12] by simp

end
