(* ===== verification/Runner_Journal_Correct.thy ===== *)
theory Runner_Journal_Correct
  imports Runner_Demo
begin

section \<open>Correctness of the runner's journal\<close>

text \<open>
  Properties of every execution of the journal machine from an empty journal: whatever
  handlers run, however their transactions interleave, and wherever a process crashed.
\<close>

subsection \<open>One writer per workspace\<close>

lemma filter_by_key:
  assumes "distinct (map key rows)" "\<And>r. r \<in> set rows \<Longrightarrow> P r \<longleftrightarrow> key r = k"
  shows "filter P rows = (case tfind key k rows of None \<Rightarrow> [] | Some r \<Rightarrow> [r])"
  using assms
proof (induction rows)
  case (Cons a rows)
  show ?case
  proof (cases "key a = k")
    case True
    then have "key r \<noteq> k" if "r \<in> set rows" for r
      using Cons.prems(1) that True by (metis distinct.simps(2) image_eqI list.map(2) list.set_map)
    then have "filter P rows = []" using Cons.prems(2) by (auto simp: filter_empty_conv)
    then show ?thesis using True Cons.prems(2) [of a] by simp
  next
    case False
    then show ?thesis using Cons by simp
  qed
qed simp

text \<open>
  C21. In every reachable journal the operations of a workspace that are not settled are exactly
  the one the workspace row names as its active operation, if it names one: a workspace has at
  most one writer. That operation was admitted for the revision the workspace still has.
\<close>

theorem single_writer:
  assumes "journal_run i tr j" and "w \<in> set (jr_Workspaces j)"
  shows "filter (\<lambda>r. rw_WorkspaceID r = ws_ID w \<and> \<not> Status_Terminal (op_Status (rw_Operation r)))
       (jr_Operations j)
     = (case find_op j (ws_ActiveOperation w) of None \<Rightarrow> [] | Some r \<Rightarrow> [r])
   \<and> (case find_op j (ws_ActiveOperation w) of None \<Rightarrow> ws_ActiveOperation w = []
       | Some r \<Rightarrow> or_ExpectedRevision (op_Request (rw_Operation r)) = ws_Revision w)"
proof -
  have inv: "journal_inv j" using assms(1) by (rule journal_rows.always)
  have w: "find_ws j (ws_ID w) = Some w"
    using inv assms(2) by (simp add: journal_inv_def tfind_distinct)
  have wok: "ws_ok j w" using inv w by (rule journal_inv_ws)
  have row: "op_row_ok j r" if "r \<in> set (jr_Operations j)" for r
    using that inv tfind_distinct [of rw_ID "jr_Operations j" r] by (auto simp: journal_inv_def)
  have "filter (\<lambda>r. rw_WorkspaceID r = ws_ID w \<and> \<not> Status_Terminal (op_Status (rw_Operation r)))
       (jr_Operations j) = (case find_op j (ws_ActiveOperation w) of None \<Rightarrow> [] | Some r \<Rightarrow> [r])"
  proof (rule filter_by_key)
    show "distinct (map rw_ID (jr_Operations j))" using inv by (simp add: journal_inv_def)
    fix r assume r: "r \<in> set (jr_Operations j)"
    have key: "find_op j (rw_ID r) = Some r" using inv r by (simp add: journal_inv_def tfind_distinct)
    show "rw_WorkspaceID r = ws_ID w \<and> \<not> Status_Terminal (op_Status (rw_Operation r))
        \<longleftrightarrow> rw_ID r = ws_ActiveOperation w"
    proof
      assume "rw_WorkspaceID r = ws_ID w \<and> \<not> Status_Terminal (op_Status (rw_Operation r))"
      then show "rw_ID r = ws_ActiveOperation w" using row [OF r] w unfolding op_row_ok_def by fastforce
    next
      assume act: "rw_ID r = ws_ActiveOperation w"
      then have "ws_ActiveOperation w \<noteq> []" using row [OF r] by (auto simp: op_row_ok_def)
      then show "rw_WorkspaceID r = ws_ID w \<and> \<not> Status_Terminal (op_Status (rw_Operation r))"
        using wok key act by (auto simp: ws_ok_def)
    qed
  qed
  moreover have "case find_op j (ws_ActiveOperation w) of None \<Rightarrow> ws_ActiveOperation w = []
       | Some r \<Rightarrow> or_ExpectedRevision (op_Request (rw_Operation r)) = ws_Revision w"
  proof (cases "find_op j (ws_ActiveOperation w)")
    case None
    then show ?thesis using wok by (auto simp: ws_ok_def)
  next
    case (Some r)
    have ok: "op_row_ok j r" using inv Some by (rule journal_inv_op)
    then have "ws_ActiveOperation w \<noteq> []" using find_op_key [OF Some] by (auto simp: op_row_ok_def)
    then have "rw_WorkspaceID r = ws_ID w" "\<not> Status_Terminal (op_Status (rw_Operation r))"
      using wok Some by (auto simp: ws_ok_def)
    then show ?thesis using Some w ok by (auto simp: op_row_ok_def)
  qed
  ultimately show ?thesis ..
qed

theorem single_writer_witness:
  "map rw_ID (filter (\<lambda>r. rw_WorkspaceID r = ''w'' \<and> \<not> Status_Terminal (op_Status (rw_Operation r)))
     (jr_Operations jdemo_mid2)) = [''b'']"
proof -
  let ?w = "jdemo_ws\<lparr>ws_Revision := 2, ws_Epoch := 2, ws_ActiveOperation := ''b''\<rparr>"
  have "?w \<in> set (jr_Workspaces jdemo_mid2)" by (simp add: jdemo_mid2_def jdemo_state_def)
  from single_writer [OF jdemo_exec12 this] show ?thesis
    by (simp add: jdemo_mid2_def jdemo_state_def jdemo_ws_def)
qed

subsection \<open>Operations are admitted once and settled for good\<close>

fun admits :: "string \<Rightarrow> journal_op \<times> journal_out \<Rightarrow> bool" where
  "admits i (JReserve x logs, OOperation y True) \<longleftrightarrow> op_ID x = i"
| "admits i _ \<longleftrightarrow> False"

lemma admits_iff: "admits i e \<longleftrightarrow> (\<exists>x logs y. e = (JReserve x logs, OOperation y True) \<and> op_ID x = i)"
  by (cases "(i, e)" rule: admits.cases) auto

definition admitted_inv :: "(journal_op, journal_out) history \<Rightarrow> journal \<Rightarrow> bool" where
  "admitted_inv tr j \<longleftrightarrow> (\<forall>i. count_history (admits i) tr = (if find_op j i = None then 0 else 1))"

lemma new_rows_admitted:
  assumes "journal_step j a out j'"
  shows "find_op j' i = None \<longleftrightarrow> find_op j i = None \<and> \<not> admits i (a, out)"
    and "admits i (a, out) \<Longrightarrow> find_op j i = None"
proof -
  have grows: "find_op j i \<noteq> None \<Longrightarrow> find_op j' i \<noteq> None"
    using journal_step_grows [OF assms] by (auto elim: journal_grows_op)
  show none: "find_op j i = None" if adm: "admits i (a, out)"
  proof -
    obtain x logs y where "a = JReserve x logs" "out = OOperation y True" "op_ID x = i"
      using adm by (auto simp: admits_iff)
    then show ?thesis using assms by (auto elim: reserve_created)
  qed
  have some: "find_op j' i \<noteq> None" if adm: "admits i (a, out)"
  proof -
    obtain x logs y where "a = JReserve x logs" "out = OOperation y True" "op_ID x = i"
      using adm by (auto simp: admits_iff)
    then show ?thesis using assms by (auto elim: reserve_created)
  qed
  have only: "find_op j' i = None" if no: "\<not> admits i (a, out)" "find_op j i = None"
  proof -
    have run: "journal_apply j a = (j', out)" using assms by (simp add: journal_step_def)
    show ?thesis
    proof (cases "side_op a")
      case True
      then show ?thesis using side_op_frame [OF True run] no(2) by simp
    next
      case False
      show ?thesis
      proof (cases a)
        case (JReserve x logs)
        then obtain res where res: "reserve j x logs = (j', res)"
          "out = (case res of Inl e \<Rightarrow> OErr e | Inr (y, c) \<Rightarrow> OOperation y c)"
          using run by (auto simp: out_of_eq)
        from res(1) show ?thesis
        proof (cases rule: reserve_cases)
          case (created w req j2)
          then have "find_op j2 i = None" using no JReserve res(2) by (auto dest: reserveLogs_frame)
          then show ?thesis using created(12) by simp
        qed (use no in simp_all)
      next
        case (JFinish x)
        obtain res where "finish j x = (j', res)" using run JFinish by (auto simp: out_of_eq)
        then show ?thesis by (cases rule: finish_cases) (use no in auto)
      next
        case (JFence r stop)
        obtain res where "setFence j r stop = (j', res)" using run JFence by (auto simp: out_of_eq)
        then show ?thesis by (cases rule: setFence_cases) (use no in auto)
      next
        case (JCreate u)
        then show ?thesis using run no(2)
          by (auto simp: out_of_eq createWorkspace_def split: if_splits option.splits)
      qed (use False run no(2) in \<open>auto simp: side_op_def out_of_eq markRunning_def markUnknown_def
            requestCancel_def startIntent_def completeAdoption_def releaseRow_def
          split: if_splits option.splits\<close>)
    qed
  qed
  show "find_op j' i = None \<longleftrightarrow> find_op j i = None \<and> \<not> admits i (a, out)"
    using grows some only by blast
qed

interpretation admission_count: ghost_invariant journal_step "\<lambda>tr j. True" admitted_inv "empty_journal i"
  for i
proof
  show "admitted_inv [] (empty_journal i)" by (simp add: admitted_inv_def empty_journal_def)
  show "admitted_inv (tr @ [(a, out)]) j'" if "admitted_inv tr j" "journal_step j a out j'" for tr j a out j'
    using that(1) new_rows_admitted [OF that(2)] by (auto simp: admitted_inv_def)
qed simp

text \<open>
  C22. An operation identifier is admitted at most once in the life of a journal, and an operation
  exists exactly when it was admitted: a retried or duplicated request never starts a second
  execution. Once settled, an operation is final, whatever happens later: its row never
  changes, so its receipt, result and status are fixed, and if its container start had not been
  recorded by then it never will be.
\<close>

theorem operation_admitted_once:
  assumes before: "journal_run i tr j" and later: "exec journal_step j tr' j'"
    and row: "find_op j k = Some r" and settled: "Status_Terminal (op_Status (rw_Operation r))"
  shows "count_history (admits k) (tr @ tr') = 1 \<and> find_op j' k = Some r
     \<and> ar_ObjectKey (op_Receipt (rw_Operation r)) \<noteq> [] \<and> (JStartIntent k, OUnit) \<notin> set tr'"
proof (intro conjI)
  have inv: "journal_inv j" using before by (rule journal_rows.always)
  have final: "find_op s k = Some r" if "exec journal_step j t s" for t s
    using journal_order.grows [OF that inv] journal_grows_op [OF _ row] settled
    by (auto simp: op_grows_def)
  show "find_op j' k = Some r" using later by (rule final)
  have "journal_run i (tr @ tr') j'" using exec_append [OF later before] .
  then have "admitted_inv (tr @ tr') j'" by (rule admission_count.always)
  then show "count_history (admits k) (tr @ tr') = 1"
    using final [OF later] by (simp add: admitted_inv_def)
  show "ar_ObjectKey (op_Receipt (rw_Operation r)) \<noteq> []"
    using journal_inv_op [OF inv row] settled by (simp add: op_row_ok_def)
  show "(JStartIntent k, OUnit) \<notin> set tr'"
  proof
    assume "(JStartIntent k, OUnit) \<in> set tr'"
    then obtain t1 t2 where "tr' = t1 @ (JStartIntent k, OUnit) # t2" by (meson split_list)
    then obtain s1 s2 where "exec journal_step j t1 s1" "journal_step s1 (JStartIntent k) OUnit s2"
      using later exec_at by metis
    then show False using final settled
      by (auto simp: journal_step_def out_of_eq startIntent_def split: option.splits if_splits)
  qed
qed

theorem operation_admitted_once_witness:
  "count_history (admits ''a'') (jdemo_history1 @ jdemo_history2) = 1
   \<and> find_op jdemo_mid2 ''a'' = Some jdemo_row_a \<and> (JStartIntent ''a'', OUnit) \<notin> set jdemo_history2"
proof -
  have row: "find_op jdemo_mid1 ''a'' = Some jdemo_row_a"
    by (simp add: jdemo_mid1_def jdemo_state_def)
  have settled: "Status_Terminal (op_Status (rw_Operation jdemo_row_a))"
    by (simp add: jdemo_row_a_def finish_row_def with_result_def jdemo_done_def)
  show ?thesis
    using operation_admitted_once [OF jdemo_exec1 jdemo_exec2 row settled] by simp
qed

subsection \<open>Fencing\<close>

text \<open>
  C23. After a worker has fenced a workspace under an epoch, an operation is admitted to that
  workspace only under that epoch or a later one, only after an adoption of the workspace was
  completed in between, and never when the fence was a stop: an earlier owner can write nothing
  once the fence is committed, and a stopped workspace admits nothing any more.
\<close>

theorem fenced_admission:
  assumes "journal_run i (tr1 @ (JFence r stop, OWorkspace w) # tr2 @ (JReserve x logs, OOperation y True) # tr3) j"
    and "op_WorkspaceID x = wr_WorkspaceID r"
  shows "\<not> stop \<and> wr_Epoch r \<le> or_Epoch (op_Request x)
     \<and> (\<exists>r' u. (JCompleteAdoption r', OWorkspace u) \<in> set tr2 \<and> wr_WorkspaceID r' = wr_WorkspaceID r)"
proof -
  obtain s1 s2 where fence: "journal_step s1 (JFence r stop) (OWorkspace w) s2" and inv: "journal_inv s2"
    and rest: "exec journal_step s2 (tr2 @ (JReserve x logs, OOperation y True) # tr3) j"
    using assms(1) journal_rows.always by (rule journal_order.after) blast
  obtain s3 s4 where mid: "exec journal_step s2 tr2 s3"
    and res: "journal_step s3 (JReserve x logs) (OOperation y True) s4"
    using rest by (rule exec_at)
  note f = fence_accepted [OF fence]
  have "journal_grows s2 s3" using journal_order.grows [OF mid inv] by simp
  then obtain v where v: "find_ws s3 (wr_WorkspaceID r) = Some v" "ws_grows w v"
    using f(1) by (rule journal_grows_ws)
  obtain req where new: "ws_Epoch v = or_Epoch (op_Request x)" "\<not> ws_Adopting v" "\<not> ws_Stopped v"
    using res v(1) assms(2) by (auto elim: reserve_created)
  have "\<exists>r' u. (JCompleteAdoption r', OWorkspace u) \<in> set tr2 \<and> wr_WorkspaceID r' = wr_WorkspaceID r"
    by (rule adopting_until [OF mid inv f(1,3) v(1) new(2)])
  then show ?thesis using f new v(2) by (auto simp: ws_grows_def)
qed

theorem fenced_admission_witness:
  "(2 :: u64) \<le> or_Epoch (op_Request (jdemo_oper ''b'' 2 2))
   \<and> (\<exists>r' u. (JCompleteAdoption r', OWorkspace u) \<in>
        set [(JCompleteAdoption (jdemo_wr 2), OWorkspace (jdemo_ws\<lparr>ws_Revision := 2, ws_Epoch := 2\<rparr>))]
        \<and> wr_WorkspaceID r' = ''w'')"
proof -
  have "journal_run (replicate 64 CHR ''a'') (jdemo_history1 @
      (JFence (jdemo_wr 2) False, OWorkspace (jdemo_ws\<lparr>ws_Revision := 2, ws_Epoch := 2, ws_Adopting := True\<rparr>)) #
      [(JCompleteAdoption (jdemo_wr 2), OWorkspace (jdemo_ws\<lparr>ws_Revision := 2, ws_Epoch := 2\<rparr>))] @
      (JReserve (jdemo_oper ''b'' 2 2) (Some jdemo_policy),
       OOperation ((jdemo_oper ''b'' 2 2)\<lparr>op_Request := without_grant (op_Request (jdemo_oper ''b'' 2 2)),
         op_Status := OpPrepared\<rparr>) True) # []) jdemo_mid2"
    using jdemo_exec12 by (simp add: jdemo_history2_def jdemo_ops2_def jdemo_outs2_def)
  from fenced_admission [OF this] show ?thesis by simp
qed

text \<open>
  A released workspace is closed for good: after an accepted release no operation is admitted
  to it, no fence of any epoch is accepted on it and no adoption of it completes.
\<close>

theorem released_workspace_closed:
  assumes "journal_run i (tr1 @ (JRelease r, OUnit) # tr2) j" and "(a, out) \<in> set tr2"
  shows "case a of
     JReserve x logs \<Rightarrow> op_WorkspaceID x \<noteq> wr_WorkspaceID r \<or> (\<forall>y. out \<noteq> OOperation y True)
   | JFence q stop \<Rightarrow> wr_WorkspaceID q \<noteq> wr_WorkspaceID r \<or> (\<forall>u. out \<noteq> OWorkspace u)
   | JCompleteAdoption q \<Rightarrow> wr_WorkspaceID q \<noteq> wr_WorkspaceID r \<or> (\<forall>u. out \<noteq> OWorkspace u)
   | _ \<Rightarrow> True"
proof -
  obtain t1 t2 where tr2: "tr2 = t1 @ (a, out) # t2" using assms(2) by (meson split_list)
  obtain s1 s2 where rel: "journal_step s1 (JRelease r) OUnit s2" and inv: "journal_inv s2"
    and rest: "exec journal_step s2 tr2 j"
    using assms(1) journal_rows.always by (rule journal_order.after) blast
  obtain s3 s4 where mid: "exec journal_step s2 t1 s3" and st: "journal_step s3 a out s4"
    using rest unfolding tr2 by (rule exec_at)
  obtain w where w: "find_ws s2 (wr_WorkspaceID r) = Some w" "ws_Released w"
    using rel by (rule release_accepted)
  have "journal_grows s2 s3" using journal_order.grows [OF mid inv] by simp
  then obtain v where v: "find_ws s3 (wr_WorkspaceID r) = Some v" "ws_grows w v"
    using w(1) by (rule journal_grows_ws)
  have closed: "ws_Released v" using v(2) w(2) by (simp add: ws_grows_def)
  show ?thesis
  proof (cases a)
    case (JReserve x logs)
    have False if "op_WorkspaceID x = wr_WorkspaceID r" "out = OOperation y True" for y
      using st that v(1) closed unfolding JReserve by (auto elim: reserve_created)
    then show ?thesis using JReserve by auto
  next
    case (JFence q stop)
    have False if "wr_WorkspaceID q = wr_WorkspaceID r" "out = OWorkspace u" for u
      using st that v(1) closed unfolding JFence
      by (auto simp: journal_step_def out_of_eq setFence_def split: option.splits if_splits)
    then show ?thesis using JFence by auto
  next
    case (JCompleteAdoption q)
    have False if "wr_WorkspaceID q = wr_WorkspaceID r" "out = OWorkspace u" for u
      using st that v(1) closed unfolding JCompleteAdoption
      by (auto simp: journal_step_def out_of_eq completeAdoption_def split: option.splits if_splits)
    then show ?thesis using JCompleteAdoption by auto
  qed simp_all
qed

theorem released_workspace_closed_witness:
  "\<exists>out. journal_apply jdemo_end (JReserve (jdemo_oper ''c'' 3 2) None) = (jdemo_end, out)
     \<and> (\<forall>y. out \<noteq> OOperation y True)"
proof -
  let ?a = "JReserve (jdemo_oper ''c'' 3 2) None"
  obtain out where out: "journal_apply jdemo_end ?a = (jdemo_end, out)"
    by (simp add: jdemo_end_def jdemo_state_def reserve_def jdemo_ws_def workspaceBinding_def)
  then have "exec journal_step jdemo_end [(?a, out)] jdemo_end"
    by (intro exec_one [of journal_step]) (simp add: journal_step_def)
  then have "journal_run (replicate 64 CHR ''a'')
      ((jdemo_history1 @ jdemo_history2 @ jdemo_history3) @ [(?a, out)]) jdemo_end"
    using jdemo_exec123 by (rule exec_append)
  then have run: "journal_run (replicate 64 CHR ''a'')
      ((jdemo_history1 @ jdemo_history2 @ take 3 jdemo_history3) @ (JRelease (jdemo_wr 3), OUnit) #
        [(JFreeLease ''w'', OUnit), (?a, out)]) jdemo_end"
    by (simp add: jdemo_history3_def jdemo_ops3_def jdemo_outs3_def)
  show ?thesis using released_workspace_closed [OF run, of ?a out] out by auto
qed

subsection \<open>Budgets\<close>

text \<open>
  The log budget of a run is kept: every run that has a budget reserved the per-operation
  quota exactly once for each of its operations that has a log, under one immutable policy, and
  the sum never exceeds the run's byte limit nor the count its operation limit.
\<close>

theorem log_budget_respected:
  assumes "journal_run i tr j" and "tfind run_key k (jr_LogRuns j) = Some l"
  shows "log_policy_ok (lr_Policy l) \<and> lr_Operations l = int (reserved_in j k)
     \<and> lr_ReservedBytes l = int (reserved_in j k) * lp_OperationBytes (lr_Policy l)
     \<and> lr_ReservedBytes l \<le> lp_RunBytes (lr_Policy l)
     \<and> int (reserved_in j k) \<le> lp_MaxOperations (lr_Policy l)
     \<and> (\<forall>x \<in> set (jr_OperationLogs j). op_run_of j (ol_OperationID x) = Some k \<longrightarrow>
          ol_Policy x = lr_Policy l \<and> logPolicy j (ol_OperationID x) = Inr (Some (lr_Policy l)))"
proof -
  have inv: "log_inv j" using assms(1) by (rule log_budget.always)
  have ok: "log_run_ok j l" using inv assms(2) by (rule log_inv_run)
  have key: "run_key l = k" using assms(2) by (rule tfind_key)
  have "ol_Policy x = lr_Policy l \<and> logPolicy j (ol_OperationID x) = Inr (Some (lr_Policy l))"
    if "x \<in> set (jr_OperationLogs j)" "op_run_of j (ol_OperationID x) = Some k" for x
  proof -
    have pol: "ol_Policy x = lr_Policy l"
      using inv that assms(2) by (auto simp: log_inv_def op_log_ok_def)
    moreover have "tfind ol_OperationID (ol_OperationID x) (jr_OperationLogs j) = Some x"
      using inv that(1) by (simp add: log_inv_def tfind_distinct)
    moreover have "LogPolicy_Normalize (lr_Policy l) = Inr (lr_Policy l)"
      using ok by (simp add: LogPolicy_Normalize_id log_run_ok_def)
    ultimately show ?thesis by (simp add: logPolicy_def)
  qed
  moreover have "log_policy_ok (lr_Policy l)" "lr_Operations l = int (reserved_in j k)"
      "lr_ReservedBytes l = lr_Operations l * lp_OperationBytes (lr_Policy l)"
      "lr_Operations l \<le> lp_MaxOperations (lr_Policy l)" "lr_ReservedBytes l \<le> lp_RunBytes (lr_Policy l)"
    using ok unfolding log_run_ok_def key by blast+
  ultimately show ?thesis by simp
qed

theorem log_budget_respected_witness:
  "lr_ReservedBytes (jdemo_logrun 2) = int (reserved_in jdemo_mid2 (''t'', ''r'')) * 100
   \<and> lr_ReservedBytes (jdemo_logrun 2) \<le> 250"
proof -
  have "tfind run_key (''t'', ''r'') (jr_LogRuns jdemo_mid2) = Some (jdemo_logrun 2)"
    by (simp add: jdemo_mid2_def jdemo_state_def jdemo_logrun_def run_key_def)
  from log_budget_respected [OF jdemo_exec12 this] show ?thesis
    by (simp add: jdemo_logrun_def jdemo_policy_def)
qed

text \<open>
  A volume slot is never shared: two leases that have not been released and name the same
  slot belong to the same workspace, and every lease names a registered slot.
\<close>

theorem slot_never_shared:
  assumes "journal_run i tr j" and "l \<in> set (jr_VolumeLeases j)" and "m \<in> set (jr_VolumeLeases j)"
    and "\<not> vl_Released l" and "\<not> vl_Released m" and "vl_SlotID l = vl_SlotID m"
  shows "l = m \<and> tfind vs_ID (vl_SlotID l) (jr_VolumeSlots j) \<noteq> None"
proof -
  have inv: "lease_inv j" using assms(1) by (rule volume_pool.always)
  then have "inj_on vl_SlotID (set (open_leases j))" by (simp add: lease_inv_def distinct_map)
  then have "l = m" using assms by (auto simp: inj_on_def open_leases_def)
  then show ?thesis using inv assms(2) by (auto simp: lease_inv_def)
qed

theorem slot_never_shared_witness:
  "tfind vs_ID (vl_SlotID jdemo_lease) (jr_VolumeSlots jdemo_mid2) \<noteq> None"
proof -
  have "jdemo_lease \<in> set (jr_VolumeLeases jdemo_mid2)" "\<not> vl_Released jdemo_lease"
    by (simp_all add: jdemo_mid2_def jdemo_state_def jdemo_lease_def new_lease_def)
  then show ?thesis using slot_never_shared [OF jdemo_exec12, of jdemo_lease jdemo_lease] by simp
qed

end
