(* ===== verification/Runner_Tree.thy ===== *)
theory Runner_Tree
  imports Runner_Types Go_Text "HOL-Library.AList"
begin

section \<open>Workspace trees (internal/runner/files.go)\<close>

text \<open>
  A \<open>tree\<close> is Go's \<open>map[string]fileRecord\<close> as an association list kept strictly sorted by path,
  which is the order of \<open>sortedPaths\<close>. A directory on disk is a list of named nodes in the order
  \<open>ReadDir\<close> reports them; \<open>FsOther\<close> is everything that is neither a regular file nor a directory.
  \<open>sha\<close> is \<open>hashBytes\<close>, the hex form of SHA-256. File-system failures other than missing
  entries and entries of the wrong kind are not modelled here.
\<close>

record file_record =
  fr_SHA256 :: string
  fr_Content :: bytes
  fr_Executable :: bool

type_synonym tree = "(string \<times> file_record) list"

datatype fsnode = FsFile bytes bool | FsDir "(string \<times> fsnode) list" | FsOther

type_synonym dir = "(string \<times> fsnode) list"

text \<open>The limits of \<open>Config\<close>.\<close>

record tree_limits =
  tl_MaxFileBytes :: int
  tl_MaxWorkspaceBytes :: int

subsection \<open>Paths and hashes\<close>

definition safePath :: "string \<Rightarrow> err option" where
  "safePath name =
     (if name = [] \<or> name = ''.'' \<or> path_is_abs name \<or> path_Clean name \<noteq> name
         \<or> contains name [CHR 0x5C] \<or> CHR 0x00 \<in> set name then Some ErrInvalid
      else if list_ex (\<lambda>part. part = ''..'' \<or> part = ''.git'' \<or> has_prefix part ''.forge-'')
                (split_on CHR ''/'' name) then Some ErrInvalid
      else None)"

definition sortedPaths :: "tree \<Rightarrow> string list" where
  "sortedPaths files = map fst files"

text \<open>One line of the manifest: \<open>fmt.Fprintf(h, "%d:%s:%s:%t\n", ...)\<close>.\<close>

definition manifest_line :: "string \<times> file_record \<Rightarrow> string" where
  "manifest_line e = show_nat (length (fst e)) @ '':'' @ fst e @ '':'' @ fr_SHA256 (snd e) @ '':''
     @ show_bool (fr_Executable (snd e)) @ [CHR 0x0A]"

definition manifest :: "tree \<Rightarrow> bytes" where
  "manifest files = concat (map manifest_line files)"

definition treeHash :: "(bytes \<Rightarrow> string) \<Rightarrow> tree \<Rightarrow> string" where
  "treeHash sha files = sha (manifest files)"

subsection \<open>Reading a directory\<close>

definition skipped_dir :: "string \<Rightarrow> bool" where
  "skipped_dir name \<longleftrightarrow> name = ''.git'' \<or> name = ''.venv'' \<or> name = ''__pycache__'' \<or> name = ''.pytest_cache''"

definition walk_path :: "string \<Rightarrow> string \<Rightarrow> string" where
  "walk_path parent name = (if parent = ''.'' then name else parent @ ''/'' @ name)"

type_synonym walk_state = "tree \<times> int"

definition read_file :: "(bytes \<Rightarrow> string) \<Rightarrow> tree_limits \<Rightarrow> string \<Rightarrow> bytes \<Rightarrow> bool \<Rightarrow> walk_state
    \<Rightarrow> rerr + walk_state" where
  "read_file sha lim p content x acc =
     (let size = int (length content)
      in if tl_MaxFileBytes lim < size \<or> tl_MaxWorkspaceBytes lim < snd acc + size
           \<or> 10000 \<le> length (fst acc)
         then Inl (sentinel ErrCapacity)
         else Inr (map_put p \<lparr>fr_SHA256 = sha content, fr_Content = content, fr_Executable = x\<rparr> (fst acc),
                   snd acc + size))"

fun walk_node :: "(bytes \<Rightarrow> string) \<Rightarrow> tree_limits \<Rightarrow> string \<Rightarrow> string \<Rightarrow> fsnode \<Rightarrow> walk_state
    \<Rightarrow> rerr + walk_state"
and walk_entries :: "(bytes \<Rightarrow> string) \<Rightarrow> tree_limits \<Rightarrow> string \<Rightarrow> (string \<times> fsnode) list \<Rightarrow> walk_state
    \<Rightarrow> rerr + walk_state" where
  "walk_node sha lim parent name (FsDir es) acc =
     (if skipped_dir name then Inr acc else walk_entries sha lim (walk_path parent name) es acc)"
| "walk_node sha lim parent name (FsFile content x) acc =
     (if has_prefix name ''.forge-'' then Inr acc
      else read_file sha lim (walk_path parent name) content x acc)"
| "walk_node sha lim parent name FsOther acc =
     (if has_prefix name ''.forge-'' then Inr acc
      else Inl (wrapped ErrInvalid (''snapshot contains nonregular file '' @ print_str (walk_path parent name))))"
| "walk_entries sha lim parent [] acc = Inr acc"
| "walk_entries sha lim parent ((name, n) # es) acc =
     res_bind (walk_node sha lim parent name n acc) (walk_entries sha lim parent es)"

definition readTree :: "(bytes \<Rightarrow> string) \<Rightarrow> tree_limits \<Rightarrow> dir \<Rightarrow> rerr + tree" where
  "readTree sha lim d = map_sum id fst (walk_entries sha lim ''.'' d ([], 0))"

definition ComputeSourceHash :: "(bytes \<Rightarrow> string) \<Rightarrow> dir \<Rightarrow> int \<Rightarrow> int \<Rightarrow> rerr + string" where
  "ComputeSourceHash sha d maxFileBytes maxWorkspaceBytes =
     map_sum id (treeHash sha) (readTree sha
       \<lparr>tl_MaxFileBytes = (if maxFileBytes \<le> 0 then 1048576 else maxFileBytes),
        tl_MaxWorkspaceBytes = (if maxWorkspaceBytes \<le> 0 then 33554432 else maxWorkspaceBytes)\<rparr> d)"

subsection \<open>Directories as finite maps from paths to files\<close>

fun lookup_path :: "dir \<Rightarrow> string list \<Rightarrow> fsnode option" where
  "lookup_path d [] = Some (FsDir d)"
| "lookup_path d (c # cs) =
     (case map_of d c of
        None \<Rightarrow> None
      | Some (FsDir e) \<Rightarrow> lookup_path e cs
      | Some n \<Rightarrow> if cs = [] then Some n else None)"

definition file_at :: "dir \<Rightarrow> string list \<Rightarrow> (bytes \<times> bool) option" where
  "file_at d p = (case lookup_path d p of Some (FsFile c x) \<Rightarrow> Some (c, x) | _ \<Rightarrow> None)"

text \<open>\<open>os.Root.MkdirAll\<close>: the flag is false when a component exists and is not a directory.\<close>

fun mkdir_all :: "dir \<Rightarrow> string list \<Rightarrow> dir \<times> bool" where
  "mkdir_all d [] = (d, True)"
| "mkdir_all d (c # cs) =
     (case map_of d c of
        None \<Rightarrow> (map_put c (FsDir (fst (mkdir_all [] cs))) d, True)
      | Some (FsDir e) \<Rightarrow> (map_put c (FsDir (fst (mkdir_all e cs))) d, snd (mkdir_all e cs))
      | Some n \<Rightarrow> (d, False))"

text \<open>
  Creating or replacing a file whose parent directory exists (\<open>Rename\<close> onto the path), and
  \<open>os.Root.Remove\<close>, which also removes an empty directory.
\<close>

fun set_file :: "dir \<Rightarrow> string list \<Rightarrow> fsnode \<Rightarrow> dir option" where
  "set_file d [] n = None"
| "set_file d [c] n =
     (case map_of d c of Some (FsDir e) \<Rightarrow> None | _ \<Rightarrow> Some (map_put c n d))"
| "set_file d (c # c' # cs) n =
     (case map_of d c of
        Some (FsDir e) \<Rightarrow> map_option (\<lambda>e'. map_put c (FsDir e') d) (set_file e (c' # cs) n)
      | _ \<Rightarrow> None)"

fun remove_path :: "dir \<Rightarrow> string list \<Rightarrow> dir option" where
  "remove_path d [] = None"
| "remove_path d [c] =
     (case map_of d c of
        None \<Rightarrow> None
      | Some (FsDir e) \<Rightarrow> if e = [] then Some (AList.delete c d) else None
      | Some n \<Rightarrow> Some (AList.delete c d))"
| "remove_path d (c # c' # cs) =
     (case map_of d c of
        Some (FsDir e) \<Rightarrow> map_option (\<lambda>e'. map_put c (FsDir e') d) (remove_path e (c' # cs))
      | _ \<Rightarrow> None)"

lemma map_of_map_put [simp]: "map_of (map_put k v m) = (map_of m)(k \<mapsto> v)"
  by (induction m) (auto simp: fun_eq_iff)

lemma file_at_Nil [simp]: "file_at d [] = None"
  by (simp add: file_at_def)

lemma file_at_Cons:
  "file_at d (c # cs) = (case map_of d c of None \<Rightarrow> None
     | Some (FsDir e) \<Rightarrow> file_at e cs
     | Some (FsFile b x) \<Rightarrow> if cs = [] then Some (b, x) else None
     | Some FsOther \<Rightarrow> None)"
  by (auto simp: file_at_def split: option.splits fsnode.splits)

lemma file_at_under: "map_of d c = Some (FsDir e) \<Longrightarrow> file_at d (c # cs) = file_at e cs"
  by (simp add: file_at_Cons)

text \<open>Replacing one entry of a directory changes the files under that name only.\<close>

lemma file_at_put:
  "file_at (map_put c n d) q =
     (case q of [] \<Rightarrow> None | a # l \<Rightarrow> if a = c then file_at [(c, n)] (c # l) else file_at d q)"
  by (cases q) (simp_all add: file_at_Cons)

lemma file_at_delete:
  "file_at (AList.delete c d) q = (case q of [] \<Rightarrow> None | a # l \<Rightarrow> if a = c then None else file_at d q)"
  by (cases q) (simp_all add: file_at_Cons delete_conv')

lemma file_at_empty [simp]: "file_at [] p = None"
  by (cases p) (simp_all add: file_at_Cons)

lemma file_at_single_dir: "file_at [(c, FsDir e)] (c # l) = file_at e l"
  by (simp add: file_at_Cons)

lemma file_at_mkdir_all_empty [simp]: "file_at (fst (mkdir_all [] cs)) q = None"
proof (induction cs arbitrary: q)
  case (Cons c cs)
  then show ?case by (cases q) (simp_all add: file_at_Cons)
qed simp

text \<open>Making directories changes no file.\<close>

lemma file_at_mkdir_all [simp]: "file_at (fst (mkdir_all d cs)) q = file_at d q"
proof (induction d cs arbitrary: q rule: mkdir_all.induct)
  case (2 d c cs)
  show ?case
  proof (cases "map_of d c")
    case None
    then show ?thesis
      by (cases q) (simp_all add: file_at_put file_at_single_dir file_at_Cons [of d])
  next
    case (Some n)
    show ?thesis
    proof (cases n)
      case (FsDir e)
      then show ?thesis using Some 2(2) [OF Some FsDir]
        by (cases q) (simp_all add: file_at_put file_at_single_dir file_at_under)
    qed (use Some in simp_all)
  qed
qed simp

lemma file_at_set_file:
  assumes "set_file d p (FsFile b x) = Some d'"
  shows "file_at d' q = (if q = p then Some (b, x) else file_at d q)"
  using assms
proof (induction d p "FsFile b x" arbitrary: d' q rule: set_file.induct)
  case (2 d c)
  then have d': "d' = map_put c (FsFile b x) d" and n: "\<And>e. map_of d c \<noteq> Some (FsDir e)"
    by (auto split: option.splits fsnode.splits)
  have "file_at d (c # l) = None" if "l \<noteq> []" for l
    using that n by (auto simp: file_at_Cons split: option.splits fsnode.splits)
  then show ?case by (cases q) (auto simp: d' file_at_put file_at_Cons [of "[(c, n)]" for n])
next
  case (3 d c c' cs)
  from 3(2) obtain e e' where c: "map_of d c = Some (FsDir e)"
    and e': "set_file e (c' # cs) (FsFile b x) = Some e'" "d' = map_put c (FsDir e') d"
    by (auto split: option.splits fsnode.splits)
  show ?case using 3(1) [OF c refl e'(1)] c e'(2)
    by (cases q) (auto simp: file_at_put file_at_single_dir file_at_under)
qed simp

lemma file_at_remove_path:
  assumes "remove_path d p = Some d'"
  shows "file_at d' q = (if q = p then None else file_at d q)"
  using assms
proof (induction d p arbitrary: d' q rule: remove_path.induct)
  case (2 d c)
  obtain n where n: "map_of d c = Some n" using 2 by (cases "map_of d c") simp_all
  have "d' = AList.delete c d \<and> (\<forall>l. l \<noteq> [] \<longrightarrow> file_at d (c # l) = None)"
  proof (cases n)
    case (FsDir e)
    then have "e = []" using 2 n by (cases "e = []") simp_all
    then show ?thesis using 2 n FsDir by (simp add: file_at_Cons)
  qed (use 2 n in \<open>simp_all add: file_at_Cons\<close>)
  then show ?case by (cases q) (auto simp: file_at_delete)
next
  case (3 d c c' cs)
  obtain n where n: "map_of d c = Some n" using 3(2) by (cases "map_of d c") simp_all
  obtain e where e: "n = FsDir e" using 3(2) n by (cases n) simp_all
  obtain e' where e': "remove_path e (c' # cs) = Some e'" "d' = map_put c (FsDir e') d"
    using 3(2) n e by (cases "remove_path e (c' # cs)") simp_all
  have "file_at e' l = (if l = c' # cs then None else file_at e l)" for l
    using 3(1) [OF n e e'(1)] .
  then show ?case using n e e'(2)
    by (cases q) (simp_all add: file_at_put file_at_single_dir file_at_under)
qed simp

end
