(* ===== verification/Runner_Tree_Laws.thy ===== *)
theory Runner_Tree_Laws
  imports Runner_Tree
begin

section \<open>What a manifest says about a directory\<close>

text \<open>
  \<open>readTree\<close> returns exactly the tracked regular files of a directory, sorted by path, within the
  configured bounds, and the hash of the result determines it.
\<close>

subsection \<open>Sorted association lists\<close>

definition sorted_keys :: "(string \<times> 'v) list \<Rightarrow> bool" where
  "sorted_keys m \<longleftrightarrow> sorted_wrt (<) (map fst m)"

lemma sorted_keys_Nil [simp]: "sorted_keys []"
  by (simp add: sorted_keys_def)

lemma sorted_keys_distinct: "sorted_keys m \<Longrightarrow> distinct (map fst m)"
  by (simp add: sorted_keys_def strict_sorted_iff)

lemma keys_map_put: "fst ` set (map_put k v m) = insert k (fst ` set m)"
  by (metis dom_fun_upd dom_map_of_conv_image_fst map_of_map_put option.distinct(1))

lemma sorted_keys_map_put: "sorted_keys m \<Longrightarrow> sorted_keys (map_put k v m)"
proof (induction m)
  case (Cons e m)
  obtain k' v' where e: "e = (k', v')" by (cases e)
  have "set (map fst (map_put k v m)) = insert k (set (map fst m))"
    using keys_map_put [of k v m] by simp
  with Cons show ?case by (auto simp: e sorted_keys_def)
qed (simp add: sorted_keys_def)

lemma alist_of_keys: "distinct (map fst m) \<Longrightarrow> map (\<lambda>k. (k, the (map_of m k))) (map fst m) = m"
proof -
  assume d: "distinct (map fst m)"
  have "(k, the (map_of m k)) = e" if "e \<in> set m" "k = fst e" for e k
    using that(2) map_of_is_SomeI [OF d, of "fst e" "snd e"] that(1) by simp
  then show ?thesis by (simp add: map_idI)
qed

lemma sorted_keys_ext:
  assumes "sorted_keys s" "sorted_keys t" "map_of s = map_of t"
  shows "s = t"
proof -
  have "set (map fst s) = set (map fst t)"
    using assms(3) by (simp flip: dom_map_of_conv_image_fst)
  then have keys: "map fst s = map fst t"
    using assms(1,2) unfolding sorted_keys_def by (intro strict_sorted_equal)
  have "s = map (\<lambda>k. (k, the (map_of s k))) (map fst s)"
    using assms(1) by (simp only: alist_of_keys sorted_keys_distinct)
  also have "\<dots> = map (\<lambda>k. (k, the (map_of t k))) (map fst t)" by (simp only: keys assms(3))
  also have "\<dots> = t" using assms(2) by (simp only: alist_of_keys sorted_keys_distinct)
  finally show ?thesis .
qed

subsection \<open>The files of a directory in walking order\<close>

fun node_files :: "string \<Rightarrow> fsnode \<Rightarrow> (string list \<times> bytes \<times> bool) list"
and dir_files :: "dir \<Rightarrow> (string list \<times> bytes \<times> bool) list" where
  "node_files name (FsDir es) =
     (if skipped_dir name then [] else map (\<lambda>(p, v). (name # p, v)) (dir_files es))"
| "node_files name (FsFile c x) = (if has_prefix name ''.forge-'' then [] else [([name], (c, x))])"
| "node_files name FsOther = []"
| "dir_files [] = []"
| "dir_files ((name, n) # es) = node_files name n @ dir_files es"

definition record_of :: "(bytes \<Rightarrow> string) \<Rightarrow> bytes \<times> bool \<Rightarrow> file_record" where
  "record_of sha v = \<lparr>fr_SHA256 = sha (fst v), fr_Content = fst v, fr_Executable = snd v\<rparr>"

definition put_files :: "(bytes \<Rightarrow> string) \<Rightarrow> string \<Rightarrow> (string list \<times> bytes \<times> bool) list \<Rightarrow> tree \<Rightarrow> tree" where
  "put_files sha parent fs t =
     foldl (\<lambda>t (p, v). map_put (foldl walk_path parent p) (record_of sha v) t) t fs"

lemma put_files_append: "put_files sha parent (fs @ gs) t = put_files sha parent gs (put_files sha parent fs t)"
  by (simp add: put_files_def)

lemma put_files_under:
  "put_files sha parent (map (\<lambda>(p, v). (name # p, v)) fs) t = put_files sha (walk_path parent name) fs t"
  by (induction fs arbitrary: t) (auto simp: put_files_def)

lemma walk_files:
  "walk_node sha lim parent name n acc = Inr acc' \<Longrightarrow>
     fst acc' = put_files sha parent (node_files name n) (fst acc)"
  "walk_entries sha lim parent es acc = Inr acc' \<Longrightarrow>
     fst acc' = put_files sha parent (dir_files es) (fst acc)"
proof (induction sha lim parent name n acc and sha lim parent es acc arbitrary: acc' and acc'
    rule: walk_node_walk_entries.induct)
  case (1 sha lim parent name es acc)
  then show ?case by (auto simp: put_files_under put_files_def [of _ _ "[]"] split: if_splits)
next
  case (2 sha lim parent name content x acc)
  then show ?case
    by (auto simp: put_files_def read_file_def record_of_def Let_def split: if_splits)
next
  case (5 sha lim parent name n es acc)
  from 5(3) obtain mid where mid: "walk_node sha lim parent name n acc = Inr mid"
    "walk_entries sha lim parent es mid = Inr acc'" by (auto elim: res_bind_InrE)
  show ?case using 5(1) [OF mid(1)] 5(2) [OF mid(2)] by (simp add: put_files_append)
qed (auto simp: put_files_def split: if_splits)

text \<open>The bounds every accumulator of the walk respects.\<close>

definition tree_bytes :: "tree \<Rightarrow> int" where
  "tree_bytes t = sum_list (map (\<lambda>e. int (length (fr_Content (snd e)))) t)"

definition walk_bounds :: "tree_limits \<Rightarrow> walk_state \<Rightarrow> bool" where
  "walk_bounds lim acc \<longleftrightarrow> sorted_keys (fst acc) \<and> length (fst acc) \<le> 10000
     \<and> tree_bytes (fst acc) \<le> snd acc \<and> (snd acc \<le> tl_MaxWorkspaceBytes lim \<or> fst acc = [] \<and> snd acc = 0)
     \<and> (\<forall>e \<in> set (fst acc). int (length (fr_Content (snd e))) \<le> tl_MaxFileBytes lim)"

lemma tree_bytes_put: "tree_bytes (map_put k v m) \<le> tree_bytes m + int (length (fr_Content v))"
  by (induction m) (auto simp: tree_bytes_def)

lemma length_map_put: "length (map_put k v m) \<le> Suc (length m)"
  by (induction m) auto

lemma set_map_put: "e \<in> set (map_put k v m) \<Longrightarrow> e = (k, v) \<or> e \<in> set m"
  by (induction m) (auto split: if_splits)

lemma read_file_bounds:
  assumes "walk_bounds lim acc" "read_file sha lim p c x acc = Inr acc'"
  shows "walk_bounds lim acc'"
proof -
  let ?r = "\<lparr>fr_SHA256 = sha c, fr_Content = c, fr_Executable = x\<rparr>"
  have ok: "int (length c) \<le> tl_MaxFileBytes lim" "snd acc + int (length c) \<le> tl_MaxWorkspaceBytes lim"
      "length (fst acc) < 10000"
    and acc': "acc' = (map_put p ?r (fst acc), snd acc + int (length c))"
    using assms(2) by (auto simp: read_file_def Let_def not_less split: if_splits)
  have "int (length (fr_Content (snd e))) \<le> tl_MaxFileBytes lim" if "e \<in> set (fst acc')" for e
    using set_map_put [of e p ?r "fst acc"] that assms(1) ok(1) by (auto simp: walk_bounds_def acc')
  moreover have "tree_bytes (fst acc') \<le> snd acc'"
    using assms(1) tree_bytes_put [of p ?r "fst acc"] by (simp add: walk_bounds_def acc')
  ultimately show ?thesis
    using assms(1) ok length_map_put [of p ?r "fst acc"] sorted_keys_map_put [of "fst acc" p ?r]
    by (simp add: walk_bounds_def acc')
qed

lemma walk_bounds_kept:
  "walk_node sha lim parent name n acc = Inr acc' \<Longrightarrow> walk_bounds lim acc \<Longrightarrow> walk_bounds lim acc'"
  "walk_entries sha lim parent es acc = Inr acc' \<Longrightarrow> walk_bounds lim acc \<Longrightarrow> walk_bounds lim acc'"
proof (induction sha lim parent name n acc and sha lim parent es acc arbitrary: acc' and acc'
    rule: walk_node_walk_entries.induct)
  case (5 sha lim parent name n es acc)
  from 5(3) obtain mid where mid: "walk_node sha lim parent name n acc = Inr mid"
    "walk_entries sha lim parent es mid = Inr acc'" by (auto elim: res_bind_InrE)
  show ?case using 5(2) [OF mid(2)] 5(1) [OF mid(1) 5(4)] by simp
qed (auto split: if_splits intro: read_file_bounds)

lemma readTree_bounds:
  assumes "readTree sha lim d = Inr t"
  shows "sorted_keys t" "length t \<le> 10000" "t = [] \<or> tree_bytes t \<le> tl_MaxWorkspaceBytes lim"
    "\<forall>e \<in> set t. int (length (fr_Content (snd e))) \<le> tl_MaxFileBytes lim"
proof -
  obtain acc where acc: "walk_entries sha lim ''.'' d ([], 0) = Inr acc" "t = fst acc"
    using assms by (cases "walk_entries sha lim ''.'' d ([], 0)") (auto simp: readTree_def)
  have "walk_bounds lim acc"
    by (rule walk_bounds_kept(2) [OF acc(1)]) (simp add: walk_bounds_def tree_bytes_def)
  then show "sorted_keys t" "length t \<le> 10000" "t = [] \<or> tree_bytes t \<le> tl_MaxWorkspaceBytes lim"
    "\<forall>e \<in> set t. int (length (fr_Content (snd e))) \<le> tl_MaxFileBytes lim"
    using acc(2) by (auto simp: walk_bounds_def)
qed

subsection \<open>readTree returns the tracked files\<close>

text \<open>A file name is not empty, not \<open>.\<close>, and has no slash; the names of a directory are sorted.\<close>

definition file_name :: "string \<Rightarrow> bool" where
  "file_name c \<longleftrightarrow> c \<noteq> [] \<and> c \<noteq> ''.'' \<and> CHR ''/'' \<notin> set c"

fun wf_node :: "fsnode \<Rightarrow> bool" and wf_dir :: "dir \<Rightarrow> bool" where
  "wf_node (FsDir es) \<longleftrightarrow> wf_dir es"
| "wf_node (FsFile c x) \<longleftrightarrow> True"
| "wf_node FsOther \<longleftrightarrow> True"
| "wf_dir [] \<longleftrightarrow> True"
| "wf_dir ((name, n) # es) \<longleftrightarrow> file_name name \<and> (\<forall>e \<in> set es. name < fst e) \<and> wf_node n \<and> wf_dir es"

text \<open>No directory on the way is skipped, and the file is not one of the runner's own.\<close>

fun tracked :: "string list \<Rightarrow> bool" where
  "tracked [] \<longleftrightarrow> False"
| "tracked [c] \<longleftrightarrow> \<not> has_prefix c ''.forge-''"
| "tracked (c # c' # cs) \<longleftrightarrow> \<not> skipped_dir c \<and> tracked (c' # cs)"

lemma tracked_Cons: "tracked (c # cs) \<longleftrightarrow>
    (if cs = [] then \<not> has_prefix c ''.forge-'' else \<not> skipped_dir c \<and> tracked cs)"
  by (cases cs) simp_all

lemma map_of_prefixed: "map_of (map (\<lambda>(p, v). (c # p, v)) xs) (a # l) = (if a = c then map_of xs l else None)"
  by (induction xs) auto

lemma map_of_prefixed_Nil: "map_of (map (\<lambda>(p, v). (c # p, v)) xs) [] = None"
  by (induction xs) auto

lemma dir_files_Nil: "map_of (dir_files es) [] = None" "map_of (node_files name n) [] = None"
proof -
  show node: "map_of (node_files name n) [] = None" for name n
    by (cases n) (simp_all add: map_of_prefixed_Nil)
  show "map_of (dir_files es) [] = None"
    by (induction es) (auto simp: node map_add_def)
qed

lemma files_head: "map_of (node_files name n) (a # l) = None" if "a \<noteq> name"
  using that by (cases n) (simp_all add: map_of_prefixed)

lemma dir_files_absent: "a \<notin> fst ` set es \<Longrightarrow> map_of (dir_files es) (a # l) = None"
  by (induction es) (auto simp: files_head map_add_def)

lemma dir_files_lookup:
  "wf_node n \<Longrightarrow> map_of (node_files name n) (name # l) =
     (if tracked (name # l) then file_at [(name, n)] (name # l) else None)"
  "wf_dir es \<Longrightarrow> map_of (dir_files es) p = (if tracked p then file_at es p else None)"
proof (induction n and es arbitrary: name l and p rule: wf_node_wf_dir.induct)
  case (1 es)
  show ?case using 1
    by (cases l) (auto simp: map_of_prefixed dir_files_Nil file_at_Cons tracked_Cons)
next
  case (2 c x)
  then show ?case by (auto simp: file_at_Cons tracked_Cons)
next
  case 3
  then show ?case by (simp add: file_at_Cons)
next
  case 4
  then show ?case by simp
next
  case (5 m n es)
  show ?case
  proof (cases p)
    case Nil
    then show ?thesis by (simp add: dir_files_Nil map_add_def)
  next
    case (Cons a l)
    show ?thesis
    proof (cases "a = m")
      case True
      have "a \<notin> fst ` set es" using 5(3) True by auto
      then have "map_of (dir_files es) (a # l) = None" by (rule dir_files_absent)
      moreover have "file_at ((m, n) # es) (m # l) = file_at [(m, n)] (m # l)"
        by (simp add: file_at_Cons)
      ultimately show ?thesis using Cons True 5(1) [of m l] 5(3)
        by (simp add: map_add_def split: option.splits)
    next
      case False
      then show ?thesis using Cons 5(2) [of "a # l"] 5(3)
        by (simp add: map_add_def files_head file_at_Cons split: option.splits)
    qed
  qed
qed

lemma files_start:
  "p \<in> fst ` set (node_files name n) \<Longrightarrow> \<exists>l. p = name # l"
  "p \<in> fst ` set (dir_files es) \<Longrightarrow> \<exists>a l. p = a # l \<and> a \<in> fst ` set es"
proof -
  show node: "\<exists>l. p = name # l" if "p \<in> fst ` set (node_files name n)" for name n
    using that by (cases n) (auto split: if_splits)
  show "\<exists>a l. p = a # l \<and> a \<in> fst ` set es" if "p \<in> fst ` set (dir_files es)"
    using that
  proof (induction es)
    case (Cons e es)
    obtain m n where e: "e = (m, n)" by (cases e)
    from Cons.prems consider "p \<in> fst ` set (node_files m n)" | "p \<in> fst ` set (dir_files es)"
      by (auto simp: e)
    then show ?case
    proof cases
      case 1
      from node [OF 1] show ?thesis by (auto simp: e)
    next
      case 2
      from Cons.IH [OF 2] show ?thesis by (auto simp: e)
    qed
  qed simp
qed

lemma dir_files_distinct:
  "wf_node n \<Longrightarrow> distinct (map fst (node_files name n))"
  "wf_dir es \<Longrightarrow> distinct (map fst (dir_files es))"
proof (induction n and es arbitrary: name and rule: wf_node_wf_dir.induct)
  case (1 es)
  have "map fst (map (\<lambda>(p, v). (name # p, v)) xs) = map ((#) name) (map fst xs)"
    for xs :: "(string list \<times> bytes \<times> bool) list" by (induction xs) auto
  then have keys: "map fst (node_files name (FsDir es)) = (if skipped_dir name then [] else map ((#) name) (map fst (dir_files es)))"
    by simp
  have "distinct (map ((#) name) (map fst (dir_files es)))"
    unfolding distinct_map [of "(#) name"] using 1 by simp
  then show ?case unfolding keys by simp
next
  case (5 m n es)
  have "p \<notin> fst ` set (dir_files es)" if "p \<in> fst ` set (node_files m n)" for p
    using files_start(1) [OF that] files_start(2) [of p es] 5(3) by auto
  then have "fst ` set (node_files m n) \<inter> fst ` set (dir_files es) = {}" by blast
  then show ?case using 5 by simp
qed simp_all

subsection \<open>Path names\<close>

lemma walk_path_join:
  assumes "\<forall>c \<in> set p. file_name c" "p \<noteq> []"
  shows "foldl walk_path ''.'' p = join_with ''/'' p"
proof -
  have later: "foldl walk_path q cs = (if cs = [] then q else q @ ''/'' @ join_with ''/'' cs)"
    if "q \<noteq> ''.''" for q cs
    using that
  proof (induction cs arbitrary: q)
    case (Cons c cs)
    have "walk_path q c = q @ ''/'' @ c" "q @ ''/'' @ c \<noteq> ''.''"
      using Cons.prems by (auto simp: walk_path_def append_eq_Cons_conv)
    then show ?case using Cons.IH [of "q @ ''/'' @ c"] by (cases cs) auto
  qed simp
  obtain c cs where p: "p = c # cs" using assms(2) by (cases p) auto
  have "walk_path ''.'' c = c" by (simp add: walk_path_def)
  then show ?thesis using later [of c cs] assms(1) by (cases cs) (auto simp: p file_name_def)
qed

lemma split_join_names:
  "\<forall>c \<in> set p. file_name c \<Longrightarrow> p \<noteq> [] \<Longrightarrow> split_on CHR ''/'' (join_with ''/'' p) = p"
  by (rule split_join) (auto simp: file_name_def)

lemma file_names_under:
  "wf_node n \<Longrightarrow> file_name name \<Longrightarrow> p \<in> fst ` set (node_files name n) \<Longrightarrow> \<forall>c \<in> set p. file_name c"
  "wf_dir es \<Longrightarrow> p \<in> fst ` set (dir_files es) \<Longrightarrow> \<forall>c \<in> set p. file_name c"
proof (induction n and es arbitrary: name p and p rule: wf_node_wf_dir.induct)
  case (1 es)
  from 1(4) obtain q where "p = name # q" "q \<in> fst ` set (dir_files es)"
    by (force split: if_splits)
  then show ?case using 1(1) [of q] 1(2,3) by (auto split: if_splits)
next
  case (2 c x)
  then show ?case by (auto split: if_splits)
next
  case (5 m n es)
  from 5(4) consider "p \<in> fst ` set (node_files m n)" | "p \<in> fst ` set (dir_files es)" by auto
  then show ?case using 5(1) [of m p] 5(2) [of p] 5(3) by cases auto
qed simp_all

lemma put_files_lookup:
  assumes "\<And>q. q \<in> fst ` set fs \<Longrightarrow> foldl walk_path parent q = foldl walk_path parent p \<Longrightarrow> q = p"
    "distinct (map fst fs)"
  shows "map_of (put_files sha parent fs t) (foldl walk_path parent p) =
    (case map_of fs p of Some v \<Rightarrow> Some (record_of sha v) | None \<Rightarrow> map_of t (foldl walk_path parent p))"
  using assms
proof (induction fs arbitrary: t)
  case Nil
  then show ?case by (simp add: put_files_def)
next
  case (Cons e fs)
  obtain q v where e: "e = (q, v)" by (cases e)
  have "put_files sha parent (e # fs) t = put_files sha parent fs (map_put (foldl walk_path parent q) (record_of sha v) t)"
    by (simp add: put_files_def e)
  moreover have "map_of fs p = None" if "p = q"
    using Cons.prems(2) that by (auto simp: e map_of_eq_None_iff)
  moreover have "foldl walk_path parent q = foldl walk_path parent p \<longleftrightarrow> q = p"
    using Cons.prems(1) [of q] by (auto simp: e)
  ultimately show ?case using Cons.IH Cons.prems by (auto simp: e split: option.splits)
qed

lemma put_files_keys:
  "fst ` set (put_files sha parent fs t) = foldl walk_path parent ` fst ` set fs \<union> fst ` set t"
proof (induction fs arbitrary: t)
  case (Cons e fs)
  have "put_files sha parent (e # fs) t =
      put_files sha parent fs (map_put (foldl walk_path parent (fst e)) (record_of sha (snd e)) t)"
    by (cases e) (simp add: put_files_def)
  then show ?case using Cons by (simp add: keys_map_put)
qed (simp add: put_files_def)

text \<open>A manifest has an entry for a path exactly when the directory has a tracked file there.\<close>

lemma readTree_lookup:
  assumes wf: "wf_dir d" and read: "readTree sha lim d = Inr t" and p: "\<forall>c \<in> set p. file_name c" "p \<noteq> []"
  shows "map_of t (join_with ''/'' p) =
    (if tracked p then map_option (record_of sha) (file_at d p) else None)"
proof -
  obtain acc where acc: "walk_entries sha lim ''.'' d ([], 0) = Inr acc" "t = fst acc"
    using read by (cases "walk_entries sha lim ''.'' d ([], 0)") (auto simp: readTree_def)
  have t: "t = put_files sha ''.'' (dir_files d) []" using walk_files(2) [OF acc(1)] acc(2) by simp
  have "q = p" if "q \<in> fst ` set (dir_files d)" "foldl walk_path ''.'' q = foldl walk_path ''.'' p" for q
  proof -
    have q: "\<forall>c \<in> set q. file_name c" "q \<noteq> []"
      using file_names_under(2) [OF wf that(1)] files_start(2) [OF that(1)] by auto
    then have "join_with ''/'' q = join_with ''/'' p" using that(2) p by (simp add: walk_path_join)
    then show ?thesis using split_join_names [OF q] split_join_names [OF p] by metis
  qed
  from put_files_lookup [OF this dir_files_distinct(2) [OF wf], where sha = sha and t = "[]"]
  have "map_of t (foldl walk_path ''.'' p) = map_option (record_of sha) (map_of (dir_files d) p)"
    by (auto simp: t split: option.splits)
  then show ?thesis using walk_path_join [OF p] dir_files_lookup(2) [OF wf] by simp
qed

lemma readTree_names:
  assumes wf: "wf_dir d" and read: "readTree sha lim d = Inr t" and k: "k \<in> fst ` set t"
  obtains p where "k = join_with ''/'' p" "\<forall>c \<in> set p. file_name c" "p \<noteq> []"
proof -
  obtain acc where acc: "walk_entries sha lim ''.'' d ([], 0) = Inr acc" "t = fst acc"
    using read by (cases "walk_entries sha lim ''.'' d ([], 0)") (auto simp: readTree_def)
  have "k \<in> foldl walk_path ''.'' ` fst ` set (dir_files d)"
    using k walk_files(2) [OF acc(1)] acc(2) put_files_keys [of sha "''.''" "dir_files d" "[]"] by simp
  then obtain p where p: "p \<in> fst ` set (dir_files d)" "k = foldl walk_path ''.'' p" by blast
  have "\<forall>c \<in> set p. file_name c" "p \<noteq> []"
    using file_names_under(2) [OF wf p(1)] files_start(2) [OF p(1)] by auto
  then show thesis using that p(2) walk_path_join by auto
qed

text \<open>Two directories with the same tracked files have the same manifest.\<close>

lemma readTree_ext:
  assumes "wf_dir d" "wf_dir e" "readTree sha lim d = Inr t" "readTree sha lim' e = Inr u"
    "\<And>p. tracked p \<Longrightarrow> file_at d p = file_at e p"
  shows "t = u"
proof (rule sorted_keys_ext)
  show "sorted_keys t" "sorted_keys u" using assms(3,4) by (auto dest: readTree_bounds)
  show "map_of t = map_of u"
  proof
    fix k
    show "map_of t k = map_of u k"
    proof (cases "k \<in> fst ` set t \<or> k \<in> fst ` set u")
      case True
      then obtain p where "k = join_with ''/'' p" "\<forall>c \<in> set p. file_name c" "p \<noteq> []"
        using readTree_names [OF assms(1,3)] readTree_names [OF assms(2,4)] by metis
      then show ?thesis
        using readTree_lookup [OF assms(1,3)] readTree_lookup [OF assms(2,4)] assms(5) by simp
    next
      case False
      then show ?thesis by (metis map_of_eq_None_iff)
    qed
  qed
qed

subsection \<open>The file-system operations keep directories well formed\<close>

lemma wf_dir_iff: "wf_dir d \<longleftrightarrow> sorted_keys d \<and> (\<forall>e \<in> set d. file_name (fst e) \<and> wf_node (snd e))"
proof (induction d)
  case (Cons e d)
  then show ?case by (cases e) (simp add: sorted_keys_def, blast)
qed simp

lemma wf_dir_entry: "wf_dir d \<Longrightarrow> map_of d c = Some n \<Longrightarrow> file_name c \<and> wf_node n"
  using map_of_SomeD [of d c n] by (fastforce simp: wf_dir_iff)

lemma wf_dir_map_put: "wf_dir d \<Longrightarrow> file_name c \<Longrightarrow> wf_node n \<Longrightarrow> wf_dir (map_put c n d)"
  using set_map_put [of _ c n d] unfolding wf_dir_iff by (metis fst_conv snd_conv sorted_keys_map_put)

lemma sorted_keys_delete: "sorted_keys m \<Longrightarrow> sorted_keys (AList.delete k m)"
  unfolding sorted_keys_def by (induction m) (auto simp: AList.delete_eq)

lemma set_delete_subset: "set (AList.delete k m) \<subseteq> set m"
  by (auto simp: AList.delete_eq)

lemma wf_dir_delete: "wf_dir d \<Longrightarrow> wf_dir (AList.delete c d)"
  unfolding wf_dir_iff using sorted_keys_delete [of d c] set_delete_subset [of c d] by blast

lemma wf_dir_mkdir_all:
  "wf_dir d \<Longrightarrow> \<forall>c \<in> set cs. file_name c \<Longrightarrow> wf_dir (fst (mkdir_all d cs))"
proof (induction d cs rule: mkdir_all.induct)
  case (2 d c cs)
  show ?case
  proof (cases "map_of d c")
    case None
    then show ?thesis using 2 by (simp add: wf_dir_map_put)
  next
    case (Some n)
    then show ?thesis using 2 wf_dir_entry [of d c n] by (cases n) (simp_all add: wf_dir_map_put)
  qed
qed simp

lemma wf_dir_set_file:
  "set_file d p n = Some d' \<Longrightarrow> wf_dir d \<Longrightarrow> \<forall>c \<in> set p. file_name c \<Longrightarrow> wf_node n \<Longrightarrow> wf_dir d'"
proof (induction d p n arbitrary: d' rule: set_file.induct)
  case (2 d c n)
  then have "d' = map_put c n d" by (auto split: option.splits fsnode.splits)
  then show ?case using 2 by (simp add: wf_dir_map_put)
next
  case (3 d c c' cs n)
  from 3(2) obtain e e' where c: "map_of d c = Some (FsDir e)"
    and e': "set_file e (c' # cs) n = Some e'" "d' = map_put c (FsDir e') d"
    by (auto split: option.splits fsnode.splits)
  have "wf_dir e'" using 3(1) [OF c refl e'(1)] 3(3-) wf_dir_entry [OF 3(3) c] by simp
  then show ?case using e'(2) 3(3,4) by (simp add: wf_dir_map_put)
qed simp

lemma wf_dir_remove_path:
  "remove_path d p = Some d' \<Longrightarrow> wf_dir d \<Longrightarrow> wf_dir d'"
proof (induction d p arbitrary: d' rule: remove_path.induct)
  case (2 d c)
  obtain n where "map_of d c = Some n" using 2 by (cases "map_of d c") simp_all
  then have "d' = AList.delete c d" using 2 by (cases n) (simp_all split: if_splits)
  then show ?case using 2(2) by (simp add: wf_dir_delete)
next
  case (3 d c c' cs)
  obtain n where n: "map_of d c = Some n" using 3(2) by (cases "map_of d c") simp_all
  obtain e where e: "n = FsDir e" using 3(2) n by (cases n) simp_all
  obtain e' where e': "remove_path e (c' # cs) = Some e'" "d' = map_put c (FsDir e') d"
    using 3(2) n e by (cases "remove_path e (c' # cs)") simp_all
  have "wf_dir e'" using 3(1) [OF n e e'(1)] wf_dir_entry [OF 3(3) n] e by simp
  then show ?case using e'(2) wf_dir_entry [OF 3(3) n] 3(3) by (simp add: wf_dir_map_put)
qed simp

lemma file_at_names:
  "wf_dir d \<Longrightarrow> file_at d p = Some v \<Longrightarrow> p \<noteq> [] \<and> list_all file_name p"
proof (induction p arbitrary: d)
  case (Cons c cs)
  obtain n where n: "map_of d c = Some n" using Cons.prems(2) by (cases "map_of d c") (simp_all add: file_at_Cons)
  note ok = wf_dir_entry [OF Cons.prems(1) n]
  show ?case
  proof (cases n)
    case (FsDir e)
    then have "cs = [] \<or> list_all file_name cs" using Cons.IH [of e] Cons.prems(2) n ok by (simp add: file_at_Cons)
    then show ?thesis using ok by auto
  next
    case (FsFile b x)
    then have "cs = []" using Cons.prems(2) n by (simp add: file_at_Cons split: if_splits)
    then show ?thesis using ok by simp
  qed (use Cons.prems(2) n in \<open>simp add: file_at_Cons\<close>)
qed simp

end
