(* ===== verification/Runner_Path.thy ===== *)
theory Runner_Path
  imports Runner_Tree_Laws
begin

section \<open>Safe paths and binding hashes\<close>

text \<open>
  What \<open>safePath\<close> lets a tool name, and that the hash of a workspace's manifest determines its
  tracked files (\<open>safePath\<close> and \<open>treeHash\<close> of internal/runner/files.go).
\<close>

subsection \<open>Which paths a tool may name\<close>

definition safe_part :: "string \<Rightarrow> bool" where
  "safe_part p \<longleftrightarrow> plain_part p \<and> p \<noteq> ''.git'' \<and> \<not> has_prefix p ''.forge-''"

lemma plain_parts_clean:
  assumes "\<forall>p \<in> set (split_on CHR ''/'' name). plain_part p"
  shows "path_Clean name = name" "\<not> path_is_abs name" "name \<noteq> []" "name \<noteq> ''.''"
proof -
  let ?ps = "split_on CHR ''/'' name"
  show abs: "\<not> path_is_abs name"
  proof
    assume "path_is_abs name"
    then obtain s where "name = CHR ''/'' # s" by (auto simp: path_is_abs_def has_prefix_iff)
    then have "[] \<in> set ?ps" by simp
    then show False using assms by (fastforce simp: plain_part_def)
  qed
  show nonempty: "name \<noteq> []"
  proof
    assume "name = []"
    then have "[] \<in> set ?ps" by simp
    then show False using assms by (fastforce simp: plain_part_def)
  qed
  show "name \<noteq> ''.''"
  proof
    assume "name = ''.''"
    then have "''.'' \<in> set ?ps" by simp
    then show False using assms by (fastforce simp: plain_part_def)
  qed
  have "clean_parts False [] ?ps = ?ps" using clean_parts_plain [OF assms] by simp
  then show "path_Clean name = name"
    using abs nonempty join_split [of "CHR ''/''" name] by (simp add: path_Clean_def Let_def)
qed

lemma contains_char: "contains s [c] \<longleftrightarrow> c \<in> set s"
  by (simp add: contains_iff in_set_conv_decomp)

lemma safe_path_iff:
  "safePath name = None \<longleftrightarrow>
     list_all safe_part (split_on CHR ''/'' name) \<and> CHR 0x5C \<notin> set name \<and> CHR 0x00 \<notin> set name"
proof
  assume safe: "safePath name = None"
  then have shape: "name \<noteq> ''.''" "\<not> path_is_abs name" "path_Clean name = name"
      "CHR 0x5C \<notin> set name" "CHR 0x00 \<notin> set name"
    and parts: "\<not> list_ex (\<lambda>part. part = ''..'' \<or> part = ''.git'' \<or> has_prefix part ''.forge-'')
                (split_on CHR ''/'' name)"
    by (auto simp: safePath_def contains_char split: if_splits)
  have "safe_part p" if "p \<in> set (split_on CHR ''/'' name)" for p
    using clean_path_parts [OF shape(2,3,1) that] parts that
    by (auto simp: safe_part_def plain_part_def list_ex_iff)
  then show "list_all safe_part (split_on CHR ''/'' name) \<and> CHR 0x5C \<notin> set name \<and> CHR 0x00 \<notin> set name"
    using shape by (simp add: list_all_iff)
next
  assume ok: "list_all safe_part (split_on CHR ''/'' name) \<and> CHR 0x5C \<notin> set name \<and> CHR 0x00 \<notin> set name"
  then have "\<forall>p \<in> set (split_on CHR ''/'' name). plain_part p"
    by (auto simp: list_all_iff safe_part_def)
  note clean = plain_parts_clean [OF this]
  have "\<not> list_ex (\<lambda>part. part = ''..'' \<or> part = ''.git'' \<or> has_prefix part ''.forge-'') (split_on CHR ''/'' name)"
    using ok by (auto simp: list_all_iff list_ex_iff safe_part_def plain_part_def)
  then show "safePath name = None" using clean ok by (simp add: safePath_def contains_char)
qed

lemma safe_path_names:
  assumes "safePath name = None"
  shows "\<forall>c \<in> set (split_on CHR ''/'' name). file_name c \<and> \<not> has_prefix c ''.forge-''"
    "join_with ''/'' (split_on CHR ''/'' name) = name"
proof -
  have "list_all safe_part (split_on CHR ''/'' name)"
    using assms safe_path_iff [of name] by simp
  then show "\<forall>c \<in> set (split_on CHR ''/'' name). file_name c \<and> \<not> has_prefix c ''.forge-''"
    using split_on_parts [of _ "CHR ''/''" name]
    by (auto simp: list_all_iff safe_part_def plain_part_def file_name_def)
  show "join_with ''/'' (split_on CHR ''/'' name) = name" by (rule join_split)
qed

text \<open>
  A tool may name exactly the paths that stay inside the workspace and outside the runner's
  own files: \<open>safePath\<close> accepts a name if and only if every element between slashes is an
  ordinary file name, none of them is empty, \<open>.\<close>, \<open>..\<close> or \<open>.git\<close> or starts with \<open>.forge-\<close>, and
  the name has neither a backslash nor a NUL byte.
\<close>

theorem safe_path_exact:
  "safePath name = None \<longleftrightarrow>
     list_all safe_part (split_on CHR ''/'' name) \<and> CHR 0x5C \<notin> set name \<and> CHR 0x00 \<notin> set name"
  by (rule safe_path_iff)

subsection \<open>The tree hash determines the tree\<close>

lemma split_at_first:
  assumes "c \<notin> set a" "c \<notin> set b" "a @ c # x = b @ c # y"
  shows "a = b \<and> x = y"
  using assms
proof (induction a arbitrary: b)
  case Nil
  then show ?case by (cases b) auto
next
  case (Cons d a)
  then show ?case by (cases b) auto
qed

lemma manifest_line_inject:
  assumes "CHR '':'' \<notin> set (fr_SHA256 (snd e))" "CHR '':'' \<notin> set (fr_SHA256 (snd f))"
    and "manifest_line e @ r = manifest_line f @ s"
  shows "fst e = fst f \<and> fr_SHA256 (snd e) = fr_SHA256 (snd f)
    \<and> fr_Executable (snd e) = fr_Executable (snd f) \<and> r = s"
proof -
  let ?tail = "\<lambda>e r. fr_SHA256 (snd e) @ CHR '':'' # show_bool (fr_Executable (snd e)) @ CHR 0x0A # r"
  have "show_nat (length (fst e)) @ CHR '':'' # (fst e @ CHR '':'' # ?tail e r)
      = show_nat (length (fst f)) @ CHR '':'' # (fst f @ CHR '':'' # ?tail f s)"
    using assms(3) by (simp add: manifest_line_def)
  from split_at_first [OF show_nat_no_colon show_nat_no_colon this]
  have len: "length (fst e) = length (fst f)" and rest: "fst e @ CHR '':'' # ?tail e r = fst f @ CHR '':'' # ?tail f s"
    by auto
  then have name: "fst e = fst f" and "?tail e r = ?tail f s" by auto
  from split_at_first [OF assms(1,2) this(2)]
  have sha: "fr_SHA256 (snd e) = fr_SHA256 (snd f)"
    and b: "show_bool (fr_Executable (snd e)) @ CHR 0x0A # r = show_bool (fr_Executable (snd f)) @ CHR 0x0A # s"
    by auto
  have "fr_Executable (snd e) = fr_Executable (snd f) \<and> r = s"
    using b by (auto simp: show_bool_def split: if_splits)
  then show ?thesis using name sha by simp
qed

lemma manifest_line_nonempty: "manifest_line e \<noteq> []"
  by (simp add: manifest_line_def)

lemma manifest_inject:
  assumes "\<forall>e \<in> set t. CHR '':'' \<notin> set (fr_SHA256 (snd e))" "\<forall>e \<in> set u. CHR '':'' \<notin> set (fr_SHA256 (snd e))"
    and "manifest t = manifest u"
  shows "map (\<lambda>e. (fst e, fr_SHA256 (snd e), fr_Executable (snd e))) t
    = map (\<lambda>e. (fst e, fr_SHA256 (snd e), fr_Executable (snd e))) u"
  using assms
proof (induction t arbitrary: u)
  case Nil
  then show ?case using manifest_line_nonempty by (cases u) (auto simp: manifest_def)
next
  case (Cons e t)
  obtain f v where u: "u = f # v"
    using Cons.prems(3) manifest_line_nonempty by (cases u) (auto simp: manifest_def)
  have "manifest_line e @ manifest t = manifest_line f @ manifest v"
    using Cons.prems(3) by (simp add: u manifest_def)
  from manifest_line_inject [OF _ _ this] Cons.prems(1,2) u
  have "fst e = fst f \<and> fr_SHA256 (snd e) = fr_SHA256 (snd f)
    \<and> fr_Executable (snd e) = fr_Executable (snd f) \<and> manifest t = manifest v" by simp
  then show ?case using Cons.IH [of v] Cons.prems(1,2) by (simp add: u)
qed

lemma readTree_records:
  assumes "readTree sha lim d = Inr t" "e \<in> set t"
  shows "fr_SHA256 (snd e) = sha (fr_Content (snd e))"
proof -
  obtain acc where acc: "walk_entries sha lim ''.'' d ([], 0) = Inr acc" "t = fst acc"
    using assms(1) by (cases "walk_entries sha lim ''.'' d ([], 0)") (auto simp: readTree_def)
  have "\<forall>e \<in> set (put_files sha p fs u). fr_SHA256 (snd e) = sha (fr_Content (snd e))"
    if "\<forall>e \<in> set u. fr_SHA256 (snd e) = sha (fr_Content (snd e))" for p fs u
    using that
  proof (induction fs arbitrary: u)
    case (Cons f fs)
    have "\<forall>e \<in> set (map_put (foldl walk_path p (fst f)) (record_of sha (snd f)) u).
        fr_SHA256 (snd e) = sha (fr_Content (snd e))"
      using Cons.prems set_map_put by (fastforce simp: record_of_def)
    from Cons.IH [OF this] show ?case by (cases f) (simp add: put_files_def)
  qed (simp add: put_files_def)
  from this [of "[]"] show ?thesis using assms(2) walk_files(2) [OF acc(1)] acc(2) by auto
qed

text \<open>
  The tree hash is a faithful name of a workspace: if SHA-256 has no collision among the
  two manifests and the file contents involved, two directories read with the same tree hash
  have the same tree, path by path, byte by byte and mode by mode.
\<close>

theorem tree_hash_determines_tree:
  assumes hex: "\<And>b. CHR '':'' \<notin> set (sha b)"
    and read: "readTree sha lim d = Inr t" "readTree sha lim' d' = Inr u"
    and no_collision: "inj_on sha ({manifest t, manifest u} \<union> (\<lambda>e. fr_Content (snd e)) ` (set t \<union> set u))"
    and same: "treeHash sha t = treeHash sha u"
  shows "t = u"
proof -
  have "manifest t = manifest u"
    by (rule inj_onD [OF no_collision]) (use same in \<open>simp_all add: treeHash_def\<close>)
  moreover have "CHR '':'' \<notin> set (fr_SHA256 (snd e))" if "e \<in> set t \<or> e \<in> set u" for e
    using that readTree_records [OF read(1), of e] readTree_records [OF read(2), of e] hex by metis
  ultimately have eq: "map (\<lambda>e. (fst e, fr_SHA256 (snd e), fr_Executable (snd e))) t
      = map (\<lambda>e. (fst e, fr_SHA256 (snd e), fr_Executable (snd e))) u"
    by (intro manifest_inject) auto
  show ?thesis
  proof (rule nth_equalityI)
    show len: "length t = length u" using eq map_eq_imp_length_eq by blast
    fix i assume i: "i < length t"
    let ?x = "snd (t ! i)" and ?y = "snd (u ! i)"
    have parts: "fst (t ! i) = fst (u ! i)" "fr_SHA256 ?x = fr_SHA256 ?y" "fr_Executable ?x = fr_Executable ?y"
      using arg_cong [OF eq, of "\<lambda>xs. xs ! i"] i len by simp_all
    have mem: "t ! i \<in> set t" "u ! i \<in> set u" using i len by simp_all
    have "sha (fr_Content ?x) = sha (fr_Content ?y)"
      using parts(2) readTree_records [OF read(1) mem(1)] readTree_records [OF read(2) mem(2)] by simp
    then have "fr_Content ?x = fr_Content ?y"
      by (rule inj_onD [OF no_collision]) (use mem in blast)+
    then have "?x = ?y" using parts by simp
    then show "t ! i = u ! i" using parts(1) by (simp add: prod_eq_iff)
  qed
qed

definition tdemo_sha :: "bytes \<Rightarrow> string" where
  "tdemo_sha b = map (\<lambda>c. if c = CHR '':'' then CHR '';'' else c) b @ (if CHR '':'' \<in> set b then ''#'' else ''='')"

definition tdemo_dir :: "bytes \<Rightarrow> dir" where
  "tdemo_dir h = [(''.git'', FsDir [(''HEAD'', FsFile h False)]), (''a'', FsFile ''hi'' True)]"

definition tdemo_limits :: tree_limits where
  "tdemo_limits = \<lparr>tl_MaxFileBytes = 100, tl_MaxWorkspaceBytes = 1000\<rparr>"

definition tdemo_tree :: tree where
  "tdemo_tree = [(''a'', \<lparr>fr_SHA256 = ''hi='', fr_Content = ''hi'', fr_Executable = True\<rparr>)]"

lemma tdemo_read: "readTree tdemo_sha tdemo_limits (tdemo_dir h) = Inr tdemo_tree"
  by (simp add: readTree_def tdemo_dir_def tdemo_tree_def tdemo_limits_def tdemo_sha_def read_file_def
      skipped_dir_def has_prefix_def walk_path_def)

lemma tdemo_sha_hex: "CHR '':'' \<notin> set (tdemo_sha b)"
  by (auto simp: tdemo_sha_def)

theorem tree_hash_determines_tree_witness:
  "tdemo_dir ''one'' \<noteq> tdemo_dir ''two''
   \<and> readTree tdemo_sha tdemo_limits (tdemo_dir ''one'') = readTree tdemo_sha tdemo_limits (tdemo_dir ''two'')"
proof -
  obtain t u where read: "readTree tdemo_sha tdemo_limits (tdemo_dir ''one'') = Inr t"
      "readTree tdemo_sha tdemo_limits (tdemo_dir ''two'') = Inr u"
    and shape: "t = tdemo_tree" "u = tdemo_tree" using tdemo_read by blast
  have "inj_on tdemo_sha ({manifest t, manifest u} \<union> (\<lambda>e. fr_Content (snd e)) ` (set t \<union> set u))"
    by (simp add: shape tdemo_tree_def manifest_def manifest_line_def tdemo_sha_def show_bool_def)
  from tree_hash_determines_tree [OF tdemo_sha_hex read this] shape read
  show ?thesis by (simp add: tdemo_dir_def)
qed

end
