(* ===== verification/Runner_Files.thy ===== *)
theory Runner_Files
  imports Runner_Path
begin

section \<open>File tools (internal/runner/files.go)\<close>

text \<open>
  The arguments of the tools and their decoding, the plan of a patch, its application to the
  workspace directory, and the read-only tools. \<open>encoding/json\<close> decodes into a struct field by
  field, in the order of the document; \<open>StartOperation\<close> admits canonical documents only, whose
  order is the sorted order a \<^typ>\<open>jvalue\<close> keeps. The texts of decoding errors and of \<open>os\<close> errors are
  shortened. A symbolic link is an \<open>FsOther\<close> and is not followed.
\<close>

subsection \<open>Decoding tool arguments\<close>

record file_edit =
  fe_Path :: string
  fe_ExpectedSHA256 :: string
  fe_Content :: "string option"
  fe_Delete :: bool
  fe_Executable :: "bool option"

record patch_args =
  pa_Files :: "file_edit list"

record read_args =
  ra_Path :: string
  ra_StartLine :: int
  ra_EndLine :: int

record search_args =
  sa_Query :: string
  sa_MaxResults :: int

record command_args =
  ca_Command :: "string list"

record verify_args =
  va_Target :: bool

record diff_entry =
  de_Path :: string
  de_BeforeSHA256 :: string
  de_AfterSHA256 :: string
  de_Before :: string
  de_After :: string
  de_Deleted :: bool
  de_BeforeExecutable :: bool
  de_AfterExecutable :: bool

text \<open>
  Field names match without regard to case: ASCII letters, and the two runes that fold to an
  ASCII letter, U+017F (to S) and U+212A (to K).
\<close>

fun fold_key :: "string \<Rightarrow> string" where
  "fold_key [] = []"
| "fold_key (c # s) =
     (if take 2 (c # s) = [CHR 0xC5, CHR 0xBF] then CHR ''S'' # fold_key (drop 1 s)
      else if take 3 (c # s) = [CHR 0xE2, CHR 0x84, CHR 0xAA] then CHR ''K'' # fold_key (drop 2 s)
      else if 97 \<le> code c \<and> code c \<le> 122 then char_of (code c - 32) # fold_key s
      else c # fold_key s)"

type_synonym 'a decoder = "jvalue \<Rightarrow> 'a \<Rightarrow> 'a option"

fun decode_members :: "(string \<times> 'a decoder) list \<Rightarrow> (string \<times> jvalue) list \<Rightarrow> 'a \<Rightarrow> 'a option" where
  "decode_members fds [] x = Some x"
| "decode_members fds ((k, v) # m) x =
     (case map_of (map (\<lambda>f. (fold_key (fst f), snd f)) fds) (fold_key k) of
        None \<Rightarrow> None
      | Some dec \<Rightarrow> Option.bind (dec v x) (decode_members fds m))"

definition decode_struct :: "(string \<times> 'a decoder) list \<Rightarrow> 'a decoder" where
  "decode_struct fds v x = (case v of JNull \<Rightarrow> Some x | JObject m \<Rightarrow> decode_members fds m x | _ \<Rightarrow> None)"

text \<open>The decoders of the field types: \<open>null\<close> leaves a value and clears a pointer or a slice.\<close>

definition decode_string :: "string decoder" where
  "decode_string v x = (case v of JNull \<Rightarrow> Some x | JString s \<Rightarrow> Some s | _ \<Rightarrow> None)"

definition decode_bool :: "bool decoder" where
  "decode_bool v x = (case v of JNull \<Rightarrow> Some x | JBool b \<Rightarrow> Some b | _ \<Rightarrow> None)"

definition parse_int64 :: "string \<Rightarrow> int option" where
  "parse_int64 s =
     (let neg = take 1 s = ''-''; ds = (if neg then drop 1 s else s); n = int (read_digits 0 ds);
          v = (if neg then - n else n)
      in if ds \<noteq> [] \<and> list_all is_digit ds \<and> - (2 ^ 63) \<le> v \<and> v < 2 ^ 63 then Some v else None)"

definition decode_int :: "int decoder" where
  "decode_int v x = (case v of JNull \<Rightarrow> Some x | JNumber s \<Rightarrow> parse_int64 s | _ \<Rightarrow> None)"

definition decode_ptr :: "'a \<Rightarrow> 'a decoder \<Rightarrow> 'a option decoder" where
  "decode_ptr zero dec v x =
     (if v = JNull then Some None
      else map_option Some (dec v (case x of None \<Rightarrow> zero | Some y \<Rightarrow> y)))"

text \<open>A slice reuses the elements it already has.\<close>

fun decode_elems :: "'a \<Rightarrow> 'a decoder \<Rightarrow> jvalue list \<Rightarrow> 'a list \<Rightarrow> 'a list option" where
  "decode_elems zero dec [] old = Some []"
| "decode_elems zero dec (v # vs) old =
     Option.bind (dec v (case old of [] \<Rightarrow> zero | y # ys \<Rightarrow> y))
       (\<lambda>x. map_option (\<lambda>xs. x # xs) (decode_elems zero dec vs (drop 1 old)))"

definition decode_slice :: "'a \<Rightarrow> 'a decoder \<Rightarrow> 'a list decoder" where
  "decode_slice zero dec v x =
     (case v of JNull \<Rightarrow> Some [] | JArray vs \<Rightarrow> decode_elems zero dec vs x | _ \<Rightarrow> None)"

definition field_of :: "('r \<Rightarrow> 'a) \<Rightarrow> (('a \<Rightarrow> 'a) \<Rightarrow> 'r \<Rightarrow> 'r) \<Rightarrow> 'a decoder \<Rightarrow> 'r decoder" where
  "field_of get upd dec v r = map_option (\<lambda>x. upd (\<lambda>_. x) r) (dec v (get r))"

definition zero_edit :: file_edit where
  "zero_edit = \<lparr>fe_Path = [], fe_ExpectedSHA256 = [], fe_Content = None, fe_Delete = False, fe_Executable = None\<rparr>"

definition decode_FileEdit :: "file_edit decoder" where
  "decode_FileEdit = decode_struct
     [(''path'', field_of fe_Path fe_Path_update decode_string),
      (''expected_sha256'', field_of fe_ExpectedSHA256 fe_ExpectedSHA256_update decode_string),
      (''content'', field_of fe_Content fe_Content_update (decode_ptr [] decode_string)),
      (''delete'', field_of fe_Delete fe_Delete_update decode_bool),
      (''executable'', field_of fe_Executable fe_Executable_update (decode_ptr False decode_bool))]"

definition decode_PatchArgs :: "patch_args decoder" where
  "decode_PatchArgs = decode_struct
     [(''files'', field_of pa_Files pa_Files_update (decode_slice zero_edit decode_FileEdit))]"

definition decode_ReadArgs :: "read_args decoder" where
  "decode_ReadArgs = decode_struct
     [(''path'', field_of ra_Path ra_Path_update decode_string),
      (''start_line'', field_of ra_StartLine ra_StartLine_update decode_int),
      (''end_line'', field_of ra_EndLine ra_EndLine_update decode_int)]"

definition decode_SearchArgs :: "search_args decoder" where
  "decode_SearchArgs = decode_struct
     [(''query'', field_of sa_Query sa_Query_update decode_string),
      (''max_results'', field_of sa_MaxResults sa_MaxResults_update decode_int)]"

definition decode_CommandArgs :: "command_args decoder" where
  "decode_CommandArgs = decode_struct
     [(''command'', field_of ca_Command ca_Command_update (decode_slice [] decode_string))]"

definition decode_VerifyArgs :: "verify_args decoder" where
  "decode_VerifyArgs = decode_struct [(''target'', field_of va_Target va_Target_update decode_bool)]"

text \<open>\<open>Decode\<close> reads the first value of the input and leaves the rest.\<close>

definition decode_first :: "bytes \<Rightarrow> jvalue option" where
  "decode_first raw = map_option fst (parse_value (Suc (Suc (length raw + length raw))) 0 raw)"

definition decodeArgs :: "'a decoder \<Rightarrow> 'a \<Rightarrow> bytes \<Rightarrow> rerr + 'a" where
  "decodeArgs dec zero raw =
     (case Option.bind (decode_first raw) (\<lambda>v. dec v zero) of
        None \<Rightarrow> Inl (wrapped ErrInvalid ''tool arguments'')
      | Some a \<Rightarrow> Inr a)"

subsection \<open>The plan of a patch\<close>

definition plan_edit :: "(bytes \<Rightarrow> string) \<Rightarrow> tree_limits \<Rightarrow> tree \<Rightarrow> string list \<Rightarrow> tree \<Rightarrow> file_edit
    \<Rightarrow> rerr + tree" where
  "plan_edit sha lim before seen after e =
     (if safePath (fe_Path e) \<noteq> None \<or> fe_Path e \<in> set seen \<or> fe_Delete e = (fe_Content e \<noteq> None)
      then Inl (sentinel ErrInvalid)
      else
        (let old = map_of before (fe_Path e);
             expected = (case old of None \<Rightarrow> ''absent'' | Some f \<Rightarrow> fr_SHA256 f)
         in if expected \<noteq> fe_ExpectedSHA256 e then Inl (sentinel ErrConflict)
            else case fe_Content e of
                None \<Rightarrow>
                  if old = None then Inl (sentinel ErrConflict) else Inr (AList.delete (fe_Path e) after)
              | Some data \<Rightarrow>
                  if tl_MaxFileBytes lim < int (length data) then Inl (sentinel ErrCapacity)
                  else Inr (map_put (fe_Path e) \<lparr>fr_SHA256 = sha data, fr_Content = data,
                         fr_Executable = (case fe_Executable e of
                            Some x \<Rightarrow> x
                          | None \<Rightarrow> (case old of None \<Rightarrow> False | Some f \<Rightarrow> fr_Executable f))\<rparr> after)))"

fun plan_edits :: "(bytes \<Rightarrow> string) \<Rightarrow> tree_limits \<Rightarrow> tree \<Rightarrow> string list \<Rightarrow> tree \<Rightarrow> file_edit list
    \<Rightarrow> rerr + tree" where
  "plan_edits sha lim before seen after [] = Inr after"
| "plan_edits sha lim before seen after (e # es) =
     res_bind (plan_edit sha lim before seen after e)
       (\<lambda>after'. plan_edits sha lim before (fe_Path e # seen) after' es)"

definition patchPlan :: "(bytes \<Rightarrow> string) \<Rightarrow> tree_limits \<Rightarrow> bytes \<Rightarrow> tree \<Rightarrow> rerr + file_edit list \<times> tree" where
  "patchPlan sha lim raw before =
     res_bind (decodeArgs decode_PatchArgs \<lparr>pa_Files = []\<rparr> raw) (\<lambda>args.
       if pa_Files args = [] \<or> 64 < length (pa_Files args) then Inl (sentinel ErrInvalid)
       else res_bind (plan_edits sha lim before [] before (pa_Files args)) (\<lambda>after.
         if tl_MaxWorkspaceBytes lim < tree_bytes after then Inl (sentinel ErrCapacity)
         else Inr (pa_Files args, after)))"

subsection \<open>Applying a patch\<close>

text \<open>A \<open>range\<close> loop whose body may return an error: the state when it leaves the loop, and how it left.\<close>

fun range_loop :: "(nat \<Rightarrow> 'e \<Rightarrow> 's \<Rightarrow> 's \<times> ('r + unit)) \<Rightarrow> nat \<Rightarrow> 'e list \<Rightarrow> 's \<Rightarrow> 's \<times> ('r + unit)" where
  "range_loop body i [] s = (s, Inr ())"
| "range_loop body i (e # es) s =
     (case snd (body i e s) of
        Inl err \<Rightarrow> body i e s
      | Inr u \<Rightarrow> range_loop body (Suc i) es (fst (body i e s)))"

text \<open>
  What the surroundings do to the i-th edit: the context may end, writing the temporary file may
  fail after some bytes, syncing the parent may fail, and a fault point may trip.
\<close>

record patch_env =
  pe_Ctx :: "nat \<Rightarrow> rerr option"
  pe_Write :: "nat \<Rightarrow> (rerr \<times> bytes \<times> bool) option"
  pe_Sync :: "nat \<Rightarrow> rerr option"
  pe_Fault :: "nat \<Rightarrow> rerr option"

definition fs_error :: "string \<Rightarrow> string \<Rightarrow> rerr" where
  "fs_error action name = ROther (action @ '' '' @ name)"

definition path_comps :: "string \<Rightarrow> string list" where
  "path_comps name = (if name = ''.'' then [] else split_on CHR ''/'' name)"

definition rename_path :: "dir \<Rightarrow> string list \<Rightarrow> string list \<Rightarrow> dir option" where
  "rename_path d src dst =
     (case lookup_path d src of
        None \<Rightarrow> None
      | Some n \<Rightarrow> Option.bind (remove_path d src) (\<lambda>d'. set_file d' dst n))"

definition patch_tmp :: "string \<Rightarrow> nat \<Rightarrow> string \<Rightarrow> string" where
  "patch_tmp opid i name = path_Join (path_Dir name) (''.forge-'' @ opid @ ''-'' @ show_nat i)"

definition write_edit :: "patch_env \<Rightarrow> string \<Rightarrow> nat \<Rightarrow> string \<Rightarrow> bytes \<Rightarrow> bool \<Rightarrow> dir \<Rightarrow> dir \<times> (rerr + unit)" where
  "write_edit env opid i name content x d =
     (let made = mkdir_all d (path_comps (path_Dir name)); tmp = path_comps (patch_tmp opid i name)
      in if \<not> snd made then (fst made, Inl (fs_error ''mkdirat'' name))
         else if lookup_path (fst made) tmp \<noteq> None then (fst made, Inl (fs_error ''openat'' name))
         else case pe_Write env i of
             Some (err, part, px) \<Rightarrow>
               (case set_file (fst made) tmp (FsFile part px) of
                  None \<Rightarrow> (fst made, Inl (fs_error ''openat'' name))
                | Some d' \<Rightarrow> (d', Inl err))
           | None \<Rightarrow>
               (case set_file (fst made) tmp (FsFile content x) of
                  None \<Rightarrow> (fst made, Inl (fs_error ''openat'' name))
                | Some d' \<Rightarrow>
                    (case rename_path d' tmp (path_comps name) of
                       None \<Rightarrow> (d', Inl (fs_error ''renameat'' name))
                     | Some d'' \<Rightarrow> (d'', Inr ()))))"

definition remove_edit :: "string \<Rightarrow> dir \<Rightarrow> dir \<times> (rerr + unit)" where
  "remove_edit name d =
     (case remove_path d (path_comps name) of
        None \<Rightarrow> (d, Inl (fs_error ''unlinkat'' name))
      | Some d' \<Rightarrow> (d', Inr ()))"

definition apply_edit :: "patch_env \<Rightarrow> string \<Rightarrow> tree \<Rightarrow> nat \<Rightarrow> file_edit \<Rightarrow> dir \<Rightarrow> dir \<times> (rerr + unit)" where
  "apply_edit env opid after i e d =
     (case pe_Ctx env i of
        Some err \<Rightarrow> (d, Inl err)
      | None \<Rightarrow>
          (let r = (if fe_Delete e then remove_edit (fe_Path e) d
                    else write_edit env opid i (fe_Path e) (case fe_Content e of None \<Rightarrow> [] | Some c \<Rightarrow> c)
                           (case map_of after (fe_Path e) of None \<Rightarrow> False | Some f \<Rightarrow> fr_Executable f) d)
           in case snd r of
               Inl err \<Rightarrow> r
             | Inr u \<Rightarrow>
                 (case pe_Sync env i of
                    Some err \<Rightarrow> (fst r, Inl err)
                  | None \<Rightarrow> (case pe_Fault env i of Some err \<Rightarrow> (fst r, Inl err) | None \<Rightarrow> r))))"

definition apply_edits :: "patch_env \<Rightarrow> string \<Rightarrow> tree \<Rightarrow> file_edit list \<Rightarrow> dir \<Rightarrow> dir \<times> (rerr + unit)" where
  "apply_edits env opid after es d = range_loop (apply_edit env opid after) 0 es d"

definition applyPatch :: "(bytes \<Rightarrow> string) \<Rightarrow> tree_limits \<Rightarrow> patch_env \<Rightarrow> operation \<Rightarrow> tree \<Rightarrow> dir
    \<Rightarrow> dir \<times> (rerr + bytes)" where
  "applyPatch sha lim env x before d =
     (case patchPlan sha lim (or_Args (op_Request x)) before of
        Inl err \<Rightarrow> (d, Inl err)
      | Inr (es, after) \<Rightarrow>
          (let r = apply_edits env (op_ID x) after es d
           in (fst r, map_sum id (\<lambda>u. print_value (JObject [(''changed_files'', JNumber (show_nat (length es)))]))
                 (snd r))))"

subsection \<open>The read-only tools\<close>

definition show_int :: "int \<Rightarrow> string" where
  "show_int n = (if n < 0 then ''-'' @ show_nat (nat (- n)) else show_nat (nat n))"

definition list_files :: "(bytes \<Rightarrow> string) \<Rightarrow> tree \<Rightarrow> bytes" where
  "list_files sha before = print_value (JObject
     [(''files'', JArray (map JString (sortedPaths before))), (''workspace_hash'', JString (treeHash sha before))])"

text \<open>The lines \<open>lines[start-1:end]\<close> of a file, one-based and inclusive; zero means the first or the last line.\<close>

definition line_range :: "int \<Rightarrow> int \<Rightarrow> string list \<Rightarrow> (int \<times> string list) option" where
  "line_range from fin lines =
     (let start = (if from = 0 then 1 else from); stop = (if fin = 0 then int (length lines) else fin)
      in if start < 1 \<or> stop < start \<or> int (length lines) < start \<or> int (length lines) < stop then None
         else Some (start, take (nat (stop - start + 1)) (drop (nat (start - 1)) lines)))"

definition tool_read_file :: "tree \<Rightarrow> bytes \<Rightarrow> rerr + bytes" where
  "tool_read_file before raw =
     res_bind (decodeArgs decode_ReadArgs \<lparr>ra_Path = [], ra_StartLine = 0, ra_EndLine = 0\<rparr> raw) (\<lambda>args.
       if safePath (ra_Path args) \<noteq> None then Inl (sentinel ErrInvalid)
       else case map_of before (ra_Path args) of
           None \<Rightarrow> Inl (sentinel ErrNotFound)
         | Some f \<Rightarrow>
             (case line_range (ra_StartLine args) (ra_EndLine args) (split_on CHR 0x0A (fr_Content f)) of
                None \<Rightarrow> Inl (sentinel ErrInvalid)
              | Some (start, part) \<Rightarrow>
                  Inr (print_value (JObject [(''content'', JString (join_with [CHR 0x0A] part)),
                    (''path'', JString (ra_Path args)), (''sha256'', JString (fr_SHA256 f)),
                    (''start_line'', JNumber (show_int start))]))))"

text \<open>
  \<open>bufio.ScanLines\<close>: a carriage return before the end of a line goes, and an empty last line is
  not reported. The scanner's buffer is larger than any file a tree can hold.
\<close>

definition drop_cr :: "string \<Rightarrow> string" where
  "drop_cr l = (if l \<noteq> [] \<and> last l = CHR 0x0D then butlast l else l)"

definition scan_lines :: "bytes \<Rightarrow> string list" where
  "scan_lines content =
     (let ls = split_on CHR 0x0A content in map drop_cr (if last ls = [] then butlast ls else ls))"

type_synonym search_match = "string \<times> nat \<times> string"

fun search_lines :: "string \<Rightarrow> nat \<Rightarrow> string \<Rightarrow> nat \<Rightarrow> string list \<Rightarrow> search_match list
    \<Rightarrow> search_match list \<times> bool" where
  "search_lines query limit name line [] matches = (matches, False)"
| "search_lines query limit name line (l # ls) matches =
     (if contains l query
      then (let matches' = matches @ [(name, Suc line, take 4096 l)]
            in if length matches' = limit then (matches', True)
               else search_lines query limit name (Suc line) ls matches')
      else search_lines query limit name (Suc line) ls matches)"

fun search_files :: "string \<Rightarrow> nat \<Rightarrow> tree \<Rightarrow> search_match list \<Rightarrow> search_match list \<times> bool" where
  "search_files query limit [] matches = (matches, False)"
| "search_files query limit ((name, f) # files) matches =
     (let r = search_lines query limit name 0 (scan_lines (fr_Content f)) matches
      in if snd r then r else search_files query limit files (fst r))"

definition print_match :: "search_match \<Rightarrow> jvalue" where
  "print_match m = JObject [(''line'', JNumber (show_nat (fst (snd m)))), (''path'', JString (fst m)),
     (''text'', JString (snd (snd m)))]"

definition tool_search_code :: "tree \<Rightarrow> bytes \<Rightarrow> rerr + bytes" where
  "tool_search_code before raw =
     res_bind (decodeArgs decode_SearchArgs \<lparr>sa_Query = [], sa_MaxResults = 0\<rparr> raw) (\<lambda>args.
       if sa_Query args = [] \<or> 1024 < length (sa_Query args) then Inl (sentinel ErrInvalid)
       else let limit = (if sa_MaxResults args \<le> 0 \<or> 200 < sa_MaxResults args then 200 else sa_MaxResults args);
                r = search_files (sa_Query args) (nat limit) before []
            in Inr (print_value (JObject [(''matches'', JArray (map print_match (fst r))),
                 (''truncated'', JBool (snd r))])))"

text \<open>The differences between the baseline and the workspace, in the order of the paths.\<close>

definition diff_names :: "tree \<Rightarrow> tree \<Rightarrow> string list" where
  "diff_names base before = map fst (foldl (\<lambda>m e. map_put (fst e) () m) (map (\<lambda>e. (fst e, ())) base) before)"

definition zero_record :: file_record where
  "zero_record = \<lparr>fr_SHA256 = [], fr_Content = [], fr_Executable = False\<rparr>"

definition diff_entry_for :: "tree \<Rightarrow> tree \<Rightarrow> string \<Rightarrow> diff_entry option" where
  "diff_entry_for base before name =
     (let old = map_of base name; new = map_of before name;
          o' = (case old of None \<Rightarrow> zero_record | Some f \<Rightarrow> f);
          n' = (case new of None \<Rightarrow> zero_record | Some f \<Rightarrow> f)
      in if old \<noteq> None \<and> new \<noteq> None \<and> fr_SHA256 o' = fr_SHA256 n' \<and> fr_Executable o' = fr_Executable n'
         then None
         else Some \<lparr>de_Path = name, de_BeforeSHA256 = fr_SHA256 o', de_AfterSHA256 = fr_SHA256 n',
                    de_Before = fr_Content o', de_After = fr_Content n', de_Deleted = (new = None),
                    de_BeforeExecutable = fr_Executable o', de_AfterExecutable = fr_Executable n'\<rparr>)"

definition tree_diff :: "tree \<Rightarrow> tree \<Rightarrow> diff_entry list" where
  "tree_diff base before = List.map_filter (diff_entry_for base before) (diff_names base before)"

definition omit_empty :: "string \<Rightarrow> string \<Rightarrow> (string \<times> jvalue) list" where
  "omit_empty k s = (if s = [] then [] else [(k, JString s)])"

definition print_diff :: "diff_entry \<Rightarrow> jvalue" where
  "print_diff e = JObject ([(''path'', JString (de_Path e))]
     @ omit_empty ''before_sha256'' (de_BeforeSHA256 e) @ omit_empty ''after_sha256'' (de_AfterSHA256 e)
     @ omit_empty ''before'' (de_Before e) @ omit_empty ''after'' (de_After e)
     @ (if de_Deleted e then [(''deleted'', JBool True)] else [])
     @ [(''before_executable'', JBool (de_BeforeExecutable e)),
        (''after_executable'', JBool (de_AfterExecutable e))])"

definition tool_get_diff :: "(bytes \<Rightarrow> string) \<Rightarrow> tree_limits \<Rightarrow> dir \<Rightarrow> tree \<Rightarrow> rerr + bytes" where
  "tool_get_diff sha lim baseline before =
     res_bind (readTree sha lim baseline) (\<lambda>base.
       Inr (print_value (JObject [(''base_hash'', JString (treeHash sha base)),
         (''files'', JArray (map print_diff (tree_diff base before))),
         (''workspace_hash'', JString (treeHash sha before))])))"

text \<open>\<open>fileTool\<close>: the workspace directory after the tool, and the result.\<close>

definition fileTool :: "(bytes \<Rightarrow> string) \<Rightarrow> tree_limits \<Rightarrow> patch_env \<Rightarrow> operation \<Rightarrow> dir \<Rightarrow> tree \<Rightarrow> dir
    \<Rightarrow> dir \<times> (rerr + bytes)" where
  "fileTool sha lim env x baseline before d =
     (let kind = or_Kind (op_Request x); raw = or_Args (op_Request x)
      in if kind = ''list_files'' then (d, Inr (list_files sha before))
         else if kind = ''read_file'' then (d, tool_read_file before raw)
         else if kind = ''search_code'' then (d, tool_search_code before raw)
         else if kind = ''apply_patch'' then applyPatch sha lim env x before d
         else if kind = ''get_diff'' then (d, tool_get_diff sha lim baseline before)
         else (d, Inl (wrapped ErrInvalid ''unknown file tool'')))"

subsection \<open>Copying a tree\<close>

text \<open>
  \<open>copyTree\<close> into a directory. \<open>stop\<close> says at which file the context ends or a write fails, and
  with how much of the file written.
\<close>

definition copy_file :: "(string \<Rightarrow> (rerr \<times> bytes option) option) \<Rightarrow> string \<Rightarrow> file_record \<Rightarrow> dir
    \<Rightarrow> dir \<times> (rerr + unit)" where
  "copy_file stop name f d =
     (case stop name of
        Some (err, None) \<Rightarrow> (d, Inl err)
      | outcome \<Rightarrow>
          if safePath name \<noteq> None then (d, Inl (sentinel ErrInvalid))
          else let made = mkdir_all d (path_comps (path_Dir name)) in
            if \<not> snd made then (fst made, Inl (fs_error ''mkdirat'' name))
            else if lookup_path (fst made) (path_comps name) \<noteq> None
            then (fst made, Inl (fs_error ''openat'' name))
            else case set_file (fst made) (path_comps name)
                (FsFile (case outcome of Some (err, Some part) \<Rightarrow> part | _ \<Rightarrow> fr_Content f) (fr_Executable f)) of
                None \<Rightarrow> (fst made, Inl (fs_error ''openat'' name))
              | Some d' \<Rightarrow> (d', case outcome of None \<Rightarrow> Inr () | Some (err, part) \<Rightarrow> Inl err))"

definition copyTree :: "(string \<Rightarrow> (rerr \<times> bytes option) option) \<Rightarrow> tree \<Rightarrow> dir \<Rightarrow> dir \<times> (rerr + unit)" where
  "copyTree stop files d = range_loop (\<lambda>i e. copy_file stop (fst e) (snd e)) 0 files d"

end
