(* ===== verification/Runner_Loop.thy ===== *)
theory Runner_Loop
  imports Runner_Files
begin

section \<open>Loops over the files of a tree\<close>

text \<open>
  Two contracts a body of a \<open>range_loop\<close> may keep: a turn that succeeds gives one key its new
  value and leaves the others (\<open>keyed_loop\<close>), and a turn that fails leaves every visible key either
  as it was or with its new value (\<open>atomic_loop\<close>). The loops over the edits of a patch and over
  the files of a copied tree are interpretations.
\<close>

definition updates :: "('e \<Rightarrow> 'k) \<Rightarrow> ('e \<Rightarrow> 'v option) \<Rightarrow> 'e list \<Rightarrow> ('k \<rightharpoonup> 'v) \<Rightarrow> ('k \<rightharpoonup> 'v)" where
  "updates key val es m = foldl (\<lambda>m e. m(key e := val e)) m es"

lemma updates_simps [simp]:
  "updates key val [] m = m" "updates key val (e # es) m = updates key val es (m(key e := val e))"
  by (simp_all add: updates_def)

lemma updates_other: "k \<notin> key ` set es \<Longrightarrow> updates key val es m k = m k"
  by (induction es arbitrary: m) auto

lemma updates_hit: "distinct (map key es) \<Longrightarrow> e \<in> set es \<Longrightarrow> updates key val es m (key e) = val e"
proof (induction es arbitrary: m)
  case (Cons a es)
  then show ?case by (cases "e = a") (auto simp: updates_other)
qed simp

locale keyed_loop =
  fixes body :: "nat \<Rightarrow> 'e \<Rightarrow> 's \<Rightarrow> 's \<times> ('r + unit)"
    and look :: "'s \<Rightarrow> 'k \<rightharpoonup> 'v"
    and key :: "'e \<Rightarrow> 'k"
    and val :: "'e \<Rightarrow> 'v option"
    and legal :: "'e \<Rightarrow> bool"
    and inv :: "'s \<Rightarrow> bool"
  assumes turn_done: "legal e \<Longrightarrow> snd (body i e s) = Inr () \<Longrightarrow> look (fst (body i e s)) = (look s)(key e := val e)"
    and turn_inv: "legal e \<Longrightarrow> inv s \<Longrightarrow> inv (fst (body i e s))"
begin

lemma loop_done:
  "\<forall>e \<in> set es. legal e \<Longrightarrow> snd (range_loop body i es s) = Inr () \<Longrightarrow>
     look (fst (range_loop body i es s)) = updates key val es (look s)"
proof (induction es arbitrary: i s)
  case (Cons e es)
  show ?case
  proof (cases "snd (body i e s)")
    case (Inr u)
    then show ?thesis using Cons turn_done [of e i s] by simp
  qed (use Cons in simp)
qed simp

lemma loop_inv: "\<forall>e \<in> set es. legal e \<Longrightarrow> inv s \<Longrightarrow> inv (fst (range_loop body i es s))"
proof (induction es arbitrary: i s)
  case (Cons e es)
  then show ?case using turn_inv [of e s i] by (cases "snd (body i e s)") simp_all
qed simp

end

locale atomic_loop = keyed_loop body look key val legal inv
  for body :: "nat \<Rightarrow> 'e \<Rightarrow> 's \<Rightarrow> 's \<times> ('r + unit)" and look :: "'s \<Rightarrow> 'k \<rightharpoonup> 'v" and key :: "'e \<Rightarrow> 'k"
    and val :: "'e \<Rightarrow> 'v option" and legal :: "'e \<Rightarrow> bool" and inv :: "'s \<Rightarrow> bool" +
  fixes visible :: "'k \<Rightarrow> bool"
  assumes turn_failed: "legal e \<Longrightarrow> visible k \<Longrightarrow>
    look (fst (body i e s)) k = look s k \<or> k = key e \<and> look (fst (body i e s)) k = val e"
begin

text \<open>Wherever the loop stops, a visible key has its old value or the value of the whole batch.\<close>

lemma loop_atomic:
  assumes "\<forall>e \<in> set es. legal e" "distinct (map key es)" "visible k"
  shows "look (fst (range_loop body i es s)) k = look s k
    \<or> look (fst (range_loop body i es s)) k = updates key val es (look s) k"
  using assms
proof (induction es arbitrary: i s)
  case (Cons e es)
  let ?s = "fst (body i e s)"
  have other: "updates key val es m k = m k" if "k = key e" for m
    using that Cons.prems(2) by (intro updates_other) auto
  have turn: "look ?s k = look s k \<or> k = key e \<and> look ?s k = val e"
    using Cons.prems turn_failed by simp
  show ?case
  proof (cases "snd (body i e s)")
    case (Inl err)
    then show ?thesis using turn other [of "(look s)(key e := val e)"] by auto
  next
    case (Inr u)
    have "look ?s = (look s)(key e := val e)" using Inr Cons.prems turn_done [of e i s] by simp
    moreover have "look (fst (range_loop body (Suc i) es ?s)) k = look ?s k
      \<or> look (fst (range_loop body (Suc i) es ?s)) k = updates key val es (look ?s) k"
      using Cons by simp
    ultimately show ?thesis using Inr turn other [of "look ?s"] by auto
  qed
qed simp

end

end
