(* ===== verification/Runner_Patch.thy ===== *)
theory Runner_Patch
  imports Runner_Loop
begin

section \<open>What a patch plans and what it does\<close>

text \<open>
  The plan of a patch as a function on paths, the effect of every edit on the files of the
  workspace, and the theorem that a patch that succeeds leaves exactly the planned tree while one
  that stops on the way leaves every file either as it was or as planned.
\<close>

subsection \<open>Names of directories and temporary files\<close>

lemma join_with_snoc: "qs \<noteq> [] \<Longrightarrow> join_with s (qs @ [p]) = join_with s qs @ s @ p"
proof (induction qs)
  case (Cons q qs)
  then show ?case by (cases qs) simp_all
qed simp

lemma split_on_snoc: "split_on c (s @ [c]) = split_on c s @ [[]]"
proof (induction s)
  case (Cons a s)
  then show ?case by (cases "split_on c s") auto
qed simp

lemma join_nonempty:
  assumes "ps \<noteq> []" "\<forall>p \<in> set ps. file_name p"
  shows "join_with ''/'' ps \<noteq> []" "join_with ''/'' ps \<noteq> ''.''" "\<not> path_is_abs (join_with ''/'' ps)"
proof -
  obtain p qs where ps: "ps = p # qs" using assms(1) by (cases ps) auto
  obtain c r where p: "p = c # r" "c \<noteq> CHR ''/''" using assms(2) ps by (cases p) (auto simp: file_name_def)
  show "join_with ''/'' ps \<noteq> []" "\<not> path_is_abs (join_with ''/'' ps)"
    using ps p by (cases qs; simp add: path_is_abs_def has_prefix_def)+
  show "join_with ''/'' ps \<noteq> ''.''"
  proof
    assume dot: "join_with ''/'' ps = ''.''"
    have "split_on CHR ''/'' (join_with ''/'' ps) = ps" by (rule split_join_names [OF assms(2,1)])
    then have "ps = [''.'']" unfolding dot by simp
    then show False using assms(2) by (simp add: file_name_def)
  qed
qed

lemma path_Clean_join:
  assumes "ps \<noteq> []" "\<forall>p \<in> set ps. file_name p \<and> p \<noteq> ''..''"
    "split_on CHR ''/'' s = ps @ extra" "\<forall>x \<in> set extra. x = []" "\<not> path_is_abs s"
  shows "path_Clean s = join_with ''/'' ps"
proof -
  have names: "\<forall>p \<in> set ps. file_name p" and plain: "\<forall>p \<in> set ps. plain_part p"
    using assms(2) by (auto simp: file_name_def plain_part_def)
  have drop: "clean_parts False out extra = rev out" for out
    using assms(4) by (induction extra) auto
  have "clean_parts False out (qs @ extra) = rev out @ qs" if "\<forall>p \<in> set qs. plain_part p" for out qs
    using that by (induction qs arbitrary: out) (auto simp: plain_part_def drop)
  from this [OF plain, of "[]"] show ?thesis
    using join_nonempty(1) [OF assms(1) names] assms(3,5) by (simp add: path_Clean_def Let_def)
qed

definition safe_names :: "string list \<Rightarrow> bool" where
  "safe_names ps \<longleftrightarrow> ps \<noteq> [] \<and> (\<forall>p \<in> set ps. file_name p \<and> p \<noteq> ''..'' \<and> \<not> has_prefix p ''.forge-'')"

lemma safe_path_comps:
  assumes "safePath name = None"
  shows "safe_names (path_comps name)" "join_with ''/'' (path_comps name) = name" "name \<noteq> []"
proof -
  have parts: "list_all safe_part (split_on CHR ''/'' name)" using assms safe_path_iff [of name] by simp
  have "name \<noteq> ''.''" "name \<noteq> []" using assms by (auto simp: safePath_def)
  then show "safe_names (path_comps name)" "join_with ''/'' (path_comps name) = name" "name \<noteq> []"
    using safe_path_names [OF assms] parts
    by (auto simp: safe_names_def path_comps_def list_all_iff safe_part_def plain_part_def)
qed

lemma path_Dir_comps:
  assumes "safePath name = None"
  shows "path_comps (path_Dir name) = butlast (path_comps name)"
    "path_Dir name = (if butlast (path_comps name) = [] then ''.'' else join_with ''/'' (butlast (path_comps name)))"
proof -
  let ?qs = "butlast (path_comps name)" and ?p = "last (path_comps name)"
  note safe = safe_path_comps [OF assms]
  have ps: "path_comps name = ?qs @ [?p]" using safe(1) by (simp add: safe_names_def)
  then have p: "CHR ''/'' \<notin> set ?p" and qs: "\<forall>q \<in> set ?qs. file_name q \<and> q \<noteq> ''..''"
    using safe(1) by (auto simp: safe_names_def file_name_def dest: in_set_butlastD)
  have "\<forall>c \<in> set (rev ?p). c \<noteq> CHR ''/''" using p by auto
  then have skip: "dropWhile (\<lambda>c. c \<noteq> CHR ''/'') (rev ?p @ r) = dropWhile (\<lambda>c. c \<noteq> CHR ''/'') r" for r
    by (intro dropWhile_append2) auto
  show dir: "path_Dir name = (if ?qs = [] then ''.'' else join_with ''/'' ?qs)"
  proof (cases "?qs = []")
    case True
    then have "name = ?p" using safe(2) ps by (metis append_Nil join_with.simps(2))
    then have "dropWhile (\<lambda>c. c \<noteq> CHR ''/'') (rev name) = []" using skip [of "[]"] by simp
    then have "path_Dir name = path_Clean []" by (simp only: path_Dir_def rev.simps)
    then show ?thesis using True by (simp add: path_Clean_def path_is_abs_def has_prefix_def)
  next
    case False
    then have name: "name = join_with ''/'' ?qs @ ''/'' @ ?p"
      using safe(2) ps join_with_snoc [of ?qs "''/''" ?p] by simp
    have "rev name = rev ?p @ CHR ''/'' # rev (join_with ''/'' ?qs)" by (subst name) simp
    then have cut: "rev (dropWhile (\<lambda>c. c \<noteq> CHR ''/'') (rev name)) = join_with ''/'' ?qs @ ''/''"
      using skip [of "CHR ''/'' # rev (join_with ''/'' ?qs)"] by simp
    have names: "\<forall>q \<in> set ?qs. file_name q" using qs by blast
    have "path_Clean (join_with ''/'' ?qs @ ''/'') = join_with ''/'' ?qs"
    proof (rule path_Clean_join [OF False qs])
      show "split_on CHR ''/'' (join_with ''/'' ?qs @ ''/'') = ?qs @ [[]]"
        using split_on_snoc [of "CHR ''/''" "join_with ''/'' ?qs"] split_join_names [OF names False] by simp
      show "\<not> path_is_abs (join_with ''/'' ?qs @ ''/'')"
        using join_nonempty [OF False names]
        by (cases "join_with ''/'' ?qs") (auto simp: path_is_abs_def has_prefix_def)
    qed simp
    then show ?thesis using False cut by (simp add: path_Dir_def)
  qed
  show "path_comps (path_Dir name) = ?qs"
  proof (cases "?qs = []")
    case False
    have names: "\<forall>q \<in> set ?qs. file_name q" using qs by blast
    show ?thesis
      using dir False join_nonempty(2) [OF False names] split_join_names [OF names False]
      by (simp add: path_comps_def)
  qed (simp add: dir path_comps_def)
qed

definition tmp_name :: "string \<Rightarrow> nat \<Rightarrow> string" where
  "tmp_name opid i = ''.forge-'' @ opid @ ''-'' @ show_nat i"

lemma tmp_name_prefix: "has_prefix (tmp_name opid i) ''.forge-''"
  by (simp add: tmp_name_def has_prefix_def)

lemma patch_tmp_comps:
  assumes "safePath name = None" "CHR ''/'' \<notin> set opid"
  shows "path_comps (patch_tmp opid i name) = butlast (path_comps name) @ [tmp_name opid i]"
proof -
  let ?qs = "butlast (path_comps name)" and ?t = "tmp_name opid i"
  have qs: "\<forall>q \<in> set ?qs. file_name q \<and> q \<noteq> ''..''"
    using safe_path_comps(1) [OF assms(1)] by (auto simp: safe_names_def dest: in_set_butlastD)
  have slash: "CHR ''/'' \<notin> set (show_nat i)" using show_nat_digits [of "CHR ''/''" i] by auto
  have t: "file_name ?t" "?t \<noteq> ''..''" using assms(2) slash by (auto simp: file_name_def tmp_name_def)
  let ?ps = "?qs @ [?t]"
  have ps: "\<forall>p \<in> set ?ps. file_name p \<and> p \<noteq> ''..''" "\<forall>p \<in> set ?ps. file_name p" using qs t by auto
  have "patch_tmp opid i name = join_with ''/'' ?ps"
  proof (cases "?qs = []")
    case True
    then have "patch_tmp opid i name = path_Clean (''./'' @ ?t)"
      using path_Dir_comps(2) [OF assms(1)] by (simp add: patch_tmp_def path_Join_def tmp_name_def)
    moreover have "split_on CHR ''/'' (''./'' @ ?t) = [''.'', ?t]"
      using split_on_append [of "CHR ''/''" "''.''" ?t] split_on_single [of "CHR ''/''" ?t] t(1)
      by (simp add: file_name_def)
    ultimately show ?thesis using True t
      by (simp add: path_Clean_def path_is_abs_def has_prefix_def Let_def file_name_def)
  next
    case False
    have names: "\<forall>q \<in> set ?qs. file_name q" using qs by blast
    have "path_Clean (join_with ''/'' ?ps) = join_with ''/'' ?ps"
      using path_Clean_join [OF _ ps(1), of _ "[]"] split_join_names [OF ps(2)] join_nonempty(3) [OF _ ps(2)] by simp
    then show ?thesis
      using False path_Dir_comps(2) [OF assms(1)] join_nonempty(1) [OF False names]
        join_with_snoc [OF False, of "''/''" ?t]
      by (simp add: patch_tmp_def path_Join_def tmp_name_def)
  qed
  then show ?thesis
    using split_join_names [OF ps(2)] join_nonempty(2) [OF _ ps(2)] by (simp add: path_comps_def)
qed

subsection \<open>One edit on the files of the workspace\<close>

text \<open>A path that is not one of the runner's temporary files.\<close>

definition user_path :: "string list \<Rightarrow> bool" where
  "user_path q \<longleftrightarrow> q = [] \<or> \<not> has_prefix (last q) ''.forge-''"

lemma tracked_user_path: "tracked q \<Longrightarrow> user_path q"
  by (induction q rule: tracked.induct) (auto simp: user_path_def)

lemma safe_names_user: "safe_names ps \<Longrightarrow> user_path ps"
  by (auto simp: safe_names_def user_path_def)

lemma lookup_None_file_at: "lookup_path d q = None \<Longrightarrow> file_at d q = None"
  by (simp add: file_at_def)

lemma lookup_set_file: "set_file d p n = Some d' \<Longrightarrow> \<forall>e. n \<noteq> FsDir e \<Longrightarrow> lookup_path d' p = Some n"
proof (induction d p n arbitrary: d' rule: set_file.induct)
  case (2 d c n)
  then have "d' = map_put c n d" by (auto split: option.splits fsnode.splits)
  then show ?case using 2(2) by (cases n) simp_all
next
  case (3 d c c' cs n)
  from 3(2) obtain e e' where c: "map_of d c = Some (FsDir e)"
    and e': "set_file e (c' # cs) n = Some e'" "d' = map_put c (FsDir e') d"
    by (auto split: option.splits fsnode.splits)
  show ?case using 3(1) [OF c refl e'(1) 3(3)] e'(2) by simp
qed simp

lemma rename_file_at:
  assumes "set_file d tmp (FsFile c x) = Some d1" "rename_path d1 tmp dst = Some d2" "tmp \<noteq> dst"
    "file_at d tmp = None"
  shows "file_at d2 q = (if q = dst then Some (c, x) else file_at d q)"
proof -
  have n: "lookup_path d1 tmp = Some (FsFile c x)" using lookup_set_file [OF assms(1)] by simp
  then obtain d' where d': "remove_path d1 tmp = Some d'" "set_file d' dst (FsFile c x) = Some d2"
    using assms(2) by (cases "remove_path d1 tmp") (simp_all add: rename_path_def)
  show ?thesis
    using file_at_set_file [OF d'(2)] file_at_remove_path [OF d'(1)] file_at_set_file [OF assms(1)] assms(3,4)
    by simp
qed

text \<open>
  The ways a write ends: it made the parent directories and stopped, it left a temporary file
  behind, or it replaced the file.
\<close>

lemma write_edit_cases:
  obtains (stopped) err where "write_edit env opid i name c x d =
      (fst (mkdir_all d (path_comps (path_Dir name))), Inl err)"
  | (left_over) d' f err where
      "set_file (fst (mkdir_all d (path_comps (path_Dir name)))) (path_comps (patch_tmp opid i name)) f = Some d'"
      "\<exists>b y. f = FsFile b y" "write_edit env opid i name c x d = (d', Inl err)"
  | (replaced) d' d'' where
      "lookup_path (fst (mkdir_all d (path_comps (path_Dir name)))) (path_comps (patch_tmp opid i name)) = None"
      "set_file (fst (mkdir_all d (path_comps (path_Dir name)))) (path_comps (patch_tmp opid i name)) (FsFile c x) = Some d'"
      "rename_path d' (path_comps (patch_tmp opid i name)) (path_comps name) = Some d''"
      "write_edit env opid i name c x d = (d'', Inr ())"
proof -
  let ?made = "mkdir_all d (path_comps (path_Dir name))" and ?tmp = "path_comps (patch_tmp opid i name)"
  show thesis
  proof (cases "\<not> snd ?made \<or> lookup_path (fst ?made) ?tmp \<noteq> None")
    case True
    then show thesis using stopped by (cases "snd ?made") (auto simp: write_edit_def Let_def)
  next
    case clear: False
    show thesis
    proof (cases "pe_Write env i")
      case None
      show thesis
      proof (cases "set_file (fst ?made) ?tmp (FsFile c x)")
        case set: (Some d')
        show thesis
        proof (cases "rename_path d' ?tmp (path_comps name)")
          case r: None
          show thesis by (rule left_over [OF set]) (use clear None set r in \<open>simp_all add: write_edit_def Let_def\<close>)
        next
          case r: (Some d'')
          show thesis by (rule replaced [OF _ set r]) (use clear None set r in \<open>simp_all add: write_edit_def Let_def\<close>)
        qed
      qed (use stopped clear None in \<open>simp add: write_edit_def Let_def\<close>)
    next
      case (Some w)
      obtain err part px where w: "w = (err, part, px)" by (cases w)
      show thesis
      proof (cases "set_file (fst ?made) ?tmp (FsFile part px)")
        case set: (Some d')
        show thesis by (rule left_over [OF set]) (use clear Some w set in \<open>simp_all add: write_edit_def Let_def\<close>)
      qed (use stopped clear Some w in \<open>simp add: write_edit_def Let_def\<close>)
    qed
  qed
qed

lemma tmp_differs:
  assumes "safePath name = None" "CHR ''/'' \<notin> set opid"
  shows "\<not> user_path (path_comps (patch_tmp opid i name))" "path_comps (patch_tmp opid i name) \<noteq> path_comps name"
proof -
  show no: "\<not> user_path (path_comps (patch_tmp opid i name))"
    using patch_tmp_comps [OF assms] tmp_name_prefix by (simp add: user_path_def)
  show "path_comps (patch_tmp opid i name) \<noteq> path_comps name"
    using no safe_names_user [OF safe_path_comps(1) [OF assms(1)]] by metis
qed

lemma write_edit_done:
  assumes "safePath name = None" "CHR ''/'' \<notin> set opid" "snd (write_edit env opid i name c x d) = Inr ()"
  shows "file_at (fst (write_edit env opid i name c x d)) = (file_at d)(path_comps name \<mapsto> (c, x))"
proof (cases rule: write_edit_cases [of env opid i name c x d])
  case (replaced d' d'')
  have "file_at (fst (mkdir_all d (path_comps (path_Dir name)))) (path_comps (patch_tmp opid i name)) = None"
    using replaced(1) by (rule lookup_None_file_at)
  from rename_file_at [OF replaced(2,3) tmp_differs(2) [OF assms(1,2)] this]
  show ?thesis using replaced(4) by (simp add: fun_eq_iff)
qed (use assms(3) in simp_all)

lemma write_edit_failed:
  assumes "safePath name = None" "CHR ''/'' \<notin> set opid" "user_path q"
  shows "file_at (fst (write_edit env opid i name c x d)) q = file_at d q
    \<or> q = path_comps name \<and> file_at (fst (write_edit env opid i name c x d)) q = Some (c, x)"
proof (cases rule: write_edit_cases [of env opid i name c x d])
  case (left_over d' f err)
  have "q \<noteq> path_comps (patch_tmp opid i name)" using tmp_differs(1) [OF assms(1,2)] assms(3) by metis
  then show ?thesis using left_over file_at_set_file by fastforce
next
  case (replaced d' d'')
  then show ?thesis using write_edit_done [OF assms(1,2), of env i c x d] by simp
qed simp

lemma write_edit_wf:
  assumes "safePath name = None" "CHR ''/'' \<notin> set opid" "wf_dir d"
  shows "wf_dir (fst (write_edit env opid i name c x d))"
proof -
  let ?made = "fst (mkdir_all d (path_comps (path_Dir name)))" and ?tmp = "path_comps (patch_tmp opid i name)"
  have name: "\<forall>p \<in> set (path_comps name). file_name p"
    using safe_path_comps(1) [OF assms(1)] by (simp add: safe_names_def)
  have "file_name (tmp_name opid i)"
    using assms(2) show_nat_digits [of "CHR ''/''" i] by (auto simp: file_name_def tmp_name_def)
  then have tmp: "\<forall>p \<in> set ?tmp. file_name p"
    using name patch_tmp_comps [OF assms(1,2)] by (auto dest: in_set_butlastD)
  have made: "wf_dir ?made"
    using name assms(3) path_Dir_comps(1) [OF assms(1)] by (auto intro!: wf_dir_mkdir_all dest: in_set_butlastD)
  have set: "wf_dir d'" if "set_file ?made ?tmp f = Some d'" "\<exists>b y. f = FsFile b y" for d' f
    using wf_dir_set_file [OF that(1) made tmp] that(2) by fastforce
  show ?thesis
  proof (cases rule: write_edit_cases [of env opid i name c x d])
    case (replaced d' d'')
    obtain d1 n where "remove_path d' ?tmp = Some d1" "set_file d1 (path_comps name) n = Some d''"
        "lookup_path d' ?tmp = Some n"
      using replaced(3) by (auto simp: rename_path_def split: option.splits bind_splits)
    moreover from this have "n = FsFile c x" using lookup_set_file [OF replaced(2)] by simp
    moreover have "wf_dir d'" using set [OF replaced(2)] by blast
    ultimately show ?thesis using replaced(4) wf_dir_remove_path wf_dir_set_file name by fastforce
  qed (use made set in auto)
qed

definition legal_edit :: "string \<Rightarrow> file_edit \<Rightarrow> bool" where
  "legal_edit opid e \<longleftrightarrow> safePath (fe_Path e) = None \<and> CHR ''/'' \<notin> set opid
     \<and> fe_Delete e \<noteq> (fe_Content e \<noteq> None)"

definition edit_comps :: "file_edit \<Rightarrow> string list" where
  "edit_comps e = path_comps (fe_Path e)"

definition edit_value :: "tree \<Rightarrow> file_edit \<Rightarrow> (bytes \<times> bool) option" where
  "edit_value after e = map_option (\<lambda>c. (c, case map_of after (fe_Path e) of None \<Rightarrow> False | Some f \<Rightarrow> fr_Executable f))
     (fe_Content e)"

lemma apply_edit_cases:
  assumes "legal_edit opid e"
  obtains (early) err where "apply_edit env opid after i e d = (d, Inl err)"
  | (remove) d' where "fe_Content e = None" "remove_path d (edit_comps e) = Some d'"
      "fst (apply_edit env opid after i e d) = d'"
  | (wrote) c x where "edit_value after e = Some (c, x)"
      "fst (apply_edit env opid after i e d) = fst (write_edit env opid i (fe_Path e) c x d)"
      "snd (apply_edit env opid after i e d) = Inr () \<Longrightarrow> snd (write_edit env opid i (fe_Path e) c x d) = Inr ()"
proof (cases "pe_Ctx env i")
  case None
  show thesis
  proof (cases "fe_Content e")
    case gone: None
    then have del: "fe_Delete e" using assms by (simp add: legal_edit_def)
    show thesis
    proof (cases "remove_path d (edit_comps e)")
      case r: None
      show thesis by (rule early) (use None del r in \<open>simp add: apply_edit_def remove_edit_def edit_comps_def\<close>)
    next
      case r: (Some d')
      show thesis
        by (rule remove [OF gone r])
          (use None del r in \<open>simp add: apply_edit_def remove_edit_def edit_comps_def Let_def split: option.splits\<close>)
    qed
  next
    case (Some c)
    then have keep: "\<not> fe_Delete e" using assms by (simp add: legal_edit_def)
    show thesis
      by (rule wrote)
        (use None Some keep in \<open>auto simp: apply_edit_def edit_value_def Let_def split: sum.splits option.splits\<close>)
  qed
qed (use early in \<open>simp add: apply_edit_def\<close>)

interpretation patch_loop: atomic_loop "apply_edit env opid after" file_at edit_comps "edit_value after"
  "legal_edit opid" wf_dir user_path for env opid after
proof unfold_locales
  fix e i d
  assume legal: "legal_edit opid e"
  note safe = legal [unfolded legal_edit_def]
  show "file_at (fst (apply_edit env opid after i e d)) = (file_at d)(edit_comps e := edit_value after e)"
    if ok: "snd (apply_edit env opid after i e d) = Inr ()"
  using legal proof (cases rule: apply_edit_cases [where env = env and after = after and i = i and d = d])
    case (remove d')
    then show ?thesis using file_at_remove_path [OF remove(2)] by (simp add: edit_value_def fun_eq_iff)
  next
    case (wrote c x)
    then show ?thesis using write_edit_done [of "fe_Path e" opid env i c x d] safe ok by (simp add: edit_comps_def)
  qed (use ok in simp)
  show "file_at (fst (apply_edit env opid after i e d)) k = file_at d k
      \<or> k = edit_comps e \<and> file_at (fst (apply_edit env opid after i e d)) k = edit_value after e"
    if "user_path k" for k
  using legal proof (cases rule: apply_edit_cases [where env = env and after = after and i = i and d = d])
    case (remove d')
    then show ?thesis using file_at_remove_path [OF remove(2)] by (simp add: edit_value_def)
  next
    case (wrote c x)
    then show ?thesis using write_edit_failed [of "fe_Path e" opid k env i c x d] safe that
      by (simp add: edit_comps_def)
  qed simp
  show "wf_dir (fst (apply_edit env opid after i e d))" if "wf_dir d"
  using legal proof (cases rule: apply_edit_cases [where env = env and after = after and i = i and d = d])
    case (remove d')
    then show ?thesis using wf_dir_remove_path that by simp
  next
    case (wrote c x)
    then show ?thesis using write_edit_wf [of "fe_Path e" opid d env i c x] safe that by simp
  qed (use that in simp)
qed

subsection \<open>The plan as a function on paths\<close>

definition planned_value :: "tree \<Rightarrow> file_edit \<Rightarrow> (bytes \<times> bool) option" where
  "planned_value before e = map_option (\<lambda>c. (c, case fe_Executable e of Some x \<Rightarrow> x
     | None \<Rightarrow> (case map_of before (fe_Path e) of None \<Rightarrow> False | Some f \<Rightarrow> fr_Executable f))) (fe_Content e)"

definition edit_fits :: "tree \<Rightarrow> file_edit \<Rightarrow> bool" where
  "edit_fits before e \<longleftrightarrow> safePath (fe_Path e) = None \<and> fe_Delete e \<noteq> (fe_Content e \<noteq> None)
     \<and> fe_ExpectedSHA256 e = (case map_of before (fe_Path e) of None \<Rightarrow> ''absent'' | Some f \<Rightarrow> fr_SHA256 f)"

lemma plan_edit_Inr:
  assumes "plan_edit sha lim before seen after e = Inr after'"
  shows "edit_fits before e" "fe_Path e \<notin> set seen"
    "map_of after' = (map_of after)(fe_Path e := map_option (record_of sha) (planned_value before e))"
    "sorted_keys after \<Longrightarrow> sorted_keys after'"
proof -
  note plan = assms [unfolded plan_edit_def Let_def]
  show fits: "edit_fits before e" and "fe_Path e \<notin> set seen"
    using plan by (auto simp: edit_fits_def split: if_splits)
  have "after' = (case planned_value before e of None \<Rightarrow> AList.delete (fe_Path e) after
      | Some v \<Rightarrow> map_put (fe_Path e) (record_of sha v) after)"
    using plan by (cases "fe_Content e") (auto simp: planned_value_def record_of_def split: if_splits)
  then show "map_of after' = (map_of after)(fe_Path e := map_option (record_of sha) (planned_value before e))"
    "sorted_keys after \<Longrightarrow> sorted_keys after'"
    by (auto simp: delete_conv' sorted_keys_delete sorted_keys_map_put split: option.splits)
qed

lemma plan_edits_all:
  assumes "plan_edits sha lim before seen after es = Inr after'"
  shows "list_all (edit_fits before) es \<and> distinct (map fe_Path es) \<and> set seen \<inter> fe_Path ` set es = {}
    \<and> map_of after' = updates fe_Path (\<lambda>e. map_option (record_of sha) (planned_value before e)) es (map_of after)
    \<and> (sorted_keys after \<longrightarrow> sorted_keys after')"
  using assms
proof (induction es arbitrary: seen after)
  case (Cons e es)
  obtain mid where mid: "plan_edit sha lim before seen after e = Inr mid"
      "plan_edits sha lim before (fe_Path e # seen) mid es = Inr after'"
    using Cons.prems by (auto elim: res_bind_InrE)
  note rest = Cons.IH [OF mid(2)] and head = plan_edit_Inr [OF mid(1)]
  have "map_of after' = updates fe_Path (\<lambda>e. map_option (record_of sha) (planned_value before e)) (e # es) (map_of after)"
    using rest unfolding updates_simps head(3) [symmetric] by blast
  then show ?case using rest head(1,2,4) by auto
qed simp

lemma patchPlan_Inr:
  assumes "patchPlan sha lim raw before = Inr (es, after)"
  shows "es \<noteq> []" "length es \<le> 64" "plan_edits sha lim before [] before es = Inr after"
    "tree_bytes after \<le> tl_MaxWorkspaceBytes lim"
  using assms by (auto simp: patchPlan_def elim!: res_bind_InrE split: if_splits)

lemma find_by_key:
  "distinct (map key es) \<Longrightarrow>
     updates key val es m k = (case List.find (\<lambda>e. key e = k) es of None \<Rightarrow> m k | Some e \<Rightarrow> val e)"
proof (induction es arbitrary: m)
  case (Cons e es)
  then show ?case by (cases "key e = k") (auto simp: updates_other split: option.splits)
qed simp

lemma plan_lookup:
  assumes "patchPlan sha lim raw before = Inr (es, after)"
  shows "map_of after = updates fe_Path (\<lambda>e. map_option (record_of sha) (planned_value before e)) es (map_of before)"
    "distinct (map fe_Path es)" "list_all (edit_fits before) es"
  using plan_edits_all [OF patchPlan_Inr(3) [OF assms]] by simp_all

text \<open>
  A patch that is planned changes exactly the files it names: every edit names a distinct safe
  path and carries the hash of the file the workspace has there now, or \<open>absent\<close>; the planned
  tree has the new content at the edited paths, keeps the mode of a file whose edit does not
  set one, has lost the deleted files, and is the old tree everywhere else. The plan stays within
  the workspace's byte limit and 64 edits.
\<close>

theorem patch_plan_exact:
  assumes "patchPlan sha lim raw before = Inr (es, after)" "sorted_keys before"
  shows "list_all (edit_fits before) es \<and> distinct (map fe_Path es) \<and> 1 \<le> length es \<and> length es \<le> 64
    \<and> sorted_keys after \<and> tree_bytes after \<le> tl_MaxWorkspaceBytes lim
    \<and> map_of after = (\<lambda>k. case List.find (\<lambda>e. fe_Path e = k) es of
          None \<Rightarrow> map_of before k
        | Some e \<Rightarrow> map_option (record_of sha) (planned_value before e))"
proof -
  note plan = patchPlan_Inr [OF assms(1)]
  have "sorted_keys after" using plan_edits_all [OF plan(3)] assms(2) by simp
  moreover have "1 \<le> length es" using plan(1) by (cases es) simp_all
  moreover have "map_of after = (\<lambda>k. case List.find (\<lambda>e. fe_Path e = k) es of
          None \<Rightarrow> map_of before k | Some e \<Rightarrow> map_option (record_of sha) (planned_value before e))"
    unfolding plan_lookup(1) [OF assms(1)] by (rule ext) (rule find_by_key [OF plan_lookup(2) [OF assms(1)]])
  ultimately show ?thesis using plan(2,4) plan_lookup(2,3) [OF assms(1)] by simp
qed

subsection \<open>A patch on the files of the workspace\<close>

lemma plan_edit_value:
  assumes "patchPlan sha lim raw before = Inr (es, after)" "e \<in> set es"
  shows "edit_value after e = planned_value before e"
proof -
  have "map_of after (fe_Path e) = map_option (record_of sha) (planned_value before e)"
    using plan_lookup(1,2) [OF assms(1)] updates_hit [OF _ assms(2)] by metis
  then show ?thesis by (cases "fe_Content e") (auto simp: edit_value_def planned_value_def record_of_def)
qed

lemma plan_legal:
  assumes "patchPlan sha lim raw before = Inr (es, after)" "CHR ''/'' \<notin> set opid"
  shows "\<forall>e \<in> set es. legal_edit opid e" "distinct (map edit_comps es)"
proof -
  have fits: "\<forall>e \<in> set es. edit_fits before e" using plan_lookup(3) [OF assms(1)] by (simp add: list_all_iff)
  then show "\<forall>e \<in> set es. legal_edit opid e" using assms(2) by (auto simp: legal_edit_def edit_fits_def)
  have "inj_on path_comps (fe_Path ` set es)"
    using fits safe_path_comps(2) by (intro inj_onI) (metis edit_fits_def image_iff)
  then have "distinct (map path_comps (map fe_Path es))"
    using plan_lookup(2) [OF assms(1)] by (simp only: distinct_map list.set_map)
  then show "distinct (map edit_comps es)" by (simp add: edit_comps_def [abs_def] comp_def)
qed

lemma plan_names:
  assumes "patchPlan sha lim raw before = Inr (es, after)" "k \<in> fe_Path ` set es"
  obtains p where "k = join_with ''/'' p" "\<forall>c \<in> set p. file_name c" "p \<noteq> []"
proof -
  have "safePath k = None" using plan_lookup(3) [OF assms(1)] assms(2) by (auto simp: list_all_iff edit_fits_def)
  from safe_path_comps [OF this] show thesis by (intro that [of "path_comps k"]) (auto simp: safe_names_def)
qed

text \<open>The updates of the plan, read on the files of the directory.\<close>

lemma plan_files:
  assumes wf: "wf_dir d" and read: "readTree sha lim d = Inr before"
    and plan: "patchPlan sha lim raw before = Inr (es, after)"
    and p: "tracked p" "\<forall>c \<in> set p. file_name c" "p \<noteq> []"
  shows "map_of after (join_with ''/'' p) =
    map_option (record_of sha) (updates edit_comps (edit_value after) es (file_at d) p)"
proof -
  let ?k = "join_with ''/'' p"
  have same: "edit_comps e = p \<longleftrightarrow> fe_Path e = ?k" if "e \<in> set es" for e
  proof -
    have "safePath (fe_Path e) = None" using plan_lookup(3) [OF plan] that by (auto simp: list_all_iff edit_fits_def)
    note comps = safe_path_comps [OF this]
    have "path_comps ?k = p" using split_join_names [OF p(2,3)] join_nonempty(2) [OF p(3,2)] by (simp add: path_comps_def)
    then show ?thesis using comps(2) by (auto simp: edit_comps_def)
  qed
  show ?thesis
  proof (cases "\<exists>e \<in> set es. fe_Path e = ?k")
    case True
    then obtain e where e: "e \<in> set es" "fe_Path e = ?k" by blast
    have "map_of after ?k = map_option (record_of sha) (planned_value before e)"
      using plan_lookup(1,2) [OF plan] updates_hit [OF _ e(1)] e(2) by metis
    moreover have "updates edit_comps (edit_value after) es (file_at d) p = edit_value after e"
      using updates_hit [OF _ e(1), of edit_comps] same [OF e(1)] e(2) plan_legal(2) [OF plan, of "[]"] by fastforce
    ultimately show ?thesis using plan_edit_value [OF plan e(1)] by simp
  next
    case False
    have "map_of after ?k = map_of before ?k"
      unfolding plan_lookup(1) [OF plan] using False by (intro updates_other) auto
    moreover have "updates edit_comps (edit_value after) es (file_at d) p = file_at d p"
      using False same by (intro updates_other) auto
    ultimately show ?thesis using readTree_lookup [OF wf read p(2,3)] p(1) by simp
  qed
qed

definition file_of :: "file_record \<Rightarrow> bytes \<times> bool" where
  "file_of f = (fr_Content f, fr_Executable f)"

lemma file_of_record [simp]: "map_option file_of (map_option (record_of sha) v) = v"
  by (cases v) (simp_all add: file_of_def record_of_def)

lemma applyPatch_planned:
  assumes "patchPlan sha lim (or_Args (op_Request x)) before = Inr (es, after)"
  shows "fst (applyPatch sha lim env x before d) = fst (range_loop (apply_edit env (op_ID x) after) 0 es d)"
    "snd (applyPatch sha lim env x before d) = Inr r \<Longrightarrow>
      snd (range_loop (apply_edit env (op_ID x) after) 0 es d) = Inr ()"
  using assms by (cases "snd (range_loop (apply_edit env (op_ID x) after) 0 es d)";
      simp add: applyPatch_def apply_edits_def Let_def)+

lemma valid_id_no_slash: "valid_id i \<Longrightarrow> CHR ''/'' \<notin> set i"
  by (auto simp: valid_id_iff list_all_iff id_char_def)

lemma patch_result_is_plan:
  assumes wf: "wf_dir d" and read: "readTree sha lim d = Inr before" and id: "valid_id (op_ID x)"
    and plan: "patchPlan sha lim (or_Args (op_Request x)) before = Inr (es, after)"
    and ok: "applyPatch sha lim env x before d = (d', Inr r)"
    and tracked: "list_all (\<lambda>e. tracked (path_comps (fe_Path e))) es"
    and read': "readTree sha lim' d' = Inr t"
  shows "t = after"
proof (rule sorted_keys_ext)
  note legal = plan_legal [OF plan valid_id_no_slash [OF id]]
  have d': "d' = fst (range_loop (apply_edit env (op_ID x) after) 0 es d)"
    and ran: "snd (range_loop (apply_edit env (op_ID x) after) 0 es d) = Inr ()"
    using applyPatch_planned [OF plan] ok by (metis fst_conv, metis snd_conv)
  have files: "file_at d' = updates edit_comps (edit_value after) es (file_at d)"
    unfolding d' by (rule patch_loop.loop_done [OF legal(1) ran])
  have wf': "wf_dir d'" unfolding d' by (rule patch_loop.loop_inv [OF legal(1) wf])
  show "sorted_keys t" using readTree_bounds(1) [OF read'] .
  show "sorted_keys after"
    using plan_edits_all [OF patchPlan_Inr(3) [OF plan]] readTree_bounds(1) [OF read] by simp
  show "map_of t = map_of after"
  proof
    fix k
    show "map_of t k = map_of after k"
    proof (cases "k \<in> fst ` set t \<or> k \<in> fst ` set before \<or> k \<in> fe_Path ` set es")
      case True
      then obtain p where 1: "k = join_with ''/'' p" "\<forall>c \<in> set p. file_name c" "p \<noteq> []"
        using readTree_names [OF wf' read'] readTree_names [OF wf read] plan_names [OF plan] by metis
      show ?thesis
      proof (cases "tracked p")
        case True
        then show ?thesis
          using readTree_lookup [OF wf' read' 1(2,3)] plan_files [OF wf read plan True 1(2,3)] files 1(1) by simp
      next
        case False
        have "k \<notin> fe_Path ` set es"
        proof
          assume "k \<in> fe_Path ` set es"
          then have "tracked (path_comps k)" using tracked by (auto simp: list_all_iff)
          moreover have "path_comps k = p"
            using split_join_names [OF 1(2,3)] join_nonempty(2) [OF 1(3,2)] 1(1) by (simp add: path_comps_def)
          ultimately show False using False by simp
        qed
        then have "map_of after k = map_of before k"
          unfolding plan_lookup(1) [OF plan] by (rule updates_other)
        then show ?thesis
          using readTree_lookup [OF wf' read' 1(2,3)] readTree_lookup [OF wf read 1(2,3)] False 1(1) by simp
      qed
    next
      case False
      then show ?thesis unfolding plan_lookup(1) [OF plan] by (metis map_of_eq_None_iff updates_other)
    qed
  qed
qed


text \<open>
  C32. A patch that stops anywhere, by an error, a cancelled context, an injected fault or a crash
  between two edits, leaves every tracked file whole: its content and mode are those before the
  patch or those of the plan, never a mixture and never a partial write.
\<close>

theorem patch_files_whole:
  assumes wf: "wf_dir d" and read: "readTree sha lim d = Inr before" and id: "valid_id (op_ID x)"
    and plan: "patchPlan sha lim (or_Args (op_Request x)) before = Inr (es, after)"
    and p: "tracked p" "list_all file_name p"
  shows "wf_dir (fst (applyPatch sha lim env x before d))
    \<and> (file_at (fst (applyPatch sha lim env x before d)) p = file_at d p
      \<or> file_at (fst (applyPatch sha lim env x before d)) p
          = map_option file_of (map_of after (join_with ''/'' p)))"
proof -
  note legal = plan_legal [OF plan valid_id_no_slash [OF id]]
  have names: "\<forall>c \<in> set p. file_name c" "p \<noteq> []" using p by (auto simp: list_all_iff)
  show ?thesis
    using patch_loop.loop_atomic [OF legal(1,2) tracked_user_path [OF p(1)], where env = env and i = 0 and s = d]
      patch_loop.loop_inv [OF legal(1) wf, where env = env and i = 0]
      plan_files [OF wf read plan p(1) names] applyPatch_planned(1) [OF plan, of env d]
    by auto
qed

subsection \<open>Two limits of the plan\<close>

text \<open>
  A safe path may lie under \<open>.venv\<close>, \<open>__pycache__\<close> or \<open>.pytest_cache\<close>, which manifests skip: a
  patch of such paths succeeds, changes files, and leaves the tree, its hash and the revision of the
  workspace as they were.
\<close>

lemma skipped_edits_untracked:
  assumes wf: "wf_dir d" and read: "readTree sha lim d = Inr before" and id: "valid_id (op_ID x)"
    and plan: "patchPlan sha lim (or_Args (op_Request x)) before = Inr (es, after)"
    and ok: "applyPatch sha lim env x before d = (d', Inr r)"
    and skipped: "list_all (\<lambda>e. \<not> tracked (path_comps (fe_Path e))) es"
    and read': "readTree sha lim' d' = Inr t"
  shows "t = before"
proof (rule sym, rule readTree_ext [OF wf _ read read'])
  note legal = plan_legal [OF plan valid_id_no_slash [OF id]]
  have d': "d' = fst (range_loop (apply_edit env (op_ID x) after) 0 es d)"
    and ran: "snd (range_loop (apply_edit env (op_ID x) after) 0 es d) = Inr ()"
    using applyPatch_planned [OF plan] ok by (metis fst_conv, metis snd_conv)
  show "wf_dir d'" unfolding d' by (rule patch_loop.loop_inv [OF legal(1) wf])
  show "file_at d p = file_at d' p" if "tracked p" for p
  proof -
    have "p \<notin> edit_comps ` set es" using that skipped by (auto simp: list_all_iff edit_comps_def)
    then show ?thesis unfolding d' patch_loop.loop_done [OF legal(1) ran] by (simp add: updates_other)
  qed
qed

text \<open>
  The plan does not count files: a patch that brings the workspace over 10000 files is applied, and
  then no manifest of the workspace can be read.
\<close>

lemma overfull_patch_unreadable:
  assumes wf: "wf_dir d" and read: "readTree sha lim d = Inr before" and id: "valid_id (op_ID x)"
    and plan: "patchPlan sha lim (or_Args (op_Request x)) before = Inr (es, after)"
    and ok: "applyPatch sha lim env x before d = (d', Inr r)"
    and tracked: "list_all (\<lambda>e. tracked (path_comps (fe_Path e))) es"
    and many: "10000 < length after"
  shows "\<exists>err. readTree sha lim' d' = Inl err"
proof (cases "readTree sha lim' d'")
  case (Inr t)
  have "t = after" by (rule patch_result_is_plan [OF wf read id plan ok tracked Inr])
  then show ?thesis using many readTree_bounds(2) [OF Inr] by simp
qed blast

subsection \<open>A patch that runs\<close>

definition pdemo_args :: bytes where
  "pdemo_args = ''{'' @ [CHR 0x22] @ ''files'' @ [CHR 0x22] @ '':[{'' @ [CHR 0x22] @ ''path'' @ [CHR 0x22,CHR '':'', CHR 0x22] @ ''a'' @ [CHR 0x22] @
   '','' @ [CHR 0x22] @ ''content'' @ [CHR 0x22,CHR '':'', CHR 0x22] @ ''yo'' @ [CHR 0x22] @
   '','' @ [CHR 0x22] @ ''expected_sha256'' @ [CHR 0x22,CHR '':'', CHR 0x22] @ ''hi='' @ [CHR 0x22] @ ''}]}''"
lemma pdemo_decode: "decode_first pdemo_args = Some (JObject [(''files'', JArray [JObject [(''content'', JString ''yo''), (''expected_sha256'', JString ''hi=''), (''path'', JString ''a'')]])])"
  by (simp add: decode_first_def pdemo_args_def json_eval)

definition pdemo_oper :: operation where
  "pdemo_oper = \<lparr>op_Request = \<lparr>or_Workspace = \<lparr>wr_TenantID = ''t'', wr_RunID = ''r'', wr_WorkspaceID = ''w'',
       wr_Epoch = 1, wr_Grant = []\<rparr>, or_OperationID = ''op1'', or_ExpectedRevision = 1, or_Kind = ''apply_patch'',
       or_Args = pdemo_args, or_ArgsHash = [], or_PolicyVersion = ''p'', or_Deadline = 5\<rparr>,
     op_Status = OpPrepared, op_JobID = [], op_BeforeHash = [], op_ExpectedAfterHash = [], op_AfterHash = [],
     op_AfterRevision = 0, op_Result = [], op_ResultTruncated = False, op_Receipt = zero_ref, op_Error = [],
     op_CancelRequested = False\<rparr>"

definition pdemo_edit :: file_edit where
  "pdemo_edit = \<lparr>fe_Path = ''a'', fe_ExpectedSHA256 = ''hi='', fe_Content = Some ''yo'', fe_Delete = False,
     fe_Executable = None\<rparr>"

definition pdemo_after :: tree where
  "pdemo_after = [(''a'', \<lparr>fr_SHA256 = ''yo='', fr_Content = ''yo'', fr_Executable = True\<rparr>)]"

definition pdemo_dir :: dir where
  "pdemo_dir = [(''.git'', FsDir [(''HEAD'', FsFile ''x'' False)]), (''a'', FsFile ''yo'' True)]"

text \<open>A quiet run, and one whose context ends before the second edit.\<close>

definition quiet_env :: patch_env where
  "quiet_env = \<lparr>pe_Ctx = (\<lambda>i. None), pe_Write = (\<lambda>i. None), pe_Sync = (\<lambda>i. None), pe_Fault = (\<lambda>i. None)\<rparr>"

definition torn_env :: patch_env where
  "torn_env = quiet_env\<lparr>pe_Write := (\<lambda>i. Some (ROther ''disk full'', ''y'', False))\<rparr>"

lemmas pdemo_defs = pdemo_oper_def pdemo_edit_def pdemo_after_def pdemo_dir_def quiet_env_def torn_env_def
  tdemo_dir_def tdemo_tree_def tdemo_limits_def tdemo_sha_def

lemma pdemo_edits: "decodeArgs decode_PatchArgs \<lparr>pa_Files = []\<rparr> pdemo_args = Inr \<lparr>pa_Files = [pdemo_edit]\<rparr>"
  by (simp add: decodeArgs_def pdemo_decode pdemo_edit_def decode_PatchArgs_def decode_struct_def field_of_def
      decode_slice_def decode_FileEdit_def zero_edit_def decode_string_def decode_ptr_def)

lemma pdemo_safe: "safePath ''a'' = None"
  by (simp add: safePath_def path_is_abs_def path_Clean_def has_prefix_def)

lemma pdemo_plan: "patchPlan tdemo_sha tdemo_limits (or_Args (op_Request pdemo_oper)) tdemo_tree = Inr ([pdemo_edit], pdemo_after)"
  by (simp add: patchPlan_def pdemo_edits pdemo_oper_def plan_edit_def pdemo_edit_def pdemo_safe tdemo_tree_def
      pdemo_after_def tdemo_limits_def tdemo_sha_def tree_bytes_def)

lemma pdemo_dir_wf: "wf_dir (tdemo_dir h)"
  by (simp add: tdemo_dir_def file_name_def)

lemma pdemo_digits: "show_nat 0 = ''0''" "show_nat (Suc 0) = ''1''"
  by (simp_all add: show_nat.simps [of 0] show_nat.simps [of "Suc 0"] digit_char_def char_of_def bit_0)

lemma pdemo_path: "path_comps (path_Dir ''a'') = []" "path_comps (patch_tmp ''op1'' 0 ''a'') = [''.forge-op1-0'']"
  "path_comps ''a'' = [''a'']"
  using path_Dir_comps(1) [OF pdemo_safe] patch_tmp_comps [OF pdemo_safe, of "''op1''" 0]
  by (simp_all add: path_comps_def tmp_name_def pdemo_digits)


lemma pdemo_torn: "fst (applyPatch tdemo_sha tdemo_limits torn_env pdemo_oper tdemo_tree (tdemo_dir ''x'')) =
    [(''.forge-op1-0'', FsFile ''y'' False), (''.git'', FsDir [(''HEAD'', FsFile ''x'' False)]), (''a'', FsFile ''hi'' True)]"
  using pdemo_plan
  by (simp add: applyPatch_def apply_edits_def apply_edit_def write_edit_def pdemo_defs pdemo_path)


theorem patch_plan_exact_witness:
  "patchPlan tdemo_sha tdemo_limits pdemo_args tdemo_tree = Inr ([pdemo_edit], pdemo_after)
   \<and> map_of pdemo_after ''a'' = Some (record_of tdemo_sha (''yo'', True))"
proof -
  have plan: "patchPlan tdemo_sha tdemo_limits pdemo_args tdemo_tree = Inr ([pdemo_edit], pdemo_after)"
    using pdemo_plan by (simp add: pdemo_oper_def)
  have "sorted_keys tdemo_tree" by (simp add: tdemo_tree_def sorted_keys_def)
  from patch_plan_exact [OF plan this]
  have "map_of pdemo_after ''a'' = map_option (record_of tdemo_sha) (planned_value tdemo_tree pdemo_edit)"
    by (simp add: pdemo_edit_def)
  then show ?thesis using plan by (simp add: planned_value_def pdemo_edit_def tdemo_tree_def)
qed


theorem patch_files_whole_witness:
  "file_at (fst (applyPatch tdemo_sha tdemo_limits torn_env pdemo_oper tdemo_tree (tdemo_dir ''x''))) [''a'']
     \<in> {Some (''hi'', True), Some (''yo'', True)}
   \<and> file_at (fst (applyPatch tdemo_sha tdemo_limits torn_env pdemo_oper tdemo_tree (tdemo_dir ''x''))) [''.forge-op1-0'']
     = Some (''y'', False)"
proof -
  have id: "valid_id (op_ID pdemo_oper)" by (simp add: pdemo_oper_def ID_Validate_def id_char_def)
  have "tracked [''a'']" "list_all file_name [''a'']" by (simp_all add: has_prefix_def file_name_def)
  from patch_files_whole [OF pdemo_dir_wf tdemo_read id pdemo_plan this, of torn_env]
  have "file_at (fst (applyPatch tdemo_sha tdemo_limits torn_env pdemo_oper tdemo_tree (tdemo_dir ''x''))) [''a'']
      \<in> {Some (''hi'', True), Some (''yo'', True)}"
    by (auto simp: tdemo_dir_def pdemo_after_def file_at_Cons file_of_def)
  then show ?thesis by (simp add: pdemo_torn file_at_Cons)
qed

end
