(* ===== verification/Runner_Import.thy ===== *)
theory Runner_Import
  imports Runner_Patch
begin

section \<open>Importing a source into a workspace (internal/runner/initialization.go)\<close>

text \<open>
  \<open>resumeImport\<close> fills a directory with a pinned tree. It may find what an earlier attempt
  left: the walk accepts exactly directories on the way to an expected file and expected files
  with the expected bytes and mode, and copies what is missing.
\<close>

definition file_matches :: "(bytes \<Rightarrow> string) \<Rightarrow> file_record \<Rightarrow> bytes \<times> bool \<Rightarrow> bool" where
  "file_matches sha r v \<longleftrightarrow> length (fst v) = length (fr_Content r) \<and> sha (fst v) = fr_SHA256 r
     \<and> snd v = fr_Executable r"

fun import_node :: "(bytes \<Rightarrow> string) \<Rightarrow> tree \<Rightarrow> string \<Rightarrow> string \<Rightarrow> fsnode \<Rightarrow> tree \<Rightarrow> rerr + tree"
and import_entries :: "(bytes \<Rightarrow> string) \<Rightarrow> tree \<Rightarrow> string \<Rightarrow> dir \<Rightarrow> tree \<Rightarrow> rerr + tree" where
  "import_node sha expected parent name (FsDir es) missing =
     (if list_ex (\<lambda>f. has_prefix (fst f) (walk_path parent name @ ''/'')) expected
      then import_entries sha expected (walk_path parent name) es missing
      else Inl (wrapped ErrReconciliation ''unexpected initialization directory''))"
| "import_node sha expected parent name (FsFile c x) missing =
     (case map_of expected (walk_path parent name) of
        None \<Rightarrow> Inl (wrapped ErrReconciliation ''unexpected initialization file'')
      | Some r \<Rightarrow>
          if file_matches sha r (c, x) then Inr (AList.delete (walk_path parent name) missing)
          else Inl (sentinel ErrReconciliation))"
| "import_node sha expected parent name FsOther missing =
     (case map_of expected (walk_path parent name) of
        None \<Rightarrow> Inl (wrapped ErrReconciliation ''unexpected initialization file'')
      | Some r \<Rightarrow> Inl (sentinel ErrReconciliation))"
| "import_entries sha expected parent [] missing = Inr missing"
| "import_entries sha expected parent ((name, n) # es) missing =
     res_bind (import_node sha expected parent name n missing) (import_entries sha expected parent es)"

text \<open>The body of the loop over the missing files: copy one file, then the fault point.\<close>

definition import_file :: "(string \<Rightarrow> (rerr \<times> bytes option) option) \<Rightarrow> (string \<Rightarrow> rerr option) \<Rightarrow> nat
    \<Rightarrow> string \<times> file_record \<Rightarrow> dir \<Rightarrow> dir \<times> (rerr + unit)" where
  "import_file stop fault i e d =
     (if path_Clean (fst e) \<noteq> fst e then (d, Inl (sentinel ErrInvalid))
      else let r = copyTree stop [e] d in
        case snd r of
          Inl err \<Rightarrow> r
        | Inr u \<Rightarrow> (case fault (fst e) of Some err \<Rightarrow> (fst r, Inl err) | None \<Rightarrow> r))"

definition import_into :: "(bytes \<Rightarrow> string) \<Rightarrow> (string \<Rightarrow> (rerr \<times> bytes option) option) \<Rightarrow> (string \<Rightarrow> rerr option)
    \<Rightarrow> tree \<Rightarrow> dir \<Rightarrow> dir \<times> (rerr + unit)" where
  "import_into sha stop fault expected d =
     (case import_entries sha expected ''.'' d expected of
        Inl err \<Rightarrow> (d, Inl err)
      | Inr missing \<Rightarrow> range_loop (import_file stop fault) 0 missing d)"

definition resumeImport :: "(bytes \<Rightarrow> string) \<Rightarrow> (string \<Rightarrow> (rerr \<times> bytes option) option) \<Rightarrow> (string \<Rightarrow> rerr option)
    \<Rightarrow> tree \<Rightarrow> fsnode option \<Rightarrow> fsnode option \<times> (rerr + unit)" where
  "resumeImport sha stop fault expected n =
     (case n of
        None \<Rightarrow> map_prod (Some \<circ> FsDir) id (import_into sha stop fault expected [])
      | Some (FsDir d) \<Rightarrow> map_prod (Some \<circ> FsDir) id (import_into sha stop fault expected d)
      | Some m \<Rightarrow> (Some m, Inl (sentinel ErrReconciliation)))"

subsection \<open>Every file of a directory\<close>

fun node_all :: "string \<Rightarrow> fsnode \<Rightarrow> (string list \<times> bytes \<times> bool) list"
and all_files :: "dir \<Rightarrow> (string list \<times> bytes \<times> bool) list" where
  "node_all name (FsDir es) = map (\<lambda>(p, v). (name # p, v)) (all_files es)"
| "node_all name (FsFile c x) = [([name], (c, x))]"
| "node_all name FsOther = []"
| "all_files [] = []"
| "all_files ((name, n) # es) = node_all name n @ all_files es"

lemma all_files_start:
  "(p, v) \<in> set (node_all name n) \<Longrightarrow> \<exists>l. p = name # l"
  "(p, v) \<in> set (all_files es) \<Longrightarrow> \<exists>a l. p = a # l \<and> a \<in> fst ` set es"
proof -
  show node: "\<exists>l. p = name # l" if "(p, v) \<in> set (node_all name n)" for name n
    using that by (cases n) auto
  show "\<exists>a l. p = a # l \<and> a \<in> fst ` set es" if "(p, v) \<in> set (all_files es)"
    using that
  proof (induction es)
    case (Cons e es)
    obtain m n where e: "e = (m, n)" by (cases e)
    then show ?case using Cons node [of m n] by auto
  qed simp
qed

lemma all_files_lookup:
  "wf_node n \<Longrightarrow> (name # l, v) \<in> set (node_all name n) \<longleftrightarrow> file_at [(name, n)] (name # l) = Some v"
  "wf_dir es \<Longrightarrow> (p, v) \<in> set (all_files es) \<longleftrightarrow> file_at es p = Some v"
proof (induction n and es arbitrary: name l and p rule: wf_node_wf_dir.induct)
  case (1 es)
  then show ?case by (auto simp: file_at_Cons)
next
  case (2 c x)
  then show ?case by (auto simp: file_at_Cons)
next
  case (5 m n es)
  show ?case
  proof (cases p)
    case Nil
    then show ?thesis using all_files_start(2) [of p v "(m, n) # es"] by auto
  next
    case (Cons a l)
    show ?thesis
    proof (cases "a = m")
      case True
      have "a \<notin> fst ` set es" using 5(3) True by auto
      then have "(a # l, v) \<notin> set (all_files es)" using all_files_start(2) [of "a # l" v es] by auto
      moreover have "file_at ((m, n) # es) (m # l) = file_at [(m, n)] (m # l)" by (simp add: file_at_Cons)
      ultimately show ?thesis using Cons True 5(1) [of m l] 5(3) by simp
    next
      case False
      have "(a # l, v) \<notin> set (node_all m n)" using False all_files_start(1) [of "a # l" v m n] by auto
      then show ?thesis using Cons False 5(2) [of "a # l"] 5(3) by (simp add: file_at_Cons)
    qed
  qed
qed (simp_all add: file_at_Cons)

definition walk_keys :: "string \<Rightarrow> (string list \<times> bytes \<times> bool) list \<Rightarrow> string list" where
  "walk_keys parent fs = map (\<lambda>f. foldl walk_path parent (fst f)) fs"

lemma import_walk:
  "import_node sha expected parent name n missing = Inr m' \<Longrightarrow>
     (\<forall>f \<in> set (node_all name n). \<exists>r. map_of expected (foldl walk_path parent (fst f)) = Some r \<and> file_matches sha r (snd f))
     \<and> m' = fold AList.delete (walk_keys parent (node_all name n)) missing"
  "import_entries sha expected parent es missing = Inr m' \<Longrightarrow>
     (\<forall>f \<in> set (all_files es). \<exists>r. map_of expected (foldl walk_path parent (fst f)) = Some r \<and> file_matches sha r (snd f))
     \<and> m' = fold AList.delete (walk_keys parent (all_files es)) missing"
proof (induction sha expected parent name n missing and sha expected parent es missing arbitrary: m' and m'
    rule: import_node_import_entries.induct)
  case (1 sha expected parent name es missing)
  have "walk_keys parent (map (\<lambda>(p, v). (name # p, v)) fs) = walk_keys (walk_path parent name) fs"
    for fs :: "(string list \<times> bytes \<times> bool) list" by (induction fs) (auto simp: walk_keys_def)
  then show ?case using 1 by (auto split: if_splits)
next
  case (2 sha expected parent name c x missing)
  then show ?case by (auto simp: walk_keys_def split: option.splits if_splits)
next
  case (5 sha expected parent name n es missing)
  from 5(3) obtain mid where mid: "import_node sha expected parent name n missing = Inr mid"
    "import_entries sha expected parent es mid = Inr m'" by (auto elim: res_bind_InrE)
  show ?case using 5(1) [OF mid(1)] 5(2) [OF mid(2)] by (auto simp: walk_keys_def)
qed (auto simp: walk_keys_def split: option.splits)

subsection \<open>Copying files\<close>

lemma copy_file_cases:
  obtains (stopped) "snd (copy_file stop name f d) \<noteq> Inr ()"
      "fst (copy_file stop name f d) = d \<or> fst (copy_file stop name f d) = fst (mkdir_all d (path_comps (path_Dir name)))
        \<and> safePath name = None"
  | (wrote) b d' where "safePath name = None"
      "set_file (fst (mkdir_all d (path_comps (path_Dir name)))) (path_comps name) (FsFile b (fr_Executable f)) = Some d'"
      "fst (copy_file stop name f d) = d'" "snd (copy_file stop name f d) = Inr () \<Longrightarrow> b = fr_Content f"
proof -
  let ?made = "mkdir_all d (path_comps (path_Dir name))"
  have finish: thesis if go: "\<not> (\<exists>err. stop name = Some (err, None))"
  proof -
    let ?b = "case stop name of Some (err, Some part) \<Rightarrow> part | _ \<Rightarrow> fr_Content f"
    have def: "copy_file stop name f d = (if safePath name \<noteq> None then (d, Inl (sentinel ErrInvalid))
        else if \<not> snd ?made then (fst ?made, Inl (fs_error ''mkdirat'' name))
        else if lookup_path (fst ?made) (path_comps name) \<noteq> None then (fst ?made, Inl (fs_error ''openat'' name))
        else case set_file (fst ?made) (path_comps name) (FsFile ?b (fr_Executable f)) of
            None \<Rightarrow> (fst ?made, Inl (fs_error ''openat'' name))
          | Some d' \<Rightarrow> (d', case stop name of None \<Rightarrow> Inr () | Some (err, part) \<Rightarrow> Inl err))"
      using go by (cases "stop name") (auto simp: copy_file_def Let_def split: option.splits)
    show thesis
    proof (cases "safePath name \<noteq> None \<or> \<not> snd ?made \<or> lookup_path (fst ?made) (path_comps name) \<noteq> None")
      case True
      then show thesis using def by (intro stopped) (auto split: if_splits)
    next
      case False
      show thesis
      proof (cases "set_file (fst ?made) (path_comps name) (FsFile ?b (fr_Executable f))")
        case None
        then show thesis using def False by (intro stopped) auto
      next
        case (Some d')
        show thesis
          by (rule wrote [OF _ Some]) (use def False Some in \<open>auto split: option.splits\<close>)
      qed
    qed
  qed
  show thesis
  proof (cases "\<exists>err. stop name = Some (err, None)")
    case True
    then show thesis by (intro stopped) (auto simp: copy_file_def)
  qed (rule finish)
qed

lemma copy_file_done:
  assumes "snd (copy_file stop name f d) = Inr ()"
  shows "file_at (fst (copy_file stop name f d)) = (file_at d)(path_comps name \<mapsto> file_of f)"
proof (cases rule: copy_file_cases [of stop name f d])
  case (wrote b d')
  show ?thesis using file_at_set_file [OF wrote(2)] wrote(3,4) assms by (simp add: fun_eq_iff file_of_def)
qed (use assms in simp)

lemma copy_file_wf:
  assumes "wf_dir d"
  shows "wf_dir (fst (copy_file stop name f d))"
proof -
  have names: "\<forall>c \<in> set (path_comps name). file_name c" "\<forall>c \<in> set (path_comps (path_Dir name)). file_name c"
    if "safePath name = None"
    using safe_path_comps(1) [OF that] path_Dir_comps(1) [OF that] by (auto simp: safe_names_def dest: in_set_butlastD)
  show ?thesis
  proof (cases rule: copy_file_cases [of stop name f d])
    case stopped
    then show ?thesis using assms names(2) wf_dir_mkdir_all by metis
  next
    case (wrote b d')
    then show ?thesis
      using wf_dir_set_file [OF wrote(2) wf_dir_mkdir_all] assms names [OF wrote(1)] by simp
  qed
qed

interpretation copy_loop: keyed_loop "\<lambda>i e. copy_file stop (fst e) (snd e)" file_at "\<lambda>e. path_comps (fst e)"
  "\<lambda>e. Some (file_of (snd e))" "\<lambda>e. True" wf_dir for stop
  by unfold_locales (simp_all add: copy_file_done copy_file_wf)

lemma import_file_cases:
  "fst (import_file stop fault i e d) = d \<and> snd (import_file stop fault i e d) \<noteq> Inr ()
   \<or> fst (import_file stop fault i e d) = fst (copy_file stop (fst e) (snd e) d)
     \<and> (snd (import_file stop fault i e d) = Inr () \<longrightarrow> snd (copy_file stop (fst e) (snd e) d) = Inr ())"
proof (cases "path_Clean (fst e) = fst e")
  case True
  show ?thesis
  proof (cases "snd (copy_file stop (fst e) (snd e) d)")
    case (Inr u)
    then show ?thesis using True by (simp add: import_file_def copyTree_def Let_def split: option.splits)
  qed (use True in \<open>simp add: import_file_def copyTree_def Let_def\<close>)
qed (simp add: import_file_def)

interpretation import_loop: keyed_loop "import_file stop fault" file_at "\<lambda>e. path_comps (fst e)"
  "\<lambda>e. Some (file_of (snd e))" "\<lambda>e. True" wf_dir for stop fault
proof unfold_locales
  fix e i d
  show "file_at (fst (import_file stop fault i e d)) = (file_at d)(path_comps (fst e) := Some (file_of (snd e)))"
    if "snd (import_file stop fault i e d) = Inr ()"
    using that import_file_cases [of stop fault i e d] copy_file_done by metis
  show "wf_dir (fst (import_file stop fault i e d))" if "wf_dir d"
    using that import_file_cases [of stop fault i e d] copy_file_wf by metis
qed

subsection \<open>The import reproduces the pinned tree\<close>

definition names_ok :: "string list \<Rightarrow> bool" where
  "names_ok p \<longleftrightarrow> p \<noteq> [] \<and> list_all file_name p"

lemma path_comps_join: "names_ok p \<Longrightarrow> path_comps (join_with ''/'' p) = p"
  using split_join_names [of p] join_nonempty(2) [of p] by (auto simp: names_ok_def path_comps_def list_all_iff)

lemma names_ok_join: "names_ok p \<Longrightarrow> foldl walk_path ''.'' p = join_with ''/'' p"
  using walk_path_join by (simp add: names_ok_def list_all_iff)

definition named_tree :: "tree \<Rightarrow> bool" where
  "named_tree t \<longleftrightarrow> sorted_keys t \<and> (\<forall>k \<in> fst ` set t. names_ok (path_comps k) \<and> join_with ''/'' (path_comps k) = k)"

lemma readTree_named: "wf_dir d \<Longrightarrow> readTree sha lim d = Inr t \<Longrightarrow> named_tree t"
proof -
  assume wf: "wf_dir d" and read: "readTree sha lim d = Inr t"
  have "names_ok (path_comps k) \<and> join_with ''/'' (path_comps k) = k" if key: "k \<in> fst ` set t" for k
  proof -
    obtain p where "k = join_with ''/'' p" "names_ok p"
      using readTree_names [OF wf read key] by (metis names_ok_def list_all_iff)
    then show ?thesis using path_comps_join by simp
  qed
  then show "named_tree t" using readTree_bounds(1) [OF read] by (auto simp: named_tree_def)
qed

text \<open>Adding every file of a named tree.\<close>

lemma updates_tree:
  assumes "named_tree t" "names_ok p"
  shows "updates (\<lambda>e. path_comps (fst e)) (\<lambda>e. Some (file_of (snd e))) t m p =
    (case map_of t (join_with ''/'' p) of Some f \<Rightarrow> Some (file_of f) | None \<Rightarrow> m p)"
proof -
  have inj: "inj_on path_comps (fst ` set t)"
    using assms(1) by (intro inj_onI) (metis named_tree_def)
  have dist: "distinct (map fst t)" using assms(1) sorted_keys_distinct by (auto simp: named_tree_def)
  have "distinct (map path_comps (map fst t))" using dist inj by (simp only: distinct_map list.set_map)
  then have keys: "distinct (map (\<lambda>e. path_comps (fst e)) t)" by (simp add: comp_def)
  show ?thesis
  proof (cases "map_of t (join_with ''/'' p)")
    case None
    have "p \<notin> (\<lambda>e. path_comps (fst e)) ` set t"
    proof
      assume "p \<in> (\<lambda>e. path_comps (fst e)) ` set t"
      then obtain e where e: "e \<in> set t" "p = path_comps (fst e)" by blast
      then have "join_with ''/'' p = fst e" using assms(1) by (auto simp: named_tree_def)
      then show False using None e(1) by (auto simp: map_of_eq_None_iff)
    qed
    then show ?thesis using None by (simp add: updates_other)
  next
    case (Some f)
    have e: "(join_with ''/'' p, f) \<in> set t" using map_of_SomeD [OF Some] .
    show ?thesis
      using updates_hit [OF keys e, of "\<lambda>e. Some (file_of (snd e))" m] path_comps_join [OF assms(2)] Some by simp
  qed
qed

lemma map_of_fold_delete: "map_of (fold AList.delete ks m) k = (if k \<in> set ks then None else map_of m k)"
  by (induction ks arbitrary: m) (auto simp: delete_conv')

lemma fold_delete_named: "named_tree t \<Longrightarrow> named_tree (fold AList.delete ks t)"
proof (induction ks arbitrary: t)
  case (Cons k ks)
  have "named_tree (AList.delete k t)"
    using Cons.prems set_delete_subset [of k t] sorted_keys_delete [of t k] by (auto simp: named_tree_def)
  then show ?case using Cons.IH by simp
qed simp

text \<open>What the walk leaves to copy, and what it found.\<close>

lemma import_entries_files:
  assumes wf: "wf_dir d" and walk: "import_entries sha expected ''.'' d expected = Inr missing" and p: "names_ok p"
  shows "map_of missing (join_with ''/'' p) = (if file_at d p = None then map_of expected (join_with ''/'' p) else None)"
    "file_at d p = Some v \<Longrightarrow> \<exists>r. map_of expected (join_with ''/'' p) = Some r \<and> file_matches sha r v"
proof -
  have ok: "names_ok q" if "(q, w) \<in> set (all_files d)" for q w
  proof -
    have "file_at d q = Some w" using all_files_lookup(2) [OF wf] that by blast
    then show ?thesis using file_at_names [OF wf] by (simp add: names_ok_def)
  qed
  note found = import_walk(2) [OF walk]
  have "join_with ''/'' p \<in> set (walk_keys ''.'' (all_files d)) \<longleftrightarrow> file_at d p \<noteq> None"
  proof
    assume "join_with ''/'' p \<in> set (walk_keys ''.'' (all_files d))"
    then obtain q w where q: "(q, w) \<in> set (all_files d)" "join_with ''/'' p = foldl walk_path ''.'' q"
      by (auto simp: walk_keys_def)
    then have "q = p" using names_ok_join path_comps_join p ok [OF q(1)] by metis
    then show "file_at d p \<noteq> None" using q(1) all_files_lookup(2) [OF wf] by auto
  next
    assume "file_at d p \<noteq> None"
    then obtain w where "(p, w) \<in> set (all_files d)" using all_files_lookup(2) [OF wf] by blast
    then show "join_with ''/'' p \<in> set (walk_keys ''.'' (all_files d))"
      using names_ok_join [OF p] by (force simp: walk_keys_def)
  qed
  then show "map_of missing (join_with ''/'' p) = (if file_at d p = None then map_of expected (join_with ''/'' p) else None)"
    using found by (simp add: map_of_fold_delete)
  show "\<exists>r. map_of expected (join_with ''/'' p) = Some r \<and> file_matches sha r v" if "file_at d p = Some v"
  proof -
    have "(p, v) \<in> set (all_files d)" using that all_files_lookup(2) [OF wf] by blast
    then show ?thesis using found names_ok_join [OF p] by force
  qed
qed

lemma import_into_files:
  assumes wf: "wf_dir d" and expected: "named_tree expected"
    and hashes: "\<forall>e \<in> set expected. fr_SHA256 (snd e) = sha (fr_Content (snd e))"
    and no_collision: "inj_on sha (fr_Content ` snd ` set expected \<union> {c. \<exists>p x. file_at d p = Some (c, x)})"
    and ok: "snd (import_into sha stop fault expected d) = Inr ()" and p: "names_ok p"
  shows "file_at (fst (import_into sha stop fault expected d)) p = map_option file_of (map_of expected (join_with ''/'' p))"
proof -
  obtain missing where walk: "import_entries sha expected ''.'' d expected = Inr missing"
    using ok by (cases "import_entries sha expected ''.'' d expected") (simp_all add: import_into_def)
  then have ran: "snd (range_loop (import_file stop fault) 0 missing d) = Inr ()"
    and eq: "fst (import_into sha stop fault expected d) = fst (range_loop (import_file stop fault) 0 missing d)"
    using ok by (simp_all add: import_into_def)
  have named: "named_tree missing" using import_walk(2) [OF walk] fold_delete_named [OF expected] by simp
  note files = import_entries_files [OF wf walk p]
  have result: "file_at (fst (import_into sha stop fault expected d)) p =
      (case map_of missing (join_with ''/'' p) of Some f \<Rightarrow> Some (file_of f) | None \<Rightarrow> file_at d p)"
    using import_loop.loop_done [OF _ ran] updates_tree [OF named p] eq by simp
  show ?thesis
  proof (cases "file_at d p")
    case None
    then show ?thesis using result files(1) by (simp split: option.splits)
  next
    case (Some v)
    obtain r where r: "map_of expected (join_with ''/'' p) = Some r" "file_matches sha r v" using files(2) [OF Some] by blast
    have mem: "(join_with ''/'' p, r) \<in> set expected" using map_of_SomeD [OF r(1)] .
    then have "sha (fst v) = sha (fr_Content r)" using r(2) hashes by (force simp: file_matches_def)
    then have "fst v = fr_Content r"
    proof (rule inj_onD [OF no_collision])
      show "fst v \<in> fr_Content ` snd ` set expected \<union> {c. \<exists>p x. file_at d p = Some (c, x)}"
        using Some by (cases v) auto
      show "fr_Content r \<in> fr_Content ` snd ` set expected \<union> {c. \<exists>p x. file_at d p = Some (c, x)}"
        using mem by force
    qed
    then have "v = file_of r" using r(2) by (cases v) (simp add: file_matches_def file_of_def)
    then show ?thesis using result files(1) Some r(1) by simp
  qed
qed

text \<open>
  C33. An import that completes reproduces the pinned source, also after attempts that stopped half
  way: starting from any directory, or none, and with no SHA-256 collision among the files involved, a
  successful \<open>resumeImport\<close> leaves exactly the files of the pinned tree, at every path and with
  their bytes and modes, and no other file. It never overwrites: what it found and could not
  match makes it fail.
\<close>

theorem import_reproduces_source:
  assumes src: "wf_dir src" "readTree sha lim src = Inr expected"
    and target: "n = None \<and> d = [] \<or> n = Some (FsDir d) \<and> wf_dir d"
    and no_collision: "inj_on sha (fr_Content ` snd ` set expected \<union> {c. \<exists>p x. file_at d p = Some (c, x)})"
    and ok: "resumeImport sha stop fault expected n = (n', Inr ())"
  shows "\<exists>d'. n' = Some (FsDir d') \<and> wf_dir d'
    \<and> file_at d' = (\<lambda>p. if names_ok p then map_option file_of (map_of expected (join_with ''/'' p)) else None)"
proof -
  let ?r = "import_into sha stop fault expected d"
  have wf: "wf_dir d" and n': "n' = Some (FsDir (fst ?r))" and finished: "snd ?r = Inr ()"
    using target ok by (auto simp: resumeImport_def map_prod_def split_beta)
  have hashes: "\<forall>e \<in> set expected. fr_SHA256 (snd e) = sha (fr_Content (snd e))"
    using readTree_records [OF src(2)] by blast
  have wf': "wf_dir (fst ?r)"
    using import_loop.loop_inv [OF _ wf] wf by (simp add: import_into_def split: sum.splits)
  have "file_at (fst ?r) p = (if names_ok p then map_option file_of (map_of expected (join_with ''/'' p)) else None)" for p
  proof (cases "names_ok p")
    case True
    then show ?thesis
      using import_into_files [OF wf readTree_named [OF src] hashes no_collision finished] by simp
  next
    case False
    then show ?thesis using file_at_names [OF wf', of p] by (cases "file_at (fst ?r) p") (auto simp: names_ok_def)
  qed
  then show ?thesis using n' wf' by auto
qed

lemma idemo_import:
  "resumeImport tdemo_sha (\<lambda>k. None) (\<lambda>k. None) tdemo_tree None = (Some (FsDir [(''a'', FsFile ''hi'' True)]), Inr ())"
proof -
  have "path_Clean ''a'' = ''a''" using pdemo_safe by (simp add: safePath_def split: if_splits)
  then show ?thesis
    by (simp add: resumeImport_def import_into_def import_file_def copyTree_def copy_file_def tdemo_tree_def
        pdemo_path pdemo_safe)
qed

theorem import_reproduces_source_witness:
  "\<exists>d'. resumeImport tdemo_sha (\<lambda>k. None) (\<lambda>k. None) tdemo_tree None = (Some (FsDir d'), Inr ())
     \<and> wf_dir d' \<and> file_at d' [''a''] = Some (''hi'', True)"
proof -
  have "inj_on tdemo_sha (fr_Content ` snd ` set tdemo_tree \<union> {c. \<exists>p x. file_at [] p = Some (c, x)})"
    by (simp add: tdemo_tree_def)
  from import_reproduces_source [OF pdemo_dir_wf tdemo_read _ this idemo_import]
  obtain d' where "d' = [(''a'', FsFile ''hi'' True)]" "wf_dir d'"
      "file_at d' [''a''] = map_option file_of (map_of tdemo_tree (join_with ''/'' [''a'']))"
    by (auto simp: names_ok_def file_name_def)
  then show ?thesis using idemo_import by (auto simp: tdemo_tree_def file_of_def)
qed

end
