(* ===== verification/Runner_Logs.thy ===== *)
theory Runner_Logs
  imports Runner_Types Runner_Tree
begin

section \<open>Captured output (internal/runner/log_capture.go)\<close>

text \<open>
  The output of a sandboxed process is spooled into one file per operation as framed records and
  closed by a metadata file. A capture is modelled with the bytes its spool has; \<open>io\<close> says which
  write of a record fails, with what error and after how many bytes. \<open>wire\<close> is \<open>json.Marshal\<close> of an
  operation request, \<open>enc\<close> and \<open>dec\<close> are the JSON codec of \<open>captureMetadata\<close>. Opening the log
  directory component by component is not modelled. Policies are normalized, so an entry has room
  for a header and a payload.
\<close>

subsection \<open>Fixed-width integers and the checksum\<close>

definition be_bytes :: "nat \<Rightarrow> nat \<Rightarrow> bytes" where
  "be_bytes k v = map (\<lambda>i. char_of (v div 256 ^ (k - 1 - i) mod 256)) [0..<k]"

definition be_value :: "bytes \<Rightarrow> nat" where
  "be_value bs = foldl (\<lambda>a c. a * 256 + of_char c) 0 bs"

text \<open>\<open>crc32.ChecksumIEEE\<close>, one bit at a time.\<close>

definition crc_bit :: "32 word \<Rightarrow> 32 word" where
  "crc_bit c = (if odd (unat c) then xor (drop_bit 1 c) 0xEDB88320 else drop_bit 1 c)"

definition crc_byte :: "32 word \<Rightarrow> char \<Rightarrow> 32 word" where
  "crc_byte c b = (crc_bit ^^ 8) (xor c (of_char b))"

definition ChecksumIEEE :: "bytes \<Rightarrow> 32 word" where
  "ChecksumIEEE bs = not (foldl crc_byte (- 1) bs)"

subsection \<open>Records\<close>

definition logHeaderBytes :: int where "logHeaderBytes = 32"

definition log_header :: "nat \<Rightarrow> u64 \<Rightarrow> bytes \<Rightarrow> bytes" where
  "log_header stream records payload =
     ''FLG1'' @ [char_of stream] @ replicate 3 (CHR 0x00) @ be_bytes 8 (unat records)
     @ be_bytes 4 (length payload) @ be_bytes 4 (unat (ChecksumIEEE payload)) @ replicate 8 (CHR 0x00)"

definition log_frame :: "nat \<Rightarrow> u64 \<Rightarrow> bytes \<Rightarrow> bytes" where
  "log_frame stream records payload = log_header stream records payload @ payload"

subsection \<open>Captures\<close>

record log_capture =
  lc_Spool :: bytes
  lc_Summary :: log_summary
  lc_Preview :: bytes
  lc_Failed :: "rerr option"
  lc_Finished :: bool

record capture_metadata =
  cm_Summary :: log_summary
  cm_DataHash :: string
  cm_Preview :: bytes

definition ErrLogLimit :: rerr where "ErrLogLimit = ROther ''operation_log_limit''"
definition ErrCaptureGap :: rerr where "ErrCaptureGap = ROther ''log_capture_incomplete''"
definition ErrClosedPipe :: rerr where "ErrClosedPipe = ROther ''io: read/write on closed pipe''"

definition logBinding :: "(bytes \<Rightarrow> string) \<Rightarrow> (operation_request \<Rightarrow> bytes) \<Rightarrow> operation \<Rightarrow> string" where
  "logBinding sha wire x = sha (wire (without_grant (op_Request x)))"

definition new_summary :: "string \<Rightarrow> string \<Rightarrow> log_policy \<Rightarrow> log_summary" where
  "new_summary oid binding p = \<lparr>lg_SchemaVersion = 1, lg_Policy = p, lg_OperationID = oid,
     lg_BindingHash = binding, lg_StdoutSeen = 0, lg_StderrSeen = 0, lg_RetainedBytes = 0,
     lg_RetainedPayload = 0, lg_Records = 0, lg_Complete = False, lg_DroppedKnown = False,
     lg_DroppedBytes = 0, lg_Truncated = False, lg_Reason = [], lg_TerminationRequested = False,
     lg_TerminationObserved = False, lg_Artifact = zero_ref\<rparr>"

text \<open>The spool file is created exclusively: an existing one is an error.\<close>

definition newLogCapture :: "(bytes \<Rightarrow> string) \<Rightarrow> (operation_request \<Rightarrow> bytes) \<Rightarrow> bytes option \<Rightarrow> operation
    \<Rightarrow> log_policy \<Rightarrow> rerr + log_capture" where
  "newLogCapture sha wire spool x p =
     (if \<not> valid_id (op_ID x) then Inl (sentinel ErrInvalid)
      else if spool \<noteq> None then Inl (ROther ''openat: file exists'')
      else Inr \<lparr>lc_Spool = [], lc_Summary = new_summary (op_ID x) (logBinding sha wire x) p,
                lc_Preview = [], lc_Failed = None, lc_Finished = False\<rparr>)"

definition saturatingAdd :: "u64 \<Rightarrow> nat \<Rightarrow> u64" where
  "saturatingAdd v n = (if unat (- 1 - v) < n then - 1 else v + of_nat n)"

definition saturatedTotal :: "u64 \<Rightarrow> u64 \<Rightarrow> u64" where
  "saturatedTotal a b = (if - 1 - a < b then - 1 else a + b)"

definition see :: "nat \<Rightarrow> nat \<Rightarrow> log_summary \<Rightarrow> log_summary" where
  "see stream n s = (if stream = 1 then s\<lparr>lg_StdoutSeen := saturatingAdd (lg_StdoutSeen s) n\<rparr>
     else s\<lparr>lg_StderrSeen := saturatingAdd (lg_StderrSeen s) n\<rparr>)"

definition fail_capture :: "rerr \<Rightarrow> string \<Rightarrow> log_capture \<Rightarrow> log_capture" where
  "fail_capture err reason c = c\<lparr>lc_Failed := Some err,
     lc_Summary := (lc_Summary c)\<lparr>lg_Truncated := True, lg_Reason := reason\<rparr>\<rparr>"

definition room :: "log_capture \<Rightarrow> int" where
  "room c = lp_OperationBytes (lg_Policy (lc_Summary c)) - lg_RetainedBytes (lc_Summary c) - logHeaderBytes"

definition chunk_size :: "log_capture \<Rightarrow> bytes \<Rightarrow> nat" where
  "chunk_size c data = nat (min (int (length data))
     (min (lp_EntryBytes (lg_Policy (lc_Summary c)) - logHeaderBytes) (room c)))"

definition append_frame :: "nat \<Rightarrow> bytes \<Rightarrow> log_capture \<Rightarrow> log_capture" where
  "append_frame stream payload c =
     (let s = lc_Summary c; frame = log_frame stream (lg_Records s) payload
      in c\<lparr>lc_Spool := lc_Spool c @ frame,
           lc_Summary := s\<lparr>lg_RetainedBytes := lg_RetainedBytes s + int (length frame),
             lg_RetainedPayload := lg_RetainedPayload s + int (length payload),
             lg_Records := lg_Records s + 1\<rparr>,
           lc_Preview := lc_Preview c
             @ take (nat (lp_PreviewBytes (lg_Policy s) - int (length (lc_Preview c)))) payload\<rparr>)"

lemma length_log_frame [simp]: "length (log_frame stream r p) = 32 + length p"
  by (simp add: log_frame_def log_header_def be_bytes_def)

lemma room_append [simp]: "room (append_frame stream p c) = room c - 32 - int (length p)"
  by (simp add: room_def append_frame_def Let_def)

text \<open>The loop of \<open>Write\<close>; every turn takes at least a header of the room that is left.\<close>

function write_loop :: "(u64 \<Rightarrow> (rerr \<times> nat) option) \<Rightarrow> nat \<Rightarrow> bytes \<Rightarrow> log_capture \<Rightarrow> log_capture \<times> (rerr + unit)" where
  "write_loop io stream data c =
     (if data = [] then (c, Inr ())
      else if room c \<le> 0 then (fail_capture ErrLogLimit ''output_limit'' c, Inl ErrLogLimit)
      else
        (let n = chunk_size c data
         in case io (lg_Records (lc_Summary c)) of
             Some (err, k) \<Rightarrow>
               (fail_capture err ''spool_io_error'' (c\<lparr>lc_Spool := lc_Spool c
                  @ take k (log_frame stream (lg_Records (lc_Summary c)) (take n data))\<rparr>), Inl err)
           | None \<Rightarrow> write_loop io stream (drop n data) (append_frame stream (take n data) c)))"
  by pat_completeness auto
termination
  by (relation "measure (\<lambda>(io, stream, data, c). nat (room c))") auto

definition LogCapture_Write :: "(u64 \<Rightarrow> (rerr \<times> nat) option) \<Rightarrow> nat \<Rightarrow> bytes \<Rightarrow> log_capture
    \<Rightarrow> log_capture \<times> (rerr + unit)" where
  "LogCapture_Write io stream data c =
     (if lc_Finished c then (c, Inl ErrClosedPipe)
      else if stream \<noteq> 1 \<and> stream \<noteq> 2 then (c, Inl (sentinel ErrInvalid))
      else let c' = c\<lparr>lc_Summary := see stream (length data) (lc_Summary c)\<rparr>
           in case lc_Failed c of Some err \<Rightarrow> (c', Inl err) | None \<Rightarrow> write_loop io stream data c')"

text \<open>
  \<open>Finish\<close>: \<open>closing\<close> is the error of syncing or closing the spool, with its reason. The result is
  the capture and the metadata file, when it was written.
\<close>

definition dropped :: "log_summary \<Rightarrow> u64" where
  "dropped s = saturatedTotal (lg_StdoutSeen s) (lg_StderrSeen s) - of_int (lg_RetainedPayload s)"

definition finish_summary :: "bool \<Rightarrow> string \<Rightarrow> bool \<Rightarrow> bool \<Rightarrow> log_summary \<Rightarrow> log_summary" where
  "finish_summary complete reason requested observed s =
     (let r = (if lg_Reason s = [] then reason else lg_Reason s)
      in s\<lparr>lg_Complete := complete, lg_DroppedKnown := complete,
           lg_DroppedBytes := (if complete
              \<and> of_int (lg_RetainedPayload s) \<le> saturatedTotal (lg_StdoutSeen s) (lg_StderrSeen s)
             then dropped s else lg_DroppedBytes s),
           lg_TerminationRequested := requested, lg_TerminationObserved := observed,
           lg_Truncated := lg_Truncated s \<or> \<not> complete,
           lg_Reason := (if \<not> complete \<and> r = [] then ''capture_gap'' else r)\<rparr>)"

definition LogCapture_Finish :: "(bytes \<Rightarrow> string) \<Rightarrow> (capture_metadata \<Rightarrow> bytes) \<Rightarrow> (rerr \<times> string) option
    \<Rightarrow> rerr option \<Rightarrow> bool \<Rightarrow> string \<Rightarrow> bool \<Rightarrow> bool \<Rightarrow> bytes option \<Rightarrow> log_capture
    \<Rightarrow> log_capture \<times> bytes option \<times> (rerr + unit)" where
  "LogCapture_Finish sha enc closing io complete reason requested observed meta c =
     (if lc_Finished c then (c, meta, case lc_Failed c of Some err \<Rightarrow> Inl err | None \<Rightarrow> Inr ())
      else
        (let s = (case closing of
               Some (err, why) \<Rightarrow> finish_summary False why requested observed (lc_Summary c)
             | None \<Rightarrow> finish_summary complete reason requested observed (lc_Summary c));
             c' = c\<lparr>lc_Finished := True, lc_Summary := s,
                    lc_Failed := (case closing of Some (err, why) \<Rightarrow> Some err | None \<Rightarrow> lc_Failed c)\<rparr>
         in if lp_OperationBytes (lg_Policy s) < int (length (lc_Spool c)) then (c', meta, Inl (sentinel ErrInvalid))
            else case io of
                Some err \<Rightarrow> (c', meta, Inl err)
              | None \<Rightarrow> (c', Some (enc \<lparr>cm_Summary = s, cm_DataHash = sha (lc_Spool c), cm_Preview = lc_Preview c\<rparr>),
                         Inr ())))"

subsection \<open>Reading a capture back\<close>

definition frame_ok :: "log_policy \<Rightarrow> u64 \<Rightarrow> bytes \<Rightarrow> bool" where
  "frame_ok p records data \<longleftrightarrow>
     (let n = be_value (take 4 (drop 16 data))
      in 32 \<le> length data \<and> take 4 data = ''FLG1''
         \<and> (data ! 4 = char_of (1 :: nat) \<or> data ! 4 = char_of (2 :: nat))
         \<and> take 3 (drop 5 data) = replicate 3 (CHR 0x00) \<and> take 8 (drop 24 data) = replicate 8 (CHR 0x00)
         \<and> be_value (take 8 (drop 8 data)) = unat records \<and> 1 \<le> n
         \<and> int n \<le> lp_EntryBytes p - logHeaderBytes \<and> n \<le> length data - 32
         \<and> unat (ChecksumIEEE (take n (drop 32 data))) = be_value (take 4 (drop 20 data)))"

record log_scan =
  sc_Summary :: log_summary
  sc_Prefix :: bytes
  sc_Preview :: bytes

definition scan_frame :: "log_policy \<Rightarrow> bytes \<Rightarrow> log_scan \<Rightarrow> log_scan" where
  "scan_frame p data st =
     (let n = be_value (take 4 (drop 16 data)); payload = take n (drop 32 data);
          s = see (if data ! 4 = char_of (1 :: nat) then 1 else 2) n (sc_Summary st)
      in st\<lparr>sc_Summary := s\<lparr>lg_Records := lg_Records s + 1,
              lg_RetainedPayload := lg_RetainedPayload s + int n,
              lg_RetainedBytes := lg_RetainedBytes s + logHeaderBytes + int n\<rparr>,
            sc_Preview := sc_Preview st @ take (nat (lp_PreviewBytes p - int (length (sc_Preview st)))) payload,
            sc_Prefix := sc_Prefix st @ take (32 + n) data\<rparr>)"

function scan_frames :: "log_policy \<Rightarrow> bytes \<Rightarrow> log_scan \<Rightarrow> log_scan" where
  "scan_frames p data st =
     (if data \<noteq> [] \<and> frame_ok p (lg_Records (sc_Summary st)) data
      then scan_frames p (drop (32 + be_value (take 4 (drop 16 data))) data) (scan_frame p data st)
      else st)"
  by pat_completeness auto
termination
  by (relation "measure (\<lambda>(p, data, st). length data)") (auto simp: frame_ok_def Let_def)

declare write_loop.simps [simp del] scan_frames.simps [simp del]

definition known_reason :: "string \<Rightarrow> bool" where
  "known_reason r \<longleftrightarrow> r \<in> {'''', ''output_limit'', ''spool_io_error'', ''spool_sync_error'', ''spool_close_error'',
     ''capture_gap'', ''runner_shutdown'', ''capture_drain_timeout''}"

definition validLogMetadata :: "log_summary \<Rightarrow> log_summary \<Rightarrow> bool" where
  "validLogMetadata m prefix \<longleftrightarrow>
     (if lg_StdoutSeen m < lg_StdoutSeen prefix \<or> lg_StderrSeen m < lg_StderrSeen prefix
        \<or> ar_ObjectKey (lg_Artifact m) \<noteq> [] then False
      else if lg_TerminationObserved m \<and> \<not> lg_TerminationRequested m then False
      else if \<not> known_reason (lg_Reason m) then False
      else if lg_Complete m \<noteq> lg_DroppedKnown m then False
      else if \<not> lg_Complete m then lg_Truncated m \<and> lg_Reason m \<noteq> [] \<and> lg_DroppedBytes m = 0
      else if dropped m \<noteq> lg_DroppedBytes m then False
      else if lg_Reason m = [] then dropped m = 0 \<and> \<not> lg_Truncated m \<and> \<not> lg_TerminationRequested m
      else lg_Truncated m)"

definition gap_summary :: "string \<Rightarrow> string \<Rightarrow> log_policy \<Rightarrow> log_summary" where
  "gap_summary oid binding p = (new_summary oid binding p)\<lparr>lg_Reason := ''capture_gap'', lg_Truncated := True\<rparr>"

definition meta_matches :: "(bytes \<Rightarrow> string) \<Rightarrow> string \<Rightarrow> string \<Rightarrow> log_policy \<Rightarrow> bytes \<Rightarrow> log_scan
    \<Rightarrow> capture_metadata \<Rightarrow> bool" where
  "meta_matches sha oid binding p data st m \<longleftrightarrow>
     lg_OperationID (cm_Summary m) = oid \<and> lg_BindingHash (cm_Summary m) = binding
     \<and> lg_Policy (cm_Summary m) = p \<and> lg_SchemaVersion (cm_Summary m) = 1 \<and> cm_DataHash m = sha data
     \<and> length (sc_Prefix st) = length data \<and> cm_Preview m = sc_Preview st
     \<and> lg_Records (cm_Summary m) = lg_Records (sc_Summary st)
     \<and> lg_RetainedBytes (cm_Summary m) = lg_RetainedBytes (sc_Summary st)
     \<and> lg_RetainedPayload (cm_Summary m) = lg_RetainedPayload (sc_Summary st)
     \<and> validLogMetadata (cm_Summary m) (sc_Summary st)"

text \<open>The arguments \<open>spool\<close> and \<open>meta\<close> are the two files, when they exist.\<close>

definition readLogCapture :: "(bytes \<Rightarrow> string) \<Rightarrow> (operation_request \<Rightarrow> bytes) \<Rightarrow> (bytes \<Rightarrow> capture_metadata option)
    \<Rightarrow> bytes option \<Rightarrow> bytes option \<Rightarrow> operation \<Rightarrow> log_policy \<Rightarrow> rerr + (log_summary \<times> bytes \<times> bytes)" where
  "readLogCapture sha wire dec spool meta x p =
     (let binding = logBinding sha wire x; start = gap_summary (op_ID x) binding p
      in case spool of
          None \<Rightarrow> Inr (start, [], [])
        | Some data \<Rightarrow>
            if lp_OperationBytes p < int (length data) then Inl (sentinel ErrInvalid)
            else
              (let st = scan_frames p data \<lparr>sc_Summary = start, sc_Prefix = [], sc_Preview = []\<rparr>
               in case meta of
                   None \<Rightarrow> Inr (sc_Summary st, sc_Prefix st, sc_Preview st)
                 | Some raw \<Rightarrow>
                     if 131072 < length raw then Inl (sentinel ErrInvalid)
                     else (case dec raw of
                         None \<Rightarrow> Inl (sentinel ErrReconciliation)
                       | Some m \<Rightarrow>
                           if meta_matches sha (op_ID x) binding p data st m
                           then Inr (cm_Summary m, sc_Prefix st, sc_Preview st)
                           else Inl (sentinel ErrReconciliation))))"

end
