(* ===== verification/Runner_Spool.thy ===== *)
theory Runner_Spool
  imports Runner_Logs "HOL-Library.Sublist"
begin

section \<open>Spooled output reads back\<close>

text \<open>
  A capture whose writes and \<open>Finish\<close> went through is read back unchanged: the frames are a
  prefix code, and the metadata \<open>Finish\<close> writes is metadata \<open>readLogCapture\<close> accepts.
\<close>

subsection \<open>Integers\<close>

lemma be_value_append: "be_value (xs @ [c]) = be_value xs * 256 + of_char c"
  by (simp add: be_value_def)

lemma be_bytes_Suc: "be_bytes (Suc k) v = be_bytes k (v div 256) @ [char_of (v mod 256)]"
proof -
  have "v div 256 ^ (k - i) = v div 256 div 256 ^ (k - 1 - i)" if less: "i < k" for i
  proof -
    obtain j where "k - i = Suc j" "k - 1 - i = j" using less by (cases "k - i") auto
    then show ?thesis by (simp add: div_mult2_eq)
  qed
  then have "map (\<lambda>i. char_of (v div 256 ^ (k - i) mod 256)) [0..<k] = (be_bytes k (v div 256) :: string)"
    by (simp add: be_bytes_def)
  then show ?thesis by (simp add: be_bytes_def)
qed

lemma be_value_be_bytes: "v < 256 ^ k \<Longrightarrow> be_value (be_bytes k v) = v"
proof (induction k arbitrary: v)
  case 0
  then show ?case by (simp add: be_bytes_def be_value_def)
next
  case (Suc k)
  have "v div 256 < 256 ^ k" using Suc.prems by (simp add: less_mult_imp_div_less mult.commute)
  then have "be_value (be_bytes k (v div 256)) = v div 256" by (rule Suc.IH)
  then show ?case by (simp add: be_bytes_Suc be_value_append)
qed

lemma length_be_bytes [simp]: "length (be_bytes k v) = k"
  by (simp add: be_bytes_def)

abbreviation max_seen :: nat where "max_seen \<equiv> 2 ^ 64 - 1"

lemma unat_minus_one: "unat (- 1 :: u64) = max_seen"
  using unat_max_uint64 by (simp add: max_uint64_def)

lemma unat_bound: "unat (w :: 'a :: len word) < 2 ^ LENGTH('a)"
  by (rule unsigned_less)

lemma unat_complement: "unat (- 1 - v :: u64) = max_seen - unat v"
proof -
  have "v \<le> - 1" by (rule word_order.extremum)
  then have "unat (- 1 - v) = unat (- 1 :: u64) - unat v" by (rule unat_sub)
  then show ?thesis by (simp add: unat_minus_one)
qed

lemma unat_saturatingAdd: "unat (saturatingAdd v n) = min max_seen (unat v + n)"
proof (cases "unat (- 1 - v) < n")
  case True
  then show ?thesis using unat_complement [of v] unat_bound [of v] by (simp add: saturatingAdd_def unat_minus_one)
next
  case False
  then have n: "unat v + n \<le> max_seen" using unat_complement [of v] unat_bound [of v] by simp
  then have "unat (of_nat n :: u64) = n" by (simp add: unsigned_of_nat take_bit_nat_eq_self)
  then have "unat (v + of_nat n) = unat v + n" using n by (simp add: unat_word_ariths)
  then show ?thesis using False n by (simp add: saturatingAdd_def)
qed

lemma unat_saturatedTotal: "unat (saturatedTotal a b) = min max_seen (unat a + unat b)"
proof -
  have "saturatedTotal a b = saturatingAdd a (unat b)"
    by (simp add: saturatedTotal_def saturatingAdd_def word_less_nat_alt)
  then show ?thesis by (simp add: unat_saturatingAdd)
qed

subsection \<open>Frames\<close>

fun encode_frames :: "u64 \<Rightarrow> (nat \<times> bytes) list \<Rightarrow> bytes" where
  "encode_frames r [] = []"
| "encode_frames r (f # fs) = log_frame (fst f) r (snd f) @ encode_frames (r + 1) fs"

definition good_frame :: "log_policy \<Rightarrow> nat \<times> bytes \<Rightarrow> bool" where
  "good_frame p f \<longleftrightarrow> (fst f = 1 \<or> fst f = 2) \<and> snd f \<noteq> [] \<and> int (length (snd f)) \<le> lp_EntryBytes p - 32"

lemma encode_frames_snoc:
  "encode_frames r (fs @ [f]) = encode_frames r fs @ log_frame (fst f) (r + of_nat (length fs)) (snd f)"
  by (induction fs arbitrary: r) (simp_all add: add.assoc)

lemma frame_parts:
  assumes "length p < 2 ^ 32"
  shows "be_value (take 4 (drop 16 (log_frame s r p @ rest))) = length p"
    "be_value (take 8 (drop 8 (log_frame s r p @ rest))) = unat r"
    "be_value (take 4 (drop 20 (log_frame s r p @ rest))) = unat (ChecksumIEEE p)"
    "take 4 (log_frame s r p @ rest) = ''FLG1''" "(log_frame s r p @ rest) ! 4 = char_of s"
    "take 3 (drop 5 (log_frame s r p @ rest)) = replicate 3 (CHR 0x00)"
    "take 8 (drop 24 (log_frame s r p @ rest)) = replicate 8 (CHR 0x00)"
    "take (length p) (drop 32 (log_frame s r p @ rest)) = p"
proof -
  have v: "be_value (be_bytes 4 (length p)) = length p" "be_value (be_bytes 8 (unat r)) = unat r"
    "be_value (be_bytes 4 (unat (ChecksumIEEE p))) = unat (ChecksumIEEE p)"
    using assms unat_bound [of r] unat_bound [of "ChecksumIEEE p"] by (simp_all add: be_value_be_bytes)
  note shape = log_frame_def log_header_def take_append drop_append
  show "be_value (take 4 (drop 16 (log_frame s r p @ rest))) = length p"
    "be_value (take 8 (drop 8 (log_frame s r p @ rest))) = unat r"
    "be_value (take 4 (drop 20 (log_frame s r p @ rest))) = unat (ChecksumIEEE p)"
    "take 4 (log_frame s r p @ rest) = ''FLG1''" "(log_frame s r p @ rest) ! 4 = char_of s"
    "take 3 (drop 5 (log_frame s r p @ rest)) = replicate 3 (CHR 0x00)"
    "take 8 (drop 24 (log_frame s r p @ rest)) = replicate 8 (CHR 0x00)"
    "take (length p) (drop 32 (log_frame s r p @ rest)) = p"
    using v by (simp_all add: shape numeral_nat)
qed

lemma policy_sizes:
  assumes "log_policy_ok p" "good_frame p f"
  shows "length (snd f) < 2 ^ 32" "1 \<le> length (snd f)"
proof -
  have "int (length (snd f)) \<le> 16384" using assms by (auto simp: good_frame_def log_policy_ok_def)
  then show "length (snd f) < 2 ^ 32" by simp
  show "1 \<le> length (snd f)" using assms(2) by (cases "snd f") (auto simp: good_frame_def)
qed

definition scan_one :: "log_policy \<Rightarrow> log_scan \<Rightarrow> nat \<times> bytes \<Rightarrow> log_scan" where
  "scan_one p st f = scan_frame p (log_frame (fst f) (lg_Records (sc_Summary st)) (snd f)) st"

lemma log_frame_nonempty [simp]: "log_frame s r p \<noteq> []"
  using length_log_frame [of s r p] by (metis list.size(3) add_eq_0_iff_both_eq_0 zero_neq_numeral)

lemma scan_frame_append:
  assumes "log_policy_ok p" "good_frame p f"
  shows "scan_frame p (log_frame (fst f) r (snd f) @ rest) st = scan_frame p (log_frame (fst f) r (snd f)) st"
    "frame_ok p r (log_frame (fst f) r (snd f) @ rest)"
proof -
  note parts = frame_parts [OF policy_sizes(1) [OF assms], of "fst f" r]
  have "take (32 + length (snd f)) (log_frame (fst f) r (snd f) @ rest) = log_frame (fst f) r (snd f)" by simp
  then show "scan_frame p (log_frame (fst f) r (snd f) @ rest) st = scan_frame p (log_frame (fst f) r (snd f)) st"
    using parts parts [of "[]"] by (simp add: scan_frame_def Let_def)
  show "frame_ok p r (log_frame (fst f) r (snd f) @ rest)"
    using parts assms(2) policy_sizes [OF assms] by (auto simp: frame_ok_def Let_def logHeaderBytes_def good_frame_def)
qed

lemma scan_one_summary:
  assumes "log_policy_ok p" "good_frame p f"
  shows "sc_Summary (scan_one p st f) = (see (fst f) (length (snd f)) (sc_Summary st))
      \<lparr>lg_Records := lg_Records (sc_Summary st) + 1,
       lg_RetainedPayload := lg_RetainedPayload (sc_Summary st) + int (length (snd f)),
       lg_RetainedBytes := lg_RetainedBytes (sc_Summary st) + 32 + int (length (snd f))\<rparr>"
    "sc_Prefix (scan_one p st f) = sc_Prefix st @ log_frame (fst f) (lg_Records (sc_Summary st)) (snd f)"
    "sc_Preview (scan_one p st f) = sc_Preview st @ take (nat (lp_PreviewBytes p - int (length (sc_Preview st)))) (snd f)"
proof -
  note parts = frame_parts [OF policy_sizes(1) [OF assms], of "fst f" "lg_Records (sc_Summary st)" "[]", simplified]
  have s12: "fst f = 1 \<or> fst f = 2" using assms(2) by (simp add: good_frame_def)
  note d = scan_one_def scan_frame_def Let_def parts logHeaderBytes_def
  show "sc_Summary (scan_one p st f) = (see (fst f) (length (snd f)) (sc_Summary st))
      \<lparr>lg_Records := lg_Records (sc_Summary st) + 1,
       lg_RetainedPayload := lg_RetainedPayload (sc_Summary st) + int (length (snd f)),
       lg_RetainedBytes := lg_RetainedBytes (sc_Summary st) + 32 + int (length (snd f))\<rparr>"
    unfolding d using s12 by (elim disjE) (simp_all add: see_def)
  show "sc_Prefix (scan_one p st f) = sc_Prefix st @ log_frame (fst f) (lg_Records (sc_Summary st)) (snd f)"
    unfolding d by simp
  show "sc_Preview (scan_one p st f) = sc_Preview st @ take (nat (lp_PreviewBytes p - int (length (sc_Preview st)))) (snd f)"
    unfolding d by simp
qed

text \<open>Reading frames back, whatever follows them.\<close>

lemma scan_encoded:
  assumes "log_policy_ok p" "list_all (good_frame p) fs"
  shows "scan_frames p (encode_frames (lg_Records (sc_Summary st)) fs @ rest) st
    = scan_frames p rest (foldl (scan_one p) st fs)"
  using assms(2)
proof (induction fs arbitrary: st)
  case (Cons f fs)
  let ?r = "lg_Records (sc_Summary st)" and ?tail = "encode_frames (lg_Records (sc_Summary st) + 1) fs @ rest"
  have good: "good_frame p f" using Cons.prems by simp
  have next_r: "lg_Records (sc_Summary (scan_one p st f)) = ?r + 1"
    using scan_one_summary(1) [OF assms(1) good] by simp
  have "scan_frames p (log_frame (fst f) ?r (snd f) @ ?tail) st = scan_frames p ?tail (scan_one p st f)"
    using scan_frame_append [OF assms(1) good, of ?r ?tail] frame_parts(1) [OF policy_sizes(1) [OF assms(1) good]]
    by (subst scan_frames.simps) (simp add: scan_one_def)
  then show ?case using Cons.IH [of "scan_one p st f"] Cons.prems by (simp add: next_r)
qed simp

subsection \<open>What a capture has written\<close>

definition stream_bytes :: "nat \<Rightarrow> (nat \<times> bytes) list \<Rightarrow> nat" where
  "stream_bytes s fs = sum_list (map (\<lambda>f. if fst f = s then length (snd f) else 0) fs)"

definition payload :: "(nat \<times> bytes) list \<Rightarrow> bytes" where
  "payload fs = concat (map snd fs)"

lemma stream_bytes_snoc [simp]:
  "stream_bytes s (fs @ [f]) = stream_bytes s fs + (if fst f = s then length (snd f) else 0)"
  by (simp add: stream_bytes_def)

lemma payload_snoc [simp]: "payload (fs @ [f]) = payload fs @ snd f"
  by (simp add: payload_def)

lemma stream_total: "list_all (good_frame p) fs \<Longrightarrow> stream_bytes 1 fs + stream_bytes 2 fs = length (payload fs)"
  by (induction fs) (auto simp: stream_bytes_def payload_def good_frame_def)

lemma length_encode_frames: "length (encode_frames r fs) = 32 * length fs + length (payload fs)"
  by (induction fs arbitrary: r) (simp_all add: payload_def)

text \<open>
  The frames \<open>fs\<close> written so far out of the output \<open>out\<close>, a list of chunks with their streams; \<open>torn\<close>
  is what a failed write left after the last frame.
\<close>

record spool_view =
  sv_frames :: "(nat \<times> bytes) list"
  sv_torn :: bytes

definition open_summary :: "log_policy \<Rightarrow> string \<Rightarrow> string \<Rightarrow> log_summary \<Rightarrow> bool" where
  "open_summary p oid binding s \<longleftrightarrow> lg_SchemaVersion s = 1 \<and> lg_Policy s = p \<and> lg_OperationID s = oid
     \<and> lg_BindingHash s = binding \<and> \<not> lg_Complete s \<and> \<not> lg_DroppedKnown s \<and> lg_DroppedBytes s = 0
     \<and> \<not> lg_TerminationRequested s \<and> \<not> lg_TerminationObserved s \<and> lg_Artifact s = zero_ref"

definition capture_base :: "log_policy \<Rightarrow> string \<Rightarrow> string \<Rightarrow> (nat \<times> bytes) list \<Rightarrow> spool_view \<Rightarrow> log_capture \<Rightarrow> bool" where
  "capture_base p oid binding out v c \<longleftrightarrow>
     (let s = lc_Summary c; fs = sv_frames v
      in list_all (good_frame p) fs \<and> lc_Spool c = encode_frames 0 fs @ sv_torn v \<and> open_summary p oid binding s
         \<and> lg_RetainedBytes s = int (length (encode_frames 0 fs)) \<and> lg_RetainedPayload s = int (length (payload fs))
         \<and> lg_Records s = of_nat (length fs) \<and> lg_Truncated s = (lc_Failed c \<noteq> None) \<and> \<not> lc_Finished c
         \<and> lc_Preview c = take (nat (lp_PreviewBytes p)) (payload fs)
         \<and> unat (lg_StdoutSeen s) = min max_seen (stream_bytes 1 out)
         \<and> unat (lg_StderrSeen s) = min max_seen (stream_bytes 2 out)
         \<and> int (length (encode_frames 0 fs)) \<le> lp_OperationBytes p)"

text \<open>While the loop of \<open>Write\<close> runs: the frames and the rest \<open>data\<close> make up the output.\<close>

definition frames_pending :: "nat \<Rightarrow> bytes \<Rightarrow> (nat \<times> bytes) list \<Rightarrow> (nat \<times> bytes) list \<Rightarrow> bool" where
  "frames_pending stream data fs out \<longleftrightarrow> payload fs @ data = payload out
     \<and> (\<forall>s. stream_bytes s fs + (if s = stream then length data else 0) = stream_bytes s out)"

definition capture_mid :: "log_policy \<Rightarrow> string \<Rightarrow> string \<Rightarrow> (nat \<times> bytes) list \<Rightarrow> nat \<Rightarrow> bytes \<Rightarrow> spool_view
    \<Rightarrow> log_capture \<Rightarrow> bool" where
  "capture_mid p oid binding out stream data v c \<longleftrightarrow> capture_base p oid binding out v c \<and> lc_Failed c = None
     \<and> sv_torn v = [] \<and> lg_Reason (lc_Summary c) = [] \<and> frames_pending stream data (sv_frames v) out"

definition capture_failed :: "log_policy \<Rightarrow> string \<Rightarrow> string \<Rightarrow> (nat \<times> bytes) list \<Rightarrow> spool_view \<Rightarrow> log_capture \<Rightarrow> bool" where
  "capture_failed p oid binding out v c \<longleftrightarrow> capture_base p oid binding out v c \<and> lc_Failed c \<noteq> None
     \<and> (lg_Reason (lc_Summary c) = ''output_limit'' \<and> sv_torn v = [] \<or> lg_Reason (lc_Summary c) = ''spool_io_error'')
     \<and> prefix (payload (sv_frames v)) (payload out)
     \<and> (\<forall>s. stream_bytes s (sv_frames v) \<le> stream_bytes s out)"

definition capture_inv :: "log_policy \<Rightarrow> string \<Rightarrow> string \<Rightarrow> (nat \<times> bytes) list \<Rightarrow> spool_view \<Rightarrow> log_capture \<Rightarrow> bool" where
  "capture_inv p oid binding out v c \<longleftrightarrow> capture_mid p oid binding out 1 [] v c \<or> capture_failed p oid binding out v c"

lemma preview_append:
  "take (nat n) xs @ take (nat (n - int (length (take (nat n) xs)))) d = take (nat n) (xs @ d)"
  by (cases "nat n \<le> length xs") (auto simp: nat_diff_distrib')

lemma frames_pending_Nil [simp]:
  "frames_pending stream [] fs out \<longleftrightarrow> payload fs = payload out \<and> (\<forall>s. stream_bytes s fs = stream_bytes s out)"
  by (simp add: frames_pending_def cong: if_cong)

lemma base_append:
  assumes base: "capture_base p oid binding out v c" "sv_torn v = []" "lc_Failed c = None"
    and good: "good_frame p (stream, d)" and fits: "int (length d) \<le> room c"
  shows "capture_base p oid binding out (v\<lparr>sv_frames := sv_frames v @ [(stream, d)]\<rparr>) (append_frame stream d c)"
proof -
  have "lg_Policy (lc_Summary c) = p" using base(1) by (simp add: capture_base_def open_summary_def Let_def)
  then show ?thesis using assms preview_append [of "lp_PreviewBytes p" "payload (sv_frames v)" d]
    by (simp add: capture_base_def open_summary_def append_frame_def Let_def encode_frames_snoc room_def logHeaderBytes_def)
qed

lemma base_failed:
  assumes "capture_base p oid binding out v c" "sv_torn v = []" "lc_Failed c = None"
  shows "capture_base p oid binding out (v\<lparr>sv_torn := t\<rparr>) (fail_capture err why (c\<lparr>lc_Spool := lc_Spool c @ t\<rparr>))"
  using assms by (simp add: capture_base_def open_summary_def fail_capture_def Let_def)

lemma frames_pending_append:
  assumes "frames_pending stream data fs out" "n \<le> length data"
  shows "frames_pending stream (drop n data) (fs @ [(stream, take n data)]) out"
proof -
  have eq: "payload fs @ data = payload out"
    "stream_bytes s fs + (if s = stream then length data else 0) = stream_bytes s out" for s
    using assms(1) by (simp_all add: frames_pending_def)
  have "payload (fs @ [(stream, take n data)]) @ drop n data = payload out" using eq(1) by simp
  moreover have "stream_bytes s (fs @ [(stream, take n data)]) + (if s = stream then length (drop n data) else 0)
      = stream_bytes s out" for s
    using eq(2) [of s] assms(2) by (cases "s = stream") simp_all
  ultimately show ?thesis by (simp add: frames_pending_def)
qed

lemma frames_pending_failed:
  assumes "frames_pending stream data fs out"
  shows "prefix (payload fs) (payload out)" "stream_bytes s fs \<le> stream_bytes s out"
proof -
  have eq: "payload out = payload fs @ data"
    "stream_bytes s fs + (if s = stream then length data else 0) = stream_bytes s out"
    using assms by (simp_all add: frames_pending_def)
  show "prefix (payload fs) (payload out)" by (simp add: eq(1))
  show "stream_bytes s fs \<le> stream_bytes s out" using eq(2) by arith
qed

lemma write_loop_inv:
  assumes "log_policy_ok p" "stream = 1 \<or> stream = 2" "capture_mid p oid binding out stream data v c"
  shows "\<exists>v'. capture_mid p oid binding out stream [] v' (fst (write_loop io stream data c))
      \<and> snd (write_loop io stream data c) = Inr ()
    \<or> capture_failed p oid binding out v' (fst (write_loop io stream data c))"
  using assms(2,3)
proof (induction io stream data c arbitrary: v rule: write_loop.induct)
  case (1 io stream data c)
  note mid = 1(3) [unfolded capture_mid_def]
  show ?case
  proof (cases "data = [] \<or> room c \<le> 0")
    case True
    show ?thesis
    proof (cases "data = []")
      case True
      then show ?thesis using 1(3) by (subst (1 2 3) write_loop.simps) auto
    next
      case False
      have "capture_base p oid binding out (v\<lparr>sv_torn := []\<rparr>) (fail_capture ErrLogLimit ''output_limit'' c)"
        using base_failed [of p oid binding out v c "[]"] mid by simp
      then have "capture_failed p oid binding out (v\<lparr>sv_torn := []\<rparr>) (fail_capture ErrLogLimit ''output_limit'' c)"
        using mid frames_pending_failed by (auto simp: capture_failed_def fail_capture_def)
      then show ?thesis using False True by (subst (1 2 3) write_loop.simps) auto
    qed
  next
    case go: False
    let ?n = "chunk_size c data"
    have policy: "lg_Policy (lc_Summary c) = p" using mid by (simp add: capture_base_def open_summary_def Let_def)
    have room: "0 < room c" "data \<noteq> []" using go by auto
    have entry: "0 < lp_EntryBytes p - 32" using assms(1) by (simp add: log_policy_ok_def)
    have n: "1 \<le> ?n" "?n \<le> length data" "int ?n \<le> lp_EntryBytes p - 32" "int ?n \<le> room c"
      using room entry policy by (auto simp: chunk_size_def logHeaderBytes_def Suc_le_eq)
    show ?thesis
    proof (cases "io (lg_Records (lc_Summary c))")
      case (Some e)
      obtain err k where e: "e = (err, k)" by (cases e)
      let ?t = "take k (log_frame stream (lg_Records (lc_Summary c)) (take ?n data))"
      have "capture_failed p oid binding out (v\<lparr>sv_torn := ?t\<rparr>)
          (fail_capture err ''spool_io_error'' (c\<lparr>lc_Spool := lc_Spool c @ ?t\<rparr>))"
        using base_failed mid frames_pending_failed by (auto simp: capture_failed_def fail_capture_def)
      then show ?thesis using go Some e by (subst (1 2 3) write_loop.simps) (auto simp: Let_def)
    next
      case None
      have "good_frame p (stream, take ?n data)" using n room(2) 1(2) by (auto simp: good_frame_def)
      then have "capture_mid p oid binding out stream (drop ?n data)
          (v\<lparr>sv_frames := sv_frames v @ [(stream, take ?n data)]\<rparr>) (append_frame stream (take ?n data) c)"
        using mid base_append [of p oid binding out v c stream "take ?n data"] n frames_pending_append
        by (simp add: capture_mid_def append_frame_def Let_def)
      from 1(1) [OF _ _ refl None 1(2) this] go None show ?thesis
        by (subst (1 2 3) write_loop.simps) (simp add: Let_def)
    qed
  qed
qed

subsection \<open>Writes and the end of a capture\<close>

lemma see_base:
  assumes "capture_base p oid binding out v c" "stream = 1 \<or> stream = 2"
  shows "capture_base p oid binding (out @ [(stream, data)]) v
    (c\<lparr>lc_Summary := see stream (length data) (lc_Summary c)\<rparr>)"
  using assms(2,1)
  by (elim disjE) (auto simp: capture_base_def open_summary_def see_def Let_def unat_saturatingAdd min_def)

lemma Write_inv:
  assumes "log_policy_ok p" "stream = 1 \<or> stream = 2" "capture_inv p oid binding out v c"
  shows "\<exists>v'. capture_inv p oid binding (out @ [(stream, data)]) v' (fst (LogCapture_Write io stream data c))"
proof -
  let ?c = "c\<lparr>lc_Summary := see stream (length data) (lc_Summary c)\<rparr>" and ?out = "out @ [(stream, data)]"
  have base: "capture_base p oid binding out v c"
    using assms(3) by (auto simp: capture_inv_def capture_mid_def capture_failed_def)
  have fin: "\<not> lc_Finished c" using base by (simp add: capture_base_def Let_def)
  have base': "capture_base p oid binding ?out v ?c" by (rule see_base [OF base assms(2)])
  have reason: "lg_Reason (see stream (length data) (lc_Summary c)) = lg_Reason (lc_Summary c)"
    by (simp add: see_def)
  show ?thesis
  proof (cases "lc_Failed c")
    case None
    then have "capture_mid p oid binding out 1 [] v c" using assms(3) by (simp add: capture_inv_def capture_failed_def)
    then have "capture_mid p oid binding ?out stream data v ?c"
      using base' reason by (simp add: capture_mid_def frames_pending_def [of stream])
    from write_loop_inv [OF assms(1,2) this, of io] None fin assms(2) show ?thesis
      by (auto simp: LogCapture_Write_def Let_def capture_inv_def capture_mid_def)
  next
    case (Some err)
    then have "capture_failed p oid binding out v c" using assms(3) by (simp add: capture_inv_def capture_mid_def)
    then have "capture_failed p oid binding ?out v ?c"
      using base' reason by (auto simp: capture_failed_def prefix_def intro: trans_le_add1)
    then show ?thesis using Some fin assms(2) by (auto simp: LogCapture_Write_def Let_def capture_inv_def)
  qed
qed

definition write_all :: "(u64 \<Rightarrow> (rerr \<times> nat) option) \<Rightarrow> (nat \<times> bytes) list \<Rightarrow> log_capture \<Rightarrow> log_capture" where
  "write_all io out c = foldl (\<lambda>c w. fst (LogCapture_Write io (fst w) (snd w) c)) c out"

lemma write_all_inv:
  assumes "log_policy_ok p" "list_all (\<lambda>w. fst w = 1 \<or> fst w = 2) out"
    "newLogCapture sha wire spool x p = Inr c"
  shows "\<exists>v. capture_inv p (op_ID x) (logBinding sha wire x) out v (write_all io out c)"
  using assms(2)
proof (induction out rule: rev_induct)
  case Nil
  have "capture_inv p (op_ID x) (logBinding sha wire x) [] \<lparr>sv_frames = [], sv_torn = []\<rparr> c"
    using assms(1,3) by (auto simp: newLogCapture_def capture_inv_def capture_mid_def capture_base_def frames_pending_def
        open_summary_def new_summary_def payload_def stream_bytes_def log_policy_ok_def split: if_splits)
  then show ?case by (auto simp: write_all_def)
next
  case (snoc w out)
  then obtain v where "capture_inv p (op_ID x) (logBinding sha wire x) out v (write_all io out c)" by auto
  from Write_inv [OF assms(1) _ this, of "fst w" "snd w" io] snoc.prems show ?case by (simp add: write_all_def)
qed

subsection \<open>Reading it back\<close>

lemma scan_fold:
  assumes "log_policy_ok p" "list_all (good_frame p) fs"
  shows "let st = foldl (scan_one p) \<lparr>sc_Summary = gap_summary oid binding p, sc_Prefix = [], sc_Preview = []\<rparr> fs
    in lg_Records (sc_Summary st) = of_nat (length fs) \<and> lg_RetainedPayload (sc_Summary st) = int (length (payload fs))
      \<and> lg_RetainedBytes (sc_Summary st) = int (length (encode_frames 0 fs)) \<and> sc_Prefix st = encode_frames 0 fs
      \<and> sc_Preview st = take (nat (lp_PreviewBytes p)) (payload fs)
      \<and> unat (lg_StdoutSeen (sc_Summary st)) = min max_seen (stream_bytes 1 fs)
      \<and> unat (lg_StderrSeen (sc_Summary st)) = min max_seen (stream_bytes 2 fs)
      \<and> lg_Truncated (sc_Summary st) \<and> \<not> lg_Complete (sc_Summary st)"
  using assms(2)
proof (induction fs rule: rev_induct)
  case Nil
  then show ?case by (simp add: gap_summary_def new_summary_def payload_def stream_bytes_def)
next
  case (snoc f fs)
  have good: "good_frame p f" and s12: "fst f = 1 \<or> fst f = 2" using snoc.prems by (auto simp: good_frame_def)
  show ?case
    using s12 snoc scan_one_summary [OF assms(1) good] preview_append [of "lp_PreviewBytes p" "payload fs" "snd f"]
    by (elim disjE) (simp_all add: Let_def see_def unat_saturatingAdd min_def encode_frames_snoc)
qed

text \<open>How the attach loop of the sandbox and the executor call \<open>Finish\<close>.\<close>

definition finish_call :: "log_capture \<Rightarrow> bool \<Rightarrow> string \<Rightarrow> bool \<Rightarrow> bool \<Rightarrow> bool" where
  "finish_call c complete reason requested observed \<longleftrightarrow> (observed \<longrightarrow> requested)
     \<and> (if complete then lc_Failed c = None \<longrightarrow> reason = [] \<and> \<not> requested else known_reason reason)"

lemma finished_metadata_valid:
  assumes policy: "log_policy_ok p" and inv: "capture_inv p oid binding out v c"
    and call: "finish_call c complete reason requested observed"
    and seen: "unat (lg_StdoutSeen pre) = min max_seen (stream_bytes 1 (sv_frames v))"
      "unat (lg_StderrSeen pre) = min max_seen (stream_bytes 2 (sv_frames v))"
  shows "validLogMetadata (finish_summary complete reason requested observed (lc_Summary c)) pre"
proof -
  let ?s = "lc_Summary c" and ?fs = "sv_frames v"
  have base: "capture_base p oid binding out v c"
    using inv by (auto simp: capture_inv_def capture_mid_def capture_failed_def)
  note b = base [unfolded capture_base_def open_summary_def Let_def]
  have le: "stream_bytes s ?fs \<le> stream_bytes s out" for s
    using inv frames_pending_failed(2) [of 1 "[]" ?fs out s] by (auto simp: capture_inv_def capture_mid_def capture_failed_def)
  have grows: "\<not> lg_StdoutSeen ?s < lg_StdoutSeen pre" "\<not> lg_StderrSeen ?s < lg_StderrSeen pre"
    using seen b le [of 1] le [of 2] by (auto simp: word_less_nat_alt min_def)
  have total: "stream_bytes 1 ?fs + stream_bytes 2 ?fs = length (payload ?fs)" using b stream_total by blast
  have small: "length (payload ?fs) < 2 ^ 63"
  proof -
    have "int (length (payload ?fs)) \<le> 524288"
      using b policy length_encode_frames [of 0 ?fs] by (simp add: log_policy_ok_def)
    then show ?thesis by simp
  qed
  have retained: "unat (of_int (lg_RetainedPayload ?s) :: u64) = length (payload ?fs)"
    using b small by (simp add: unsigned_of_nat take_bit_nat_eq_self)
  have covered: "(of_int (lg_RetainedPayload ?s) :: u64) \<le> saturatedTotal (lg_StdoutSeen ?s) (lg_StderrSeen ?s)"
    unfolding word_le_nat_alt retained unat_saturatedTotal using b total le [of 1] le [of 2] small by (auto simp: min_def)
  have none: "dropped ?s = 0 \<and> lg_Reason ?s = [] \<and> \<not> lg_Truncated ?s" if "lc_Failed c = None"
  proof -
    have "capture_mid p oid binding out 1 [] v c" using inv that by (simp add: capture_inv_def capture_failed_def)
    then have all: "stream_bytes s ?fs = stream_bytes s out" for s
      by (simp add: capture_mid_def)
    have "unat (saturatedTotal (lg_StdoutSeen ?s) (lg_StderrSeen ?s)) = unat (of_int (lg_RetainedPayload ?s) :: u64)"
      unfolding retained unat_saturatedTotal using b total all [of 1] all [of 2] small by (auto simp: min_def)
    then have "saturatedTotal (lg_StdoutSeen ?s) (lg_StderrSeen ?s) = of_int (lg_RetainedPayload ?s)"
      by (rule unsigned_word_eqI)
    then show ?thesis using \<open>capture_mid _ _ _ _ _ _ _ _\<close> b that by (simp add: dropped_def capture_mid_def)
  qed
  have failed: "lg_Truncated ?s \<and> known_reason (lg_Reason ?s) \<and> lg_Reason ?s \<noteq> []" if "lc_Failed c \<noteq> None"
    using inv that b by (auto simp: capture_inv_def capture_mid_def capture_failed_def known_reason_def)
  show ?thesis
    using grows call covered none failed b
    by (cases "lc_Failed c"; cases complete)
      (auto simp: validLogMetadata_def finish_summary_def finish_call_def dropped_def Let_def zero_ref_def known_reason_def)
qed

text \<open>
  C35. Captured output reads back exactly. Take any sequence of writes to the two streams of a fresh
  capture under a normalized policy, ended by \<open>Finish\<close>, with no failed disk write: if the metadata codec
  returns what it encoded, \<open>readLogCapture\<close> returns the summary \<open>Finish\<close> recorded, the whole spool
  and its preview. The spool is a sequence of frames within the operation's byte limit whose payload is
  a prefix of the output, and all of it unless the limit was reached.
\<close>

theorem log_capture_roundtrip:
  assumes policy: "log_policy_ok p"
    and new: "newLogCapture sha wire None x p = Inr c"
    and streams: "list_all (\<lambda>w. fst w = 1 \<or> fst w = 2) out"
    and intact: "lg_Reason (lc_Summary (write_all io out c)) \<noteq> ''spool_io_error''"
    and call: "finish_call (write_all io out c) complete reason requested observed"
    and finish: "LogCapture_Finish sha enc None None complete reason requested observed None (write_all io out c)
      = (c', Some raw, Inr ())"
    and codec: "\<And>m. enc m = raw \<Longrightarrow> dec raw = Some m" and fits: "length raw \<le> 131072"
  shows "readLogCapture sha wire dec (Some (lc_Spool c')) (Some raw) x p
      = Inr (lc_Summary c', lc_Spool c', lc_Preview c')
    \<and> int (length (lc_Spool c')) \<le> lp_OperationBytes p
    \<and> (\<exists>fs. lc_Spool c' = encode_frames 0 fs \<and> prefix (payload fs) (payload out)
        \<and> (lg_Reason (lc_Summary (write_all io out c)) \<noteq> [] \<or> payload fs = payload out))"
proof -
  let ?w = "write_all io out c" and ?b = "logBinding sha wire x"
  obtain v where inv: "capture_inv p (op_ID x) ?b out v ?w" using write_all_inv [OF policy streams new] by blast
  have base: "capture_base p (op_ID x) ?b out v ?w"
    using inv by (auto simp: capture_inv_def capture_mid_def capture_failed_def)
  note b = base [unfolded capture_base_def open_summary_def Let_def]
  have torn: "sv_torn v = []" using inv intact by (auto simp: capture_inv_def capture_mid_def capture_failed_def)
  let ?fs = "sv_frames v" and ?s = "finish_summary complete reason requested observed (lc_Summary ?w)"
  have spool: "lc_Spool ?w = encode_frames 0 ?fs" using b torn by simp
  have c': "lc_Spool c' = encode_frames 0 ?fs" "lc_Summary c' = ?s" "lc_Preview c' = lc_Preview ?w"
    and raw: "raw = enc \<lparr>cm_Summary = ?s, cm_DataHash = sha (encode_frames 0 ?fs), cm_Preview = lc_Preview ?w\<rparr>"
    using finish b spool by (auto simp: LogCapture_Finish_def Let_def split: if_splits)
  have small: "int (length (encode_frames 0 ?fs)) \<le> lp_OperationBytes p" using b by blast
  let ?st = "foldl (scan_one p) \<lparr>sc_Summary = gap_summary (op_ID x) ?b p, sc_Prefix = [], sc_Preview = []\<rparr> ?fs"
  have scan: "scan_frames p (encode_frames 0 ?fs) \<lparr>sc_Summary = gap_summary (op_ID x) ?b p, sc_Prefix = [], sc_Preview = []\<rparr> = ?st"
    using scan_encoded [OF policy, of ?fs "\<lparr>sc_Summary = gap_summary (op_ID x) ?b p, sc_Prefix = [], sc_Preview = []\<rparr>" "[]"] b
    by (simp add: gap_summary_def new_summary_def scan_frames.simps [of p "[]"])
  note fold = scan_fold [OF policy, of ?fs "op_ID x" ?b, unfolded Let_def]
  have valid: "validLogMetadata ?s (sc_Summary ?st)"
    using finished_metadata_valid [OF policy inv call] fold b by blast
  have frame: "lg_OperationID ?s = op_ID x" "lg_BindingHash ?s = ?b" "lg_Policy ?s = p" "lg_SchemaVersion ?s = 1"
    "lg_Records ?s = lg_Records (lc_Summary ?w)" "lg_RetainedBytes ?s = lg_RetainedBytes (lc_Summary ?w)"
    "lg_RetainedPayload ?s = lg_RetainedPayload (lc_Summary ?w)"
    using b by (simp_all add: finish_summary_def Let_def)
  have "meta_matches sha (op_ID x) ?b p (encode_frames 0 ?fs) ?st
      \<lparr>cm_Summary = ?s, cm_DataHash = sha (encode_frames 0 ?fs), cm_Preview = lc_Preview ?w\<rparr>"
    using valid fold b frame by (simp add: meta_matches_def)
  then have read: "readLogCapture sha wire dec (Some (lc_Spool c')) (Some raw) x p
      = Inr (lc_Summary c', lc_Spool c', lc_Preview c')"
    using small scan fold b codec [OF raw [symmetric]] fits c' by (simp add: readLogCapture_def Let_def)
  have "prefix (payload ?fs) (payload out) \<and> (lg_Reason (lc_Summary ?w) \<noteq> [] \<or> payload ?fs = payload out)"
    using inv by (auto simp: capture_inv_def capture_mid_def capture_failed_def)
  then show ?thesis using read small c'(1) by auto
qed

text \<open>
  A disk write that stopped inside a frame leaves a tail no metadata can cover: \<open>Finish\<close> still writes
  metadata for such a spool, and from then on \<open>readLogCapture\<close> refuses it.
\<close>

lemma torn_frame_not_ok:
  assumes "log_policy_ok p" "good_frame p f" "k < 32 + length (snd f)"
  shows "\<not> frame_ok p r (take k (log_frame (fst f) r' (snd f)))"
proof (cases "k < 32")
  case True
  then show ?thesis by (simp add: frame_ok_def Let_def)
next
  case False
  let ?d = "take k (log_frame (fst f) r' (snd f))"
  have "take 4 (drop 16 ?d) = take 4 (drop 16 (log_frame (fst f) r' (snd f)))"
    using False by (simp add: drop_take min_def)
  then have "be_value (take 4 (drop 16 ?d)) = length (snd f)"
    using frame_parts(1) [OF policy_sizes(1) [OF assms(1,2)], of "fst f" r' "[]"] by simp
  then show ?thesis using assms(3) False by (simp add: frame_ok_def Let_def)
qed

lemma torn_spool_rejected:
  assumes "log_policy_ok p" "list_all (good_frame p) fs" "good_frame p f" "0 < k" "k < 32 + length (snd f)"
  shows "\<exists>err. readLogCapture sha wire dec (Some (encode_frames 0 fs @ take k (log_frame (fst f) r (snd f)))) (Some raw) x p
    = Inl err"
proof -
  let ?st0 = "\<lparr>sc_Summary = gap_summary (op_ID x) (logBinding sha wire x) p, sc_Prefix = [], sc_Preview = []\<rparr>"
  let ?t = "take k (log_frame (fst f) r (snd f))"
  have "scan_frames p (encode_frames 0 fs @ ?t) ?st0 = foldl (scan_one p) ?st0 fs"
    using scan_encoded [OF assms(1,2), of ?st0 ?t] torn_frame_not_ok [OF assms(1,3,5)]
    by (simp add: gap_summary_def new_summary_def scan_frames.simps [of p ?t])
  moreover have "length (sc_Prefix (foldl (scan_one p) ?st0 fs)) \<noteq> length (encode_frames 0 fs @ ?t)"
    using scan_fold [OF assms(1,2), of "op_ID x" "logBinding sha wire x"] assms(4) by (simp add: Let_def)
  ultimately show ?thesis by (auto simp: readLogCapture_def meta_matches_def Let_def split: option.splits)
qed

definition ldemo_policy :: log_policy where
  "ldemo_policy = \<lparr>lp_EntryBytes = 64, lp_OperationBytes = 100, lp_RunBytes = 250, lp_MaxOperations = 2,
     lp_PreviewBytes = 10\<rparr>"

definition ldemo_oper :: operation where
  "ldemo_oper = \<lparr>op_Request = \<lparr>or_Workspace = \<lparr>wr_TenantID = ''t'', wr_RunID = ''r'', wr_WorkspaceID = ''w'',
       wr_Epoch = 1, wr_Grant = []\<rparr>, or_OperationID = ''op1'', or_ExpectedRevision = 1, or_Kind = ''run_command'',
       or_Args = ''{}'', or_ArgsHash = [], or_PolicyVersion = ''p'', or_Deadline = 5\<rparr>,
     op_Status = OpRunning, op_JobID = [], op_BeforeHash = [], op_ExpectedAfterHash = [], op_AfterHash = [],
     op_AfterRevision = 0, op_Result = [], op_ResultTruncated = False, op_Receipt = zero_ref, op_Error = [],
     op_CancelRequested = False\<rparr>"

definition ldemo_capture :: log_capture where
  "ldemo_capture = \<lparr>lc_Spool = [], lc_Summary = new_summary ''op1'' [] ldemo_policy, lc_Preview = [],
     lc_Failed = None, lc_Finished = False\<rparr>"

definition ldemo_out :: "(nat \<times> bytes) list" where
  "ldemo_out = [(1, ''ok''), (2, ''e'')]"

definition ldemo_written :: log_capture where
  "ldemo_written = \<lparr>lc_Spool = encode_frames 0 ldemo_out,
     lc_Summary = (new_summary ''op1'' [] ldemo_policy)\<lparr>lg_StdoutSeen := 2, lg_StderrSeen := 1, lg_RetainedBytes := 67,
       lg_RetainedPayload := 3, lg_Records := 2\<rparr>,
     lc_Preview = ''oke'', lc_Failed = None, lc_Finished = False\<rparr>"

lemma ldemo_write: "write_all (\<lambda>r. None) ldemo_out ldemo_capture = ldemo_written"
  by (simp add: write_all_def ldemo_out_def ldemo_capture_def ldemo_written_def LogCapture_Write_def see_def
      saturatingAdd_def write_loop.simps room_def chunk_size_def append_frame_def new_summary_def ldemo_policy_def
      logHeaderBytes_def Let_def unat_minus_one)

definition ldemo_meta :: capture_metadata where
  "ldemo_meta = \<lparr>cm_Summary = finish_summary True [] False False (lc_Summary ldemo_written),
     cm_DataHash = [], cm_Preview = ''oke''\<rparr>"

definition ldemo_enc :: "capture_metadata \<Rightarrow> bytes" where
  "ldemo_enc m = (if m = ldemo_meta then ''M'' else [])"

definition ldemo_dec :: "bytes \<Rightarrow> capture_metadata option" where
  "ldemo_dec b = (if b = ''M'' then Some ldemo_meta else None)"

theorem log_capture_roundtrip_witness:
  "\<exists>fs. readLogCapture (\<lambda>b. []) (\<lambda>r. []) ldemo_dec (Some (encode_frames 0 fs)) (Some ''M'') ldemo_oper ldemo_policy
      = Inr (cm_Summary ldemo_meta, encode_frames 0 fs, ''oke'')
    \<and> payload fs = ''oke''"
proof -
  let ?c' = "ldemo_written\<lparr>lc_Finished := True, lc_Summary := cm_Summary ldemo_meta\<rparr>"
  have policy: "log_policy_ok ldemo_policy" by (simp add: log_policy_ok_def ldemo_policy_def)
  have new: "newLogCapture (\<lambda>b. []) (\<lambda>r. []) None ldemo_oper ldemo_policy = Inr ldemo_capture"
    by (simp add: newLogCapture_def ldemo_oper_def ldemo_capture_def logBinding_def ID_Validate_def id_char_def)
  have streams: "list_all (\<lambda>w. fst w = 1 \<or> fst w = 2) ldemo_out" by (simp add: ldemo_out_def)
  have call: "finish_call (write_all (\<lambda>r. None) ldemo_out ldemo_capture) True [] False False"
    by (simp add: finish_call_def ldemo_write ldemo_written_def)
  have intact: "lg_Reason (lc_Summary (write_all (\<lambda>r. None) ldemo_out ldemo_capture)) \<noteq> ''spool_io_error''"
    by (simp add: ldemo_write ldemo_written_def new_summary_def)
  have finish: "LogCapture_Finish (\<lambda>b. []) ldemo_enc None None True [] False False None
      (write_all (\<lambda>r. None) ldemo_out ldemo_capture) = (?c', Some ''M'', Inr ())"
    by (simp add: ldemo_write LogCapture_Finish_def ldemo_enc_def ldemo_meta_def Let_def)
      (simp add: ldemo_written_def finish_summary_def new_summary_def ldemo_policy_def ldemo_out_def Let_def)
  have codec: "ldemo_dec ''M'' = Some m" if "ldemo_enc m = ''M''" for m
    using that by (simp add: ldemo_enc_def ldemo_dec_def split: if_splits)
  from log_capture_roundtrip [where dec = ldemo_dec, OF policy new streams intact call finish codec]
  obtain fs where "readLogCapture (\<lambda>b. []) (\<lambda>r. []) ldemo_dec (Some (lc_Spool ?c')) (Some ''M'') ldemo_oper ldemo_policy
      = Inr (lc_Summary ?c', lc_Spool ?c', lc_Preview ?c')" "lc_Spool ?c' = encode_frames 0 fs"
      "lg_Reason (lc_Summary (write_all (\<lambda>r. None) ldemo_out ldemo_capture)) \<noteq> [] \<or> payload fs = payload ldemo_out"
    by auto
  then have "readLogCapture (\<lambda>b. []) (\<lambda>r. []) ldemo_dec (Some (encode_frames 0 fs)) (Some ''M'') ldemo_oper ldemo_policy
      = Inr (cm_Summary ldemo_meta, encode_frames 0 fs, ''oke'')" "payload fs = payload ldemo_out"
    by (simp_all add: ldemo_write) (simp_all add: ldemo_written_def new_summary_def)
  then show ?thesis by (auto simp: ldemo_out_def payload_def)
qed

end
