(* ===== verification/Runner_World.thy ===== *)
theory Runner_World
  imports Runner_Machine Runner_Grant Runner_Import Runner_Logs
begin

section \<open>The state of the runner and its surroundings (internal/runner/engine.go, storage.go)\<close>

text \<open>
  An operation of the engine is a function from the runner's state to the state it leaves and its
  result or error. The state is the journal, the files of every workspace, and the flags and maps of
  the \<open>Engine\<close> struct. What the surroundings answer during one call, a clock reading, a lock, the
  sandbox backend, the artifact store, a fault point, a disk error, is an argument of the call; every
  combination of answers is possible.

  Handlers and executors run concurrently. Two of them exclude each other on the files of a workspace
  (\<open>lockWorkspace\<close>), but not on the journal or on the fields of the engine. The state therefore
  holds a schedule, what the others do between two accesses of this call: every access to the
  journal or to a field first lets the next part of the schedule happen. While a call waits for the
  lock of a workspace, its files may change too.
\<close>

subsection \<open>Configuration, libraries and surroundings\<close>

text \<open>The parts of \<open>sandbox.Profile\<close> the engine reads.\<close>

record profile =
  pf_VerifyCommand :: "string list"
  pf_TargetCommand :: "string list"

text \<open>A source is given with the directory its path names.\<close>

record engine_config =
  ec_RootDir :: string
  ec_JournalPath :: string
  ec_Limits :: tree_limits
  ec_Logs :: "log_policy option"
  ec_Slots :: "volume_spec list"
  ec_Sources :: "(string \<times> dir) list"
  ec_Profiles :: "(string \<times> profile) list"
  ec_Signer :: signer
  ec_TestBackend :: bool
  ec_TestVerifier :: bool
  ec_RemoveOwned :: bool
  ec_CancelNeverDispatched :: bool

text \<open>
  SHA-256, HMAC-SHA256 and the JSON codecs of structs: of the claims of a grant, of an operation
  request, of capture metadata and of a job.
\<close>

record engine_lib =
  el_sha :: "bytes \<Rightarrow> string"
  el_hmac :: hmac_fun
  el_claims :: claims_decoder
  el_wire :: "operation_request \<Rightarrow> bytes"
  el_meta :: "bytes \<Rightarrow> capture_metadata option"
  el_encode_meta :: "capture_metadata \<Rightarrow> bytes"
  el_job :: "job \<Rightarrow> bytes"
  el_parse_job :: "bytes \<Rightarrow> job option"

text \<open>What is published: the value whose JSON encoding, or the bytes, go to the artifact store.\<close>

datatype artifact_data =
    ArtReceipt operation
  | ArtSnapshot workspace tree
  | ArtStop runner_stop_receipt
  | ArtLog bytes

record ws_files =
  wf_Checkout :: "fsnode option"
  wf_Baseline :: "fsnode option"
  wf_Candidates :: "(string \<times> fsnode) list"
  wf_Spools :: "(string \<times> bytes) list"
  wf_Metas :: "(string \<times> bytes) list"

text \<open>
  One turn of the wait loop of \<open>execute\<close>: the context ends with an error, and the backend answers the
  cancellation of the job, or the job is inspected.
\<close>

datatype poll =
    PollDone rerr "rerr + job"
  | PollInspect "rerr + job"

text \<open>
  A start of the backend: the container it reports to \<open>OnCreated\<close>, whether it then reaches
  \<open>BeforeStart\<close>, what it writes to the capture and how it finishes it, what the process does to the
  checkout and to the candidate, and what \<open>Start\<close> returns given the errors of the two callbacks.
\<close>

record capture_end =
  ce_Closing :: "(rerr \<times> string) option"
  ce_Metadata :: "rerr option"
  ce_Complete :: bool
  ce_Reason :: string
  ce_Requested :: bool
  ce_Observed :: bool

record backend_start =
  bs_Container :: "string option"
  bs_BeforeStart :: "rerr option \<Rightarrow> bool"
  bs_Writes :: "((u64 \<Rightarrow> (rerr \<times> nat) option) \<times> nat \<times> bytes) list"
  bs_Finish :: "capture_end option"
  bs_Checkout :: "fsnode option \<Rightarrow> fsnode option"
  bs_Candidate :: "fsnode \<Rightarrow> fsnode"
  bs_Result :: "rerr option \<Rightarrow> rerr option \<Rightarrow> rerr + job"

record engine_env =
  ev_Now :: "nat \<Rightarrow> gotime"
  ev_Lock :: "rerr option"
  ev_Wait :: "ws_files \<Rightarrow> ws_files"
  ev_VerifyVolume :: "rerr option"
  ev_OpenSlot :: "string \<Rightarrow> nat \<Rightarrow> rerr option"
  ev_Fault :: "string \<Rightarrow> rerr option"
  ev_Check :: "rerr option"
  ev_Copy :: "string \<Rightarrow> (rerr \<times> bytes option) option"
  ev_Chmod :: "rerr option"
  ev_Sync :: "rerr option"
  ev_Publication :: "rerr option"
  ev_Put :: "string \<Rightarrow> string \<Rightarrow> string \<Rightarrow> artifact_data \<Rightarrow> rerr + artifact_ref"
  ev_Patch :: patch_env
  ev_Start :: backend_start
  ev_Polls :: "poll list"
  ev_Inspect :: "rerr + job"
  ev_Cancel :: "rerr + job"
  ev_CancelNever :: "rerr + job"
  ev_Finish :: "(rerr \<times> string) option \<times> rerr option"
  ev_RemoveOwned :: "string \<Rightarrow> rerr option"
  ev_RemoveAll :: "rerr option"

text \<open>
  What another handler or executor does: a transaction, the closing of the engine, the start or the
  end of an executor, the allocation of a slot.
\<close>

datatype other =
    OtherTx journal_op
  | OtherShutdown
  | OtherLaunch string
  | OtherExit string
  | OtherAllocate string string

record world =
  wd_Journal :: journal
  wd_Closed :: bool
  wd_Live :: "string list"
  wd_Allocations :: "(string \<times> string) list"
  wd_Files :: "string \<Rightarrow> ws_files"
  wd_Schedule :: "other list list"
  wd_Owners :: "(string \<times> bytes) list"

definition allocate :: "string \<Rightarrow> string \<Rightarrow> world \<Rightarrow> world" where
  "allocate i sid w = w\<lparr>wd_Allocations := (i, sid) # AList.delete i (wd_Allocations w)\<rparr>"

fun other_step :: "world \<Rightarrow> other \<Rightarrow> world" where
  "other_step w (OtherTx a) = w\<lparr>wd_Journal := fst (journal_apply (wd_Journal w) a)\<rparr>"
| "other_step w OtherShutdown = w\<lparr>wd_Closed := True\<rparr>"
| "other_step w (OtherLaunch i) = w\<lparr>wd_Live := i # wd_Live w\<rparr>"
| "other_step w (OtherExit i) = w\<lparr>wd_Live := removeAll i (wd_Live w)\<rparr>"
| "other_step w (OtherAllocate i sid) = allocate i sid w"

definition meanwhile :: "world \<Rightarrow> world" where
  "meanwhile w = (case wd_Schedule w of
     [] \<Rightarrow> w
   | others # rest \<Rightarrow> (foldl other_step w others)\<lparr>wd_Schedule := rest\<rparr>)"

subsection \<open>Operations that may fail\<close>

type_synonym 'a eng = "world \<Rightarrow> world \<times> (rerr + 'a)"

definition ret :: "'a \<Rightarrow> 'a eng" where
  "ret x w = (w, Inr x)"

definition raise :: "rerr \<Rightarrow> 'a eng" where
  "raise e w = (w, Inl e)"

text \<open>\<open>attempt m f g\<close> continues with \<open>g\<close> on the error of \<open>m\<close> and with \<open>f\<close> on its result.\<close>

definition attempt :: "'a eng \<Rightarrow> ('a \<Rightarrow> 'b eng) \<Rightarrow> (rerr \<Rightarrow> 'b eng) \<Rightarrow> 'b eng" where
  "attempt m f g w = (case snd (m w) of Inl e \<Rightarrow> g e (fst (m w)) | Inr x \<Rightarrow> f x (fst (m w)))"

definition ebind :: "'a eng \<Rightarrow> ('a \<Rightarrow> 'b eng) \<Rightarrow> 'b eng" where
  "ebind m f = attempt m f raise"

definition guard :: "bool \<Rightarrow> rerr \<Rightarrow> unit eng" where
  "guard b e = (if b then ret () else raise e)"

definition check :: "rerr option \<Rightarrow> unit eng" where
  "check r = (case r of None \<Rightarrow> ret () | Some e \<Rightarrow> raise e)"

text \<open>An atomic access to the journal or to the fields of the engine, and one to the files of a workspace.\<close>

definition access :: "'a eng \<Rightarrow> 'a eng" where
  "access f w = f (meanwhile w)"

definition view :: "(world \<Rightarrow> rerr + 'a) \<Rightarrow> 'a eng" where
  "view f = access (\<lambda>w. (w, f w))"

definition journal_do :: "(journal \<Rightarrow> 'a journal_result) \<Rightarrow> 'a eng" where
  "journal_do f = access (\<lambda>w. let r = f (wd_Journal w) in (w\<lparr>wd_Journal := fst r\<rparr>, snd r))"

definition files_do :: "string \<Rightarrow> (ws_files \<Rightarrow> ws_files \<times> (rerr + 'a)) \<Rightarrow> 'a eng" where
  "files_do i f w = (let r = f (wd_Files w i) in (w\<lparr>wd_Files := (wd_Files w)(i := fst r)\<rparr>, snd r))"

definition files_view :: "string \<Rightarrow> (ws_files \<Rightarrow> rerr + 'a) \<Rightarrow> 'a eng" where
  "files_view i f w = (w, f (wd_Files w i))"

subsection \<open>Reading the journal and the files\<close>

definition get_workspace :: "string \<Rightarrow> workspace eng" where
  "get_workspace i = view (\<lambda>w. journal_workspace (wd_Journal w) i)"

definition get_operation :: "string \<Rightarrow> operation eng" where
  "get_operation i = view (\<lambda>w. journal_operation (wd_Journal w) i)"

definition get_logPolicy :: "string \<Rightarrow> log_policy option eng" where
  "get_logPolicy i = view (\<lambda>w. logPolicy (wd_Journal w) i)"

text \<open>\<open>SELECT dispatch_started, docker_start_intent FROM operations WHERE id=?\<close>.\<close>

definition get_dispatch :: "string \<Rightarrow> (bool \<times> bool) eng" where
  "get_dispatch i = view (\<lambda>w. case find_op (wd_Journal w) i of
     None \<Rightarrow> Inl (ROther ''sql: no rows in result set'')
   | Some r \<Rightarrow> Inr (rw_DispatchStarted r, rw_DockerStartIntent r))"

text \<open>\<open>os.OpenRoot\<close>.\<close>

definition open_dir :: "fsnode option \<Rightarrow> rerr + dir" where
  "open_dir n = (case n of Some (FsDir d) \<Rightarrow> Inr d | _ \<Rightarrow> Inl (ROther ''open: not a directory''))"

definition read_node :: "engine_config \<Rightarrow> engine_lib \<Rightarrow> fsnode option \<Rightarrow> rerr + tree" where
  "read_node cfg lib n = res_bind (open_dir n) (readTree (el_sha lib) (ec_Limits cfg))"

definition read_checkout :: "engine_config \<Rightarrow> engine_lib \<Rightarrow> string \<Rightarrow> tree eng" where
  "read_checkout cfg lib i = files_view i (\<lambda>f. read_node cfg lib (wf_Checkout f))"

subsection \<open>Locks, storage and authorization\<close>

definition authorize :: "engine_config \<Rightarrow> engine_lib \<Rightarrow> gotime \<Rightarrow> workspace_request \<Rightarrow> string \<Rightarrow> unit eng" where
  "authorize cfg lib now r permission = view (\<lambda>w.
     if wd_Closed w then Inl (ROther ''runner is shutting down'')
     else case Signer_Verify (el_hmac lib) (el_claims lib) (ec_Signer cfg) (wr_Grant r) r permission now of
         Some e \<Rightarrow> Inl (sentinel e)
       | None \<Rightarrow> Inr ())"

definition verifyStorage :: "engine_env \<Rightarrow> string \<Rightarrow> unit eng" where
  "verifyStorage env i = view (\<lambda>w.
     case map_of (wd_Allocations w) i of
       None \<Rightarrow> Inr ()
     | Some sid \<Rightarrow> if sid = [] then Inr () else (case ev_VerifyVolume env of None \<Rightarrow> Inr () | Some e \<Rightarrow> Inl e))"

definition engine_lock :: "engine_env \<Rightarrow> string \<Rightarrow> unit eng" where
  "engine_lock env i =
     ebind (guard (valid_id i) (sentinel ErrInvalid)) (\<lambda>_.
     ebind (files_do i (\<lambda>f. (ev_Wait env f, case ev_Lock env of None \<Rightarrow> Inr () | Some e \<Rightarrow> Inl e))) (\<lambda>_.
       verifyStorage env i))"

definition syncWorkspace :: "engine_config \<Rightarrow> engine_env \<Rightarrow> string \<Rightarrow> unit eng" where
  "syncWorkspace cfg env i =
     (if ec_TestBackend cfg then ret ()
      else ebind (verifyStorage env i) (\<lambda>_. check (ev_Sync env)))"

definition allocateStorage :: "engine_config \<Rightarrow> engine_env \<Rightarrow> prepare_request \<Rightarrow> string \<Rightarrow> unit eng" where
  "allocateStorage cfg env r sourceHash =
     (let i = wr_WorkspaceID (pr_Workspace r)
      in if ec_Slots cfg = [] then ret ()
         else ebind (journal_do (\<lambda>j. allocateLease j (ec_Slots cfg) r sourceHash)) (\<lambda>sid.
           ebind (access (\<lambda>w. (allocate i sid w, Inr ()))) (\<lambda>_.
           ebind (verifyStorage env i) (\<lambda>_. check (ev_Fault env ''after_volume_lease'')))))"

definition storage_slot :: "string \<Rightarrow> string eng" where
  "storage_slot i = view (\<lambda>w. Inr (case map_of (wd_Allocations w) i of None \<Rightarrow> [] | Some sid \<Rightarrow> sid))"

text \<open>
  Without a pool the directories of the workspace go; with one, its directory on the volume and then
  the lease. The spool is in the directory of the volume.
\<close>

definition no_files :: ws_files where
  "no_files = \<lparr>wf_Checkout = None, wf_Baseline = None, wf_Candidates = [], wf_Spools = [], wf_Metas = []\<rparr>"

definition releaseStorage :: "engine_config \<Rightarrow> engine_env \<Rightarrow> string \<Rightarrow> unit eng" where
  "releaseStorage cfg env i =
     ebind (storage_slot i) (\<lambda>sid.
       if sid = [] then
         ebind (guard (ec_Slots cfg = []) (sentinel ErrReconciliation)) (\<lambda>_.
         ebind (check (ev_RemoveAll env)) (\<lambda>_.
           files_do i (\<lambda>f. (f\<lparr>wf_Checkout := None, wf_Baseline := None, wf_Candidates := []\<rparr>, Inr ()))))
       else
         ebind (verifyStorage env i) (\<lambda>_.
         ebind (check (ev_RemoveAll env)) (\<lambda>_.
         ebind (files_do i (\<lambda>f. (no_files, Inr ()))) (\<lambda>_.
           journal_do (\<lambda>j. (freeLease j i, Inr ()))))))"

end
