(* ===== verification/Runner_Engine.thy ===== *)
theory Runner_Engine
  imports Runner_World
begin

section \<open>Executing and settling an operation (internal/runner/engine.go, verification.go, log_publication.go)\<close>

text \<open>
  The executor of an operation and the reconciliation of one whose executor is gone. Both end in
  \<open>complete\<close>, which reads the workspace, publishes a receipt and finishes the operation, or in
  \<open>unknown\<close>, which leaves it to be reconciled. Telemetry is left out. Where the source returns an
  operation together with an error, the model returns the error.
\<close>

definition unknown :: "operation \<Rightarrow> rerr option \<Rightarrow> unit eng" where
  "unknown x err = journal_do (\<lambda>j.
     (markUnknown j (op_ID x) (error_text (case err of None \<Rightarrow> sentinel ErrReconciliation | Some e \<Rightarrow> e)), Inr ()))"

abbreviation unknown_on :: "operation \<Rightarrow> rerr \<Rightarrow> unit eng" where
  "unknown_on x e \<equiv> unknown x (Some e)"

subsection \<open>The clean candidate of a verification\<close>

definition candidate_tree :: "tree \<Rightarrow> tree \<Rightarrow> tree" where
  "candidate_tree baseline current =
     foldl (\<lambda>t e. map_put (fst e) (snd e) t) (filter (\<lambda>e. map_of current (fst e) \<noteq> None) baseline) current"

definition build_candidate :: "engine_config \<Rightarrow> engine_lib \<Rightarrow> engine_env \<Rightarrow> operation \<Rightarrow> tree \<Rightarrow> ws_files
    \<Rightarrow> ws_files \<times> (rerr + unit)" where
  "build_candidate cfg lib env x candidate f =
     (case map_of (wf_Candidates f) (op_ID x) of
        Some n \<Rightarrow>
          (f, case read_node cfg lib (Some n) of
                Inl e \<Rightarrow> Inl (sentinel ErrReconciliation)
              | Inr existing \<Rightarrow>
                  if treeHash (el_sha lib) existing \<noteq> op_BeforeHash x then Inl (sentinel ErrReconciliation)
                  else Inr ())
      | None \<Rightarrow>
          (let r = copyTree (ev_Copy env) candidate []
           in (f\<lparr>wf_Candidates := (op_ID x, FsDir (fst r)) # wf_Candidates f\<rparr>, snd r)))"

definition cleanCandidate :: "engine_config \<Rightarrow> engine_lib \<Rightarrow> engine_env \<Rightarrow> operation \<Rightarrow> tree \<Rightarrow> unit eng" where
  "cleanCandidate cfg lib env x current =
     ebind (get_workspace (op_WorkspaceID x)) (\<lambda>w.
     ebind (files_view (ws_ID w) (\<lambda>f. read_node cfg lib (wf_Baseline f))) (\<lambda>baseline.
     ebind (guard (treeHash (el_sha lib) baseline = ws_BaselineHash w
              \<and> treeHash (el_sha lib) current = op_BeforeHash x) (sentinel ErrReconciliation)) (\<lambda>_.
     ebind (files_do (op_WorkspaceID x)
              (build_candidate cfg lib env x (candidate_tree baseline current))) (\<lambda>_.
       check (ev_Chmod env)))))"

definition validateVerification :: "engine_config \<Rightarrow> engine_lib \<Rightarrow> operation \<Rightarrow> string \<Rightarrow> unit eng" where
  "validateVerification cfg lib x afterHash =
     (if or_Kind (op_Request x) \<noteq> ''verify'' then ret ()
      else if afterHash \<noteq> op_BeforeHash x
      then raise (wrapped ErrReconciliation ''live candidate changed during trusted verification'')
      else
        ebind (files_view (op_WorkspaceID x)
                 (\<lambda>f. read_node cfg lib (map_of (wf_Candidates f) (op_ID x)))) (\<lambda>candidate.
          guard (treeHash (el_sha lib) candidate = op_BeforeHash x)
            (wrapped ErrReconciliation ''clean verification candidate changed'')))"

subsection \<open>Publishing the output of a job\<close>

definition zero_job :: job where
  "zero_job = \<lparr>jb_ContainerID = [], jb_ContainerName = [], jb_StrictLogs = False, jb_Log = None, jb_ID = [],
     jb_Running = False, jb_ExitCode = 0, jb_Started = False, jb_Output = [], jb_Truncated = False,
     jb_Error = [], jb_Interrupted = False, jb_NeverStarted = False\<rparr>"

definition result_job :: "engine_lib \<Rightarrow> operation \<Rightarrow> rerr + job" where
  "result_job lib x =
     (if op_Result x = [] then Inr zero_job
      else case el_parse_job lib (op_Result x) of
          None \<Rightarrow> Inl (sentinel ErrReconciliation)
        | Some job \<Rightarrow> Inr job)"

definition never_started_summary :: "log_summary \<Rightarrow> log_summary" where
  "never_started_summary s = s\<lparr>lg_Complete := True, lg_DroppedKnown := True, lg_Truncated := False,
     lg_Reason := ''never_started''\<rparr>"

definition log_job :: "job \<Rightarrow> log_summary \<Rightarrow> bytes \<Rightarrow> job" where
  "log_job job summary preview = job\<lparr>jb_Log := Some summary, jb_StrictLogs := True, jb_Output := preview,
     jb_Truncated := lg_Truncated summary\<rparr>"

definition with_log_job :: "engine_lib \<Rightarrow> job \<Rightarrow> operation \<Rightarrow> operation" where
  "with_log_job lib job x =
     x\<lparr>op_Status := (if \<not> VerificationLogValid job \<and> op_Status x \<noteq> OpCancelled then OpFailed else op_Status x),
       op_Result := el_job lib job\<rparr>"

definition put_artifact :: "engine_env \<Rightarrow> workspace_request \<Rightarrow> string \<Rightarrow> artifact_data \<Rightarrow> artifact_ref eng" where
  "put_artifact env r kind data =
     (case ev_Put env (wr_TenantID r) (wr_RunID r) kind data of Inl e \<Rightarrow> raise e | Inr ref \<Rightarrow> ret ref)"

definition pin :: "artifact_ref \<Rightarrow> unit eng" where
  "pin ref = journal_do (\<lambda>j. pinArtifact j ref)"

definition publishLogs :: "engine_lib \<Rightarrow> engine_env \<Rightarrow> operation \<Rightarrow> operation eng" where
  "publishLogs lib env x =
     ebind (get_logPolicy (op_ID x)) (\<lambda>policy. case policy of
       None \<Rightarrow> ret x
     | Some p \<Rightarrow>
         ebind (files_view (op_WorkspaceID x) (\<lambda>f. readLogCapture (el_sha lib) (el_wire lib) (el_meta lib)
                  (map_of (wf_Spools f) (op_ID x)) (map_of (wf_Metas f) (op_ID x)) x p)) (\<lambda>(captured, data, preview).
         ebind (\<lambda>w. (w, result_job lib x)) (\<lambda>job.
         ebind (if jb_NeverStarted job
                then ebind (get_dispatch (op_ID x)) (\<lambda>(dispatched, intent).
                  ebind (guard (\<not> intent) (sentinel ErrReconciliation)) (\<lambda>_. ret (never_started_summary captured)))
                else ret captured) (\<lambda>summary.
         ebind (put_artifact env (or_Workspace (op_Request x)) ''operation_log'' (ArtLog data)) (\<lambda>ref.
         ebind (pin ref) (\<lambda>_.
           ret (with_log_job lib (log_job job (summary\<lparr>lg_Artifact := ref\<rparr>) preview) x)))))))"

subsection \<open>Settling an operation\<close>

definition settled :: "operation \<Rightarrow> op_status \<Rightarrow> bytes \<Rightarrow> rerr option \<Rightarrow> string \<Rightarrow> bool \<Rightarrow> operation" where
  "settled x status result err afterHash cancelled = x\<lparr>
     op_Request := without_grant (op_Request x),
     op_Status := status, op_Result := result, op_AfterHash := afterHash,
     op_AfterRevision := (if afterHash \<noteq> op_BeforeHash x then or_ExpectedRevision (op_Request x) + 1
                          else or_ExpectedRevision (op_Request x)),
     op_Error := (case err of None \<Rightarrow> op_Error x | Some e \<Rightarrow> error_text e),
     op_CancelRequested := (op_CancelRequested x \<or> cancelled)\<rparr>"

definition publish_receipt :: "engine_lib \<Rightarrow> engine_env \<Rightarrow> operation \<Rightarrow> operation eng" where
  "publish_receipt lib env x0 =
     ebind (check (ev_Publication env)) (\<lambda>_.
     ebind (publishLogs lib env x0) (\<lambda>x.
     ebind (put_artifact env (or_Workspace (op_Request x)) ''operation_receipt'' (ArtReceipt x)) (\<lambda>ref.
     ebind (pin ref) (\<lambda>_.
     ebind (check (ev_Fault env ''after_receipt_before_commit'')) (\<lambda>_.
       journal_do (\<lambda>j. finish j (x\<lparr>op_Receipt := ref\<rparr>)))))))"

text \<open>A failed or cancelled patch that left neither the old tree nor the planned one.\<close>

definition partial_patch :: "operation \<Rightarrow> op_status \<Rightarrow> string \<Rightarrow> bool" where
  "partial_patch x status afterHash \<longleftrightarrow> or_Kind (op_Request x) = ''apply_patch'' \<and> status \<noteq> OpSucceeded
     \<and> afterHash \<noteq> op_BeforeHash x \<and> afterHash \<noteq> op_ExpectedAfterHash x"

definition complete :: "engine_config \<Rightarrow> engine_lib \<Rightarrow> engine_env \<Rightarrow> operation \<Rightarrow> op_status \<Rightarrow> bytes
    \<Rightarrow> rerr option \<Rightarrow> unit eng" where
  "complete cfg lib env x status result err =
     attempt (read_checkout cfg lib (op_WorkspaceID x)) (\<lambda>after.
     attempt (syncWorkspace cfg env (op_WorkspaceID x)) (\<lambda>_.
       let afterHash = treeHash (el_sha lib) after in
       attempt (if or_Kind (op_Request x) = ''verify'' \<and> status \<noteq> OpCancelled
                then validateVerification cfg lib x afterHash else ret ()) (\<lambda>_.
         if partial_patch x status afterHash
         then unknown_on x (ROther ''partially applied patch; original operation must be reconciled'')
         else
           attempt (attempt (get_operation (op_ID x)) (\<lambda>current. ret (op_CancelRequested current)) (\<lambda>_. ret False))
             (\<lambda>cancelled. attempt (publish_receipt lib env (settled x status result err afterHash cancelled))
                (\<lambda>_. ret ()) (unknown_on x))
             (unknown_on x))
         (unknown_on x))
       (unknown_on x))
       (unknown_on x)"

subsection \<open>Running a job\<close>

definition job_command :: "profile \<Rightarrow> operation_request \<Rightarrow> rerr + string list" where
  "job_command profile r =
     res_bind
       (if or_Kind r = ''run_command''
        then res_bind (decodeArgs decode_CommandArgs \<lparr>ca_Command = []\<rparr> (or_Args r)) (\<lambda>args. Inr (ca_Command args))
        else res_bind (decodeArgs decode_VerifyArgs \<lparr>va_Target = False\<rparr> (or_Args r)) (\<lambda>args.
          Inr (if va_Target args then pf_TargetCommand profile else pf_VerifyCommand profile)))
       (\<lambda>command. if command = [] then Inl (sentinel ErrInvalid) else Inr command)"

text \<open>The capture is kept in memory and in the spool and metadata files.\<close>

definition write_capture :: "string \<Rightarrow> log_capture \<Rightarrow> bytes option \<Rightarrow> ws_files \<Rightarrow> ws_files" where
  "write_capture i c meta f = f\<lparr>wf_Spools := (i, lc_Spool c) # AList.delete i (wf_Spools f),
     wf_Metas := (case meta of None \<Rightarrow> wf_Metas f | Some m \<Rightarrow> (i, m) # AList.delete i (wf_Metas f))\<rparr>"

definition open_capture :: "engine_lib \<Rightarrow> operation \<Rightarrow> log_policy option \<Rightarrow> log_capture option eng" where
  "open_capture lib x policy = (case policy of
     None \<Rightarrow> ret None
   | Some p \<Rightarrow> files_do (op_WorkspaceID x) (\<lambda>f.
       case newLogCapture (el_sha lib) (el_wire lib) (map_of (wf_Spools f) (op_ID x)) x p of
         Inl e \<Rightarrow> (f, Inl e)
       | Inr c \<Rightarrow> (write_capture (op_ID x) c None f, Inr (Some c))))"

definition finish_capture :: "engine_lib \<Rightarrow> capture_end \<Rightarrow> operation \<Rightarrow> log_capture option \<Rightarrow> log_capture option eng" where
  "finish_capture lib e x capture = (case capture of
     None \<Rightarrow> ret None
   | Some c \<Rightarrow> files_do (op_WorkspaceID x) (\<lambda>f.
       let r = LogCapture_Finish (el_sha lib) (el_encode_meta lib) (ce_Closing e) (ce_Metadata e) (ce_Complete e)
             (ce_Reason e) (ce_Requested e) (ce_Observed e) (map_of (wf_Metas f) (op_ID x)) c
       in (write_capture (op_ID x) (fst r) (fst (snd r)) f, Inr (Some (fst r)))))"

text \<open>\<open>capture.Finish(false, "capture_gap", false, false)\<close>, which runs when \<open>execute\<close> returns.\<close>

definition gap_end :: "engine_env \<Rightarrow> capture_end" where
  "gap_end env = \<lparr>ce_Closing = fst (ev_Finish env), ce_Metadata = snd (ev_Finish env), ce_Complete = False,
     ce_Reason = ''capture_gap'', ce_Requested = False, ce_Observed = False\<rparr>"

definition error_of :: "rerr + 'a \<Rightarrow> rerr option" where
  "error_of r = (case r of Inl e \<Rightarrow> Some e | Inr _ \<Rightarrow> None)"

definition outcome :: "'a eng \<Rightarrow> rerr option eng" where
  "outcome m = attempt m (\<lambda>_. ret None) (\<lambda>e. ret (Some e))"

definition captured_writes :: "backend_start \<Rightarrow> log_capture \<Rightarrow> log_capture" where
  "captured_writes b c = foldl (\<lambda>c (io, stream, data). fst (LogCapture_Write io stream data c)) c (bs_Writes b)"

definition process_effect :: "backend_start \<Rightarrow> operation \<Rightarrow> ws_files \<Rightarrow> ws_files" where
  "process_effect b x f = f\<lparr>wf_Checkout := bs_Checkout b (wf_Checkout f),
     wf_Candidates := map (\<lambda>(i, n). (i, if i = op_ID x then bs_Candidate b n else n)) (wf_Candidates f)\<rparr>"

text \<open>\<open>Backend.Start\<close> with the callbacks \<open>OnCreated\<close> and \<open>BeforeStart\<close> and the capture.\<close>

definition start_job :: "engine_lib \<Rightarrow> engine_env \<Rightarrow> operation \<Rightarrow> log_capture option
    \<Rightarrow> (log_capture option \<times> (rerr + job)) eng" where
  "start_job lib env x capture =
     (let b = ev_Start env in
      ebind (case (capture, bs_Container b) of
          (Some c, Some container) \<Rightarrow> outcome (journal_do (\<lambda>j. recordLogContainer j (op_ID x) container))
        | _ \<Rightarrow> ret None) (\<lambda>created.
      ebind (if bs_BeforeStart b created then outcome (journal_do (\<lambda>j. startIntent j (op_ID x)))
             else ret None) (\<lambda>intent.
      ebind (files_do (op_WorkspaceID x) (\<lambda>f. (process_effect b x f, Inr ()))) (\<lambda>_.
      ebind (case (capture, bs_Finish b) of
          (None, _) \<Rightarrow> ret None
        | (Some c, None) \<Rightarrow> files_do (op_WorkspaceID x) (\<lambda>f.
            (write_capture (op_ID x) (captured_writes b c) None f, Inr (Some (captured_writes b c))))
        | (Some c, Some e) \<Rightarrow> finish_capture lib e x (Some (captured_writes b c))) (\<lambda>capture'.
        ret (capture', bs_Result b created intent))))))"

definition closing :: "bool eng" where
  "closing = view (\<lambda>w. Inr (wd_Closed w))"

text \<open>
  The loop that waits for the job. It ends with an error, or with the job when it runs no more; it
  has no result while the job still runs after the given turns.
\<close>

fun wait_job :: "poll list \<Rightarrow> job \<Rightarrow> op_status \<Rightarrow> (job \<times> op_status) option eng" where
  "wait_job [] job status = ret (if jb_Running job then None else Some (job, status))"
| "wait_job (p # ps) job status =
     (if \<not> jb_Running job then ret (Some (job, status))
      else case p of
          PollDone err cancelled \<Rightarrow>
            ebind closing (\<lambda>closed.
              if closed then raise err
              else case cancelled of
                  Inl e \<Rightarrow> raise e
                | Inr job' \<Rightarrow>
                    if jb_Running job' then raise (sentinel ErrReconciliation)
                    else wait_job ps job' (if jb_Interrupted job' then OpCancelled else status))
        | PollInspect (Inl e) \<Rightarrow> raise e
        | PollInspect (Inr job') \<Rightarrow> wait_job ps job' status)"

text \<open>The status of a job that has ended.\<close>

definition job_status :: "job \<Rightarrow> op_status \<Rightarrow> op_status" where
  "job_status job status =
     (if status = OpCancelled then OpCancelled
      else if jb_ExitCode job \<noteq> 0 \<or> (jb_Log job \<noteq> None \<and> \<not> VerificationLogValid job) then OpFailed
      else status)"

definition conclude_job :: "engine_config \<Rightarrow> engine_lib \<Rightarrow> engine_env \<Rightarrow> operation \<Rightarrow> job \<Rightarrow> op_status \<Rightarrow> unit eng" where
  "conclude_job cfg lib env x job status =
     (if \<not> jb_Started job then unknown_on x (ROther ''job exists but start was not confirmed'')
      else attempt (check (ev_Fault env ''after_job_exit'')) (\<lambda>_.
        attempt (check (ev_Fault env ''before_receipt''))
          (\<lambda>_. complete cfg lib env x (job_status job status) (el_job lib job) None) (unknown_on x))
        (unknown_on x))"

definition run_job :: "engine_config \<Rightarrow> engine_lib \<Rightarrow> engine_env \<Rightarrow> operation \<Rightarrow> log_capture option
    \<Rightarrow> log_capture option eng" where
  "run_job cfg lib env x capture0 =
     ebind (start_job lib env x capture0) (\<lambda>(capture, started). case started of
       Inl e \<Rightarrow> ebind (finish_capture lib (gap_end env) x capture) (\<lambda>capture'.
         ebind (unknown_on x e) (\<lambda>_. ret capture'))
     | Inr job \<Rightarrow>
         ebind
           (attempt (check (ev_Fault env ''after_job_start'')) (\<lambda>_.
             attempt (wait_job (ev_Polls env) job (if jb_Interrupted job then OpCancelled else OpSucceeded))
               (\<lambda>r. case r of
                   None \<Rightarrow> ret ()
                 | Some (job', status) \<Rightarrow> conclude_job cfg lib env x job' status)
               (unknown_on x))
             (unknown_on x))
           (\<lambda>_. ret capture))"

definition execute_process :: "engine_config \<Rightarrow> engine_lib \<Rightarrow> engine_env \<Rightarrow> operation \<Rightarrow> tree \<Rightarrow> unit eng" where
  "execute_process cfg lib env x before =
     attempt (get_workspace (op_WorkspaceID x)) (\<lambda>w.
       let profile = (case map_of (ec_Profiles cfg) (ws_ProfileID w) of
             None \<Rightarrow> \<lparr>pf_VerifyCommand = [], pf_TargetCommand = []\<rparr> | Some p \<Rightarrow> p)
       in case job_command profile (op_Request x) of
         Inl e \<Rightarrow> complete cfg lib env x OpFailed [] (Some e)
       | Inr command \<Rightarrow>
           attempt (if or_Kind (op_Request x) = ''verify'' then cleanCandidate cfg lib env x before else ret ()) (\<lambda>_.
           attempt (get_logPolicy (op_ID x)) (\<lambda>policy.
           attempt (open_capture lib x policy) (\<lambda>capture.
             ebind (run_job cfg lib env x capture) (\<lambda>capture'.
             ebind (finish_capture lib (gap_end env) x capture') (\<lambda>_. ret ())))
             (unknown_on x)) (unknown_on x)) (unknown_on x))
       (unknown_on x)"

subsection \<open>Running a file tool, and the executor\<close>

definition run_file_tool :: "engine_config \<Rightarrow> engine_lib \<Rightarrow> engine_env \<Rightarrow> operation \<Rightarrow> tree \<Rightarrow> ws_files
    \<Rightarrow> ws_files \<times> (rerr + bytes)" where
  "run_file_tool cfg lib env x before f =
     (let kind = or_Kind (op_Request x)
      in case if kind = ''get_diff'' then open_dir (wf_Baseline f) else Inr [] of
          Inl e \<Rightarrow> (f, Inl e)
        | Inr baseline \<Rightarrow>
            (case if kind = ''apply_patch'' then open_dir (wf_Checkout f) else Inr [] of
               Inl e \<Rightarrow> (f, Inl e)
             | Inr d \<Rightarrow>
                 (let r = fileTool (el_sha lib) (ec_Limits cfg) (ev_Patch env) x baseline before d
                  in (if kind = ''apply_patch'' then f\<lparr>wf_Checkout := Some (FsDir (fst r))\<rparr> else f, snd r))))"

definition execute_tool :: "engine_config \<Rightarrow> engine_lib \<Rightarrow> engine_env \<Rightarrow> operation \<Rightarrow> tree \<Rightarrow> unit eng" where
  "execute_tool cfg lib env x before =
     ebind (attempt (files_do (op_WorkspaceID x) (run_file_tool cfg lib env x before))
              (\<lambda>r. ret (OpSucceeded, r, None)) (\<lambda>e. ret (OpFailed, [], Some e))) (\<lambda>(status, result, err).
       attempt (check (ev_Fault env ''before_receipt''))
         (\<lambda>_. complete cfg lib env x status result err) (unknown_on x))"

definition never_started_result :: bytes where
  "never_started_result = print_value (JObject [(''never_started'', JBool True)])"

definition execute :: "engine_config \<Rightarrow> engine_lib \<Rightarrow> engine_env \<Rightarrow> operation \<Rightarrow> tree \<Rightarrow> unit eng" where
  "execute cfg lib env x before =
     ebind (journal_do (\<lambda>j. (markRunning j (op_ID x), Inr ()))) (\<lambda>_.
     attempt (get_operation (op_ID x)) (\<lambda>current.
       if op_CancelRequested current
       then complete cfg lib env x OpCancelled never_started_result (Some (ROther ''context canceled''))
       else if isProcess (or_Kind (op_Request x)) then execute_process cfg lib env x before
       else execute_tool cfg lib env x before)
       (unknown_on x))"

end
