(* ===== verification/Runner_Service.thy ===== *)
theory Runner_Service
  imports Runner_Engine
begin

section \<open>The operations of the runner (internal/runner/engine.go, log_publication.go, storage.go)\<close>

text \<open>
  The methods of \<open>Service\<close>, one definition each, and what they share. The readings of the clock are
  numbered in the order the handler takes them.
\<close>

subsection \<open>Preparing a workspace\<close>

definition reopen_workspace :: "prepare_request \<Rightarrow> workspace \<Rightarrow> rerr + workspace" where
  "reopen_workspace r existing =
     (case workspaceBinding existing (pr_Workspace r) of
        Some e \<Rightarrow> Inl e
      | None \<Rightarrow>
          if ws_SourceID existing \<noteq> pr_SourceID r \<or> ws_ProfileID existing \<noteq> pr_ProfileID r
          then Inl (sentinel ErrConflict)
          else if wr_Epoch (pr_Workspace r) \<noteq> ws_Epoch existing \<or> ws_Released existing \<or> ws_Stopped existing
          then Inl (sentinel ErrFenced)
          else Inr existing)"

definition import_baseline :: "engine_lib \<Rightarrow> engine_env \<Rightarrow> tree \<Rightarrow> ws_files \<Rightarrow> ws_files \<times> (rerr + unit)" where
  "import_baseline lib env files f =
     (let r = resumeImport (el_sha lib) (ev_Copy env) (\<lambda>_. ev_Fault env ''after_import_file'') files (wf_Baseline f)
      in (f\<lparr>wf_Baseline := fst r\<rparr>, snd r))"

definition import_checkout :: "engine_lib \<Rightarrow> engine_env \<Rightarrow> tree \<Rightarrow> ws_files \<Rightarrow> ws_files \<times> (rerr + unit)" where
  "import_checkout lib env files f =
     (let r = resumeImport (el_sha lib) (ev_Copy env) (\<lambda>_. ev_Fault env ''after_import_file'') files (wf_Checkout f)
      in (f\<lparr>wf_Checkout := fst r\<rparr>, snd r))"

definition new_workspace :: "prepare_request \<Rightarrow> string \<Rightarrow> workspace" where
  "new_workspace r digest = \<lparr>ws_TenantID = wr_TenantID (pr_Workspace r), ws_RunID = wr_RunID (pr_Workspace r),
     ws_ID = wr_WorkspaceID (pr_Workspace r), ws_SourceID = pr_SourceID r, ws_ProfileID = pr_ProfileID r,
     ws_Epoch = wr_Epoch (pr_Workspace r), ws_Revision = 1, ws_ActiveOperation = [], ws_Stopped = False,
     ws_Adopting = False, ws_Released = False, ws_BaselineHash = digest\<rparr>"

definition initialize_workspace :: "engine_config \<Rightarrow> engine_lib \<Rightarrow> engine_env \<Rightarrow> prepare_request \<Rightarrow> dir
    \<Rightarrow> workspace eng" where
  "initialize_workspace cfg lib env r source =
     (let i = wr_WorkspaceID (pr_Workspace r) in
      ebind (\<lambda>w. (w, readTree (el_sha lib) (ec_Limits cfg) source)) (\<lambda>files.
      ebind (allocateStorage cfg env r (treeHash (el_sha lib) files)) (\<lambda>_.
      ebind (files_do i (import_baseline lib env files)) (\<lambda>_.
      ebind (files_do i (import_checkout lib env files)) (\<lambda>_.
      ebind (check (ev_Chmod env)) (\<lambda>_.
      ebind (syncWorkspace cfg env i) (\<lambda>_.
      ebind (check (ev_Fault env ''after_import_before_workspace'')) (\<lambda>_.
        journal_do (\<lambda>j. createWorkspace j (new_workspace r (treeHash (el_sha lib) files)))))))))))"

definition PrepareWorkspace :: "engine_config \<Rightarrow> engine_lib \<Rightarrow> engine_env \<Rightarrow> prepare_request \<Rightarrow> workspace eng" where
  "PrepareWorkspace cfg lib env r =
     ebind (authorize cfg lib (ev_Now env 0) (pr_Workspace r) ''prepare'') (\<lambda>_.
       case map_of (ec_Sources cfg) (pr_SourceID r) of
         None \<Rightarrow> raise (sentinel ErrForbidden)
       | Some source \<Rightarrow>
           ebind (guard (map_of (ec_Profiles cfg) (pr_ProfileID r) \<noteq> None) (sentinel ErrForbidden)) (\<lambda>_.
           ebind (engine_lock env (wr_WorkspaceID (pr_Workspace r))) (\<lambda>_.
           ebind (authorize cfg lib (ev_Now env 1) (pr_Workspace r) ''prepare'') (\<lambda>_.
           attempt (get_workspace (wr_WorkspaceID (pr_Workspace r)))
             (\<lambda>existing w. (w, reopen_workspace r existing))
             (\<lambda>e. if is_err e ErrNotFound then initialize_workspace cfg lib env r source else raise e)))))"

subsection \<open>Starting an operation\<close>

definition known_kind :: "string \<Rightarrow> bool" where
  "known_kind k \<longleftrightarrow> k \<in> {''list_files'', ''read_file'', ''search_code'', ''apply_patch'', ''run_command'',
     ''get_diff'', ''verify''}"

text \<open>White space before a valid JSON document is the white space of JSON.\<close>

definition request_ok :: "engine_lib \<Rightarrow> gotime \<Rightarrow> operation_request \<Rightarrow> bool" where
  "request_ok lib now r \<longleftrightarrow> valid_id (or_OperationID r) \<and> or_ExpectedRevision r \<noteq> 0 \<and> or_PolicyVersion r \<noteq> []
     \<and> or_ArgsHash r = el_sha lib (or_Args r) \<and> length (or_Args r) \<le> 262144 \<and> json_valid (or_Args r)
     \<and> take 1 (skip_ws (or_Args r)) = ''{'' \<and> now < or_Deadline r"

definition start_permission :: "operation_request \<Rightarrow> string" where
  "start_permission r = (if or_Kind r = ''verify'' then ''verify'' else ''execute'')"

definition existingOperation :: "operation_request \<Rightarrow> operation \<Rightarrow> operation eng" where
  "existingOperation r x =
     ebind (guard (sameBinding (op_Request x) r) (sentinel ErrConflict)) (\<lambda>_.
     ebind (get_workspace (or_WorkspaceID r)) (\<lambda>w.
     ebind (check (workspaceBinding w (or_Workspace r))) (\<lambda>_.
     ebind (guard (\<not> (ws_Epoch w \<noteq> or_Epoch r \<or> ws_Adopting w \<or> ws_Released w \<or> ws_Stopped w))
              (sentinel ErrFenced)) (\<lambda>_. ret x))))"

text \<open>The first look for an operation with the identifier, before the lock.\<close>

definition replayed_operation :: "operation_request \<Rightarrow> operation \<Rightarrow> operation eng" where
  "replayed_operation r x =
     ebind (guard (sameBinding (op_Request x) r) (sentinel ErrConflict)) (\<lambda>_.
     ebind (get_workspace (or_WorkspaceID r)) (\<lambda>w.
     ebind (guard (workspaceBinding w (or_Workspace r) = None) (sentinel ErrForbidden)) (\<lambda>_.
     ebind (guard (\<not> (ws_Epoch w \<noteq> or_Epoch r \<or> ws_Adopting w \<or> ws_Stopped w)) (sentinel ErrFenced)) (\<lambda>_.
       ret x))))"

definition job_id :: "engine_config \<Rightarrow> engine_lib \<Rightarrow> operation_request \<Rightarrow> string" where
  "job_id cfg lib r = ''forge-'' @ take 40 (el_sha lib (join_with [CHR 0x0A]
     [ec_RootDir cfg, or_TenantID r, or_RunID r, or_WorkspaceID r, or_OperationID r]))"

definition new_operation :: "engine_config \<Rightarrow> engine_lib \<Rightarrow> operation_request \<Rightarrow> tree \<Rightarrow> rerr + operation" where
  "new_operation cfg lib r before =
     (let x = \<lparr>op_Request = r, op_Status = OpPrepared, op_JobID = job_id cfg lib r,
           op_BeforeHash = treeHash (el_sha lib) before, op_ExpectedAfterHash = [], op_AfterHash = [],
           op_AfterRevision = 0, op_Result = [], op_ResultTruncated = False, op_Receipt = zero_ref,
           op_Error = [], op_CancelRequested = False\<rparr>
      in if or_Kind r = ''apply_patch''
         then res_bind (patchPlan (el_sha lib) (ec_Limits cfg) (or_Args r) before)
           (\<lambda>(es, after). Inr (x\<lparr>op_ExpectedAfterHash := treeHash (el_sha lib) after\<rparr>))
         else Inr x)"

definition launch :: "string \<Rightarrow> unit eng" where
  "launch i = access (\<lambda>w. if wd_Closed w then (w, Inl (ROther ''runner shutting down after prepare''))
     else (w\<lparr>wd_Live := i # wd_Live w\<rparr>, Inr ()))"

text \<open>
  Under the lock. The result is the operation and, when an executor was started for it, the tree it
  is given; the lock then passes to the executor.
\<close>

definition start_locked :: "engine_config \<Rightarrow> engine_lib \<Rightarrow> engine_env \<Rightarrow> operation_request
    \<Rightarrow> (operation \<times> tree option) eng" where
  "start_locked cfg lib env r =
     ebind (read_checkout cfg lib (or_WorkspaceID r)) (\<lambda>before.
     ebind (\<lambda>w. (w, new_operation cfg lib r before)) (\<lambda>x0.
     ebind (journal_do (\<lambda>j. reserve j x0 (ec_Logs cfg))) (\<lambda>(x, created).
       if \<not> created then ret (x, None)
       else
         ebind (check (ev_Fault env ''after_prepared'')) (\<lambda>_.
         ebind (launch (or_OperationID r)) (\<lambda>_. ret (x, Some before))))))"

definition StartOperation :: "engine_config \<Rightarrow> engine_lib \<Rightarrow> engine_env \<Rightarrow> operation_request
    \<Rightarrow> (operation \<times> tree option) eng" where
  "StartOperation cfg lib env r =
     ebind (authorize cfg lib (ev_Now env 0) (or_Workspace r) (start_permission r)) (\<lambda>_.
     ebind (guard (request_ok lib (ev_Now env 1) r) (sentinel ErrInvalid)) (\<lambda>_.
     ebind (check (map_option sentinel (ValidateCanonicalJSON (or_Args r)))) (\<lambda>_.
     ebind (guard (known_kind (or_Kind r)) (sentinel ErrInvalid)) (\<lambda>_.
     ebind (get_workspace (or_WorkspaceID r)) (\<lambda>w.
     ebind (check (workspaceBinding w (or_Workspace r))) (\<lambda>_.
     ebind (guard (\<not> (ws_Epoch w \<noteq> or_Epoch r \<or> ws_Adopting w \<or> ws_Released w \<or> ws_Stopped w))
              (sentinel ErrFenced)) (\<lambda>_.
     attempt (get_operation (or_OperationID r))
       (\<lambda>old. ebind (replayed_operation r old) (\<lambda>x. ret (x, None)))
       (\<lambda>e. if \<not> is_err e ErrNotFound then raise e
        else
          ebind (if isProcess (or_Kind r) then check (ev_Check env) else ret ()) (\<lambda>_.
          ebind (engine_lock env (or_WorkspaceID r)) (\<lambda>_.
          ebind (authorize cfg lib (ev_Now env 2) (or_Workspace r) (start_permission r)) (\<lambda>_.
          attempt (get_operation (or_OperationID r))
            (\<lambda>existing. ebind (existingOperation r existing) (\<lambda>x. ret (x, None)))
            (\<lambda>e. if \<not> is_err e ErrNotFound then raise e else start_locked cfg lib env r))))))))))))"

text \<open>The goroutine of an operation: the executor, and then its entry in \<open>cancels\<close> goes.\<close>

definition executor :: "engine_config \<Rightarrow> engine_lib \<Rightarrow> engine_env \<Rightarrow> operation \<Rightarrow> tree \<Rightarrow> unit eng" where
  "executor cfg lib env x before =
     ebind (execute cfg lib env x before) (\<lambda>_.
       access (\<lambda>w. (w\<lparr>wd_Live := removeAll (op_ID x) (wd_Live w)\<rparr>, Inr ())))"

subsection \<open>Reconciling an operation\<close>

definition not_dispatched_result :: bytes where
  "not_dispatched_result = print_value (JObject [(''never_started'', JBool True), (''dispatch_not_started'', JBool True)])"

definition reconciled_result :: bytes where
  "reconciled_result = print_value (JObject [(''reconciled'', JBool True)])"

definition unchanged_result :: bytes where
  "unchanged_result = print_value (JObject [(''reconciled'', JBool True), (''unchanged'', JBool True)])"

text \<open>An orphaned job that runs, or was not seen to start, is stopped when it must be.\<close>

definition stop_job :: "engine_config \<Rightarrow> engine_env \<Rightarrow> bool \<Rightarrow> job \<Rightarrow> rerr + job" where
  "stop_job cfg env intent job =
     (if \<not> jb_Started job \<and> \<not> intent
      then (if ec_CancelNeverDispatched cfg then ev_CancelNever env else Inl (sentinel ErrReconciliation))
      else ev_Cancel env)"

definition settle_job :: "engine_config \<Rightarrow> engine_lib \<Rightarrow> engine_env \<Rightarrow> operation \<Rightarrow> job \<Rightarrow> bool \<Rightarrow> operation eng" where
  "settle_job cfg lib env x job interrupted =
     (if jb_Running job then
        ebind (get_logPolicy (op_ID x)) (\<lambda>policy.
          if policy \<noteq> None then ebind (unknown_on x ErrCaptureGap) (\<lambda>_. get_operation (op_ID x)) else ret x)
      else if \<not> jb_Started job \<and> jb_NeverStarted job
      then ebind (complete cfg lib env x OpCancelled (el_job lib job) None) (\<lambda>_. get_operation (op_ID x))
      else if \<not> jb_Started job
      then ebind (unknown_on x (sentinel ErrReconciliation)) (\<lambda>_. get_operation (op_ID x))
      else
        ebind (complete cfg lib env x
            (if interrupted then OpCancelled else if jb_ExitCode job \<noteq> 0 then OpFailed else OpSucceeded)
            (el_job lib job) None) (\<lambda>_. get_operation (op_ID x)))"

definition reconcile_process :: "engine_config \<Rightarrow> engine_lib \<Rightarrow> engine_env \<Rightarrow> operation \<Rightarrow> bool \<Rightarrow> bool
    \<Rightarrow> operation eng" where
  "reconcile_process cfg lib env x cancelJob intent =
     (case ev_Inspect env of
        Inl e \<Rightarrow> ebind (unknown_on x e) (\<lambda>_. get_operation (op_ID x))
      | Inr job \<Rightarrow>
          if (jb_Running job \<or> \<not> jb_Started job)
            \<and> (cancelJob \<or> op_CancelRequested x \<or> or_Deadline (op_Request x) \<le> ev_Now env 8)
          then (case stop_job cfg env intent job of
              Inl e \<Rightarrow> ebind (unknown_on x e) (\<lambda>_. raise e)
            | Inr job' \<Rightarrow> settle_job cfg lib env x job' (jb_Interrupted job'))
          else settle_job cfg lib env x job False)"

definition reconcile_tool :: "engine_config \<Rightarrow> engine_lib \<Rightarrow> engine_env \<Rightarrow> operation \<Rightarrow> operation eng" where
  "reconcile_tool cfg lib env x =
     ebind (read_checkout cfg lib (op_WorkspaceID x)) (\<lambda>after.
       let hash = treeHash (el_sha lib) after in
       ebind
         (if or_Kind (op_Request x) = ''apply_patch'' \<and> hash = op_ExpectedAfterHash x
          then complete cfg lib env x OpSucceeded reconciled_result None
          else if hash = op_BeforeHash x
          then complete cfg lib env x OpFailed unchanged_result
            (Some (ROther ''unconfirmed filesystem operation left workspace unchanged''))
          else unknown_on x (sentinel ErrReconciliation))
         (\<lambda>_. get_operation (op_ID x)))"

definition reconcileLocked :: "engine_config \<Rightarrow> engine_lib \<Rightarrow> engine_env \<Rightarrow> operation \<Rightarrow> bool \<Rightarrow> operation eng" where
  "reconcileLocked cfg lib env x0 cancelJob =
     ebind (get_operation (op_ID x0)) (\<lambda>x.
       if Status_Terminal (op_Status x) then ret x
       else
         ebind (get_dispatch (op_ID x)) (\<lambda>(dispatched, intent).
           if \<not> dispatched \<and> (cancelJob \<or> op_CancelRequested x)
           then ebind (complete cfg lib env x OpCancelled not_dispatched_result None) (\<lambda>_. get_operation (op_ID x))
           else if isProcess (or_Kind (op_Request x)) then reconcile_process cfg lib env x cancelJob intent
           else reconcile_tool cfg lib env x))"

definition boundOperation :: "inspect_request \<Rightarrow> operation eng" where
  "boundOperation r =
     ebind (get_workspace (wr_WorkspaceID (ir_Workspace r))) (\<lambda>w.
     ebind (check (workspaceBinding w (ir_Workspace r))) (\<lambda>_.
     ebind (guard (\<not> wr_Epoch (ir_Workspace r) < ws_Epoch w) (sentinel ErrFenced)) (\<lambda>_.
     ebind (get_operation (ir_OperationID r)) (\<lambda>x.
     ebind (guard (op_WorkspaceID x = wr_WorkspaceID (ir_Workspace r)
              \<and> or_TenantID (op_Request x) = wr_TenantID (ir_Workspace r)
              \<and> or_RunID (op_Request x) = wr_RunID (ir_Workspace r)) (sentinel ErrForbidden)) (\<lambda>_.
       ret x)))))"

definition is_live :: "string \<Rightarrow> bool eng" where
  "is_live i = view (\<lambda>w. Inr (i \<in> set (wd_Live w)))"

definition InspectOperation :: "engine_config \<Rightarrow> engine_lib \<Rightarrow> engine_env \<Rightarrow> inspect_request \<Rightarrow> operation eng" where
  "InspectOperation cfg lib env r =
     ebind (authorize cfg lib (ev_Now env 0) (ir_Workspace r) ''inspect'') (\<lambda>_.
     ebind (boundOperation r) (\<lambda>x.
       if Status_Terminal (op_Status x) then ret x
       else
         ebind (is_live (ir_OperationID r)) (\<lambda>live.
           if live then ret x
           else ebind (engine_lock env (wr_WorkspaceID (ir_Workspace r))) (\<lambda>_.
             reconcileLocked cfg lib env x False))))"

definition CancelOperation :: "engine_config \<Rightarrow> engine_lib \<Rightarrow> engine_env \<Rightarrow> inspect_request \<Rightarrow> operation eng" where
  "CancelOperation cfg lib env r =
     ebind (authorize cfg lib (ev_Now env 0) (ir_Workspace r) ''cancel'') (\<lambda>_.
     ebind (boundOperation r) (\<lambda>x.
       if Status_Terminal (op_Status x) then ret x
       else
         ebind (get_workspace (wr_WorkspaceID (ir_Workspace r))) (\<lambda>w.
         ebind (if ws_Epoch w < wr_Epoch (ir_Workspace r)
                then ebind (journal_do (\<lambda>j. fence j (ir_Workspace r))) (\<lambda>_. ret ()) else ret ()) (\<lambda>_.
         ebind (journal_do (\<lambda>j. (requestCancel j (ir_OperationID r), Inr ()))) (\<lambda>_.
         ebind (engine_lock env (wr_WorkspaceID (ir_Workspace r))) (\<lambda>_.
           reconcileLocked cfg lib env x True))))))"

subsection \<open>Snapshots, release, adoption and stop\<close>

definition publish :: "engine_env \<Rightarrow> workspace_request \<Rightarrow> string \<Rightarrow> artifact_data \<Rightarrow> artifact_ref eng" where
  "publish env r kind data =
     ebind (check (ev_Publication env)) (\<lambda>_.
     ebind (put_artifact env r kind data) (\<lambda>ref. ebind (pin ref) (\<lambda>_. ret ref)))"

definition SealSnapshot :: "engine_config \<Rightarrow> engine_lib \<Rightarrow> engine_env \<Rightarrow> workspace_request \<Rightarrow> snapshot eng" where
  "SealSnapshot cfg lib env r =
     ebind (authorize cfg lib (ev_Now env 0) r ''snapshot'') (\<lambda>_.
     ebind (engine_lock env (wr_WorkspaceID r)) (\<lambda>_.
     ebind (authorize cfg lib (ev_Now env 1) r ''snapshot'') (\<lambda>_.
     ebind (get_workspace (wr_WorkspaceID r)) (\<lambda>w.
     ebind (check (workspaceBinding w r)) (\<lambda>_.
     ebind (guard (ws_Epoch w = wr_Epoch r \<and> \<not> ws_Released w) (sentinel ErrFenced)) (\<lambda>_.
     ebind (guard (ws_ActiveOperation w = []) (sentinel ErrReconciliation)) (\<lambda>_.
     ebind (read_checkout cfg lib (wr_WorkspaceID r)) (\<lambda>files.
     ebind (publish env r ''workspace_snapshot'' (ArtSnapshot w files)) (\<lambda>ref.
       ret \<lparr>sn_Workspace = w, sn_Hash = treeHash (el_sha lib) files, sn_Artifact = ref\<rparr>)))))))))"

record cleanup_item =
  ci_ID :: string
  ci_JobID :: string
  ci_Status :: op_status
  ci_Container :: string

definition cleanup_items :: "journal \<Rightarrow> string \<Rightarrow> cleanup_item list" where
  "cleanup_items j i = concat (map (\<lambda>r. if rw_WorkspaceID r \<noteq> i then []
     else map (\<lambda>l. \<lparr>ci_ID = rw_ID r, ci_JobID = op_JobID (rw_Operation r), ci_Status = op_Status (rw_Operation r),
                ci_Container = ol_ContainerID l\<rparr>)
       (filter (\<lambda>l. ol_OperationID l = rw_ID r \<and> ol_CleanupState l \<noteq> Removed) (jr_OperationLogs j)))
     (jr_Operations j))"

definition set_cleanup :: "string \<Rightarrow> cleanup_state \<Rightarrow> unit eng" where
  "set_cleanup i s = journal_do (\<lambda>j. (setCleanupState j i s, Inr ()))"

fun cleanup_loop :: "engine_config \<Rightarrow> engine_env \<Rightarrow> cleanup_item list \<Rightarrow> unit eng" where
  "cleanup_loop cfg env [] = ret ()"
| "cleanup_loop cfg env (i # is) =
     ebind (guard (Status_Terminal (ci_Status i)) (sentinel ErrReconciliation)) (\<lambda>_.
     ebind
       (if ci_Container i = []
        then ebind (get_dispatch (ci_ID i)) (\<lambda>(dispatched, intent). guard (\<not> intent) (sentinel ErrReconciliation))
        else
          ebind (guard (ec_RemoveOwned cfg) (wrapped ErrReconciliation ''owned container cleanup unavailable'')) (\<lambda>_.
          ebind (set_cleanup (ci_ID i) Removing) (\<lambda>_. check (ev_RemoveOwned env (ci_Container i))))) (\<lambda>_.
     ebind (set_cleanup (ci_ID i) Removed) (\<lambda>_. cleanup_loop cfg env is)))"

definition cleanupLogContainers :: "engine_config \<Rightarrow> engine_env \<Rightarrow> string \<Rightarrow> unit eng" where
  "cleanupLogContainers cfg env i =
     ebind (view (\<lambda>w. Inr (cleanup_items (wd_Journal w) i))) (cleanup_loop cfg env)"

definition ReleaseWorkspace :: "engine_config \<Rightarrow> engine_lib \<Rightarrow> engine_env \<Rightarrow> workspace_request \<Rightarrow> release_result eng" where
  "ReleaseWorkspace cfg lib env r =
     ebind (authorize cfg lib (ev_Now env 0) r ''release'') (\<lambda>_.
     ebind (engine_lock env (wr_WorkspaceID r)) (\<lambda>_.
     ebind (authorize cfg lib (ev_Now env 1) r ''release'') (\<lambda>_.
     ebind (get_workspace (wr_WorkspaceID r)) (\<lambda>w.
     ebind (check (workspaceBinding w r)) (\<lambda>_.
     ebind (guard (ws_Epoch w = wr_Epoch r) (sentinel ErrFenced)) (\<lambda>_.
     ebind (guard (ws_ActiveOperation w = []) (sentinel ErrReconciliation)) (\<lambda>_.
     ebind (cleanupLogContainers cfg env (wr_WorkspaceID r)) (\<lambda>_.
     ebind (journal_do (\<lambda>j. releaseRow j r)) (\<lambda>_.
     ebind (releaseStorage cfg env (wr_WorkspaceID r)) (\<lambda>_.
       ret \<lparr>rl_WorkspaceID = wr_WorkspaceID r, rl_Released = True\<rparr>))))))))))"

definition stopAndAdopt :: "engine_config \<Rightarrow> engine_lib \<Rightarrow> engine_env \<Rightarrow> workspace_request \<Rightarrow> bool
    \<Rightarrow> runner_stop_receipt eng" where
  "stopAndAdopt cfg lib env r reopen =
     ebind (get_workspace (wr_WorkspaceID r)) (\<lambda>w.
     ebind (guard (ws_Epoch w = wr_Epoch r) (sentinel ErrFenced)) (\<lambda>_.
     ebind (if ws_ActiveOperation w \<noteq> []
            then journal_do (\<lambda>j. (requestCancel j (ws_ActiveOperation w), Inr ())) else ret ()) (\<lambda>_.
     ebind (engine_lock env (wr_WorkspaceID r)) (\<lambda>_.
     ebind (authorize cfg lib (ev_Now env 1) r (if reopen then ''adopt'' else ''cancel'')) (\<lambda>_.
     ebind (get_workspace (wr_WorkspaceID r)) (\<lambda>w.
     ebind (guard (ws_Epoch w = wr_Epoch r) (sentinel ErrFenced)) (\<lambda>_.
     ebind (if ws_ActiveOperation w \<noteq> []
            then ebind (get_operation (ws_ActiveOperation w)) (\<lambda>x0.
              ebind (reconcileLocked cfg lib env x0 True) (\<lambda>x.
                guard (Status_Terminal (op_Status x)) (sentinel ErrReconciliation)))
            else ret ()) (\<lambda>_.
     ebind (if reopen then journal_do (\<lambda>j. completeAdoption j r) else get_workspace (wr_WorkspaceID r)) (\<lambda>w.
       let receipt = \<lparr>rs_Workspace = w, rs_NoActiveOperations = True, rs_Ref = zero_ref\<rparr> in
       ebind (publish env r ''workspace_stop'' (ArtStop receipt)) (\<lambda>ref. ret (receipt\<lparr>rs_Ref := ref\<rparr>)))))))))))"

definition AdoptWorkspace :: "engine_config \<Rightarrow> engine_lib \<Rightarrow> engine_env \<Rightarrow> workspace_request
    \<Rightarrow> runner_stop_receipt eng" where
  "AdoptWorkspace cfg lib env r =
     ebind (authorize cfg lib (ev_Now env 0) r ''adopt'') (\<lambda>_.
     ebind (journal_do (\<lambda>j. fence j r)) (\<lambda>_. stopAndAdopt cfg lib env r True))"

definition StopWorkspace :: "engine_config \<Rightarrow> engine_lib \<Rightarrow> engine_env \<Rightarrow> workspace_request
    \<Rightarrow> runner_stop_receipt eng" where
  "StopWorkspace cfg lib env r =
     ebind (authorize cfg lib (ev_Now env 0) r ''cancel'') (\<lambda>_.
     ebind (journal_do (\<lambda>j. stopFence j r)) (\<lambda>_. stopAndAdopt cfg lib env r False))"

text \<open>\<open>BeginShutdown\<close>; it also ends the contexts of the executors.\<close>

definition BeginShutdown :: "unit eng" where
  "BeginShutdown = access (\<lambda>w. (w\<lparr>wd_Closed := True\<rparr>, Inr ()))"

subsection \<open>Inspecting an initialization\<close>

record initialization_state =
  is_Lease :: volume_lease
  is_WorkspaceExists :: bool
  is_Operations :: nat

definition InspectInitialization :: "string \<Rightarrow> initialization_state eng" where
  "InspectInitialization i =
     ebind (guard (valid_id i) (sentinel ErrInvalid)) (\<lambda>_.
     ebind (view (\<lambda>w. case tfind vl_WorkspaceID i (jr_VolumeLeases (wd_Journal w)) of
         None \<Rightarrow> Inl (ROther ''sql: no rows in result set'') | Some l \<Rightarrow> Inr l)) (\<lambda>l.
     ebind (attempt (get_workspace i) (\<lambda>_. ret True) (\<lambda>e. if is_err e ErrNotFound then ret False else raise e)) (\<lambda>exists.
     ebind (view (\<lambda>w. Inr (tcount (\<lambda>r. rw_WorkspaceID r = i) (jr_Operations (wd_Journal w))))) (\<lambda>n.
       ret \<lparr>is_Lease = l, is_WorkspaceExists = exists, is_Operations = n\<rparr>))))"

end
