(* ===== verification/Runner_Open.thy ===== *)
theory Runner_Open
  imports Runner_Service
begin

section \<open>Opening the runner (internal/runner/engine.go, storage.go)\<close>

text \<open>
  \<open>Open\<close> checks and completes the configuration, and \<open>openStorage\<close> takes the volumes of the pool:
  it claims each volume for this journal, registers its identity, and restores the allocations from
  the leases. \<open>wd_Owners\<close> holds the \<open>.forge-pool.owner\<close> file of each mount point.
\<close>

subsection \<open>The configuration\<close>

definition or_default :: "int \<Rightarrow> int \<Rightarrow> int" where
  "or_default v d = (if v \<le> 0 then d else v)"

definition normalized_logs :: "engine_config \<Rightarrow> rerr + log_policy option" where
  "normalized_logs cfg = (case ec_Logs cfg of
     None \<Rightarrow> Inr None
   | Some p \<Rightarrow> res_bind (LogPolicy_Normalize p) (\<lambda>q.
       if \<not> ec_TestBackend cfg \<and> ec_Slots cfg = []
       then Inl (wrapped ErrInvalid ''strict log spool requires fixed quota volumes'') else Inr (Some q)))"

definition Open_config :: "engine_config \<Rightarrow> rerr + engine_config" where
  "Open_config cfg =
     (if ec_RootDir cfg = [] \<or> ec_JournalPath cfg = [] then Inl (sentinel ErrInvalid)
      else if \<not> path_is_abs (ec_RootDir cfg) \<or> \<not> path_is_abs (ec_JournalPath cfg) then Inl (sentinel ErrInvalid)
      else res_bind (normalized_logs cfg) (\<lambda>logs.
        Inr (cfg\<lparr>ec_Logs := logs,
          ec_Limits := \<lparr>tl_MaxFileBytes = or_default (tl_MaxFileBytes (ec_Limits cfg)) 1048576,
            tl_MaxWorkspaceBytes = or_default (tl_MaxWorkspaceBytes (ec_Limits cfg)) 33554432\<rparr>\<rparr>)))"

subsection \<open>The volumes\<close>

definition pool_owner :: "engine_config \<Rightarrow> bytes" where
  "pool_owner cfg = ec_JournalPath cfg @ [CHR 0x0A]"

text \<open>The owner file is created when there is none, and then must name this journal.\<close>

definition claim_volume :: "engine_config \<Rightarrow> volume_spec \<Rightarrow> unit eng" where
  "claim_volume cfg slot w =
     (case map_of (wd_Owners w) (vs_MountPath slot) of
        None \<Rightarrow> (w\<lparr>wd_Owners := (vs_MountPath slot, pool_owner cfg) # wd_Owners w\<rparr>, Inr ())
      | Some stored \<Rightarrow>
          (w, if stored \<noteq> pool_owner cfg then Inl (wrapped ErrConflict ''volume belongs to another runner journal'')
              else Inr ()))"

definition slot_acceptable :: "volume_spec list \<Rightarrow> volume_spec \<Rightarrow> bool" where
  "slot_acceptable seen slot \<longleftrightarrow> valid_id (vs_ID slot) \<and> path_is_abs (vs_MountPath slot)
     \<and> vs_ID slot \<notin> vs_ID ` set seen \<and> vs_MountPath slot \<notin> vs_MountPath ` set seen"

text \<open>Verifying, locking and syncing a volume are the answers 0, 1 and 2 of the surroundings.\<close>

fun open_slots :: "engine_config \<Rightarrow> engine_env \<Rightarrow> volume_spec list \<Rightarrow> volume_spec list \<Rightarrow> unit eng" where
  "open_slots cfg env seen [] = ret ()"
| "open_slots cfg env seen (slot # slots) =
     ebind (guard (slot_acceptable seen slot) (sentinel ErrInvalid)) (\<lambda>_.
     ebind (check (ev_OpenSlot env (vs_ID slot) 0)) (\<lambda>_.
     ebind (check (ev_OpenSlot env (vs_ID slot) 1)) (\<lambda>_.
     ebind (claim_volume cfg slot) (\<lambda>_.
     ebind (check (ev_OpenSlot env (vs_ID slot) 2)) (\<lambda>_.
     ebind (journal_do (\<lambda>j. registerSlot j slot)) (\<lambda>_.
       open_slots cfg env (slot # seen) slots))))))"

text \<open>Every lease, also a released one, must be on a configured slot.\<close>

definition restore_allocations :: "volume_spec list \<Rightarrow> volume_lease list \<Rightarrow> rerr + (string \<times> string) list" where
  "restore_allocations slots leases =
     (if list_all (\<lambda>l. vl_SlotID l \<in> vs_ID ` set slots) leases
      then Inr (map (\<lambda>l. (vl_WorkspaceID l, vl_SlotID l)) leases)
      else Inl (wrapped ErrReconciliation ''retained workspace slot missing from configuration''))"

definition unleased :: "journal \<Rightarrow> nat" where
  "unleased j = tcount (\<lambda>w. \<not> ws_Released w \<and> tfind vl_WorkspaceID (ws_ID w) (jr_VolumeLeases j) = None) (jr_Workspaces j)"

definition openStorage :: "engine_config \<Rightarrow> engine_env \<Rightarrow> unit eng" where
  "openStorage cfg env =
     (if ec_Slots cfg = []
      then guard (ec_TestBackend cfg) (ROther ''sandbox_unavailable: production runner requires a fixed volume pool'')
      else
        ebind (guard (\<not> ec_TestVerifier cfg \<or> ec_TestBackend cfg) (sentinel ErrInvalid)) (\<lambda>_.
        ebind (open_slots cfg env [] (ec_Slots cfg)) (\<lambda>_.
        ebind (view (\<lambda>w. restore_allocations (ec_Slots cfg) (jr_VolumeLeases (wd_Journal w)))) (\<lambda>m.
        ebind (\<lambda>w. (w\<lparr>wd_Allocations := m\<rparr>, Inr ())) (\<lambda>_.
        ebind (view (\<lambda>w. Inr (unleased (wd_Journal w)))) (\<lambda>missing.
          guard (missing = 0) (wrapped ErrReconciliation ''existing workspaces lack durable pool leases'')))))))"

end
