(* ===== verification/Runner_Logic.thy ===== *)
theory Runner_Logic
  imports Runner_Open
begin

section \<open>Relations every operation of the runner keeps\<close>

text \<open>
  The locale \<open>engine_relation\<close> is the contract of a relation between the states before and after a
  piece of a handler: it is reflexive and transitive, and the transactions of the journal other than a
  settlement, changes of files and of the other fields, and what the others do in between, are in it.
  Every handler that settles nothing is then in it, proved once, from the inside of a handler to the
  whole; with settlements (\<open>settling_relation\<close>) so are the others.
\<close>

definition keeps :: "(world \<Rightarrow> world \<Rightarrow> bool) \<Rightarrow> 'a eng \<Rightarrow> bool" where
  "keeps R m \<longleftrightarrow> (\<forall>w. R w (fst (m w)))"

named_theorems keeps_intros

lemma fst_out_of [simp]: "fst (out_of f r) = fst r"
  by (cases "(f, r)" rule: out_of.cases) auto

lemma keeps_case [keeps_intros]:
  "(\<And>x. s = Inr x \<Longrightarrow> keeps R (f x)) \<Longrightarrow> (\<And>e. s = Inl e \<Longrightarrow> keeps R (g e)) \<Longrightarrow>
     keeps R (case s of Inl e \<Rightarrow> g e | Inr x \<Rightarrow> f x)"
  "(\<And>y. opt = Some y \<Longrightarrow> keeps R (h y)) \<Longrightarrow> (opt = None \<Longrightarrow> keeps R k) \<Longrightarrow>
     keeps R (case opt of None \<Rightarrow> k | Some y \<Rightarrow> h y)"
  "(\<And>a b. p = (a, b) \<Longrightarrow> keeps R (c a b)) \<Longrightarrow> keeps R (case p of (a, b) \<Rightarrow> c a b)"
  "(q \<Longrightarrow> keeps R m) \<Longrightarrow> (\<not> q \<Longrightarrow> keeps R n) \<Longrightarrow> keeps R (if q then m else n)"
  by (simp_all split: sum.split option.split prod.split)

fun settlement_op :: "journal_op \<Rightarrow> bool" where
  "settlement_op (JFinish x) = True"
| "settlement_op _ = False"

locale engine_relation =
  fixes R :: "world \<Rightarrow> world \<Rightarrow> bool"
  assumes refl: "R w w"
    and trans: "R u v \<Longrightarrow> R v w \<Longrightarrow> R u w"
    and others: "R w (meanwhile w)"
    and transaction: "admissible a \<Longrightarrow> \<not> settlement_op a \<Longrightarrow> R w (w\<lparr>wd_Journal := fst (journal_apply (wd_Journal w) a)\<rparr>)"
    and runs: "R w (w\<lparr>wd_Live := l\<rparr>)"
    and allocates: "R w (w\<lparr>wd_Allocations := m\<rparr>)"
    and files: "R w (w\<lparr>wd_Files := f\<rparr>)"
    and owns: "R w (w\<lparr>wd_Owners := ow\<rparr>)"
    and closes: "R w (w\<lparr>wd_Closed := True\<rparr>)"
begin

lemma keeps_ret [keeps_intros]: "keeps R (ret x)"
  by (simp add: keeps_def ret_def refl)

lemma keeps_raise [keeps_intros]: "keeps R (raise e)"
  by (simp add: keeps_def raise_def refl)

lemma keeps_pure [keeps_intros]: "keeps R (\<lambda>w. (w, c))"
  by (simp add: keeps_def refl)

lemma keeps_attempt [keeps_intros]:
  assumes "keeps R m" "\<And>x. keeps R (f x)" "\<And>e. keeps R (g e)"
  shows "keeps R (attempt m f g)"
  unfolding keeps_def
proof
  fix w
  have "R w (fst (m w))" using assms(1) by (simp add: keeps_def)
  then show "R w (fst (attempt m f g w))"
    using assms(2,3) trans by (auto simp: attempt_def keeps_def split: sum.split)
qed

lemma keeps_ebind [keeps_intros]: "keeps R m \<Longrightarrow> (\<And>x. keeps R (f x)) \<Longrightarrow> keeps R (ebind m f)"
  unfolding ebind_def by (intro keeps_intros)

lemma keeps_guarded: "(b \<Longrightarrow> keeps R (f ())) \<Longrightarrow> keeps R (ebind (guard b e) f)"
  by (auto simp: keeps_def ebind_def attempt_def guard_def ret_def raise_def refl)

lemma keeps_computed: "(\<And>x. c = Inr x \<Longrightarrow> keeps R (f x)) \<Longrightarrow> keeps R (ebind (\<lambda>w. (w, c)) f)"
  by (cases c) (auto simp: keeps_def ebind_def attempt_def raise_def refl)

lemma keeps_guard [keeps_intros]: "keeps R (guard b e)"
  unfolding guard_def by (intro keeps_intros)

lemma keeps_check [keeps_intros]: "keeps R (check r)"
  unfolding check_def by (intro keeps_intros)

lemma keeps_access: "(\<And>w. R w (fst (f w))) \<Longrightarrow> keeps R (access f)"
  unfolding keeps_def access_def using others trans by blast

lemma keeps_view [keeps_intros]: "keeps R (view f)"
  unfolding view_def by (rule keeps_access) (simp add: refl)

lemma keeps_files [keeps_intros]: "keeps R (files_do i f)"
  by (simp add: keeps_def files_do_def Let_def files)

lemma keeps_files_view [keeps_intros]: "keeps R (files_view i f)"
  by (simp add: keeps_def files_view_def refl)

lemma keeps_allocate [keeps_intros]: "keeps R (access (\<lambda>w. (allocate i sid w, x)))"
  by (intro keeps_access) (simp add: allocate_def allocates)

lemma keeps_live: "keeps R (access (\<lambda>w. (w\<lparr>wd_Live := l w\<rparr>, x)))"
  by (intro keeps_access) (simp add: runs)

lemma keeps_transaction:
  assumes "\<And>j. fst (f j) = fst (journal_apply j a)" "admissible a" "\<not> settlement_op a"
  shows "keeps R (journal_do f)"
  unfolding journal_do_def by (rule keeps_access) (simp add: assms transaction Let_def)

text \<open>The transactions of the handlers.\<close>

lemma keeps_transactions [keeps_intros]:
  "keeps R (journal_do (\<lambda>j. (markUnknown j i reason, u)))" "keeps R (journal_do (\<lambda>j. (markRunning j i, u)))"
  "keeps R (journal_do (\<lambda>j. (requestCancel j i, u)))" "keeps R (journal_do (\<lambda>j. startIntent j i))"
  "keeps R (journal_do (\<lambda>j. pinArtifact j ref))"
  "keeps R (journal_do (\<lambda>j. recordLogContainer j i c))" "keeps R (journal_do (\<lambda>j. (setCleanupState j i s, u)))"
  "keeps R (journal_do (\<lambda>j. fence j r))" "keeps R (journal_do (\<lambda>j. stopFence j r))"
  "keeps R (journal_do (\<lambda>j. completeAdoption j r))" "keeps R (journal_do (\<lambda>j. releaseRow j r))"
  "keeps R (journal_do (\<lambda>j. createWorkspace j v))" "keeps R (journal_do (\<lambda>j. allocateLease j slots q h))"
  "keeps R (journal_do (\<lambda>j. (freeLease j i, u)))" "keeps R (journal_do (\<lambda>j. registerSlot j sl))"
  subgoal by (rule keeps_transaction [where a = "JUnknown i reason"]) (simp_all add: fence_def stopFence_def)
  subgoal by (rule keeps_transaction [where a = "JRunning i"]) (simp_all add: fence_def stopFence_def)
  subgoal by (rule keeps_transaction [where a = "JCancel i"]) (simp_all add: fence_def stopFence_def)
  subgoal by (rule keeps_transaction [where a = "JStartIntent i"]) (simp_all add: fence_def stopFence_def)
  subgoal by (rule keeps_transaction [where a = "JPin ref"]) (simp_all add: fence_def stopFence_def)
  subgoal by (rule keeps_transaction [where a = "JRecordContainer i c"]) (simp_all add: fence_def stopFence_def)
  subgoal by (rule keeps_transaction [where a = "JCleanup i s"]) (simp_all add: fence_def stopFence_def)
  subgoal by (rule keeps_transaction [where a = "JFence r False"]) (simp_all add: fence_def stopFence_def)
  subgoal by (rule keeps_transaction [where a = "JFence r True"]) (simp_all add: fence_def stopFence_def)
  subgoal by (rule keeps_transaction [where a = "JCompleteAdoption r"]) (simp_all add: fence_def stopFence_def)
  subgoal by (rule keeps_transaction [where a = "JRelease r"]) (simp_all add: fence_def stopFence_def)
  subgoal by (rule keeps_transaction [where a = "JCreate v"]) (simp_all add: fence_def stopFence_def)
  subgoal by (rule keeps_transaction [where a = "JAllocate slots q h"]) (simp_all add: fence_def stopFence_def)
  subgoal by (rule keeps_transaction [where a = "JFreeLease i"]) (simp_all add: fence_def stopFence_def)
  subgoal by (rule keeps_transaction [where a = "JRegisterSlot sl"]) (simp_all add: fence_def stopFence_def)
  done

lemma keeps_reserve:
  "op_ID x \<noteq> [] \<Longrightarrow> (case logs of None \<Rightarrow> True | Some p \<Rightarrow> log_policy_ok p) \<Longrightarrow>
     keeps R (journal_do (\<lambda>j. reserve j x logs))"
  by (rule keeps_transaction [of _ "JReserve x logs"]) simp_all

lemma keeps_reads [keeps_intros]:
  "keeps R (get_workspace i)" "keeps R (get_operation i)" "keeps R (get_logPolicy i)" "keeps R (get_dispatch i)"
  "keeps R (read_checkout cfg lib i)" "keeps R (authorize cfg lib now r p)" "keeps R (verifyStorage env i)"
  "keeps R (storage_slot i)" "keeps R closing" "keeps R (is_live i)"
  unfolding get_workspace_def get_operation_def get_logPolicy_def get_dispatch_def read_checkout_def
    authorize_def verifyStorage_def storage_slot_def closing_def is_live_def
  by (intro keeps_intros)+

lemma keeps_storage [keeps_intros]:
  "keeps R (engine_lock env i)" "keeps R (syncWorkspace cfg env i)" "keeps R (allocateStorage cfg env q h)"
  "keeps R (releaseStorage cfg env i)"
  unfolding engine_lock_def syncWorkspace_def allocateStorage_def releaseStorage_def Let_def
  by (intro keeps_intros)+

text \<open>The executor.\<close>

lemma keeps_unknown [keeps_intros]: "keeps R (unknown x err)"
  unfolding unknown_def by (intro keeps_intros)

lemma keeps_evidence [keeps_intros]:
  "keeps R (cleanCandidate cfg lib env x t)" "keeps R (validateVerification cfg lib x h)"
  "keeps R (put_artifact env r kind data)" "keeps R (pin ref)" "keeps R (publish env r kind data)"
  unfolding cleanCandidate_def validateVerification_def put_artifact_def pin_def publish_def
  by (intro keeps_intros)+

lemma keeps_publishLogs [keeps_intros]: "keeps R (publishLogs lib env x)"
  unfolding publishLogs_def by (intro keeps_intros)

lemma keeps_outcome [keeps_intros]: "keeps R m \<Longrightarrow> keeps R (outcome m)"
  unfolding outcome_def by (intro keeps_intros)

lemma keeps_capture [keeps_intros]:
  "keeps R (open_capture lib x policy)" "keeps R (finish_capture lib e x capture)"
  unfolding open_capture_def finish_capture_def by (intro keeps_intros)+

lemma keeps_start_job [keeps_intros]: "keeps R (start_job lib env x capture)"
  unfolding start_job_def Let_def by (intro keeps_intros)

lemma keeps_wait_job [keeps_intros]: "keeps R (wait_job ps job status)"
proof (induction ps arbitrary: job status)
  case (Cons p ps)
  show ?case
  proof (cases p)
    case (PollDone e c)
    then show ?thesis by (simp only: wait_job.simps poll.case) (intro keeps_intros Cons)
  next
    case (PollInspect c)
    then show ?thesis by (cases c) (simp_all add: keeps_ret keeps_raise Cons)
  qed
qed (simp add: keeps_ret)

text \<open>The handlers.\<close>

lemma keeps_PrepareWorkspace: "keeps R (PrepareWorkspace cfg lib env q)"
  unfolding PrepareWorkspace_def initialize_workspace_def Let_def by (intro keeps_intros)

lemma keeps_start_locked:
  assumes id: "or_OperationID r \<noteq> []" and logs: "case ec_Logs cfg of None \<Rightarrow> True | Some p \<Rightarrow> log_policy_ok p"
  shows "keeps R (start_locked cfg lib env r)"
proof -
  have "op_ID x \<noteq> []" if "new_operation cfg lib r before = Inr x" for before x
    using that id by (auto simp: new_operation_def Let_def elim!: res_bind_InrE split: if_splits prod.splits)
  moreover have "keeps R (launch i)" for i
    unfolding launch_def by (intro keeps_access) (simp add: runs refl)
  ultimately show ?thesis
    unfolding start_locked_def using logs by (intro keeps_intros keeps_computed keeps_reserve)
qed

lemma keeps_StartOperation:
  assumes "case ec_Logs cfg of None \<Rightarrow> True | Some p \<Rightarrow> log_policy_ok p"
  shows "keeps R (StartOperation cfg lib env r)"
proof -
  have "or_OperationID r \<noteq> []" if "request_ok lib now r" for now
    using that by (auto simp: request_ok_def)
  then show ?thesis
    unfolding StartOperation_def existingOperation_def replayed_operation_def
    by (intro keeps_guarded keeps_start_locked keeps_intros assms) (auto intro: keeps_intros)
qed

lemma keeps_SealSnapshot: "keeps R (SealSnapshot cfg lib env r)"
  unfolding SealSnapshot_def by (intro keeps_intros)

lemma keeps_cleanup [keeps_intros]: "keeps R (cleanup_loop cfg env is)"
  by (induction "is") (auto simp: set_cleanup_def intro!: keeps_intros)

lemma keeps_ReleaseWorkspace: "keeps R (ReleaseWorkspace cfg lib env r)"
  unfolding ReleaseWorkspace_def cleanupLogContainers_def by (intro keeps_intros)

lemma keeps_open_slots [keeps_intros]: "keeps R (open_slots cfg env seen slots)"
proof (induction slots arbitrary: seen)
  case (Cons slot slots)
  have "keeps R (claim_volume cfg slot)"
    by (simp add: keeps_def claim_volume_def owns refl split: option.split)
  then show ?case unfolding open_slots.simps by (intro keeps_intros Cons)
qed (simp add: keeps_ret)

lemma keeps_openStorage: "keeps R (openStorage cfg env)"
proof -
  have "keeps R (\<lambda>w. (w\<lparr>wd_Allocations := m\<rparr>, Inr ()))" for m by (simp add: keeps_def allocates)
  then show ?thesis unfolding openStorage_def by (intro keeps_intros)
qed

lemma keeps_BeginShutdown: "keeps R BeginShutdown"
  unfolding BeginShutdown_def by (rule keeps_access) (simp add: closes)

end

text \<open>A relation that also admits settlements holds of the executor and of every handler.\<close>

locale settling_relation = engine_relation +
  assumes settlement: "R w (w\<lparr>wd_Journal := fst (finish (wd_Journal w) x)\<rparr>)"
begin

lemma keeps_finish [keeps_intros]: "keeps R (journal_do (\<lambda>j. finish j x))"
  unfolding journal_do_def by (rule keeps_access) (simp add: settlement Let_def)

lemma keeps_complete [keeps_intros]: "keeps R (complete cfg lib env x status result err)"
  unfolding complete_def publish_receipt_def Let_def by (intro keeps_intros)

lemma keeps_execute [keeps_intros]: "keeps R (execute cfg lib env x before)"
  unfolding execute_def execute_process_def run_job_def conclude_job_def execute_tool_def Let_def
  by (intro keeps_intros)

lemma keeps_executor: "keeps R (executor cfg lib env x before)"
  unfolding executor_def by (intro keeps_intros keeps_live)

lemma keeps_reconcile [keeps_intros]: "keeps R (reconcileLocked cfg lib env x b)"
  unfolding reconcileLocked_def reconcile_process_def settle_job_def reconcile_tool_def Let_def
  by (intro keeps_intros)

lemma keeps_InspectOperation: "keeps R (InspectOperation cfg lib env s)"
  unfolding InspectOperation_def boundOperation_def by (intro keeps_intros)

lemma keeps_CancelOperation: "keeps R (CancelOperation cfg lib env s)"
  unfolding CancelOperation_def boundOperation_def by (intro keeps_intros)

lemma keeps_stopAndAdopt [keeps_intros]: "keeps R (stopAndAdopt cfg lib env r b)"
  unfolding stopAndAdopt_def Let_def by (intro keeps_intros)

lemma keeps_adoption: "keeps R (AdoptWorkspace cfg lib env r)" "keeps R (StopWorkspace cfg lib env r)"
  unfolding AdoptWorkspace_def StopWorkspace_def by (intro keeps_intros)+

end

end
