(* ===== verification/Runner_Triples.thy ===== *)
theory Runner_Triples
  imports Runner_Service
begin

section \<open>Contracts of the steps of a handler under interference\<close>

text \<open>
  \<open>triple A P m Q E\<close> says of a piece \<open>m\<close> of a handler: from a state with \<open>P\<close>, under a schedule whose
  transactions satisfy the rely condition \<open>A\<close>, it ends with a result and \<open>Q\<close> or with an error and
  \<open>E\<close>, and leaves a schedule of that kind. An assertion is stable when the others keep it; only stable
  assertions survive an access.
\<close>

fun other_in :: "(journal_op \<Rightarrow> bool) \<Rightarrow> other \<Rightarrow> bool" where
  "other_in A (OtherTx a) = A a"
| "other_in A _ = True"

definition schedule_in :: "(journal_op \<Rightarrow> bool) \<Rightarrow> world \<Rightarrow> bool" where
  "schedule_in A w \<longleftrightarrow> (\<forall>others \<in> set (wd_Schedule w). list_all (other_in A) others)"

definition stable :: "(journal_op \<Rightarrow> bool) \<Rightarrow> (world \<Rightarrow> bool) \<Rightarrow> bool" where
  "stable A P \<longleftrightarrow> (\<forall>w. schedule_in A w \<longrightarrow> P w \<longrightarrow> P (meanwhile w))"

definition triple :: "(journal_op \<Rightarrow> bool) \<Rightarrow> (world \<Rightarrow> bool) \<Rightarrow> 'a eng \<Rightarrow> ('a \<Rightarrow> world \<Rightarrow> bool)
    \<Rightarrow> (rerr \<Rightarrow> world \<Rightarrow> bool) \<Rightarrow> bool" where
  "triple A P m Q E \<longleftrightarrow> (\<forall>w. schedule_in A w \<longrightarrow> P w \<longrightarrow> schedule_in A (fst (m w))
     \<and> (case snd (m w) of Inl e \<Rightarrow> E e (fst (m w)) | Inr x \<Rightarrow> Q x (fst (m w))))"

lemma schedule_in_frame [simp]:
  "schedule_in A (w\<lparr>wd_Journal := j\<rparr>) = schedule_in A w" "schedule_in A (w\<lparr>wd_Files := f\<rparr>) = schedule_in A w"
  "schedule_in A (w\<lparr>wd_Live := l\<rparr>) = schedule_in A w" "schedule_in A (w\<lparr>wd_Closed := b\<rparr>) = schedule_in A w"
  by (simp_all add: schedule_in_def)

lemma schedule_in_meanwhile [simp]: "schedule_in A w \<Longrightarrow> schedule_in A (meanwhile w)"
  by (auto simp: schedule_in_def meanwhile_def split: list.splits)

text \<open>An assertion on the journal and the files is stable when the transactions of the others keep it.\<close>

lemma stable_journal:
  assumes "\<And>j a f. A a \<Longrightarrow> J j f \<Longrightarrow> J (fst (journal_apply j a)) f"
  shows "stable A (\<lambda>w. J (wd_Journal w) (wd_Files w))"
proof -
  have step: "J (wd_Journal (foldl other_step w as)) (wd_Files (foldl other_step w as))"
    if "list_all (other_in A) as" "J (wd_Journal w) (wd_Files w)" for as w
    using that
  proof (induction as arbitrary: w)
    case (Cons a as)
    have "J (wd_Journal (other_step w a)) (wd_Files (other_step w a))"
      using Cons.prems assms by (cases a) (simp_all add: allocate_def)
    then show ?case using Cons by simp
  qed simp
  show ?thesis unfolding stable_def
    using step by (auto simp: schedule_in_def meanwhile_def split: list.split)
qed

lemma triple_conseq:
  assumes "triple A P' m Q' E'" "\<And>w. P w \<Longrightarrow> P' w" "\<And>x w. Q' x w \<Longrightarrow> Q x w" "\<And>e w. E' e w \<Longrightarrow> E e w"
  shows "triple A P m Q E"
  using assms unfolding triple_def by (fastforce split: sum.splits)

text \<open>What the assertion says independently of the state may be assumed.\<close>

lemma triple_fact:
  assumes "\<And>w. P w \<Longrightarrow> c" "c \<Longrightarrow> triple A P m Q E"
  shows "triple A P m Q E"
  using assms unfolding triple_def by blast

lemma triple_result:
  assumes "triple A P m Q E" "schedule_in A w" "P w" "m w = (w', Inr x)"
  shows "schedule_in A w'" "Q x w'"
  using assms unfolding triple_def by fastforce+

lemma triple_ret: "(\<And>w. P w \<Longrightarrow> Q x w) \<Longrightarrow> triple A P (ret x) Q E"
  by (simp add: triple_def ret_def)

lemma triple_raise: "(\<And>w. P w \<Longrightarrow> E e w) \<Longrightarrow> triple A P (raise e) Q E"
  by (simp add: triple_def raise_def)

lemma attempt_cases:
  "snd (m w) = Inl e \<Longrightarrow> attempt m f g w = g e (fst (m w))"
  "snd (m w) = Inr x \<Longrightarrow> attempt m f g w = f x (fst (m w))"
  by (simp_all add: attempt_def)

lemma triple_attempt:
  assumes "triple A P m Q E" "\<And>x. triple A (Q x) (f x) Q' E'" "\<And>e. triple A (E e) (g e) Q' E'"
  shows "triple A P (attempt m f g) Q' E'"
  unfolding triple_def
proof (intro allI impI)
  fix w
  assume "schedule_in A w" "P w"
  then have "schedule_in A (fst (m w))" "case snd (m w) of Inl e \<Rightarrow> E e (fst (m w)) | Inr x \<Rightarrow> Q x (fst (m w))"
    using assms(1) by (auto simp: triple_def)
  then show "schedule_in A (fst (attempt m f g w)) \<and> (case snd (attempt m f g w) of
      Inl e \<Rightarrow> E' e (fst (attempt m f g w)) | Inr x \<Rightarrow> Q' x (fst (attempt m f g w)))"
    using assms(2,3) by (cases "snd (m w)") (auto simp: attempt_cases triple_def cong: sum.case_cong)
qed

lemma triple_ebind:
  assumes "triple A P m Q E" "\<And>x. triple A (Q x) (f x) Q' E"
  shows "triple A P (ebind m f) Q' E"
  unfolding ebind_def by (rule triple_attempt [OF assms]) (rule triple_raise)

lemma triple_if:
  assumes "b \<Longrightarrow> triple A P m Q E" "\<not> b \<Longrightarrow> triple A P n Q E"
  shows "triple A P (if b then m else n) Q E"
  using assms by simp

lemma triple_guard: "(\<And>w. P w \<Longrightarrow> \<not> b \<Longrightarrow> E e w) \<Longrightarrow> triple A P (guard b e) (\<lambda>_ w. P w \<and> b) E"
  by (simp add: triple_def guard_def ret_def raise_def)

lemma triple_pure: "triple A P (\<lambda>w. (w, c)) (\<lambda>x w. P w \<and> c = Inr x) (\<lambda>e w. P w \<and> c = Inl e)"
  by (simp add: triple_def split: sum.split)

lemma triple_check: "triple A P (check r) (\<lambda>_ w. P w \<and> r = None) (\<lambda>e w. P w \<and> r = Some e)"
  by (auto simp: triple_def check_def ret_def raise_def split: option.split)

lemma triple_access:
  assumes "stable A P" "\<And>w. schedule_in A w \<Longrightarrow> P w \<Longrightarrow> schedule_in A (fst (f w))"
    and "\<And>w x. P w \<Longrightarrow> snd (f w) = Inr x \<Longrightarrow> Q x (fst (f w))" "\<And>w e. P w \<Longrightarrow> snd (f w) = Inl e \<Longrightarrow> E e (fst (f w))"
  shows "triple A P (access f) Q E"
  using assms unfolding triple_def stable_def access_def by (simp split: sum.split)

lemma triple_view:
  "stable A P \<Longrightarrow> triple A P (view f) (\<lambda>x w. P w \<and> f w = Inr x) (\<lambda>e w. P w \<and> f w = Inl e)"
  unfolding view_def by (rule triple_access) auto

lemma triple_journal_do:
  "stable A P \<Longrightarrow> triple A P (journal_do f)
     (\<lambda>x w'. \<exists>w. P w \<and> w' = w\<lparr>wd_Journal := fst (f (wd_Journal w))\<rparr> \<and> snd (f (wd_Journal w)) = Inr x)
     (\<lambda>e w'. \<exists>w. P w \<and> w' = w\<lparr>wd_Journal := fst (f (wd_Journal w))\<rparr> \<and> snd (f (wd_Journal w)) = Inl e)"
  unfolding journal_do_def by (rule triple_access) (auto simp: Let_def)

lemma triple_files_view:
  "triple A P (files_view i f) (\<lambda>x w. P w \<and> f (wd_Files w i) = Inr x) (\<lambda>e w. P w \<and> f (wd_Files w i) = Inl e)"
  by (simp add: triple_def files_view_def split: sum.split)

lemma triple_files_do:
  "triple A P (files_do i f)
     (\<lambda>x w'. \<exists>w. P w \<and> w' = w\<lparr>wd_Files := (wd_Files w)(i := fst (f (wd_Files w i)))\<rparr> \<and> snd (f (wd_Files w i)) = Inr x)
     (\<lambda>e w'. \<exists>w. P w \<and> w' = w\<lparr>wd_Files := (wd_Files w)(i := fst (f (wd_Files w i)))\<rparr> \<and> snd (f (wd_Files w i)) = Inl e)"
  by (auto simp: triple_def files_do_def Let_def split: sum.split)

text \<open>A step that changes nothing keeps any assertion, and a view keeps a stable one.\<close>

lemma triple_inert: "(\<And>w. fst (m w) = w) \<Longrightarrow> triple A P m (\<lambda>_. P) (\<lambda>_. P)"
  by (simp add: triple_def split: sum.split)

lemma inert_steps [simp]:
  "fst (ret x w) = w" "fst (raise e w) = w" "fst (guard b e w) = w" "fst (check r w) = w" "fst (files_view i f w) = w"
  by (simp_all add: ret_def raise_def guard_def check_def files_view_def split: option.split)

lemma triple_look: "stable A P \<Longrightarrow> triple A P (view f) (\<lambda>_. P) (\<lambda>_. P)"
  unfolding view_def by (rule triple_access) auto

end
