(* ===== verification/Runner_System.thy ===== *)
theory Runner_System
  imports Runner_Logic Runner_Triples Runner_History
begin

section \<open>The runner as a whole\<close>

text \<open>
  A call is one of the methods of the runner, the opening of its storage or the executor of an
  operation. \<open>serve_all\<close> runs a sequence of calls, each with its own surroundings; inside a call the
  schedule interleaves what other calls do.
\<close>

datatype call =
    CallOpen
  | CallPrepare prepare_request
  | CallStart operation_request
  | CallExecute operation tree
  | CallInspect inspect_request
  | CallCancel inspect_request
  | CallSeal workspace_request
  | CallRelease workspace_request
  | CallAdopt workspace_request
  | CallStop workspace_request
  | CallShutdown

definition answer_of :: "'a eng \<Rightarrow> world \<Rightarrow> world \<times> rerr option" where
  "answer_of m w = (fst (m w), error_of (snd (m w)))"

fun answer :: "engine_config \<Rightarrow> engine_lib \<Rightarrow> engine_env \<Rightarrow> call \<Rightarrow> world \<Rightarrow> world \<times> rerr option" where
  "answer cfg lib env CallOpen = answer_of (openStorage cfg env)"
| "answer cfg lib env (CallPrepare r) = answer_of (PrepareWorkspace cfg lib env r)"
| "answer cfg lib env (CallStart r) = answer_of (StartOperation cfg lib env r)"
| "answer cfg lib env (CallExecute x t) = answer_of (executor cfg lib env x t)"
| "answer cfg lib env (CallInspect r) = answer_of (InspectOperation cfg lib env r)"
| "answer cfg lib env (CallCancel r) = answer_of (CancelOperation cfg lib env r)"
| "answer cfg lib env (CallSeal r) = answer_of (SealSnapshot cfg lib env r)"
| "answer cfg lib env (CallRelease r) = answer_of (ReleaseWorkspace cfg lib env r)"
| "answer cfg lib env (CallAdopt r) = answer_of (AdoptWorkspace cfg lib env r)"
| "answer cfg lib env (CallStop r) = answer_of (StopWorkspace cfg lib env r)"
| "answer cfg lib env CallShutdown = answer_of BeginShutdown"

definition serve :: "engine_config \<Rightarrow> engine_lib \<Rightarrow> engine_env \<Rightarrow> call \<Rightarrow> world \<Rightarrow> world" where
  "serve cfg lib env c w = fst (answer cfg lib env c w)"

definition serve_all :: "engine_config \<Rightarrow> engine_lib \<Rightarrow> (engine_env \<times> call) list \<Rightarrow> world \<Rightarrow> world" where
  "serve_all cfg lib calls w = foldl (\<lambda>w (env, c). serve cfg lib env c w) w calls"

subsection \<open>The schedule, and executions of the journal\<close>

abbreviation schedule_ok :: "world \<Rightarrow> bool" where
  "schedule_ok \<equiv> schedule_in admissible"

text \<open>From one state to another by transactions of the journal, under an admissible schedule.\<close>

definition evolves :: "world \<Rightarrow> world \<Rightarrow> bool" where
  "evolves w w' \<longleftrightarrow> (schedule_ok w \<longrightarrow>
     schedule_ok w' \<and> (\<exists>h. exec journal_step (wd_Journal w) h (wd_Journal w')))"

lemma journal_apply_step: "admissible a \<Longrightarrow> journal_step j a (snd (journal_apply j a)) (fst (journal_apply j a))"
  by (simp add: journal_step_def)

lemma evolves_same:
  "wd_Journal w' = wd_Journal w \<Longrightarrow> wd_Schedule w' = wd_Schedule w \<Longrightarrow> evolves w w'"
  using exec_init [of journal_step "wd_Journal w"] by (auto simp: evolves_def schedule_in_def)

lemma evolves_trans: "evolves u v \<Longrightarrow> evolves v w \<Longrightarrow> evolves u w"
  unfolding evolves_def using exec_append by metis

lemma evolves_transaction:
  "admissible a \<Longrightarrow> evolves w (w\<lparr>wd_Journal := fst (journal_apply (wd_Journal w) a)\<rparr>)"
  using exec_one [of journal_step, OF journal_apply_step] by (auto simp: evolves_def schedule_in_def)

lemma evolves_other: "other_in admissible a \<Longrightarrow> evolves w (other_step w a)"
  by (cases a) (auto simp: allocate_def intro: evolves_transaction evolves_same)

lemma evolves_others: "list_all (other_in admissible) as \<Longrightarrow> evolves w (foldl other_step w as)"
proof (induction as arbitrary: w)
  case (Cons a as)
  then show ?case using evolves_other [of a w] evolves_trans by fastforce
qed (simp add: evolves_same)

lemma evolves_meanwhile: "evolves w (meanwhile w)"
proof (cases "wd_Schedule w")
  case Nil
  then show ?thesis by (simp add: meanwhile_def evolves_same)
next
  case (Cons as rest)
  let ?w = "foldl other_step w as"
  have "\<exists>h. exec journal_step (wd_Journal w) h (wd_Journal ?w)" if ok: "schedule_ok w"
    using evolves_others [of as w] ok Cons by (simp add: evolves_def schedule_in_def)
  moreover have "schedule_ok (?w\<lparr>wd_Schedule := rest\<rparr>)" if "schedule_ok w"
    using that Cons by (simp add: schedule_in_def)
  ultimately show ?thesis using Cons by (simp add: meanwhile_def evolves_def)
qed

lemma evolves_finish: "evolves w (w\<lparr>wd_Journal := fst (finish (wd_Journal w) x)\<rparr>)"
  using evolves_transaction [of "JFinish x" w] by simp

interpretation evolution: settling_relation evolves
proof unfold_locales
  show "evolves u w" if "evolves u v" "evolves v w" for u v w using that by (rule evolves_trans)
qed (simp_all add: evolves_same evolves_meanwhile evolves_transaction evolves_finish)

subsection \<open>Every call\<close>

lemmas evolution_calls = evolution.keeps_openStorage evolution.keeps_PrepareWorkspace evolution.keeps_executor
  evolution.keeps_InspectOperation evolution.keeps_CancelOperation evolution.keeps_SealSnapshot
  evolution.keeps_ReleaseWorkspace evolution.keeps_adoption evolution.keeps_BeginShutdown

lemma Open_config_logs:
  assumes "Open_config raw = Inr cfg"
  shows "case ec_Logs cfg of None \<Rightarrow> True | Some p \<Rightarrow> log_policy_ok p"
proof -
  obtain logs where "normalized_logs raw = Inr logs" "ec_Logs cfg = logs"
    using assms by (auto simp: Open_config_def elim!: res_bind_InrE split: if_splits)
  then show ?thesis
    by (auto simp: normalized_logs_def elim!: res_bind_InrE split: option.splits if_splits
        intro: LogPolicy_Normalize_ok)
qed

lemma serve_evolves:
  assumes "Open_config raw = Inr cfg"
  shows "evolves w (serve cfg lib env c w)"
  using evolution_calls evolution.keeps_StartOperation [OF Open_config_logs [OF assms]]
  by (cases c) (simp_all add: keeps_def serve_def answer_of_def)

lemma serve_all_evolves:
  assumes "Open_config raw = Inr cfg"
  shows "evolves w (serve_all cfg lib calls w)"
proof (induction calls arbitrary: w)
  case (Cons c calls)
  obtain env k where c: "c = (env, k)" by (cases c)
  then show ?case
    using Cons [of "serve cfg lib env k w"] serve_evolves [OF assms, of w lib env k] evolves_trans
    by (auto simp: serve_all_def)
qed (simp add: serve_all_def evolves_same)

end
