(* ===== verification/Runner_Stop.thy ===== *)
theory Runner_Stop
  imports Runner_System
begin

section \<open>Stopping a workspace\<close>

text \<open>
  \<open>StopWorkspace\<close> fences the workspace for good, waits for its writer, settles the active operation
  and publishes a receipt that there is none. The proof follows the handler under any interleaving:
  a stopped workspace admits nothing, so its active operation can only go away.
\<close>

subsection \<open>A stopped workspace winds down\<close>

lemma stopped_active_step:
  assumes "journal_step j a out j'" "find_ws j i = Some w" "ws_Stopped w" "find_ws j' i = Some v"
  shows "ws_ActiveOperation v = ws_ActiveOperation w \<or> ws_ActiveOperation v = []"
proof (cases "side_op a")
  case True
  then show ?thesis using assms side_op_frame [OF True] by (auto simp: journal_step_def)
next
  case False
  have run: "journal_apply j a = (j', out)" using assms(1) by (simp add: journal_step_def)
  show ?thesis
  proof (cases a)
    case (JReserve x logs)
    obtain res where "reserve j x logs = (j', res)" using run JReserve by (auto simp: out_of_eq)
    then show ?thesis
    proof (cases rule: reserve_cases)
      case (created w' req j2)
      have frame: "jr_Workspaces j2 = jr_Workspaces j" using created(11) by (auto dest: reserveLogs_frame)
      have "i \<noteq> ws_ID w'" using assms(2,3) created(1,7) find_ws_key [OF created(1)] by auto
      then have "v = w" using assms(2,4) frame created(12) by simp
      then show ?thesis by simp
    qed (use assms in auto)
  next
    case (JFinish x)
    obtain res where "finish j x = (j', res)" using run JFinish by (auto simp: out_of_eq)
    then show ?thesis
      by (cases rule: finish_cases) (use assms in \<open>auto split: if_splits\<close>)
  next
    case (JFence r stop)
    obtain res where "setFence j r stop = (j', res)" using run JFence by (auto simp: out_of_eq)
    then show ?thesis
      by (cases rule: setFence_cases) (use assms in \<open>auto split: if_splits\<close>)
  next
    case (JCreate u)
    then show ?thesis using run assms
      by (auto simp: out_of_eq createWorkspace_def new_workspace_row_def split: if_splits option.splits)
  next
    case (JCompleteAdoption r)
    then show ?thesis using run assms
      by (auto simp: out_of_eq completeAdoption_def split: if_splits option.splits)
  next
    case (JRelease r)
    then show ?thesis using run assms
      by (auto simp: out_of_eq releaseRow_def split: if_splits option.splits)
  qed (use False run assms in \<open>auto simp: side_op_def out_of_eq markRunning_def markUnknown_def
        requestCancel_def startIntent_def split: if_splits option.splits\<close>)
qed

text \<open>The workspace is stopped and its active operation is \<open>a\<close> or none.\<close>

definition winding_down :: "string \<Rightarrow> string \<Rightarrow> journal \<Rightarrow> bool" where
  "winding_down i a j \<longleftrightarrow> journal_inv j
     \<and> (\<exists>v. find_ws j i = Some v \<and> ws_Stopped v \<and> (ws_ActiveOperation v = a \<or> ws_ActiveOperation v = []))"

lemma winding_down_step:
  assumes step: "journal_step j a' out j'" and wd: "winding_down i a j"
  shows "winding_down i a j'"
proof -
  obtain v where inv: "journal_inv j" and v: "find_ws j i = Some v" "ws_Stopped v"
    and act: "ws_ActiveOperation v = a \<or> ws_ActiveOperation v = []"
    using wd by (auto simp: winding_down_def)
  obtain u where u: "find_ws j' i = Some u" "ws_grows v u"
    using journal_step_grows [OF step] v(1) by (rule journal_grows_ws)
  have "journal_inv j'" using journal_step_inv [OF inv step] .
  moreover have "ws_Stopped u" using u(2) v(2) by (simp add: ws_grows_def)
  moreover have "ws_ActiveOperation u = a \<or> ws_ActiveOperation u = []"
    using stopped_active_step [OF step v u(1)] act by auto
  ultimately show ?thesis using u(1) by (auto simp: winding_down_def)
qed

lemma winding_down_exec:
  "exec journal_step j h j' \<Longrightarrow> winding_down i a j \<Longrightarrow> winding_down i a j'"
proof (induction rule: exec.induct)
  case (exec_step tr s e c s')
  then show ?case using winding_down_step by blast
qed

definition row_settled :: "string \<Rightarrow> journal \<Rightarrow> bool" where
  "row_settled k j \<longleftrightarrow> (\<exists>r. find_op j k = Some r \<and> Status_Terminal (op_Status (rw_Operation r)))"

text \<open>Once the active operation is settled there is none, and then every operation of the workspace is settled.\<close>

lemma wound_down:
  assumes "winding_down i a j" "row_settled a j"
  shows "winding_down i [] j"
proof -
  obtain v where inv: "journal_inv j" and v: "find_ws j i = Some v" "ws_Stopped v"
    and act: "ws_ActiveOperation v = a \<or> ws_ActiveOperation v = []"
    using assms(1) by (auto simp: winding_down_def)
  have "ws_ActiveOperation v = []"
    using act assms(2) journal_inv_ws [OF inv v(1)] by (auto simp: ws_ok_def row_settled_def)
  then show ?thesis using inv v by (auto simp: winding_down_def)
qed

lemma wound_down_settled:
  assumes "winding_down i [] j" "q \<in> set (jr_Operations j)" "rw_WorkspaceID q = i"
  shows "Status_Terminal (op_Status (rw_Operation q))"
proof (rule ccontr)
  assume open_row: "\<not> Status_Terminal (op_Status (rw_Operation q))"
  obtain v where inv: "journal_inv j" and v: "find_ws j i = Some v" "ws_ActiveOperation v = []"
    using assms(1) by (auto simp: winding_down_def)
  have "find_op j (rw_ID q) = Some q"
    using inv assms(2) by (intro tfind_distinct) (simp_all add: journal_inv_def)
  then have "op_row_ok j q" using inv by (rule journal_inv_op [rotated])
  then show False using v open_row assms(3) by (auto simp: op_row_ok_def)
qed

subsection \<open>Assertions every transaction keeps\<close>

lemma stable_steps:
  assumes "\<And>j a out j'. journal_step j a out j' \<Longrightarrow> J j \<Longrightarrow> J j'"
  shows "stable admissible (\<lambda>w. J (wd_Journal w))"
proof -
  have "J (fst (journal_apply j a))" if "admissible a" "J j" for j a
    using assms journal_apply_step that by blast
  then show ?thesis using stable_journal [where J = "\<lambda>j f. J j" and A = admissible] by simp
qed

text \<open>A piece of a handler that only does transactions keeps such an assertion.\<close>

lemma triple_keeps:
  assumes "keeps evolves m" "\<And>j a out j'. journal_step j a out j' \<Longrightarrow> J j \<Longrightarrow> J j'"
  shows "triple admissible (\<lambda>w. J (wd_Journal w)) m (\<lambda>_ w. J (wd_Journal w)) (\<lambda>_ w. J (wd_Journal w))"
proof -
  have J: "J j \<Longrightarrow> J j'" if "exec journal_step j h j'" for j h j'
    using that by (induction rule: exec.induct) (use assms(2) in blast)+
  have "schedule_ok (fst (m w)) \<and> J (wd_Journal (fst (m w)))" if "schedule_ok w" "J (wd_Journal w)" for w
    using assms(1) that J unfolding keeps_def evolves_def by blast
  then show ?thesis unfolding triple_def by (simp split: sum.split)
qed

subsection \<open>Reading the journal\<close>

lemma triple_get_workspace:
  "stable A P \<Longrightarrow> triple A P (get_workspace i) (\<lambda>v w. P w \<and> find_ws (wd_Journal w) i = Some v) (\<lambda>_. P)"
  unfolding get_workspace_def
  by (rule triple_conseq [OF triple_view]) (auto simp: journal_workspace_def split: option.splits)

lemma triple_get_operation:
  "stable A P \<Longrightarrow> triple A P (get_operation k)
     (\<lambda>x w. P w \<and> (\<exists>r. find_op (wd_Journal w) k = Some r \<and> rw_Operation r = x)) (\<lambda>_. P)"
  unfolding get_operation_def
  by (rule triple_conseq [OF triple_view]) (auto simp: journal_operation_def split: option.splits)

lemma stable_winding: "stable admissible (\<lambda>w. winding_down i a (wd_Journal w))"
  using winding_down_step by (rule stable_steps)

lemma triple_winding:
  "keeps evolves m \<Longrightarrow> triple admissible (\<lambda>w. winding_down i a (wd_Journal w)) m
     (\<lambda>_ w. winding_down i a (wd_Journal w)) (\<lambda>_ w. winding_down i a (wd_Journal w))"
  using triple_keeps [OF _ winding_down_step] .

subsection \<open>Reconciliation\<close>

text \<open>What reconciliation answers is what the journal says: a settled answer is a settled row.\<close>

abbreviation answered :: "string \<Rightarrow> string \<Rightarrow> operation \<Rightarrow> world \<Rightarrow> bool" where
  "answered i k x w \<equiv> winding_down i k (wd_Journal w)
     \<and> (Status_Terminal (op_Status x) \<longrightarrow> row_settled k (wd_Journal w))"

abbreviation winding :: "string \<Rightarrow> string \<Rightarrow> world \<Rightarrow> bool" where
  "winding i k w \<equiv> winding_down i k (wd_Journal w)"

lemma answered_get: "triple admissible (winding i k) (get_operation k) (answered i k) (\<lambda>_. winding i k)"
  by (rule triple_conseq [OF triple_get_operation [OF stable_winding]]) (auto simp: row_settled_def)

lemma answered_after:
  "keeps evolves m \<Longrightarrow>
     triple admissible (winding i k) (ebind m (\<lambda>_. get_operation k)) (answered i k) (\<lambda>_. winding i k)"
  using triple_ebind [OF triple_winding answered_get] .

lemma answered_ret: "\<not> Status_Terminal (op_Status x) \<Longrightarrow> triple admissible (winding i k) (ret x) (answered i k) (\<lambda>_. winding i k)"
  by (rule triple_ret) simp

lemma answered_fail: "keeps evolves m \<Longrightarrow>
    triple admissible (winding i k) (ebind m (\<lambda>_. raise e)) (answered i k) (\<lambda>_. winding i k)"
  by (rule triple_ebind [OF triple_winding triple_raise]) auto

lemmas answered_rules = answered_get answered_after answered_ret answered_fail

lemma settle_job_answered:
  assumes "op_ID x = k" "\<not> Status_Terminal (op_Status x)"
  shows "triple admissible (winding i k) (settle_job cfg lib env x job b) (answered i k) (\<lambda>_. winding i k)"
  unfolding settle_job_def assms(1)
  by (intro triple_if triple_ebind [OF triple_winding] answered_rules keeps_intros assms(2))

lemma reconcile_process_answered:
  assumes "op_ID x = k" "\<not> Status_Terminal (op_Status x)"
  shows "triple admissible (winding i k) (reconcile_process cfg lib env x b c) (answered i k) (\<lambda>_. winding i k)"
  unfolding reconcile_process_def assms(1)
  using settle_job_answered [OF assms] keeps_intros
  by (auto split: sum.split intro!: answered_rules keeps_intros)

lemma reconcile_tool_answered:
  assumes "op_ID x = k"
  shows "triple admissible (winding i k) (reconcile_tool cfg lib env x) (answered i k) (\<lambda>_. winding i k)"
  unfolding reconcile_tool_def assms Let_def
  by (intro triple_ebind [OF triple_winding] answered_rules keeps_intros)

lemma reconcileLocked_answered:
  assumes "op_ID x0 = k"
  shows "triple admissible (winding i k) (reconcileLocked cfg lib env x0 b) (answered i k) (\<lambda>_. winding i k)"
  unfolding reconcileLocked_def assms
proof (rule triple_ebind [OF triple_get_operation [OF stable_winding]])
  fix x
  let ?P = "\<lambda>w. winding i k w \<and> (\<exists>r. find_op (wd_Journal w) k = Some r \<and> rw_Operation r = x)"
  show "triple admissible ?P (if Status_Terminal (op_Status x) then ret x
      else ebind (get_dispatch (op_ID x)) (\<lambda>(dispatched, intent).
        if \<not> dispatched \<and> (b \<or> op_CancelRequested x)
        then ebind (complete cfg lib env x OpCancelled not_dispatched_result None) (\<lambda>_. get_operation (op_ID x))
        else if isProcess (or_Kind (op_Request x)) then reconcile_process cfg lib env x b intent
        else reconcile_tool cfg lib env x)) (answered i k) (\<lambda>_. winding i k)"
    (is "triple _ _ (if _ then _ else ?rest) _ _")
  proof (rule triple_if)
    show "triple admissible ?P (ret x) (answered i k) (\<lambda>_. winding i k)"
      by (rule triple_ret) (auto simp: row_settled_def)
    assume running: "\<not> Status_Terminal (op_Status x)"
    show "triple admissible ?P ?rest (answered i k) (\<lambda>_. winding i k)"
    proof (rule triple_fact [where c = "op_ID x = k"])
      show "op_ID x = k" if "?P w" for w
        using that find_op_key by (auto simp: winding_down_def journal_inv_def op_row_ok_def)
      assume id: "op_ID x = k"
      have "triple admissible (winding i k) ?rest (answered i k) (\<lambda>_. winding i k)"
        unfolding id
        by (intro triple_ebind [OF triple_winding] keeps_intros)
          (auto split: prod.split intro!: answered_rules keeps_intros
            reconcile_process_answered [OF id running] reconcile_tool_answered [OF id])
      then show "triple admissible ?P ?rest (answered i k) (\<lambda>_. winding i k)"
        by (rule triple_conseq) auto
    qed
  qed
qed

subsection \<open>The handler\<close>

lemma settled_active:
  assumes "a \<noteq> []"
  shows "triple admissible (winding i a)
    (ebind (get_operation a) (\<lambda>x0. ebind (reconcileLocked cfg lib env x0 b) (\<lambda>x.
       guard (Status_Terminal (op_Status x)) (sentinel ErrReconciliation))))
    (\<lambda>_. winding i []) (\<lambda>_ _. True)"
proof (rule triple_ebind)
  show "triple admissible (winding i a) (get_operation a)
    (\<lambda>x w. winding i a w \<and> (\<exists>r. find_op (wd_Journal w) a = Some r \<and> rw_Operation r = x)) (\<lambda>_ _. True)"
    by (rule triple_conseq [OF triple_get_operation [OF stable_winding]]) auto
  fix x0
  let ?P = "\<lambda>w. winding i a w \<and> (\<exists>r. find_op (wd_Journal w) a = Some r \<and> rw_Operation r = x0)"
  show "triple admissible ?P (ebind (reconcileLocked cfg lib env x0 b) (\<lambda>x.
       guard (Status_Terminal (op_Status x)) (sentinel ErrReconciliation))) (\<lambda>_. winding i []) (\<lambda>_ _. True)"
  proof (rule triple_fact [where c = "op_ID x0 = a"])
    show "op_ID x0 = a" if "?P w" for w
      using that find_op_key by (auto simp: winding_down_def journal_inv_def op_row_ok_def)
    assume id: "op_ID x0 = a"
    show "triple admissible ?P (ebind (reconcileLocked cfg lib env x0 b) (\<lambda>x.
       guard (Status_Terminal (op_Status x)) (sentinel ErrReconciliation))) (\<lambda>_. winding i []) (\<lambda>_ _. True)"
    proof (rule triple_ebind)
      show "triple admissible ?P (reconcileLocked cfg lib env x0 b) (answered i a) (\<lambda>_ _. True)"
        by (rule triple_conseq [OF reconcileLocked_answered [OF id]]) auto
      show "triple admissible (answered i a x) (guard (Status_Terminal (op_Status x)) (sentinel ErrReconciliation))
          (\<lambda>_. winding i []) (\<lambda>_ _. True)" for x
        by (rule triple_conseq [OF triple_guard [where P = "answered i a x" and E = "\<lambda>_ _. True"]]) (auto intro: wound_down)
    qed
  qed
qed

definition stop_receipt_ok :: "string \<Rightarrow> runner_stop_receipt \<Rightarrow> world \<Rightarrow> bool" where
  "stop_receipt_ok i rc w \<longleftrightarrow> winding_down i [] (wd_Journal w) \<and> ws_ID (rs_Workspace rc) = i
     \<and> ws_Stopped (rs_Workspace rc) \<and> ws_ActiveOperation (rs_Workspace rc) = []"

lemma triple_any_winding:
  "keeps evolves m \<Longrightarrow> triple admissible (\<lambda>w. \<exists>a. winding i a w) m (\<lambda>_ w. \<exists>a. winding i a w) (\<lambda>_ _. True)"
proof (rule triple_conseq [OF triple_keeps [where J = "\<lambda>j. \<exists>a. winding_down i a j"]])
  show "\<exists>a. winding_down i a j'" if "journal_step j b out j'" "\<exists>a. winding_down i a j" for j b out j'
    using that winding_down_step by blast
qed auto

lemma stopAndAdopt_stop:
  assumes i: "wr_WorkspaceID r = i"
  shows "triple admissible (\<lambda>w. \<exists>a. winding i a w) (stopAndAdopt cfg lib env r False) (stop_receipt_ok i) (\<lambda>_ _. True)"
proof -
  let ?W = "\<lambda>w. \<exists>a. winding i a w"
  have stable: "stable admissible ?W"
    using stable_steps [where J = "\<lambda>j. \<exists>a. winding_down i a j"] winding_down_step by blast
  have active: "triple admissible (\<lambda>w. ?W w \<and> find_ws (wd_Journal w) i = Some v)
      (if ws_ActiveOperation v \<noteq> []
       then ebind (get_operation (ws_ActiveOperation v)) (\<lambda>x0. ebind (reconcileLocked cfg lib env x0 True) (\<lambda>x.
         guard (Status_Terminal (op_Status x)) (sentinel ErrReconciliation)))
       else ret ()) (\<lambda>_. winding i []) (\<lambda>_ _. True)" for v
  proof (rule triple_if)
    assume "ws_ActiveOperation v \<noteq> []"
    from settled_active [OF this, of i cfg lib env True]
    show "triple admissible (\<lambda>w. ?W w \<and> find_ws (wd_Journal w) i = Some v)
      (ebind (get_operation (ws_ActiveOperation v)) (\<lambda>x0. ebind (reconcileLocked cfg lib env x0 True) (\<lambda>x.
         guard (Status_Terminal (op_Status x)) (sentinel ErrReconciliation)))) (\<lambda>_. winding i []) (\<lambda>_ _. True)"
      by (rule triple_conseq) (auto simp: winding_down_def)
  next
    assume "\<not> ws_ActiveOperation v \<noteq> []"
    then show "triple admissible (\<lambda>w. ?W w \<and> find_ws (wd_Journal w) i = Some v) (ret ()) (\<lambda>_. winding i []) (\<lambda>_ _. True)"
      by (intro triple_ret) (auto simp: winding_down_def)
  qed
  have receipt: "triple admissible (winding i []) (ebind (get_workspace i) (\<lambda>v.
      let rc = \<lparr>rs_Workspace = v, rs_NoActiveOperations = True, rs_Ref = zero_ref\<rparr> in
        ebind (publish env r ''workspace_stop'' (ArtStop rc)) (\<lambda>ref. ret (rc\<lparr>rs_Ref := ref\<rparr>))))
      (stop_receipt_ok i) (\<lambda>_ _. True)"
  proof (rule triple_ebind)
    show "triple admissible (winding i []) (get_workspace i)
        (\<lambda>v w. winding i [] w \<and> find_ws (wd_Journal w) i = Some v) (\<lambda>_ _. True)"
      by (rule triple_conseq [OF triple_get_workspace [OF stable_winding]]) auto
    fix v
    let ?rc = "\<lparr>rs_Workspace = v, rs_NoActiveOperations = True, rs_Ref = zero_ref\<rparr>"
    let ?P = "\<lambda>w. winding i [] w \<and> find_ws (wd_Journal w) i = Some v"
    have "triple admissible ?P (ebind (publish env r ''workspace_stop'' (ArtStop ?rc)) (\<lambda>ref. ret (?rc\<lparr>rs_Ref := ref\<rparr>)))
        (stop_receipt_ok i) (\<lambda>_ _. True)"
    proof (rule triple_fact [where c = "ws_ID v = i \<and> ws_Stopped v \<and> ws_ActiveOperation v = []"])
      show "ws_ID v = i \<and> ws_Stopped v \<and> ws_ActiveOperation v = []" if "?P w" for w
        using that find_ws_key by (auto simp: winding_down_def)
      assume v: "ws_ID v = i \<and> ws_Stopped v \<and> ws_ActiveOperation v = []"
      show "triple admissible ?P (ebind (publish env r ''workspace_stop'' (ArtStop ?rc)) (\<lambda>ref. ret (?rc\<lparr>rs_Ref := ref\<rparr>)))
        (stop_receipt_ok i) (\<lambda>_ _. True)"
      proof (rule triple_ebind)
        show "triple admissible ?P (publish env r ''workspace_stop'' (ArtStop ?rc)) (\<lambda>_. winding i []) (\<lambda>_ _. True)"
          by (rule triple_conseq [OF triple_winding]) (auto intro: keeps_intros)
      qed (use v in \<open>auto simp: stop_receipt_ok_def intro!: triple_ret\<close>)
    qed
    then show "triple admissible ?P (let rc = ?rc in
        ebind (publish env r ''workspace_stop'' (ArtStop rc)) (\<lambda>ref. ret (rc\<lparr>rs_Ref := ref\<rparr>)))
      (stop_receipt_ok i) (\<lambda>_ _. True)" by (simp add: Let_def)
  qed
  have look: "triple admissible ?W (get_workspace i) (\<lambda>v w. ?W w \<and> find_ws (wd_Journal w) i = Some v) (\<lambda>_ _. True)"
    by (rule triple_conseq [OF triple_get_workspace [OF stable]]) auto
  have epoch: "triple admissible (\<lambda>w. ?W w \<and> find_ws (wd_Journal w) i = Some v) (guard b e)
      (\<lambda>_ w. ?W w \<and> find_ws (wd_Journal w) i = Some v) (\<lambda>_ _. True)" for v b e
    by (rule triple_conseq [OF triple_guard [where P = "\<lambda>w. ?W w \<and> find_ws (wd_Journal w) i = Some v" and E = "\<lambda>_ _. True"]]) auto
  show ?thesis
    unfolding stopAndAdopt_def i if_False
    by (rule triple_ebind [OF triple_any_winding] keeps_intros triple_ebind [OF look] triple_ebind [OF epoch]
        triple_ebind [OF active] receipt)+
qed

lemma StopWorkspace_receipt:
  "triple admissible (\<lambda>w. journal_inv (wd_Journal w)) (StopWorkspace cfg lib env r)
     (stop_receipt_ok (wr_WorkspaceID r)) (\<lambda>_ _. True)"
proof -
  let ?I = "\<lambda>w. journal_inv (wd_Journal w)"
  have stable: "stable admissible ?I" by (rule stable_steps) (rule journal_step_inv)
  have auth: "triple admissible ?I (authorize cfg lib now r p) (\<lambda>_. ?I) (\<lambda>_ _. True)" for now p
    unfolding authorize_def by (rule triple_conseq [OF triple_look [OF stable]]) auto
  have fenced: "\<exists>a. winding_down (wr_WorkspaceID r) a j'" if "journal_inv j" "stopFence j r = (j', Inr v)" for j j' v
  proof -
    have step: "journal_step j (JFence r True) (OWorkspace v) j'"
      using that(2) by (simp add: journal_step_def stopFence_def)
    show ?thesis
      using fence_accepted(1,4) [OF step] journal_step_inv [OF that(1) step] by (auto simp: winding_down_def)
  qed
  have fence: "triple admissible ?I (journal_do (\<lambda>j. stopFence j r))
      (\<lambda>_ w. \<exists>a. winding (wr_WorkspaceID r) a w) (\<lambda>_ _. True)"
    by (rule triple_conseq [OF triple_journal_do [OF stable]])
      (auto dest!: fenced [OF _ prod_eqI] simp: prod_eq_iff)
  show ?thesis unfolding StopWorkspace_def
    by (rule triple_ebind [OF auth], rule triple_ebind [OF fence], rule stopAndAdopt_stop) simp
qed

end
