(* ===== verification/Runner_Settle.thy ===== *)
theory Runner_Settle
  imports Runner_Stop
begin

section \<open>What settles an operation\<close>

text \<open>
  An operation is settled by the \<open>finish\<close> at the end of \<open>complete\<close>. The lock of the workspace leaves
  that to one executor at a time: the rely condition \<open>unfinished_by\<close> is that no other call finishes
  the operation meanwhile. Whatever else the others do, an operation is then settled only with the
  evidence that \<open>evidence\<close> describes.
\<close>

subsection \<open>Only a settlement settles\<close>

fun unfinished_by :: "string \<Rightarrow> journal_op \<Rightarrow> bool" where
  "unfinished_by k (JFinish x) \<longleftrightarrow> op_ID x \<noteq> k"
| "unfinished_by k a \<longleftrightarrow> admissible a"

definition row_unsettled :: "string \<Rightarrow> journal \<Rightarrow> bool" where
  "row_unsettled k j \<longleftrightarrow> (\<exists>r. find_op j k = Some r \<and> \<not> Status_Terminal (op_Status (rw_Operation r)))"

lemma unfinished_admissible: "unfinished_by k a \<Longrightarrow> admissible a"
  by (cases a) simp_all

lemma row_updates_terminal [simp]:
  "Status_Terminal (op_Status (rw_Operation (run_row r))) = Status_Terminal (op_Status (rw_Operation r))"
  "Status_Terminal (op_Status (rw_Operation (unknown_row s r))) = Status_Terminal (op_Status (rw_Operation r))"
  "Status_Terminal (op_Status (rw_Operation (cancel_row r))) = Status_Terminal (op_Status (rw_Operation r))"
  by (simp_all add: run_row_def unknown_row_def cancel_row_def)

lemma row_unsettled_kept:
  assumes "unfinished_by k a" "row_unsettled k j"
  shows "row_unsettled k (fst (journal_apply j a))"
proof -
  obtain r where r: "find_op j k = Some r" "\<not> Status_Terminal (op_Status (rw_Operation r))"
    using assms(2) by (auto simp: row_unsettled_def)
  show ?thesis
  proof (cases a)
    case (JReserve x logs)
    obtain j' res where "reserve j x logs = (j', res)" by fastforce
    then show ?thesis
    proof (cases rule: reserve_cases)
      case (created w req j2)
      have "jr_Operations j2 = tinsert (new_op_row w x req) (jr_Operations j)"
        using created(11) by (auto dest: reserveLogs_frame)
      then show ?thesis using JReserve \<open>reserve j x logs = (j', res)\<close> created(2,12) r by (auto simp: row_unsettled_def)
    qed (use JReserve \<open>reserve j x logs = (j', res)\<close> assms in auto)
  next
    case (JFinish x)
    obtain j' res where "finish j x = (j', res)" by fastforce
    then show ?thesis
      by (cases rule: finish_cases)
        (use JFinish \<open>finish j x = (j', res)\<close> assms r in \<open>auto simp: row_unsettled_def with_result_def\<close>)
  next
    case (JFence q stop)
    obtain j' res where "setFence j q stop = (j', res)" by fastforce
    then show ?thesis
      by (cases rule: setFence_cases) (use JFence \<open>setFence j q stop = (j', res)\<close> assms in \<open>auto simp: row_unsettled_def\<close>)
  qed (use r in \<open>auto simp: row_unsettled_def createWorkspace_def markRunning_def markUnknown_def requestCancel_def
      startIntent_def completeAdoption_def releaseRow_def pinArtifact_def
      recordLogContainer_def setCleanupState_def registerSlot_def allocateLease_def freeLease_def Let_def
      split: option.split if_split\<close>)
qed

abbreviation pending :: "string \<Rightarrow> world \<Rightarrow> bool" where
  "pending k w \<equiv> row_unsettled k (wd_Journal w)"

lemma stable_pending: "stable (unfinished_by k) (pending k)"
  using stable_journal [where J = "\<lambda>j f. row_unsettled k j" and A = "unfinished_by k"] row_unsettled_kept by blast

definition calm :: "string \<Rightarrow> world \<Rightarrow> world \<Rightarrow> bool" where
  "calm k w w' \<longleftrightarrow> (schedule_in (unfinished_by k) w \<longrightarrow> schedule_in (unfinished_by k) w' \<and> (pending k w \<longrightarrow> pending k w'))"

lemma calm_same: "wd_Journal w' = wd_Journal w \<Longrightarrow> wd_Schedule w' = wd_Schedule w \<Longrightarrow> calm k w w'"
  by (simp add: calm_def schedule_in_def)

lemma calm_meanwhile: "calm k w (meanwhile w)"
  using stable_pending [of k] by (auto simp: calm_def stable_def)

interpretation calmness: engine_relation "calm k" for k
proof unfold_locales
  show "calm k w (w\<lparr>wd_Journal := fst (journal_apply (wd_Journal w) a)\<rparr>)" if "admissible a" "\<not> settlement_op a" for w a
  proof -
    have "unfinished_by k a" using that by (cases a) simp_all
    then show ?thesis using row_unsettled_kept by (simp add: calm_def)
  qed
  show "calm k u w" if "calm k u v" "calm k v w" for u v w using that by (simp add: calm_def)
qed (simp_all add: calm_same calm_meanwhile)

lemma triple_calm:
  "keeps (calm k) m \<Longrightarrow> triple (unfinished_by k) (pending k) m (\<lambda>_. pending k) (\<lambda>_. pending k)"
  unfolding keeps_def calm_def triple_def by (simp split: sum.split)

subsection \<open>Evidence\<close>

text \<open>
  The row of a settled operation against the files: the recorded hash is that of the tree in the
  workspace and the revision moves exactly when that hash did; a verification that was not cancelled
  left the live tree and its candidate as they were before; a patch that did not succeed left the old
  tree or the planned one; the receipt is pinned. The recorded status is the claimed one, or a failure
  when the captured output is not complete.
\<close>

definition stored :: "bytes \<Rightarrow> bytes" where
  "stored result = (if result = [] then ''{}'' else result)"

definition evidence :: "engine_config \<Rightarrow> engine_lib \<Rightarrow> operation \<Rightarrow> op_status \<Rightarrow> bytes \<Rightarrow> ws_files
    \<Rightarrow> operation \<Rightarrow> bool" where
  "evidence cfg lib x status result f y \<longleftrightarrow>
     (\<exists>after. read_node cfg lib (wf_Checkout f) = Inr after \<and> op_AfterHash y = treeHash (el_sha lib) after)
     \<and> op_AfterRevision y = (if op_AfterHash y \<noteq> op_BeforeHash x then or_ExpectedRevision (op_Request x) + 1
                             else or_ExpectedRevision (op_Request x))
     \<and> (op_Status y = status \<or> op_Status y = OpFailed \<and> status \<noteq> OpCancelled)
     \<and> (op_Status y = OpSucceeded \<longrightarrow> op_Result y = stored result
          \<or> (\<exists>job. op_Result y = stored (el_job lib job) \<and> VerificationLogValid job))
     \<and> (or_Kind (op_Request x) = ''verify'' \<and> status \<noteq> OpCancelled \<longrightarrow>
          op_AfterHash y = op_BeforeHash x
          \<and> (\<exists>t. read_node cfg lib (map_of (wf_Candidates f) (op_ID x)) = Inr t
               \<and> treeHash (el_sha lib) t = op_BeforeHash x))
     \<and> (or_Kind (op_Request x) = ''apply_patch'' \<and> status \<noteq> OpSucceeded \<longrightarrow>
          op_AfterHash y = op_BeforeHash x \<or> op_AfterHash y = op_ExpectedAfterHash x)"

lemma with_result_frame [simp]:
  "op_Status (with_result y) = op_Status y" "op_AfterHash (with_result y) = op_AfterHash y"
  "op_AfterRevision (with_result y) = op_AfterRevision y" "op_Receipt (with_result y) = op_Receipt y"
  "op_Result (with_result y) = stored (op_Result y)" "op_Request (with_result y) = op_Request y"
  by (simp_all add: with_result_def stored_def)

text \<open>Publishing only lowers a status to failed, and replaces the result by a job with its log.\<close>

definition published :: "engine_lib \<Rightarrow> operation \<Rightarrow> operation \<Rightarrow> bool" where
  "published lib x y \<longleftrightarrow> y = x \<or> (\<exists>job. y = with_log_job lib job x)"

lemma published_evidence:
  assumes "evidence cfg lib x status result f (with_result x1)" "published lib x1 y"
  shows "evidence cfg lib x status result f (with_result y)" "op_Request y = op_Request x1"
proof -
  show "op_Request y = op_Request x1" using assms(2) by (auto simp: published_def with_log_job_def)
  show "evidence cfg lib x status result f (with_result y)"
  proof (cases "y = x1")
    case False
    then obtain job where y: "y = with_log_job lib job x1" using assms(2) by (auto simp: published_def)
    show ?thesis
    proof (cases "VerificationLogValid job \<or> op_Status x1 = OpCancelled")
      case True
      then have "op_Status y = op_Status x1" "op_Result y = el_job lib job" "op_AfterHash y = op_AfterHash x1"
        "op_AfterRevision y = op_AfterRevision x1" by (auto simp: y with_log_job_def)
      then show ?thesis using assms(1) True unfolding evidence_def by auto
    next
      case False
      then have "op_Status y = OpFailed" "op_AfterHash y = op_AfterHash x1" "op_AfterRevision y = op_AfterRevision x1"
        by (simp_all add: y with_log_job_def)
      then show ?thesis using assms(1) False unfolding evidence_def by auto
    qed
  qed (use assms(1) in simp)
qed

lemma finished_evidence:
  "evidence cfg lib x status result f (rw_Operation (finish_row (with_result y) r))
     = evidence cfg lib x status result f (with_result y)"
  by (simp add: evidence_def finish_row_def)

abbreviation pending_with :: "string \<Rightarrow> (string \<Rightarrow> ws_files) \<Rightarrow> world \<Rightarrow> bool" where
  "pending_with k F w \<equiv> pending k w \<and> wd_Files w = F"

lemma stable_pending_with: "stable (unfinished_by k) (pending_with k F)"
  using stable_journal [where J = "\<lambda>j f. row_unsettled k j \<and> f = F" and A = "unfinished_by k"] row_unsettled_kept by blast

lemma triple_files_fixed:
  "(\<And>F. triple A (\<lambda>w. P w \<and> wd_Files w = F) m Q E) \<Longrightarrow> triple A P m Q E"
  unfolding triple_def by blast

subsection \<open>Publishing\<close>

definition pinned :: "artifact_ref \<Rightarrow> journal \<Rightarrow> bool" where
  "pinned ref j \<longleftrightarrow> tfind ar_ObjectKey (ar_ObjectKey ref) (jr_Artifacts j) \<noteq> None"

lemma stable_pinned: "stable (unfinished_by k) (\<lambda>w. pending_with k F w \<and> pinned ref (wd_Journal w))"
proof -
  have "pinned ref (fst (journal_apply j a))" if "unfinished_by k a" "pinned ref j" for j a
    using journal_step_grows [OF journal_apply_step [OF unfinished_admissible [OF that(1)], of j]] that(2)
    by (auto simp: pinned_def journal_grows_def)
  then show ?thesis
    using stable_journal [where J = "\<lambda>j f. (row_unsettled k j \<and> f = F) \<and> pinned ref j" and A = "unfinished_by k"]
      row_unsettled_kept by blast
qed

lemma triple_pin:
  "triple (unfinished_by k) (pending_with k F) (pin ref) (\<lambda>_ w. pending_with k F w \<and> pinned ref (wd_Journal w))
     (\<lambda>_. pending_with k F)"
proof -
  have "row_unsettled k (fst (pinArtifact j ref))" if "row_unsettled k j" for j
    using row_unsettled_kept [of k "JPin ref"] that by simp
  moreover have "pinned ref (fst (pinArtifact j ref))" if "snd (pinArtifact j ref) = Inr u" for j u
    using that by (auto simp: pinned_def pinArtifact_def split: option.splits if_splits)
  ultimately show ?thesis unfolding pin_def
    by (intro triple_conseq [OF triple_journal_do [OF stable_pending_with]]) auto
qed

lemma triple_put:
  "triple A P (put_artifact env r kind data) (\<lambda>_. P) (\<lambda>_. P)"
  by (rule triple_inert) (simp add: put_artifact_def split: sum.split)

lemma triple_publishLogs:
  "triple (unfinished_by k) (pending_with k F) (publishLogs lib env x)
     (\<lambda>y w. pending_with k F w \<and> published lib x y) (\<lambda>_. pending_with k F)"
proof -
  note look = triple_look [OF stable_pending_with, of k F]
  have policy: "triple (unfinished_by k) (pending_with k F) (get_logPolicy i) (\<lambda>_. pending_with k F) (\<lambda>_. pending_with k F)"
    "triple (unfinished_by k) (pending_with k F) (get_dispatch i) (\<lambda>_. pending_with k F) (\<lambda>_. pending_with k F)" for i
    unfolding get_logPolicy_def get_dispatch_def by (rule look)+
  have pin: "triple (unfinished_by k) (pending_with k F) (pin ref) (\<lambda>_. pending_with k F) (\<lambda>_. pending_with k F)" for ref
    by (rule triple_conseq [OF triple_pin]) auto
  show ?thesis
    unfolding publishLogs_def
    apply (rule triple_ebind [OF policy(1)])
    apply (split option.split, intro conjI allI impI)
     apply (rule triple_ret, simp add: published_def)
    apply (rule triple_ebind [OF triple_inert], simp)
    apply (split prod.split, intro allI impI)+
    apply (rule triple_ebind [OF triple_inert], simp)
    apply (rule triple_ebind [where Q = "\<lambda>_. pending_with k F"])
     apply (rule triple_if)
      apply (rule triple_ebind [OF policy(2)])
      apply (split prod.split, intro allI impI)
      apply (rule triple_ebind [OF triple_inert], simp)
      apply (rule triple_ret, simp)
     apply (rule triple_ret, simp)
    apply (rule triple_ebind [OF triple_put])
    apply (rule triple_ebind [OF pin])
    apply (rule triple_ret)
    apply (auto simp: published_def)
    done
qed

text \<open>The end of an operation: still pending, or settled with the evidence for a claimed status and result.\<close>

definition settled_row :: "engine_config \<Rightarrow> engine_lib \<Rightarrow> operation \<Rightarrow> op_status \<Rightarrow> bytes \<Rightarrow> ws_files \<Rightarrow> journal \<Rightarrow> bool" where
  "settled_row cfg lib x status result f j \<longleftrightarrow> (\<exists>r. find_op j (op_ID x) = Some r
     \<and> Status_Terminal (op_Status (rw_Operation r)) \<and> pinned (op_Receipt (rw_Operation r)) j
     \<and> evidence cfg lib x status result f (rw_Operation r))"

lemma finish_settles:
  assumes "row_unsettled (op_ID x) j" "pinned (op_Receipt y) j" "op_Request y = without_grant (op_Request x)"
    and ev: "evidence cfg lib x status result f (with_result y)"
  shows "row_unsettled (op_ID x) (fst (finish j y)) \<or> settled_row cfg lib x status result f (fst (finish j y))"
    and "snd (finish j y) = Inl e \<Longrightarrow> row_unsettled (op_ID x) (fst (finish j y))"
proof -
  have id: "op_ID y = op_ID x" using assms(3) by simp
  obtain j' res where fin: "finish j y = (j', res)" by fastforce
  then have "(row_unsettled (op_ID x) j' \<or> settled_row cfg lib x status result f j')
      \<and> (res = Inl e \<longrightarrow> row_unsettled (op_ID x) j')"
  proof (cases rule: finish_cases)
    case (finished r w)
    have "find_op j' (op_ID x) = Some (finish_row (with_result y) r)" using finished id by simp
    moreover have "op_Status (rw_Operation (finish_row (with_result y) r)) = op_Status y"
      "op_Receipt (rw_Operation (finish_row (with_result y) r)) = op_Receipt y" by (simp_all add: finish_row_def)
    moreover have "pinned (op_Receipt y) j'" using finished(10) assms(2) by (simp add: pinned_def)
    ultimately show ?thesis using finished(3,11) ev by (auto simp: settled_row_def finished_evidence)
  qed (use assms id in \<open>auto simp: row_unsettled_def\<close>)
  then show "row_unsettled (op_ID x) (fst (finish j y)) \<or> settled_row cfg lib x status result f (fst (finish j y))"
    "snd (finish j y) = Inl e \<Longrightarrow> row_unsettled (op_ID x) (fst (finish j y))" using fin by auto
qed

abbreviation concluded :: "engine_config \<Rightarrow> engine_lib \<Rightarrow> operation \<Rightarrow> op_status \<Rightarrow> bytes \<Rightarrow> (string \<Rightarrow> ws_files)
    \<Rightarrow> world \<Rightarrow> bool" where
  "concluded cfg lib x status result F w \<equiv> wd_Files w = F \<and> (pending (op_ID x) w
     \<or> settled_row cfg lib x status result (F (op_WorkspaceID x)) (wd_Journal w))"

lemma triple_publish_receipt:
  assumes ev: "evidence cfg lib x status result (F (op_WorkspaceID x)) (with_result x1)"
    and req: "op_Request x1 = without_grant (op_Request x)"
  shows "triple (unfinished_by (op_ID x)) (pending_with (op_ID x) F) (publish_receipt lib env x1)
    (\<lambda>_. concluded cfg lib x status result F) (\<lambda>_. pending_with (op_ID x) F)"
  unfolding publish_receipt_def
proof (rule triple_ebind [OF triple_inert], simp, rule triple_ebind [OF triple_publishLogs], goal_cases)
  case (1 _ y)
  let ?A = "unfinished_by (op_ID x)" and ?P = "pending_with (op_ID x) F"
  let ?rest = "ebind (put_artifact env (or_Workspace (op_Request y)) ''operation_receipt'' (ArtReceipt y)) (\<lambda>ref.
     ebind (pin ref) (\<lambda>_. ebind (check (ev_Fault env ''after_receipt_before_commit'')) (\<lambda>_.
       journal_do (\<lambda>j. finish j (y\<lparr>op_Receipt := ref\<rparr>)))))"
  show ?case
  proof (rule triple_fact [where c = "published lib x1 y"])
    assume pub: "published lib x1 y"
    have evy: "evidence cfg lib x status result (F (op_WorkspaceID x)) (with_result (y\<lparr>op_Receipt := ref\<rparr>))" for ref
      using published_evidence(1) [OF ev pub] by (simp add: evidence_def)
    have reqy: "op_Request (y\<lparr>op_Receipt := ref\<rparr>) = without_grant (op_Request x)" for ref
      using published_evidence(2) [OF ev pub] req by simp
    have fin: "triple ?A (\<lambda>w. ?P w \<and> pinned ref (wd_Journal w)) (journal_do (\<lambda>j. finish j (y\<lparr>op_Receipt := ref\<rparr>)))
        (\<lambda>_. concluded cfg lib x status result F) (\<lambda>_. ?P)" for ref
    proof (rule triple_conseq [OF triple_journal_do [OF stable_pinned [of "op_ID x" F ref]]], goal_cases)
      case (2 u w')
      then obtain w where "pending (op_ID x) w" "pinned ref (wd_Journal w)" "wd_Files w = F"
        "w' = w\<lparr>wd_Journal := fst (finish (wd_Journal w) (y\<lparr>op_Receipt := ref\<rparr>))\<rparr>" by blast
      then show ?case using finish_settles(1) [OF _ _ reqy evy, of "wd_Journal w" ref] by simp
    next
      case (3 e w')
      then obtain w where "pending (op_ID x) w" "pinned ref (wd_Journal w)" "wd_Files w = F"
        "w' = w\<lparr>wd_Journal := fst (finish (wd_Journal w) (y\<lparr>op_Receipt := ref\<rparr>))\<rparr>"
        "snd (finish (wd_Journal w) (y\<lparr>op_Receipt := ref\<rparr>)) = Inl e" by blast
      then show ?case using finish_settles(2) [OF _ _ reqy evy, of "wd_Journal w" ref] by simp
    qed simp
    have fault: "triple ?A (\<lambda>w. ?P w \<and> pinned ref (wd_Journal w)) (check e)
        (\<lambda>_ w. ?P w \<and> pinned ref (wd_Journal w)) (\<lambda>_. ?P)" for ref e
      by (rule triple_conseq [OF triple_inert [where P = "\<lambda>w. ?P w \<and> pinned ref (wd_Journal w)"]]) auto
    have "triple ?A ?P ?rest (\<lambda>_. concluded cfg lib x status result F) (\<lambda>_. ?P)"
      by (rule triple_ebind [OF triple_put], rule triple_ebind [OF triple_pin], rule triple_ebind [OF fault], rule fin)
    then show "triple ?A (\<lambda>w. ?P w \<and> published lib x1 y) ?rest (\<lambda>_. concluded cfg lib x status result F) (\<lambda>_. ?P)"
      by (rule triple_conseq) auto
  qed simp
qed

subsection \<open>Settling\<close>

lemma triple_unknown:
  "triple (unfinished_by (op_ID x)) (pending_with (op_ID x) F) (unknown x err) (\<lambda>_. concluded cfg lib x status result F)
     (\<lambda>_. concluded cfg lib x status result F)"
proof -
  have "row_unsettled (op_ID x) (markUnknown j (op_ID x) reason)" if "row_unsettled (op_ID x) j" for j reason
    using row_unsettled_kept [of "op_ID x" "JUnknown (op_ID x) reason"] that by simp
  then show ?thesis unfolding unknown_def
    by (intro triple_conseq [OF triple_journal_do [OF stable_pending_with [of "op_ID x" F]]]) auto
qed

definition settles_with :: "engine_config \<Rightarrow> engine_lib \<Rightarrow> operation \<Rightarrow> op_status \<Rightarrow> ws_files \<Rightarrow> tree \<Rightarrow> bool" where
  "settles_with cfg lib x status f after \<longleftrightarrow> read_node cfg lib (wf_Checkout f) = Inr after
     \<and> (or_Kind (op_Request x) = ''verify'' \<and> status \<noteq> OpCancelled \<longrightarrow>
          treeHash (el_sha lib) after = op_BeforeHash x
          \<and> (\<exists>t. read_node cfg lib (map_of (wf_Candidates f) (op_ID x)) = Inr t
               \<and> treeHash (el_sha lib) t = op_BeforeHash x))
     \<and> \<not> partial_patch x status (treeHash (el_sha lib) after)"

lemma settled_evidence:
  "settles_with cfg lib x status f after \<Longrightarrow>
     evidence cfg lib x status result f (with_result (settled x status result err (treeHash (el_sha lib) after) c))"
  by (auto simp: settles_with_def evidence_def settled_def partial_patch_def)

lemma triple_validate:
  "triple A (\<lambda>w. pending k w \<and> wd_Files w = F) (if or_Kind (op_Request x) = ''verify'' \<and> status \<noteq> OpCancelled
       then validateVerification cfg lib x h else ret ())
     (\<lambda>_ w. (pending k w \<and> wd_Files w = F) \<and> (or_Kind (op_Request x) = ''verify'' \<and> status \<noteq> OpCancelled \<longrightarrow>
        h = op_BeforeHash x \<and> (\<exists>t. read_node cfg lib (map_of (wf_Candidates (F (op_WorkspaceID x))) (op_ID x)) = Inr t
          \<and> treeHash (el_sha lib) t = op_BeforeHash x)))
     (\<lambda>_ w. pending k w \<and> wd_Files w = F)"
  unfolding validateVerification_def triple_def ebind_def attempt_def guard_def ret_def raise_def files_view_def
  by (auto split: sum.split)

lemma triple_complete:
  "triple (unfinished_by (op_ID x)) (pending_with (op_ID x) F) (complete cfg lib env x status result err)
     (\<lambda>_. concluded cfg lib x status result F) (\<lambda>_. concluded cfg lib x status result F)"
proof -
  let ?A = "unfinished_by (op_ID x)" and ?P = "pending_with (op_ID x) F"
  let ?C = "\<lambda>_ :: unit. concluded cfg lib x status result F" and ?E = "\<lambda>_ :: rerr. concluded cfg lib x status result F"
  note look = triple_look [OF stable_pending_with [of "op_ID x" F]]
  have sync: "triple ?A ?P (syncWorkspace cfg env i) (\<lambda>_. ?P) (\<lambda>_. ?P)" for i
    unfolding syncWorkspace_def verifyStorage_def
    by (intro triple_if triple_ebind [OF look] triple_inert) simp_all
  have cancelled: "triple ?A ?P (attempt (get_operation i) (\<lambda>current. ret (op_CancelRequested current)) (\<lambda>_. ret False))
      (\<lambda>_. ?P) (\<lambda>_. ?P)" for i
    unfolding get_operation_def by (rule triple_attempt [OF look]) (rule triple_ret, simp)+
  have publish: "triple ?A ?P (attempt (publish_receipt lib env
        (settled x status result err (treeHash (el_sha lib) after) c)) (\<lambda>_. ret ()) (unknown_on x)) ?C ?E"
    if ok: "settles_with cfg lib x status (F (op_WorkspaceID x)) after" for after c
  proof (rule triple_attempt)
    show "triple ?A ?P (publish_receipt lib env (settled x status result err (treeHash (el_sha lib) after) c)) (\<lambda>_. ?C ()) (\<lambda>_. ?P)"
      by (rule triple_publish_receipt) (use settled_evidence [OF ok] in \<open>simp_all add: settled_def\<close>)
  qed (rule triple_ret triple_unknown; simp)+
  have settle: "triple ?A ?P (attempt (if or_Kind (op_Request x) = ''verify'' \<and> status \<noteq> OpCancelled
        then validateVerification cfg lib x (treeHash (el_sha lib) after) else ret ()) (\<lambda>_.
       if partial_patch x status (treeHash (el_sha lib) after)
       then unknown_on x (ROther ''partially applied patch; original operation must be reconciled'')
       else attempt (attempt (get_operation (op_ID x)) (\<lambda>current. ret (op_CancelRequested current)) (\<lambda>_. ret False))
         (\<lambda>c. attempt (publish_receipt lib env (settled x status result err (treeHash (el_sha lib) after) c))
            (\<lambda>_. ret ()) (unknown_on x)) (unknown_on x)) (unknown_on x)) ?C ?E"
    if read: "read_node cfg lib (wf_Checkout (F (op_WorkspaceID x))) = Inr after" for after
  proof (rule triple_attempt [OF triple_validate], goal_cases)
    case (1 u)
    let ?V = "or_Kind (op_Request x) = ''verify'' \<and> status \<noteq> OpCancelled \<longrightarrow>
        treeHash (el_sha lib) after = op_BeforeHash x
        \<and> (\<exists>t. read_node cfg lib (map_of (wf_Candidates (F (op_WorkspaceID x))) (op_ID x)) = Inr t
          \<and> treeHash (el_sha lib) t = op_BeforeHash x)"
    show ?case
    proof (rule triple_fact [where c = ?V], simp, rule triple_conseq [where P' = ?P])
      assume v: ?V
      show "triple ?A ?P (if partial_patch x status (treeHash (el_sha lib) after)
         then unknown_on x (ROther ''partially applied patch; original operation must be reconciled'')
         else attempt (attempt (get_operation (op_ID x)) (\<lambda>current. ret (op_CancelRequested current)) (\<lambda>_. ret False))
           (\<lambda>c. attempt (publish_receipt lib env (settled x status result err (treeHash (el_sha lib) after) c))
              (\<lambda>_. ret ()) (unknown_on x)) (unknown_on x)) ?C ?E"
      proof (rule triple_if [OF triple_unknown], rule triple_attempt [OF cancelled _ triple_unknown], rule publish)
        show "settles_with cfg lib x status (F (op_WorkspaceID x)) after"
          if "\<not> partial_patch x status (treeHash (el_sha lib) after)"
          using that v read by (simp add: settles_with_def)
      qed
    qed simp_all
  qed (rule triple_unknown)
  show ?thesis
    unfolding complete_def read_checkout_def Let_def
  proof (rule triple_attempt [OF triple_files_view [where P = ?P]], goal_cases)
    case (1 after)
    show ?case
    proof (rule triple_fact [where c = "read_node cfg lib (wf_Checkout (F (op_WorkspaceID x))) = Inr after"])
      assume read: "read_node cfg lib (wf_Checkout (F (op_WorkspaceID x))) = Inr after"
      show ?case
        by (rule triple_conseq [where P' = ?P, OF triple_attempt [OF sync settle [OF read] triple_unknown]]) simp_all
    qed auto
  next
    case (2 e)
    show ?case by (rule triple_conseq [OF triple_unknown]) simp_all
  qed
qed

end
