(* ===== verification/Runner_Evidence.thy ===== *)
theory Runner_Evidence
  imports Runner_Settle
begin

section \<open>The executor settles with evidence\<close>

text \<open>
  What justifies a recorded success: for a process the job was started, has ended with exit code zero,
  and its captured output, where it has one, is complete; for a file tool the tool returned the result.
\<close>

definition justified :: "engine_config \<Rightarrow> engine_lib \<Rightarrow> engine_env \<Rightarrow> operation \<Rightarrow> tree \<Rightarrow> op_status \<Rightarrow> bytes \<Rightarrow> bool" where
  "justified cfg lib env x before status result \<longleftrightarrow> (status = OpSucceeded \<longrightarrow>
     (if isProcess (or_Kind (op_Request x))
      then \<exists>job. result = el_job lib job \<and> jb_Started job \<and> \<not> jb_Running job \<and> jb_ExitCode job = 0
        \<and> VerificationLogValid job
      else \<exists>f. snd (run_file_tool cfg lib env x before f) = Inr result))"

definition outcome_ok :: "engine_config \<Rightarrow> engine_lib \<Rightarrow> engine_env \<Rightarrow> operation \<Rightarrow> tree \<Rightarrow> world \<Rightarrow> bool" where
  "outcome_ok cfg lib env x before w \<longleftrightarrow> pending (op_ID x) w
     \<or> (\<exists>status result. justified cfg lib env x before status result
          \<and> settled_row cfg lib x status result (wd_Files w (op_WorkspaceID x)) (wd_Journal w))"

subsection \<open>Outcomes\<close>

lemma settled_row_kept:
  assumes "unfinished_by k a" "settled_row cfg lib x status result f j"
  shows "settled_row cfg lib x status result f (fst (journal_apply j a))"
proof -
  have grows: "journal_grows j (fst (journal_apply j a))"
    using assms(1) by (intro journal_step_grows [OF journal_apply_step] unfinished_admissible)
  obtain r where r: "find_op j (op_ID x) = Some r" "Status_Terminal (op_Status (rw_Operation r))"
      "pinned (op_Receipt (rw_Operation r)) j" "evidence cfg lib x status result f (rw_Operation r)"
    using assms(2) by (auto simp: settled_row_def)
  obtain q where "find_op (fst (journal_apply j a)) (op_ID x) = Some q" "op_grows r q"
    using grows r(1) by (rule journal_grows_op)
  moreover from this have "q = r" using r(2) by (simp add: op_grows_def)
  moreover have "pinned (op_Receipt (rw_Operation r)) (fst (journal_apply j a))"
    using grows r(3) by (auto simp: pinned_def journal_grows_def)
  ultimately show ?thesis using r by (auto simp: settled_row_def)
qed

lemma stable_outcome: "stable (unfinished_by (op_ID x)) (outcome_ok cfg lib env x before)"
proof -
  let ?J = "\<lambda>j f. row_unsettled (op_ID x) j \<or> (\<exists>status result. justified cfg lib env x before status result
          \<and> settled_row cfg lib x status result (f (op_WorkspaceID x)) j)"
  have "?J (fst (journal_apply j a)) f" if "unfinished_by (op_ID x) a" "?J j f" for j a f
    using that row_unsettled_kept settled_row_kept by blast
  then show ?thesis using stable_journal [where J = ?J and A = "unfinished_by (op_ID x)"]
    unfolding outcome_ok_def by blast
qed

lemma outcome_files:
  "settled_row cfg lib x status result f j \<Longrightarrow> wf_Checkout f' = wf_Checkout f \<Longrightarrow> wf_Candidates f' = wf_Candidates f \<Longrightarrow>
     settled_row cfg lib x status result f' j"
  by (simp add: settled_row_def evidence_def)

abbreviation ends_well :: "engine_config \<Rightarrow> engine_lib \<Rightarrow> engine_env \<Rightarrow> operation \<Rightarrow> tree \<Rightarrow> 'a eng \<Rightarrow> bool" where
  "ends_well cfg lib env x before m \<equiv> triple (unfinished_by (op_ID x)) (pending (op_ID x)) m
     (\<lambda>_. outcome_ok cfg lib env x before) (\<lambda>_. outcome_ok cfg lib env x before)"

named_theorems ending

lemma ends_complete [ending]:
  assumes "justified cfg lib env x before status result"
  shows "ends_well cfg lib env x before (complete cfg lib env x status result err)"
  by (rule triple_files_fixed, rule triple_conseq [OF triple_complete]) (use assms in \<open>auto simp: outcome_ok_def\<close>)

lemma ends_calm: "keeps (calm (op_ID x)) m \<Longrightarrow> ends_well cfg lib env x before m"
  by (rule triple_conseq [OF triple_calm]) (auto simp: outcome_ok_def)

lemma ends_unknown [ending]: "ends_well cfg lib env x before (unknown x err)"
  by (rule ends_calm) (intro keeps_intros)

lemma ends_attempt:
  "keeps (calm (op_ID x)) m \<Longrightarrow> (\<And>y. ends_well cfg lib env x before (f y)) \<Longrightarrow>
     (\<And>e. ends_well cfg lib env x before (g e)) \<Longrightarrow> ends_well cfg lib env x before (attempt m f g)"
  by (rule triple_attempt [OF triple_calm])

lemma ends_ebind:
  "keeps (calm (op_ID x)) m \<Longrightarrow> (\<And>y. ends_well cfg lib env x before (f y)) \<Longrightarrow>
     ends_well cfg lib env x before (ebind m f)"
  unfolding ebind_def by (rule ends_attempt) (auto intro: ends_calm keeps_intros)

text \<open>After the settlement the executor only closes the capture and leaves.\<close>

lemma outcome_finish_capture:
  "triple A (outcome_ok cfg lib env x before) (finish_capture lib e y capture)
     (\<lambda>_. outcome_ok cfg lib env x before) (\<lambda>_. outcome_ok cfg lib env x before)"
proof -
  have "outcome_ok cfg lib env x before (w\<lparr>wd_Files := (wd_Files w)(i := write_capture k c meta (wd_Files w i))\<rparr>)"
    if "outcome_ok cfg lib env x before w" for w i k c meta
    using that outcome_files by (fastforce simp: outcome_ok_def write_capture_def)
  then show ?thesis
    by (auto simp: finish_capture_def triple_def ret_def files_do_def Let_def split: option.split)
qed

subsection \<open>Jobs\<close>

lemma wait_job_ended:
  "status \<in> {OpSucceeded, OpCancelled} \<Longrightarrow> triple (unfinished_by k) (pending k) (wait_job ps job status)
     (\<lambda>r w. pending k w \<and> (\<forall>job' status'. r = Some (job', status') \<longrightarrow>
        \<not> jb_Running job' \<and> status' \<in> {OpSucceeded, OpCancelled})) (\<lambda>_. pending k)"
proof (induction ps arbitrary: job status)
  case Nil
  then show ?case by (auto intro!: triple_ret)
next
  case (Cons p ps)
  have closing: "triple (unfinished_by k) (pending k) closing (\<lambda>_. pending k) (\<lambda>_. pending k)"
    unfolding closing_def by (rule triple_look [OF stable_pending])
  show ?case
  proof (cases p)
    case (PollDone e c)
    show ?thesis unfolding PollDone wait_job.simps poll.case
      by (intro triple_if triple_ebind [OF closing])
        (use Cons in \<open>auto split: sum.split intro!: triple_ret triple_raise triple_if Cons.IH\<close>)
  next
    case (PollInspect c)
    show ?thesis unfolding PollInspect wait_job.simps poll.case
      by (cases c) (use Cons in \<open>auto intro!: triple_ret triple_raise triple_if Cons.IH\<close>)
  qed
qed

lemma ends_conclude:
  assumes "isProcess (or_Kind (op_Request x))" "\<not> jb_Running job" "status \<in> {OpSucceeded, OpCancelled}"
  shows "ends_well cfg lib env x before (conclude_job cfg lib env x job status)"
proof -
  have "justified cfg lib env x before (job_status job status) (el_job lib job)" if "jb_Started job"
    using assms that by (auto simp: justified_def job_status_def VerificationLogValid_def split: option.splits if_splits)
  then show ?thesis unfolding conclude_job_def
    by (intro triple_if ending ends_attempt keeps_intros) auto
qed

lemma ends_job:
  assumes "isProcess (or_Kind (op_Request x))"
  shows "ends_well cfg lib env x before (run_job cfg lib env x capture)"
proof -
  let ?A = "unfinished_by (op_ID x)" and ?O = "outcome_ok cfg lib env x before"
  have waited: "ends_well cfg lib env x before (attempt (wait_job ps job status)
      (\<lambda>r. case r of None \<Rightarrow> ret () | Some (job', status') \<Rightarrow> conclude_job cfg lib env x job' status') (unknown_on x))"
    if "status \<in> {OpSucceeded, OpCancelled}" for ps job status
  proof (rule triple_attempt [OF wait_job_ended [OF that]], goal_cases)
    case (1 r)
    let ?ended = "\<forall>job' status'. r = Some (job', status') \<longrightarrow> \<not> jb_Running job' \<and> status' \<in> {OpSucceeded, OpCancelled}"
    show ?case
    proof (rule triple_fact [where c = ?ended], simp)
      assume "?ended"
      then have "ends_well cfg lib env x before
          (case r of None \<Rightarrow> ret () | Some (job', status') \<Rightarrow> conclude_job cfg lib env x job' status')"
        using assms ends_calm [OF calmness.keeps_ret] by (auto split: option.split prod.split intro!: ends_conclude)
      then show ?case by (rule triple_conseq) auto
    qed
  qed (rule ends_unknown)
  have ended: "triple ?A ?O (ret c) (\<lambda>_. ?O) (\<lambda>_. ?O)" for c :: "log_capture option"
    by (rule triple_ret)
  have started: "ends_well cfg lib env x before (ebind (attempt (check r) (\<lambda>_. attempt (wait_job (ev_Polls env) job
        (if jb_Interrupted job then OpCancelled else OpSucceeded))
        (\<lambda>r. case r of None \<Rightarrow> ret () | Some (job', status) \<Rightarrow> conclude_job cfg lib env x job' status) (unknown_on x))
        (unknown_on x)) (\<lambda>_. ret c))" for r job and c :: "log_capture option"
    by (rule triple_ebind [where Q = "\<lambda>_. ?O"], rule ends_attempt) (auto intro: waited ending keeps_intros ended)
  have failed: "ends_well cfg lib env x before (ebind (finish_capture lib (gap_end env) x c) (\<lambda>c'.
      ebind (unknown_on x e) (\<lambda>_. ret c')))" for c e
    by (intro ends_ebind ends_calm keeps_intros)
  show ?thesis unfolding run_job_def
  proof (rule ends_ebind [OF calmness.keeps_start_job], goal_cases)
    case (1 y)
    obtain c r where y: "y = (c, r)" by (cases y)
    show ?case
      by (cases r; simp only: y prod.case sum.case) (rule failed started)+
  qed
qed

lemma ends_process:
  assumes "isProcess (or_Kind (op_Request x))"
  shows "ends_well cfg lib env x before (execute_process cfg lib env x before)"
proof -
  have run: "ends_well cfg lib env x before (ebind (run_job cfg lib env x c) (\<lambda>c'.
      ebind (finish_capture lib (gap_end env) x c') (\<lambda>_. ret ())))" for c
    by (rule triple_ebind [OF ends_job [OF assms]], rule triple_ebind [OF outcome_finish_capture], rule triple_ret)
  have failed: "justified cfg lib env x before OpFailed result" for result by (simp add: justified_def)
  show ?thesis unfolding execute_process_def Let_def
    by (rule ends_attempt)
      (auto split: sum.split intro!: ends_attempt run ending failed keeps_intros)
qed

lemma ends_tool:
  assumes "\<not> isProcess (or_Kind (op_Request x))"
  shows "ends_well cfg lib env x before (execute_tool cfg lib env x before)"
proof -
  let ?A = "unfinished_by (op_ID x)" and ?O = "outcome_ok cfg lib env x before"
  let ?Q = "\<lambda>(status, result, err) w. pending (op_ID x) w \<and> justified cfg lib env x before status result"
  have tool: "triple ?A (pending (op_ID x)) (attempt (files_do (op_WorkspaceID x) (run_file_tool cfg lib env x before))
      (\<lambda>r. ret (OpSucceeded, r, None)) (\<lambda>e. ret (OpFailed, [], Some e))) ?Q (\<lambda>_. ?O)"
    using assms unfolding triple_def attempt_def files_do_def ret_def Let_def justified_def
    by (auto split: sum.split)
  have finish: "triple ?A (?Q (status, result, err)) (attempt (check r)
      (\<lambda>_. complete cfg lib env x status result err) (unknown_on x)) (\<lambda>_. ?O) (\<lambda>_. ?O)" for status result err r
  proof (rule triple_fact [where c = "justified cfg lib env x before status result"], simp)
    assume "justified cfg lib env x before status result"
    then have "ends_well cfg lib env x before (attempt (check r)
      (\<lambda>_. complete cfg lib env x status result err) (unknown_on x))"
      by (intro ends_attempt ending keeps_intros)
    then show "triple ?A (?Q (status, result, err)) (attempt (check r)
      (\<lambda>_. complete cfg lib env x status result err) (unknown_on x)) (\<lambda>_. ?O) (\<lambda>_. ?O)"
      by (rule triple_conseq) auto
  qed
  show ?thesis unfolding execute_tool_def
    by (rule triple_ebind [OF tool]) (use finish in \<open>auto split: prod.split\<close>)
qed

lemma ends_execute: "ends_well cfg lib env x before (execute cfg lib env x before)"
proof -
  have cancelled: "justified cfg lib env x before OpCancelled result" for result by (simp add: justified_def)
  show ?thesis unfolding execute_def
    by (intro ends_ebind ends_attempt triple_if ending cancelled ends_process ends_tool keeps_intros)
qed

lemma ends_executor: "ends_well cfg lib env x before (executor cfg lib env x before)"
  unfolding executor_def
proof (rule triple_ebind [OF ends_execute], rule triple_access [OF stable_outcome])
  show "outcome_ok cfg lib env x before (fst (w\<lparr>wd_Live := l\<rparr>, y))" if "outcome_ok cfg lib env x before w" for w l y
    using that by (simp add: outcome_ok_def)
qed (auto simp: outcome_ok_def)

end
