(* ===== verification/Runner_Engine_Demo.thy ===== *)
theory Runner_Engine_Demo
  imports Runner_Evidence
begin

section \<open>A runner to evaluate\<close>

text \<open>
  A runner with one workspace, which holds the file \<open>a\<close>, and one prepared operation. The hash function,
  the message authentication and the codecs are small concrete functions.
\<close>

definition edemo_claims :: claims where
  "edemo_claims = gdemo_claims\<lparr>cl_Permissions := [''execute'', ''cancel'']\<rparr>"

definition edemo_lib :: engine_lib where
  "edemo_lib = \<lparr>el_sha = tdemo_sha, el_hmac = gdemo_hmac, el_claims = (\<lambda>b. if b = ''{}'' then Some edemo_claims else None),
     el_wire = (\<lambda>_. []), el_meta = (\<lambda>_. None), el_encode_meta = (\<lambda>_. []), el_job = (\<lambda>_. ''{}''),
     el_parse_job = (\<lambda>_. Some zero_job)\<rparr>"

definition edemo_raw :: engine_config where
  "edemo_raw = \<lparr>ec_RootDir = ''/r'', ec_JournalPath = ''/j'', ec_Limits = \<lparr>tl_MaxFileBytes = 100, tl_MaxWorkspaceBytes = 1000\<rparr>,
     ec_Logs = None, ec_Slots = [], ec_Sources = [(''s'', tdemo_dir ''x'')],
     ec_Profiles = [(''p'', \<lparr>pf_VerifyCommand = [''v''], pf_TargetCommand = []\<rparr>)], ec_Signer = gdemo_signer,
     ec_TestBackend = True, ec_TestVerifier = False, ec_RemoveOwned = True, ec_CancelNeverDispatched = True\<rparr>"

lemma edemo_open: "Open_config edemo_raw = Inr edemo_raw"
  by (simp add: Open_config_def edemo_raw_def path_is_abs_def has_prefix_def normalized_logs_def or_default_def)

definition edemo_ref :: "string \<Rightarrow> artifact_ref" where
  "edemo_ref kind = \<lparr>ar_TenantID = ''t1'', ar_RunID = ''r1'', ar_Kind = kind, ar_ObjectKey = kind, ar_SHA256 = ''h'', ar_Size = 1\<rparr>"

definition edemo_env :: engine_env where
  "edemo_env = \<lparr>ev_Now = (\<lambda>n. 1010000000000 + int n), ev_Lock = None, ev_Wait = (\<lambda>f. f), ev_VerifyVolume = None,
     ev_OpenSlot = (\<lambda>_ _. None), ev_Fault = (\<lambda>_. None), ev_Check = None, ev_Copy = (\<lambda>_. None), ev_Chmod = None,
     ev_Sync = None, ev_Publication = None, ev_Put = (\<lambda>t r kind d. Inr (edemo_ref kind)), ev_Patch = quiet_env,
     ev_Start = \<lparr>bs_Container = None, bs_BeforeStart = (\<lambda>_. True), bs_Writes = [], bs_Finish = None,
       bs_Checkout = (\<lambda>n. n), bs_Candidate = (\<lambda>n. n), bs_Result = (\<lambda>_ _. Inr zero_job)\<rparr>,
     ev_Polls = [], ev_Inspect = Inr zero_job, ev_Cancel = Inr zero_job, ev_CancelNever = Inr zero_job,
     ev_Finish = (None, None), ev_RemoveOwned = (\<lambda>_. None), ev_RemoveAll = None\<rparr>"

definition edemo_wr :: workspace_request where
  "edemo_wr = gdemo_request\<lparr>wr_Grant := ''e30.MDNl''\<rparr>"

definition edemo_ws :: workspace where
  "edemo_ws = \<lparr>ws_TenantID = ''t1'', ws_RunID = ''r1'', ws_ID = ''w1'', ws_SourceID = ''s'', ws_ProfileID = ''p'',
     ws_Epoch = 3, ws_Revision = 1, ws_ActiveOperation = [], ws_Stopped = False, ws_Adopting = False,
     ws_Released = False, ws_BaselineHash = ''h''\<rparr>"

definition edemo_request :: operation_request where
  "edemo_request = \<lparr>or_Workspace = edemo_wr\<lparr>wr_Grant := []\<rparr>, or_OperationID = ''a'', or_ExpectedRevision = 1,
     or_Kind = ''list_files'', or_Args = ''{}'', or_ArgsHash = ''{}='', or_PolicyVersion = ''v1'',
     or_Deadline = 2000000000000\<rparr>"

definition edemo_oper :: operation where
  "edemo_oper = \<lparr>op_Request = edemo_request, op_Status = OpPrepared, op_JobID = ''job'',
     op_BeforeHash = treeHash tdemo_sha tdemo_tree, op_ExpectedAfterHash = [], op_AfterHash = [], op_AfterRevision = 0,
     op_Result = [], op_ResultTruncated = False, op_Receipt = zero_ref, op_Error = [], op_CancelRequested = False\<rparr>"

definition edemo_journal :: journal where
  "edemo_journal = fst (reserve (fst (createWorkspace (empty_journal ''i'') edemo_ws)) edemo_oper None)"

definition edemo_row :: op_row where
  "edemo_row = \<lparr>rw_ID = ''a'', rw_WorkspaceID = ''w1'', rw_TenantID = ''t1'', rw_RunID = ''r1'',
     rw_Operation = edemo_oper\<lparr>op_Result := ''{}''\<rparr>, rw_DispatchStarted = False, rw_DockerStartIntent = False\<rparr>"

definition edemo_world :: world where
  "edemo_world = \<lparr>wd_Journal = edemo_journal, wd_Closed = False, wd_Live = [], wd_Allocations = [],
     wd_Files = (\<lambda>_. no_files\<lparr>wf_Checkout := Some (FsDir (tdemo_dir ''x''))\<rparr>),
     wd_Schedule = [[OtherTx (JPin (edemo_ref ''other''))], [OtherLaunch ''z'']], wd_Owners = []\<rparr>"

lemmas edemo_defs = edemo_lib_def edemo_raw_def edemo_env_def edemo_wr_def edemo_ws_def edemo_request_def
  edemo_oper_def edemo_ref_def gdemo_request_def

lemma edemo_encode: "encode_request (without_grant edemo_request) = Some edemo_request"
  by (simp add: edemo_request_def edemo_wr_def gdemo_request_def without_grant_def encode_request_def json_time_def day_def
      compact_args_def json_valid_def json_eval is_line_sep_def escape_rune_def encode_rune_def)

lemma edemo_journal_eq: "edemo_journal = (empty_journal ''i'')\<lparr>jr_Workspaces := [edemo_ws\<lparr>ws_ActiveOperation := ''a''\<rparr>],
    jr_Operations := [edemo_row]\<rparr>"
  using edemo_encode
  by (simp add: edemo_journal_def createWorkspace_def reserve_def empty_journal_def new_workspace_row_def
      workspaceBinding_def new_op_row_def edemo_row_def modify_ws_def tinsert_def tmodify_def db_uint_def edemo_defs)


lemma edemo_body: "authentic_body gdemo_hmac gdemo_signer ''e30.MDNl'' = Some ''{}''"
  by code_simp

lemma edemo_grant:
  "0 \<le> n \<Longrightarrow> n < 10 \<Longrightarrow> Signer_Verify gdemo_hmac (el_claims edemo_lib) gdemo_signer ''e30.MDNl'' edemo_wr ''cancel'' (1010000000000 + n) = None"
  unfolding Signer_Verify_None edemo_body
  by (auto simp: edemo_lib_def edemo_claims_def edemo_wr_def gdemo_grant_defs Signer_validate_None time_Sub_def
      int64_defs permission_allowed_def maintenance_permission_def execution_permission_def ID_Validate_def id_char_def Let_def)


lemmas eng_eval = ebind_def attempt_def access_def view_def journal_do_def guard_def check_def ret_def raise_def
  files_do_def files_view_def get_workspace_def get_operation_def get_dispatch_def get_logPolicy_def journal_workspace_def
  journal_operation_def engine_lock_def verifyStorage_def Let_def

lemma edemo_authorize:
  "0 \<le> n \<Longrightarrow> n < 10 \<Longrightarrow> \<not> wd_Closed (meanwhile w) \<Longrightarrow>
     authorize edemo_raw edemo_lib (1010000000000 + n) edemo_wr ''cancel'' w = (meanwhile w, Inr ())"
  using edemo_grant [of n] by (simp add: authorize_def eng_eval edemo_raw_def edemo_wr_def edemo_lib_def)

lemma edemo_read: "read_node edemo_raw edemo_lib (Some (FsDir (tdemo_dir h))) = Inr tdemo_tree"
  using tdemo_read [of h] by (simp add: read_node_def open_dir_def edemo_raw_def edemo_lib_def tdemo_limits_def)

definition edemo_at :: "workspace \<Rightarrow> op_row \<Rightarrow> artifact_ref list \<Rightarrow> world" where
  "edemo_at v r arts = \<lparr>wd_Journal = (empty_journal ''i'')\<lparr>jr_Workspaces := [v], jr_Operations := [r], jr_Artifacts := arts\<rparr>,
     wd_Closed = False, wd_Live = [''z''], wd_Allocations = [],
     wd_Files = (\<lambda>_. no_files\<lparr>wf_Checkout := Some (FsDir (tdemo_dir ''x''))\<rparr>), wd_Schedule = [], wd_Owners = []\<rparr>"

lemma edemo_at_meanwhile [simp]: "meanwhile (edemo_at v r arts) = edemo_at v r arts"
  by (simp add: meanwhile_def edemo_at_def)

lemma edemo_at_fields [simp]:
  "wd_Closed (edemo_at v r arts) = False" "wd_Allocations (edemo_at v r arts) = []"
  "wd_Files (edemo_at v r arts) i = no_files\<lparr>wf_Checkout := Some (FsDir (tdemo_dir ''x''))\<rparr>"
  "find_op (wd_Journal (edemo_at v r arts)) k = (if rw_ID r = k then Some r else None)"
  "find_ws (wd_Journal (edemo_at v r arts)) k = (if ws_ID v = k then Some v else None)"
  "jr_OperationLogs (wd_Journal (edemo_at v r arts)) = []"
  by (simp_all add: edemo_at_def empty_journal_def)

lemma edemo_pin: "tfind ar_ObjectKey kind arts = None \<Longrightarrow> kind \<noteq> [] \<Longrightarrow>
    pin (edemo_ref kind) (edemo_at v r arts) = (edemo_at v r (tinsert (edemo_ref kind) arts), Inr ())"
  by (simp add: pin_def eng_eval pinArtifact_def edemo_ref_def edemo_at_def meanwhile_def empty_journal_def)

lemma edemo_finish:
  assumes "op_Request y = edemo_request" "Status_Terminal (op_Status y)" "ar_ObjectKey (op_Receipt y) \<noteq> []"
    "op_AfterHash y \<noteq> []" "op_AfterRevision y = 1" "rw_ID r = ''a''" "\<not> Status_Terminal (op_Status (rw_Operation r))"
    "ws_ID v = ''w1''" "ws_ActiveOperation v = ''a''" "ws_Revision v = 1"
  shows "journal_do (\<lambda>j. finish j y) (edemo_at v r arts)
    = (edemo_at (v\<lparr>ws_ActiveOperation := []\<rparr>) (finish_row (with_result y) r) arts, Inr (with_result y))"
proof -
  have "op_ID y = ''a''" "op_WorkspaceID y = ''w1''"
    using assms(1) by (simp_all add: edemo_request_def edemo_wr_def gdemo_request_def)
  then show ?thesis using assms
    by (simp add: eng_eval finish_def db_uint_def meanwhile_def edemo_at_def empty_journal_def modify_ws_def modify_op_def tmodify_def)
qed

definition edemo_settled :: "operation \<Rightarrow> op_status \<Rightarrow> bytes \<Rightarrow> rerr option \<Rightarrow> bool \<Rightarrow> operation" where
  "edemo_settled x status result err c =
     (settled x status result err (treeHash tdemo_sha tdemo_tree) c)\<lparr>op_Receipt := edemo_ref ''operation_receipt''\<rparr>"

lemma edemo_hash: "treeHash tdemo_sha tdemo_tree \<noteq> []"
  by (simp add: treeHash_def tdemo_sha_def)

lemma edemo_complete:
  assumes x: "op_Request x = edemo_request" "op_BeforeHash x = treeHash tdemo_sha tdemo_tree"
    and status: "Status_Terminal status" and r: "rw_ID r = ''a''" "\<not> Status_Terminal (op_Status (rw_Operation r))"
    and v: "ws_ID v = ''w1''" "ws_ActiveOperation v = ''a''" "ws_Revision v = 1"
    and arts: "tfind ar_ObjectKey ''operation_receipt'' arts = None"
  shows "complete edemo_raw edemo_lib edemo_env x status result err (edemo_at v r arts)
    = (edemo_at (v\<lparr>ws_ActiveOperation := []\<rparr>)
         (finish_row (with_result (edemo_settled x status result err (op_CancelRequested (rw_Operation r)))) r)
         (tinsert (edemo_ref ''operation_receipt'') arts), Inr ())"
proof -
  have id: "op_ID x = ''a''" "op_WorkspaceID x = ''w1''" "or_Kind (op_Request x) = ''list_files''"
    using x(1) by (simp_all add: edemo_request_def edemo_wr_def gdemo_request_def)
  let ?y = "settled x status result err (treeHash tdemo_sha tdemo_tree) (op_CancelRequested (rw_Operation r))"
  have y: "op_Request ?y = edemo_request"
    using x(1) by (simp add: settled_def edemo_request_def without_grant_def)
  have fin: "journal_do (\<lambda>j. finish j (?y\<lparr>op_Receipt := edemo_ref ''operation_receipt''\<rparr>)) (edemo_at v r arts')
    = (edemo_at (v\<lparr>ws_ActiveOperation := []\<rparr>)
        (finish_row (with_result (?y\<lparr>op_Receipt := edemo_ref ''operation_receipt''\<rparr>)) r) arts',
       Inr (with_result (?y\<lparr>op_Receipt := edemo_ref ''operation_receipt''\<rparr>)))" for arts'
    by (rule edemo_finish) (use x y status r v edemo_hash in \<open>simp_all add: settled_def edemo_ref_def edemo_request_def\<close>)
  have logs: "publishLogs edemo_lib edemo_env ?y (edemo_at v r arts) = (edemo_at v r arts, Inr ?y)"
    by (simp add: publishLogs_def eng_eval logPolicy_def)
  have "publish_receipt edemo_lib edemo_env ?y (edemo_at v r arts)
    = (edemo_at (v\<lparr>ws_ActiveOperation := []\<rparr>)
         (finish_row (with_result (?y\<lparr>op_Receipt := edemo_ref ''operation_receipt''\<rparr>)) r)
         (tinsert (edemo_ref ''operation_receipt'') arts), Inr (with_result (?y\<lparr>op_Receipt := edemo_ref ''operation_receipt''\<rparr>)))"
    unfolding publish_receipt_def
    using fin logs edemo_pin [OF arts] by (simp add: ebind_def attempt_def check_def ret_def put_artifact_def edemo_env_def)
  then show ?thesis
    using id r(1) edemo_read [of "''x''"]
    by (simp add: complete_def read_checkout_def syncWorkspace_def eng_eval partial_patch_def edemo_settled_def
        edemo_lib_def edemo_raw_def)
qed


subsection \<open>Stopping the workspace cancels the operation\<close>

definition edemo_closed :: workspace where
  "edemo_closed = edemo_ws\<lparr>ws_ActiveOperation := ''a'', ws_Adopting := True, ws_Stopped := True\<rparr>"

definition edemo_cancelled :: operation where
  "edemo_cancelled = edemo_settled (rw_Operation (cancel_row edemo_row)) OpCancelled not_dispatched_result None True"

definition edemo_stopped :: world where
  "edemo_stopped = edemo_at (edemo_closed\<lparr>ws_ActiveOperation := []\<rparr>)
     (finish_row (with_result edemo_cancelled) (cancel_row edemo_row))
     (tinsert (edemo_ref ''workspace_stop'') (tinsert (edemo_ref ''operation_receipt'') [edemo_ref ''other'']))"

lemma edemo_fence:
  "StopWorkspace edemo_raw edemo_lib edemo_env edemo_wr edemo_world
   = stopAndAdopt edemo_raw edemo_lib edemo_env edemo_wr False (edemo_at edemo_closed edemo_row [edemo_ref ''other''])"
proof -
  let ?w = "edemo_world\<lparr>wd_Journal := edemo_journal\<lparr>jr_Artifacts := [edemo_ref ''other'']\<rparr>, wd_Schedule := [[OtherLaunch ''z'']]\<rparr>"
  have "meanwhile edemo_world = ?w"
    by (simp add: meanwhile_def edemo_world_def edemo_journal_eq pinArtifact_def edemo_ref_def empty_journal_def tinsert_def)
  then have "authorize edemo_raw edemo_lib 1010000000000 edemo_wr ''cancel'' edemo_world = (?w, Inr ())"
    using edemo_authorize [of 0 edemo_world] by (simp add: edemo_world_def)
  moreover have "journal_do (\<lambda>j. stopFence j edemo_wr) ?w = (edemo_at edemo_closed edemo_row [edemo_ref ''other''], Inr edemo_closed)"
    by (simp add: eng_eval meanwhile_def edemo_world_def edemo_journal_eq stopFence_def setFence_def edemo_at_def
        edemo_closed_def edemo_ws_def edemo_wr_def gdemo_request_def empty_journal_def workspaceBinding_def db_uint_def
        modify_ws_def tmodify_def)
  ultimately show ?thesis by (simp add: StopWorkspace_def ebind_def attempt_def edemo_env_def)
qed

lemma edemo_reconcile:
  "reconcileLocked edemo_raw edemo_lib edemo_env (rw_Operation (cancel_row edemo_row)) True
     (edemo_at edemo_closed (cancel_row edemo_row) [edemo_ref ''other''])
   = (edemo_at (edemo_closed\<lparr>ws_ActiveOperation := []\<rparr>) (finish_row (with_result edemo_cancelled) (cancel_row edemo_row))
       (tinsert (edemo_ref ''operation_receipt'') [edemo_ref ''other'']),
      Inr (rw_Operation (finish_row (with_result edemo_cancelled) (cancel_row edemo_row))))"
proof -
  let ?x = "rw_Operation (cancel_row edemo_row)"
  have x: "op_Request ?x = edemo_request" "op_BeforeHash ?x = treeHash tdemo_sha tdemo_tree" "op_Status ?x = OpPrepared"
      "op_CancelRequested ?x" "rw_ID (cancel_row edemo_row) = ''a''" "\<not> rw_DispatchStarted (cancel_row edemo_row)"
    by (simp_all add: cancel_row_def edemo_row_def edemo_oper_def)
  have id: "op_ID ?x = ''a''" using x(1) by (simp add: edemo_request_def)
  have "complete edemo_raw edemo_lib edemo_env ?x OpCancelled not_dispatched_result None
      (edemo_at edemo_closed (cancel_row edemo_row) [edemo_ref ''other''])
    = (edemo_at (edemo_closed\<lparr>ws_ActiveOperation := []\<rparr>) (finish_row (with_result edemo_cancelled) (cancel_row edemo_row))
       (tinsert (edemo_ref ''operation_receipt'') [edemo_ref ''other'']), Inr ())"
    using edemo_complete [of ?x OpCancelled "cancel_row edemo_row" edemo_closed "[edemo_ref ''other'']"
        not_dispatched_result None] x
    by (simp add: edemo_closed_def edemo_ws_def edemo_ref_def edemo_cancelled_def)
  then show ?thesis using id x by (simp add: reconcileLocked_def eng_eval)
qed

lemma edemo_stop:
  "StopWorkspace edemo_raw edemo_lib edemo_env edemo_wr edemo_world
   = (edemo_stopped, Inr \<lparr>rs_Workspace = edemo_closed\<lparr>ws_ActiveOperation := []\<rparr>, rs_NoActiveOperations = True,
        rs_Ref = edemo_ref ''workspace_stop''\<rparr>)"
proof -
  let ?w = "edemo_at edemo_closed (cancel_row edemo_row) [edemo_ref ''other'']"
  have closed: "ws_ID edemo_closed = ''w1''" "ws_ActiveOperation edemo_closed = ''a''" "ws_Epoch edemo_closed = 3"
    "wr_WorkspaceID edemo_wr = ''w1''" "wr_Epoch edemo_wr = 3"
    by (simp_all add: edemo_closed_def edemo_ws_def edemo_wr_def gdemo_request_def)
  have cancel: "journal_do (\<lambda>j. (requestCancel j ''a'', Inr ())) (edemo_at edemo_closed edemo_row arts)
      = (edemo_at edemo_closed (cancel_row edemo_row) arts, Inr ())" for arts
    by (simp add: eng_eval meanwhile_def edemo_at_def requestCancel_def modify_op_def tmodify_def edemo_row_def empty_journal_def)
  have lock: "engine_lock edemo_env ''w1'' ?w = (?w, Inr ())"
  proof -
    have "files_do ''w1'' (\<lambda>f. (f, Inr ())) ?w = (?w, Inr ())" by (simp add: files_do_def edemo_at_def fun_upd_def Let_def cong: if_cong)
    then show ?thesis by (simp add: engine_lock_def ebind_def attempt_def guard_def ret_def ID_Validate_def id_char_def
        edemo_env_def verifyStorage_def view_def access_def)
  qed
  have auth: "authorize edemo_raw edemo_lib 1010000000001 edemo_wr ''cancel'' ?w = (?w, Inr ())"
    using edemo_authorize [of 1 ?w] by simp
  have row: "rw_ID (cancel_row edemo_row) = ''a''" "rw_ID edemo_row = ''a''" by (simp_all add: edemo_row_def)
  have settled: "Status_Terminal (op_Status (rw_Operation (finish_row (with_result edemo_cancelled) (cancel_row edemo_row))))"
    by (simp add: finish_row_def edemo_cancelled_def edemo_settled_def settled_def)
  have pin: "pin (edemo_ref ''workspace_stop'') (edemo_at v r (tinsert (edemo_ref ''operation_receipt'') [edemo_ref ''other'']))
      = (edemo_at v r (tinsert (edemo_ref ''workspace_stop'') (tinsert (edemo_ref ''operation_receipt'') [edemo_ref ''other''])), Inr ())"
    for v r by (rule edemo_pin) (simp_all add: edemo_ref_def tinsert_def)
  have env: "ev_Now edemo_env (Suc 0) = 1010000000001" "ev_Publication edemo_env = None"
      "ev_Put edemo_env t q kind d = Inr (edemo_ref kind)" for t q kind d
    by (simp_all add: edemo_env_def)
  show ?thesis
    unfolding edemo_fence stopAndAdopt_def
    using cancel lock auth row settled pin edemo_reconcile
    by (simp add: ebind_def attempt_def get_workspace_def get_operation_def view_def access_def journal_workspace_def
        journal_operation_def guard_def ret_def closed publish_def check_def put_artifact_def edemo_stopped_def env)
qed


subsection \<open>Executing the operation\<close>

definition edemo_active :: workspace where
  "edemo_active = edemo_ws\<lparr>ws_ActiveOperation := ''a''\<rparr>"

definition edemo_listed :: operation where
  "edemo_listed = edemo_settled edemo_oper OpSucceeded (list_files tdemo_sha tdemo_tree) None False"

lemma edemo_executor:
  "executor edemo_raw edemo_lib edemo_env edemo_oper tdemo_tree (edemo_at edemo_active edemo_row [])
   = (edemo_at edemo_ws (finish_row (with_result edemo_listed) (run_row edemo_row))
        (tinsert (edemo_ref ''operation_receipt'') []), Inr ())"
proof -
  have x: "op_Request edemo_oper = edemo_request" "op_BeforeHash edemo_oper = treeHash tdemo_sha tdemo_tree"
      "op_ID edemo_oper = ''a''" "op_WorkspaceID edemo_oper = ''w1''" "or_Kind (op_Request edemo_oper) = ''list_files''"
      "rw_ID (run_row edemo_row) = ''a''" "rw_ID edemo_row = ''a''"
      "\<not> Status_Terminal (op_Status (rw_Operation (run_row edemo_row)))"
      "\<not> op_CancelRequested (rw_Operation (run_row edemo_row))"
    by (simp_all add: edemo_oper_def edemo_request_def edemo_wr_def gdemo_request_def edemo_row_def run_row_def)
  have running: "journal_do (\<lambda>j. (markRunning j ''a'', Inr ())) (edemo_at v edemo_row arts)
      = (edemo_at v (run_row edemo_row) arts, Inr ())" for v arts
    by (simp add: eng_eval meanwhile_def edemo_at_def markRunning_def modify_op_def tmodify_def edemo_row_def empty_journal_def)
  have tool: "files_do ''w1'' (run_file_tool edemo_raw edemo_lib edemo_env edemo_oper tdemo_tree) (edemo_at v r arts)
      = (edemo_at v r arts, Inr (list_files tdemo_sha tdemo_tree))" for v r arts
    using x(5) by (simp add: files_do_def run_file_tool_def fileTool_def edemo_lib_def Let_def edemo_at_def fun_upd_def cong: if_cong)
  have settle: "complete edemo_raw edemo_lib edemo_env edemo_oper OpSucceeded (list_files tdemo_sha tdemo_tree) None
      (edemo_at edemo_active (run_row edemo_row) [])
    = (edemo_at edemo_ws (finish_row (with_result edemo_listed) (run_row edemo_row))
        (tinsert (edemo_ref ''operation_receipt'') []), Inr ())"
    using edemo_complete [of edemo_oper OpSucceeded "run_row edemo_row" edemo_active "[]" "list_files tdemo_sha tdemo_tree" None] x
    by (simp add: edemo_active_def edemo_listed_def) (simp add: edemo_ws_def)
  have "execute edemo_raw edemo_lib edemo_env edemo_oper tdemo_tree (edemo_at edemo_active edemo_row [])
      = (edemo_at edemo_ws (finish_row (with_result edemo_listed) (run_row edemo_row))
          (tinsert (edemo_ref ''operation_receipt'') []), Inr ())"
    using running tool settle x
    by (simp add: execute_def execute_tool_def isProcess_def ebind_def attempt_def get_operation_def view_def access_def
        journal_operation_def ret_def check_def edemo_env_def)
  then show ?thesis by (simp add: executor_def ebind_def attempt_def access_def x) (simp add: edemo_at_def edemo_request_def)
qed

end
