(* ===== verification/Runner_Engine_Correct.thy ===== *)
theory Runner_Engine_Correct
  imports Runner_Engine_Demo
begin

section \<open>Correctness of the runner\<close>

text \<open>
  The properties of the handlers and of the executor, under any interleaving with other calls: they
  refine the journal, a settlement carries its evidence, a stop receipt is true and stays true, and a
  refused request has no effect.
\<close>

text \<open>
  C24. Whatever calls the runner serves, in any order, with any answers of its surroundings and any
  interleaving with other calls, its durable state only evolves by transactions of the journal, and
  none of them reserves an operation without an identifier or under an invalid log policy. So what
  holds of every execution of the journal holds of the runner.
\<close>

theorem engine_refines_journal:
  assumes "Open_config raw = Inr cfg" and "schedule_ok w" and "journal_run i tr (wd_Journal w)"
  shows "\<exists>h. exec journal_step (wd_Journal w) h (wd_Journal (serve_all cfg lib calls w))
     \<and> journal_run i (tr @ h) (wd_Journal (serve_all cfg lib calls w))"
proof -
  obtain h where "exec journal_step (wd_Journal w) h (wd_Journal (serve_all cfg lib calls w))"
    using serve_all_evolves [OF assms(1), of w lib calls] assms(2) by (auto simp: evolves_def)
  then show ?thesis using exec_append [OF _ assms(3)] by blast
qed

text \<open>
  C25. An executor settles its operation only with evidence, whatever the backend, the disk and the
  other calls do, as long as no other call finishes the operation meanwhile: the recorded hash is that
  of the tree then in the workspace, the revision moves exactly with the hash, a verification left the
  live tree and its candidate unchanged, a failed patch left the old tree or the planned one, the
  receipt is pinned, and a success rests on a job that ended with exit code zero and complete output or
  on the result of the tool. Otherwise the operation stays open.
\<close>

theorem settlement_evidence:
  assumes "schedule_in (unfinished_by (op_ID x)) w" and "row_unsettled (op_ID x) (wd_Journal w)"
    and "executor cfg lib env x before w = (w', res)"
  shows "row_unsettled (op_ID x) (wd_Journal w')
     \<or> (\<exists>status result. justified cfg lib env x before status result
          \<and> settled_row cfg lib x status result (wd_Files w' (op_WorkspaceID x)) (wd_Journal w'))"
  using ends_executor [of x cfg lib env before] assms
  by (auto simp: triple_def outcome_ok_def split: sum.splits)

text \<open>
  C26. A stop receipt is true and stays true: when \<open>StopWorkspace\<close> returns a receipt, the workspace it
  names is stopped without an active operation, and from then on, whatever calls follow, every
  operation of the workspace is settled. Other calls may run all along.
\<close>

theorem stop_receipt_sound:
  assumes "journal_run i tr (wd_Journal w)" and "schedule_ok w"
    and "StopWorkspace cfg lib env r w = (w', Inr rc)" and "exec journal_step (wd_Journal w') h j"
  shows "ws_ID (rs_Workspace rc) = wr_WorkspaceID r \<and> ws_Stopped (rs_Workspace rc)
     \<and> ws_ActiveOperation (rs_Workspace rc) = []
     \<and> (\<forall>q \<in> set (jr_Operations j). rw_WorkspaceID q = wr_WorkspaceID r \<longrightarrow>
          Status_Terminal (op_Status (rw_Operation q)))"
proof -
  have inv: "journal_inv (wd_Journal w)" using assms(1) by (rule journal_rows.always)
  have "stop_receipt_ok (wr_WorkspaceID r) rc w'"
    using triple_result(2) [OF StopWorkspace_receipt assms(2) _ assms(3)] inv by blast
  then have "winding_down (wr_WorkspaceID r) [] (wd_Journal w')" "ws_ID (rs_Workspace rc) = wr_WorkspaceID r"
    "ws_Stopped (rs_Workspace rc)" "ws_ActiveOperation (rs_Workspace rc) = []"
    by (auto simp: stop_receipt_ok_def)
  then show ?thesis using winding_down_exec [OF assms(4)] wound_down_settled by blast
qed

text \<open>The grant a call needs.\<close>

fun call_grant :: "call \<Rightarrow> (workspace_request \<times> string) option" where
  "call_grant (CallPrepare r) = Some (pr_Workspace r, ''prepare'')"
| "call_grant (CallStart r) = Some (or_Workspace r, start_permission r)"
| "call_grant (CallInspect r) = Some (ir_Workspace r, ''inspect'')"
| "call_grant (CallCancel r) = Some (ir_Workspace r, ''cancel'')"
| "call_grant (CallSeal r) = Some (r, ''snapshot'')"
| "call_grant (CallRelease r) = Some (r, ''release'')"
| "call_grant (CallAdopt r) = Some (r, ''adopt'')"
| "call_grant (CallStop r) = Some (r, ''cancel'')"
| "call_grant _ = None"

lemma refused_ebind:
  "wd_Closed (meanwhile w) \<or> Signer_Verify (el_hmac lib) (el_claims lib) (ec_Signer cfg) (wr_Grant r) r p now = Some e \<Longrightarrow>
     answer_of (ebind (authorize cfg lib now r p) f) w
     = (meanwhile w, Some (if wd_Closed (meanwhile w) then ROther ''runner is shutting down'' else sentinel e))"
  by (auto simp: answer_of_def authorize_def view_def access_def ebind_def attempt_def raise_def error_of_def)

text \<open>
  C37. A request without a valid grant for its workspace, epoch and permission, or after the shutdown
  has begun, is answered with exactly that error and has no effect: the state afterwards is what the
  other calls made of it.
\<close>

theorem refused_request_inert:
  assumes "call_grant c = Some (r, p)"
    and "wd_Closed (meanwhile w)
       \<or> Signer_Verify (el_hmac lib) (el_claims lib) (ec_Signer cfg) (wr_Grant r) r p (ev_Now env 0) = Some e"
  shows "answer cfg lib env c w
     = (meanwhile w, Some (if wd_Closed (meanwhile w) then ROther ''runner is shutting down'' else sentinel e))"
  by (cases c) (use assms(1) in \<open>auto simp: refused_ebind [OF assms(2)] PrepareWorkspace_def StartOperation_def
      InspectOperation_def CancelOperation_def SealSnapshot_def ReleaseWorkspace_def AdoptWorkspace_def
      StopWorkspace_def simp del: One_nat_def\<close>)

subsection \<open>On the runner to evaluate\<close>

lemma edemo_run: "\<exists>tr. journal_run ''i'' tr (wd_Journal edemo_world)"
proof -
  let ?as = "[JCreate edemo_ws, JReserve edemo_oper None]"
  have "exec journal_step (empty_journal ''i'') (fst (replay journal_apply (empty_journal ''i'') ?as))
      (snd (replay journal_apply (empty_journal ''i'') ?as))"
    by (rule replay_exec) (auto simp: journal_step_def edemo_oper_def edemo_request_def)
  moreover have "snd (replay journal_apply (empty_journal ''i'') ?as) = wd_Journal edemo_world"
    by (simp add: edemo_world_def edemo_journal_def case_prod_beta Let_def)
  ultimately show ?thesis by auto
qed

lemma edemo_schedule: "schedule_ok edemo_world"
  by (simp add: schedule_in_def edemo_world_def)

theorem engine_refines_journal_witness:
  "\<exists>tr. journal_run ''i'' tr (wd_Journal edemo_stopped)"
proof -
  obtain tr where "journal_run ''i'' tr (wd_Journal edemo_world)" using edemo_run by blast
  from engine_refines_journal [OF edemo_open edemo_schedule this, of edemo_lib "[(edemo_env, CallStop edemo_wr)]"]
  show ?thesis by (auto simp: serve_all_def serve_def answer_of_def edemo_stop)
qed

theorem settlement_evidence_witness:
  "\<exists>status result. justified edemo_raw edemo_lib edemo_env edemo_oper tdemo_tree status result
     \<and> settled_row edemo_raw edemo_lib edemo_oper status result
         (no_files\<lparr>wf_Checkout := Some (FsDir (tdemo_dir ''x''))\<rparr>)
         (wd_Journal (edemo_at edemo_ws (finish_row (with_result edemo_listed) (run_row edemo_row))
            (tinsert (edemo_ref ''operation_receipt'') [])))"
proof -
  have id: "op_ID edemo_oper = ''a''" by (simp add: edemo_oper_def edemo_request_def)
  have ok: "schedule_in (unfinished_by (op_ID edemo_oper)) (edemo_at edemo_active edemo_row [])"
    by (simp add: schedule_in_def edemo_at_def)
  have start: "row_unsettled (op_ID edemo_oper) (wd_Journal (edemo_at edemo_active edemo_row []))"
    by (simp add: row_unsettled_def id edemo_row_def) (simp add: edemo_oper_def edemo_request_def)
  have "\<not> row_unsettled (op_ID edemo_oper) (wd_Journal (edemo_at edemo_ws
      (finish_row (with_result edemo_listed) (run_row edemo_row)) arts))" for arts
    by (simp add: row_unsettled_def id finish_row_def edemo_listed_def edemo_settled_def settled_def)
  then show ?thesis using settlement_evidence [OF ok start edemo_executor] by simp
qed

theorem stop_receipt_sound_witness:
  "list_all (\<lambda>q. Status_Terminal (op_Status (rw_Operation q))) (jr_Operations (wd_Journal edemo_stopped))"
proof -
  obtain tr where run: "journal_run ''i'' tr (wd_Journal edemo_world)" using edemo_run by blast
  from stop_receipt_sound [OF run edemo_schedule edemo_stop exec_init]
  have "\<forall>q \<in> set (jr_Operations (wd_Journal edemo_stopped)). rw_WorkspaceID q = ''w1'' \<longrightarrow>
      Status_Terminal (op_Status (rw_Operation q))"
    by (simp add: edemo_wr_def gdemo_request_def)
  then show ?thesis
    by (simp add: list_all_iff edemo_stopped_def edemo_at_def finish_row_def cancel_row_def edemo_row_def)
qed

theorem refused_request_inert_witness:
  "answer edemo_raw edemo_lib edemo_env (CallRelease edemo_wr) (edemo_at edemo_active edemo_row [])
   = (edemo_at edemo_active edemo_row [], Some (sentinel ErrForbidden))"
proof -
  have valid: "Signer_validate gdemo_signer edemo_claims 1010000000000 = None"
    by (auto simp: edemo_claims_def gdemo_grant_defs Signer_validate_None time_Sub_def int64_defs permission_allowed_def
        maintenance_permission_def execution_permission_def ID_Validate_def id_char_def Let_def)
  have "Signer_Verify (el_hmac edemo_lib) (el_claims edemo_lib) (ec_Signer edemo_raw) (wr_Grant edemo_wr) edemo_wr ''release''
      (ev_Now edemo_env 0) = Some ErrForbidden"
    using valid edemo_body
    by (simp add: Signer_Verify_def edemo_lib_def edemo_raw_def edemo_wr_def edemo_env_def)
      (simp add: edemo_claims_def gdemo_claims_def gdemo_request_def)
  with refused_request_inert [of "CallRelease edemo_wr" edemo_wr "''release''" "edemo_at edemo_active edemo_row []"
      edemo_lib edemo_raw edemo_env ErrForbidden]
  show ?thesis by simp
qed

end
