(* ===== verification/Event_Stream.thy ===== *)
theory Event_Stream
  imports Domain Forge_Machine
begin

section \<open>Live event streams (internal/eventstream/hub.go)\<close>

text \<open>
  A manager keeps one hub per run that has subscribers. The goroutine of a hub polls the durable log
  and sends every new event into the buffered channel of each subscriber; a handler first subscribes,
  then replays the log up to \<open>CoveredSeq\<close>, then reads the channel. A pointer to a hub or a subscriber is
  its index in \<open>mg_Hubs\<close> or \<open>mg_Subs\<close>. A channel is the list of what it buffers; \<open>sb_Received\<close> is what
  the handler has taken out of it. What \<open>Source\<close> answers is an argument of the operations.

  The mutexes make every critical section one step. \<open>Subscribe\<close> takes the lock of the hub before it
  releases that of the manager, so what it does after \<open>GetRun\<close> is one step; a tick of a hub changes the
  hub in one section, and \<open>retire\<close> is a section of its own. \<open>hb_Exit\<close> lists the calls of \<open>retire\<close> that
  the goroutine still makes once it has left its loop.
\<close>

subsection \<open>State\<close>

record stream_event =
  xe_RunID :: string
  xe_Seq :: u64
  xe_Type :: string
  xe_SchemaVersion :: int
  xe_Payload :: bytes
  xe_CreatedAt :: gotime

datatype stream_err =
    SDomain err
  | ErrSlow
  | ErrCanceled
  | SOther string

record stream_config =
  sc_PollInterval :: int
  sc_QueueSize :: int
  sc_HistorySize :: int
  sc_MaxHubs :: int
  sc_MaxSubscribers :: int

text \<open>The fields of a run that \<open>Subscribe\<close> reads.\<close>

record run_view =
  rn_CoveredSeq :: u64
  rn_RetainedFromSeq :: u64

text \<open>
  A subscriber with the subscription its handler holds: the run it asked for, \<open>CoveredSeq\<close>, the hub that
  its \<open>Close\<close> captured, and whether \<open>Close\<close> was called.
\<close>

record subscriber =
  sb_Events :: "stream_event list"
  sb_Errors :: "stream_err list"
  sb_After :: u64
  sb_Closed :: bool
  sb_Tenant :: string
  sb_ID :: string
  sb_Covered :: u64
  sb_Hub :: nat
  sb_Once :: bool
  sb_Received :: "stream_event list"

record hub =
  hb_Key :: string
  hb_Tenant :: string
  hb_ID :: string
  hb_Cancelled :: bool
  hb_Cursor :: u64
  hb_History :: "stream_event list"
  hb_Subs :: "nat list"
  hb_Exit :: "stream_err list option"

record manager =
  mg_Cfg :: stream_config
  mg_Cancelled :: bool
  mg_Map :: "(string \<times> nat) list"
  mg_Hubs :: "hub list"
  mg_Subs :: "subscriber list"
  mg_Panicked :: bool

definition upd_hub :: "nat \<Rightarrow> (hub \<Rightarrow> hub) \<Rightarrow> manager \<Rightarrow> manager" where
  "upd_hub h f m = m\<lparr>mg_Hubs := (mg_Hubs m)[h := f (mg_Hubs m ! h)]\<rparr>"

definition upd_sub :: "nat \<Rightarrow> (subscriber \<Rightarrow> subscriber) \<Rightarrow> manager \<Rightarrow> manager" where
  "upd_sub s f m = m\<lparr>mg_Subs := (mg_Subs m)[s := f (mg_Subs m ! s)]\<rparr>"

definition positive_or :: "int \<Rightarrow> int \<Rightarrow> int" where
  "positive_or v d = (if v \<le> 0 then d else v)"

definition New :: "stream_config \<Rightarrow> manager" where
  "New cfg = \<lparr>mg_Cfg = \<lparr>sc_PollInterval = positive_or (sc_PollInterval cfg) 100000000,
       sc_QueueSize = positive_or (sc_QueueSize cfg) 128, sc_HistorySize = positive_or (sc_HistorySize cfg) 512,
       sc_MaxHubs = positive_or (sc_MaxHubs cfg) 128, sc_MaxSubscribers = positive_or (sc_MaxSubscribers cfg) 256\<rparr>,
     mg_Cancelled = False, mg_Map = [], mg_Hubs = [], mg_Subs = [], mg_Panicked = False\<rparr>"

definition Manager_Close :: "manager \<Rightarrow> manager" where
  "Manager_Close m = m\<lparr>mg_Cancelled := True\<rparr>"

subsection \<open>Removing subscribers\<close>

text \<open>\<open>remove\<close>: the channels are closed here and nowhere else.\<close>

definition hub_remove :: "nat \<Rightarrow> nat \<Rightarrow> stream_err option \<Rightarrow> manager \<Rightarrow> manager" where
  "hub_remove h s err m =
     (if sb_Closed (mg_Subs m ! s) then m
      else upd_hub h (\<lambda>b. b\<lparr>hb_Subs := remove1 s (hb_Subs b)\<rparr>)
             (upd_sub s (\<lambda>u. u\<lparr>sb_Closed := True,
                sb_Errors := sb_Errors u @ (case err of None \<Rightarrow> [] | Some e \<Rightarrow> [e])\<rparr>) m))"

definition drop_hub :: "nat \<Rightarrow> manager \<Rightarrow> manager" where
  "drop_hub h m =
     (let key = hb_Key (mg_Hubs m ! h)
      in if map_of (mg_Map m) key = Some h then m\<lparr>mg_Map := filter (\<lambda>e. fst e \<noteq> key) (mg_Map m)\<rparr> else m)"

abbreviation cancel_hub :: "nat \<Rightarrow> manager \<Rightarrow> manager" where
  "cancel_hub h \<equiv> upd_hub h (\<lambda>b. b\<lparr>hb_Cancelled := True\<rparr>)"

definition retire :: "nat \<Rightarrow> stream_err \<Rightarrow> manager \<Rightarrow> manager" where
  "retire h err m = foldl (\<lambda>m s. hub_remove h s (Some err) m) (cancel_hub h (drop_hub h m)) (hb_Subs (mg_Hubs m ! h))"

text \<open>The \<open>Close\<close> of a subscription; \<open>sync.Once\<close> lets it act once.\<close>

definition closeSub :: "nat \<Rightarrow> manager \<Rightarrow> manager" where
  "closeSub s m =
     (if sb_Once (mg_Subs m ! s) then m
      else
        let h = sb_Hub (mg_Subs m ! s);
            m1 = hub_remove h s None (upd_sub s (\<lambda>u. u\<lparr>sb_Once := True\<rparr>) m)
        in if hb_Subs (mg_Hubs m1 ! h) = [] \<and> map_of (mg_Map m1) (hb_Key (mg_Hubs m1 ! h)) = Some h
           then cancel_hub h (drop_hub h m1) else m1)"

subsection \<open>Subscribing\<close>

text \<open>The events the hub has already read and the replay does not cover; \<open>None\<close> when the queue is full.\<close>

fun preload :: "int \<Rightarrow> stream_event list \<Rightarrow> subscriber \<Rightarrow> subscriber option" where
  "preload cap [] u = Some u"
| "preload cap (e # es) u =
     (if sb_After u < xe_Seq e
      then if int (length (sb_Events u)) = cap then None
           else preload cap es (u\<lparr>sb_Events := sb_Events u @ [e], sb_After := xe_Seq e\<rparr>)
      else preload cap es u)"

definition new_subscriber :: "string \<Rightarrow> string \<Rightarrow> nat \<Rightarrow> u64 \<Rightarrow> subscriber" where
  "new_subscriber tenant i h covered = \<lparr>sb_Events = [], sb_Errors = [], sb_After = covered, sb_Closed = False,
     sb_Tenant = tenant, sb_ID = i, sb_Covered = covered, sb_Hub = h, sb_Once = False, sb_Received = []\<rparr>"

definition attach :: "string \<Rightarrow> string \<Rightarrow> nat \<Rightarrow> u64 \<Rightarrow> manager \<Rightarrow> manager \<times> (stream_err + nat)" where
  "attach tenant i h covered m =
     (let b = mg_Hubs m ! h
      in if sc_MaxSubscribers (mg_Cfg m) \<le> int (length (hb_Subs b)) then (m, Inl (SDomain ErrCapacity))
         else if covered < hb_Cursor b \<and> (case hb_History b of [] \<Rightarrow> True | e # _ \<Rightarrow> covered + 1 < xe_Seq e)
         then (m, Inl (SDomain ErrReset))
         else case preload (sc_QueueSize (mg_Cfg m)) (hb_History b) (new_subscriber tenant i h covered) of
             None \<Rightarrow> (m, Inl (SDomain ErrReset))
           | Some u \<Rightarrow>
               (let s = length (mg_Subs m)
                in (upd_hub h (\<lambda>b. b\<lparr>hb_Subs := s # hb_Subs b\<rparr>) (m\<lparr>mg_Subs := mg_Subs m @ [u]\<rparr>), Inr s)))"

definition new_hub :: "string \<Rightarrow> string \<Rightarrow> u64 \<Rightarrow> hub" where
  "new_hub tenant i covered = \<lparr>hb_Key = tenant @ ''/'' @ i, hb_Tenant = tenant, hb_ID = i, hb_Cancelled = False,
     hb_Cursor = covered, hb_History = [], hb_Subs = [], hb_Exit = None\<rparr>"

definition Subscribe :: "string \<Rightarrow> string \<Rightarrow> u64 \<Rightarrow> stream_err + run_view \<Rightarrow> manager
    \<Rightarrow> manager \<times> (stream_err + nat)" where
  "Subscribe tenant i after answer m =
     (case answer of
        Inl e \<Rightarrow> (m, Inl e)
      | Inr r \<Rightarrow>
          if rn_CoveredSeq r < after then (m, Inl (SDomain ErrConflict))
          else if 0 < rn_RetainedFromSeq r \<and> after < rn_RetainedFromSeq r - 1 then (m, Inl (SDomain ErrReset))
          else
            (case map_of (mg_Map m) (tenant @ ''/'' @ i) of
               Some h \<Rightarrow> attach tenant i h (rn_CoveredSeq r) m
             | None \<Rightarrow>
                 if sc_MaxHubs (mg_Cfg m) \<le> int (length (mg_Map m)) then (m, Inl (SDomain ErrCapacity))
                 else let h = length (mg_Hubs m)
                      in attach tenant i h (rn_CoveredSeq r)
                           (m\<lparr>mg_Hubs := mg_Hubs m @ [new_hub tenant i (rn_CoveredSeq r)],
                              mg_Map := (tenant @ ''/'' @ i, h) # mg_Map m\<rparr>)))"

subsection \<open>The goroutine of a hub\<close>

text \<open>
  One event for one subscriber: it has it already, it is sent, or the queue is full and the subscriber
  is removed. Sending on a closed channel panics.
\<close>

definition deliver :: "nat \<Rightarrow> stream_event \<Rightarrow> manager \<Rightarrow> nat \<Rightarrow> manager" where
  "deliver h e m s =
     (let u = mg_Subs m ! s
      in if xe_Seq e \<le> sb_After u then m
         else if sb_Closed u then m\<lparr>mg_Panicked := True\<rparr>
         else if int (length (sb_Events u)) < sc_QueueSize (mg_Cfg m)
         then upd_sub s (\<lambda>u. u\<lparr>sb_Events := sb_Events u @ [e], sb_After := xe_Seq e\<rparr>) m
         else hub_remove h s (Some ErrSlow) m)"

definition trim :: "int \<Rightarrow> stream_event list \<Rightarrow> stream_event list" where
  "trim n es = (if n < int (length es) then drop (length es - nat n) es else es)"

definition publish_event :: "nat \<Rightarrow> stream_event \<Rightarrow> manager \<Rightarrow> manager" where
  "publish_event h e m = foldl (deliver h e)
     (upd_hub h (\<lambda>b. b\<lparr>hb_Cursor := xe_Seq e,
        hb_History := trim (sc_HistorySize (mg_Cfg m)) (hb_History b @ [e])\<rparr>) m) (hb_Subs (mg_Hubs m ! h))"

abbreviation leave_loop :: "nat \<Rightarrow> stream_err list \<Rightarrow> manager \<Rightarrow> manager" where
  "leave_loop h errs \<equiv> upd_hub h (\<lambda>b. b\<lparr>hb_Exit := Some errs\<rparr>)"

fun publish_events :: "nat \<Rightarrow> stream_event list \<Rightarrow> manager \<Rightarrow> manager" where
  "publish_events h [] m = m"
| "publish_events h (e # es) m =
     (if xe_Seq e \<noteq> hb_Cursor (mg_Hubs m ! h) + 1
      then leave_loop h [SDomain ErrReset, ErrCanceled] m
      else publish_events h es (publish_event h e m))"

definition hub_tick :: "nat \<Rightarrow> stream_err + stream_event list \<Rightarrow> manager \<Rightarrow> manager" where
  "hub_tick h answer m =
     (case answer of
        Inl e \<Rightarrow>
          if e = SDomain ErrReset \<or> e = SDomain ErrSnapshotMigration then leave_loop h [e, ErrCanceled] m
          else if e = SDomain ErrNotFound then leave_loop h [ErrCanceled] m
          else m
      | Inr events \<Rightarrow> publish_events h events m)"

definition hub_retire :: "nat \<Rightarrow> manager \<Rightarrow> manager" where
  "hub_retire h m =
     (case hb_Exit (mg_Hubs m ! h) of
        Some (e # es) \<Rightarrow> leave_loop h es (retire h e m)
      | _ \<Rightarrow> m)"

text \<open>The handler takes the first event of its channel.\<close>

definition receive :: "nat \<Rightarrow> manager \<Rightarrow> manager" where
  "receive s m = upd_sub s (\<lambda>u. u\<lparr>sb_Received := sb_Received u @ take 1 (sb_Events u),
     sb_Events := drop 1 (sb_Events u)\<rparr>) m"

end
