(* ===== verification/Event_Stream_Invariant.thy ===== *)
theory Event_Stream_Invariant
  imports Event_Stream
begin

section \<open>Streams without gaps\<close>

text \<open>
  The steps of the handlers and of the goroutines of the hubs, in any order. \<open>log\<close> is the durable log of
  every run: the primary key of \<open>run_events\<close> makes an event a function of tenant, run and sequence
  number, the query of \<open>Events\<close> returns numbers beyond the cursor, and \<open>GetRun\<close> finds only runs whose
  identifiers are valid.
\<close>

datatype stream_action =
    AcSubscribe string string u64 "stream_err + run_view"
  | AcTick nat "stream_err + stream_event list"
  | AcDone nat
  | AcRetire nat
  | AcReceive nat
  | AcClose nat
  | AcShutdown

fun stream_apply :: "manager \<Rightarrow> stream_action \<Rightarrow> manager \<times> (stream_err + nat) option" where
  "stream_apply m (AcSubscribe tenant i after r) = (let (m', res) = Subscribe tenant i after r m in (m', Some res))"
| "stream_apply m (AcTick h answer) = (hub_tick h answer m, None)"
| "stream_apply m (AcDone h) = (leave_loop h [ErrCanceled] m, None)"
| "stream_apply m (AcRetire h) = (hub_retire h m, None)"
| "stream_apply m (AcReceive s) = (receive s m, None)"
| "stream_apply m (AcClose s) = (closeSub s m, None)"
| "stream_apply m AcShutdown = (Manager_Close m, None)"

type_synonym event_log = "string \<Rightarrow> string \<Rightarrow> u64 \<Rightarrow> stream_event"

fun stream_enabled :: "event_log \<Rightarrow> manager \<Rightarrow> stream_action \<Rightarrow> bool" where
  "stream_enabled log m (AcSubscribe tenant i after r) = (\<not> isl r \<longrightarrow> valid_id tenant \<and> valid_id i)"
| "stream_enabled log m (AcTick h answer) =
     (h < length (mg_Hubs m) \<and> hb_Exit (mg_Hubs m ! h) = None
      \<and> (case answer of Inl e \<Rightarrow> True | Inr es \<Rightarrow>
           list_all (\<lambda>e. hb_Cursor (mg_Hubs m ! h) < xe_Seq e
             \<and> e = log (hb_Tenant (mg_Hubs m ! h)) (hb_ID (mg_Hubs m ! h)) (xe_Seq e)) es))"
| "stream_enabled log m (AcDone h) =
     (h < length (mg_Hubs m) \<and> hb_Exit (mg_Hubs m ! h) = None \<and> (hb_Cancelled (mg_Hubs m ! h) \<or> mg_Cancelled m))"
| "stream_enabled log m (AcRetire h) = (h < length (mg_Hubs m))"
| "stream_enabled log m (AcReceive s) = (s < length (mg_Subs m))"
| "stream_enabled log m (AcClose s) = (s < length (mg_Subs m))"
| "stream_enabled log m AcShutdown = True"

definition stream_step :: "event_log \<Rightarrow> manager \<Rightarrow> stream_action \<Rightarrow> (stream_err + nat) option \<Rightarrow> manager \<Rightarrow> bool" where
  "stream_step log m a c m' \<longleftrightarrow> stream_enabled log m a \<and> stream_apply m a = (m', c)"

subsection \<open>The invariant\<close>

text \<open>\<open>log_slice\<close>: events with the consecutive numbers after \<open>a\<close>, as the log has them.\<close>

definition log_slice :: "event_log \<Rightarrow> string \<Rightarrow> string \<Rightarrow> nat \<Rightarrow> stream_event list \<Rightarrow> bool" where
  "log_slice log tenant i a es \<longleftrightarrow> map (\<lambda>e. unat (xe_Seq e)) es = [Suc a..<Suc a + length es]
     \<and> list_all (\<lambda>e. e = log tenant i (xe_Seq e)) es"

definition hub_self :: "event_log \<Rightarrow> stream_config \<Rightarrow> hub \<Rightarrow> bool" where
  "hub_self log cfg b \<longleftrightarrow> hb_Key b = hb_Tenant b @ ''/'' @ hb_ID b \<and> valid_id (hb_Tenant b) \<and> valid_id (hb_ID b)
     \<and> length (hb_History b) \<le> unat (hb_Cursor b)
     \<and> log_slice log (hb_Tenant b) (hb_ID b) (unat (hb_Cursor b) - length (hb_History b)) (hb_History b)
     \<and> distinct (hb_Subs b) \<and> int (length (hb_Subs b)) \<le> sc_MaxSubscribers cfg"

definition live_subs :: "subscriber list \<Rightarrow> nat \<Rightarrow> nat set" where
  "live_subs us h = {s. s < length us \<and> sb_Hub (us ! s) = h \<and> \<not> sb_Closed (us ! s)}"

text \<open>A hub whose goroutine has ended has no subscriber and admits none.\<close>

definition hub_ok :: "event_log \<Rightarrow> manager \<Rightarrow> nat \<Rightarrow> bool" where
  "hub_ok log m h \<longleftrightarrow> hub_self log (mg_Cfg m) (mg_Hubs m ! h) \<and> set (hb_Subs (mg_Hubs m ! h)) = live_subs (mg_Subs m) h
     \<and> (hb_Exit (mg_Hubs m ! h) = Some [] \<longrightarrow>
          hb_Subs (mg_Hubs m ! h) = [] \<and> map_of (mg_Map m) (hb_Key (mg_Hubs m ! h)) \<noteq> Some h)"

definition sent :: "subscriber \<Rightarrow> stream_event list" where
  "sent u = sb_Received u @ sb_Events u"

text \<open>\<open>c\<close> is the number up to which the hub has sent.\<close>

definition sub_ok :: "event_log \<Rightarrow> manager \<Rightarrow> u64 \<Rightarrow> subscriber \<Rightarrow> bool" where
  "sub_ok log m c u \<longleftrightarrow>
     sb_Hub u < length (mg_Hubs m)
     \<and> sb_Tenant u = hb_Tenant (mg_Hubs m ! sb_Hub u) \<and> sb_ID u = hb_ID (mg_Hubs m ! sb_Hub u)
     \<and> log_slice log (sb_Tenant u) (sb_ID u) (unat (sb_Covered u)) (sent u)
     \<and> unat (sb_After u) = unat (sb_Covered u) + length (sent u)
     \<and> int (length (sb_Events u)) \<le> sc_QueueSize (mg_Cfg m)
     \<and> (if sb_Closed u then length (sb_Errors u) \<le> 1
        else sb_Errors u = [] \<and> sb_After u = max (sb_Covered u) c)"

definition map_ok :: "manager \<Rightarrow> bool" where
  "map_ok m \<longleftrightarrow> distinct (map fst (mg_Map m)) \<and> int (length (mg_Map m)) \<le> sc_MaxHubs (mg_Cfg m)
     \<and> (\<forall>key h. map_of (mg_Map m) key = Some h \<longrightarrow>
          h < length (mg_Hubs m) \<and> hb_Key (mg_Hubs m ! h) = key \<and> \<not> hb_Cancelled (mg_Hubs m ! h))"

text \<open>
  While a hub sends an event, the subscribers in \<open>P\<close> have what was sent up to \<open>old\<close> only.
\<close>

abbreviation cursor_of :: "manager \<Rightarrow> nat \<Rightarrow> u64" where
  "cursor_of m s \<equiv> hb_Cursor (mg_Hubs m ! sb_Hub (mg_Subs m ! s))"

definition sending_inv :: "event_log \<Rightarrow> nat set \<Rightarrow> u64 \<Rightarrow> manager \<Rightarrow> bool" where
  "sending_inv log P old m \<longleftrightarrow> (\<forall>h < length (mg_Hubs m). hub_ok log m h)
     \<and> (\<forall>s < length (mg_Subs m). sub_ok log m (if s \<in> P then old else cursor_of m s) (mg_Subs m ! s))
     \<and> map_ok m \<and> \<not> mg_Panicked m \<and> 0 < sc_QueueSize (mg_Cfg m) \<and> 0 < sc_HistorySize (mg_Cfg m)
     \<and> 0 < sc_MaxSubscribers (mg_Cfg m)"

abbreviation stream_inv :: "event_log \<Rightarrow> manager \<Rightarrow> bool" where
  "stream_inv log \<equiv> sending_inv log {} 0"

lemma map_okD:
  "map_ok m \<Longrightarrow> map_of (mg_Map m) key = Some h \<Longrightarrow>
     h < length (mg_Hubs m) \<and> hb_Key (mg_Hubs m ! h) = key \<and> \<not> hb_Cancelled (mg_Hubs m ! h)"
  unfolding map_ok_def by blast

lemma map_ok_sizes: "map_ok m \<Longrightarrow> distinct (map fst (mg_Map m)) \<and> int (length (mg_Map m)) \<le> sc_MaxHubs (mg_Cfg m)"
  unfolding map_ok_def by blast

lemma map_ok_keep:
  assumes "map_ok m" and "mg_Cfg m' = mg_Cfg m" "mg_Map m' = mg_Map m" "length (mg_Hubs m) \<le> length (mg_Hubs m')"
    and "\<And>h. h < length (mg_Hubs m) \<Longrightarrow> hb_Key (mg_Hubs m' ! h) = hb_Key (mg_Hubs m ! h)
           \<and> hb_Cancelled (mg_Hubs m' ! h) = hb_Cancelled (mg_Hubs m ! h)"
  shows "map_ok m'"
  unfolding map_ok_def
  using map_ok_sizes [OF assms(1)] assms(2,3,4) assms(5) [OF conjunct1 [OF map_okD [OF assms(1)]]]
    map_okD [OF assms(1)]
  by (metis order_less_le_trans)

text \<open>Cancelling a hub, leaving its loop and changes of the map.\<close>

lemma hub_ok_keep:
  assumes "hub_ok log m h" and "mg_Cfg m' = mg_Cfg m" "mg_Subs m' = mg_Subs m"
    and "mg_Hubs m' ! h = (mg_Hubs m ! h)\<lparr>hb_Cancelled := c, hb_Exit := x\<rparr>"
    and "x = Some [] \<Longrightarrow> hb_Subs (mg_Hubs m ! h) = [] \<and> map_of (mg_Map m') (hb_Key (mg_Hubs m ! h)) \<noteq> Some h"
  shows "hub_ok log m' h"
  using assms(1,5) unfolding hub_ok_def assms(2,3,4) by (simp add: hub_self_def)

lemma hub_ok_ended:
  "hub_ok log m h \<Longrightarrow> hb_Exit (mg_Hubs m ! h) = Some [] \<Longrightarrow>
     hb_Subs (mg_Hubs m ! h) = [] \<and> map_of (mg_Map m) (hb_Key (mg_Hubs m ! h)) \<noteq> Some h"
  unfolding hub_ok_def by blast

lemma slice_Nil [simp]: "log_slice log t i a []"
  by (simp add: log_slice_def)

lemma slice_snoc:
  "log_slice log t i a es \<Longrightarrow> unat (xe_Seq e) = Suc a + length es \<Longrightarrow> e = log t i (xe_Seq e) \<Longrightarrow> log_slice log t i a (es @ [e])"
  by (simp add: log_slice_def)

lemma slice_drop: "log_slice log t i a es \<Longrightarrow> n \<le> length es \<Longrightarrow> log_slice log t i (a + n) (drop n es)"
  by (auto simp: log_slice_def drop_map [symmetric] list_all_iff dest: in_set_dropD)

lemma slice_Cons: "log_slice log t i a (e # es) \<longleftrightarrow>
    unat (xe_Seq e) = Suc a \<and> e = log t i (xe_Seq e) \<and> log_slice log t i (Suc a) es"
  by (auto simp: log_slice_def upt_conv_Cons)

lemma key_inject:
  assumes "valid_id t" "valid_id i" "valid_id t'" "valid_id i'" and "t @ ''/'' @ i = t' @ ''/'' @ i'"
  shows "t = t' \<and> i = i'"
proof -
  have no: "CHR ''/'' \<notin> set s" if "valid_id s" for s
    using that by (auto simp: valid_id_iff list_all_iff id_char_def Let_def)
  have "takeWhile (\<lambda>c. c \<noteq> CHR ''/'') (s @ ''/'' @ r) = s" if "valid_id s" for s r
    using no [OF that] by (subst takeWhile_append2) auto
  from this [OF assms(1), of i] this [OF assms(3), of i'] assms(5) show ?thesis by auto
qed

subsection \<open>Accesses to hubs and subscribers\<close>

lemma nth_upd: "k < length xs \<Longrightarrow> xs[h := y] ! k = (if k = h then y else xs ! k)"
  by (simp add: nth_list_update)

lemma upd_hub_simps [simp]:
  "mg_Hubs (upd_hub h f m) = (mg_Hubs m)[h := f (mg_Hubs m ! h)]"
  "mg_Subs (upd_hub h f m) = mg_Subs m" "mg_Map (upd_hub h f m) = mg_Map m"
  "mg_Cfg (upd_hub h f m) = mg_Cfg m" "mg_Panicked (upd_hub h f m) = mg_Panicked m"
  "mg_Cancelled (upd_hub h f m) = mg_Cancelled m"
  by (simp_all add: upd_hub_def)

lemma upd_sub_simps [simp]:
  "mg_Subs (upd_sub s f m) = (mg_Subs m)[s := f (mg_Subs m ! s)]"
  "mg_Hubs (upd_sub s f m) = mg_Hubs m" "mg_Map (upd_sub s f m) = mg_Map m"
  "mg_Cfg (upd_sub s f m) = mg_Cfg m" "mg_Panicked (upd_sub s f m) = mg_Panicked m"
  "mg_Cancelled (upd_sub s f m) = mg_Cancelled m"
  by (simp_all add: upd_sub_def)

lemma remove_frame [simp]:
  "mg_Map (hub_remove h s err m) = mg_Map m" "mg_Cfg (hub_remove h s err m) = mg_Cfg m"
  "length (mg_Hubs (hub_remove h s err m)) = length (mg_Hubs m)"
  "length (mg_Subs (hub_remove h s err m)) = length (mg_Subs m)"
  "mg_Panicked (hub_remove h s err m) = mg_Panicked m"
  by (simp_all add: hub_remove_def)

lemma remove_hub:
  "k < length (mg_Hubs m) \<Longrightarrow> mg_Hubs (hub_remove h s err m) ! k
     = (if k = h \<and> \<not> sb_Closed (mg_Subs m ! s)
        then (mg_Hubs m ! k)\<lparr>hb_Subs := remove1 s (hb_Subs (mg_Hubs m ! k))\<rparr> else mg_Hubs m ! k)"
  by (auto simp: hub_remove_def nth_upd)

lemma remove_sub:
  "k < length (mg_Subs m) \<Longrightarrow> mg_Subs (hub_remove h s err m) ! k
     = (if k = s \<and> \<not> sb_Closed (mg_Subs m ! s)
        then (mg_Subs m ! k)\<lparr>sb_Closed := True,
          sb_Errors := sb_Errors (mg_Subs m ! k) @ (case err of None \<Rightarrow> [] | Some e \<Rightarrow> [e])\<rparr>
        else mg_Subs m ! k)"
  by (auto simp: hub_remove_def nth_upd)

lemma live_remove:
  "s < length (mg_Subs m) \<Longrightarrow> sb_Hub (mg_Subs m ! s) = h \<Longrightarrow>
     live_subs (mg_Subs (hub_remove h s err m)) k = live_subs (mg_Subs m) k - (if k = h then {s} else {})"
  by (auto simp: live_subs_def remove_sub split: if_splits)

lemma remove_closed: "sb_Closed (mg_Subs m ! s) \<Longrightarrow> hub_remove h s err m = m"
  by (simp add: hub_remove_def)

lemma hub_self_subs:
  "hub_self log cfg b \<Longrightarrow> distinct ss \<Longrightarrow> int (length ss) \<le> sc_MaxSubscribers cfg \<Longrightarrow> hub_self log cfg (b\<lparr>hb_Subs := ss\<rparr>)"
  by (simp add: hub_self_def)

lemma hub_self_sizes: "hub_self log cfg b \<Longrightarrow> distinct (hb_Subs b) \<and> int (length (hb_Subs b)) \<le> sc_MaxSubscribers cfg"
  by (simp add: hub_self_def)

lemma remove_hub_ok:
  assumes ok: "hub_ok log m k" and k: "k < length (mg_Hubs m)" and s: "s < length (mg_Subs m)" "sb_Hub (mg_Subs m ! s) = h"
  shows "hub_ok log (hub_remove h s err m) k"
proof (cases "sb_Closed (mg_Subs m ! s)")
  case True
  then show ?thesis using ok by (simp add: remove_closed)
next
  case False
  have self: "hub_self log (mg_Cfg m) (mg_Hubs m ! k)" and subs: "set (hb_Subs (mg_Hubs m ! k)) = live_subs (mg_Subs m) k"
    using ok unfolding hub_ok_def by blast+
  have "hub_self log (mg_Cfg m) (mg_Hubs (hub_remove h s err m) ! k)"
    using self hub_self_sizes [OF self] k by (auto simp: remove_hub length_remove1 intro!: hub_self_subs)
  moreover have "set (hb_Subs (mg_Hubs (hub_remove h s err m) ! k)) = live_subs (mg_Subs (hub_remove h s err m)) k"
    using subs hub_self_sizes [OF self] k s False by (cases "k = h") (simp_all add: remove_hub live_remove)
  ultimately show ?thesis using hub_ok_ended [OF ok] k by (auto simp: hub_ok_def remove_hub)
qed

lemma remove_sub_ok:
  assumes "sub_ok log m c (mg_Subs m ! k)" "k < length (mg_Subs m)"
  shows "sub_ok log (hub_remove h s err m) c (mg_Subs (hub_remove h s err m) ! k)"
  using assms by (auto simp: sub_ok_def sent_def remove_sub remove_hub split: option.splits)

lemma remove_map_ok: "map_ok m \<Longrightarrow> map_ok (hub_remove h s err m)"
  by (erule map_ok_keep) (auto simp: remove_hub)

lemma sending_facts:
  assumes "sending_inv log P old m"
  shows "h < length (mg_Hubs m) \<Longrightarrow> hub_ok log m h"
    and "s < length (mg_Subs m) \<Longrightarrow> sub_ok log m (if s \<in> P then old else cursor_of m s) (mg_Subs m ! s)"
    and "map_ok m"
  using assms unfolding sending_inv_def by blast+

text \<open>How a step keeps the invariant: hub by hub and subscriber by subscriber.\<close>

lemma sending_step:
  assumes "sending_inv log P old m" and "mg_Cfg m' = mg_Cfg m" and "\<not> mg_Panicked m'" and "map_ok m'"
    and "\<And>h. h < length (mg_Hubs m') \<Longrightarrow> hub_ok log m' h"
    and "\<And>s. s < length (mg_Subs m') \<Longrightarrow> sub_ok log m' (if s \<in> P' then old' else cursor_of m' s) (mg_Subs m' ! s)"
  shows "sending_inv log P' old' m'"
  using assms unfolding sending_inv_def by simp

lemma sending_remove:
  assumes inv: "sending_inv log P old m" and s: "s < length (mg_Subs m)" "sb_Hub (mg_Subs m ! s) = h"
  shows "sending_inv log P old (hub_remove h s err m)"
proof (rule sending_step [OF inv])
  fix k assume "k < length (mg_Subs (hub_remove h s err m))"
  then have k: "k < length (mg_Subs m)" by simp
  have "cursor_of (hub_remove h s err m) k = cursor_of m k"
    using k sending_facts(2) [OF inv k] by (auto simp: sub_ok_def remove_sub remove_hub)
  then show "sub_ok log (hub_remove h s err m) (if k \<in> P then old else cursor_of (hub_remove h s err m) k)
      (mg_Subs (hub_remove h s err m) ! k)"
    by (simp only:) (rule remove_sub_ok [OF sending_facts(2) [OF inv k] k])
qed (use inv s in \<open>auto simp: sending_inv_def remove_hub_ok remove_map_ok\<close>)

subsection \<open>Retiring a hub\<close>

lemma drop_hub_frame [simp]:
  "mg_Hubs (drop_hub h m) = mg_Hubs m" "mg_Subs (drop_hub h m) = mg_Subs m" "mg_Cfg (drop_hub h m) = mg_Cfg m"
  "mg_Panicked (drop_hub h m) = mg_Panicked m"
  by (simp_all add: drop_hub_def Let_def)

lemma map_of_filter_key: "map_of (filter (\<lambda>e. fst e \<noteq> k) xs) = (map_of xs)(k := None)"
  by (induction xs) (auto simp: fun_eq_iff)

lemma map_of_drop_hub:
  "map_of (mg_Map (drop_hub h m)) key
     = (if key = hb_Key (mg_Hubs m ! h) \<and> map_of (mg_Map m) key = Some h then None else map_of (mg_Map m) key)"
  by (auto simp: drop_hub_def Let_def map_of_filter_key)

lemma sending_drop:
  assumes inv: "sending_inv log P old m" and h: "h < length (mg_Hubs m)"
  shows "sending_inv log P old (cancel_hub h (drop_hub h m))"
proof (rule sending_step [OF inv])
  let ?m = "cancel_hub h (drop_hub h m)"
  have "distinct (map fst (mg_Map m))" using map_ok_sizes [OF sending_facts(3) [OF inv]] by blast
  then have "length (mg_Map (drop_hub h m)) \<le> length (mg_Map m)" "distinct (map fst (mg_Map (drop_hub h m)))"
    by (simp_all add: drop_hub_def Let_def distinct_map_filter)
  moreover have "k < length (mg_Hubs ?m) \<and> hb_Key (mg_Hubs ?m ! k) = key \<and> \<not> hb_Cancelled (mg_Hubs ?m ! k)"
    if "map_of (mg_Map ?m) key = Some k" for key k
  proof -
    have "map_of (mg_Map m) key = Some k" "\<not> (key = hb_Key (mg_Hubs m ! h) \<and> k = h)"
      using that by (auto simp: map_of_drop_hub split: if_splits)
    then show ?thesis using map_okD [OF sending_facts(3) [OF inv], of key k] by (auto simp: nth_upd)
  qed
  ultimately show "map_ok ?m" using map_ok_sizes [OF sending_facts(3) [OF inv]] unfolding map_ok_def by simp
  show "hub_ok log ?m k" if "k < length (mg_Hubs ?m)" for k
    by (rule hub_ok_keep [OF sending_facts(1) [OF inv, of k],
          where c = "hb_Cancelled (mg_Hubs m ! k) \<or> k = h" and x = "hb_Exit (mg_Hubs m ! k)"])
      (use that hub_ok_ended [OF sending_facts(1) [OF inv, of k]] in \<open>auto simp: nth_upd map_of_drop_hub\<close>)
  show "sub_ok log ?m (if s \<in> P then old else cursor_of ?m s) (mg_Subs ?m ! s)" if "s < length (mg_Subs ?m)" for s
    using that sending_facts(2) [OF inv, of s] by (auto simp: sub_ok_def nth_upd)
qed (use inv in \<open>auto simp: sending_inv_def\<close>)

definition removals :: "nat \<Rightarrow> stream_err \<Rightarrow> nat list \<Rightarrow> manager \<Rightarrow> manager" where
  "removals h err ss m = foldl (\<lambda>m s. hub_remove h s (Some err) m) m ss"

lemma removals_simps [simp]:
  "removals h err [] m = m"
  "removals h err (s # ss) m = removals h err ss (hub_remove h s (Some err) m)"
  by (simp_all add: removals_def)

lemma sending_removals:
  "sending_inv log P old m \<Longrightarrow> h < length (mg_Hubs m) \<Longrightarrow> hb_Subs (mg_Hubs m ! h) = ss \<Longrightarrow>
     sending_inv log P old (removals h err ss m) \<and> hb_Subs (mg_Hubs (removals h err ss m) ! h) = []
     \<and> mg_Map (removals h err ss m) = mg_Map m \<and> length (mg_Hubs (removals h err ss m)) = length (mg_Hubs m)
     \<and> hb_Key (mg_Hubs (removals h err ss m) ! h) = hb_Key (mg_Hubs m ! h)"
proof (induction ss arbitrary: m)
  case Nil
  then show ?case by simp
next
  case (Cons s ss)
  have "hub_ok log m h" using sending_facts(1) [OF Cons.prems(1,2)] .
  with Cons.prems(3) have "s \<in> live_subs (mg_Subs m) h" by (auto simp: hub_ok_def)
  then have s: "s < length (mg_Subs m)" "sb_Hub (mg_Subs m ! s) = h" "\<not> sb_Closed (mg_Subs m ! s)"
    by (auto simp: live_subs_def)
  then show ?case
    using Cons.IH [OF sending_remove [OF Cons.prems(1) s(1,2), of "Some err"]] Cons.prems(2,3) by (simp add: remove_hub)
qed

lemma sending_retire:
  assumes inv: "sending_inv log P old m" and h: "h < length (mg_Hubs m)"
  shows "sending_inv log P old (retire h err m)" "hb_Subs (mg_Hubs (retire h err m) ! h) = []"
    "map_of (mg_Map (retire h err m)) (hb_Key (mg_Hubs (retire h err m) ! h)) \<noteq> Some h"
    "length (mg_Hubs (retire h err m)) = length (mg_Hubs m)"
  using sending_removals [OF sending_drop [OF inv h], of h "hb_Subs (mg_Hubs m ! h)" err] h
  by (auto simp: retire_def removals_def map_of_drop_hub)

lemma sending_leave:
  assumes inv: "sending_inv log P old m" and h: "h < length (mg_Hubs m)"
    and gone: "es = [] \<Longrightarrow> hb_Subs (mg_Hubs m ! h) = [] \<and> map_of (mg_Map m) (hb_Key (mg_Hubs m ! h)) \<noteq> Some h"
  shows "sending_inv log P old (leave_loop h es m)"
proof (rule sending_step [OF inv])
  let ?m = "leave_loop h es m"
  show "map_ok ?m" by (rule map_ok_keep [OF sending_facts(3) [OF inv]]) (auto simp: nth_upd)
  show "hub_ok log ?m k" if "k < length (mg_Hubs ?m)" for k
    by (rule hub_ok_keep [OF sending_facts(1) [OF inv, of k], where c = "hb_Cancelled (mg_Hubs m ! k)" and
          x = "if k = h then Some es else hb_Exit (mg_Hubs m ! k)"])
      (use that hub_ok_ended [OF sending_facts(1) [OF inv, of k]] gone in \<open>auto simp: nth_upd split: if_splits\<close>)
  show "sub_ok log ?m (if s \<in> P then old else cursor_of ?m s) (mg_Subs ?m ! s)" if "s < length (mg_Subs ?m)" for s
    using that sending_facts(2) [OF inv, of s] by (auto simp: sub_ok_def nth_upd)
qed (use inv in \<open>auto simp: sending_inv_def\<close>)

lemma sending_hub_retire:
  assumes inv: "sending_inv log P old m" and h: "h < length (mg_Hubs m)"
  shows "sending_inv log P old (hub_retire h m)"
  using assms sending_leave [OF sending_retire(1) [OF assms]] sending_retire [OF assms]
  by (auto simp: hub_retire_def split: option.split list.split)

subsection \<open>Changing one subscriber\<close>

lemma hub_ok_subs:
  assumes "hub_ok log m h" and "mg_Cfg m' = mg_Cfg m" "mg_Hubs m' = mg_Hubs m" "mg_Map m' = mg_Map m"
    and "length (mg_Subs m') = length (mg_Subs m)"
    and "\<And>t. t < length (mg_Subs m) \<Longrightarrow> sb_Hub (mg_Subs m' ! t) = sb_Hub (mg_Subs m ! t)
           \<and> sb_Closed (mg_Subs m' ! t) = sb_Closed (mg_Subs m ! t)"
  shows "hub_ok log m' h"
proof -
  have "live_subs (mg_Subs m') h = live_subs (mg_Subs m) h" using assms(5,6) by (auto simp: live_subs_def)
  then show ?thesis using assms(1) by (simp add: hub_ok_def assms(2,3,4))
qed

lemma sending_upd_sub:
  assumes inv: "sending_inv log P old m" and s: "s < length (mg_Subs m)"
    and f: "sb_Hub (f (mg_Subs m ! s)) = sb_Hub (mg_Subs m ! s)" "sb_Closed (f (mg_Subs m ! s)) = sb_Closed (mg_Subs m ! s)"
      "sub_ok log m (if s \<in> P' then old else cursor_of m s) (f (mg_Subs m ! s))"
    and P: "\<And>t. t \<noteq> s \<Longrightarrow> t \<in> P' \<longleftrightarrow> t \<in> P"
  shows "sending_inv log P' old (upd_sub s f m)"
proof (rule sending_step [OF inv])
  let ?m = "upd_sub s f m"
  have eq: "sub_ok log ?m c u = sub_ok log m c u" for c u by (simp add: sub_ok_def)
  show "hub_ok log ?m k" if "k < length (mg_Hubs ?m)" for k
    by (rule hub_ok_subs [OF sending_facts(1) [OF inv, of k]]) (use that f(1,2) in \<open>auto simp: nth_upd\<close>)
  show "sub_ok log ?m (if t \<in> P' then old else cursor_of ?m t) (mg_Subs ?m ! t)" if "t < length (mg_Subs ?m)" for t
  proof -
    have c: "cursor_of ?m t = cursor_of m t" using that f(1) by (cases "t = s") (simp_all add: nth_upd)
    show ?thesis unfolding eq c
      using that f(3) P [of t] sending_facts(2) [OF inv, of t] by (cases "t = s") (auto simp: nth_upd split del: if_split)
  qed
  show "map_ok ?m" by (rule map_ok_keep [OF sending_facts(3) [OF inv]]) simp_all
qed (use inv in \<open>auto simp: sending_inv_def\<close>)

lemma stream_receive:
  assumes inv: "stream_inv log m" and s: "s < length (mg_Subs m)"
  shows "stream_inv log (receive s m)"
proof -
  have "sub_ok log m (cursor_of m s) (mg_Subs m ! s)" using sending_facts(2) [OF inv s] by simp
  then show ?thesis unfolding receive_def
    by (intro sending_upd_sub [OF inv s]; cases "sb_Events (mg_Subs m ! s)") (auto simp: sub_ok_def sent_def)
qed

lemma stream_closeSub:
  assumes inv: "stream_inv log m" and s: "s < length (mg_Subs m)"
  shows "stream_inv log (closeSub s m)"
proof (cases "sb_Once (mg_Subs m ! s)")
  case True
  then show ?thesis using inv by (simp add: closeSub_def)
next
  case False
  let ?h = "sb_Hub (mg_Subs m ! s)" and ?m0 = "upd_sub s (\<lambda>u. u\<lparr>sb_Once := True\<rparr>) m"
  have ok: "sub_ok log m (cursor_of m s) (mg_Subs m ! s)" using sending_facts(2) [OF inv s] by simp
  have "stream_inv log ?m0"
    by (rule sending_upd_sub [OF inv s]) (use ok in \<open>auto simp: sub_ok_def sent_def\<close>)
  then have inv1: "stream_inv log (hub_remove ?h s None ?m0)" using s by (intro sending_remove) (auto simp: nth_upd)
  have h: "?h < length (mg_Hubs (hub_remove ?h s None ?m0))" using ok by (simp add: sub_ok_def)
  show ?thesis using inv1 sending_drop [OF inv1 h] False by (simp add: closeSub_def Let_def)
qed

subsection \<open>Subscribing\<close>

lemma preload_slice:
  "log_slice log t i a es \<Longrightarrow> a \<le> unat (sb_After u) \<Longrightarrow> log_slice log t i b (sent u) \<Longrightarrow>
   unat (sb_After u) = b + length (sent u) \<Longrightarrow> int (length (sb_Events u)) \<le> cap \<Longrightarrow> preload cap es u = Some u' \<Longrightarrow>
     log_slice log t i b (sent u') \<and> unat (sb_After u') = b + length (sent u') \<and> int (length (sb_Events u')) \<le> cap
     \<and> unat (sb_After u') = max (unat (sb_After u)) (a + length es)
     \<and> (\<exists>xs w. u' = u\<lparr>sb_Events := xs, sb_After := w\<rparr>)"
proof (induction es arbitrary: a u)
  case Nil
  have "u = u\<lparr>sb_Events := sb_Events u, sb_After := sb_After u\<rparr>" by simp
  then have "\<exists>xs w. u = u\<lparr>sb_Events := xs, sb_After := w\<rparr>" by blast
  with Nil show ?case by auto
next
  case (Cons e es)
  note e = Cons.prems(1) [unfolded slice_Cons]
  show ?case
  proof (cases "sb_After u < xe_Seq e")
    case True
    let ?u = "u\<lparr>sb_Events := sb_Events u @ [e], sb_After := xe_Seq e\<rparr>"
    have after: "unat (sb_After u) = a" using True e Cons.prems(2) by (simp add: word_less_nat_alt)
    have "log_slice log t i b (sent ?u)"
      using slice_snoc [OF Cons.prems(3)] after e Cons.prems(4) by (simp add: sent_def)
    moreover have "int (length (sb_Events u)) \<noteq> cap" "preload cap es ?u = Some u'"
      using Cons.prems(6) True by (auto split: if_splits)
    ultimately show ?thesis using Cons.IH [of "Suc a" ?u] e after Cons.prems(4,5) by (auto simp: sent_def)
  next
    case False
    then have "Suc a \<le> unat (sb_After u)" using e by (simp add: word_less_nat_alt not_less)
    then show ?thesis using Cons.IH [of "Suc a" u] e Cons.prems False by (auto simp: max_def)
  qed
qed

lemma unat_max: "unat (max x y) = max (unat x) (unat y)"
  by (simp add: max_def word_le_nat_alt)

text \<open>Where the replay up to \<open>covered\<close> meets the history of the hub.\<close>

lemma history_reaches:
  assumes "log_slice log t i (unat c - length hist) hist" "length hist \<le> unat c"
    and "\<not> (covered < c \<and> (case hist of [] \<Rightarrow> True | e # _ \<Rightarrow> covered + 1 < xe_Seq e))"
  shows "unat c - length hist \<le> unat (covered :: u64)"
proof (cases "covered < c")
  case True
  then obtain e es where hist: "hist = e # es" and e: "\<not> covered + 1 < xe_Seq e"
    using assms(3) by (cases hist) auto
  have "unat (covered + 1) = Suc (unat covered)"
    using True by (intro unat_Suc_word) (auto simp: max_uint64_def)
  then show ?thesis using e assms(1) by (simp add: hist slice_Cons word_less_nat_alt not_less)
next
  case False
  then show ?thesis using assms(2) by (simp add: word_less_nat_alt)
qed

lemma preload_sub_ok:
  assumes h: "h < length (mg_Hubs m)" and ok: "hub_ok log m h" and cap: "0 < sc_QueueSize (mg_Cfg m)"
    and meets: "\<not> (covered < hb_Cursor (mg_Hubs m ! h)
        \<and> (case hb_History (mg_Hubs m ! h) of [] \<Rightarrow> True | e # _ \<Rightarrow> covered + 1 < xe_Seq e))"
    and u: "preload (sc_QueueSize (mg_Cfg m)) (hb_History (mg_Hubs m ! h))
        (new_subscriber (hb_Tenant (mg_Hubs m ! h)) (hb_ID (mg_Hubs m ! h)) h covered) = Some u"
  shows "sub_ok log m (hb_Cursor (mg_Hubs m ! h)) u \<and> sb_Hub u = h \<and> \<not> sb_Closed u"
proof -
  let ?b = "mg_Hubs m ! h"
  let ?a = "unat (hb_Cursor ?b) - length (hb_History ?b)"
  have hist: "log_slice log (hb_Tenant ?b) (hb_ID ?b) ?a (hb_History ?b)" "length (hb_History ?b) \<le> unat (hb_Cursor ?b)"
    using ok unfolding hub_ok_def hub_self_def by blast+
  have "?a \<le> unat covered" by (rule history_reaches [OF hist meets])
  with preload_slice [OF hist(1), of _ "unat covered", OF _ _ _ _ u] cap
  have pre: "log_slice log (hb_Tenant ?b) (hb_ID ?b) (unat covered) (sent u)"
    "unat (sb_After u) = unat covered + length (sent u)" "int (length (sb_Events u)) \<le> sc_QueueSize (mg_Cfg m)"
    "unat (sb_After u) = max (unat covered) (?a + length (hb_History ?b))"
    "\<exists>xs w. u = (new_subscriber (hb_Tenant ?b) (hb_ID ?b) h covered)\<lparr>sb_Events := xs, sb_After := w\<rparr>"
    by (simp_all add: new_subscriber_def sent_def)
  have "sb_After u = max covered (hb_Cursor ?b)"
    using pre(4) hist(2) by (simp add: word_unat_eq_iff unat_max)
  then show ?thesis using pre h by (auto simp: sub_ok_def new_subscriber_def)
qed

lemma attached_hub_ok:
  assumes ok: "hub_ok log m k" and k: "k < length (mg_Hubs m)" and h: "h < length (mg_Hubs m)"
    and max: "int (length (hb_Subs (mg_Hubs m ! h))) < sc_MaxSubscribers (mg_Cfg m)"
    and u: "sb_Hub u = h" "\<not> sb_Closed u" and map: "map_of (mg_Map m) (hb_Key (mg_Hubs m ! h)) = Some h"
  shows "hub_ok log (upd_hub h (\<lambda>b. b\<lparr>hb_Subs := length (mg_Subs m) # hb_Subs b\<rparr>) (m\<lparr>mg_Subs := mg_Subs m @ [u]\<rparr>)) k"
proof -
  have "live_subs (mg_Subs m @ [u]) k = live_subs (mg_Subs m) k \<union> (if k = h then {length (mg_Subs m)} else {})"
    using u by (auto simp: live_subs_def nth_append less_Suc_eq)
  moreover have "length (mg_Subs m) \<notin> live_subs (mg_Subs m) k" by (simp add: live_subs_def)
  ultimately show ?thesis using ok k max map by (auto simp: hub_ok_def hub_self_def nth_upd)
qed

lemma sending_attach:
  assumes inv: "stream_inv log m" and h: "h < length (mg_Hubs m)"
    and map: "map_of (mg_Map m) (tenant @ ''/'' @ i) = Some h" and ids: "valid_id tenant" "valid_id i"
  shows "stream_inv log (fst (attach tenant i h covered m))"
proof (cases "isl (snd (attach tenant i h covered m))")
  case True
  then show ?thesis using inv by (auto simp: attach_def Let_def split: if_splits option.splits)
next
  case False
  let ?b = "mg_Hubs m ! h"
  have hub: "hub_ok log m h" by (rule sending_facts(1) [OF inv h])
  have key: "hb_Key ?b = tenant @ ''/'' @ i" using map_okD [OF sending_facts(3) [OF inv] map] by blast
  have "hb_Key ?b = hb_Tenant ?b @ ''/'' @ hb_ID ?b" "valid_id (hb_Tenant ?b)" "valid_id (hb_ID ?b)"
    using hub unfolding hub_ok_def hub_self_def by blast+
  then have run: "hb_Tenant ?b = tenant" "hb_ID ?b = i" using key_inject [OF ids, of "hb_Tenant ?b" "hb_ID ?b"] key by auto
  obtain u where u: "attach tenant i h covered m = (upd_hub h (\<lambda>b. b\<lparr>hb_Subs := length (mg_Subs m) # hb_Subs b\<rparr>)
        (m\<lparr>mg_Subs := mg_Subs m @ [u]\<rparr>), Inr (length (mg_Subs m)))"
      and max: "int (length (hb_Subs ?b)) < sc_MaxSubscribers (mg_Cfg m)"
      and new: "sub_ok log m (hb_Cursor ?b) u" "sb_Hub u = h" "\<not> sb_Closed u"
    using False preload_sub_ok [OF h hub, of covered] run inv
    by (auto simp: attach_def Let_def sending_inv_def split: if_splits option.splits)
  let ?m = "fst (attach tenant i h covered m)"
  have subs: "mg_Subs ?m = mg_Subs m @ [u]" "mg_Hubs ?m = (mg_Hubs m)[h := ?b\<lparr>hb_Subs := length (mg_Subs m) # hb_Subs ?b\<rparr>]"
    "mg_Map ?m = mg_Map m" "mg_Cfg ?m = mg_Cfg m" "mg_Panicked ?m = mg_Panicked m"
    by (simp_all add: u)
  show ?thesis
  proof (rule sending_step [OF inv])
    show "map_ok ?m" by (rule map_ok_keep [OF sending_facts(3) [OF inv]]) (simp_all add: subs nth_upd)
    show "sub_ok log ?m (if t \<in> {} then 0 else cursor_of ?m t) (mg_Subs ?m ! t)" if "t < length (mg_Subs ?m)" for t
    proof (cases "t < length (mg_Subs m)")
      case True
      then show ?thesis using sending_facts(2) [OF inv True] by (auto simp: sub_ok_def subs nth_append nth_upd)
    next
      case False
      then show ?thesis using that new h by (auto simp: sub_ok_def subs nth_append nth_upd less_Suc_eq)
    qed
    show "hub_ok log ?m k" if "k < length (mg_Hubs ?m)" for k
      using attached_hub_ok [of log m k h u] sending_facts(1) [OF inv, of k] that max new(2,3) h map key
      by (simp add: u)
  qed (use inv in \<open>auto simp: sending_inv_def u\<close>)
qed

lemma new_hub_self: "0 < sc_MaxSubscribers cfg \<Longrightarrow> valid_id tenant \<Longrightarrow> valid_id i \<Longrightarrow> hub_self log cfg (new_hub tenant i c)"
  by (simp add: hub_self_def new_hub_def)

lemma sending_new_hub:
  assumes inv: "stream_inv log m" and ids: "valid_id tenant" "valid_id i"
    and free: "map_of (mg_Map m) (tenant @ ''/'' @ i) = None" "int (length (mg_Map m)) < sc_MaxHubs (mg_Cfg m)"
  shows "stream_inv log (m\<lparr>mg_Hubs := mg_Hubs m @ [new_hub tenant i c],
           mg_Map := (tenant @ ''/'' @ i, length (mg_Hubs m)) # mg_Map m\<rparr>)" (is "stream_inv log ?m")
proof (rule sending_step [OF inv])
  have below: "sb_Hub (mg_Subs m ! t) < length (mg_Hubs m)" if "t < length (mg_Subs m)" for t
    using sending_facts(2) [OF inv that] by (simp add: sub_ok_def)
  show "sub_ok log ?m (if t \<in> {} then 0 else cursor_of ?m t) (mg_Subs ?m ! t)" if "t < length (mg_Subs ?m)" for t
    using that sending_facts(2) [OF inv, of t] by (auto simp: sub_ok_def nth_append)
  show "hub_ok log ?m k" if k: "k < length (mg_Hubs ?m)" for k
  proof (cases "k < length (mg_Hubs m)")
    case True
    have ok: "hub_ok log m k" by (rule sending_facts(1) [OF inv True])
    then show ?thesis using True hub_ok_ended [OF ok] by (auto simp: hub_ok_def nth_append)
  next
    case False
    then have "k = length (mg_Hubs m)" using k by simp
    moreover have "live_subs (mg_Subs m) (length (mg_Hubs m)) = {}" using below by (fastforce simp: live_subs_def)
    moreover have "0 < sc_MaxSubscribers (mg_Cfg m)" using inv by (simp add: sending_inv_def)
    ultimately show ?thesis using new_hub_self [OF _ ids] by (simp add: hub_ok_def new_hub_def nth_append)
  qed
  have "tenant @ ''/'' @ i \<notin> fst ` set (mg_Map m)" using free(1) by (simp add: map_of_eq_None_iff)
  moreover have "h < length (mg_Hubs ?m) \<and> hb_Key (mg_Hubs ?m ! h) = key \<and> \<not> hb_Cancelled (mg_Hubs ?m ! h)"
    if "map_of (mg_Map ?m) key = Some h" for key h
    using that map_okD [OF sending_facts(3) [OF inv], of key h] by (auto simp: nth_append new_hub_def split: if_splits)
  ultimately show "map_ok ?m" using map_ok_sizes [OF sending_facts(3) [OF inv]] free(2) unfolding map_ok_def by auto
qed (use inv in \<open>auto simp: sending_inv_def\<close>)

lemma stream_Subscribe:
  assumes inv: "stream_inv log m" and ids: "\<not> isl r \<Longrightarrow> valid_id tenant \<and> valid_id i"
  shows "stream_inv log (fst (Subscribe tenant i after r m))"
proof (cases r)
  case (Inl e)
  then show ?thesis using inv by (simp add: Subscribe_def)
next
  case (Inr v)
  then have ids: "valid_id tenant" "valid_id i" using ids by auto
  have "stream_inv log (fst (attach tenant i h c m))" if "map_of (mg_Map m) (tenant @ ''/'' @ i) = Some h" for h c
    using sending_attach [OF inv _ that ids] map_okD [OF sending_facts(3) [OF inv] that] by blast
  moreover have "stream_inv log (fst (attach tenant i (length (mg_Hubs m)) c
      (m\<lparr>mg_Hubs := mg_Hubs m @ [new_hub tenant i c], mg_Map := (tenant @ ''/'' @ i, length (mg_Hubs m)) # mg_Map m\<rparr>)))"
    if "map_of (mg_Map m) (tenant @ ''/'' @ i) = None" "\<not> sc_MaxHubs (mg_Cfg m) \<le> int (length (mg_Map m))" for c
    using that by (intro sending_attach sending_new_hub inv ids) auto
  ultimately show ?thesis using Inr inv by (auto simp: Subscribe_def Let_def split: option.split)
qed

subsection \<open>Sending an event\<close>

lemma trim_length: "length (trim n es) = min (length es) (nat n)"
  by (cases es) (auto simp: trim_def min_def)

lemma trim_slice:
  "log_slice log t i a es \<Longrightarrow> log_slice log t i (a + length es - length (trim n es)) (trim n es)"
  by (auto simp: trim_def dest: slice_drop [of _ _ _ _ _ "length es - nat n"])

lemma published_self:
  assumes self: "hub_self log cfg b" and e: "unat (xe_Seq e) = Suc (unat (hb_Cursor b))"
    "e = log (hb_Tenant b) (hb_ID b) (xe_Seq e)"
  shows "hub_self log cfg (b\<lparr>hb_Cursor := xe_Seq e, hb_History := trim n (hb_History b @ [e])\<rparr>)"
proof -
  let ?a = "unat (hb_Cursor b) - length (hb_History b)"
  have hist: "log_slice log (hb_Tenant b) (hb_ID b) ?a (hb_History b)" "length (hb_History b) \<le> unat (hb_Cursor b)"
    using self by (simp_all add: hub_self_def)
  then have "log_slice log (hb_Tenant b) (hb_ID b) ?a (hb_History b @ [e])" using e by (intro slice_snoc) auto
  from trim_slice [OF this, of n] show ?thesis using self hist(2) e by (simp add: hub_self_def trim_length)
qed

lemma sending_publish:
  assumes inv: "stream_inv log m" and h: "h < length (mg_Hubs m)" and old: "hb_Cursor (mg_Hubs m ! h) = old"
    and e: "unat (xe_Seq e) = Suc (unat old)" "e = log (hb_Tenant (mg_Hubs m ! h)) (hb_ID (mg_Hubs m ! h)) (xe_Seq e)"
  shows "sending_inv log (set (hb_Subs (mg_Hubs m ! h))) old
    (upd_hub h (\<lambda>b. b\<lparr>hb_Cursor := xe_Seq e, hb_History := trim n (hb_History b @ [e])\<rparr>) m)"
    (is "sending_inv _ ?P _ ?m")
proof (rule sending_step [OF inv])
  have hub: "hub_ok log m h" by (rule sending_facts(1) [OF inv h])
  show "map_ok ?m" by (rule map_ok_keep [OF sending_facts(3) [OF inv]]) (auto simp: nth_upd)
  show "hub_ok log ?m k" if "k < length (mg_Hubs ?m)" for k
    using sending_facts(1) [OF inv, of k] that published_self [of log "mg_Cfg m" "mg_Hubs m ! h" e n] e old
    by (auto simp: hub_ok_def nth_upd)
  show "sub_ok log ?m (if t \<in> ?P then old else cursor_of ?m t) (mg_Subs ?m ! t)" if "t < length (mg_Subs ?m)" for t
  proof -
    have "t \<in> ?P \<longleftrightarrow> sb_Hub (mg_Subs m ! t) = h \<and> \<not> sb_Closed (mg_Subs m ! t)"
      using hub that unfolding hub_ok_def by (simp add: live_subs_def)
    then show ?thesis using that sending_facts(2) [OF inv, of t] old by (auto simp: sub_ok_def nth_upd)
  qed
qed (use inv in \<open>auto simp: sending_inv_def\<close>)

text \<open>The invariant of the loop over the subscribers: those in \<open>ss\<close> are still to be served.\<close>

definition serving :: "event_log \<Rightarrow> nat \<Rightarrow> stream_event \<Rightarrow> u64 \<Rightarrow> nat list \<Rightarrow> manager \<Rightarrow> bool" where
  "serving log h e old ss m \<longleftrightarrow> sending_inv log (set ss) old m \<and> h < length (mg_Hubs m) \<and> distinct ss
     \<and> set ss \<subseteq> live_subs (mg_Subs m) h \<and> hb_Cursor (mg_Hubs m ! h) = xe_Seq e \<and> unat (xe_Seq e) = Suc (unat old)
     \<and> e = log (hb_Tenant (mg_Hubs m ! h)) (hb_ID (mg_Hubs m ! h)) (xe_Seq e)"

lemma deliver_frame:
  "length (mg_Hubs (deliver h e m s)) = length (mg_Hubs m)"
  "k < length (mg_Hubs m) \<Longrightarrow> hb_Cursor (mg_Hubs (deliver h e m s) ! k) = hb_Cursor (mg_Hubs m ! k)
     \<and> hb_Tenant (mg_Hubs (deliver h e m s) ! k) = hb_Tenant (mg_Hubs m ! k)
     \<and> hb_ID (mg_Hubs (deliver h e m s) ! k) = hb_ID (mg_Hubs m ! k)"
  by (auto simp: deliver_def Let_def remove_hub)

lemma live_upd_sub:
  "s < length us \<Longrightarrow> sb_Hub u = sb_Hub (us ! s) \<Longrightarrow> sb_Closed u = sb_Closed (us ! s) \<Longrightarrow> live_subs (us[s := u]) h = live_subs us h"
  by (auto simp: live_subs_def nth_upd split: if_splits)

lemma sub_ok_cursor: "sub_ok log m c u \<Longrightarrow> (\<not> sb_Closed u \<Longrightarrow> sb_After u = max (sb_Covered u) c') \<Longrightarrow> sub_ok log m c' u"
  unfolding sub_ok_def by (cases "sb_Closed u") auto

lemma deliver_live:
  assumes "s < length (mg_Subs m)" "sb_Hub (mg_Subs m ! s) = h"
  shows "live_subs (mg_Subs m) h - {s} \<subseteq> live_subs (mg_Subs (deliver h e m s)) h"
  using live_remove [OF assms, of "Some ErrSlow" h] assms(1) by (auto simp: deliver_def Let_def live_upd_sub)

lemma deliver_sending:
  assumes sv: "serving log h e old (s # ss) m"
  shows "sending_inv log (set ss) old (deliver h e m s)"
proof -
  let ?u = "mg_Subs m ! s"
  have inv: "sending_inv log (insert s (set ss)) old m" and h: "h < length (mg_Hubs m)" and ss: "s \<notin> set ss"
    and live: "s < length (mg_Subs m)" "sb_Hub ?u = h" "\<not> sb_Closed ?u" and cur: "hb_Cursor (mg_Hubs m ! h) = xe_Seq e"
    and e: "unat (xe_Seq e) = Suc (unat old)" "e = log (hb_Tenant (mg_Hubs m ! h)) (hb_ID (mg_Hubs m ! h)) (xe_Seq e)"
    using sv by (auto simp: serving_def live_subs_def)
  have ok: "sub_ok log m old ?u" using sending_facts(2) [OF inv live(1)] by simp
  then have after: "sb_After ?u = max (sb_Covered ?u) old" using live(3) by (simp add: sub_ok_def)
  have less: "old < xe_Seq e" using e(1) by (simp add: word_less_nat_alt)
  show ?thesis
  proof (cases "xe_Seq e \<le> sb_After ?u")
    case True
    then have "sb_After ?u = max (sb_Covered ?u) (xe_Seq e)" using after less by (auto simp: max_def)
    then have "sub_ok log m (xe_Seq e) ?u" using sub_ok_cursor [OF ok] by blast
    then have "sending_inv log (set ss) old (upd_sub s (\<lambda>u. u) m)"
      using live ss cur by (intro sending_upd_sub [OF inv]) auto
    then show ?thesis using True by (simp add: deliver_def upd_sub_def)
  next
    case False
    then have at: "sb_After ?u = old" "sb_Covered ?u \<le> old" using after e(1) by (auto simp: max_def word_le_nat_alt split: if_splits)
    show ?thesis
    proof (cases "int (length (sb_Events ?u)) < sc_QueueSize (mg_Cfg m)")
      case True
      let ?f = "\<lambda>u. u\<lparr>sb_Events := sb_Events u @ [e], sb_After := xe_Seq e\<rparr>"
      have "log_slice log (sb_Tenant ?u) (sb_ID ?u) (unat (sb_Covered ?u)) (sent ?u @ [e])"
        using ok e at live(2) by (intro slice_snoc) (auto simp: sub_ok_def)
      then have "sub_ok log m (xe_Seq e) (?f ?u)"
        using ok True at e(1) less live(3) by (auto simp: sub_ok_def sent_def max_def)
      then have "sending_inv log (set ss) old (upd_sub s ?f m)"
        using live ss cur by (intro sending_upd_sub [OF inv]) auto
      then show ?thesis using True False live(3) by (simp add: deliver_def Let_def)
    next
      case full: False
      let ?m = "hub_remove h s (Some ErrSlow) m"
      have rem: "sending_inv log (insert s (set ss)) old ?m" by (rule sending_remove [OF inv live(1,2)])
      have "sb_Closed (mg_Subs ?m ! s)" using live by (simp add: remove_sub)
      then have "sub_ok log ?m (cursor_of ?m s) (mg_Subs ?m ! s)"
        using sub_ok_cursor sending_facts(2) [OF rem, of s] live(1) by (metis remove_frame(4))
      then have "sending_inv log (set ss) old (upd_sub s (\<lambda>u. u) ?m)"
        using live ss by (intro sending_upd_sub [OF rem]) auto
      then show ?thesis using full False live(3) by (simp add: deliver_def upd_sub_def Let_def)
    qed
  qed
qed

lemma serving_deliver:
  assumes "serving log h e old (s # ss) m"
  shows "serving log h e old ss (deliver h e m s)"
proof -
  have "s < length (mg_Subs m)" "sb_Hub (mg_Subs m ! s) = h" using assms by (auto simp: serving_def live_subs_def)
  then show ?thesis
    using assms deliver_sending [OF assms] deliver_live [of s m h e] deliver_frame(1) [of h e m s] deliver_frame(2) [of h m h e s]
    by (auto simp: serving_def)
qed

lemma serving_all:
  "serving log h e old ss m \<Longrightarrow> serving log h e old [] (foldl (deliver h e) m ss)
     \<and> hb_Tenant (mg_Hubs (foldl (deliver h e) m ss) ! h) = hb_Tenant (mg_Hubs m ! h)
     \<and> hb_ID (mg_Hubs (foldl (deliver h e) m ss) ! h) = hb_ID (mg_Hubs m ! h)"
proof (induction ss arbitrary: m)
  case Nil
  then show ?case by simp
next
  case (Cons s ss)
  have "h < length (mg_Hubs m)" using Cons.prems by (simp add: serving_def)
  then show ?case using Cons.IH [OF serving_deliver [OF Cons.prems]] deliver_frame(2) [of h m h e s] by simp
qed

lemma stream_publish_event:
  assumes inv: "stream_inv log m" and h: "h < length (mg_Hubs m)"
    and e: "unat (xe_Seq e) = Suc (unat (hb_Cursor (mg_Hubs m ! h)))"
      "e = log (hb_Tenant (mg_Hubs m ! h)) (hb_ID (mg_Hubs m ! h)) (xe_Seq e)"
  shows "stream_inv log (publish_event h e m)" "h < length (mg_Hubs (publish_event h e m))"
    "hb_Tenant (mg_Hubs (publish_event h e m) ! h) = hb_Tenant (mg_Hubs m ! h)"
    "hb_ID (mg_Hubs (publish_event h e m) ! h) = hb_ID (mg_Hubs m ! h)"
    "hb_Cursor (mg_Hubs (publish_event h e m) ! h) = xe_Seq e"
proof -
  let ?b = "mg_Hubs m ! h"
  let ?m = "upd_hub h (\<lambda>b. b\<lparr>hb_Cursor := xe_Seq e, hb_History := trim (sc_HistorySize (mg_Cfg m)) (hb_History b @ [e])\<rparr>) m"
  have "hub_ok log m h" by (rule sending_facts(1) [OF inv h])
  then have "distinct (hb_Subs ?b)" "set (hb_Subs ?b) = live_subs (mg_Subs m) h"
    by (auto simp: hub_ok_def hub_self_def)
  then have "serving log h e (hb_Cursor ?b) (hb_Subs ?b) ?m"
    using sending_publish [OF inv h refl e, of "sc_HistorySize (mg_Cfg m)"] h e by (simp add: serving_def nth_upd)
  from serving_all [OF this] h show "stream_inv log (publish_event h e m)" "h < length (mg_Hubs (publish_event h e m))"
    "hb_Tenant (mg_Hubs (publish_event h e m) ! h) = hb_Tenant ?b" "hb_ID (mg_Hubs (publish_event h e m) ! h) = hb_ID ?b"
    "hb_Cursor (mg_Hubs (publish_event h e m) ! h) = xe_Seq e"
    by (auto simp: publish_event_def serving_def sending_inv_def nth_upd)
qed

lemma stream_publish_events:
  "stream_inv log m \<Longrightarrow> h < length (mg_Hubs m) \<Longrightarrow>
   list_all (\<lambda>e. xe_Seq e \<noteq> 0 \<and> e = log (hb_Tenant (mg_Hubs m ! h)) (hb_ID (mg_Hubs m ! h)) (xe_Seq e)) es \<Longrightarrow>
     stream_inv log (publish_events h es m)"
proof (induction es arbitrary: m)
  case Nil
  then show ?case by simp
next
  case (Cons e es)
  let ?b = "mg_Hubs m ! h"
  show ?case
  proof (cases "xe_Seq e = hb_Cursor ?b + 1")
    case True
    moreover have "hb_Cursor ?b \<noteq> max_uint64" using Cons.prems(3) True by (auto simp: max_uint64_def)
    ultimately have seq: "unat (xe_Seq e) = Suc (unat (hb_Cursor ?b))" by (simp add: unat_Suc_word)
    have log: "e = log (hb_Tenant ?b) (hb_ID ?b) (xe_Seq e)" using Cons.prems(3) by simp
    note next_m = stream_publish_event [OF Cons.prems(1,2) seq log]
    show ?thesis using Cons.IH [OF next_m(1,2)] Cons.prems(3) True next_m(3,4) by simp
  next
    case False
    then show ?thesis using sending_leave [OF Cons.prems(1,2), of "[SDomain ErrReset, ErrCanceled]"] by simp
  qed
qed

lemma stream_tick:
  assumes inv: "stream_inv log m" and en: "stream_enabled log m (AcTick h answer)"
  shows "stream_inv log (hub_tick h answer m)"
proof (cases answer)
  case (Inl e)
  have "stream_inv log (leave_loop h (x # xs) m)" for x xs using inv en by (intro sending_leave) auto
  then show ?thesis using Inl inv by (simp add: hub_tick_def)
next
  case (Inr es)
  then have "list_all (\<lambda>e. xe_Seq e \<noteq> 0 \<and> e = log (hb_Tenant (mg_Hubs m ! h)) (hb_ID (mg_Hubs m ! h)) (xe_Seq e)) es"
    using en by (auto simp: list_all_iff)
  then show ?thesis using Inr stream_publish_events [OF inv, of h es] en by (simp add: hub_tick_def)
qed

lemma stream_step_inv: "stream_inv log m \<Longrightarrow> stream_step log m a c m' \<Longrightarrow> stream_inv log m'"
proof (induction a)
  case (AcSubscribe tenant i after r)
  then show ?case using stream_Subscribe [of log m r tenant i after] by (auto simp: stream_step_def split: prod.splits)
next
  case (AcTick h answer)
  then show ?case using stream_tick [of log m h answer] by (auto simp: stream_step_def)
next
  case (AcDone h)
  then show ?case using sending_leave [of log "{}" 0 m h "[ErrCanceled]"] by (auto simp: stream_step_def)
next
  case (AcRetire h)
  then show ?case using sending_hub_retire [of log "{}" 0 m h] by (auto simp: stream_step_def)
next
  case (AcReceive s)
  then show ?case using stream_receive [of log m s] by (auto simp: stream_step_def)
next
  case (AcClose s)
  then show ?case using stream_closeSub [of log m s] by (auto simp: stream_step_def)
next
  case AcShutdown
  then have m': "m' = m\<lparr>mg_Cancelled := True\<rparr>" by (simp add: stream_step_def Manager_Close_def)
  have "hub_ok log m' h = hub_ok log m h" "sub_ok log m' c' u = sub_ok log m c' u" "map_ok m' = map_ok m" for h c' u
    unfolding m' hub_ok_def sub_ok_def map_ok_def by simp_all
  then show ?case using AcShutdown(1) unfolding sending_inv_def by (simp add: m')
qed

lemma New_inv: "stream_inv log (New cfg)"
  by (simp add: sending_inv_def New_def map_ok_def positive_or_def)

interpretation event_stream: ghost_invariant "stream_step log" "\<lambda>_ _. True" "\<lambda>_ m. stream_inv log m" "New cfg" for log cfg
  by unfold_locales (auto simp: New_inv intro: stream_step_inv)

end
