(* ===== verification/Event_Stream_Correct.thy ===== *)
theory Event_Stream_Correct
  imports Event_Stream_Invariant
begin

section \<open>What a subscriber of an event stream can rely on\<close>

text \<open>
  Two properties of every interleaving of handlers, hubs and answers of the source, applied to a run
  in which one subscriber joins late and the other one is too slow.
\<close>

subsection \<open>Properties\<close>

text \<open>
  C20. What a subscriber was sent are exactly the events of its run in the durable log that follow
  \<open>CoveredSeq\<close>, each once, in order and without a gap, whatever the hub does meanwhile. While the
  subscription is open it has been sent everything up to the cursor of its hub.
\<close>

theorem stream_gap_free:
  assumes "exec (stream_step log) (New cfg) tr m" and "s < length (mg_Subs m)"
  shows "map (\<lambda>e. unat (xe_Seq e)) (sent (mg_Subs m ! s))
       = [Suc (unat (sb_Covered (mg_Subs m ! s)))..<Suc (unat (sb_Covered (mg_Subs m ! s)) + length (sent (mg_Subs m ! s)))]
     \<and> (\<forall>e \<in> set (sent (mg_Subs m ! s)). e = log (sb_Tenant (mg_Subs m ! s)) (sb_ID (mg_Subs m ! s)) (xe_Seq e))
     \<and> (sb_Closed (mg_Subs m ! s)
        \<or> unat (sb_Covered (mg_Subs m ! s)) + length (sent (mg_Subs m ! s))
            = max (unat (sb_Covered (mg_Subs m ! s))) (unat (cursor_of m s)))"
proof -
  have "sub_ok log m (cursor_of m s) (mg_Subs m ! s)"
    using sending_facts(2) [OF event_stream.always [OF assms(1)] assms(2)] by simp
  then have "log_slice log (sb_Tenant (mg_Subs m ! s)) (sb_ID (mg_Subs m ! s)) (unat (sb_Covered (mg_Subs m ! s))) (sent (mg_Subs m ! s))"
    "unat (sb_After (mg_Subs m ! s)) = unat (sb_Covered (mg_Subs m ! s)) + length (sent (mg_Subs m ! s))"
    "sb_Closed (mg_Subs m ! s) \<or> sb_After (mg_Subs m ! s) = max (sb_Covered (mg_Subs m ! s)) (cursor_of m s)"
    unfolding sub_ok_def by (auto split: if_splits)
  then show ?thesis by (auto simp: log_slice_def list_all_iff unat_max)
qed


subsection \<open>A run to evaluate\<close>

definition sdemo_log :: event_log where
  "sdemo_log tenant i n = \<lparr>xe_RunID = i, xe_Seq = n, xe_Type = ''text.delta'', xe_SchemaVersion = 1, xe_Payload = [],
     xe_CreatedAt = 0\<rparr>"

definition sdemo_cfg :: stream_config where
  "sdemo_cfg = \<lparr>sc_PollInterval = 0, sc_QueueSize = 2, sc_HistorySize = 2, sc_MaxHubs = 0, sc_MaxSubscribers = 0\<rparr>"

text \<open>
  The first subscriber covers the log up to 1 and reads one event; the second joins after the hub has
  read 2 and 3 and covers up to 2; when 5 arrives the queue of the first is full.
\<close>

definition sdemo_actions :: "stream_action list" where
  "sdemo_actions = (let view = (\<lambda>c. Inr \<lparr>rn_CoveredSeq = c, rn_RetainedFromSeq = 0\<rparr>); ev = sdemo_log ''t'' ''r'' in
     [AcSubscribe ''t'' ''r'' 0 (view 1), AcTick 0 (Inr [ev 2, ev 3]), AcReceive 0, AcSubscribe ''t'' ''r'' 2 (view 2),
      AcTick 0 (Inr [ev 4]), AcReceive 1, AcTick 0 (Inr [ev 5])])"

fun stream_run :: "event_log \<Rightarrow> manager \<Rightarrow> stream_action list \<Rightarrow> bool" where
  "stream_run log m [] = True"
| "stream_run log m (a # as) = (stream_enabled log m a \<and> stream_run log (fst (stream_apply m a)) as)"

lemma stream_run_exec:
  "stream_run log m as \<Longrightarrow> exec (stream_step log) m (fst (replay stream_apply m as)) (snd (replay stream_apply m as))"
proof (induction as arbitrary: m)
  case Nil
  then show ?case by (simp add: exec_init)
next
  case (Cons a as)
  obtain m' c where a: "stream_apply m a = (m', c)" by fastforce
  obtain tr t where r: "replay stream_apply m' as = (tr, t)" by fastforce
  have "exec (stream_step log) m ([(a, c)] @ tr) t"
    using exec_append [OF _ exec_one [of "stream_step log" m a c m']] Cons.IH [of m'] Cons.prems a r
    by (fastforce simp: stream_step_def)
  then show ?case by (simp add: a r)
qed

definition sdemo_end :: manager where
  "sdemo_end = snd (replay stream_apply (New sdemo_cfg) sdemo_actions)"

lemma sdemo_run: "stream_run sdemo_log (New sdemo_cfg) sdemo_actions"
  by code_simp

lemma sdemo_subs:
  "map (\<lambda>u. (sb_Closed u, sb_Errors u, map xe_Seq (sb_Received u), map xe_Seq (sb_Events u))) (mg_Subs sdemo_end)
     = [(True, [ErrSlow], [2], [3, 4]), (False, [], [3], [4, 5])]"
  by code_simp


theorem stream_gap_free_witness:
  "map (\<lambda>e. unat (xe_Seq e)) (sent (mg_Subs sdemo_end ! 1)) = [3..<6]
   \<and> \<not> sb_Closed (mg_Subs sdemo_end ! 1)"
proof -
  have subs: "1 < length (mg_Subs sdemo_end)" "\<not> sb_Closed (mg_Subs sdemo_end ! 1)" "sb_Covered (mg_Subs sdemo_end ! 1) = 2"
    "length (sent (mg_Subs sdemo_end ! 1)) = 3" by code_simp+
  from stream_gap_free [OF stream_run_exec [OF sdemo_run], folded sdemo_end_def, OF subs(1)] subs show ?thesis by simp
qed


end
