(* ===== verification/Provider_Types.thy ===== *)
theory Provider_Types
  imports Domain
begin

section \<open>The provider interface (internal/provider/types.go, errors.go, input_budget.go)\<close>

text \<open>
  Requests, turns, usage and stream events of model providers, the limits of a stream, the checks of a
  request, and the classification of errors. A raw JSON message is its bytes. An error is given with
  what the sources inspect of its chain: a provider error, a cancelled or expired context, a network
  error, or anything else.
\<close>

subsection \<open>Requests and turns\<close>

record capabilities =
  cp_ToolCalling :: bool
  cp_StructuredOutput :: bool
  cp_NativeCompaction :: bool
  cp_ToolSearch :: bool
  cp_NativeAsyncTools :: bool
  cp_ContextWindow :: int
  cp_MaxOutputTokens :: int

record tool_call =
  tc_ID :: string
  tc_Name :: string
  tc_Arguments :: bytes

record message =
  mx_Role :: string
  mx_Text :: string
  mx_ToolCalls :: "tool_call list"
  mx_ToolCallID :: string
  mx_IsError :: bool

record tool =
  tl_Name :: string
  tl_Description :: string
  tl_Schema :: bytes

record native_state =
  ns_Provider :: string
  ns_ResponseID :: string
  ns_Raw :: bytes

record model_request =
  mr_RunID :: string
  mr_StepID :: string
  mr_AttemptID :: string
  mr_ModelID :: string
  mr_Messages :: "message list"
  mr_NativeState :: "native_state option"
  mr_Tools :: "tool list"
  mr_MaxOutputTokens :: int
  mr_Deadline :: gotime

record token_count =
  tk_Value :: int
  tk_Known :: bool

record usage =
  us_Final :: bool
  us_Input :: token_count
  us_Output :: token_count
  us_CacheRead :: token_count
  us_CacheWrite :: token_count

record model_turn =
  tu_RunID :: string
  tu_StepID :: string
  tu_AttemptID :: string
  tu_Text :: string
  tu_ToolCalls :: "tool_call list"
  tu_Usage :: usage
  tu_FinishReason :: string
  tu_NativeState :: "native_state option"
  tu_ProviderModel :: string
  tu_ProviderRequestID :: string

subsection \<open>Errors\<close>

datatype provider_kind =
    PkAuthentication | PkInvalidRequest | PkUnsupported | PkRateLimited | PkUnavailable | PkDeadline
  | PkCancelled | PkProtocol | PkLimit | PkInterrupted | PkConsumer

record provider_error =
  pv_Kind :: provider_kind
  pv_StatusCode :: int
  pv_RetryAfter :: int
  pv_RequestID :: string
  pv_Detail :: string

datatype go_error =
    GoProvider provider_error
  | GoCanceled
  | GoDeadlineExceeded
  | GoNet string
  | GoOther string

definition perr :: "provider_kind \<Rightarrow> string \<Rightarrow> provider_error" where
  "perr kind detail = \<lparr>pv_Kind = kind, pv_StatusCode = 0, pv_RetryAfter = 0, pv_RequestID = [], pv_Detail = detail\<rparr>"

definition Error_Retryable :: "provider_error \<Rightarrow> bool" where
  "Error_Retryable e \<longleftrightarrow> pv_Kind e = PkRateLimited \<or> pv_Kind e = PkUnavailable \<or> pv_Kind e = PkInterrupted"

fun classify :: "go_error \<Rightarrow> provider_error" where
  "classify (GoProvider p) = p"
| "classify GoCanceled = perr PkCancelled ''request cancelled''"
| "classify GoDeadlineExceeded = perr PkDeadline ''request deadline reached''"
| "classify (GoNet _) = perr PkUnavailable ''transport failed''"
| "classify (GoOther _) = perr PkInterrupted ''stream did not complete''"

text \<open>The trailing half of \<open>strings.TrimSpace\<close>, on the reversed string.\<close>

fun trim_rev :: "string \<Rightarrow> string" where
  "trim_rev [] = []"
| "trim_rev [a] = (if ascii_space a then [] else [a])"
| "trim_rev [b, a] =
     (if ascii_space b then trim_rev [a]
      else if wide_space2 (of_char a) (of_char b) then [] else [b, a])"
| "trim_rev (c # b # a # s) =
     (if ascii_space c then trim_rev (b # a # s)
      else if wide_space2 (of_char b) (of_char c) then trim_rev (a # s)
      else if wide_space3 (of_char a) (of_char b) (of_char c) then trim_rev s
      else c # b # a # s)"

definition TrimSpace :: "string \<Rightarrow> string" where
  "TrimSpace s = rev (trim_rev (rev (trim_left s)))"

text \<open>\<open>strconv.ParseInt(s, 10, 64)\<close>.\<close>

definition dec_value :: "string \<Rightarrow> int" where
  "dec_value s = foldl (\<lambda>a c. a * 10 + (int (code c) - 48)) 0 s"

definition ParseInt10 :: "string \<Rightarrow> int option" where
  "ParseInt10 s =
     (let neg = take 1 s = ''-''; body = (if neg \<or> take 1 s = ''+'' then drop 1 s else s);
          v = (if neg then - dec_value body else dec_value body)
      in if body = [] \<or> \<not> list_all is_digit body \<or> \<not> in_int64 v then None else Some v)"

definition nanos_per_second :: int where "nanos_per_second = 1000000000"

text \<open>\<open>http.ParseTime\<close> is \<open>parse_time\<close>.\<close>

definition ParseRetryAfter :: "(string \<Rightarrow> gotime option) \<Rightarrow> string \<Rightarrow> gotime \<Rightarrow> int" where
  "ParseRetryAfter parse_time value0 now =
     (let v = TrimSpace value0
      in case ParseInt10 v of
          Some seconds \<Rightarrow>
            if seconds \<le> 0 then 0
            else if max_int64 sdiv nanos_per_second < seconds then max_int64
            else wrap64 (seconds * nanos_per_second)
        | None \<Rightarrow>
            (case parse_time v of
               Some at \<Rightarrow> if now < at then time_Sub at now else 0
             | None \<Rightarrow> 0))"

text \<open>A header is a function of the name; \<open>http.StatusText\<close> is \<open>status_text\<close>.\<close>

definition HTTPError :: "(string \<Rightarrow> gotime option) \<Rightarrow> (int \<Rightarrow> string) \<Rightarrow> int \<Rightarrow> (string \<Rightarrow> string) \<Rightarrow> gotime \<Rightarrow> provider_error" where
  "HTTPError parse_time status_text status h now =
     \<lparr>pv_Kind = (if status = 401 \<or> status = 403 then PkAuthentication
                 else if status = 429 then PkRateLimited
                 else if status = 408 \<or> status = 409 \<or> 500 \<le> status then PkUnavailable
                 else PkInvalidRequest),
      pv_StatusCode = status,
      pv_RetryAfter = ParseRetryAfter parse_time (h ''Retry-After'') now,
      pv_RequestID = (if h ''x-request-id'' = [] then h ''request-id'' else h ''x-request-id''),
      pv_Detail = status_text status\<rparr>"

definition Registry_Lookup :: "(string \<times> capabilities) list \<Rightarrow> go_error option \<Rightarrow> string \<Rightarrow> provider_error + capabilities" where
  "Registry_Lookup r ctx model =
     (case ctx of
        Some e \<Rightarrow> Inl (classify e)
      | None \<Rightarrow> (case map_of r model of None \<Rightarrow> Inl (perr PkUnsupported ''unregistered model'') | Some c \<Rightarrow> Inr c))"

subsection \<open>Events and limits\<close>

datatype event_type =
    EvAttemptStarted | EvTextDelta | EvToolDelta | EvUsage | EvAttemptCompleted | EvAttemptFailed

record model_event =
  me_Type :: event_type
  me_RunID :: string
  me_StepID :: string
  me_AttemptID :: string
  me_Sequence :: int
  me_Provisional :: bool
  me_Delta :: string
  me_CallID :: string
  me_ToolName :: string
  me_Usage :: "usage option"
  me_ErrorKind :: "provider_kind option"

record stream_limits =
  sl_MaxCalls :: int
  sl_MaxArgumentBytes :: int
  sl_MaxJSONDepth :: int
  sl_MaxTextBytes :: int
  sl_MaxNativeBytes :: int

definition Limits_normalized :: "stream_limits \<Rightarrow> stream_limits" where
  "Limits_normalized l =
     \<lparr>sl_MaxCalls = (if sl_MaxCalls l \<le> 0 then 32 else sl_MaxCalls l),
      sl_MaxArgumentBytes = (if sl_MaxArgumentBytes l \<le> 0 then 65536 else sl_MaxArgumentBytes l),
      sl_MaxJSONDepth = (if sl_MaxJSONDepth l \<le> 0 then 32 else sl_MaxJSONDepth l),
      sl_MaxTextBytes = (if sl_MaxTextBytes l \<le> 0 then 1048576 else sl_MaxTextBytes l),
      sl_MaxNativeBytes = (if sl_MaxNativeBytes l \<le> 0 then 4194304 else sl_MaxNativeBytes l)\<rparr>"

definition known_role :: "string \<Rightarrow> bool" where
  "known_role r \<longleftrightarrow> r = ''system'' \<or> r = ''user'' \<or> r = ''assistant'' \<or> r = ''tool''"

fun validate_messages :: "message list \<Rightarrow> provider_error option" where
  "validate_messages [] = None"
| "validate_messages (m # ms) =
     (if \<not> known_role (mx_Role m) then Some (perr PkInvalidRequest ''unsupported message role'')
      else if mx_Role m = ''tool'' \<and> mx_ToolCallID m = []
      then Some (perr PkInvalidRequest ''tool result needs a call ID'')
      else if mx_ToolCalls m \<noteq> [] \<and> mx_Role m \<noteq> ''assistant''
      then Some (perr PkInvalidRequest ''only assistant messages can contain tool calls'')
      else validate_messages ms)"

definition validateRequest :: "model_request \<Rightarrow> capabilities \<Rightarrow> string \<Rightarrow> provider_error option" where
  "validateRequest req caps providerName =
     (if mr_RunID req = [] \<or> mr_StepID req = [] \<or> mr_AttemptID req = [] \<or> mr_ModelID req = []
      then Some (perr PkInvalidRequest ''run, step, attempt, and model IDs are required'')
      else if mr_MaxOutputTokens req \<le> 0
           \<or> (0 < cp_MaxOutputTokens caps \<and> cp_MaxOutputTokens caps < mr_MaxOutputTokens req)
      then Some (perr PkInvalidRequest ''invalid output token limit'')
      else if mr_Tools req \<noteq> [] \<and> \<not> cp_ToolCalling caps
      then Some (perr PkUnsupported ''model does not support tool calling'')
      else if (case mr_NativeState req of None \<Rightarrow> False | Some s \<Rightarrow> ns_Provider s \<noteq> providerName)
      then Some (perr PkUnsupported ''cross-provider native state is not portable'')
      else validate_messages (mr_Messages req))"

text \<open>\<open>marshal\<close> is \<open>json.Marshal\<close> of the messages, tools and native state of a request.\<close>

definition InputTokenUpperBound ::
  "(message list \<Rightarrow> tool list \<Rightarrow> native_state option \<Rightarrow> go_error + bytes) \<Rightarrow> model_request \<Rightarrow> go_error + int" where
  "InputTokenUpperBound marshal r =
     (case marshal (mr_Messages r) (mr_Tools r) (mr_NativeState r) of
        Inl e \<Rightarrow> Inl e
      | Inr body \<Rightarrow> Inr (wrap64 (wrap64 (wrap64 (int (length body) + 1024) + int (length (mr_Messages r)) * 64)
                           + int (length (mr_Tools r)) * 256)))"

subsection \<open>Waits requested by a provider\<close>

text \<open>Whatever a provider sends, the wait is neither negative nor wrapped around.\<close>

lemma retry_after_bounds: "0 \<le> ParseRetryAfter parse_time v now \<and> ParseRetryAfter parse_time v now \<le> max_int64"
proof -
  have "wrap64 (n * nanos_per_second) = n * nanos_per_second"
    if "0 < n" "n \<le> max_int64 sdiv nanos_per_second" for n
    using that by (intro wrap64_id) (simp add: nanos_per_second_def int64_defs signed_divide_int_def)
  moreover have "n * nanos_per_second \<le> max_int64" if "n \<le> max_int64 sdiv nanos_per_second" for n
    using that by (simp add: nanos_per_second_def int64_defs signed_divide_int_def)
  ultimately show ?thesis
    by (auto simp: ParseRetryAfter_def Let_def time_Sub_def int64_defs nanos_per_second_def split: option.split)
qed

end
