(* ===== verification/Provider_Assembly.thy ===== *)
theory Provider_Assembly
  imports Provider_Types
begin

section \<open>Assembling a model turn from its stream (internal/provider/assembly.go)\<close>

text \<open>
  An adapter feeds the pieces of a provider's stream into an \<open>assembly\<close>, which checks them, reports
  them to the consumer as events, and yields the turn when the attempt is complete. \<open>as_Sent\<close> lists the
  events handed to the consumer; \<open>emit\<close> is its answer to an event, or \<open>None\<close> for a nil callback, and \<open>ctx\<close>
  what \<open>ctx.Err()\<close> reports at that moment. The JSON schema package is \<open>schema_lib\<close>: loading a resource,
  compiling it, and validating a value.
\<close>

record schema_lib =
  sx_AddResource :: "jvalue \<Rightarrow> bool"
  sx_Compile :: "jvalue \<Rightarrow> bool"
  sx_Validate :: "jvalue \<Rightarrow> jvalue \<Rightarrow> bool"

record pending_call =
  pc_Name :: string
  pc_Args :: bytes
  pc_Done :: bool

record assembly =
  as_Req :: model_request
  as_Limits :: stream_limits
  as_Seq :: int
  as_Calls :: "(string \<times> pending_call) list"
  as_Order :: "string list"
  as_Schemas :: "(string \<times> jvalue) list"
  as_Text :: string
  as_Usage :: usage
  as_NativeBytes :: int
  as_Sent :: "model_event list"

type_synonym emit_fun = "(model_event \<Rightarrow> go_error option) option"

subsection \<open>Decoding objects\<close>

text \<open>
  \<open>decodeObject\<close> walks the tokens of \<open>json.Decoder\<close>. \<open>depth\<close> is that of the value, scalars included. A
  repeated key is an error. Every call of the recursion consumes a token or opens one level, so twice
  the length of the input is enough fuel.
\<close>

function (sequential) read_value :: "nat \<Rightarrow> int \<Rightarrow> int \<Rightarrow> string \<Rightarrow> (jvalue \<times> string) option"
and read_elems :: "nat \<Rightarrow> int \<Rightarrow> int \<Rightarrow> string \<Rightarrow> (jvalue list \<times> string) option"
and read_members :: "nat \<Rightarrow> int \<Rightarrow> int \<Rightarrow> (string \<times> jvalue) list \<Rightarrow> string \<Rightarrow> ((string \<times> jvalue) list \<times> string) option" where
  "read_value 0 maxDepth depth s = None"
| "read_value (Suc k) maxDepth depth s =
     (if maxDepth < depth then None
      else case skip_ws s of
        [] \<Rightarrow> None
      | c # r \<Rightarrow>
          if c = CHR ''{'' then
            (if take 1 (skip_ws r) = ''}'' then Some (JObject [], drop 1 (skip_ws r))
             else map_option (\<lambda>(m, q). (JObject m, q)) (read_members k maxDepth (depth + 1) [] r))
          else if c = CHR ''['' then
            (if take 1 (skip_ws r) = '']'' then Some (JArray [], drop 1 (skip_ws r))
             else map_option (\<lambda>(xs, q). (JArray xs, q)) (read_elems k maxDepth (depth + 1) r))
          else if c = CHR 0x22 then
            map_option (\<lambda>(t, q). (JString t, q)) (parse_str (length r) r)
          else if c = CHR ''t'' then
            map_option (\<lambda>q. (JBool True, q)) (strip_prefix ''true'' (c # r))
          else if c = CHR ''f'' then
            map_option (\<lambda>q. (JBool False, q)) (strip_prefix ''false'' (c # r))
          else if c = CHR ''n'' then
            map_option (\<lambda>q. (JNull, q)) (strip_prefix ''null'' (c # r))
          else map_option (\<lambda>(n, q). (JNumber n, q)) (parse_number (c # r)))"
| "read_elems 0 maxDepth depth s = None"
| "read_elems (Suc k) maxDepth depth s =
     (case read_value k maxDepth depth s of
        None \<Rightarrow> None
      | Some (v, r) \<Rightarrow>
          (case skip_ws r of
             c # q \<Rightarrow>
               if c = CHR '','' then map_option (\<lambda>(vs, t). (v # vs, t)) (read_elems k maxDepth depth q)
               else if c = CHR '']'' then Some ([v], q)
               else None
           | [] \<Rightarrow> None))"
| "read_members 0 maxDepth depth m s = None"
| "read_members (Suc k) maxDepth depth m s =
     (case skip_ws s of
        [] \<Rightarrow> None
      | c # r \<Rightarrow>
          if c \<noteq> CHR 0x22 then None
          else
            (case parse_str (length r) r of
               None \<Rightarrow> None
             | Some (key, r1) \<Rightarrow>
                 if map_of m key \<noteq> None then None
                 else
                   (case skip_ws r1 of
                      [] \<Rightarrow> None
                    | c1 # r2 \<Rightarrow>
                        if c1 \<noteq> CHR '':'' then None
                        else
                          (case read_value k maxDepth depth r2 of
                             None \<Rightarrow> None
                           | Some (v, r3) \<Rightarrow>
                               (case skip_ws r3 of
                                  [] \<Rightarrow> None
                                | c2 # r4 \<Rightarrow>
                                    if c2 = CHR '','' then read_members k maxDepth depth (map_put key v m) r4
                                    else if c2 = CHR ''}'' then Some (map_put key v m, r4)
                                    else None)))))"
  by pat_completeness auto
termination
  by (relation "measure (\<lambda>x. case x of
        Inl (k, _) \<Rightarrow> k
      | Inr (Inl (k, _)) \<Rightarrow> k
      | Inr (Inr (k, _)) \<Rightarrow> k)") auto

definition decodeObject :: "bytes \<Rightarrow> int \<Rightarrow> jvalue option" where
  "decodeObject raw maxDepth =
     (case read_value (Suc (Suc (length raw + length raw))) maxDepth 1 raw of
        None \<Rightarrow> None
      | Some (v, r) \<Rightarrow>
          (case v of
             JObject m \<Rightarrow> if skip_ws r = [] then Some v else None
           | _ \<Rightarrow> None))"

subsection \<open>Starting an attempt\<close>

fun compile_tools :: "schema_lib \<Rightarrow> stream_limits \<Rightarrow> tool list \<Rightarrow> (string \<times> jvalue) list
    \<Rightarrow> provider_error + (string \<times> jvalue) list" where
  "compile_tools lib limits [] schemas = Inr schemas"
| "compile_tools lib limits (t # ts) schemas =
     (if tl_Name t = [] \<or> 128 < length (tl_Name t) \<or> map_of schemas (tl_Name t) \<noteq> None
      then Inl (perr PkInvalidRequest ''invalid or duplicate tool name'')
      else if sl_MaxArgumentBytes limits < int (length (tl_Schema t))
      then Inl (perr PkLimit ''tool schema too large'')
      else case decodeObject (tl_Schema t) 64 of
          None \<Rightarrow> Inl (perr PkInvalidRequest ''invalid tool schema'')
        | Some v \<Rightarrow>
            if \<not> sx_AddResource lib v then Inl (perr PkInvalidRequest ''invalid tool schema'')
            else if \<not> sx_Compile lib v then Inl (perr PkInvalidRequest ''tool schema compilation failed'')
            else compile_tools lib limits ts (schemas @ [(tl_Name t, v)]))"

definition zero_count :: token_count where
  "zero_count = \<lparr>tk_Value = 0, tk_Known = False\<rparr>"

definition zero_usage :: usage where
  "zero_usage = \<lparr>us_Final = False, us_Input = zero_count, us_Output = zero_count, us_CacheRead = zero_count,
     us_CacheWrite = zero_count\<rparr>"

definition newAssembly :: "schema_lib \<Rightarrow> model_request \<Rightarrow> stream_limits \<Rightarrow> provider_error + assembly" where
  "newAssembly lib req limits0 =
     (let limits = Limits_normalized limits0
      in case compile_tools lib limits (mr_Tools req) [] of
          Inl e \<Rightarrow> Inl e
        | Inr schemas \<Rightarrow> Inr \<lparr>as_Req = req, as_Limits = limits, as_Seq = 0, as_Calls = [], as_Order = [],
            as_Schemas = schemas, as_Text = [], as_Usage = zero_usage, as_NativeBytes = 0, as_Sent = []\<rparr>)"

subsection \<open>Feeding the stream\<close>

definition asm_event :: "emit_fun \<Rightarrow> go_error option \<Rightarrow> event_type \<Rightarrow> string \<Rightarrow> string \<Rightarrow> string \<Rightarrow> usage option
    \<Rightarrow> provider_kind option \<Rightarrow> assembly \<Rightarrow> assembly \<times> provider_error option" where
  "asm_event emit ctx kind delta callID name usage ekind a =
     (case (if kind \<noteq> EvAttemptFailed then ctx else None) of
        Some e \<Rightarrow> (a, Some (classify e))
      | None \<Rightarrow>
          (let a1 = a\<lparr>as_Seq := wrap64 (as_Seq a + 1)\<rparr>;
               ev = \<lparr>me_Type = kind, me_RunID = mr_RunID (as_Req a), me_StepID = mr_StepID (as_Req a),
                     me_AttemptID = mr_AttemptID (as_Req a), me_Sequence = as_Seq a1,
                     me_Provisional = (kind = EvTextDelta \<or> kind = EvToolDelta), me_Delta = delta,
                     me_CallID = callID, me_ToolName = name, me_Usage = usage, me_ErrorKind = ekind\<rparr>
           in case emit of
               None \<Rightarrow> (a1, None)
             | Some f \<Rightarrow>
                 (a1\<lparr>as_Sent := as_Sent a1 @ [ev]\<rparr>,
                  (case f ev of
                     None \<Rightarrow> None
                   | Some _ \<Rightarrow> Some (perr PkConsumer ''event consumer rejected output'')))))"

definition textDelta :: "emit_fun \<Rightarrow> go_error option \<Rightarrow> string \<Rightarrow> assembly \<Rightarrow> assembly \<times> provider_error option" where
  "textDelta emit ctx delta a =
     (if sl_MaxTextBytes (as_Limits a) - int (length (as_Text a)) < int (length delta)
      then (a, Some (perr PkLimit ''visible text too large''))
      else asm_event emit ctx EvTextDelta delta [] [] None None (a\<lparr>as_Text := as_Text a @ delta\<rparr>))"

definition begin_call :: "string \<Rightarrow> string \<Rightarrow> assembly \<Rightarrow> assembly \<times> provider_error option" where
  "begin_call i name a =
     (if i = [] \<or> 256 < length i \<or> name = [] then (a, Some (perr PkProtocol ''missing tool identity''))
      else if map_of (as_Calls a) i \<noteq> None then (a, Some (perr PkProtocol ''duplicate tool call ID''))
      else if map_of (as_Schemas a) name = None
      then (a, Some (perr PkProtocol ''model called an unregistered tool''))
      else if sl_MaxCalls (as_Limits a) \<le> int (length (as_Calls a))
      then (a, Some (perr PkLimit ''too many tool calls''))
      else (a\<lparr>as_Calls := as_Calls a @ [(i, \<lparr>pc_Name = name, pc_Args = [], pc_Done = False\<rparr>)],
              as_Order := as_Order a @ [i]\<rparr>, None))"

definition upd_call :: "string \<Rightarrow> (pending_call \<Rightarrow> pending_call) \<Rightarrow> (string \<times> pending_call) list
    \<Rightarrow> (string \<times> pending_call) list" where
  "upd_call i f calls = map (\<lambda>e. if fst e = i then (fst e, f (snd e)) else e) calls"

definition arguments :: "emit_fun \<Rightarrow> go_error option \<Rightarrow> string \<Rightarrow> string \<Rightarrow> assembly
    \<Rightarrow> assembly \<times> provider_error option" where
  "arguments emit ctx i delta a =
     (case map_of (as_Calls a) i of
        None \<Rightarrow> (a, Some (perr PkProtocol ''arguments outside an open tool call''))
      | Some call \<Rightarrow>
          if pc_Done call then (a, Some (perr PkProtocol ''arguments outside an open tool call''))
          else if sl_MaxArgumentBytes (as_Limits a) - int (length (pc_Args call)) < int (length delta)
          then (a, Some (perr PkLimit ''tool arguments too large''))
          else asm_event emit ctx EvToolDelta delta i (pc_Name call) None None
                 (a\<lparr>as_Calls := upd_call i (\<lambda>c. c\<lparr>pc_Args := pc_Args c @ delta\<rparr>) (as_Calls a)\<rparr>))"

definition end_call :: "schema_lib \<Rightarrow> string \<Rightarrow> assembly \<Rightarrow> assembly \<times> provider_error option" where
  "end_call lib i a =
     (case map_of (as_Calls a) i of
        None \<Rightarrow> (a, Some (perr PkProtocol ''duplicate or unknown tool completion''))
      | Some call \<Rightarrow>
          if pc_Done call then (a, Some (perr PkProtocol ''duplicate or unknown tool completion''))
          else case decodeObject (pc_Args call) (sl_MaxJSONDepth (as_Limits a)) of
              None \<Rightarrow> (a, Some (perr PkProtocol ''invalid tool argument JSON''))
            | Some v \<Rightarrow>
                if \<not> sx_Validate lib (the (map_of (as_Schemas a) (pc_Name call))) v
                then (a, Some (perr PkProtocol ''tool arguments fail schema''))
                else (a\<lparr>as_Calls := upd_call i (\<lambda>c. c\<lparr>pc_Done := True\<rparr>) (as_Calls a)\<rparr>, None))"

definition confirm :: "string \<Rightarrow> string \<Rightarrow> bytes \<Rightarrow> assembly \<Rightarrow> assembly \<times> provider_error option" where
  "confirm i name args a =
     (case map_of (as_Calls a) i of
        None \<Rightarrow> (a, Some (perr PkProtocol ''final tool call differs from streamed call''))
      | Some call \<Rightarrow>
          if pc_Name call \<noteq> name \<or> pc_Args call \<noteq> args
          then (a, Some (perr PkProtocol ''final tool call differs from streamed call'')) else (a, None))"

definition recordNative :: "bytes \<Rightarrow> assembly \<Rightarrow> assembly \<times> provider_error option" where
  "recordNative raw a =
     (if sl_MaxNativeBytes (as_Limits a) - as_NativeBytes a < int (length raw)
      then (a, Some (perr PkLimit ''native response too large''))
      else (a\<lparr>as_NativeBytes := as_NativeBytes a + int (length raw)\<rparr>, None))"

subsection \<open>Ending the attempt\<close>

definition usage_counts :: "usage \<Rightarrow> token_count list" where
  "usage_counts u = [us_Input u, us_Output u, us_CacheRead u, us_CacheWrite u]"

fun turn_calls :: "(string \<times> pending_call) list \<Rightarrow> string list \<Rightarrow> tool_call list option" where
  "turn_calls calls [] = Some []"
| "turn_calls calls (i # is) =
     (case map_of calls i of
        None \<Rightarrow> None
      | Some c \<Rightarrow>
          if \<not> pc_Done c then None
          else map_option (\<lambda>cs. \<lparr>tc_ID = i, tc_Name = pc_Name c, tc_Arguments = pc_Args c\<rparr> # cs) (turn_calls calls is))"

definition asm_finish :: "emit_fun \<Rightarrow> go_error option \<Rightarrow> string \<Rightarrow> native_state option \<Rightarrow> string \<Rightarrow> assembly
    \<Rightarrow> assembly \<times> (provider_error + model_turn)" where
  "asm_finish emit ctx reason state requestID a0 =
     (if list_ex (\<lambda>c. tk_Known c \<and> tk_Value c < 0) (usage_counts (as_Usage a0))
      then (a0, Inl (perr PkProtocol ''negative provider usage''))
      else
        (let a = a0\<lparr>as_Usage := (as_Usage a0)\<lparr>us_Final := True\<rparr>\<rparr>
         in case turn_calls (as_Calls a) (as_Order a) of
             None \<Rightarrow> (a, Inl (perr PkInterrupted ''tool call was not completed''))
           | Some cs \<Rightarrow>
               (case asm_event emit ctx EvAttemptCompleted [] [] [] (Some (as_Usage a)) None a of
                  (a', Some e) \<Rightarrow> (a', Inl e)
                | (a', None) \<Rightarrow> (a', Inr \<lparr>tu_RunID = mr_RunID (as_Req a), tu_StepID = mr_StepID (as_Req a),
                    tu_AttemptID = mr_AttemptID (as_Req a), tu_Text = as_Text a, tu_ToolCalls = cs, tu_Usage = as_Usage a,
                    tu_FinishReason = reason, tu_NativeState = state, tu_ProviderModel = [],
                    tu_ProviderRequestID = requestID\<rparr>))))"

definition cleared :: "token_count \<Rightarrow> token_count" where
  "cleared c = (if tk_Value c < 0 then zero_count else c)"

definition asm_fail :: "emit_fun \<Rightarrow> go_error \<Rightarrow> assembly \<Rightarrow> assembly \<times> model_turn \<times> provider_error" where
  "asm_fail emit err a0 =
     (let p = classify err; u = as_Usage a0;
          a = a0\<lparr>as_Usage := \<lparr>us_Final = False, us_Input = cleared (us_Input u), us_Output = cleared (us_Output u),
                us_CacheRead = cleared (us_CacheRead u), us_CacheWrite = cleared (us_CacheWrite u)\<rparr>\<rparr>;
          a' = fst (asm_event emit None EvAttemptFailed [] [] [] (Some (as_Usage a)) (Some (pv_Kind p)) a)
      in (a', \<lparr>tu_RunID = mr_RunID (as_Req a), tu_StepID = mr_StepID (as_Req a), tu_AttemptID = mr_AttemptID (as_Req a),
            tu_Text = [], tu_ToolCalls = [], tu_Usage = as_Usage a, tu_FinishReason = [], tu_NativeState = None,
            tu_ProviderModel = [], tu_ProviderRequestID = []\<rparr>, p))"

subsection \<open>An attempt\<close>

text \<open>What an adapter does with its assembly, and an attempt: it ends at the first error.\<close>

datatype asm_op =
    AoText string
  | AoBegin string string
  | AoArguments string string
  | AoEnd string
  | AoConfirm string string bytes
  | AoNative bytes
  | AoUsage usage

fun asm_apply :: "schema_lib \<Rightarrow> emit_fun \<Rightarrow> go_error option \<Rightarrow> asm_op \<Rightarrow> assembly \<Rightarrow> assembly \<times> provider_error option" where
  "asm_apply lib emit ctx (AoText delta) a = textDelta emit ctx delta a"
| "asm_apply lib emit ctx (AoBegin i name) a = begin_call i name a"
| "asm_apply lib emit ctx (AoArguments i delta) a = arguments emit ctx i delta a"
| "asm_apply lib emit ctx (AoEnd i) a = end_call lib i a"
| "asm_apply lib emit ctx (AoConfirm i name args) a = confirm i name args a"
| "asm_apply lib emit ctx (AoNative raw) a = recordNative raw a"
| "asm_apply lib emit ctx (AoUsage u) a = (a\<lparr>as_Usage := u\<rparr>, None)"

fun asm_run :: "schema_lib \<Rightarrow> emit_fun \<Rightarrow> (go_error option \<times> asm_op) list \<Rightarrow> assembly \<Rightarrow> assembly \<times> provider_error option" where
  "asm_run lib emit [] a = (a, None)"
| "asm_run lib emit ((ctx, op) # ops) a =
     (case asm_apply lib emit ctx op a of
        (a', Some e) \<Rightarrow> (a', Some e)
      | (a', None) \<Rightarrow> asm_run lib emit ops a')"

end
