(* ===== verification/Provider_Turn.thy ===== *)
theory Provider_Turn
  imports Provider_Assembly
begin

section \<open>A completed turn is what was streamed\<close>

text \<open>
  The invariant of an attempt relates the assembly to the operations that made it. Its consequence is
  that an executable tool call has the name and exactly the arguments that were streamed, and that
  these are one JSON object which the schema of a registered tool accepts.
\<close>

subsection \<open>What the operations stream\<close>

fun op_text :: "asm_op \<Rightarrow> string" where
  "op_text (AoText d) = d"
| "op_text _ = []"

fun op_args :: "string \<Rightarrow> asm_op \<Rightarrow> bytes" where
  "op_args i (AoArguments j d) = (if j = i then d else [])"
| "op_args i _ = []"

fun op_begin :: "asm_op \<Rightarrow> (string \<times> string) list" where
  "op_begin (AoBegin i n) = [(i, n)]"
| "op_begin _ = []"

definition text_of :: "asm_op list \<Rightarrow> string" where
  "text_of ops = concat (map op_text ops)"

definition args_of :: "string \<Rightarrow> asm_op list \<Rightarrow> bytes" where
  "args_of i ops = concat (map (op_args i) ops)"

definition begins_of :: "asm_op list \<Rightarrow> (string \<times> string) list" where
  "begins_of ops = concat (map op_begin ops)"

lemma of_append [simp]:
  "text_of (ops @ [op]) = text_of ops @ op_text op"
  "args_of i (ops @ [op]) = args_of i ops @ op_args i op"
  "begins_of (ops @ [op]) = begins_of ops @ op_begin op"
  by (simp_all add: text_of_def args_of_def begins_of_def)

lemma of_Nil [simp]: "text_of [] = []" "args_of i [] = []" "begins_of [] = []"
  by (simp_all add: text_of_def args_of_def begins_of_def)

subsection \<open>The invariant of an attempt\<close>

definition sent_text :: "assembly \<Rightarrow> string" where
  "sent_text a = concat (map me_Delta (filter (\<lambda>e. me_Type e = EvTextDelta) (as_Sent a)))"

definition call_ok :: "schema_lib \<Rightarrow> assembly \<Rightarrow> asm_op list \<Rightarrow> string \<times> pending_call \<Rightarrow> bool" where
  "call_ok lib a ops e \<longleftrightarrow> pc_Args (snd e) = args_of (fst e) ops
     \<and> int (length (pc_Args (snd e))) \<le> sl_MaxArgumentBytes (as_Limits a)
     \<and> map_of (as_Schemas a) (pc_Name (snd e)) \<noteq> None
     \<and> (pc_Done (snd e) \<longrightarrow> (\<exists>v. decodeObject (pc_Args (snd e)) (sl_MaxJSONDepth (as_Limits a)) = Some v
          \<and> sx_Validate lib (the (map_of (as_Schemas a) (pc_Name (snd e)))) v))"

definition asm_inv :: "schema_lib \<Rightarrow> emit_fun \<Rightarrow> asm_op list \<Rightarrow> assembly \<Rightarrow> bool" where
  "asm_inv lib emit ops a \<longleftrightarrow>
     map (\<lambda>e. (fst e, pc_Name (snd e))) (as_Calls a) = begins_of ops
     \<and> as_Order a = map fst (as_Calls a) \<and> distinct (map fst (as_Calls a))
     \<and> int (length (as_Calls a)) \<le> sl_MaxCalls (as_Limits a)
     \<and> (\<forall>e \<in> set (as_Calls a). call_ok lib a ops e)
     \<and> (\<forall>i. i \<notin> fst ` set (as_Calls a) \<longrightarrow> args_of i ops = [])
     \<and> as_Text a = text_of ops \<and> int (length (as_Text a)) \<le> sl_MaxTextBytes (as_Limits a)
     \<and> 0 < sl_MaxArgumentBytes (as_Limits a) \<and> (emit \<noteq> None \<longrightarrow> sent_text a = text_of ops)"

lemma asm_event_ok:
  assumes "asm_event emit ctx kind delta i n u k a = (a', None)"
  obtains ev where "a' = a\<lparr>as_Seq := wrap64 (as_Seq a + 1), as_Sent := as_Sent a @ (if emit = None then [] else [ev])\<rparr>"
    and "me_Type ev = kind" and "me_Delta ev = delta"
proof -
  define ev where "ev = \<lparr>me_Type = kind, me_RunID = mr_RunID (as_Req a), me_StepID = mr_StepID (as_Req a),
     me_AttemptID = mr_AttemptID (as_Req a), me_Sequence = wrap64 (as_Seq a + 1),
     me_Provisional = (kind = EvTextDelta \<or> kind = EvToolDelta), me_Delta = delta,
     me_CallID = i, me_ToolName = n, me_Usage = u, me_ErrorKind = k\<rparr>"
  show thesis
    by (rule that [of ev])
      (use assms in \<open>auto simp: asm_event_def ev_def Let_def split: option.splits if_splits\<close>)
qed

lemma map_of_upd_call: "map_of (upd_call i f calls) j = (if j = i then map_option f (map_of calls i) else map_of calls j)"
  by (induction calls) (auto simp: upd_call_def)

lemma upd_call_fst [simp]: "map fst (upd_call i f calls) = map fst calls" "length (upd_call i f calls) = length calls"
  by (auto simp: upd_call_def)

lemma upd_call_names: "(\<And>c. pc_Name (f c) = pc_Name c) \<Longrightarrow>
    map (\<lambda>e. (fst e, pc_Name (snd e))) (upd_call i f calls) = map (\<lambda>e. (fst e, pc_Name (snd e))) calls"
  by (auto simp: upd_call_def)

lemma upd_call_fst_image [simp]: "fst ` set (upd_call i f calls) = fst ` set calls"
  by (metis upd_call_fst(1) list.set_map)

lemma in_upd_call:
  "e \<in> set (upd_call i f calls) \<longleftrightarrow> (\<exists>c \<in> set calls. e = (if fst c = i then (fst c, f (snd c)) else c))"
  by (simp only: upd_call_def set_map image_iff)

lemma only_call: "distinct (map fst calls) \<Longrightarrow> (i, c) \<in> set calls \<Longrightarrow> map_of calls i = Some c' \<Longrightarrow> c = c'"
  by (metis map_of_is_SomeI option.inject)

lemma inv_text:
  assumes "asm_inv lib emit ops a" and "textDelta emit ctx delta a = (a', None)"
  shows "asm_inv lib emit (ops @ [AoText delta]) a'"
proof -
  have room: "int (length (as_Text a)) + int (length delta) \<le> sl_MaxTextBytes (as_Limits a)"
    and "asm_event emit ctx EvTextDelta delta [] [] None None (a\<lparr>as_Text := as_Text a @ delta\<rparr>) = (a', None)"
    using assms(2) by (auto simp: textDelta_def split: if_splits)
  then obtain ev where "a' = a\<lparr>as_Text := as_Text a @ delta, as_Seq := wrap64 (as_Seq a + 1),
        as_Sent := as_Sent a @ (if emit = None then [] else [ev])\<rparr>"
    and "me_Type ev = EvTextDelta" "me_Delta ev = delta" by (elim asm_event_ok) auto
  then show ?thesis using assms(1) room by (auto simp: asm_inv_def call_ok_def sent_text_def)
qed

lemma inv_begin:
  assumes "asm_inv lib emit ops a" and "begin_call i n a = (a', None)"
  shows "asm_inv lib emit (ops @ [AoBegin i n]) a'"
proof -
  have new: "map_of (as_Calls a) i = None" and n: "map_of (as_Schemas a) n \<noteq> None"
    and cap: "int (length (as_Calls a)) < sl_MaxCalls (as_Limits a)"
    and a': "a' = a\<lparr>as_Calls := as_Calls a @ [(i, \<lparr>pc_Name = n, pc_Args = [], pc_Done = False\<rparr>)], as_Order := as_Order a @ [i]\<rparr>"
    using assms(2) by (auto simp: begin_call_def split: if_splits)
  have "i \<notin> fst ` set (as_Calls a)" using new by (simp add: map_of_eq_None_iff)
  moreover from this have "args_of i ops = []" using assms(1) by (simp add: asm_inv_def)
  ultimately show ?thesis using assms(1) n cap by (auto simp: asm_inv_def call_ok_def a' sent_text_def)
qed

lemma inv_arguments:
  assumes inv: "asm_inv lib emit ops a" and ok: "arguments emit ctx i delta a = (a', None)"
  shows "asm_inv lib emit (ops @ [AoArguments i delta]) a'"
proof -
  obtain c where c: "map_of (as_Calls a) i = Some c" "\<not> pc_Done c"
      and room: "int (length (pc_Args c)) + int (length delta) \<le> sl_MaxArgumentBytes (as_Limits a)"
      and ev: "asm_event emit ctx EvToolDelta delta i (pc_Name c) None None
         (a\<lparr>as_Calls := upd_call i (\<lambda>c. c\<lparr>pc_Args := pc_Args c @ delta\<rparr>) (as_Calls a)\<rparr>) = (a', None)"
    using ok by (auto simp: arguments_def split: option.splits if_splits)
  obtain e where a': "a' = a\<lparr>as_Calls := upd_call i (\<lambda>c. c\<lparr>pc_Args := pc_Args c @ delta\<rparr>) (as_Calls a),
      as_Seq := wrap64 (as_Seq a + 1), as_Sent := as_Sent a @ (if emit = None then [] else [e])\<rparr>" "me_Type e = EvToolDelta"
    using ev by (elim asm_event_ok) auto
  have dist: "distinct (map fst (as_Calls a))" using inv by (simp add: asm_inv_def)
  have "call_ok lib a' (ops @ [AoArguments i delta]) e" if e: "e \<in> set (as_Calls a')" for e
  proof -
    obtain d where d: "d \<in> set (as_Calls a)" "e = (if fst d = i then (fst d, (snd d)\<lparr>pc_Args := pc_Args (snd d) @ delta\<rparr>) else d)"
      using e unfolding a' by (auto simp: in_upd_call)
    have "call_ok lib a ops d" using inv d(1) by (simp add: asm_inv_def)
    moreover have "fst d = i \<Longrightarrow> snd d = c" using only_call [OF dist, of i "snd d" c] d(1) c(1) by (cases d) auto
    ultimately show ?thesis using d(2) c(2) room by (auto simp: call_ok_def a')
  qed
  moreover have "i \<in> fst ` set (as_Calls a)" using c(1) by (metis map_of_eq_None_iff option.distinct(1))
  ultimately show ?thesis using inv by (auto simp: asm_inv_def a' upd_call_names sent_text_def)
qed

lemma inv_end:
  assumes inv: "asm_inv lib emit ops a" and ok: "end_call lib i a = (a', None)"
  shows "asm_inv lib emit (ops @ [AoEnd i]) a'"
proof -
  obtain c v where c: "map_of (as_Calls a) i = Some c"
      and v: "decodeObject (pc_Args c) (sl_MaxJSONDepth (as_Limits a)) = Some v"
        "sx_Validate lib (the (map_of (as_Schemas a) (pc_Name c))) v"
      and a': "a' = a\<lparr>as_Calls := upd_call i (\<lambda>c. c\<lparr>pc_Done := True\<rparr>) (as_Calls a)\<rparr>"
    using ok by (auto simp: end_call_def split: option.splits if_splits)
  have dist: "distinct (map fst (as_Calls a))" using inv by (simp add: asm_inv_def)
  have "call_ok lib a' (ops @ [AoEnd i]) e" if e: "e \<in> set (as_Calls a')" for e
  proof -
    obtain d where d: "d \<in> set (as_Calls a)" "e = (if fst d = i then (fst d, (snd d)\<lparr>pc_Done := True\<rparr>) else d)"
      using e unfolding a' by (auto simp: in_upd_call)
    have "call_ok lib a ops d" using inv d(1) by (simp add: asm_inv_def)
    moreover have "fst d = i \<Longrightarrow> snd d = c" using only_call [OF dist, of i "snd d" c] d(1) c(1) by (cases d) auto
    ultimately show ?thesis using d(2) v by (auto simp: call_ok_def a')
  qed
  then show ?thesis using inv by (auto simp: asm_inv_def a' upd_call_names sent_text_def)
qed

lemma inv_keep:
  assumes "asm_inv lib emit ops a" and "op_text op = []" "\<And>i. op_args i op = []" "op_begin op = []"
    and "as_Calls a' = as_Calls a" "as_Order a' = as_Order a" "as_Limits a' = as_Limits a" "as_Schemas a' = as_Schemas a"
      "as_Text a' = as_Text a" "as_Sent a' = as_Sent a"
  shows "asm_inv lib emit (ops @ [op]) a'"
  using assms(1) unfolding asm_inv_def call_ok_def sent_text_def of_append assms(2-) append_Nil2 .

lemma inv_apply:
  assumes "asm_inv lib emit ops a" and "asm_apply lib emit ctx op a = (a', None)"
  shows "asm_inv lib emit (ops @ [op]) a'"
proof (cases op)
  case (AoConfirm i n args)
  then have "a' = a" using assms(2) by (auto simp: confirm_def split: option.splits if_splits)
  then show ?thesis using inv_keep [OF assms(1)] AoConfirm by simp
next
  case (AoNative raw)
  then show ?thesis using assms(2) by (intro inv_keep [OF assms(1)]) (auto simp: recordNative_def split: if_splits)
next
  case (AoUsage u)
  then show ?thesis using assms(2) by (intro inv_keep [OF assms(1)]) auto
qed (use assms inv_text inv_begin inv_arguments inv_end in auto)

lemma inv_run: "asm_inv lib emit pre a \<Longrightarrow> asm_run lib emit ops a = (a', None) \<Longrightarrow> asm_inv lib emit (pre @ map snd ops) a'"
proof (induction ops arbitrary: pre a)
  case Nil
  then show ?case by simp
next
  case (Cons x ops)
  obtain ctx op where x: "x = (ctx, op)" by fastforce
  then obtain b where b: "asm_apply lib emit ctx op a = (b, None)" "asm_run lib emit ops b = (a', None)"
    using Cons.prems(2) by (auto split: prod.splits option.splits)
  show ?case using Cons.IH [OF inv_apply [OF Cons.prems(1) b(1)] b(2)] x by simp
qed

text \<open>What no operation changes.\<close>

lemma fixed_apply:
  "asm_apply lib emit ctx op a = (a', e) \<Longrightarrow> as_Limits a' = as_Limits a \<and> as_Schemas a' = as_Schemas a \<and> as_Req a' = as_Req a"
  by (cases op) (auto simp: textDelta_def begin_call_def arguments_def end_call_def confirm_def recordNative_def
      asm_event_def Let_def split: if_splits option.splits)

lemma fixed_run:
  "asm_run lib emit ops a = (a', e) \<Longrightarrow> as_Limits a' = as_Limits a \<and> as_Schemas a' = as_Schemas a \<and> as_Req a' = as_Req a"
proof (induction ops arbitrary: a)
  case (Cons x ops)
  obtain ctx op b f where "x = (ctx, op)" "asm_apply lib emit ctx op a = (b, f)" by (metis surj_pair)
  then show ?case using Cons fixed_apply [of lib emit ctx op a b f] by (auto split: option.splits)
qed simp

lemma compiled_tools:
  "compile_tools lib limits ts schemas = Inr out \<Longrightarrow> map_of out n = Some v \<Longrightarrow>
     map_of schemas n = Some v \<or> (\<exists>t \<in> set ts. tl_Name t = n \<and> decodeObject (tl_Schema t) 64 = Some v)"
  by (induction ts arbitrary: schemas) (fastforce split: if_splits option.splits)+

lemma turn_calls_all:
  "turn_calls calls is = Some cs \<Longrightarrow> is = map fst calls' \<Longrightarrow> set calls' \<subseteq> set calls \<Longrightarrow> distinct (map fst calls) \<Longrightarrow>
     cs = map (\<lambda>e. \<lparr>tc_ID = fst e, tc_Name = pc_Name (snd e), tc_Arguments = pc_Args (snd e)\<rparr>) calls'
     \<and> (\<forall>e \<in> set calls'. pc_Done (snd e))"
proof (induction "is" arbitrary: cs calls')
  case (Cons i "is")
  then obtain c es where calls': "calls' = (i, c) # es" by (cases calls') auto
  then have "map_of calls i = Some c" using Cons.prems(3,4) by (simp add: map_of_is_SomeI)
  then obtain ds where "turn_calls calls is = Some ds" "pc_Done c"
      "cs = \<lparr>tc_ID = i, tc_Name = pc_Name c, tc_Arguments = pc_Args c\<rparr> # ds"
    using Cons.prems(1) by (auto split: if_splits)
  then show ?case using Cons.IH [of ds es] Cons.prems calls' by auto
qed simp

lemma new_inv:
  assumes "newAssembly lib req limits = Inr a"
  shows "asm_inv lib emit [] a" "as_Limits a = Limits_normalized limits" "as_Req a = req"
    and "compile_tools lib (Limits_normalized limits) (mr_Tools req) [] = Inr (as_Schemas a)"
  using assms by (auto simp: newAssembly_def asm_inv_def sent_text_def Limits_normalized_def Let_def split: sum.splits)

subsection \<open>The property\<close>

text \<open>
  C27. A completed attempt yields exactly what was streamed: the text is the concatenation of the text
  deltas, also as the consumer saw them; the tool calls are the calls that were opened, in that order,
  each under its own identifier, with the concatenation of its argument deltas, which is one JSON
  object without repeated keys that the schema of the registered tool accepts. Text, arguments and
  number of calls keep their limits.
\<close>

theorem completed_turn_exact:
  assumes "newAssembly lib req limits = Inr a0" and "asm_run lib emit ops a0 = (a, None)"
    and "asm_finish emit ctx reason state rid a = (a', Inr turn)"
  shows "tu_Text turn = text_of (map snd ops) \<and> (emit = None \<or> sent_text a = tu_Text turn)
     \<and> int (length (tu_Text turn)) \<le> sl_MaxTextBytes (Limits_normalized limits)
     \<and> tu_ToolCalls turn = map (\<lambda>(i, n). \<lparr>tc_ID = i, tc_Name = n, tc_Arguments = args_of i (map snd ops)\<rparr>)
         (begins_of (map snd ops))
     \<and> distinct (map tc_ID (tu_ToolCalls turn))
     \<and> int (length (tu_ToolCalls turn)) \<le> sl_MaxCalls (Limits_normalized limits)
     \<and> (\<forall>c \<in> set (tu_ToolCalls turn). int (length (tc_Arguments c)) \<le> sl_MaxArgumentBytes (Limits_normalized limits)
          \<and> (\<exists>t v w. t \<in> set (mr_Tools req) \<and> tl_Name t = tc_Name c \<and> decodeObject (tl_Schema t) 64 = Some v
               \<and> decodeObject (tc_Arguments c) (sl_MaxJSONDepth (Limits_normalized limits)) = Some w \<and> sx_Validate lib v w))"
proof -
  have inv: "asm_inv lib emit (map snd ops) a" using inv_run [OF new_inv(1) [OF assms(1)] assms(2)] by simp
  have fixed: "as_Limits a = Limits_normalized limits" "compile_tools lib (Limits_normalized limits) (mr_Tools req) [] = Inr (as_Schemas a)"
    using fixed_run [OF assms(2)] new_inv(2,4) [OF assms(1)] by simp_all
  obtain cs where cs: "turn_calls (as_Calls a) (as_Order a) = Some cs" and turn: "tu_Text turn = as_Text a" "tu_ToolCalls turn = cs"
    using assms(3) by (auto simp: asm_finish_def Let_def split: if_splits option.splits prod.splits)
  have calls: "cs = map (\<lambda>e. \<lparr>tc_ID = fst e, tc_Name = pc_Name (snd e), tc_Arguments = pc_Args (snd e)\<rparr>) (as_Calls a)"
    "\<forall>e \<in> set (as_Calls a). pc_Done (snd e)"
    using turn_calls_all [OF cs, of "as_Calls a"] inv by (auto simp: asm_inv_def)
  have ok: "call_ok lib a (map snd ops) e" if "e \<in> set (as_Calls a)" for e using inv that by (simp add: asm_inv_def)
  have begins: "begins_of (map snd ops) = map (\<lambda>e. (fst e, pc_Name (snd e))) (as_Calls a)" using inv by (simp add: asm_inv_def)
  have "cs = map (\<lambda>(i, n). \<lparr>tc_ID = i, tc_Name = n, tc_Arguments = args_of i (map snd ops)\<rparr>) (begins_of (map snd ops))"
    using calls(1) ok by (auto simp: begins call_ok_def)
  moreover have "int (length (tc_Arguments c)) \<le> sl_MaxArgumentBytes (Limits_normalized limits)
      \<and> (\<exists>t v w. t \<in> set (mr_Tools req) \<and> tl_Name t = tc_Name c \<and> decodeObject (tl_Schema t) 64 = Some v
           \<and> decodeObject (tc_Arguments c) (sl_MaxJSONDepth (Limits_normalized limits)) = Some w \<and> sx_Validate lib v w)"
    if c: "c \<in> set cs" for c
  proof -
    obtain e where e: "e \<in> set (as_Calls a)" "c = \<lparr>tc_ID = fst e, tc_Name = pc_Name (snd e), tc_Arguments = pc_Args (snd e)\<rparr>"
      using c calls(1) by auto
    obtain v where v: "map_of (as_Schemas a) (tc_Name c) = Some v" using ok [OF e(1)] e(2) by (auto simp: call_ok_def)
    show ?thesis using ok [OF e(1)] calls(2) e compiled_tools [OF fixed(2) v] v fixed(1) by (fastforce simp: call_ok_def)
  qed
  moreover have "distinct (map tc_ID cs)" "int (length cs) \<le> sl_MaxCalls (Limits_normalized limits)"
    "as_Text a = text_of (map snd ops)" "emit = None \<or> sent_text a = as_Text a"
    "int (length (as_Text a)) \<le> sl_MaxTextBytes (Limits_normalized limits)"
    using inv calls(1) fixed(1) by (auto simp: asm_inv_def o_def)
  ultimately show ?thesis unfolding turn by (intro conjI ballI) blast+
qed

subsection \<open>An attempt to evaluate\<close>

text \<open>A schema is accepted when it is an object, a value when its type is the one the schema names.\<close>

definition pdemo_lib :: schema_lib where
  "pdemo_lib = \<lparr>sx_AddResource = (\<lambda>v. True), sx_Compile = (\<lambda>v. v \<noteq> JNull),
     sx_Validate = (\<lambda>v w. v = JObject [(''type'', JString ''object'')] \<and> w \<noteq> JNull)\<rparr>"

definition jdemo :: "string \<Rightarrow> string" where
  "jdemo s = map (\<lambda>c. if c = CHR ''~'' then CHR 0x22 else c) s"

definition pdemo_req :: model_request where
  "pdemo_req = \<lparr>mr_RunID = ''r'', mr_StepID = ''1'', mr_AttemptID = ''a'', mr_ModelID = ''m'', mr_Messages = [],
     mr_NativeState = None,
     mr_Tools = [\<lparr>tl_Name = ''ls'', tl_Description = [], tl_Schema = jdemo ''{~type~:~object~}''\<rparr>],
     mr_MaxOutputTokens = 1, mr_Deadline = 0\<rparr>"

definition pdemo_limits :: stream_limits where
  "pdemo_limits = \<lparr>sl_MaxCalls = 0, sl_MaxArgumentBytes = 0, sl_MaxJSONDepth = 0, sl_MaxTextBytes = 0, sl_MaxNativeBytes = 0\<rparr>"

definition pdemo_emit :: emit_fun where
  "pdemo_emit = Some (\<lambda>e. None)"

definition pdemo_ops :: "(go_error option \<times> asm_op) list" where
  "pdemo_ops = map (\<lambda>x. (None, x)) [AoText ''he'', AoBegin ''c1'' ''ls'', AoArguments ''c1'' (jdemo ''{~p~:''),
     AoText ''y'', AoArguments ''c1'' (jdemo ''[1, true]}''), AoEnd ''c1'']"

definition pdemo_end :: "assembly \<times> provider_error option" where
  "pdemo_end = asm_run pdemo_lib pdemo_emit pdemo_ops (projr (newAssembly pdemo_lib pdemo_req pdemo_limits))"

definition pdemo_turn :: "provider_error + model_turn" where
  "pdemo_turn = snd (asm_finish pdemo_emit None ''stop'' None ''q'' (fst pdemo_end))"

lemma pdemo_evaluates:
  "isl (newAssembly pdemo_lib pdemo_req pdemo_limits) = False" "snd pdemo_end = None" "isl pdemo_turn = False"
  "text_of (map snd pdemo_ops) = ''hey''" "begins_of (map snd pdemo_ops) = [(''c1'', ''ls'')]"
  "args_of ''c1'' (map snd pdemo_ops) = jdemo ''{~p~:[1, true]}''"
  by code_simp+

theorem completed_turn_exact_witness:
  "tu_Text (projr pdemo_turn) = ''hey''
   \<and> tu_ToolCalls (projr pdemo_turn) = [\<lparr>tc_ID = ''c1'', tc_Name = ''ls'', tc_Arguments = jdemo ''{~p~:[1, true]}''\<rparr>]"
proof -
  obtain a0 where a0: "newAssembly pdemo_lib pdemo_req pdemo_limits = Inr a0"
    using pdemo_evaluates(1) by (cases "newAssembly pdemo_lib pdemo_req pdemo_limits") auto
  obtain a where a: "asm_run pdemo_lib pdemo_emit pdemo_ops a0 = (a, None)" "pdemo_end = (a, None)"
    using pdemo_evaluates(2) a0 by (cases pdemo_end) (auto simp: pdemo_end_def)
  obtain turn where turn: "pdemo_turn = Inr turn" using pdemo_evaluates(3) unfolding isl_def by (metis sum.exhaust)
  have "snd (asm_finish pdemo_emit None ''stop'' None ''q'' a) = Inr turn" using turn unfolding pdemo_turn_def a(2) fst_conv .
  then obtain a' where "asm_finish pdemo_emit None ''stop'' None ''q'' a = (a', Inr turn)" by (metis prod.collapse)
  from completed_turn_exact [OF a0 a(1) this] pdemo_evaluates(4-) show ?thesis unfolding turn sum.sel by simp
qed

end
