(* ===== verification/Model_Pricing.thy ===== *)
theory Model_Pricing
  imports Quota_Store Provider_Types
begin

section \<open>Pricing of model attempts (internal/application/pricing.go, driver.go, model.go)\<close>

text \<open>
  A quote is frozen before a request is sent; it prices the reservation of the attempt and later the
  usage the provider reports. The sums of \<open>math/big\<close> are exact integers. \<open>dec\<close> is \<open>json.Unmarshal\<close>
  of a stored quote. A pointer to a price is an option, so the copies \<open>freezePricing\<close> makes are the
  identity. The result of \<open>priceUsage\<close> is an error, no definitive price, or a settlement.
\<close>

record model_spec =
  ms_CredentialGroup :: string
  ms_PriceVersion :: string
  ms_InputPrice :: money
  ms_OutputPrice :: money
  ms_CacheReadPrice :: "money option"
  ms_CacheWrite5mPrice :: "money option"
  ms_CacheWrite1hPrice :: "money option"
  ms_ExactPricing :: bool
  ms_MaxOutputTokens :: int
  ms_ContextTokens :: int
  ms_RequestTimeout :: duration

record attempt_pricing =
  aq_SchemaVersion :: int
  aq_Provider :: string
  aq_Model :: string
  aq_Spec :: model_spec

record model_attempt =
  ma_TenantID :: string
  ma_RunID :: string
  ma_StepSeq :: u64
  ma_Number :: int
  ma_ID :: string
  ma_Provider :: string
  ma_Model :: string
  ma_Status :: string
  ma_RawRef :: string
  ma_RequestRef :: string
  ma_PriceVersion :: string
  ma_ErrorCode :: string
  ma_Traceparent :: string
  ma_StartedAt :: gotime
  ma_Deadline :: gotime

definition cache_prices :: "model_spec \<Rightarrow> money option list" where
  "cache_prices s = [ms_CacheReadPrice s, ms_CacheWrite5mPrice s, ms_CacheWrite1hPrice s]"

definition Pricing_validate :: "attempt_pricing \<Rightarrow> err option" where
  "Pricing_validate p =
     (let s = aq_Spec p
      in if aq_SchemaVersion p \<noteq> 1 \<or> aq_Model p = [] \<or> ms_PriceVersion s = [] \<or> ms_CredentialGroup s = []
            \<or> ms_ContextTokens s \<le> 0 \<or> ms_MaxOutputTokens s \<le> 0
            \<or> wrap64 (max_int64 - ms_MaxOutputTokens s) < ms_ContextTokens s
            \<or> ms_RequestTimeout s \<le> 0 \<or> ms_InputPrice s < 0 \<or> ms_OutputPrice s < 0
         then Some ErrInvalid
         else if aq_Provider p \<noteq> ''fake'' \<and> aq_Provider p \<noteq> ''openai'' \<and> aq_Provider p \<noteq> ''anthropic''
                 \<and> aq_Provider p \<noteq> ''deepseek''
         then Some ErrInvalid
         else if aq_Provider p \<noteq> ''fake'' \<and> \<not> ms_ExactPricing s \<and> (ms_InputPrice s = 0 \<or> ms_OutputPrice s = 0)
         then Some ErrInvalid
         else if list_ex (\<lambda>r. case r of None \<Rightarrow> False | Some v \<Rightarrow> v < 0) (cache_prices s) then Some ErrInvalid
         else if aq_Provider p = ''anthropic'' \<and> ms_ExactPricing s \<and> None \<in> set (cache_prices s)
         then Some ErrInvalid
         else None)"

definition freezePricing :: "string \<Rightarrow> string \<Rightarrow> model_spec \<Rightarrow> err + attempt_pricing" where
  "freezePricing providerName model spec =
     (let p = \<lparr>aq_SchemaVersion = 1, aq_Provider = providerName, aq_Model = model,
               aq_Spec = (if providerName = ''fake'' then spec\<lparr>ms_ExactPricing := True\<rparr> else spec)\<rparr>
      in case Pricing_validate p of Some e \<Rightarrow> Inl e | None \<Rightarrow> Inr p)"

definition decodePricing :: "(bytes \<Rightarrow> attempt_pricing option) \<Rightarrow> model_attempt \<Rightarrow> bytes \<Rightarrow> err + attempt_pricing" where
  "decodePricing dec a raw =
     (case dec raw of
        None \<Rightarrow> Inl ErrReconciliation
      | Some p \<Rightarrow>
          if aq_Provider p \<noteq> ma_Provider a \<or> aq_Model p \<noteq> ma_Model a \<or> ms_PriceVersion (aq_Spec p) \<noteq> ma_PriceVersion a
          then Inl ErrConflict
          else case Pricing_validate p of Some e \<Rightarrow> Inl e | None \<Rightarrow> Inr p)"

subsection \<open>Exact sums\<close>

type_synonym priced_tokens = "int \<times> money"

definition terms_sum :: "priced_tokens list \<Rightarrow> int" where
  "terms_sum ts = sum_list (map (\<lambda>t. fst t * snd t) ts)"

definition priceTerms :: "priced_tokens list \<Rightarrow> err + money" where
  "priceTerms ts =
     (if list_ex (\<lambda>t. fst t < 0 \<or> snd t < 0) ts then Inl ErrInvalid
      else let cost = (terms_sum ts + 999999) div 1000000
           in if in_int64 cost then Inr cost else Inl ErrOverflow)"

fun addTokens :: "int \<Rightarrow> int list \<Rightarrow> err + int" where
  "addTokens n [] = Inr n"
| "addTokens n (v # vs) =
     (if v < 0 then Inl ErrInvalid
      else if wrap64 (max_int64 - n) < v then Inl ErrOverflow
      else addTokens (wrap64 (n + v)) vs)"

definition reserve_rate :: "model_spec \<Rightarrow> money" where
  "reserve_rate s = foldl (\<lambda>rate r. case r of None \<Rightarrow> rate | Some v \<Rightarrow> if rate < v then v else rate)
     (ms_InputPrice s) (cache_prices s)"

definition reserveCost :: "attempt_pricing \<Rightarrow> err + money" where
  "reserveCost p = (let s = aq_Spec p in
     priceTerms [(ms_ContextTokens s, reserve_rate s), (ms_MaxOutputTokens s, ms_OutputPrice s)])"

definition pricing_reservation :: "attempt_pricing \<Rightarrow> string \<Rightarrow> string \<Rightarrow> model_attempt \<Rightarrow> money \<Rightarrow> quota_request" where
  "pricing_reservation p tenant run a cost = \<lparr>rq_TenantID = tenant, rq_RunID = run, rq_AttemptID = ma_ID a,
     rq_CredentialGroup = ms_CredentialGroup (aq_Spec p), rq_InputTokens = ms_ContextTokens (aq_Spec p),
     rq_MaxOutputTokens = ms_MaxOutputTokens (aq_Spec p), rq_MaxCost = cost,
     rq_PriceVersion = ms_PriceVersion (aq_Spec p), rq_RequestDeadline = ma_Deadline a\<rparr>"

subsection \<open>Pricing reported usage\<close>

text \<open>The three ways providers count input: what each charges, or \<open>None\<close> when the price is not definitive.\<close>

definition openai_terms :: "model_spec \<Rightarrow> usage \<Rightarrow> err + priced_tokens list option" where
  "openai_terms s u =
     (let input = tk_Value (us_Input u); cached = tk_Value (us_CacheRead u)
      in if \<not> tk_Known (us_CacheRead u) then Inr None
         else if input < cached then Inl ErrInvalid
         else if 0 < cached \<and> ms_CacheReadPrice s = None then Inr None
         else Inr (Some ((input - cached, ms_InputPrice s)
                # (if 0 < cached then [(cached, the (ms_CacheReadPrice s))] else []))))"

definition anthropic_terms :: "model_spec \<Rightarrow> usage \<Rightarrow> priced_tokens list option" where
  "anthropic_terms s u =
     (let read = tk_Value (us_CacheRead u); written = tk_Value (us_CacheWrite u);
          write_price = (case (ms_CacheWrite5mPrice s, ms_CacheWrite1hPrice s) of
              (Some a, Some b) \<Rightarrow> if a = b then Some a else None
            | _ \<Rightarrow> None)
      in if 0 < read \<and> ms_CacheReadPrice s = None then None
         else if 0 < written \<and> write_price = None then None
         else Some ((tk_Value (us_Input u), ms_InputPrice s)
                # (if 0 < read then [(read, the (ms_CacheReadPrice s))] else [])
                @ (if 0 < written then [(written, the write_price)] else [])))"

definition priceUsage :: "attempt_pricing \<Rightarrow> usage \<Rightarrow> err + settlement option" where
  "priceUsage p u =
     (let s = aq_Spec p; input = tk_Value (us_Input u); output = tk_Value (us_Output u);
          close = (\<lambda>n terms. case priceTerms ((output, ms_OutputPrice s) # terms) of
             Inl e \<Rightarrow> Inl e
           | Inr cost \<Rightarrow> Inr (Some \<lparr>se_Tokens = n, se_Cost = cost\<rparr>))
      in if list_ex (\<lambda>c. tk_Known c \<and> tk_Value c < 0) [us_Input u, us_Output u, us_CacheRead u, us_CacheWrite u]
         then Inl ErrInvalid
         else if \<not> us_Final u \<or> \<not> tk_Known (us_Input u) \<or> \<not> tk_Known (us_Output u) \<or> \<not> ms_ExactPricing s
         then Inr None
         else case addTokens 0 [input, output] of
             Inl e \<Rightarrow> Inl e
           | Inr n \<Rightarrow>
               if aq_Provider p = ''fake'' then close n [(input, ms_InputPrice s)]
               else if aq_Provider p = ''openai'' \<or> aq_Provider p = ''deepseek'' then
                 (case openai_terms s u of
                    Inl e \<Rightarrow> Inl e
                  | Inr None \<Rightarrow> Inr None
                  | Inr (Some terms) \<Rightarrow> close n terms)
               else if aq_Provider p = ''anthropic'' then
                 (if \<not> tk_Known (us_CacheRead u) \<or> \<not> tk_Known (us_CacheWrite u) then Inr None
                  else case addTokens 0 [input, tk_Value (us_CacheRead u), tk_Value (us_CacheWrite u), output] of
                      Inl e \<Rightarrow> Inl e
                    | Inr n' \<Rightarrow>
                        (case anthropic_terms s u of None \<Rightarrow> Inr None | Some terms \<Rightarrow> close n' terms))
               else Inl ErrInvalid)"

subsection \<open>A settlement stays within its reservation\<close>

text \<open>The input a provider bills: Anthropic counts cached tokens apart, the others within the input.\<close>

definition billed_input :: "attempt_pricing \<Rightarrow> usage \<Rightarrow> int" where
  "billed_input p u = (if aq_Provider p = ''anthropic''
     then tk_Value (us_Input u) + tk_Value (us_CacheRead u) + tk_Value (us_CacheWrite u) else tk_Value (us_Input u))"

lemma addTokens_Inr: "addTokens n vs = Inr m \<Longrightarrow> 0 \<le> n \<Longrightarrow> n \<le> max_int64 \<Longrightarrow>
    m = n + sum_list vs \<and> m \<le> max_int64 \<and> list_all (\<lambda>v. 0 \<le> v) vs"
proof (induction vs arbitrary: n)
  case (Cons v vs)
  have "wrap64 (max_int64 - n) = max_int64 - n" using Cons.prems(2,3) by (intro wrap64_id) (simp add: int64_defs)
  then have v: "0 \<le> v" "v \<le> max_int64 - n" "addTokens (wrap64 (n + v)) vs = Inr m"
    using Cons.prems(1) by (auto split: if_splits)
  moreover from v have "wrap64 (n + v) = n + v" using Cons.prems(2) by (intro wrap64_id) (simp add: int64_defs)
  ultimately show ?case using Cons.IH [of "n + v"] Cons.prems(2) by auto
qed simp

lemma reserve_rate_bounds:
  "ms_InputPrice s \<le> reserve_rate s" "ms_CacheReadPrice s = Some v \<Longrightarrow> v \<le> reserve_rate s"
  "ms_CacheWrite5mPrice s = Some v \<Longrightarrow> v \<le> reserve_rate s"
  by (auto simp: reserve_rate_def cache_prices_def split: option.splits)

lemma priceTerms_mono:
  assumes "priceTerms ts = Inr a" "priceTerms us = Inr b" "terms_sum ts \<le> terms_sum us"
  shows "a \<le> b"
proof -
  have "a = (terms_sum ts + 999999) div 1000000" "b = (terms_sum us + 999999) div 1000000"
    using assms(1,2) by (auto simp: priceTerms_def Let_def split: if_splits)
  then show ?thesis using assms(3) by (simp add: zdiv_mono1)
qed

lemma priceTerms_nonneg: "priceTerms ts = Inr a \<Longrightarrow> 0 \<le> a"
proof -
  assume ts: "priceTerms ts = Inr a"
  then have "\<forall>t \<in> set ts. 0 \<le> fst t * snd t" by (auto simp: priceTerms_def list_ex_iff not_less split: if_splits)
  then have "0 \<le> terms_sum ts" unfolding terms_sum_def by (intro sum_list_nonneg) auto
  then show "0 \<le> a" using ts by (auto simp: priceTerms_def Let_def split: if_splits)
qed

text \<open>Tokens within a class cost at most the reserved rate.\<close>

lemma class_cost: "0 \<le> n \<Longrightarrow> v \<le> rate \<Longrightarrow> n * v \<le> n * (rate :: int)"
  by (rule mult_left_mono)

lemma openai_terms_sum:
  assumes "openai_terms s u = Inr (Some ts)" "0 \<le> tk_Value (us_CacheRead u)"
  shows "terms_sum ts \<le> tk_Value (us_Input u) * reserve_rate s"
proof -
  let ?n = "tk_Value (us_Input u)" and ?c = "tk_Value (us_CacheRead u)"
  have "?c \<le> ?n" using assms(1) by (auto simp: openai_terms_def Let_def split: if_splits)
  then have base: "(?n - ?c) * ms_InputPrice s \<le> (?n - ?c) * reserve_rate s"
    by (intro class_cost reserve_rate_bounds) simp
  show ?thesis
  proof (cases "0 < ?c")
    case True
    then obtain v where v: "ms_CacheReadPrice s = Some v" "ts = [(?n - ?c, ms_InputPrice s), (?c, v)]"
      using assms(1) by (auto simp: openai_terms_def Let_def split: if_splits)
    have "?c * v \<le> ?c * reserve_rate s" using True v(1) by (intro class_cost reserve_rate_bounds(2)) auto
    then show ?thesis using base v(2) by (simp add: terms_sum_def algebra_simps)
  next
    case False
    then show ?thesis using assms base by (auto simp: openai_terms_def Let_def terms_sum_def split: if_splits)
  qed
qed

lemma anthropic_terms_sum:
  assumes "anthropic_terms s u = Some ts" "0 \<le> tk_Value (us_Input u)" "0 \<le> tk_Value (us_CacheRead u)" "0 \<le> tk_Value (us_CacheWrite u)"
  shows "terms_sum ts \<le> (tk_Value (us_Input u) + tk_Value (us_CacheRead u) + tk_Value (us_CacheWrite u)) * reserve_rate s"
proof -
  let ?n = "tk_Value (us_Input u)" and ?c = "tk_Value (us_CacheRead u)" and ?w = "tk_Value (us_CacheWrite u)"
  have n: "?n * ms_InputPrice s \<le> ?n * reserve_rate s" using assms(2) by (intro class_cost reserve_rate_bounds)
  have c: "(if 0 < ?c then ?c * the (ms_CacheReadPrice s) else 0) \<le> ?c * reserve_rate s"
  proof (cases "0 < ?c")
    case True
    then obtain v where "ms_CacheReadPrice s = Some v"
      using assms(1) by (auto simp: anthropic_terms_def Let_def split: if_splits)
    then show ?thesis using True class_cost [of ?c v "reserve_rate s"] reserve_rate_bounds(2) by simp
  qed (use assms(3) in simp)
  obtain w where ts: "ts = (?n, ms_InputPrice s) # (if 0 < ?c then [(?c, the (ms_CacheReadPrice s))] else [])
        @ (if 0 < ?w then [(?w, w)] else [])" and w: "0 < ?w \<Longrightarrow> ms_CacheWrite5mPrice s = Some w"
    using assms(1) by (auto simp: anthropic_terms_def Let_def split: if_splits option.splits prod.splits)
  have "(if 0 < ?w then ?w * w else 0) \<le> ?w * reserve_rate s"
    using w assms(4) class_cost [of ?w w "reserve_rate s"] reserve_rate_bounds(3) by (cases "0 < ?w") simp_all
  moreover have "terms_sum ts = ?n * ms_InputPrice s + (if 0 < ?c then ?c * the (ms_CacheReadPrice s) else 0)
      + (if 0 < ?w then ?w * w else 0)" by (simp add: ts terms_sum_def)
  ultimately show ?thesis using n c unfolding distrib_right by linarith
qed

lemma priceUsage_cases:
  assumes "priceUsage p u = Inr (Some st)"
  obtains ts where "priceTerms ((tk_Value (us_Output u), ms_OutputPrice (aq_Spec p)) # ts) = Inr (se_Cost st)"
    and "terms_sum ts \<le> billed_input p u * reserve_rate (aq_Spec p)"
    and "se_Tokens st = billed_input p u + tk_Value (us_Output u)" and "0 \<le> billed_input p u" "0 \<le> tk_Value (us_Output u)"
proof -
  let ?s = "aq_Spec p" and ?n = "tk_Value (us_Input u)" and ?o = "tk_Value (us_Output u)"
  have counts: "\<not> list_ex (\<lambda>c. tk_Known c \<and> tk_Value c < 0) [us_Input u, us_Output u, us_CacheRead u, us_CacheWrite u]"
    using assms by (auto simp: priceUsage_def Let_def split: if_splits)
  obtain m where m: "addTokens 0 [?n, ?o] = Inr m" using assms by (auto simp: priceUsage_def Let_def split: if_splits sum.splits)
  then have sum: "m = ?n + ?o" "0 \<le> ?n" "0 \<le> ?o" using addTokens_Inr [OF m] by (auto simp: int64_defs)
  consider (fake) "aq_Provider p = ''fake''" | (openai) "aq_Provider p = ''openai'' \<or> aq_Provider p = ''deepseek''"
    | (anthropic) "aq_Provider p = ''anthropic''"
    using assms by (auto simp: priceUsage_def Let_def split: if_splits sum.splits)
  then show thesis
  proof cases
    case fake
    then show thesis using assms m sum class_cost [OF sum(2) reserve_rate_bounds(1) [of ?s]]
      by (intro that [of "[(?n, ms_InputPrice ?s)]"])
        (auto simp: priceUsage_def Let_def billed_input_def terms_sum_def split: if_splits sum.splits)
  next
    case openai
    then obtain ts where ts: "openai_terms ?s u = Inr (Some ts)" "priceTerms ((?o, ms_OutputPrice ?s) # ts) = Inr (se_Cost st)"
        "se_Tokens st = m"
      using assms m by (auto simp: priceUsage_def Let_def split: if_splits sum.splits option.splits)
    moreover have "0 \<le> tk_Value (us_CacheRead u)" using ts(1) counts by (auto simp: openai_terms_def Let_def split: if_splits)
    ultimately show thesis using openai sum openai_terms_sum [of ?s u ts] by (intro that [of ts]) (auto simp: billed_input_def)
  next
    case anthropic
    then obtain ts k where ts: "anthropic_terms ?s u = Some ts" "priceTerms ((?o, ms_OutputPrice ?s) # ts) = Inr (se_Cost st)"
        "addTokens 0 [?n, tk_Value (us_CacheRead u), tk_Value (us_CacheWrite u), ?o] = Inr k" "se_Tokens st = k"
      using assms m by (auto simp: priceUsage_def Let_def split: if_splits sum.splits option.splits)
    moreover have "k = ?n + tk_Value (us_CacheRead u) + tk_Value (us_CacheWrite u) + ?o"
      "0 \<le> tk_Value (us_CacheRead u)" "0 \<le> tk_Value (us_CacheWrite u)"
      using addTokens_Inr [OF ts(3)] by (auto simp: int64_defs)
    ultimately show thesis using anthropic sum anthropic_terms_sum [of ?s u ts] by (intro that [of ts]) (auto simp: billed_input_def)
  qed
qed

text \<open>
  C28. What a completed attempt is charged never exceeds what was reserved for it: whatever provider
  counts the tokens and whatever classes it prices, usage within the context and output limits of the
  quote settles for at most the reserved cost and at most the reserved tokens, and is never negative.
\<close>

theorem settlement_within_reservation:
  assumes "Pricing_validate p = None" and "reserveCost p = Inr cost" and "priceUsage p u = Inr (Some st)"
    and "billed_input p u \<le> ms_ContextTokens (aq_Spec p)" and "tk_Value (us_Output u) \<le> ms_MaxOutputTokens (aq_Spec p)"
  shows "0 \<le> se_Cost st \<and> se_Cost st \<le> cost
     \<and> 0 \<le> se_Tokens st \<and> se_Tokens st \<le> ms_ContextTokens (aq_Spec p) + ms_MaxOutputTokens (aq_Spec p)"
proof -
  let ?s = "aq_Spec p" and ?o = "tk_Value (us_Output u)"
  obtain ts where ts: "priceTerms ((?o, ms_OutputPrice ?s) # ts) = Inr (se_Cost st)"
      "terms_sum ts \<le> billed_input p u * reserve_rate ?s" "se_Tokens st = billed_input p u + ?o"
      "0 \<le> billed_input p u" "0 \<le> ?o"
    using priceUsage_cases [OF assms(3)] .
  have rates: "0 \<le> ms_OutputPrice ?s" "0 \<le> ms_InputPrice ?s" using assms(1) by (auto simp: Pricing_validate_def Let_def split: if_splits)
  then have "0 \<le> reserve_rate ?s" using reserve_rate_bounds(1) [of ?s] by simp
  then have "billed_input p u * reserve_rate ?s \<le> ms_ContextTokens ?s * reserve_rate ?s"
    "?o * ms_OutputPrice ?s \<le> ms_MaxOutputTokens ?s * ms_OutputPrice ?s"
    using assms(4,5) rates by (auto intro: mult_right_mono)
  then have "terms_sum ((?o, ms_OutputPrice ?s) # ts)
      \<le> terms_sum [(ms_ContextTokens ?s, reserve_rate ?s), (ms_MaxOutputTokens ?s, ms_OutputPrice ?s)]"
    using ts(2) by (simp add: terms_sum_def)
  then have "se_Cost st \<le> cost" using priceTerms_mono [OF ts(1)] assms(2) by (simp add: reserveCost_def Let_def)
  moreover have "0 \<le> se_Cost st" using priceTerms_nonneg [OF ts(1)] .
  ultimately show ?thesis using ts(3-5) assms(4,5) by simp
qed

definition qdemo_pricing :: attempt_pricing where
  "qdemo_pricing = \<lparr>aq_SchemaVersion = 1, aq_Provider = ''anthropic'', aq_Model = ''m'',
     aq_Spec = \<lparr>ms_CredentialGroup = ''g'', ms_PriceVersion = ''v1'', ms_InputPrice = 3000000, ms_OutputPrice = 15000000,
       ms_CacheReadPrice = Some 300000, ms_CacheWrite5mPrice = Some 3750000, ms_CacheWrite1hPrice = Some 3750000,
       ms_ExactPricing = True, ms_MaxOutputTokens = 500, ms_ContextTokens = 1000, ms_RequestTimeout = 1\<rparr>\<rparr>"

definition qdemo_usage :: usage where
  "qdemo_usage = (let n = (\<lambda>v. \<lparr>tk_Value = v, tk_Known = True\<rparr>) in
     \<lparr>us_Final = True, us_Input = n 100, us_Output = n 31, us_CacheRead = n 51, us_CacheWrite = n 21\<rparr>)"

lemma qdemo_evaluates:
  "Pricing_validate qdemo_pricing = None" "reserveCost qdemo_pricing = Inr 11250"
  "priceUsage qdemo_pricing qdemo_usage = Inr (Some \<lparr>se_Tokens = 203, se_Cost = 860\<rparr>)"
  "billed_input qdemo_pricing qdemo_usage \<le> ms_ContextTokens (aq_Spec qdemo_pricing)"
  "tk_Value (us_Output qdemo_usage) \<le> ms_MaxOutputTokens (aq_Spec qdemo_pricing)"
  by code_simp+

theorem settlement_within_reservation_witness:
  "se_Cost \<lparr>se_Tokens = 203, se_Cost = 860\<rparr> \<le> 11250 \<and> se_Tokens \<lparr>se_Tokens = 203, se_Cost = 860\<rparr> \<le> 1500"
  using settlement_within_reservation [OF qdemo_evaluates] by (simp add: qdemo_pricing_def)

end
