(* ===== verification/Go_Utf8.thy ===== *)
theory Go_Utf8
  imports Go_Json
begin

section \<open>Valid UTF-8 as a sequence of runes\<close>

text \<open>
  A valid string is the concatenation of its runes, and this decomposition tells where it may be cut:
  exactly before a byte that starts a rune. \<open>utf8.RuneStart\<close> recognizes such a byte.
\<close>

definition rune_start :: "char \<Rightarrow> bool" where
  "rune_start c \<longleftrightarrow> \<not> cont_byte (code c)"

definition rune :: "string \<Rightarrow> bool" where
  "rune r \<longleftrightarrow> r \<noteq> [] \<and> rune_size r = length r"

lemma rune_size_cases:
  assumes "0 < rune_size s"
  obtains (one) a t where "s = a # t" "code a < 128" "rune_size s = 1"
  | (two) a b t where "s = a # b # t" "194 \<le> code a \<and> code a \<le> 223" "cont_byte (code b)" "rune_size s = 2"
  | (three) a b c t where "s = a # b # c # t" "224 \<le> code a \<and> code a \<le> 239"
      "(if code a = 224 then 160 else 128) \<le> code b \<and> code b \<le> (if code a = 237 then 159 else 191)" "cont_byte (code c)"
      "rune_size s = 3"
  | (four) a b c d t where "s = a # b # c # d # t" "240 \<le> code a \<and> code a \<le> 244"
      "(if code a = 240 then 144 else 128) \<le> code b \<and> code b \<le> (if code a = 244 then 143 else 191)"
      "cont_byte (code c)" "cont_byte (code d)" "rune_size s = 4"
proof (cases s)
  case (Cons a r)
  show thesis
    using assms unfolding Cons
    by (auto simp: rune_size.simps(2) split: if_splits list.splits intro: that simp: Cons)
qed (use assms in simp)

lemma rune_size_bound: "rune_size s \<le> length s \<and> rune_size s \<le> 4"
proof (cases "0 < rune_size s")
  case True
  then show ?thesis by (cases s rule: rune_size_cases) auto
qed simp

lemma rune_size_local: "0 < rune_size s \<Longrightarrow> rune_size (take (rune_size s) s @ t) = rune_size s"
  by (cases s rule: rune_size_cases) (auto simp: rune_size.simps(2))

lemma rune_take: "0 < rune_size s \<Longrightarrow> rune (take (rune_size s) s)"
  using rune_size_local [of s "[]"] rune_size_bound [of s] by (auto simp: rune_def)

lemma rune_append: "rune r \<Longrightarrow> rune_size (r @ t) = length r"
  using rune_size_local [of r t] by (simp add: rune_def)

lemma rune_length: "rune r \<Longrightarrow> 0 < length r \<and> length r \<le> 4"
  using rune_size_bound [of r] by (auto simp: rune_def)

lemma rune_bytes: "rune r \<Longrightarrow> k < length r \<Longrightarrow> rune_start (r ! k) \<longleftrightarrow> k = 0"
proof -
  assume r: "rune r" and k: "k < length r"
  then have "0 < rune_size r" by (auto simp: rune_def)
  then show ?thesis using r k
    by (cases r rule: rune_size_cases)
      (auto simp: rune_def rune_start_def cont_byte_def nth_Cons split: nat.splits if_splits)
qed

lemma utf8_fuel_concat: "list_all rune rs \<Longrightarrow> length (concat rs) \<le> k \<Longrightarrow> utf8_valid_fuel k (concat rs)"
proof (induction rs arbitrary: k)
  case Nil
  then show ?case by (cases k) auto
next
  case (Cons r rs)
  then have r: "0 < length r" "rune_size (r @ concat rs) = length r" using rune_length rune_append by auto
  with Cons.prems(2) obtain j where k: "k = Suc j" by (cases k) auto
  moreover have "length (concat rs) \<le> j" using Cons.prems(2) r(1) k unfolding concat.simps length_append by linarith
  ultimately show ?case using Cons r by simp
qed

lemma utf8_fuel_runes: "utf8_valid_fuel k s \<Longrightarrow> \<exists>rs. list_all rune rs \<and> s = concat rs"
proof (induction k arbitrary: s)
  case 0
  then show ?case by (intro exI [of _ "[]"]) simp
next
  case (Suc k)
  show ?case
  proof (cases "s = []")
    case True
    then show ?thesis by (intro exI [of _ "[]"]) simp
  next
    case False
    then have z: "0 < rune_size s" "utf8_valid_fuel k (drop (rune_size s) s)" using Suc.prems by auto
    from Suc.IH [OF z(2)] obtain rs where "list_all rune rs" "drop (rune_size s) s = concat rs" by blast
    then show ?thesis using rune_take [OF z(1)] append_take_drop_id [of "rune_size s" s]
      by (intro exI [of _ "take (rune_size s) s # rs"]) simp
  qed
qed

lemma utf8_valid_runes: "utf8_valid s \<longleftrightarrow> (\<exists>rs. list_all rune rs \<and> s = concat rs)"
  unfolding utf8_valid_def using utf8_fuel_runes utf8_fuel_concat by blast

lemma utf8_valid_Nil [simp]: "utf8_valid []"
  by (simp add: utf8_valid_def)

lemma utf8_valid_append: "utf8_valid s \<Longrightarrow> utf8_valid t \<Longrightarrow> utf8_valid (s @ t)"
  unfolding utf8_valid_runes by (metis concat_append list_all_append)

text \<open>Cutting before a rune.\<close>

lemma runes_cut:
  "list_all rune rs \<Longrightarrow> n < length (concat rs) \<Longrightarrow> rune_start (concat rs ! n) \<Longrightarrow> \<exists>k. n = length (concat (take k rs))"
proof (induction rs arbitrary: n)
  case (Cons r rs)
  have r: "rune r" using Cons.prems(1) by simp
  show ?case
  proof (cases "n < length r")
    case True
    then have "n = 0" using rune_bytes [OF r True] Cons.prems(3) by (simp add: nth_append)
    then show ?thesis by (intro exI [of _ 0]) simp
  next
    case False
    then have "n - length r < length (concat rs)" using Cons.prems(2) by simp
    then obtain k where "n - length r = length (concat (take k rs))"
      using Cons.IH [of "n - length r"] Cons.prems False by (auto simp: nth_append)
    then show ?thesis using False by (intro exI [of _ "Suc k"]) simp
  qed
qed simp

lemma runes_split:
  assumes "list_all rune rs"
  shows "utf8_valid (take (length (concat (take k rs))) (concat rs))" "utf8_valid (drop (length (concat (take k rs))) (concat rs))"
proof -
  have eq: "concat rs = concat (take k rs) @ concat (drop k rs)" by (metis append_take_drop_id concat_append)
  have "list_all rune (take k rs)" "list_all rune (drop k rs)"
    using assms by (auto simp: list_all_iff dest: in_set_takeD in_set_dropD)
  then show "utf8_valid (take (length (concat (take k rs))) (concat rs))" "utf8_valid (drop (length (concat (take k rs))) (concat rs))"
    by (subst eq, auto simp: utf8_valid_runes)+
qed

lemma utf8_cut:
  assumes "utf8_valid s" and "n = length s \<or> (n < length s \<and> rune_start (s ! n))"
  shows "utf8_valid (take n s) \<and> utf8_valid (drop n s)"
proof (cases "n = length s")
  case True
  then show ?thesis using assms(1) by simp
next
  case False
  obtain rs where rs: "list_all rune rs" "s = concat rs" using assms(1) by (auto simp: utf8_valid_runes)
  with False assms(2) obtain k where "n = length (concat (take k rs))" using runes_cut by blast
  then show ?thesis using runes_split [OF rs(1), of k] rs(2) by simp
qed

text \<open>A rune starts within any four consecutive bytes.\<close>

lemma runes_dense: "list_all rune rs \<Longrightarrow> n < length (concat rs) \<Longrightarrow> \<exists>k \<le> n. n < k + 4 \<and> rune_start (concat rs ! k)"
proof (induction rs arbitrary: n)
  case (Cons r rs)
  have r: "rune r" "0 < length r" "length r \<le> 4" using Cons.prems(1) rune_length by auto
  show ?case
  proof (cases "n < length r")
    case True
    then show ?thesis using r rune_bytes [OF r(1), of 0] by (intro exI [of _ 0]) (auto simp: nth_append)
  next
    case False
    then have "n - length r < length (concat rs)" using Cons.prems(2) by simp
    then obtain k where "k \<le> n - length r" "n - length r < k + 4" "rune_start (concat rs ! k)"
      using Cons.IH [of "n - length r"] Cons.prems by auto
    then show ?thesis using False by (intro exI [of _ "length r + k"]) (auto simp: nth_append)
  qed
qed simp

end
