(* ===== verification/Text_Batch.thy ===== *)
theory Text_Batch
  imports Provider_Types Go_Utf8
begin

section \<open>Batching streamed text into events (internal/application/text_batch.go)\<close>

text \<open>
  The sink of a model attempt collects text deltas and appends them to the log of the run in batches.
  Its methods run under one mutex, so each is one step: \<open>emit\<close>, a tick of the timer, and \<open>close\<close>.
  \<open>ts_Appended\<close> lists the payloads whose append was acknowledged and \<open>app n body\<close> is the answer of the
  store to the append after \<open>n\<close> acknowledged ones; after an error nothing is appended any more. The
  loop of \<open>emit\<close> may run forever for a batch size below a rune, so it is a partial function.
\<close>

datatype sink_err =
    SinkDomain err
  | SinkClosedPipe
  | SinkAppend string

record text_batch_config =
  tb_Interval :: duration
  tb_MaxBytes :: int

definition TextBatch_Normalize :: "text_batch_config \<Rightarrow> err + text_batch_config" where
  "TextBatch_Normalize c0 =
     (let c = \<lparr>tb_Interval = (if tb_Interval c0 = 0 then 100000000 else tb_Interval c0),
               tb_MaxBytes = (if tb_MaxBytes c0 = 0 then 16384 else tb_MaxBytes c0)\<rparr>
      in if tb_Interval c < 10000000 \<or> 1000000000 < tb_Interval c \<or> tb_MaxBytes c < 4 \<or> 16384 < tb_MaxBytes c
         then Inl ErrInvalid else Inr c)"

subsection \<open>Payloads\<close>

definition textEventPayloadLimit :: nat where "textEventPayloadLimit = 32768"

text \<open>\<open>json.Marshal\<close> of a \<open>textPayload\<close>, whose fields are two strings and \<open>true\<close>.\<close>

definition quoted :: "string \<Rightarrow> string" where
  "quoted s = [CHR 0x22] @ s @ [CHR 0x22]"

definition text_payload :: "string \<Rightarrow> string \<Rightarrow> bytes" where
  "text_payload i delta = ''{'' @ quoted ''attempt_id'' @ '':'' @ print_str i @ '','' @ quoted ''provisional'' @ '':true,''
     @ quoted ''delta'' @ '':'' @ print_str delta @ ''}''"

text \<open>
  The positions \<open>at+utf8.RuneLen(r)\<close> of a range loop over the text; an invalid byte is read as U+FFFD, whose
  encoding has three bytes.
\<close>

function rune_ends :: "nat \<Rightarrow> string \<Rightarrow> nat list" where
  "rune_ends at s =
     (if s = [] then []
      else if rune_size s = 0 then (at + 3) # rune_ends (at + 1) (drop 1 s)
      else (at + rune_size s) # rune_ends (at + rune_size s) (drop (rune_size s) s))"
  by pat_completeness auto
termination
  by (relation "measure (\<lambda>(at, s). length s)") auto

declare rune_ends.simps [simp del]

function last_fitting :: "(nat \<Rightarrow> bool) \<Rightarrow> nat \<Rightarrow> nat \<Rightarrow> nat" where
  "last_fitting fits low high =
     (if low < high
      then let mid = (low + high + 1) div 2 in if fits mid then last_fitting fits mid high else last_fitting fits low (mid - 1)
      else low)"
  by pat_completeness auto
termination
  by (relation "measure (\<lambda>(fits, low, high). high - low)") auto

declare last_fitting.simps [simp del]

definition payload_fits :: "string \<Rightarrow> string \<Rightarrow> nat \<Rightarrow> bool" where
  "payload_fits i text n \<longleftrightarrow> length (text_payload i (take n text)) \<le> textEventPayloadLimit"

definition textPayloadPrefix :: "string \<Rightarrow> string \<Rightarrow> err + bytes \<times> nat" where
  "textPayloadPrefix i text =
     (if payload_fits i text (length text) then Inr (text_payload i text, length text)
      else
        let ends = 0 # rune_ends 0 text;
            low = last_fitting (\<lambda>k. payload_fits i text (ends ! k)) 0 (length ends - 1)
        in if low = 0 then Inl ErrCapacity else Inr (text_payload i (take (ends ! low) text), ends ! low))"

subsection \<open>The sink\<close>

record text_sink =
  ts_Attempt :: string
  ts_Config :: text_batch_config
  ts_Pending :: string
  ts_Err :: "sink_err option"
  ts_Closed :: bool
  ts_Once :: bool
  ts_Cancelled :: bool
  ts_Appended :: "bytes list"

type_synonym append_fun = "nat \<Rightarrow> bytes \<Rightarrow> string option"

definition sink_fail :: "sink_err \<Rightarrow> text_sink \<Rightarrow> text_sink" where
  "sink_fail e s = (if ts_Err s = None then s\<lparr>ts_Err := Some e, ts_Cancelled := True\<rparr> else s)"

definition newTextSink :: "string \<Rightarrow> text_batch_config \<Rightarrow> text_sink" where
  "newTextSink attempt cfg =
     (let s = \<lparr>ts_Attempt = attempt, ts_Config = cfg, ts_Pending = [], ts_Err = None, ts_Closed = False, ts_Once = False,
               ts_Cancelled = False, ts_Appended = []\<rparr>
      in case TextBatch_Normalize cfg of
          Inl e \<Rightarrow> s\<lparr>ts_Err := Some (SinkDomain e), ts_Cancelled := True\<rparr>
        | Inr c \<Rightarrow> s\<lparr>ts_Config := c\<rparr>)"

text \<open>Every end of a rune is positive, so a flush makes progress.\<close>

lemma rune_ends_pos: "n \<in> set (rune_ends at s) \<Longrightarrow> at < n"
proof (induction at s rule: rune_ends.induct)
  case (1 at s)
  then show ?case using rune_ends.simps [of at s] by (auto split: if_splits)
qed

lemma last_fitting_steps:
  assumes "low < high"
  shows "low < (low + high + 1) div 2" "(low + high + 1) div 2 \<le> high"
    and "fits ((low + high + 1) div 2) \<Longrightarrow> last_fitting fits low high = last_fitting fits ((low + high + 1) div 2) high"
    and "\<not> fits ((low + high + 1) div 2) \<Longrightarrow> last_fitting fits low high = last_fitting fits low ((low + high + 1) div 2 - 1)"
  using assms last_fitting.simps [of fits low high] by (simp_all add: Let_def)

lemma last_fitting_range:
  "low \<le> high \<Longrightarrow> low \<le> last_fitting fits low high \<and> last_fitting fits low high \<le> high
     \<and> (last_fitting fits low high = low \<or> fits (last_fitting fits low high))"
proof (induction fits low high rule: last_fitting.induct)
  case (1 fits low high)
  let ?mid = "(low + high + 1) div 2"
  consider (stop) "\<not> low < high" | (up) "low < high" "fits ?mid" | (down) "low < high" "\<not> fits ?mid" by blast
  then show ?case
  proof cases
    case stop
    then show ?thesis using 1(3) last_fitting.simps [of fits low high] by simp
  next
    case up
    note steps = last_fitting_steps [OF up(1)]
    have "?mid \<le> last_fitting fits ?mid high \<and> last_fitting fits ?mid high \<le> high
        \<and> (last_fitting fits ?mid high = ?mid \<or> fits (last_fitting fits ?mid high))"
      by (rule 1(1) [OF up(1) refl up(2) steps(2)])
    then show ?thesis unfolding steps(3) [of fits, OF up(2)] using steps(1) up(2) by (metis less_imp_le order_trans)
  next
    case down
    note steps = last_fitting_steps [OF down(1)]
    have "low \<le> last_fitting fits low (?mid - 1) \<and> last_fitting fits low (?mid - 1) \<le> ?mid - 1
        \<and> (last_fitting fits low (?mid - 1) = low \<or> fits (last_fitting fits low (?mid - 1)))"
      by (rule 1(2) [OF down(1) refl down(2)]) (use steps(1) in linarith)
    then show ?thesis unfolding steps(4) [of fits, OF down(2)] using steps(2) by linarith
  qed
qed

lemma prefix_positive: "textPayloadPrefix i text = Inr (body, n) \<Longrightarrow> text \<noteq> [] \<Longrightarrow> 0 < n"
proof -
  assume p: "textPayloadPrefix i text = Inr (body, n)" and t: "text \<noteq> []"
  let ?ends = "rune_ends 0 text"
  let ?low = "last_fitting (\<lambda>k. payload_fits i text ((0 # ?ends) ! k)) 0 (length ?ends)"
  have low: "?low \<le> length ?ends" using last_fitting_range by blast
  show "0 < n"
  proof (cases "payload_fits i text (length text)")
    case True
    then show ?thesis using p t by (auto simp: textPayloadPrefix_def)
  next
    case False
    then have "?low \<noteq> 0" "n = (0 # ?ends) ! ?low" using p by (auto simp: textPayloadPrefix_def Let_def split: if_splits)
    then have "n \<in> set ?ends" using low by (cases ?low) auto
    then show ?thesis using rune_ends_pos by force
  qed
qed

function flush :: "append_fun \<Rightarrow> text_sink \<Rightarrow> text_sink" where
  "flush app s =
     (if ts_Err s \<noteq> None \<or> ts_Pending s = [] then s
      else case textPayloadPrefix (ts_Attempt s) (ts_Pending s) of
          Inl e \<Rightarrow> sink_fail (SinkDomain e) s
        | Inr (body, n) \<Rightarrow>
            (case app (length (ts_Appended s)) body of
               Some e \<Rightarrow> sink_fail (SinkAppend e) s
             | None \<Rightarrow> flush app (s\<lparr>ts_Pending := drop n (ts_Pending s), ts_Appended := ts_Appended s @ [body]\<rparr>)))"
  by pat_completeness auto
termination
  by (relation "measure (\<lambda>(app, s). length (ts_Pending s))") (auto dest: prefix_positive)

declare flush.simps [simp del]

text \<open>The step back to the start of a rune.\<close>

fun cut_back :: "string \<Rightarrow> nat \<Rightarrow> nat" where
  "cut_back d 0 = 0"
| "cut_back d (Suc n) = (if Suc n < length d \<and> \<not> rune_start (d ! Suc n) then cut_back d n else Suc n)"

definition take_size :: "text_sink \<Rightarrow> string \<Rightarrow> nat" where
  "take_size s d = cut_back d (nat (min (tb_MaxBytes (ts_Config s) - int (length (ts_Pending s))) (int (length d))))"

partial_function (option) emit_loop :: "append_fun \<Rightarrow> text_sink \<Rightarrow> string \<Rightarrow> (text_sink \<times> sink_err option) option" where
  "emit_loop app s d =
     (if d = [] then Some (s, None)
      else
        let n = take_size s d;
            s1 = s\<lparr>ts_Pending := ts_Pending s @ take n d\<rparr>;
            s2 = (if n = 0 then flush app s
                  else if int (length (ts_Pending s1)) = tb_MaxBytes (ts_Config s) then flush app s1 else s1)
        in if ts_Err s2 \<noteq> None then Some (s2, ts_Err s2) else emit_loop app s2 (drop n d))"

definition sink_emit :: "append_fun \<Rightarrow> event_type \<Rightarrow> string \<Rightarrow> text_sink \<Rightarrow> (text_sink \<times> sink_err option) option" where
  "sink_emit app kind delta s =
     (if ts_Err s \<noteq> None then Some (s, ts_Err s)
      else if ts_Closed s then Some (s, Some SinkClosedPipe)
      else if kind \<noteq> EvTextDelta then Some (s, None)
      else if \<not> utf8_valid delta then (let s' = sink_fail (SinkDomain ErrInvalid) s in Some (s', ts_Err s'))
      else emit_loop app s delta)"

definition sink_close :: "append_fun \<Rightarrow> text_sink \<Rightarrow> text_sink \<times> sink_err option" where
  "sink_close app s =
     (let s' = (if ts_Once s then s else flush app (s\<lparr>ts_Once := True, ts_Closed := True\<rparr>))
      in (s', ts_Err s'))"

text \<open>What happens to a sink while its attempt streams: events of the stream and ticks of the timer.\<close>

datatype sink_action =
    SaEmit event_type string
  | SaTick

fun sink_run :: "append_fun \<Rightarrow> sink_action list \<Rightarrow> text_sink \<Rightarrow> text_sink option" where
  "sink_run app [] s = Some s"
| "sink_run app (SaTick # as) s = sink_run app as (flush app s)"
| "sink_run app (SaEmit kind delta # as) s =
     (case sink_emit app kind delta s of None \<Rightarrow> None | Some (s', _) \<Rightarrow> sink_run app as s')"

end
