(* ===== verification/Go_Literal.thy ===== *)
theory Go_Literal
  imports Go_Utf8
begin

section \<open>String literals read back what was printed\<close>

text \<open>
  \<open>json.Marshal\<close> escapes a valid string rune by rune, and the decoder reads each escape back as the rune.
\<close>

definition escape_of :: "string \<Rightarrow> string" where
  "escape_of r = (if code (hd r) < 128 then escape_ascii (hd r) else escape_rune r)"

lemma rune_ascii: "rune r \<Longrightarrow> code (hd r) < 128 \<Longrightarrow> r = [hd r]"
proof -
  assume r: "rune r" and a: "code (hd r) < 128"
  then have "0 < rune_size r" by (auto simp: rune_def)
  then show ?thesis using r a by (cases r rule: rune_size_cases) (auto simp: rune_def)
qed

lemma escape_step: "rune r \<Longrightarrow> escape_str (Suc k) (r @ t) = escape_of r @ escape_str k t"
proof -
  assume r: "rune r"
  then obtain c q where c: "r = c # q" by (cases r) (auto simp: rune_def)
  have z: "rune_size (c # q @ t) = Suc (length q)" using rune_append [OF r, of t] c by simp
  show ?thesis
  proof (cases "code c < 128")
    case True
    then show ?thesis using rune_ascii [OF r] c by (simp add: escape_of_def)
  next
    case False
    then show ?thesis using z c by (simp add: escape_of_def)
  qed
qed

lemma escape_str_runes: "list_all rune rs \<Longrightarrow> length (concat rs) \<le> k \<Longrightarrow> escape_str k (concat rs) = concat (map escape_of rs)"
proof (induction rs arbitrary: k)
  case Nil
  then show ?case by (cases k) auto
next
  case (Cons r rs)
  have r: "rune r" "0 < length r" using Cons.prems(1) rune_length by auto
  then obtain j where k: "k = Suc j" using Cons.prems(2) by (cases k) auto
  have "length (concat rs) \<le> j" using Cons.prems(2) r(2) unfolding k concat.simps length_append by linarith
  then show ?case using Cons escape_step [OF r(1)] by (simp add: k)
qed

lemma hex_digit_char: "n < 16 \<Longrightarrow> hex_digit (hex_char n) = Some n"
  by (auto simp: hex_digit_def hex_char_def)

lemma unescape_hex:
  "code c < 128 \<Longrightarrow> unescape (CHR ''u'' # CHR ''0'' # CHR ''0'' # hex_char (code c div 16) # hex_char (code c mod 16) # t) = Some ([c], t)"
proof -
  assume c: "code c < 128"
  have z: "hex_digit (CHR ''0'') = Some 0" by (simp add: hex_digit_def)
  have "code c div 16 < 16" using c by linarith
  then have "hex4 (CHR ''0'' # CHR ''0'' # hex_char (code c div 16) # hex_char (code c mod 16) # t) = Some (code c, t)"
    using hex_digit_char [of "code c div 16"] hex_digit_char [of "code c mod 16"] by (simp add: z)
  then show ?thesis using c by (simp add: unescape_u_def is_surrogate_def encode_rune_def)
qed

lemma parse_ascii: "code c < 128 \<Longrightarrow> parse_str (Suc k) (escape_ascii c @ t) = prepend [c] (parse_str k t)"
proof -
  assume c: "code c < 128"
  consider (safe) "html_safe (code c)" | (two) "\<not> html_safe (code c)" "c \<in> {CHR 0x22, CHR 0x5C, CHR 0x08, CHR 0x0C, CHR 0x0A, CHR 0x0D, CHR 0x09}"
    | (hex) "\<not> html_safe (code c)" "c \<notin> {CHR 0x22, CHR 0x5C, CHR 0x08, CHR 0x0C, CHR 0x0A, CHR 0x0D, CHR 0x09}" by blast
  then show ?thesis
  proof cases
    case safe
    then have "c \<noteq> CHR 0x22" "c \<noteq> CHR 0x5C" "32 \<le> code c" by (auto simp: html_safe_def)
    then show ?thesis using c safe by (simp add: escape_ascii_def)
  next
    case two
    then show ?thesis by (auto simp: escape_ascii_def)
  next
    case hex
    then have e: "escape_ascii c = [CHR 0x5C, CHR ''u'', CHR ''0'', CHR ''0'', hex_char (code c div 16), hex_char (code c mod 16)]"
      by (simp add: escape_ascii_def)
    show ?thesis unfolding e append.simps parse_str.simps unescape_hex [OF c] by simp
  qed
qed

lemma parse_wide:
  assumes r: "rune r" and c: "\<not> code (hd r) < 128"
  shows "parse_str (Suc k) (escape_rune r @ t) = prepend r (parse_str k t)"
proof (cases "r = encode_rune 8232 \<or> r = encode_rune 8233")
  case True
  have "unescape (''u2028'' @ t) = Some (encode_rune 8232, t)" "unescape (''u2029'' @ t) = Some (encode_rune 8233, t)"
    by (simp_all add: unescape_u_def hex_digit_def is_surrogate_def)
  with True show ?thesis by (auto simp: escape_rune_def)
next
  case False
  obtain a q where a: "r = a # q" using r by (cases r) (auto simp: rune_def)
  have "rune_size (a # q @ t) = Suc (length q)" using rune_append [OF r, of t] a by simp
  moreover have "a \<noteq> CHR 0x22" "a \<noteq> CHR 0x5C" "\<not> code a < 32" using c a by auto
  ultimately show ?thesis using False c a by (simp add: escape_rune_def)
qed

lemma parse_escape: "rune r \<Longrightarrow> parse_str (Suc k) (escape_of r @ t) = prepend r (parse_str k t)"
  using rune_ascii [of r] parse_ascii [of "hd r" k t] parse_wide [of r k t] by (auto simp: escape_of_def)

lemma parse_escapes:
  "list_all rune rs \<Longrightarrow> length rs < k \<Longrightarrow> parse_str k (concat (map escape_of rs) @ CHR 0x22 # t) = Some (concat rs, t)"
proof (induction rs arbitrary: k)
  case Nil
  then show ?case by (cases k) auto
next
  case (Cons r rs)
  then obtain j where k: "k = Suc j" "length rs < j" by (cases k) auto
  then show ?case using Cons parse_escape [of r j "concat (map escape_of rs) @ CHR 0x22 # t"] by (simp add: prepend_def)
qed

lemma escape_of_nonempty: "rune r \<Longrightarrow> escape_of r \<noteq> []"
  by (auto simp: escape_of_def escape_ascii_def escape_rune_def rune_def)

lemma escapes_length: "list_all rune rs \<Longrightarrow> length rs \<le> length (concat (map escape_of rs))"
proof (induction rs)
  case (Cons r rs)
  then have "0 < length (escape_of r)" using escape_of_nonempty by simp
  moreover have "length rs \<le> length (concat (map escape_of rs))" using Cons by simp
  ultimately show ?case unfolding list.map concat.simps length_append list.size by linarith
qed simp

theorem parse_print_str: "utf8_valid s \<Longrightarrow> print_str s @ t = CHR 0x22 # q \<Longrightarrow> parse_str (length q) q = Some (s, t)"
proof -
  assume s: "utf8_valid s" and q: "print_str s @ t = CHR 0x22 # q"
  obtain rs where rs: "list_all rune rs" "s = concat rs" using s by (auto simp: utf8_valid_runes)
  have q': "q = concat (map escape_of rs) @ CHR 0x22 # t" using q escape_str_runes [OF rs(1), of "length s"] rs(2) by (simp add: print_str_def)
  then show ?thesis using parse_escapes [OF rs(1), of "length q" t] escapes_length [OF rs(1)] rs(2) by simp
qed

end
