(* ===== verification/Text_Batch_Correct.thy ===== *)
theory Text_Batch_Correct
  imports Text_Batch Go_Literal "HOL-Library.Sublist"
begin

section \<open>Batches carry the streamed text\<close>

text \<open>
  A sink that has received a text keeps it split in two: what was acknowledged, as payloads of non-empty
  valid pieces, and what is pending. The split survives every operation of the sink, and emitting ends.
\<close>

definition good_piece :: "string \<Rightarrow> string \<Rightarrow> bool" where
  "good_piece i d \<longleftrightarrow> d \<noteq> [] \<and> utf8_valid d \<and> length (text_payload i d) \<le> textEventPayloadLimit"

definition splits_text :: "string \<Rightarrow> text_sink \<Rightarrow> string list \<Rightarrow> bool" where
  "splits_text text s ds \<longleftrightarrow> ts_Appended s = map (text_payload (ts_Attempt s)) ds \<and> list_all (good_piece (ts_Attempt s)) ds
     \<and> prefix (concat ds @ ts_Pending s) text \<and> (ts_Err s = None \<longrightarrow> concat ds @ ts_Pending s = text)"

definition sink_inv :: "string \<Rightarrow> text_sink \<Rightarrow> bool" where
  "sink_inv text s \<longleftrightarrow> utf8_valid (ts_Pending s) \<and> (\<exists>ds. splits_text text s ds)
     \<and> (ts_Err s = None \<longrightarrow> 4 \<le> tb_MaxBytes (ts_Config s) \<and> int (length (ts_Pending s)) \<le> tb_MaxBytes (ts_Config s))"

subsection \<open>Payloads\<close>

lemma rune_ends_concat:
  "list_all rune rs \<Longrightarrow> rune_ends at (concat rs) = map (\<lambda>k. at + length (concat (take (Suc k) rs))) [0..<length rs]"
proof (induction rs arbitrary: at)
  case (Cons r rs)
  have r: "rune r" "r \<noteq> []" "rune_size (r @ concat rs) = length r" using Cons.prems rune_append by (auto simp: rune_def)
  have "rune_ends at (concat (r # rs)) = (at + length r) # rune_ends (at + length r) (concat rs)"
    using r by (subst rune_ends.simps) simp
  also have "\<dots> = map (\<lambda>k. at + length (concat (take (Suc k) (r # rs)))) (0 # map Suc [0..<length rs])"
    using Cons by (simp add: add.assoc)
  also have "0 # map Suc [0..<length rs] = [0..<length (r # rs)]" unfolding map_Suc_upt by (simp del: upt_Suc add: upt_conv_Cons)
  finally show ?case .
qed (simp add: rune_ends.simps)

lemma prefix_sound:
  assumes t: "utf8_valid text" "text \<noteq> []" and p: "textPayloadPrefix i text = Inr (body, n)"
  shows "body = text_payload i (take n text) \<and> good_piece i (take n text) \<and> utf8_valid (drop n text) \<and> 0 < n"
proof -
  have n: "0 < n" using prefix_positive [OF p t(2)] .
  have "body = text_payload i (take n text) \<and> payload_fits i text n \<and> utf8_valid (take n text) \<and> utf8_valid (drop n text)"
  proof (cases "payload_fits i text (length text)")
    case True
    then show ?thesis using p t by (auto simp: textPayloadPrefix_def)
  next
    case False
    obtain rs where rs: "list_all rune rs" "text = concat rs" using t(1) by (auto simp: utf8_valid_runes)
    let ?ends = "0 # rune_ends 0 text"
    let ?fits = "\<lambda>k. payload_fits i text (?ends ! k)"
    let ?low = "last_fitting ?fits 0 (length rs)"
    have ends: "?ends ! k = length (concat (take k rs))" if "k \<le> length rs" for k
      using that unfolding rs(2) rune_ends_concat [OF rs(1)] by (cases k) auto
    have len: "length ?ends - 1 = length rs" unfolding rs(2) rune_ends_concat [OF rs(1)] by simp
    have low: "?low \<noteq> 0" "n = ?ends ! ?low" "body = text_payload i (take n text)"
      using p False unfolding textPayloadPrefix_def Let_def len by (auto split: if_splits)
    then have "?low \<le> length rs" "?fits ?low" using last_fitting_range [of 0 "length rs" ?fits] by auto
    moreover from this have "n = length (concat (take ?low rs))" using low(2) ends by metis
    ultimately show ?thesis using low runes_split [OF rs(1), of ?low] rs(2) by metis
  qed
  then show ?thesis using n t(2) by (auto simp: good_piece_def payload_fits_def)
qed

subsection \<open>Flushing\<close>

lemma sink_fail_inv: "sink_inv text s \<Longrightarrow> sink_inv (text @ t) (sink_fail e s)"
  by (auto simp: sink_inv_def sink_fail_def splits_text_def)

lemma err_inv: "sink_inv text s \<Longrightarrow> ts_Err s \<noteq> None \<Longrightarrow> sink_inv (text @ t) s"
  by (auto simp: sink_inv_def splits_text_def)

definition same_sink :: "text_sink \<Rightarrow> text_sink \<Rightarrow> bool" where
  "same_sink s s' \<longleftrightarrow> ts_Attempt s' = ts_Attempt s \<and> ts_Config s' = ts_Config s \<and> ts_Closed s' = ts_Closed s \<and> ts_Once s' = ts_Once s"

lemma same_sink_refl [simp]: "same_sink s s"
  by (simp add: same_sink_def)

lemma same_sink_trans: "same_sink s t \<Longrightarrow> same_sink t r \<Longrightarrow> same_sink s r"
  by (simp add: same_sink_def)

lemma flush_step_inv:
  assumes "sink_inv text s" "ts_Err s = None" "ts_Pending s \<noteq> []" "textPayloadPrefix (ts_Attempt s) (ts_Pending s) = Inr (body, n)"
  shows "sink_inv text (s\<lparr>ts_Pending := drop n (ts_Pending s), ts_Appended := ts_Appended s @ [body]\<rparr>)"
proof -
  obtain ds where ds: "splits_text text s ds" using assms(1) by (auto simp: sink_inv_def)
  have p: "utf8_valid (ts_Pending s)" using assms(1) by (simp add: sink_inv_def)
  note sound = prefix_sound [OF p assms(3,4)]
  have "splits_text text (s\<lparr>ts_Pending := drop n (ts_Pending s), ts_Appended := ts_Appended s @ [body]\<rparr>) (ds @ [take n (ts_Pending s)])"
    using ds sound assms(2) by (auto simp: splits_text_def)
  then show ?thesis using sound assms(1) by (fastforce simp: sink_inv_def)
qed

lemma flush_correct:
  "sink_inv text s \<Longrightarrow> sink_inv text (flush app s) \<and> same_sink s (flush app s) \<and> (ts_Err (flush app s) = None \<longrightarrow> ts_Pending (flush app s) = [])"
proof (induction app s rule: flush.induct)
  case (1 app s)
  show ?case
  proof (cases "ts_Err s \<noteq> None \<or> ts_Pending s = []")
    case True
    then show ?thesis using 1(2) by (subst (1 2 3 4) flush.simps) (auto simp: same_sink_def)
  next
    case False
    let ?p = "textPayloadPrefix (ts_Attempt s) (ts_Pending s)"
    have failed: "sink_inv text (sink_fail e s) \<and> same_sink s (sink_fail e s) \<and> ts_Err (sink_fail e s) \<noteq> None" for e
      using sink_fail_inv [OF 1(2), of "[]" e] False by (auto simp: sink_fail_def same_sink_def)
    show ?thesis
    proof (cases ?p)
      case (Inl e)
      then have eq: "flush app s = sink_fail (SinkDomain e) s" using False by (subst flush.simps) simp
      show ?thesis using failed [of "SinkDomain e"] unfolding eq by auto
    next
      case (Inr b)
      obtain body n where b: "b = (body, n)" by fastforce
      let ?s = "s\<lparr>ts_Pending := drop n (ts_Pending s), ts_Appended := ts_Appended s @ [body]\<rparr>"
      show ?thesis
      proof (cases "app (length (ts_Appended s)) body")
        case None
        have eq: "flush app s = flush app ?s" using False Inr b None by (subst flush.simps) simp
        have "sink_inv text ?s" using flush_step_inv [OF 1(2)] False Inr b by simp
        then show ?thesis using 1(1) [OF False Inr b [symmetric] None] unfolding eq by (simp add: same_sink_def)
      next
        case (Some e)
        have eq: "flush app s = sink_fail (SinkAppend e) s" using False Inr b Some by (subst flush.simps) simp
        show ?thesis using failed [of "SinkAppend e"] unfolding eq by auto
      qed
    qed
  qed
qed

subsection \<open>Emitting\<close>

lemma cut_back_le: "cut_back d n \<le> n"
  by (induction d n rule: cut_back.induct) auto

lemma cut_back_start: "cut_back d n = 0 \<or> length d \<le> cut_back d n \<or> rune_start (d ! cut_back d n)"
  by (induction d n rule: cut_back.induct) auto

lemma cut_back_ge: "k \<le> n \<Longrightarrow> length d \<le> k \<or> rune_start (d ! k) \<Longrightarrow> k \<le> cut_back d n"
proof (induction d n rule: cut_back.induct)
  case (2 d n)
  then show ?case by (cases "k = Suc n") auto
qed simp

lemma take_size_cut: "utf8_valid d \<Longrightarrow> utf8_valid (take (take_size s d) d) \<and> utf8_valid (drop (take_size s d) d)"
proof -
  assume d: "utf8_valid d"
  let ?n = "take_size s d"
  have "?n \<le> length d" using cut_back_le [of d] by (simp add: take_size_def) (meson le_trans nat_le_iff min.cobounded2)
  moreover have "?n = 0 \<or> length d \<le> ?n \<or> rune_start (d ! ?n)" unfolding take_size_def by (rule cut_back_start)
  ultimately show ?thesis using utf8_cut [OF d, of ?n] d by (cases "?n = length d") auto
qed

lemma take_size_room: "0 < take_size s d \<Longrightarrow> int (length (ts_Pending s) + take_size s d) \<le> tb_MaxBytes (ts_Config s)"
  using cut_back_le [of d "nat (min (tb_MaxBytes (ts_Config s) - int (length (ts_Pending s))) (int (length d)))"]
  by (auto simp: take_size_def)

text \<open>A sink with nothing pending takes at least one rune.\<close>

lemma take_size_progress:
  assumes d: "utf8_valid d" "d \<noteq> []" and s: "ts_Pending s = []" "4 \<le> tb_MaxBytes (ts_Config s)"
  shows "0 < take_size s d"
proof -
  let ?n = "nat (min (tb_MaxBytes (ts_Config s)) (int (length d)))"
  have eq: "take_size s d = cut_back d ?n" using s(1) by (simp add: take_size_def)
  show ?thesis
  proof (cases "?n = length d")
    case True
    then show ?thesis using cut_back_ge [of "length d" ?n d] d(2) unfolding eq length_greater_0_conv [symmetric] by linarith
  next
    case False
    then have n: "?n < length d" "4 \<le> ?n" using s(2) by auto
    obtain rs where rs: "list_all rune rs" "d = concat rs" using d(1) by (auto simp: utf8_valid_runes)
    with n(1) obtain k where "k \<le> ?n" "?n < k + 4" "rune_start (d ! k)" using runes_dense by blast
    then show ?thesis using cut_back_ge [of k ?n d] n(2) unfolding eq by linarith
  qed
qed

definition after_take :: "append_fun \<Rightarrow> text_sink \<Rightarrow> string \<Rightarrow> text_sink" where
  "after_take app s d =
     (let n = take_size s d;
          s1 = s\<lparr>ts_Pending := ts_Pending s @ take n d\<rparr>
      in if n = 0 then flush app s
         else if int (length (ts_Pending s1)) = tb_MaxBytes (ts_Config s) then flush app s1 else s1)"

lemma emit_loop_step:
  "d \<noteq> [] \<Longrightarrow> emit_loop app s d =
     (if ts_Err (after_take app s d) \<noteq> None then Some (after_take app s d, ts_Err (after_take app s d))
      else emit_loop app (after_take app s d) (drop (take_size s d) d))"
  by (subst emit_loop.simps) (simp add: after_take_def Let_def)

lemma pending_ok:
  assumes "sink_inv text s" "ts_Err s = None" "utf8_valid d" "0 < take_size s d"
  shows "sink_inv (text @ take (take_size s d) d) (s\<lparr>ts_Pending := ts_Pending s @ take (take_size s d) d\<rparr>)"
proof -
  have "utf8_valid (ts_Pending s @ take (take_size s d) d)"
    using assms(1) take_size_cut [OF assms(3)] utf8_valid_append by (auto simp: sink_inv_def)
  moreover have "int (length (ts_Pending s @ take (take_size s d) d)) \<le> tb_MaxBytes (ts_Config s)"
    using take_size_room [OF assms(4)] by simp
  moreover obtain ds where "splits_text text s ds" using assms(1) by (auto simp: sink_inv_def)
  then have "splits_text (text @ take (take_size s d) d) (s\<lparr>ts_Pending := ts_Pending s @ take (take_size s d) d\<rparr>) ds"
    using assms(2) by (auto simp: splits_text_def)
  ultimately show ?thesis using assms(1,2) by (auto simp: sink_inv_def)
qed

lemma after_take_inv:
  assumes "sink_inv text s" "ts_Err s = None" "utf8_valid d"
  shows "sink_inv (text @ take (take_size s d) d) (after_take app s d) \<and> same_sink s (after_take app s d)"
proof -
  let ?n = "take_size s d"
  let ?s1 = "s\<lparr>ts_Pending := ts_Pending s @ take ?n d\<rparr>"
  show ?thesis
  proof (cases "?n = 0")
    case True
    then show ?thesis using flush_correct [OF assms(1)] by (simp add: after_take_def)
  next
    case False
    then have "sink_inv (text @ take ?n d) ?s1" using pending_ok [OF assms] by simp
    then show ?thesis using flush_correct [of "text @ take ?n d" ?s1] False by (simp add: after_take_def Let_def same_sink_def)
  qed
qed

text \<open>Each round takes a part of the text or empties what is pending.\<close>

definition emit_rank :: "text_sink \<Rightarrow> string \<Rightarrow> nat" where
  "emit_rank s d = 2 * length d + (if ts_Pending s = [] then 0 else 1)"

lemma after_take_rank:
  assumes "sink_inv text s" "ts_Err s = None" "utf8_valid d" "d \<noteq> []" "ts_Err (after_take app s d) = None"
  shows "emit_rank (after_take app s d) (drop (take_size s d) d) < emit_rank s d"
proof (cases "take_size s d = 0")
  case True
  then have "ts_Pending s \<noteq> []" using take_size_progress [OF assms(3,4), of s] assms(1,2) by (auto simp: sink_inv_def)
  moreover have "ts_Pending (after_take app s d) = []"
    using flush_correct [OF assms(1), of app] assms(5) True by (simp add: after_take_def)
  ultimately show ?thesis using True by (simp add: emit_rank_def)
next
  case False
  then have "length (drop (take_size s d) d) < length d" using assms(4) by simp
  then show ?thesis unfolding emit_rank_def by (auto split: if_splits)
qed

lemma emit_loop_correct:
  "sink_inv u s \<Longrightarrow> ts_Err s = None \<Longrightarrow> utf8_valid d \<Longrightarrow>
   \<exists>s'. emit_loop app s d = Some (s', ts_Err s') \<and> sink_inv (u @ d) s' \<and> same_sink s s'"
proof (induction "emit_rank s d" arbitrary: u s d rule: less_induct)
  case less
  show ?case
  proof (cases "d = []")
    case True
    then show ?thesis using less.prems by (subst emit_loop.simps) simp
  next
    case False
    let ?n = "take_size s d"
    let ?s = "after_take app s d"
    have inv: "sink_inv (u @ take ?n d) ?s" and same: "same_sink s ?s" using after_take_inv less.prems by blast+
    show ?thesis
    proof (cases "ts_Err ?s = None")
      case True
      have "utf8_valid (drop ?n d)" using take_size_cut [OF less.prems(3)] by blast
      from less.hyps [OF after_take_rank [OF less.prems False True] inv True this]
      show ?thesis using emit_loop_step [OF False] True same_sink_trans [OF same] by (fastforce simp del: not_None_eq)
    next
      case err: False
      then show ?thesis using err_inv [OF inv err, of "drop ?n d"] emit_loop_step [OF False] same by simp
    qed
  qed
qed

lemma emit_correct:
  assumes "sink_inv u s" "\<not> ts_Closed s"
  shows "\<exists>s' e. sink_emit app kind d s = Some (s', e) \<and> sink_inv (u @ (if kind = EvTextDelta then d else [])) s' \<and> same_sink s s'"
proof (cases "ts_Err s = None \<and> kind = EvTextDelta \<and> utf8_valid d")
  case True
  then show ?thesis using emit_loop_correct [of u s d app] assms by (auto simp: sink_emit_def)
next
  case False
  then show ?thesis using assms err_inv [OF assms(1), of d] sink_fail_inv [OF assms(1), of d]
    by (auto simp: sink_emit_def Let_def same_sink_def sink_fail_def)
qed

subsection \<open>Runs of a sink\<close>

definition emitted :: "sink_action list \<Rightarrow> string" where
  "emitted as = concat (map (\<lambda>a. case a of SaEmit kind d \<Rightarrow> if kind = EvTextDelta then d else [] | SaTick \<Rightarrow> []) as)"

lemma run_correct:
  "sink_inv u s \<Longrightarrow> \<not> ts_Closed s \<Longrightarrow> \<exists>s'. sink_run app as s = Some s' \<and> sink_inv (u @ emitted as) s' \<and> same_sink s s'"
proof (induction app as s arbitrary: u rule: sink_run.induct)
  case (1 app s)
  then show ?case by (simp add: emitted_def)
next
  case (2 app as s)
  have f: "sink_inv u (flush app s)" "same_sink s (flush app s)" using flush_correct [OF 2(2)] by blast+
  then have "\<not> ts_Closed (flush app s)" using 2(3) by (simp add: same_sink_def)
  from 2(1) [OF f(1) this] show ?case using same_sink_trans [OF f(2)] by (auto simp: emitted_def)
next
  case (3 app kind d as s)
  let ?u = "u @ (if kind = EvTextDelta then d else [])"
  obtain s' e where e: "sink_emit app kind d s = Some (s', e)" "sink_inv ?u s'" "same_sink s s'" using emit_correct [OF 3(2,3)] by blast
  then have "\<not> ts_Closed s'" using 3(3) by (simp add: same_sink_def)
  from 3(1) [OF e(1) refl e(2) this] show ?case using e(1) same_sink_trans [OF e(3)] by (auto simp: emitted_def)
qed

lemma new_sink_inv: "sink_inv [] (newTextSink i cfg) \<and> \<not> ts_Closed (newTextSink i cfg) \<and> \<not> ts_Once (newTextSink i cfg)
    \<and> ts_Attempt (newTextSink i cfg) = i"
  by (auto simp: newTextSink_def TextBatch_Normalize_def Let_def sink_inv_def splits_text_def split: sum.splits if_splits)

lemma close_correct:
  assumes "sink_inv u s" "\<not> ts_Once s" "sink_close app s = (s', e)"
  shows "e = ts_Err s' \<and> sink_inv u s' \<and> ts_Attempt s' = ts_Attempt s \<and> (e = None \<longrightarrow> ts_Pending s' = [])"
proof -
  have "sink_inv u (s\<lparr>ts_Once := True, ts_Closed := True\<rparr>)" using assms(1) by (auto simp: sink_inv_def splits_text_def)
  from flush_correct [OF this, of app] show ?thesis using assms(2,3) by (auto simp: sink_close_def Let_def same_sink_def)
qed

subsection \<open>What a reader decodes\<close>

definition text_fields :: "string \<Rightarrow> string \<Rightarrow> jvalue" where
  "text_fields i d = JObject [(''attempt_id'', JString i), (''delta'', JString d), (''provisional'', JBool True)]"

lemma skip_ws_print [simp]: "skip_ws (print_str s @ t) = print_str s @ t"
  by (simp add: skip_ws_def is_ws_def print_str_def)

lemma parse_value_str: "utf8_valid s \<Longrightarrow> parse_value (Suc k) n (print_str s @ t) = Some (JString s, t)"
proof -
  assume s: "utf8_valid s"
  obtain q where q: "print_str s @ t = CHR 0x22 # q" by (simp add: print_str_def)
  have "skip_ws (CHR 0x22 # q) = CHR 0x22 # q" by (simp add: skip_ws_def is_ws_def)
  then show ?thesis using parse_print_str [OF s q] unfolding q by simp
qed

lemma parse_member:
  assumes "utf8_valid key" "parse_value k n q = Some (v, c # r)" "c \<in> {CHR '','', CHR ''}''}"
  shows "parse_members (Suc k) n m (print_str key @ CHR '':'' # q) =
     (if c = CHR '','' then parse_members k n (map_put key v m) r else Some (map_put key v m, r))"
proof -
  obtain p where p: "print_str key @ CHR '':'' # q = CHR 0x22 # p" by (simp add: print_str_def)
  have "skip_ws (CHR 0x22 # p) = CHR 0x22 # p" "skip_ws (CHR '':'' # q) = CHR '':'' # q" "skip_ws (c # r) = c # r"
    using assms(3) by (auto simp: skip_ws_def is_ws_def)
  then show ?thesis using parse_print_str [OF assms(1) p] assms(2,3) unfolding p by auto
qed

lemma parse_object:
  "take 1 (skip_ws r) \<noteq> ''}'' \<Longrightarrow> parse_members k (Suc 0) [] r = Some (m, q) \<Longrightarrow> parse_value (Suc k) 0 (CHR ''{'' # r) = Some (JObject m, q)"
  by (simp add: skip_ws_def is_ws_def max_nesting_def)

lemma payload_print:
  "text_payload i d = CHR ''{'' # print_str ''attempt_id'' @ CHR '':'' # print_str i @ CHR '','' # print_str ''provisional'' @ CHR '':'' # ''true'' @ CHR '','' # print_str ''delta'' @ CHR '':'' # print_str d @ CHR ''}'' # []"
  by (simp add: text_payload_def quoted_def print_str_def escape_ascii_def html_safe_def)

lemma payload_decodes:
  assumes "utf8_valid i" "utf8_valid d"
  shows "parse_json (text_payload i d) = Some (text_fields i d)"
proof -
  have keys: "utf8_valid ''attempt_id''" "utf8_valid ''provisional''" "utf8_valid ''delta''"
    by (simp_all add: utf8_valid_def rune_size.simps)
  have true: "parse_value (Suc k) n (''true'' @ t) = Some (JBool True, t)" for k n t
    by (simp add: skip_ws_def is_ws_def strip_prefix_def)
  let ?rest = "tl (text_payload i d)"
  have m: "parse_members (Suc (Suc (Suc (Suc k)))) n [] ?rest = Some ([(''attempt_id'', JString i), (''delta'', JString d), (''provisional'', JBool True)], [])" for k n
    unfolding payload_print list.sel
    by (simp add: parse_member [OF keys(1) parse_value_str [OF assms(1)]] parse_member [OF keys(2) true]
        parse_member [OF keys(3) parse_value_str [OF assms(2)]] del: parse_members.simps parse_value.simps append.simps)
  obtain k where k: "length (text_payload i d) + length (text_payload i d) = Suc (Suc (Suc (Suc k)))"
    by (simp add: payload_print)
  have no: "take 1 (skip_ws ?rest) \<noteq> ''}''" by (simp add: payload_print skip_ws_def is_ws_def print_str_def)
  have eq: "text_payload i d = CHR ''{'' # ?rest" by (simp add: payload_print)
  have "parse_value (Suc (Suc (length (text_payload i d) + length (text_payload i d)))) 0 (text_payload i d)
      = parse_value (Suc (Suc (Suc (Suc (Suc (Suc k)))))) 0 (CHR ''{'' # ?rest)" using k eq by simp
  also have "\<dots> = Some (text_fields i d, [])" using parse_object [OF no m [of "Suc k" "Suc 0"]] by (simp add: text_fields_def)
  finally have "parse_value (Suc (Suc (length (text_payload i d) + length (text_payload i d)))) 0 (text_payload i d) = Some (text_fields i d, [])" .
  then show ?thesis by (simp add: parse_json_def skip_ws_def)
qed

subsection \<open>The properties\<close>

text \<open>
  C34. The text batches of a model attempt carry the streamed text exactly. After any stream of events and
  ticks, and a close, every payload that was acknowledged fits the event ceiling of 32768 bytes and decodes
  to the attempt, the provisional mark and a non-empty piece of text; the pieces in order are a prefix of
  the emitted text, whatever the store answered, and all of it when the close reported no error. No rune is
  split between two pieces.
\<close>

theorem text_batches_exact:
  assumes "utf8_valid i" and "sink_run app as (newTextSink i cfg) = Some s" and "sink_close app s = (s', e)"
  shows "\<exists>ds. map parse_json (ts_Appended s') = map (\<lambda>d. Some (text_fields i d)) ds
      \<and> list_all (\<lambda>d. d \<noteq> [] \<and> utf8_valid d) ds \<and> list_all (\<lambda>b. length b \<le> textEventPayloadLimit) (ts_Appended s')
      \<and> prefix (concat ds) (emitted as) \<and> (e = None \<longrightarrow> concat ds = emitted as)"
proof -
  note new = new_sink_inv [of i cfg]
  have s: "sink_inv (emitted as) s" "same_sink (newTextSink i cfg) s"
    using run_correct [of "[]" "newTextSink i cfg" app as] new assms(2) by auto
  then have c: "e = ts_Err s'" "sink_inv (emitted as) s'" "ts_Attempt s' = i" "e = None \<longrightarrow> ts_Pending s' = []"
    using close_correct [OF s(1) _ assms(3)] new by (auto simp: same_sink_def)
  then obtain ds where ds: "splits_text (emitted as) s' ds" by (auto simp: sink_inv_def)
  have "map parse_json (ts_Appended s') = map (\<lambda>d. Some (text_fields i d)) ds"
    using ds c(3) payload_decodes [OF assms(1)] by (auto simp: splits_text_def good_piece_def list_all_iff)
  then show ?thesis using ds c by (intro exI [of _ ds]) (auto simp: splits_text_def good_piece_def list_all_iff dest: append_prefixD)
qed

lemma run_demo:
  "sink_run (\<lambda>n b. None) [SaEmit EvTextDelta ''hi''] (newTextSink ''a'' \<lparr>tb_Interval = 0, tb_MaxBytes = 0\<rparr>) =
     Some (newTextSink ''a'' \<lparr>tb_Interval = 0, tb_MaxBytes = 0\<rparr>\<lparr>ts_Pending := ''hi''\<rparr>)"
proof -
  have n: "cut_back ''hi'' 2 = 2" by (simp add: numeral_2_eq_2)
  show ?thesis
    by (simp add: sink_emit_def newTextSink_def TextBatch_Normalize_def utf8_valid_def rune_size.simps emit_loop_step after_take_def
        take_size_def n emit_loop.simps [of _ _ "[]"])
qed

lemma close_demo:
  "snd (sink_close (\<lambda>n b. None) (newTextSink ''a'' \<lparr>tb_Interval = 0, tb_MaxBytes = 0\<rparr>\<lparr>ts_Pending := ''hi''\<rparr>)) = None"
proof -
  have "payload_fits ''a'' ''hi'' 2"
    by (simp add: payload_fits_def textEventPayloadLimit_def payload_print print_str_def escape_ascii_def html_safe_def)
  then have p: "textPayloadPrefix ''a'' ''hi'' = Inr (text_payload ''a'' ''hi'', 2)" by (simp add: textPayloadPrefix_def numeral_2_eq_2)
  have idle: "ts_Pending s = [] \<Longrightarrow> flush app s = s" for app s by (subst flush.simps) simp
  show ?thesis
    by (simp add: sink_close_def newTextSink_def TextBatch_Normalize_def) (subst flush.simps, simp add: p idle)
qed

theorem text_batches_exact_witness:
  "\<exists>s s' ds. sink_run (\<lambda>n b. None) [SaEmit EvTextDelta ''hi''] (newTextSink ''a'' \<lparr>tb_Interval = 0, tb_MaxBytes = 0\<rparr>) = Some s
      \<and> sink_close (\<lambda>n b. None) s = (s', None) \<and> map parse_json (ts_Appended s') = map (\<lambda>d. Some (text_fields ''a'' d)) ds
      \<and> concat ds = ''hi''"
proof -
  let ?s = "newTextSink ''a'' \<lparr>tb_Interval = 0, tb_MaxBytes = 0\<rparr>\<lparr>ts_Pending := ''hi''\<rparr>"
  obtain s' where c: "sink_close (\<lambda>n b. None) ?s = (s', None)" using close_demo by (metis prod.collapse)
  have "utf8_valid ''a''" by (simp add: utf8_valid_def rune_size.simps)
  from text_batches_exact [OF this run_demo c] show ?thesis using run_demo c by (fastforce simp: emitted_def)
qed

text \<open>
  C40. Streaming text never gets stuck in the sink: for every configuration and whatever the store answers, each call of
  \<open>emit\<close> returns, so a whole run of a sink has a result. A configuration that passes validation leaves room for a
  rune of four bytes, which is what the loop needs to make progress.
\<close>

theorem text_sink_returns: "\<exists>s. sink_run app as (newTextSink i cfg) = Some s"
  using run_correct [of "[]" "newTextSink i cfg" app as] new_sink_inv [of i cfg] by auto

end
