(* ===== verification/Run_Tables.thy ===== *)
theory Run_Tables
  imports Model_Pricing Runtime_Reducer Forge_Table "HOL-Library.Product_Lexorder" "HOL-Library.Option_ord"
begin

section \<open>The tables of the run store (internal/persistence/store.go, db/migrations)\<close>

text \<open>
  The run store is a database. A table is the list of its rows, a row is a record with the columns the
  sources use, and a NULL column is \<open>None\<close>; the text columns \<open>runner_id\<close>, \<open>receipt_ref\<close> and the like, which
  the sources read through \<open>coalesce(x,'')\<close>, are empty instead. The JSON columns hold the decoded
  values: \<open>snapshot\<close> is a \<^typ>\<open>state\<close>, \<open>pending_commands\<close> a command batch, an event carries its payload
  as a value. \<open>-infinity\<close> in a time column is \<open>None\<close>.

  A transaction locks the rows it changes before it reads them, so it is one function of the database
  and the clock values it reads. \<open>SErrDatabase\<close> is a statement that violates a constraint of the schema.
\<close>

datatype store_err = SErr err | SErrDatabase

record model_route =
  mr_Provider :: string
  mr_Model :: string

record run_config =
  cf_Provider :: string
  cf_Model :: string
  cf_Fallback :: "model_route option"
  cf_MaxModelRounds :: u64
  cf_MaxToolCalls :: u64
  cf_MaxCost :: money
  cf_MaxRuntimeSeconds :: int
  cf_MaxNoProgressBatches :: u64

record tenant_row =
  tn_TenantID :: string
  tn_MaxActive :: int
  tn_ActiveCount :: int
  tn_LastDispatched :: "gotime option"

record member_row =
  mb_TenantID :: string
  mb_PrincipalID :: string
  mb_Role :: string

record project_row =
  pj_TenantID :: string
  pj_ID :: string
  pj_Name :: string
  pj_SourceID :: string
  pj_ProfileID :: string

record runner_row =
  rn_ID :: string
  rn_Endpoint :: string
  rn_MaxSlots :: int
  rn_ReservedSlots :: int
  rn_Enabled :: bool

datatype alloc_state = AllocReserved | AllocActive | AllocReleased | AllocUncertain

record alloc_row =
  al_TenantID :: string
  al_RunID :: string
  al_RunnerID :: string
  al_Epoch :: u64
  al_State :: alloc_state
  al_Slots :: int

text \<open>\<open>acceptedInput\<close> of \<open>input.go\<close>, the hold of \<open>snapshot_compatibility.go\<close>, and a row of \<open>runs\<close>.\<close>

record accepted_input =
  ai_ProjectID :: string
  ai_Task :: string
  ai_BaseCommit :: string
  ai_SourceID :: string
  ai_ProfileID :: string

record snapshot_hold =
  sh_At :: gotime
  sh_Schema :: nat

record persisted_run =
  rr_TenantID :: string
  rr_ID :: string
  rr_ProjectID :: string
  rr_PrincipalID :: string
  rr_ParentRunID :: string
  rr_Task :: string
  rr_BaseCommit :: string
  rr_Input :: accepted_input
  rr_Priority :: int
  rr_Config :: run_config
  rr_State :: run_status
  rr_Version :: u64
  rr_Snapshot :: state
  rr_Commands :: "command list"
  rr_LeaseOwner :: string
  rr_LeaseEpoch :: u64
  rr_LeaseUntil :: "gotime option"
  rr_LeaseYielded :: bool
  rr_RunnerID :: string
  rr_WorkspaceID :: string
  rr_NotBefore :: "gotime option"
  rr_RunnableAt :: "gotime option"
  rr_NextEventSeq :: nat
  rr_RetainedFrom :: nat
  rr_CreatedAt :: gotime
  rr_UpdatedAt :: gotime
  rr_Hold :: "snapshot_hold option"

record snapshot_row =
  sn_TenantID :: string
  sn_RunID :: string
  sn_Version :: u64
  sn_StepSeq :: u64
  sn_Body :: state
  sn_Input :: "(state \<times> event) option"

record stored_message =
  mg_TenantID :: string
  mg_RunID :: string
  mg_Seq :: nat
  mg_PrincipalID :: string
  mg_Text :: string
  mg_AppliedStep :: "u64 option"

record step_row =
  sp_TenantID :: string
  sp_RunID :: string
  sp_Seq :: u64
  sp_Kind :: stage
  sp_OutputRef :: string

record effect_row =
  er_TenantID :: string
  er_RunID :: string
  er_StepSeq :: u64
  er_Ordinal :: int
  er_OperationID :: string
  er_Kind :: string
  er_Args :: bytes
  er_ArgsHash :: string
  er_ExpectedRevision :: u64
  er_Epoch :: u64
  er_PolicyVersion :: string
  er_Status :: effect_status
  er_ReceiptRef :: string

record approval_row =
  aw_TenantID :: string
  aw_ID :: string
  aw_RunID :: string
  aw_Binding :: approval_binding
  aw_Decision :: "bool option"
  aw_PrincipalID :: string

text \<open>\<open>AttemptFailurePolicy\<close>, and a row of \<open>model_attempts\<close>: the attempt with its frozen prices and its failure.\<close>

record failure_policy =
  fp_Code :: string
  fp_Outcome :: string
  fp_Retry :: bool
  fp_NotBefore :: gotime

record attempt_row = model_attempt +
  at_Pricing :: "attempt_pricing option"
  at_Failure :: "failure_policy option"

record artifact_row =
  af_TenantID :: string
  af_ID :: string
  af_RunID :: string
  af_Kind :: string
  af_ObjectKey :: string
  af_SHA256 :: string
  af_ByteSize :: int
  af_Ready :: bool

text \<open>The compact progress that \<open>progressEvent\<close> publishes of a transition, and the payloads of the other events.\<close>

record progress_payload =
  pp_Version :: u64
  pp_State :: run_status
  pp_Stage :: stage
  pp_StepSeq :: u64
  pp_WorkspaceRevision :: u64
  pp_ModelRounds :: u64
  pp_ToolCalls :: u64
  pp_Cost :: money
  pp_Verification :: verification_status
  pp_OutputRef :: string
  pp_ReportRef :: string
  pp_Reason :: string
  pp_Progress :: "(u64 \<times> string \<times> string) option"
  pp_NotBefore :: "gotime option"
  pp_Operation :: "(string \<times> string) option"
  pp_ReceiptRef :: "string option"

datatype event_payload =
    PayState state
  | PayProgress progress_payload
  | PayApproval string approval_binding
  | PayMessage nat string
  | PayArtifact artifact_row
  | PayNotBefore gotime
  | PayAttempt string u64
  | PayHandoff string string model_route model_route
  | PayFailure string failure_policy
  | PayRaw bytes

record event_row =
  xe_TenantID :: string
  xe_RunID :: string
  xe_Seq :: nat
  xe_Type :: string
  xe_Payload :: event_payload

record idem_row =
  ik_TenantID :: string
  ik_PrincipalID :: string
  ik_Route :: string
  ik_Key :: string
  ik_RequestHash :: string
  ik_ResourceID :: string
  ik_Message :: "(nat \<times> string) option"

record run_db =
  db_Tenants :: "tenant_row list"
  db_Members :: "member_row list"
  db_Projects :: "project_row list"
  db_Runners :: "runner_row list"
  db_Allocs :: "alloc_row list"
  db_Runs :: "persisted_run list"
  db_Snapshots :: "snapshot_row list"
  db_Messages :: "stored_message list"
  db_Steps :: "step_row list"
  db_Effects :: "effect_row list"
  db_Approvals :: "approval_row list"
  db_Attempts :: "attempt_row list"
  db_Artifacts :: "artifact_row list"
  db_Events :: "event_row list"
  db_Idem :: "idem_row list"

definition empty_store :: run_db where
  "empty_store = \<lparr>db_Tenants = [], db_Members = [], db_Projects = [], db_Runners = [], db_Allocs = [], db_Runs = [],
     db_Snapshots = [], db_Messages = [], db_Steps = [], db_Effects = [], db_Approvals = [], db_Attempts = [],
     db_Artifacts = [], db_Events = [], db_Idem = []\<rparr>"

type_synonym run_id = "string \<times> string"

abbreviation run_id :: "persisted_run \<Rightarrow> run_id" where "run_id r \<equiv> (rr_TenantID r, rr_ID r)"
abbreviation alloc_key :: "alloc_row \<Rightarrow> run_id" where "alloc_key a \<equiv> (al_TenantID a, al_RunID a)"
abbreviation event_run :: "event_row \<Rightarrow> run_id" where "event_run x \<equiv> (xe_TenantID x, xe_RunID x)"
abbreviation snapshot_run :: "snapshot_row \<Rightarrow> run_id" where "snapshot_run x \<equiv> (sn_TenantID x, sn_RunID x)"
abbreviation message_run :: "stored_message \<Rightarrow> run_id" where "message_run m \<equiv> (mg_TenantID m, mg_RunID m)"
abbreviation effect_run :: "effect_row \<Rightarrow> run_id" where "effect_run e \<equiv> (er_TenantID e, er_RunID e)"
abbreviation effect_op :: "effect_row \<Rightarrow> run_id" where "effect_op e \<equiv> (er_TenantID e, er_OperationID e)"
abbreviation artifact_key :: "artifact_row \<Rightarrow> run_id" where "artifact_key a \<equiv> (af_TenantID a, af_ID a)"
abbreviation approval_key :: "approval_row \<Rightarrow> run_id" where "approval_key a \<equiv> (aw_TenantID a, aw_ID a)"

text \<open>\<open>ORDER BY f LIMIT 1\<close>; identifiers are compared by their bytes.\<close>

definition first_by :: "('r \<Rightarrow> 'k::linorder) \<Rightarrow> 'r list \<Rightarrow> 'r option" where
  "first_by f rows = (case sort_key f rows of [] \<Rightarrow> None | r # _ \<Rightarrow> Some r)"

lemma first_by_mem: "first_by f rows = Some r \<Longrightarrow> r \<in> set rows"
  by (auto simp: first_by_def split: list.splits) (metis list.set_intros(1) set_sort)

lemma first_by_least: "first_by f rows = Some r \<Longrightarrow> x \<in> set rows \<Longrightarrow> f r \<le> f x"
proof -
  assume a: "first_by f rows = Some r" "x \<in> set rows"
  then obtain rs where rs: "sort_key f rows = r # rs" by (auto simp: first_by_def split: list.splits)
  have "sorted (map f (r # rs))" using sorted_sort_key [of f rows] by (simp add: rs)
  moreover have "x \<in> set (r # rs)" using a(2) set_sort [of f rows] by (simp add: rs)
  ultimately show ?thesis by auto
qed

lemma first_by_None: "first_by f rows = None \<longleftrightarrow> rows = []"
proof -
  have "sort_key f rows = [] \<longleftrightarrow> rows = []" by (metis length_0_conv length_sort)
  then show ?thesis by (auto simp: first_by_def split: list.splits)
qed

subsection \<open>Reading a run\<close>

text \<open>The overlay of \<open>getRun\<close>: the lease columns are authoritative over the snapshot.\<close>

definition row_lease :: "persisted_run \<Rightarrow> lease" where
  "row_lease r = \<lparr>ls_Owner = rr_LeaseOwner r, ls_Epoch = rr_LeaseEpoch r,
     ls_Until = (case rr_LeaseUntil r of None \<Rightarrow> 0 | Some u \<Rightarrow> u)\<rparr>"

definition run_State :: "persisted_run \<Rightarrow> state" where
  "run_State r = (rr_Snapshot r)\<lparr>st_Lease := row_lease r\<rparr>"

text \<open>\<open>supportedSnapshotSQL\<close> and \<open>DecodeSnapshotHeader\<close> on a decoded snapshot.\<close>

definition supported_header :: "state \<Rightarrow> bool" where
  "supported_header s \<longleftrightarrow> st_SchemaVersion s = 1 \<or> st_SchemaVersion s = SnapshotSchemaVersion"

definition supportedSnapshot :: "persisted_run \<Rightarrow> bool" where
  "supportedSnapshot r \<longleftrightarrow> rr_Hold r = None \<and> supported_header (rr_Snapshot r)"

definition find_run :: "run_db \<Rightarrow> string \<Rightarrow> string \<Rightarrow> persisted_run option" where
  "find_run db t i = tfind run_id (t, i) (db_Runs db)"

definition getRun :: "run_db \<Rightarrow> string \<Rightarrow> string \<Rightarrow> store_err + persisted_run" where
  "getRun db t i =
     (case find_run db t i of
        None \<Rightarrow> Inl (SErr ErrNotFound)
      | Some r \<Rightarrow> if \<not> supportedSnapshot r then Inl (SErr ErrSnapshotMigration) else Inr r)"

definition upd_run :: "string \<Rightarrow> string \<Rightarrow> (persisted_run \<Rightarrow> persisted_run) \<Rightarrow> run_db \<Rightarrow> run_db" where
  "upd_run t i f db = db\<lparr>db_Runs := tmodify run_id (t, i) f (db_Runs db)\<rparr>"

definition lease_held :: "persisted_run \<Rightarrow> string \<Rightarrow> u64 \<Rightarrow> gotime \<Rightarrow> bool" where
  "lease_held r owner epoch clk \<longleftrightarrow> rr_LeaseOwner r = owner \<and> rr_LeaseEpoch r = epoch
     \<and> (case rr_LeaseUntil r of None \<Rightarrow> False | Some u \<Rightarrow> clk < u)"

text \<open>A transaction that fails is rolled back.\<close>

definition commit :: "run_db \<Rightarrow> store_err + run_db \<times> 'a \<Rightarrow> run_db \<times> (store_err + 'a)" where
  "commit db m = (case m of Inl e \<Rightarrow> (db, Inl e) | Inr (db', x) \<Rightarrow> (db', Inr x))"

text \<open>\<open>uint64\<close> values are written to \<open>bigint\<close> columns: above the signed range the statement fails.\<close>

definition bigints :: "u64 list \<Rightarrow> store_err + unit" where
  "bigints ws = require (list_all (\<lambda>w. unat w < 2 ^ 63) ws) SErrDatabase"

subsection \<open>Counters and events\<close>

definition tenant_checks :: "tenant_row \<Rightarrow> bool" where
  "tenant_checks t \<longleftrightarrow> 0 \<le> tn_ActiveCount t \<and> tn_ActiveCount t \<le> tn_MaxActive t"

definition runner_checks :: "runner_row \<Rightarrow> bool" where
  "runner_checks n \<longleftrightarrow> 0 < rn_MaxSlots n \<and> 0 \<le> rn_ReservedSlots n \<and> rn_ReservedSlots n \<le> rn_MaxSlots n"

definition add_active :: "string \<Rightarrow> int \<Rightarrow> run_db \<Rightarrow> store_err + run_db" where
  "add_active t k db =
     (let rows = tmodify tn_TenantID t (\<lambda>x. x\<lparr>tn_ActiveCount := tn_ActiveCount x + k\<rparr>) (db_Tenants db)
      in if list_all tenant_checks rows then Inr (db\<lparr>db_Tenants := rows\<rparr>) else Inl SErrDatabase)"

definition add_slots :: "string \<Rightarrow> int \<Rightarrow> run_db \<Rightarrow> store_err + run_db" where
  "add_slots n k db =
     (let rows = tmodify rn_ID n (\<lambda>x. x\<lparr>rn_ReservedSlots := rn_ReservedSlots x + k\<rparr>) (db_Runners db)
      in if list_all runner_checks rows then Inr (db\<lparr>db_Runners := rows\<rparr>) else Inl SErrDatabase)"

definition set_dispatched :: "string \<Rightarrow> gotime \<Rightarrow> run_db \<Rightarrow> run_db" where
  "set_dispatched t now db =
     db\<lparr>db_Tenants := tmodify tn_TenantID t (\<lambda>x. x\<lparr>tn_LastDispatched := Some now\<rparr>) (db_Tenants db)\<rparr>"

definition appendEvent :: "string \<Rightarrow> string \<Rightarrow> string \<Rightarrow> event_payload \<Rightarrow> run_db \<Rightarrow> store_err + run_db" where
  "appendEvent t i kind payload db =
     (case find_run db t i of
        None \<Rightarrow> Inl (SErr ErrNotFound)
      | Some r \<Rightarrow>
          (let x = \<lparr>xe_TenantID = t, xe_RunID = i, xe_Seq = rr_NextEventSeq r, xe_Type = kind, xe_Payload = payload\<rparr>
           in if \<exists>y \<in> set (db_Events db). event_run y = (t, i) \<and> xe_Seq y = xe_Seq x then Inl SErrDatabase
              else Inr ((upd_run t i (\<lambda>r. r\<lparr>rr_NextEventSeq := rr_NextEventSeq r + 1\<rparr>) db)
                          \<lparr>db_Events := tinsert x (db_Events db)\<rparr>)))"

definition releaseAllocation :: "string \<Rightarrow> string \<Rightarrow> run_db \<Rightarrow> store_err + run_db" where
  "releaseAllocation t i db =
     (case tfind alloc_key (t, i) (db_Allocs db) of
        None \<Rightarrow> Inr db
      | Some a \<Rightarrow>
          if al_State a = AllocReleased then Inr db
          else
            res_bind (add_slots (al_RunnerID a) (- al_Slots a)
                (db\<lparr>db_Allocs := tmodify alloc_key (t, i) (\<lambda>a. a\<lparr>al_State := AllocReleased\<rparr>) (db_Allocs db)\<rparr>)) (\<lambda>db.
            add_active t (- 1) db))"

end
