(* ===== verification/Run_Persist.thy ===== *)
theory Run_Persist
  imports Run_Tables
begin

section \<open>Persisting a transition (internal/persistence/scheduler.go)\<close>

text \<open>
  \<open>persistTransition\<close> writes the outcome of \<open>Transition\<close> in the caller's transaction, statement by
  statement. \<open>clk\<close> is the clock value its fenced UPDATE reads. Its result is the database after the last
  statement, or the first error.
\<close>

definition in_kinds :: "event_kind \<Rightarrow> event_kind list \<Rightarrow> bool" where
  "in_kinds k ks \<longleftrightarrow> k \<in> set ks"

definition event_name :: "event_kind \<Rightarrow> string" where
  "event_name k =
     (case k of
        EventClaimed \<Rightarrow> ''claimed'' | EventCapacityRejected \<Rightarrow> ''capacity_rejected''
      | EventWorkspaceReady \<Rightarrow> ''workspace_ready'' | EventWorkspaceAdopted \<Rightarrow> ''workspace_adopted''
      | EventContextBuilt \<Rightarrow> ''context_built'' | EventModelCompleted \<Rightarrow> ''model_completed''
      | EventToolsValidated \<Rightarrow> ''tools_validated'' | EventEffectCompleted \<Rightarrow> ''effect_completed''
      | EventEffectUncertain \<Rightarrow> ''effect_uncertain'' | EventResultsIngested \<Rightarrow> ''results_ingested''
      | EventApprovalDecided \<Rightarrow> ''approval_decided'' | EventVerificationCompleted \<Rightarrow> ''verification_completed''
      | EventFinalized \<Rightarrow> ''finalized'' | EventCancelRequested \<Rightarrow> ''cancel_requested''
      | EventCancellationConfirmed \<Rightarrow> ''cancellation_confirmed'' | EventResumeRequested \<Rightarrow> ''resume_requested''
      | EventReconciled \<Rightarrow> ''reconciled'' | EventFailed \<Rightarrow> ''failed'' | EventBudgetReached \<Rightarrow> ''budget_reached''
      | EventOther s \<Rightarrow> s)"

definition eventType :: "event_kind \<Rightarrow> string" where
  "eventType k =
     (case k of
        EventWorkspaceReady \<Rightarrow> ''workspace.prepared''
      | EventWorkspaceAdopted \<Rightarrow> ''workspace.adopted''
      | EventContextBuilt \<Rightarrow> ''step.started''
      | EventModelCompleted \<Rightarrow> ''model.completed''
      | EventToolsValidated \<Rightarrow> ''tool.planned''
      | EventEffectCompleted \<Rightarrow> ''tool.finished''
      | EventReconciled \<Rightarrow> ''tool.finished''
      | EventVerificationCompleted \<Rightarrow> ''validation.finished''
      | EventFinalized \<Rightarrow> ''run.finished''
      | EventCancellationConfirmed \<Rightarrow> ''run.finished''
      | _ \<Rightarrow> ''run.'' @ event_name k)"

definition progressEvent :: "state \<Rightarrow> event \<Rightarrow> progress_payload" where
  "progressEvent s e = \<lparr>
     pp_Version = st_Version s, pp_State = st_Status s, pp_Stage = st_Stage s, pp_StepSeq = st_StepSeq s,
     pp_WorkspaceRevision = st_WorkspaceRevision s, pp_ModelRounds = st_ModelRounds s, pp_ToolCalls = st_ToolCalls s,
     pp_Cost = st_Cost s, pp_Verification = st_Verification s, pp_OutputRef = st_OutputRef s,
     pp_ReportRef = st_VerificationReportRef s,
     pp_Reason = (if 2048 < length (st_FailureReason s) then take 2048 (st_FailureReason s) @ '' [truncated]'' else st_FailureReason s),
     pp_Progress = map_option (\<lambda>p. (ps_RepeatedBatches p, ps_Classification p, ev_ProgressRef e)) (st_Progress s),
     pp_NotBefore = ev_NotBefore e,
     pp_Operation = map_option (\<lambda>f. (ef_ID f, ef_ArgsHash f)) (st_PendingEffect s),
     pp_ReceiptRef = map_option rc_Ref (ev_Receipt e)\<rparr>"

subsection \<open>The statements\<close>

text \<open>The kinds of event that a lease holder does not send: their UPDATE is not fenced by the lease.\<close>

definition lease_free :: "event_kind \<Rightarrow> bool" where
  "lease_free k \<longleftrightarrow> in_kinds k [EventClaimed, EventCancelRequested, EventApprovalDecided, EventResumeRequested]"

definition set_runnable :: "state \<Rightarrow> event \<Rightarrow> run_db \<Rightarrow> run_db" where
  "set_runnable next e db =
     (if in_kinds (ev_Kind e) [EventApprovalDecided, EventResumeRequested, EventCapacityRejected] then
        let adm = (case ev_NotBefore e of None \<Rightarrow> ev_At e | Some nb \<Rightarrow> if ev_At e < nb then nb else ev_At e)
        in upd_run (st_TenantID next) (st_RunID next) (\<lambda>r. r\<lparr>rr_RunnableAt := Some adm\<rparr>) db
      else db)"

definition write_state :: "state \<Rightarrow> command list \<Rightarrow> gotime \<Rightarrow> persisted_run \<Rightarrow> persisted_run" where
  "write_state next cs clk r = r\<lparr>
     rr_Snapshot := next, rr_State := st_Status next, rr_Version := st_Version next,
     rr_LeaseOwner := ls_Owner (st_Lease next), rr_LeaseEpoch := ls_Epoch (st_Lease next),
     rr_LeaseUntil := (if ls_Until (st_Lease next) = 0 then None else Some (ls_Until (st_Lease next))),
     rr_Commands := cs, rr_UpdatedAt := clk\<rparr>"

definition update_run :: "state \<Rightarrow> state \<Rightarrow> command list \<Rightarrow> event \<Rightarrow> gotime \<Rightarrow> run_db \<Rightarrow> store_err + run_db" where
  "update_run prev next cs e clk db =
     res_bind (bigints [st_Version next, ls_Epoch (st_Lease next), st_Version prev, ev_Epoch e]) (\<lambda>_.
     case find_run db (st_TenantID next) (st_RunID next) of
       None \<Rightarrow> Inl (SErr ErrFenced)
     | Some r \<Rightarrow>
         if rr_Version r = st_Version prev \<and> supportedSnapshot r
            \<and> (lease_free (ev_Kind e) \<or> lease_held r (ev_Owner e) (ev_Epoch e) clk)
         then Inr (upd_run (st_TenantID next) (st_RunID next) (write_state next cs clk) db)
         else Inl (SErr ErrFenced))"

definition upsert_step :: "state \<Rightarrow> run_db \<Rightarrow> store_err + run_db" where
  "upsert_step next db =
     res_bind (bigints [st_StepSeq next]) (\<lambda>_.
     let k = (st_TenantID next, st_RunID next, st_StepSeq next);
         key = (\<lambda>s. (sp_TenantID s, sp_RunID s, sp_Seq s)) in
     case tfind key k (db_Steps db) of
       Some _ \<Rightarrow> Inr (db\<lparr>db_Steps := tmodify key k (\<lambda>s. s\<lparr>sp_Kind := st_Stage next, sp_OutputRef := st_OutputRef next\<rparr>) (db_Steps db)\<rparr>)
     | None \<Rightarrow> Inr (db\<lparr>db_Steps := tinsert \<lparr>sp_TenantID = st_TenantID next, sp_RunID = st_RunID next, sp_Seq = st_StepSeq next,
                  sp_Kind = st_Stage next, sp_OutputRef = st_OutputRef next\<rparr> (db_Steps db)\<rparr>))"

definition effect_of :: "string \<Rightarrow> string \<Rightarrow> u64 \<Rightarrow> int \<Rightarrow> u64 \<Rightarrow> effect_status \<Rightarrow> effect \<Rightarrow> effect_row" where
  "effect_of t i step ordinal epoch status e = \<lparr>
     er_TenantID = t, er_RunID = i, er_StepSeq = step, er_Ordinal = ordinal, er_OperationID = ef_ID e, er_Kind = ef_Kind e,
     er_Args = ef_Args e, er_ArgsHash = ef_ArgsHash e, er_ExpectedRevision = ef_ExpectedRevision e, er_Epoch = epoch,
     er_PolicyVersion = ef_PolicyVersion e, er_Status = status, er_ReceiptRef = []\<rparr>"

text \<open>The primary key, the unique position in a step and the CHECK on the epoch of \<open>effects\<close>.\<close>

definition insert_effect :: "effect_row \<Rightarrow> run_db \<Rightarrow> store_err + run_db" where
  "insert_effect x db =
     res_bind (bigints [er_StepSeq x, er_ExpectedRevision x, er_Epoch x]) (\<lambda>_.
     if er_Epoch x = 0 \<or> (\<exists>y \<in> set (db_Effects db). effect_op y = effect_op x
          \<or> (effect_run y = effect_run x \<and> er_StepSeq y = er_StepSeq x \<and> er_Ordinal y = er_Ordinal x))
     then Inl SErrDatabase
     else Inr (db\<lparr>db_Effects := tinsert x (db_Effects db)\<rparr>))"

fun insert_effects :: "state \<Rightarrow> int \<Rightarrow> effect list \<Rightarrow> run_db \<Rightarrow> store_err + run_db" where
  "insert_effects next n [] db = Inr db"
| "insert_effects next n (e # es) db =
     res_bind (insert_effect (effect_of (st_TenantID next) (st_RunID next) (st_StepSeq next) n (ls_Epoch (st_Lease next)) EffectPlanned e) db)
       (insert_effects next (n + 1) es)"

definition upd_effect :: "string \<Rightarrow> string \<Rightarrow> string \<Rightarrow> (effect_row \<Rightarrow> bool) \<Rightarrow> (effect_row \<Rightarrow> effect_row) \<Rightarrow> run_db \<Rightarrow> run_db" where
  "upd_effect t i op P f db =
     db\<lparr>db_Effects := map (\<lambda>x. if effect_run x = (t, i) \<and> er_OperationID x = op \<and> P x then f x else x) (db_Effects db)\<rparr>"

definition write_pending :: "state \<Rightarrow> run_db \<Rightarrow> store_err + run_db" where
  "write_pending next db =
     (case st_PendingEffect next of
        None \<Rightarrow> Inr db
      | Some e \<Rightarrow>
          let epoch = (if ef_DispatchEpoch e = 0 then ls_Epoch (st_Lease next) else ef_DispatchEpoch e) in
          res_bind (bigints [ef_ExpectedRevision e, epoch]) (\<lambda>_.
          if epoch = 0 then Inl SErrDatabase
          else Inr (upd_effect (st_TenantID next) (st_RunID next) (ef_ID e) (\<lambda>_. True)
            (\<lambda>x. x\<lparr>er_Status := ef_Status e, er_ExpectedRevision := ef_ExpectedRevision e, er_Epoch := epoch,
                    er_ReceiptRef := ef_ReceiptRef e\<rparr>) db)))"

definition write_receipt :: "state \<Rightarrow> event \<Rightarrow> run_db \<Rightarrow> run_db" where
  "write_receipt next e db =
     (case ev_Receipt e of
        None \<Rightarrow> db
      | Some c \<Rightarrow> upd_effect (st_TenantID next) (st_RunID next) (rc_EffectID c) (\<lambda>x. er_ArgsHash x = rc_ArgsHash c)
            (\<lambda>x. x\<lparr>er_Status := rc_Status c, er_ReceiptRef := rc_Ref c\<rparr>) db)"

definition approval_id :: "approval_binding \<Rightarrow> string" where
  "approval_id a = ap_EffectID a @ ''_approval''"

text \<open>The foreign key of \<open>approvals\<close> needs the row of the effect.\<close>

definition write_approval :: "state \<Rightarrow> run_db \<Rightarrow> store_err + run_db" where
  "write_approval next db =
     (case st_Approval next of
        None \<Rightarrow> Inr db
      | Some a \<Rightarrow>
          if st_Status next \<noteq> StatusWaitingApproval then Inr db
          else
            res_bind (bigints [ap_WorkspaceRevision a, ap_Version a]) (\<lambda>_.
            if tfind approval_key (st_TenantID next, approval_id a) (db_Approvals db) \<noteq> None then Inr db
            else if \<not> (\<exists>x \<in> set (db_Effects db). effect_run x = (st_TenantID next, st_RunID next) \<and> er_OperationID x = ap_EffectID a)
            then Inl SErrDatabase
            else Inr (db\<lparr>db_Approvals := tinsert \<lparr>aw_TenantID = st_TenantID next, aw_ID = approval_id a, aw_RunID = st_RunID next,
                   aw_Binding = a\<lparr>ap_Granted := False\<rparr>, aw_Decision = None, aw_PrincipalID = []\<rparr> (db_Approvals db)\<rparr>)))"

definition release_idle :: "state \<Rightarrow> run_db \<Rightarrow> store_err + run_db" where
  "release_idle next db =
     (if RunStatus_Terminal (st_Status next) \<or> st_Status next = StatusWaitingApproval
      then releaseAllocation (st_TenantID next) (st_RunID next) db else Inr db)"

definition writeSnapshot :: "state \<Rightarrow> (state \<times> event) option \<Rightarrow> run_db \<Rightarrow> store_err + run_db" where
  "writeSnapshot s input db =
     res_bind (bigints [st_Version s, st_StepSeq s]) (\<lambda>_.
     if \<exists>x \<in> set (db_Snapshots db). snapshot_run x = (st_TenantID s, st_RunID s) \<and> sn_Version x = st_Version s
     then Inl SErrDatabase
     else Inr (db\<lparr>db_Snapshots := tinsert \<lparr>sn_TenantID = st_TenantID s, sn_RunID = st_RunID s, sn_Version = st_Version s,
                 sn_StepSeq = st_StepSeq s, sn_Body = s, sn_Input = input\<rparr> (db_Snapshots db)\<rparr>))"

definition announce_transition :: "state \<Rightarrow> state \<Rightarrow> event \<Rightarrow> string \<Rightarrow> run_db \<Rightarrow> store_err + run_db" where
  "announce_transition prev next e kind db =
     (let t = st_TenantID next; i = st_RunID next; body = PayProgress (progressEvent next e) in
      res_bind (appendEvent t i kind body db) (\<lambda>db.
      res_bind (case st_Approval next of
           Some a \<Rightarrow> if st_Status next = StatusWaitingApproval \<and> st_Status prev \<noteq> StatusWaitingApproval
                     then appendEvent t i ''approval.required'' (PayApproval (approval_id a) a) db else Inr db
         | None \<Rightarrow> Inr db) (\<lambda>db.
      if RunStatus_Terminal (st_Status next) \<and> kind \<noteq> ''run.finished''
      then appendEvent t i ''run.finished'' body db else Inr db)))"

definition persistTransition :: "state \<Rightarrow> state \<Rightarrow> command list \<Rightarrow> event \<Rightarrow> string \<Rightarrow> gotime \<Rightarrow> run_db \<Rightarrow> store_err + run_db" where
  "persistTransition prev next cs e kind clk db =
     (if st_Version prev = st_Version next then Inr db
      else
        res_bind (update_run prev next cs e clk (set_runnable next e db)) (\<lambda>db.
        res_bind (upsert_step next db) (\<lambda>db.
        res_bind (insert_effects next 0 (ev_Effects e) db) (\<lambda>db.
        res_bind (write_pending next db) (\<lambda>db.
        res_bind (write_approval next (write_receipt next e db)) (\<lambda>db.
        res_bind (release_idle next db) (\<lambda>db.
        res_bind (writeSnapshot next (Some (prev, e)) db) (\<lambda>db.
        announce_transition prev next e kind db))))))))"

end
