(* ===== verification/Run_Store.thy ===== *)
theory Run_Store
  imports Run_Persist
begin

section \<open>The transactions of the run store (internal/persistence)\<close>

text \<open>
  One definition per method that changes the database. \<open>now\<close> is the clock value a transaction reads first and
  \<open>clk\<close> the one its last fenced statement reads. Generated identifiers are arguments. \<open>sha\<close> is the
  hexadecimal SHA-256 digest, \<open>rhash\<close> and \<open>fhash\<close> are the digests of the JSON encodings of a submission and
  of a progress frame. Waking the workers (\<open>pg_notify\<close>) and telemetry have no effect on the tables.
\<close>

definition plain_event :: "event_kind \<Rightarrow> u64 \<Rightarrow> gotime \<Rightarrow> event" where
  "plain_event k v at = \<lparr>ev_Progress = None, ev_ProgressRef = [], ev_Kind = k, ev_ExpectedVersion = v, ev_Owner = [], ev_Epoch = 0,
     ev_At = at, ev_NotBefore = None, ev_Lease = None, ev_WorkspaceRevision = 0, ev_OutputRef = [], ev_Complete = False,
     ev_Finish = False, ev_Effects = [], ev_Receipt = None, ev_Approval = None, ev_Verification = None, ev_Stop = None,
     ev_Cost = 0, ev_Reason = []\<rparr>"

definition valid_or :: "string \<Rightarrow> store_err + unit" where
  "valid_or i = (case ID_Validate i of None \<Rightarrow> Inr () | Some e \<Rightarrow> Inl (SErr e))"

text \<open>\<open>Transition\<close> on the run as read, and its persistence.\<close>

definition transit :: "(bytes \<Rightarrow> string) \<Rightarrow> persisted_run \<Rightarrow> event \<Rightarrow> string \<Rightarrow> gotime \<Rightarrow> run_db \<Rightarrow> store_err + run_db" where
  "transit sha r e kind clk db =
     (case Transition sha (run_State r) e of
        (_, _, Some er) \<Rightarrow> Inl (SErr er)
      | (next, cs, None) \<Rightarrow> persistTransition (run_State r) next cs e kind clk db)"

text \<open>The run that a transaction returns is read again before the commit.\<close>

definition reread :: "string \<Rightarrow> string \<Rightarrow> run_db \<Rightarrow> store_err + run_db \<times> persisted_run" where
  "reread t i db = res_bind (getRun db t i) (\<lambda>r. Inr (db, r))"

definition lockTenant :: "string \<Rightarrow> run_db \<Rightarrow> store_err + unit" where
  "lockTenant t db = require (tfind tn_TenantID t (db_Tenants db) \<noteq> None) (SErr ErrNotFound)"

subsection \<open>Submission\<close>

record submit_request =
  sq_TenantID :: string
  sq_PrincipalID :: string
  sq_ProjectID :: string
  sq_ParentRunID :: string
  sq_Priority :: int
  sq_Task :: string
  sq_BaseCommit :: string
  sq_Config :: run_config

definition PrimaryRoute :: "run_config \<Rightarrow> model_route" where
  "PrimaryRoute c = \<lparr>mr_Provider = cf_Provider c, mr_Model = cf_Model c\<rparr>"

definition Config_Validate :: "run_config \<Rightarrow> store_err + unit" where
  "Config_Validate c =
     (if 20 < cf_MaxNoProgressBatches c \<or> cf_Provider c = [] \<or> cf_Model c = [] \<or> cf_MaxModelRounds c = 0 \<or> cf_MaxToolCalls c = 0
         \<or> 1000 < cf_MaxModelRounds c \<or> 10000 < cf_MaxToolCalls c \<or> cf_MaxCost c < 0
         \<or> cf_MaxRuntimeSeconds c < 1 \<or> 86400 < cf_MaxRuntimeSeconds c then Inl (SErr ErrInvalid)
      else
        (case cf_Fallback c of
           None \<Rightarrow> Inr ()
         | Some f \<Rightarrow> if mr_Provider f = [] \<or> mr_Model f = [] \<or> f = PrimaryRoute c \<or> cf_MaxCost c \<le> 0
                     then Inl (SErr ErrInvalid) else Inr ()))"

definition snapshotInput :: "submit_request \<Rightarrow> run_db \<Rightarrow> store_err + accepted_input" where
  "snapshotInput q db =
     (case tfind (\<lambda>p. (pj_TenantID p, pj_ID p)) (sq_TenantID q, sq_ProjectID q) (db_Projects db) of
        None \<Rightarrow> Inl (SErr ErrNotFound)
      | Some p \<Rightarrow> Inr \<lparr>ai_ProjectID = sq_ProjectID q, ai_Task = sq_Task q, ai_BaseCommit = sq_BaseCommit q,
                      ai_SourceID = pj_SourceID p, ai_ProfileID = pj_ProfileID p\<rparr>)"

definition parent_input :: "submit_request \<Rightarrow> run_db \<Rightarrow> store_err + accepted_input option" where
  "parent_input q db =
     (if sq_ParentRunID q = [] then Inr None
      else
        res_bind (getRun db (sq_TenantID q) (sq_ParentRunID q)) (\<lambda>p.
        if rr_ProjectID p \<noteq> sq_ProjectID q \<or> rr_Task p \<noteq> sq_Task q \<or> rr_BaseCommit p \<noteq> sq_BaseCommit q
           \<or> \<not> RunStatus_Terminal (rr_State p)
        then Inl (SErr ErrConflict) else Inr (Some (rr_Input p))))"

definition submit_route :: "submit_request \<Rightarrow> string" where
  "submit_route q = ''/v1/projects/'' @ sq_ProjectID q @ ''/runs''"

definition find_idem :: "run_db \<Rightarrow> string \<Rightarrow> string \<Rightarrow> string \<Rightarrow> string \<Rightarrow> idem_row option" where
  "find_idem db t p route key =
     tfind (\<lambda>k. (ik_TenantID k, ik_PrincipalID k, ik_Route k, ik_Key k)) (t, p, route, key) (db_Idem db)"

definition new_row :: "submit_request \<Rightarrow> string \<Rightarrow> accepted_input \<Rightarrow> gotime \<Rightarrow> persisted_run" where
  "new_row q i input now =
     (let c = (sq_Config q)\<lparr>cf_MaxNoProgressBatches := (if cf_MaxNoProgressBatches (sq_Config q) = 0
                then DefaultNoProgressBatches else cf_MaxNoProgressBatches (sq_Config q))\<rparr>;
          s = NewState (sq_TenantID q) i \<lparr>lm_MaxNoProgressBatches = cf_MaxNoProgressBatches c, lm_MaxModelRounds = cf_MaxModelRounds c,
                lm_MaxToolCalls = cf_MaxToolCalls c, lm_MaxCost = cf_MaxCost c,
                lm_Deadline = now + cf_MaxRuntimeSeconds c * 1000000000\<rparr>
      in \<lparr>rr_TenantID = sq_TenantID q, rr_ID = i, rr_ProjectID = sq_ProjectID q, rr_PrincipalID = sq_PrincipalID q,
          rr_ParentRunID = sq_ParentRunID q, rr_Task = sq_Task q, rr_BaseCommit = sq_BaseCommit q, rr_Input = input,
          rr_Priority = sq_Priority q, rr_Config = c, rr_State = st_Status s, rr_Version = st_Version s, rr_Snapshot = s,
          rr_Commands = [], rr_LeaseOwner = [], rr_LeaseEpoch = 0, rr_LeaseUntil = None, rr_LeaseYielded = False,
          rr_RunnerID = [], rr_WorkspaceID = [], rr_NotBefore = None, rr_RunnableAt = Some now, rr_NextEventSeq = 1,
          rr_RetainedFrom = 1, rr_CreatedAt = now, rr_UpdatedAt = now, rr_Hold = None\<rparr>)"

text \<open>The row of a new run with its first snapshot and its first event.\<close>

definition insert_run :: "persisted_run \<Rightarrow> run_db \<Rightarrow> store_err + run_db" where
  "insert_run r db =
     (if find_run db (rr_TenantID r) (rr_ID r) \<noteq> None then Inl SErrDatabase
      else
        res_bind (writeSnapshot (rr_Snapshot r) None (db\<lparr>db_Runs := tinsert r (db_Runs db)\<rparr>)) (\<lambda>db.
        appendEvent (rr_TenantID r) (rr_ID r) ''run.created'' (PayState (rr_Snapshot r)) db))"

definition submit_checks :: "submit_request \<Rightarrow> string \<Rightarrow> store_err + unit" where
  "submit_checks q key =
     res_bind (valid_or (sq_TenantID q)) (\<lambda>_. res_bind (valid_or (sq_PrincipalID q)) (\<lambda>_. res_bind (valid_or (sq_ProjectID q)) (\<lambda>_.
     res_bind (if sq_ParentRunID q = [] then Inr () else valid_or (sq_ParentRunID q)) (\<lambda>_.
     if sq_Priority q < -2 \<or> 2 < sq_Priority q then Inl (SErr ErrInvalid)
     else if length key < 1 \<or> 128 < length key \<or> blank (sq_Task q) \<or> 64000 < length (sq_Task q) \<or> sq_BaseCommit q = []
     then Inl (SErr ErrInvalid)
     else Config_Validate (sq_Config q)))))"

definition Submit :: "(submit_request \<Rightarrow> string) \<Rightarrow> submit_request \<Rightarrow> string \<Rightarrow> string \<Rightarrow> gotime \<Rightarrow> run_db \<Rightarrow> run_db \<times> (store_err + persisted_run \<times> bool)" where
  "Submit rhash q key i now db = commit db (
     res_bind (submit_checks q key) (\<lambda>_.
     res_bind (parent_input q db) (\<lambda>inherited.
     case find_idem db (sq_TenantID q) (sq_PrincipalID q) (submit_route q) key of
       Some k \<Rightarrow>
         if ik_RequestHash k \<noteq> rhash q then Inl (SErr ErrConflict)
         else res_bind (getRun db (sq_TenantID q) (ik_ResourceID k)) (\<lambda>r. Inr (db, r, True))
     | None \<Rightarrow>
         if tfind tn_TenantID (sq_TenantID q) (db_Tenants db) = None then Inl SErrDatabase
         else
           let db1 = db\<lparr>db_Idem := tinsert \<lparr>ik_TenantID = sq_TenantID q, ik_PrincipalID = sq_PrincipalID q, ik_Route = submit_route q,
                 ik_Key = key, ik_RequestHash = rhash q, ik_ResourceID = i, ik_Message = None\<rparr> (db_Idem db)\<rparr> in
           res_bind (case inherited of Some x \<Rightarrow> Inr x | None \<Rightarrow> snapshotInput q db1) (\<lambda>input.
           res_bind (insert_run (new_row q i input now) db1) (\<lambda>db2.
           res_bind (getRun db2 (sq_TenantID q) i) (\<lambda>r. Inr (db2, r, False)))))))"

subsection \<open>Claims and leases\<close>

definition claimable_state :: "run_status \<Rightarrow> bool" where
  "claimable_state s \<longleftrightarrow> s \<in> {StatusQueued, StatusRunning, StatusCancelRequested, StatusNeedsReconciliation}"

definition leasable_state :: "run_status \<Rightarrow> bool" where
  "leasable_state s \<longleftrightarrow> s \<in> {StatusRunning, StatusCancelRequested, StatusNeedsReconciliation}"

definition unreleased :: "alloc_row \<Rightarrow> bool" where
  "unreleased a \<longleftrightarrow> al_State a \<noteq> AllocReleased"

definition allocated :: "run_db \<Rightarrow> string \<Rightarrow> string \<Rightarrow> alloc_row option" where
  "allocated db t i = (case tfind alloc_key (t, i) (db_Allocs db) of Some a \<Rightarrow> if unreleased a then Some a else None | None \<Rightarrow> None)"

definition runnable :: "run_db \<Rightarrow> gotime \<Rightarrow> string \<Rightarrow> tenant_row \<Rightarrow> persisted_run \<Rightarrow> bool" where
  "runnable db now pref t r \<longleftrightarrow>
     rr_TenantID r = tn_TenantID t \<and> rr_Hold r = None
     \<and> (case rr_NotBefore r of None \<Rightarrow> True | Some nb \<Rightarrow> nb \<le> now)
     \<and> (case rr_LeaseUntil r of None \<Rightarrow> True | Some u \<Rightarrow> u \<le> now)
     \<and> (pref = [] \<or> rr_RunnerID r = [] \<or> rr_RunnerID r = pref) \<and> claimable_state (rr_State r)
     \<and> (tn_ActiveCount t < tn_MaxActive t \<or> allocated db (rr_TenantID r) (rr_ID r) \<noteq> None)"

text \<open>Rows that another transaction holds are skipped (\<open>SKIP LOCKED\<close>).\<close>

record locked_rows =
  lk_Tenant :: "string \<Rightarrow> bool"
  lk_Run :: "string \<Rightarrow> bool"
  lk_Runner :: "string \<Rightarrow> bool"

definition pick_tenant :: "locked_rows \<Rightarrow> gotime \<Rightarrow> string \<Rightarrow> run_db \<Rightarrow> tenant_row option" where
  "pick_tenant lk now pref db = first_by (\<lambda>t. (tn_LastDispatched t, tn_TenantID t))
     (filter (\<lambda>t. \<not> lk_Tenant lk (tn_TenantID t) \<and> list_ex (runnable db now pref t) (db_Runs db)) (db_Tenants db))"

definition pick_run :: "locked_rows \<Rightarrow> gotime \<Rightarrow> string \<Rightarrow> tenant_row \<Rightarrow> run_db \<Rightarrow> persisted_run option" where
  "pick_run lk now pref t db = first_by (\<lambda>r. (rr_CreatedAt r, rr_ID r))
     (filter (\<lambda>r. \<not> lk_Run lk (rr_ID r) \<and> runnable db now pref t r) (db_Runs db))"

definition pick_runner :: "locked_rows \<Rightarrow> string \<Rightarrow> persisted_run \<Rightarrow> run_db \<Rightarrow> runner_row option" where
  "pick_runner lk pref r db =
     (case allocated db (rr_TenantID r) (rr_ID r) of
        Some a \<Rightarrow> List.find (\<lambda>n. rn_ID n = al_RunnerID a \<and> rn_Enabled n \<and> (pref = [] \<or> rn_ID n = pref)) (db_Runners db)
      | None \<Rightarrow> first_by (\<lambda>n. (rn_ReservedSlots n, rn_ID n))
          (filter (\<lambda>n. rn_Enabled n \<and> rn_ReservedSlots n < rn_MaxSlots n \<and> (rr_RunnerID r = [] \<or> rn_ID n = rr_RunnerID r)
                     \<and> (pref = [] \<or> rn_ID n = pref) \<and> \<not> lk_Runner lk (rn_ID n)) (db_Runners db)))"

definition holdSnapshot :: "persisted_run \<Rightarrow> gotime \<Rightarrow> run_db \<Rightarrow> run_db" where
  "holdSnapshot r now db =
     set_dispatched (rr_TenantID r) now (upd_run (rr_TenantID r) (rr_ID r)
       (\<lambda>x. if rr_Hold x = None then x\<lparr>rr_Hold := Some \<lparr>sh_At = now, sh_Schema = st_SchemaVersion (rr_Snapshot x)\<rparr>\<rparr> else x) db)"

definition postpone :: "persisted_run \<Rightarrow> gotime \<Rightarrow> run_db \<Rightarrow> run_db" where
  "postpone r now db =
     set_dispatched (rr_TenantID r) now (upd_run (rr_TenantID r) (rr_ID r) (\<lambda>x. x\<lparr>rr_NotBefore := Some (now + 1000000000)\<rparr>) db)"

text \<open>The slot of a run: counted once for its tenant and its runner while the allocation is not released.\<close>

definition reserve_slot :: "string \<Rightarrow> string \<Rightarrow> string \<Rightarrow> u64 \<Rightarrow> run_db \<Rightarrow> store_err + run_db" where
  "reserve_slot t i n epoch db =
     res_bind (if allocated db t i = None then res_bind (add_active t 1 db) (add_slots n 1) else Inr db) (\<lambda>db.
     res_bind (bigints [epoch]) (\<lambda>_.
     case tfind alloc_key (t, i) (db_Allocs db) of
       None \<Rightarrow> Inr (db\<lparr>db_Allocs := tinsert \<lparr>al_TenantID = t, al_RunID = i, al_RunnerID = n, al_Epoch = epoch,
                          al_State = AllocReserved, al_Slots = 1\<rparr> (db_Allocs db)\<rparr>)
     | Some _ \<Rightarrow> Inr (db\<lparr>db_Allocs := tmodify alloc_key (t, i) (\<lambda>a. a\<lparr>al_Epoch := epoch, al_State := AllocReserved\<rparr>) (db_Allocs db)\<rparr>)))"

definition assign_runner :: "string \<Rightarrow> persisted_run \<Rightarrow> persisted_run" where
  "assign_runner n r = r\<lparr>rr_RunnerID := n, rr_WorkspaceID := rr_ID r, rr_LeaseYielded := False\<rparr>"

definition claim_event :: "persisted_run \<Rightarrow> string \<Rightarrow> duration \<Rightarrow> gotime \<Rightarrow> event" where
  "claim_event r owner dur now =
     (let l = \<lparr>ls_Owner = owner, ls_Epoch = rr_LeaseEpoch r + 1, ls_Until = now + dur\<rparr>
      in (plain_event EventClaimed (st_Version (run_State r)) now)\<lparr>ev_Owner := owner, ev_Epoch := ls_Epoch l, ev_Lease := Some l\<rparr>)"

definition claim_on :: "(bytes \<Rightarrow> string) \<Rightarrow> persisted_run \<Rightarrow> string \<Rightarrow> string \<Rightarrow> duration \<Rightarrow> gotime \<Rightarrow> gotime \<Rightarrow> run_db \<Rightarrow> store_err + run_db \<times> persisted_run" where
  "claim_on sha r n owner dur now clk db =
     (let t = rr_TenantID r; i = rr_ID r; e = claim_event r owner dur now in
      case Transition sha (run_State r) e of
        (_, _, Some er) \<Rightarrow> Inl (SErr er)
      | (next, cs, None) \<Rightarrow>
          res_bind (reserve_slot t i n (rr_LeaseEpoch r + 1) db) (\<lambda>db.
          res_bind (persistTransition (run_State r) next cs e ''run.claimed'' clk
                      (upd_run t i (assign_runner n) (set_dispatched t now db))) (\<lambda>db.
          reread t i db)))"

definition claim_run :: "(bytes \<Rightarrow> string) \<Rightarrow> locked_rows \<Rightarrow> string \<Rightarrow> duration \<Rightarrow> string \<Rightarrow> gotime \<Rightarrow> gotime \<Rightarrow> run_db \<Rightarrow> run_db \<times> (store_err + persisted_run)" where
  "claim_run sha lk owner dur pref now clk db =
     (if owner = [] \<or> dur < 1000000000 \<or> 300000000000 < dur then (db, Inl (SErr ErrInvalid))
      else
        case pick_tenant lk now pref db of None \<Rightarrow> (db, Inl (SErr ErrNotFound)) | Some t \<Rightarrow>
        case pick_run lk now pref t db of None \<Rightarrow> (db, Inl (SErr ErrNotFound)) | Some r \<Rightarrow>
        if \<not> supportedSnapshot r then (holdSnapshot r now db, Inl (SErr ErrSnapshotMigration))
        else
          case pick_runner lk pref r db of
            None \<Rightarrow> (postpone r now db, Inl (SErr ErrCapacity))
          | Some n \<Rightarrow> commit db (claim_on sha r (rn_ID n) owner dur now clk db))"

definition ClaimOnRunner :: "(bytes \<Rightarrow> string) \<Rightarrow> locked_rows \<Rightarrow> string \<Rightarrow> duration \<Rightarrow> string \<Rightarrow> gotime \<Rightarrow> gotime \<Rightarrow> run_db \<Rightarrow> run_db \<times> (store_err + persisted_run)" where
  "ClaimOnRunner sha lk owner dur n now clk db =
     (if ID_Validate n \<noteq> None then (db, Inl (SErr ErrInvalid)) else claim_run sha lk owner dur n now clk db)"

definition Heartbeat :: "string \<Rightarrow> string \<Rightarrow> string \<Rightarrow> u64 \<Rightarrow> duration \<Rightarrow> gotime \<Rightarrow> run_db \<Rightarrow> run_db \<times> (store_err + gotime)" where
  "Heartbeat t i owner epoch dur clk db =
     (if dur < 1000000000 \<or> 300000000000 < dur then (db, Inl (SErr ErrInvalid))
      else
        case find_run db t i of
          None \<Rightarrow> (db, Inl (SErr ErrFenced))
        | Some r \<Rightarrow>
            if lease_held r owner epoch clk \<and> leasable_state (rr_State r) \<and> supportedSnapshot r
            then let u = clk + dur div 1000000 * 1000000
                 in (upd_run t i (\<lambda>x. x\<lparr>rr_LeaseUntil := Some u\<rparr>) db, Inr u)
            else (db, Inl (SErr ErrFenced)))"

definition LeaseProof :: "string \<Rightarrow> string \<Rightarrow> string \<Rightarrow> u64 \<Rightarrow> gotime \<Rightarrow> run_db \<Rightarrow> store_err + lease" where
  "LeaseProof t i owner epoch clk db =
     (case find_run db t i of
        None \<Rightarrow> Inl (SErr ErrFenced)
      | Some r \<Rightarrow> if lease_held r owner epoch clk \<and> leasable_state (rr_State r) \<and> supportedSnapshot r
                  then Inr (row_lease r) else Inl (SErr ErrFenced))"

end
