(* ===== verification/Run_Control.thy ===== *)
theory Run_Control
  imports Run_Store
begin

section \<open>Worker and control transactions (scheduler.go, control.go, capacity.go, execution.go)\<close>

record identity =
  id_TenantID :: string
  id_PrincipalID :: string
  id_Role :: string

definition CanWrite :: "identity \<Rightarrow> bool" where
  "CanWrite p \<longleftrightarrow> id_Role p = ''admin'' \<or> id_Role p = ''developer''"

subsection \<open>Evidence\<close>

definition artifact_ready :: "run_db \<Rightarrow> string \<Rightarrow> string \<Rightarrow> string \<Rightarrow> bool" where
  "artifact_ready db t i ref \<longleftrightarrow>
     list_ex (\<lambda>a. artifact_key a = (t, ref) \<and> af_RunID a = i \<and> af_Ready a) (db_Artifacts db)"

definition evidence_refs :: "event \<Rightarrow> string list" where
  "evidence_refs e = [ev_OutputRef e, ev_ProgressRef e]
     @ (case ev_Receipt e of None \<Rightarrow> [] | Some c \<Rightarrow> [rc_Ref c])
     @ (case ev_Stop e of None \<Rightarrow> [] | Some s \<Rightarrow> [sr_Ref s])
     @ (case ev_Verification e of None \<Rightarrow> [] | Some v \<Rightarrow> [ve_ReportRef v])"

definition validateEvidence :: "string \<Rightarrow> string \<Rightarrow> event \<Rightarrow> run_db \<Rightarrow> store_err + unit" where
  "validateEvidence t i e db =
     require (list_all (\<lambda>ref. ref = [] \<or> artifact_ready db t i ref) (evidence_refs e)) (SErr ErrUntrusted)"

definition run_messages :: "run_db \<Rightarrow> string \<Rightarrow> string \<Rightarrow> stored_message list" where
  "run_messages db t i = filter (\<lambda>m. message_run m = (t, i)) (db_Messages db)"

definition last_seq :: "run_db \<Rightarrow> string \<Rightarrow> string \<Rightarrow> nat" where
  "last_seq db t i = fold max (map mg_Seq (run_messages db t i)) 0"

text \<open>The effects a frame reports on: the tool batch of a step, or its verification commands.\<close>

definition frame_effect :: "string \<Rightarrow> string \<Rightarrow> progress_frame \<Rightarrow> effect_row \<Rightarrow> bool" where
  "frame_effect t i f x \<longleftrightarrow> effect_run x = (t, i) \<and> er_StepSeq x = pf_StepSeq f
     \<and> (if pf_VerificationRef f = [] then 0 \<le> er_Ordinal x else er_Ordinal x = -2 \<or> er_Ordinal x = -3)"

definition observed :: "run_db \<Rightarrow> string \<Rightarrow> string \<Rightarrow> progress_frame \<Rightarrow> progress_observation \<Rightarrow> bool" where
  "observed db t i f ob \<longleftrightarrow> list_ex (\<lambda>x. frame_effect t i f x \<and> er_OperationID x = po_EffectID ob \<and> er_ReceiptRef x = po_ReceiptRef ob
     \<and> er_ReceiptRef x \<noteq> [] \<and> er_Status x \<in> {EffectSucceeded, EffectFailed, EffectCancelled} \<and> artifact_ready db t i (er_ReceiptRef x)) (db_Effects db)"

definition step_attempts :: "run_db \<Rightarrow> string \<Rightarrow> string \<Rightarrow> u64 \<Rightarrow> attempt_row list" where
  "step_attempts db t i step = filter (\<lambda>a. ma_TenantID a = t \<and> ma_RunID a = i \<and> ma_StepSeq a = step) (db_Attempts db)"

definition completed_attempt :: "run_db \<Rightarrow> string \<Rightarrow> string \<Rightarrow> u64 \<Rightarrow> string \<Rightarrow> bool" where
  "completed_attempt db t i step a \<longleftrightarrow> list_ex (\<lambda>x. ma_ID x = a \<and> ma_Status x = ''completed''
     \<and> list_all (\<lambda>y. ma_Number y \<le> ma_Number x) (step_attempts db t i step)) (step_attempts db t i step)"

definition frame_closed :: "persisted_run \<Rightarrow> progress_frame \<Rightarrow> run_db \<Rightarrow> store_err + unit" where
  "frame_closed r f db =
     (let t = rr_TenantID r; i = rr_ID r in
      if list_ex (\<lambda>x. effect_run x = (t, i) \<and> er_Status x \<in> {EffectInFlight, EffectUnknown}) (db_Effects db)
      then Inl (SErr ErrReconciliation)
      else if \<not> completed_attempt db t i (pf_StepSeq f) (pf_AttemptID f)
              \<or> pf_VerificationRef f \<noteq> st_VerificationReportRef (run_State r) then Inl (SErr ErrUntrusted)
      else if tcount (\<lambda>x. frame_effect t i f x \<and> er_ReceiptRef x \<noteq> []) (db_Effects db) \<noteq> length (pf_Observations f)
      then Inl (SErr ErrUntrusted)
      else require (list_all (observed db t i f) (pf_Observations f)) (SErr ErrUntrusted))"

definition validateContextProgress :: "(progress_frame \<Rightarrow> string) \<Rightarrow> persisted_run \<Rightarrow> event \<Rightarrow> run_db \<Rightarrow> store_err + unit" where
  "validateContextProgress fhash r e db =
     (let s = run_State r; t = rr_TenantID r; i = rr_ID r; latest = last_seq db t i;
          watermark = (case ev_Progress e of None \<Rightarrow> 0 | Some f \<Rightarrow> unat (pf_MessageSeq f)) in
      if ev_Kind e \<noteq> EventContextBuilt \<or> lm_MaxNoProgressBatches (st_Limits s) = 0 then Inr ()
      else if latest < watermark then Inl (SErr ErrUntrusted)
      else if watermark < latest then Inl (SErr ErrContextStale)
      else
        (case ev_Progress e of
           None \<Rightarrow> require (st_StepSeq s = 0) (SErr ErrUntrusted)
         | Some f \<Rightarrow>
             if pf_ContextRef f \<noteq> ev_OutputRef e \<or> pf_StepSeq f \<noteq> st_StepSeq s \<or> pf_PolicyVersion f \<noteq> ProgressPolicyVersion
                \<or> 130 < length (pf_Observations f) then Inl (SErr ErrUntrusted)
             else if list_ex (\<lambda>m. mg_Seq m \<le> watermark \<and> (case mg_AppliedStep m of None \<Rightarrow> True | Some k \<Rightarrow> st_StepSeq s < k)) (run_messages db t i)
             then Inl (SErr ErrUntrusted)
             else if \<not> list_ex (\<lambda>a. artifact_key a = (t, ev_ProgressRef e) \<and> af_RunID a = i \<and> af_Kind a = ''progress_report''
                         \<and> af_Ready a \<and> af_SHA256 a = fhash f) (db_Artifacts db)
             then Inl (SErr ErrUntrusted)
             else if pf_StepSeq f = 0 then Inr ()
             else frame_closed r f db))"

subsection \<open>Applying an event\<close>

definition store_apply :: "(bytes \<Rightarrow> string) \<Rightarrow> (progress_frame \<Rightarrow> string) \<Rightarrow> string \<Rightarrow> string \<Rightarrow> event \<Rightarrow> gotime \<Rightarrow> gotime \<Rightarrow> run_db \<Rightarrow> run_db \<times> (store_err + persisted_run)" where
  "store_apply sha fhash t i e0 now clk db = commit db (
     res_bind (valid_or t) (\<lambda>_. res_bind (lockTenant t db) (\<lambda>_. res_bind (getRun db t i) (\<lambda>r.
     let e = e0\<lparr>ev_At := now\<rparr> in
     res_bind (validateEvidence t i e db) (\<lambda>_.
     res_bind (validateContextProgress fhash r e db) (\<lambda>_.
     res_bind (transit sha r e (eventType (ev_Kind e)) clk db) (reread t i)))))))"

definition Advance :: "(bytes \<Rightarrow> string) \<Rightarrow> (progress_frame \<Rightarrow> string) \<Rightarrow> string \<Rightarrow> string \<Rightarrow> event \<Rightarrow> gotime \<Rightarrow> gotime \<Rightarrow> run_db \<Rightarrow> run_db \<times> (store_err + persisted_run)" where
  "Advance sha fhash t i e now clk db =
     (if in_kinds (ev_Kind e) [EventClaimed, EventApprovalDecided, EventCancelRequested, EventResumeRequested, EventCapacityRejected]
      then (db, Inl (SErr ErrForbidden)) else store_apply sha fhash t i e now clk db)"

definition Resume :: "(bytes \<Rightarrow> string) \<Rightarrow> (progress_frame \<Rightarrow> string) \<Rightarrow> identity \<Rightarrow> string \<Rightarrow> u64 \<Rightarrow> gotime \<Rightarrow> gotime \<Rightarrow> run_db \<Rightarrow> run_db \<times> (store_err + persisted_run)" where
  "Resume sha fhash who i version now clk db =
     (if \<not> CanWrite who then (db, Inl (SErr ErrForbidden))
      else store_apply sha fhash (id_TenantID who) i (plain_event EventResumeRequested version 0) now clk db)"

definition Cancel :: "(bytes \<Rightarrow> string) \<Rightarrow> identity \<Rightarrow> string \<Rightarrow> gotime \<Rightarrow> gotime \<Rightarrow> run_db \<Rightarrow> run_db \<times> (store_err + persisted_run)" where
  "Cancel sha who i now clk db = commit db (
     let t = id_TenantID who in
     if \<not> CanWrite who then Inl (SErr ErrForbidden)
     else res_bind (valid_or t) (\<lambda>_. res_bind (lockTenant t db) (\<lambda>_. res_bind (getRun db t i) (\<lambda>r.
     if RunStatus_Terminal (st_Status (run_State r)) \<or> st_Status (run_State r) = StatusCancelRequested then Inr (db, r)
     else res_bind (transit sha r (plain_event EventCancelRequested (st_Version (run_State r)) now) ''run.cancel_requested'' clk db) (reread t i)))))"

text \<open>\<open>Decide\<close> reads the role of the principal again under the lock of its membership.\<close>

definition current_role :: "run_db \<Rightarrow> identity \<Rightarrow> string option" where
  "current_role db who =
     map_option mb_Role (tfind (\<lambda>m. (mb_TenantID m, mb_PrincipalID m)) (id_TenantID who, id_PrincipalID who) (db_Members db))"

definition find_approval :: "run_db \<Rightarrow> string \<Rightarrow> string \<Rightarrow> store_err + approval_row" where
  "find_approval db t a = (case tfind approval_key (t, a) (db_Approvals db) of None \<Rightarrow> Inl (SErr ErrNotFound) | Some x \<Rightarrow> Inr x)"

definition Decide :: "(bytes \<Rightarrow> string) \<Rightarrow> identity \<Rightarrow> string \<Rightarrow> approval_binding \<Rightarrow> bool \<Rightarrow> gotime \<Rightarrow> gotime \<Rightarrow> run_db \<Rightarrow> run_db \<times> (store_err + persisted_run)" where
  "Decide sha who aid binding allow now clk db = commit db (
     let t = id_TenantID who in
     if \<not> CanWrite who then Inl (SErr ErrForbidden)
     else res_bind (valid_or t) (\<lambda>_. res_bind (lockTenant t db) (\<lambda>_.
     if current_role db who \<noteq> Some ''developer'' \<and> current_role db who \<noteq> Some ''admin'' then Inl (SErr ErrForbidden)
     else res_bind (find_approval db t aid) (\<lambda>a. res_bind (getRun db t (aw_RunID a)) (\<lambda>r.
     if aw_Binding a \<noteq> binding then Inl (SErr ErrConflict)
     else
       (case aw_Decision a of
          Some d \<Rightarrow> if d \<noteq> allow then Inl (SErr ErrConflict) else Inr (db, r)
        | None \<Rightarrow>
            let e = (plain_event EventApprovalDecided (st_Version (run_State r)) now)\<lparr>ev_Approval := Some \<lparr>ad_Binding = binding, ad_Approve = allow\<rparr>\<rparr>;
                decide = (\<lambda>db. db\<lparr>db_Approvals := tmodify approval_key (t, aid)
                           (\<lambda>x. x\<lparr>aw_Decision := Some allow, aw_PrincipalID := id_PrincipalID who\<rparr>) (db_Approvals db)\<rparr>)
            in res_bind (transit sha r e ''approval.decided'' clk (decide db)) (reread t (aw_RunID a))))))))"

subsection \<open>Giving up a lease\<close>

definition has_work :: "run_db \<Rightarrow> string \<Rightarrow> string \<Rightarrow> bool" where
  "has_work db t i \<longleftrightarrow> list_ex (\<lambda>x. effect_run x = (t, i)) (db_Effects db)
     \<or> list_ex (\<lambda>a. ma_TenantID a = t \<and> ma_RunID a = i) (db_Attempts db)"

definition initial_allocation :: "run_db \<Rightarrow> persisted_run \<Rightarrow> bool" where
  "initial_allocation db r \<longleftrightarrow> list_ex (\<lambda>a. alloc_key a = run_id r \<and> al_RunnerID a = rr_RunnerID r \<and> al_Epoch a = rr_LeaseEpoch r
     \<and> al_State a = AllocReserved \<and> 0 < al_Slots a) (db_Allocs db)"

definition requeue :: "(bytes \<Rightarrow> string) \<Rightarrow> persisted_run \<Rightarrow> event \<Rightarrow> gotime \<Rightarrow> gotime \<Rightarrow> run_db \<Rightarrow> store_err + run_db" where
  "requeue sha c e nb clk db =
     (case Transition sha (run_State c) e of
        (_, _, Some er) \<Rightarrow> Inl (SErr er)
      | (next, cs, None) \<Rightarrow>
          if has_work db (rr_TenantID c) (rr_ID c) \<or> \<not> initial_allocation db c then Inl (SErr ErrTransition)
          else
            res_bind (persistTransition (run_State c) next cs e ''run.capacity_rejected'' clk db) (\<lambda>db.
            releaseAllocation (rr_TenantID c) (rr_ID c) (upd_run (rr_TenantID c) (rr_ID c) (\<lambda>x. x\<lparr>rr_NotBefore := Some nb\<rparr>) db)))"

definition RequeueCapacity :: "(bytes \<Rightarrow> string) \<Rightarrow> persisted_run \<Rightarrow> gotime \<Rightarrow> gotime \<Rightarrow> run_db \<Rightarrow> run_db \<times> (store_err + unit)" where
  "RequeueCapacity sha rej now clk db = commit db (
     let t = rr_TenantID rej; l = st_Lease (run_State rej) in
     res_bind (valid_or t) (\<lambda>_. res_bind (lockTenant t db) (\<lambda>_. res_bind (getRun db t (rr_ID rej)) (\<lambda>c.
     let s = run_State c; nb = now + 1000000000;
         e = (plain_event EventCapacityRejected (st_Version (run_State rej)) now)\<lparr>ev_Owner := ls_Owner l, ev_Epoch := ls_Epoch l, ev_NotBefore := Some nb\<rparr> in
     if st_Version s \<noteq> ev_ExpectedVersion e \<or> ls_Owner (st_Lease s) \<noteq> ev_Owner e \<or> ls_Epoch (st_Lease s) \<noteq> ev_Epoch e
        \<or> \<not> Lease_ValidAt (st_Lease s) now \<or> rr_RunnerID c = [] \<or> rr_RunnerID c \<noteq> rr_RunnerID rej then Inl (SErr ErrFenced)
     else if length (rr_Commands c) \<noteq> 1 \<or> cm_Kind (hd (rr_Commands c)) \<noteq> CommandInitializeWorkspace then Inl (SErr ErrTransition)
     else res_bind (requeue sha c e nb clk db) (\<lambda>db. Inr (db, ()))))))"

definition yields_slot :: "state \<Rightarrow> bool" where
  "yields_slot s \<longleftrightarrow> st_Status s = StatusRunning \<and> st_StopTarget s = no_status \<and> st_PendingEffect s = None
     \<and> (st_Stage s = StageModel \<or> st_Stage s = StageBuildContext)"

definition yield_lease :: "gotime \<Rightarrow> gotime \<Rightarrow> persisted_run \<Rightarrow> persisted_run" where
  "yield_lease clk nb x = x\<lparr>rr_LeaseUntil := Some clk, rr_NotBefore := Some nb, rr_RunnableAt := Some (max clk nb), rr_LeaseYielded := True\<rparr>"

definition Defer :: "persisted_run \<Rightarrow> gotime \<Rightarrow> string \<Rightarrow> gotime \<Rightarrow> run_db \<Rightarrow> run_db \<times> (store_err + unit)" where
  "Defer r nb kind clk db = commit db (
     let t = rr_TenantID r; i = rr_ID r; s = run_State r in
     res_bind (valid_or t) (\<lambda>_. res_bind (lockTenant t db) (\<lambda>_.
     case find_run db t i of
       None \<Rightarrow> Inl (SErr ErrFenced)
     | Some x \<Rightarrow>
         if lease_held x (ls_Owner (st_Lease s)) (ls_Epoch (st_Lease s)) clk \<and> rr_Version x = st_Version s \<and> supportedSnapshot x
         then
           res_bind ((if yields_slot s then releaseAllocation t i else Inr) (upd_run t i (yield_lease clk nb) db)) (\<lambda>db.
           res_bind (appendEvent t i kind (PayNotBefore nb) db) (\<lambda>db. Inr (db, ())))
         else Inl (SErr ErrFenced))))"

definition AppendWorkerEvent :: "persisted_run \<Rightarrow> string \<Rightarrow> bytes \<Rightarrow> gotime \<Rightarrow> run_db \<Rightarrow> run_db \<times> (store_err + unit)" where
  "AppendWorkerEvent r kind payload clk db = commit db (
     let t = rr_TenantID r; i = rr_ID r in
     if 32768 < length payload then Inl (SErr ErrCapacity)
     else res_bind (valid_or t) (\<lambda>_.
     case find_run db t i of
       None \<Rightarrow> Inl SErrDatabase
     | Some x \<Rightarrow>
         if lease_held x (rr_LeaseOwner r) (rr_LeaseEpoch r) clk \<and> rr_State x \<in> {StatusRunning, StatusNeedsReconciliation} \<and> supportedSnapshot x
         then res_bind (appendEvent t i kind (PayRaw payload) db) (\<lambda>db. Inr (db, ()))
         else Inl (SErr ErrFenced)))"

end
