(* ===== verification/Run_Records.thy ===== *)
theory Run_Records
  imports Run_Control
begin

section \<open>Messages, evidence, attempts and event pages (control.go, execution.go, model_pricing.go, artifacts.go, retention.go)\<close>

subsection \<open>Operator records\<close>

definition BootstrapTenant :: "string \<Rightarrow> string \<Rightarrow> string \<Rightarrow> run_db \<Rightarrow> run_db \<times> (store_err + unit)" where
  "BootstrapTenant t p role db =
     (if ID_Validate t \<noteq> None \<or> ID_Validate p \<noteq> None \<or> role \<notin> {''admin'', ''developer'', ''viewer''} then (db, Inl (SErr ErrInvalid))
      else
        let tenants = (if tfind tn_TenantID t (db_Tenants db) = None
              then tinsert \<lparr>tn_TenantID = t, tn_MaxActive = 2, tn_ActiveCount = 0, tn_LastDispatched = None\<rparr> (db_Tenants db) else db_Tenants db);
            key = (\<lambda>m. (mb_TenantID m, mb_PrincipalID m));
            members = (if tfind key (t, p) (db_Members db) = None
              then tinsert \<lparr>mb_TenantID = t, mb_PrincipalID = p, mb_Role = role\<rparr> (db_Members db)
              else tmodify key (t, p) (\<lambda>m. m\<lparr>mb_Role := role\<rparr>) (db_Members db))
        in (db\<lparr>db_Tenants := tenants, db_Members := members\<rparr>, Inr ()))"

definition CreateProject :: "string \<Rightarrow> string \<Rightarrow> string \<Rightarrow> string \<Rightarrow> string \<Rightarrow> run_db \<Rightarrow> run_db \<times> (store_err + project_row)" where
  "CreateProject t i name source profile db =
     (let p = \<lparr>pj_TenantID = t, pj_ID = i, pj_Name = name, pj_SourceID = source, pj_ProfileID = profile\<rparr> in
      if name = [] \<or> 128 < length name \<or> source = [] \<or> profile = [] then (db, Inl (SErr ErrInvalid))
      else if ID_Validate t \<noteq> None then (db, Inl (SErr ErrInvalid))
      else if tfind tn_TenantID t (db_Tenants db) = None \<or> tfind (\<lambda>p. (pj_TenantID p, pj_ID p)) (t, i) (db_Projects db) \<noteq> None
      then (db, Inl SErrDatabase)
      else (db\<lparr>db_Projects := tinsert p (db_Projects db)\<rparr>, Inr p))"

definition RegisterRunner :: "string \<Rightarrow> string \<Rightarrow> int \<Rightarrow> run_db \<Rightarrow> run_db \<times> (store_err + unit)" where
  "RegisterRunner n endpoint slots db =
     (if n = [] \<or> endpoint = [] \<or> slots < 1 \<or> 1024 < slots then (db, Inl (SErr ErrInvalid))
      else
        let rows = (if tfind rn_ID n (db_Runners db) = None
              then tinsert \<lparr>rn_ID = n, rn_Endpoint = endpoint, rn_MaxSlots = slots, rn_ReservedSlots = 0, rn_Enabled = True\<rparr> (db_Runners db)
              else tmodify rn_ID n (\<lambda>x. x\<lparr>rn_Endpoint := endpoint, rn_MaxSlots := slots\<rparr>) (db_Runners db))
        in if list_all runner_checks rows then (db\<lparr>db_Runners := rows\<rparr>, Inr ()) else (db, Inl SErrDatabase))"

subsection \<open>Messages\<close>

definition message_route :: "string \<Rightarrow> string" where
  "message_route i = ''/v1/runs/'' @ i @ ''/messages''"

definition add_message :: "string \<Rightarrow> string \<Rightarrow> string \<Rightarrow> string \<Rightarrow> string \<Rightarrow> string \<Rightarrow> run_db \<Rightarrow> store_err + run_db \<times> (nat \<times> string) \<times> bool" where
  "add_message t p i txt key digest db =
     (let seq = last_seq db t i + 1;
          db1 = db\<lparr>db_Messages := tinsert \<lparr>mg_TenantID = t, mg_RunID = i, mg_Seq = seq, mg_PrincipalID = p, mg_Text = txt,
                      mg_AppliedStep = None\<rparr> (db_Messages db),
                   db_Idem := tinsert \<lparr>ik_TenantID = t, ik_PrincipalID = p, ik_Route = message_route i, ik_Key = key,
                      ik_RequestHash = digest, ik_ResourceID = [], ik_Message = Some (seq, txt)\<rparr> (db_Idem db)\<rparr>
      in res_bind (appendEvent t i ''run.message_added'' (PayMessage seq txt) db1) (\<lambda>db2. Inr (db2, (seq, txt), False)))"

definition AddMessage :: "(bytes \<Rightarrow> string) \<Rightarrow> identity \<Rightarrow> string \<Rightarrow> string \<Rightarrow> string \<Rightarrow> run_db \<Rightarrow> run_db \<times> (store_err + (nat \<times> string) \<times> bool)" where
  "AddMessage sha who i txt key db = commit db (
     let t = id_TenantID who; p = id_PrincipalID who in
     if \<not> CanWrite who then Inl (SErr ErrForbidden)
     else if blank txt \<or> 16000 < length txt \<or> length key < 1 \<or> 128 < length key then Inl (SErr ErrInvalid)
     else res_bind (valid_or t) (\<lambda>_. res_bind (lockTenant t db) (\<lambda>_. res_bind (getRun db t i) (\<lambda>r.
     case find_idem db t p (message_route i) key of
       Some k \<Rightarrow>
         if ik_RequestHash k \<noteq> sha txt then Inl (SErr ErrConflict)
         else (case ik_Message k of Some m \<Rightarrow> Inr (db, m, True) | None \<Rightarrow> Inl SErrDatabase)
     | None \<Rightarrow>
         if RunStatus_Terminal (st_Status (run_State r)) then Inl (SErr ErrTerminal)
         else if st_Status (run_State r) = StatusCancelRequested \<and> st_FailureReason (run_State r) = ''repeated_no_progress''
         then Inl (SErr ErrTransition)
         else if 64 \<le> length (run_messages db t i)
                 \<or> 262144 < sum_list (map (length \<circ> mg_Text) (run_messages db t i)) + length txt then Inl (SErr ErrCapacity)
         else add_message t p i txt key (sha txt) db))))"

definition apply_messages :: "string \<Rightarrow> string \<Rightarrow> u64 \<Rightarrow> run_db \<Rightarrow> run_db" where
  "apply_messages t i step db = db\<lparr>db_Messages := map (\<lambda>m. if message_run m = (t, i) \<and> mg_AppliedStep m = None
     then m\<lparr>mg_AppliedStep := Some step\<rparr> else m) (db_Messages db)\<rparr>"

definition read_messages :: "string \<Rightarrow> string \<Rightarrow> u64 \<Rightarrow> run_db \<Rightarrow> stored_message list" where
  "read_messages t i step db =
     sort_key mg_Seq (filter (\<lambda>m. case mg_AppliedStep m of None \<Rightarrow> False | Some k \<Rightarrow> k \<le> step) (run_messages db t i))"

definition ConsumeMessages :: "string \<Rightarrow> string \<Rightarrow> string \<Rightarrow> u64 \<Rightarrow> u64 \<Rightarrow> gotime \<Rightarrow> run_db \<Rightarrow> run_db \<times> (store_err + stored_message list)" where
  "ConsumeMessages t i owner epoch step clk db = commit db (
     res_bind (valid_or t) (\<lambda>_. res_bind (getRun db t i) (\<lambda>r.
     if \<not> lease_held r owner epoch clk \<or> st_Stage (run_State r) \<noteq> StageBuildContext \<or> st_StepSeq (run_State r) \<noteq> step
     then Inl (SErr ErrFenced)
     else let db1 = apply_messages t i step db in Inr (db1, read_messages t i step db1))))"

subsection \<open>Artifacts\<close>

definition hex_string :: "string \<Rightarrow> bool" where
  "hex_string h \<longleftrightarrow> list_all (\<lambda>c. hex_digit c \<noteq> None) h \<and> even (length h)"

definition PublishArtifact :: "artifact_row \<Rightarrow> run_db \<Rightarrow> run_db \<times> (store_err + unit)" where
  "PublishArtifact a0 db = commit db (
     let a = a0\<lparr>af_Ready := True\<rparr>; t = af_TenantID a; i = af_RunID a; home = t @ ''/'' @ i @ ''/'' in
     if ID_Validate t \<noteq> None \<or> ID_Validate i \<noteq> None \<or> ID_Validate (af_ID a) \<noteq> None \<or> af_Kind a = [] \<or> af_ByteSize a < 0
        \<or> length (af_SHA256 a) \<noteq> 64 \<or> take (length home) (af_ObjectKey a) \<noteq> home \<or> \<not> hex_string (af_SHA256 a)
     then Inl (SErr ErrInvalid)
     else
       (case tfind artifact_key (t, af_ID a) (db_Artifacts db) of
          Some b \<Rightarrow>
            if af_RunID b = i \<and> af_ObjectKey b = af_ObjectKey a \<and> af_SHA256 b = af_SHA256 a \<and> af_ByteSize b = af_ByteSize a \<and> af_Ready b
            then Inr (db, ()) else Inl (SErr ErrConflict)
        | None \<Rightarrow>
            if find_run db t i = None then Inl SErrDatabase
            else res_bind (appendEvent t i ''artifact.ready'' (PayArtifact a) (db\<lparr>db_Artifacts := tinsert a (db_Artifacts db)\<rparr>)) (\<lambda>db. Inr (db, ()))))"

subsection \<open>Effects outside the tool batch\<close>

definition stored_effect :: "effect_row \<Rightarrow> effect \<Rightarrow> effect" where
  "stored_effect x e = e\<lparr>ef_ID := er_OperationID x, ef_Kind := er_Kind x, ef_Args := er_Args x, ef_ArgsHash := er_ArgsHash x,
     ef_ExpectedRevision := er_ExpectedRevision x, ef_DispatchEpoch := er_Epoch x, ef_PolicyVersion := er_PolicyVersion x,
     ef_RequiresApproval := False, ef_Status := er_Status x, ef_ReceiptRef := er_ReceiptRef x\<rparr>"

definition holds_run :: "persisted_run \<Rightarrow> persisted_run \<Rightarrow> gotime \<Rightarrow> bool" where
  "holds_run c r now \<longleftrightarrow> st_Version (run_State c) = st_Version (run_State r)
     \<and> ls_Owner (st_Lease (run_State c)) = ls_Owner (st_Lease (run_State r))
     \<and> ls_Epoch (st_Lease (run_State c)) = ls_Epoch (st_Lease (run_State r)) \<and> Lease_ValidAt (st_Lease (run_State c)) now"

definition PlanSystemEffect :: "persisted_run \<Rightarrow> effect \<Rightarrow> int \<Rightarrow> gotime \<Rightarrow> run_db \<Rightarrow> run_db \<times> (store_err + effect)" where
  "PlanSystemEffect r e ordinal now db = commit db (
     let t = rr_TenantID r; i = rr_ID r; step = st_StepSeq (run_State r) in
     case ValidateCanonicalJSON (ef_Args e) of Some er \<Rightarrow> Inl (SErr er) | None \<Rightarrow>
     if 0 \<le> ordinal then Inl (SErr ErrInvalid)
     else res_bind (valid_or t) (\<lambda>_. res_bind (getRun db t i) (\<lambda>c.
     if \<not> holds_run c r now then Inl (SErr ErrFenced)
     else
       res_bind (if tfind effect_op (t, ef_ID e) (db_Effects db) \<noteq> None then Inr db
                 else insert_effect (effect_of t i step ordinal (ef_DispatchEpoch e) EffectInFlight e) db) (\<lambda>db.
       case tfind effect_op (t, ef_ID e) (db_Effects db) of
         None \<Rightarrow> Inl SErrDatabase
       | Some x \<Rightarrow>
           if er_RunID x \<noteq> i \<or> er_StepSeq x \<noteq> step \<or> er_ArgsHash x \<noteq> ef_ArgsHash e \<or> er_Kind x \<noteq> ef_Kind e
              \<or> er_PolicyVersion x \<noteq> ef_PolicyVersion e then Inl (SErr ErrConflict)
           else Inr (db, stored_effect x e)))))"

definition SettleSystemEffect :: "persisted_run \<Rightarrow> effect_receipt \<Rightarrow> run_db \<Rightarrow> run_db \<times> (store_err + unit)" where
  "SettleSystemEffect r c db = commit db (
     let t = rr_TenantID r; i = rr_ID r;
         hit = (\<lambda>x. er_ArgsHash x = rc_ArgsHash c \<and> er_Epoch x = rc_Epoch c \<and> er_Ordinal x < 0) in
     res_bind (valid_or t) (\<lambda>_. res_bind (getRun db t i) (\<lambda>_.
     res_bind (validateEvidence t i ((plain_event (EventOther []) 0 0)\<lparr>ev_Receipt := Some c\<rparr>) db) (\<lambda>_.
     if tcount (\<lambda>x. effect_run x = (t, i) \<and> er_OperationID x = rc_EffectID c \<and> hit x) (db_Effects db) \<noteq> 1 then Inl (SErr ErrConflict)
     else Inr (upd_effect t i (rc_EffectID c) hit (\<lambda>x. x\<lparr>er_Status := rc_Status c, er_ReceiptRef := rc_Ref c\<rparr>) db, ())))))"

subsection \<open>Model attempts\<close>

definition attempt_route :: "attempt_row \<Rightarrow> model_route" where
  "attempt_route a = \<lparr>mr_Provider = ma_Provider a, mr_Model = ma_Model a\<rparr>"

definition FallbackFailure :: "string \<Rightarrow> bool" where
  "FallbackFailure c \<longleftrightarrow> c = ''rate_limited'' \<or> c = ''unavailable'' \<or> c = ''stream_interrupted''"

definition run_attempts :: "run_db \<Rightarrow> string \<Rightarrow> string \<Rightarrow> attempt_row list" where
  "run_attempts db t i = filter (\<lambda>a. ma_TenantID a = t \<and> ma_RunID a = i) (db_Attempts db)"

text \<open>\<open>ORDER BY step_seq DESC, attempt DESC LIMIT 1\<close>.\<close>

definition latest_of :: "attempt_row list \<Rightarrow> attempt_row option" where
  "latest_of as = first_by (\<lambda>a. (- int (unat (ma_StepSeq a)), - ma_Number a)) as"

definition ledger_closed :: "persisted_run \<Rightarrow> run_db \<Rightarrow> bool" where
  "ledger_closed r db = (let t = rr_TenantID r; i = rr_ID r;
       ready = (\<lambda>x. er_ReceiptRef x \<noteq> [] \<and> artifact_ready db t i (er_ReceiptRef x)) in
     list_all (\<lambda>x. effect_run x = (t, i) \<longrightarrow>
        (er_Status x \<in> {EffectSucceeded, EffectFailed, EffectCancelled} \<and> ready x)
        \<or> (er_Status x = EffectPlanned \<and> 0 \<le> er_Ordinal x \<and> er_StepSeq x < st_StepSeq (run_State r)
           \<and> list_ex (\<lambda>y. effect_run y = (t, i) \<and> er_StepSeq y = er_StepSeq x \<and> 0 \<le> er_Ordinal y \<and> er_Ordinal y < er_Ordinal x
                        \<and> er_Status y \<in> {EffectFailed, EffectCancelled} \<and> ready y) (db_Effects db))) (db_Effects db))"

text \<open>The route a new attempt may take: the one in use, or once the fallback after a retryable provider failure.\<close>

definition validateModelRoute :: "persisted_run \<Rightarrow> attempt_row option \<Rightarrow> model_route \<Rightarrow> run_db \<Rightarrow> store_err + bool" where
  "validateModelRoute r latest route db =
     (let c = rr_Config r; primary = PrimaryRoute c; s = run_State r;
          active = (case latest_of (run_attempts db (rr_TenantID r) (rr_ID r)) of None \<Rightarrow> primary | Some a \<Rightarrow> attempt_route a) in
      if active \<noteq> primary \<and> cf_Fallback c \<noteq> Some active then Inl (SErr ErrReconciliation)
      else if route = active then Inr False
      else if active \<noteq> primary \<or> cf_Fallback c \<noteq> Some route
              \<or> (case latest of None \<Rightarrow> True
                 | Some a \<Rightarrow> ma_Status a \<noteq> ''failed'' \<or> attempt_route a \<noteq> active \<or> \<not> FallbackFailure (ma_ErrorCode a))
      then Inl (SErr ErrConflict)
      else if st_PendingEffect s \<noteq> None \<or> st_RemainingEffects s \<noteq> [] \<or> st_Approval s \<noteq> None then Inl (SErr ErrReconciliation)
      else if \<not> ledger_closed r db then Inl (SErr ErrReconciliation)
      else Inr True)"

definition retry_open :: "attempt_row list \<Rightarrow> attempt_row \<Rightarrow> gotime \<Rightarrow> store_err + unit" where
  "retry_open as a now =
     (if ma_Status a \<noteq> ''failed'' then Inr ()
      else
        (case at_Failure a of
           None \<Rightarrow> Inl (SErr ErrReconciliation)
         | Some p \<Rightarrow>
             if \<not> fp_Retry p then Inl (SErr ErrReconciliation)
             else if now < fp_NotBefore p then Inl (SErr ErrCapacity)
             else if list_ex (\<lambda>x. ma_StartedAt x + 120000000000 \<le> now) as then Inl (SErr ErrCapacity)
             else Inr ()))"

definition open_attempt :: "persisted_run \<Rightarrow> attempt_row option \<Rightarrow> persisted_run \<Rightarrow> attempt_pricing \<Rightarrow> string \<Rightarrow> string \<Rightarrow> duration \<Rightarrow> string \<Rightarrow> gotime \<Rightarrow> run_db
    \<Rightarrow> store_err + run_db \<times> attempt_row" where
  "open_attempt c latest r pricing requestRef version timeout aid now db =
     (let t = rr_TenantID r; i = rr_ID r; step = st_StepSeq (run_State r);
          route = \<lparr>mr_Provider = aq_Provider pricing, mr_Model = aq_Model pricing\<rparr>;
          number = (case latest of None \<Rightarrow> 1 | Some a \<Rightarrow> ma_Number a + 1);
          deadline = min (now + timeout) (lm_Deadline (st_Limits (run_State r)));
          a = \<lparr>ma_TenantID = t, ma_RunID = i, ma_StepSeq = step, ma_Number = number, ma_ID = aid, ma_Provider = mr_Provider route,
               ma_Model = mr_Model route, ma_Status = ''prepared'', ma_RawRef = [], ma_RequestRef = requestRef, ma_PriceVersion = version,
               ma_ErrorCode = [], ma_Traceparent = [], ma_StartedAt = now, ma_Deadline = deadline, at_Pricing = Some pricing, at_Failure = None\<rparr> in
      res_bind (validateModelRoute c latest route db) (\<lambda>switching.
      if 3 < number then Inl (SErr ErrCapacity)
      else
        res_bind (validateEvidence t i ((plain_event (EventOther []) 0 0)\<lparr>ev_OutputRef := requestRef\<rparr>) db) (\<lambda>_.
        if \<not> now < deadline then Inl (SErr ErrCapacity)
        else
          res_bind (bigints [step]) (\<lambda>_.
          if list_ex (\<lambda>x. ma_TenantID x = t \<and> (ma_ID x = aid \<or> (ma_RunID x = i \<and> ma_StepSeq x = step \<and> ma_Number x = number))) (db_Attempts db)
          then Inl SErrDatabase
          else
            res_bind ((case latest of
                 Some l \<Rightarrow> if switching then appendEvent t i ''model.handoff_prepared'' (PayHandoff (ma_ID l) aid (attempt_route l) route) else Inr
               | None \<Rightarrow> Inr) (db\<lparr>db_Attempts := tinsert a (db_Attempts db)\<rparr>)) (\<lambda>db.
            res_bind (appendEvent t i ''model.started'' (PayAttempt aid step) db) (\<lambda>db. Inr (db, a)))))))"

text \<open>\<open>psize\<close> is the length of the encoded prices.\<close>

definition BeginPricedAttempt :: "persisted_run \<Rightarrow> string \<Rightarrow> string \<Rightarrow> duration \<Rightarrow> attempt_pricing \<Rightarrow> nat \<Rightarrow> string \<Rightarrow> gotime \<Rightarrow> run_db
    \<Rightarrow> run_db \<times> (store_err + attempt_row)" where
  "BeginPricedAttempt r requestRef version timeout pricing psize aid now db = commit db (
     let t = rr_TenantID r; i = rr_ID r; s = run_State r in
     if timeout \<le> 0 \<or> version = [] \<or> 32768 < psize then Inl (SErr ErrInvalid)
     else if aq_Provider pricing = [] \<or> aq_Model pricing = [] \<or> ms_PriceVersion (aq_Spec pricing) \<noteq> version then Inl (SErr ErrInvalid)
     else res_bind (valid_or t) (\<lambda>_. res_bind (getRun db t i) (\<lambda>c.
     if cf_Fallback (rr_Config c) \<noteq> None \<and> st_SchemaVersion (run_State c) < 2 then Inl (SErr ErrReconciliation)
     else if \<not> holds_run c r now \<or> st_Stage (run_State c) \<noteq> StageModel then Inl (SErr ErrFenced)
     else
       let as = step_attempts db t i (st_StepSeq s); latest = latest_of as in
       case latest of
         None \<Rightarrow> open_attempt c None r pricing requestRef version timeout aid now db
       | Some a \<Rightarrow>
           if ma_Status a \<noteq> ''failed'' then (if at_Pricing a = None then Inl (SErr ErrReconciliation) else Inr (db, a))
           else res_bind (retry_open as a now) (\<lambda>_. open_attempt c (Some a) r pricing requestRef version timeout aid now db))))"

definition is_attempt :: "attempt_row \<Rightarrow> attempt_row \<Rightarrow> bool" where
  "is_attempt a x \<longleftrightarrow> ma_TenantID x = ma_TenantID a \<and> ma_RunID x = ma_RunID a \<and> ma_ID x = ma_ID a"

definition upd_attempt :: "attempt_row \<Rightarrow> (attempt_row \<Rightarrow> attempt_row) \<Rightarrow> run_db \<Rightarrow> run_db" where
  "upd_attempt a f db = db\<lparr>db_Attempts := map (\<lambda>x. if is_attempt a x \<and> ma_Status x = ''prepared'' then f x else x) (db_Attempts db)\<rparr>"

definition CompleteAttempt :: "attempt_row \<Rightarrow> string \<Rightarrow> run_db \<Rightarrow> run_db \<times> (store_err + unit)" where
  "CompleteAttempt a rawRef db = commit db (
     let t = ma_TenantID a; i = ma_RunID a in
     res_bind (valid_or t) (\<lambda>_. res_bind (getRun db t i) (\<lambda>_.
     res_bind (validateEvidence t i ((plain_event (EventOther []) 0 0)\<lparr>ev_OutputRef := rawRef\<rparr>) db) (\<lambda>_.
     case List.find (is_attempt a) (db_Attempts db) of
       None \<Rightarrow> Inl SErrDatabase
     | Some x \<Rightarrow>
         if ma_Status x = ''prepared'' then Inr (upd_attempt a (\<lambda>x. x\<lparr>ma_Status := ''completed'', ma_RawRef := rawRef\<rparr>) db, ())
         else if ma_RawRef x \<noteq> rawRef then Inl (SErr ErrConflict) else Inr (db, ())))))"

definition FinishFailedAttempt :: "attempt_row \<Rightarrow> failure_policy \<Rightarrow> run_db \<Rightarrow> run_db \<times> (store_err + unit)" where
  "FinishFailedAttempt a p db = commit db (
     let t = ma_TenantID a; i = ma_RunID a in
     if fp_Code p = [] \<or> (fp_Outcome p \<noteq> ''failure'' \<and> fp_Outcome p \<noteq> ''neutral'') \<or> (fp_Retry p \<and> fp_NotBefore p = 0)
     then Inl (SErr ErrInvalid)
     else res_bind (valid_or t) (\<lambda>_. res_bind (getRun db t i) (\<lambda>_.
     case List.find (is_attempt a) (db_Attempts db) of
       None \<Rightarrow> Inl SErrDatabase
     | Some x \<Rightarrow>
         if ma_Status x = ''prepared'' then
           res_bind (appendEvent t i ''model.attempt_failed'' (PayFailure (ma_ID a) p)
              (upd_attempt a (\<lambda>x. x\<lparr>ma_Status := ''failed'', ma_ErrorCode := fp_Code p, at_Failure := Some p\<rparr>) db)) (\<lambda>db. Inr (db, ()))
         else if ma_Status x = ''failed'' \<and> at_Failure x = Some p then Inr (db, ()) else Inl (SErr ErrConflict))))"

subsection \<open>Event pages and their retention\<close>

definition Events :: "string \<Rightarrow> string \<Rightarrow> nat \<Rightarrow> int \<Rightarrow> run_db \<Rightarrow> store_err + event_row list" where
  "Events t i after lim db =
     (if lim < 1 \<or> 1000 < lim then Inl (SErr ErrInvalid)
      else res_bind (valid_or t) (\<lambda>_. res_bind (getRun db t i) (\<lambda>r.
      if rr_NextEventSeq r - 1 < after then Inl (SErr ErrConflict)
      else if 0 < rr_RetainedFrom r \<and> after < rr_RetainedFrom r - 1 then Inl (SErr ErrReset)
      else Inr (take (nat lim) (sort_key xe_Seq (filter (\<lambda>x. event_run x = (t, i) \<and> after < xe_Seq x) (db_Events db)))))))"

definition trim_target :: "int \<Rightarrow> persisted_run \<Rightarrow> nat" where
  "trim_target keep r = nat (max 1 (int (rr_NextEventSeq r) - keep))"

definition trim_run :: "int \<Rightarrow> persisted_run \<Rightarrow> run_db \<Rightarrow> run_db" where
  "trim_run keep r db =
     (let first = trim_target keep r in
      (upd_run (rr_TenantID r) (rr_ID r) (\<lambda>x. x\<lparr>rr_RetainedFrom := first\<rparr>) db)
        \<lparr>db_Events := filter (\<lambda>x. \<not> (event_run x = run_id r \<and> xe_Seq x < first)) (db_Events db)\<rparr>)"

definition trimmable :: "gotime \<Rightarrow> int \<Rightarrow> persisted_run \<Rightarrow> bool" where
  "trimmable before keep r \<longleftrightarrow> RunStatus_Terminal (rr_State r) \<and> supportedSnapshot r \<and> rr_UpdatedAt r < before
     \<and> rr_RetainedFrom r < trim_target keep r"

definition TrimEvents :: "(string \<Rightarrow> bool) \<Rightarrow> gotime \<Rightarrow> int \<Rightarrow> int \<Rightarrow> run_db \<Rightarrow> run_db \<times> (store_err + int)" where
  "TrimEvents locked before keep batch db =
     (if keep < 1 \<or> 10000 < keep \<or> batch < 1 \<or> 128 < batch \<or> before = 0 then (db, Inl (SErr ErrInvalid))
      else
        let items = take (nat batch) (sort_key (\<lambda>r. (rr_UpdatedAt r, rr_ID r))
                      (filter (\<lambda>r. trimmable before keep r \<and> \<not> locked (rr_ID r)) (db_Runs db)));
            db' = fold (trim_run keep) items db
        in (db', Inr (int (length (db_Events db)) - int (length (db_Events db')))))"

end
