(* ===== verification/Run_Machine.thy ===== *)
theory Run_Machine
  imports Run_Records Runtime_Runs
begin

section \<open>Executions of the run store\<close>

text \<open>
  The store as a machine: an action is a call of one of its transactions with the values it reads from the
  clock and the generated identifiers, an outcome says whether it committed and which run a claim returned.
  The locale \<open>store_law\<close> is the interface between the transactions and the invariants of the store: it
  names the few groups of statements through which every transaction changes a run, a slot, a
  snapshot or an event, and what an invariant has to promise of each.
\<close>

datatype store_action =
    AcBootstrap string string string
  | AcProject string string string string string
  | AcRunner string string int
  | AcSubmit submit_request string string gotime
  | AcClaim locked_rows string duration string gotime gotime
  | AcHeartbeat string string string u64 duration gotime
  | AcAdvance string string event gotime gotime
  | AcResume identity string u64 gotime gotime
  | AcCancel identity string gotime gotime
  | AcDecide identity string approval_binding bool gotime gotime
  | AcRequeue persisted_run gotime gotime
  | AcDefer persisted_run gotime string gotime
  | AcWorkerEvent persisted_run string bytes gotime
  | AcMessage identity string string string
  | AcConsume string string string u64 u64 gotime
  | AcArtifact artifact_row
  | AcPlanEffect persisted_run effect int gotime
  | AcSettleEffect persisted_run effect_receipt
  | AcBeginAttempt persisted_run string string duration attempt_pricing nat string gotime
  | AcCompleteAttempt attempt_row string
  | AcFailAttempt attempt_row failure_policy
  | AcTrim "string \<Rightarrow> bool" gotime int int

datatype store_outcome = Refused store_err | Done | GotRun persisted_run | GotMessages "stored_message list" | GotAttempt attempt_row

definition outcome_of :: "('a \<Rightarrow> store_outcome) \<Rightarrow> run_db \<times> (store_err + 'a) \<Rightarrow> run_db \<times> store_outcome" where
  "outcome_of f x = (fst x, case snd x of Inl e \<Rightarrow> Refused e | Inr v \<Rightarrow> f v)"

text \<open>The digests the store computes: of bytes, of a submission and of a progress frame.\<close>

record digests =
  dg_Bytes :: "bytes \<Rightarrow> string"
  dg_Request :: "submit_request \<Rightarrow> string"
  dg_Frame :: "progress_frame \<Rightarrow> string"

fun store_do :: "digests \<Rightarrow> store_action \<Rightarrow> run_db \<Rightarrow> run_db \<times> store_outcome" where
  "store_do d (AcBootstrap t p role) db = outcome_of (\<lambda>_. Done) (BootstrapTenant t p role db)"
| "store_do d (AcProject t i name src prof) db = outcome_of (\<lambda>_. Done) (CreateProject t i name src prof db)"
| "store_do d (AcRunner n ep slots) db = outcome_of (\<lambda>_. Done) (RegisterRunner n ep slots db)"
| "store_do d (AcSubmit q key i now) db = outcome_of (GotRun \<circ> fst) (Submit (dg_Request d) q key i now db)"
| "store_do d (AcClaim lk owner dur pref now clk) db = outcome_of GotRun (claim_run (dg_Bytes d) lk owner dur pref now clk db)"
| "store_do d (AcHeartbeat t i owner epoch dur clk) db = outcome_of (\<lambda>_. Done) (Heartbeat t i owner epoch dur clk db)"
| "store_do d (AcAdvance t i e now clk) db = outcome_of GotRun (Advance (dg_Bytes d) (dg_Frame d) t i e now clk db)"
| "store_do d (AcResume who i v now clk) db = outcome_of GotRun (Resume (dg_Bytes d) (dg_Frame d) who i v now clk db)"
| "store_do d (AcCancel who i now clk) db = outcome_of GotRun (Cancel (dg_Bytes d) who i now clk db)"
| "store_do d (AcDecide who a b allow now clk) db = outcome_of GotRun (Decide (dg_Bytes d) who a b allow now clk db)"
| "store_do d (AcRequeue r now clk) db = outcome_of (\<lambda>_. Done) (RequeueCapacity (dg_Bytes d) r now clk db)"
| "store_do d (AcDefer r nb kind clk) db = outcome_of (\<lambda>_. Done) (Defer r nb kind clk db)"
| "store_do d (AcWorkerEvent r kind body clk) db = outcome_of (\<lambda>_. Done) (AppendWorkerEvent r kind body clk db)"
| "store_do d (AcMessage who i txt key) db = outcome_of (\<lambda>_. Done) (AddMessage (dg_Bytes d) who i txt key db)"
| "store_do d (AcConsume t i owner epoch step clk) db = outcome_of GotMessages (ConsumeMessages t i owner epoch step clk db)"
| "store_do d (AcArtifact a) db = outcome_of (\<lambda>_. Done) (PublishArtifact a db)"
| "store_do d (AcPlanEffect r e n now) db = outcome_of (\<lambda>_. Done) (PlanSystemEffect r e n now db)"
| "store_do d (AcSettleEffect r c) db = outcome_of (\<lambda>_. Done) (SettleSystemEffect r c db)"
| "store_do d (AcBeginAttempt r ref v tmo pr sz aid now) db = outcome_of GotAttempt (BeginPricedAttempt r ref v tmo pr sz aid now db)"
| "store_do d (AcCompleteAttempt a ref) db = outcome_of (\<lambda>_. Done) (CompleteAttempt a ref db)"
| "store_do d (AcFailAttempt a p) db = outcome_of (\<lambda>_. Done) (FinishFailedAttempt a p db)"
| "store_do d (AcTrim locked before keep batch) db = outcome_of (\<lambda>_. Done) (TrimEvents locked before keep batch db)"

definition store_step :: "digests \<Rightarrow> run_db \<Rightarrow> store_action \<Rightarrow> store_outcome \<Rightarrow> run_db \<Rightarrow> bool" where
  "store_step d db a out db' \<longleftrightarrow> store_do d a db = (db', out)"

subsection \<open>Changes that concern no run, slot, snapshot or event\<close>

text \<open>The columns of a run and of a tenant that only steer the scheduler.\<close>

definition hard_run :: "persisted_run \<Rightarrow> persisted_run" where
  "hard_run r = r\<lparr>rr_NotBefore := None, rr_RunnableAt := None, rr_LeaseYielded := False\<rparr>"

lemma hard_run_sel [simp]:
  "rr_TenantID (hard_run r) = rr_TenantID r"
  "rr_ID (hard_run r) = rr_ID r"
  "rr_Config (hard_run r) = rr_Config r"
  "rr_State (hard_run r) = rr_State r"
  "rr_Version (hard_run r) = rr_Version r"
  "rr_Snapshot (hard_run r) = rr_Snapshot r"
  "rr_LeaseOwner (hard_run r) = rr_LeaseOwner r"
  "rr_LeaseEpoch (hard_run r) = rr_LeaseEpoch r"
  "rr_LeaseUntil (hard_run r) = rr_LeaseUntil r"
  "rr_RunnerID (hard_run r) = rr_RunnerID r"
  "rr_NextEventSeq (hard_run r) = rr_NextEventSeq r"
  "rr_RetainedFrom (hard_run r) = rr_RetainedFrom r"
  "rr_Hold (hard_run r) = rr_Hold r"
  by (simp_all add: hard_run_def)

lemma hard_run_eqD:
  assumes "hard_run b = hard_run a"
  shows "rr_TenantID b = rr_TenantID a"
    and "rr_ID b = rr_ID a"
    and "rr_Config b = rr_Config a"
    and "rr_State b = rr_State a"
    and "rr_Version b = rr_Version a"
    and "rr_Snapshot b = rr_Snapshot a"
    and "rr_LeaseOwner b = rr_LeaseOwner a"
    and "rr_LeaseEpoch b = rr_LeaseEpoch a"
    and "rr_LeaseUntil b = rr_LeaseUntil a"
    and "rr_RunnerID b = rr_RunnerID a"
    and "rr_NextEventSeq b = rr_NextEventSeq a"
    and "rr_RetainedFrom b = rr_RetainedFrom a"
    and "rr_Hold b = rr_Hold a"
  proof -
  show "rr_TenantID b = rr_TenantID a" using arg_cong [OF assms, of rr_TenantID] by simp
  show "rr_ID b = rr_ID a" using arg_cong [OF assms, of rr_ID] by simp
  show "rr_Config b = rr_Config a" using arg_cong [OF assms, of rr_Config] by simp
  show "rr_State b = rr_State a" using arg_cong [OF assms, of rr_State] by simp
  show "rr_Version b = rr_Version a" using arg_cong [OF assms, of rr_Version] by simp
  show "rr_Snapshot b = rr_Snapshot a" using arg_cong [OF assms, of rr_Snapshot] by simp
  show "rr_LeaseOwner b = rr_LeaseOwner a" using arg_cong [OF assms, of rr_LeaseOwner] by simp
  show "rr_LeaseEpoch b = rr_LeaseEpoch a" using arg_cong [OF assms, of rr_LeaseEpoch] by simp
  show "rr_LeaseUntil b = rr_LeaseUntil a" using arg_cong [OF assms, of rr_LeaseUntil] by simp
  show "rr_RunnerID b = rr_RunnerID a" using arg_cong [OF assms, of rr_RunnerID] by simp
  show "rr_NextEventSeq b = rr_NextEventSeq a" using arg_cong [OF assms, of rr_NextEventSeq] by simp
  show "rr_RetainedFrom b = rr_RetainedFrom a" using arg_cong [OF assms, of rr_RetainedFrom] by simp
  show "rr_Hold b = rr_Hold a" using arg_cong [OF assms, of rr_Hold] by simp
qed

definition hard_tenant :: "tenant_row \<Rightarrow> tenant_row" where
  "hard_tenant t = t\<lparr>tn_LastDispatched := None\<rparr>"

text \<open>An idempotency key that was recorded stays as it was.\<close>

abbreviation idem_key :: "idem_row \<Rightarrow> string \<times> string \<times> string \<times> string" where
  "idem_key k \<equiv> (ik_TenantID k, ik_PrincipalID k, ik_Route k, ik_Key k)"

definition idem_kept :: "idem_row list \<Rightarrow> idem_row list \<Rightarrow> bool" where
  "idem_kept xs ys \<longleftrightarrow> (\<forall>k. tfind idem_key k xs \<noteq> None \<longrightarrow> tfind idem_key k ys = tfind idem_key k xs)"

lemma idem_kept_refl [simp]: "idem_kept xs xs"
  by (simp add: idem_kept_def)

lemma idem_kept_trans: "idem_kept xs ys \<Longrightarrow> idem_kept ys zs \<Longrightarrow> idem_kept xs zs"
  by (simp add: idem_kept_def)

lemma idem_kept_insert [simp]: "tfind idem_key (idem_key k) xs = None \<Longrightarrow> idem_kept xs (tinsert k xs)"
  by (auto simp: idem_kept_def tinsert_def)

definition quiet :: "run_db \<Rightarrow> run_db \<Rightarrow> bool" where
  "quiet db db' \<longleftrightarrow> map hard_run (db_Runs db') = map hard_run (db_Runs db)
     \<and> map hard_tenant (db_Tenants db') = map hard_tenant (db_Tenants db) \<and> db_Runners db' = db_Runners db
     \<and> db_Allocs db' = db_Allocs db \<and> db_Snapshots db' = db_Snapshots db \<and> db_Events db' = db_Events db
     \<and> idem_kept (db_Idem db) (db_Idem db')"

lemma quiet_refl [simp]: "quiet db db"
  by (simp add: quiet_def)

lemma quiet_trans: "quiet a b \<Longrightarrow> quiet b c \<Longrightarrow> quiet a c"
  by (auto simp: quiet_def intro: idem_kept_trans)

lemma map_tmodify: "(\<And>r. h (f r) = h r) \<Longrightarrow> map h (tmodify key k f rows) = map h rows"
  by (simp add: tmodify_def)

lemma quiet_upd_run: "(\<And>r. hard_run (f r) = hard_run r) \<Longrightarrow> quiet db (upd_run t i f db)"
  by (simp add: quiet_def upd_run_def map_tmodify)

lemma quiet_set_runnable: "quiet db (set_runnable next e db)"
  by (auto simp: set_runnable_def Let_def hard_run_def intro!: quiet_upd_run)

lemma quiet_set_dispatched: "quiet db (set_dispatched t now db)"
  by (simp add: quiet_def set_dispatched_def map_tmodify hard_tenant_def)

lemma quiet_postpone: "quiet db (postpone r now db)"
  unfolding postpone_def by (rule quiet_trans [OF quiet_upd_run quiet_set_dispatched]) (simp add: hard_run_def)

lemma quiet_tables [simp]:
  "quiet db (db\<lparr>db_Messages := x2\<rparr>)" "quiet db (db\<lparr>db_Artifacts := x3\<rparr>)"
  "quiet db (db\<lparr>db_Effects := x4\<rparr>)" "quiet db (db\<lparr>db_Approvals := x5\<rparr>)" "quiet db (db\<lparr>db_Steps := x6\<rparr>)"
  "quiet db (db\<lparr>db_Attempts := x7\<rparr>)" "quiet db (db\<lparr>db_Projects := x8\<rparr>)"
  by (simp_all add: quiet_def)

lemma quiet_idem [simp]:
  "find_idem db (ik_TenantID k) (ik_PrincipalID k) (ik_Route k) (ik_Key k) = None \<Longrightarrow> quiet db (db\<lparr>db_Idem := tinsert k (db_Idem db)\<rparr>)"
  "find_idem db (ik_TenantID k) (ik_PrincipalID k) (ik_Route k) (ik_Key k) = None \<Longrightarrow>
     quiet db (db\<lparr>db_Messages := x, db_Idem := tinsert k (db_Idem db)\<rparr>)"
  by (simp_all add: quiet_def find_idem_def)

lemma quiet_insert_effect: "insert_effect x db = Inr db' \<Longrightarrow> quiet db db'"
  by (auto simp: insert_effect_def res_bind_Inr_iff split: if_splits)

lemma quiet_insert_effects: "insert_effects s n es db = Inr db' \<Longrightarrow> quiet db db'"
  by (induction s n es db rule: insert_effects.induct) (auto simp: res_bind_Inr_iff dest: quiet_insert_effect intro: quiet_trans)

lemma quiet_stages:
  "upsert_step next db = Inr db' \<Longrightarrow> quiet db db'"
  "write_pending next db = Inr db' \<Longrightarrow> quiet db db'"
  "write_approval next db = Inr db' \<Longrightarrow> quiet db db'"
  "quiet db (write_receipt next e db)"
  by (auto simp: upsert_step_def write_pending_def write_approval_def write_receipt_def upd_effect_def Let_def res_bind_Inr_iff
      split: if_splits option.splits)

text \<open>The stages of \<open>persistTransition\<close> that matter to an invariant.\<close>

lemma persist_stages:
  assumes "persistTransition prev next cs e kind clk db = Inr db'" "st_Version prev \<noteq> st_Version next"
  obtains d1 d2 d3 d4 where "update_run prev next cs e clk (set_runnable next e db) = Inr d1" "quiet d1 d2"
    "release_idle next d2 = Inr d3" "writeSnapshot next (Some (prev, e)) d3 = Inr d4" "announce_transition prev next e kind d4 = Inr db'"
proof -
  from assms obtain d1 u1 u2 u3 d2 d3 d4 where
      s: "update_run prev next cs e clk (set_runnable next e db) = Inr d1" "upsert_step next d1 = Inr u1"
        "insert_effects next 0 (ev_Effects e) u1 = Inr u2" "write_pending next u2 = Inr u3"
        "write_approval next (write_receipt next e u3) = Inr d2"
        "release_idle next d2 = Inr d3" "writeSnapshot next (Some (prev, e)) d3 = Inr d4" "announce_transition prev next e kind d4 = Inr db'"
    by (auto simp: persistTransition_def res_bind_Inr_iff)
  have "quiet d1 u3" by (rule quiet_trans [OF quiet_trans [OF quiet_stages(1) [OF s(2)] quiet_insert_effects [OF s(3)]] quiet_stages(2) [OF s(4)]])
  then have "quiet d1 d2" by (rule quiet_trans [OF _ quiet_trans [OF quiet_stages(4) quiet_stages(3) [OF s(5)]]])
  then show thesis using that s by blast
qed

subsection \<open>The laws of an invariant\<close>

text \<open>What \<open>claim\<close> has established about the run and the runner it picked.\<close>

definition picked :: "run_db \<Rightarrow> persisted_run \<Rightarrow> string \<Rightarrow> bool" where
  "picked db r n \<longleftrightarrow> find_run db (rr_TenantID r) (rr_ID r) = Some r \<and> n \<in> rn_ID ` set (db_Runners db)
     \<and> rr_TenantID r \<in> tn_TenantID ` set (db_Tenants db)
     \<and> (case allocated db (rr_TenantID r) (rr_ID r) of Some a \<Rightarrow> n = al_RunnerID a | None \<Rightarrow> rr_RunnerID r = [] \<or> n = rr_RunnerID r)"

locale store_law =
  fixes sha :: "bytes \<Rightarrow> string" and I :: "run_db \<Rightarrow> bool"
  assumes law_keys: "I db \<Longrightarrow> distinct (map run_id (db_Runs db))"
    and law_quiet: "I db \<Longrightarrow> quiet db db' \<Longrightarrow> I db'"
    and law_append: "I db \<Longrightarrow> appendEvent t i kind body db = Inr db' \<Longrightarrow> I db'"
    and law_release: "I db \<Longrightarrow> releaseAllocation t i db = Inr db' \<Longrightarrow> I db'"
    and law_write: "I db \<Longrightarrow> find_run db t i = Some r \<Longrightarrow> accepted sha (run_State r) e cs s \<Longrightarrow> st_Version (run_State r) \<noteq> st_Version s \<Longrightarrow>
          update_run (run_State r) s cs e clk db = Inr d1 \<Longrightarrow> quiet d1 d2 \<Longrightarrow> release_idle s d2 = Inr d3 \<Longrightarrow>
          writeSnapshot s (Some (run_State r, e)) d3 = Inr d4 \<Longrightarrow> I d4"
    and law_lease: "I db \<Longrightarrow> I (upd_run t i (\<lambda>x. x\<lparr>rr_LeaseUntil := Some u\<rparr>) db)"
    and law_insert: "I db \<Longrightarrow> insert_run (new_row q i input now) db = Inr db' \<Longrightarrow> I db'"
    and law_reserve: "I db \<Longrightarrow> picked db r n \<Longrightarrow> reserve_slot (rr_TenantID r) (rr_ID r) n epoch db = Inr d1 \<Longrightarrow>
          I (upd_run (rr_TenantID r) (rr_ID r) (assign_runner n) d1)"
    and law_hold: "I db \<Longrightarrow> find_run db (rr_TenantID r) (rr_ID r) = Some r \<Longrightarrow> \<not> supportedSnapshot r \<Longrightarrow> I (holdSnapshot r now db)"
    and law_tenant: "I db \<Longrightarrow> I (fst (BootstrapTenant t p role db))"
    and law_runner: "I db \<Longrightarrow> I (fst (RegisterRunner n ep slots db))"
    and law_trim: "I db \<Longrightarrow> find_run db (rr_TenantID r) (rr_ID r) = Some x \<Longrightarrow> rr_NextEventSeq x = rr_NextEventSeq r \<Longrightarrow>
          rr_RetainedFrom x < trim_target keep r \<Longrightarrow> 1 \<le> keep \<Longrightarrow> I (trim_run keep r db)"
begin

lemma announce_law: "I db \<Longrightarrow> announce_transition prev s e kind db = Inr db' \<Longrightarrow> I db'"
proof -
  assume I: "I db" and a: "announce_transition prev s e kind db = Inr db'"
  let ?b = "PayProgress (progressEvent s e)" and ?t = "st_TenantID s" and ?i = "st_RunID s"
  obtain d1 d2 where d1: "appendEvent ?t ?i kind ?b db = Inr d1"
      and d2: "(case st_Approval s of
           Some a \<Rightarrow> if st_Status s = StatusWaitingApproval \<and> st_Status prev \<noteq> StatusWaitingApproval
                     then appendEvent ?t ?i ''approval.required'' (PayApproval (approval_id a) a) d1 else Inr d1
         | None \<Rightarrow> Inr d1) = Inr d2"
      and d3: "(if RunStatus_Terminal (st_Status s) \<and> kind \<noteq> ''run.finished'' then appendEvent ?t ?i ''run.finished'' ?b d2 else Inr d2) = Inr db'"
    using a unfolding announce_transition_def Let_def by (elim res_bind_InrE) blast
  have "I d1" by (rule law_append [OF I d1])
  then have "I d2" using d2 law_append [of d1] by (cases "st_Approval s") (simp_all split: if_splits)
  then show ?thesis using d3 law_append [of d2] by (simp split: if_splits)
qed

end

lemma find_run_quiet:
  assumes "quiet db db'" "find_run db t i = Some r"
  shows "\<exists>r'. find_run db' t i = Some r' \<and> hard_run r' = hard_run r"
proof -
  have "map hard_run rs' = map hard_run rs \<Longrightarrow> tfind run_id k rs = Some r \<Longrightarrow>
      \<exists>r'. tfind run_id k rs' = Some r' \<and> hard_run r' = hard_run r" for k rs rs'
  proof (induction rs arbitrary: rs')
    case (Cons a rs)
    then obtain b bs where b: "rs' = b # bs" "hard_run b = hard_run a" "map hard_run bs = map hard_run rs" by (cases rs') auto
    have "run_id b = run_id a" using hard_run_eqD(1,2) [OF b(2)] by simp
    then show ?case using Cons b by auto
  qed simp
  then show ?thesis using assms by (simp add: quiet_def find_run_def)
qed

lemma run_State_hard: "hard_run r' = hard_run r \<Longrightarrow> run_State r' = run_State r"
  using hard_run_eqD(6-9) [of r' r] by (simp add: run_State_def row_lease_def)

lemma getRun_find: "getRun db t i = Inr r \<Longrightarrow> find_run db t i = Some r \<and> supportedSnapshot r"
  by (auto simp: getRun_def split: option.splits if_splits)

lemma find_run_key: "find_run db t i = Some r \<Longrightarrow> rr_TenantID r = t \<and> rr_ID r = i \<and> r \<in> set (db_Runs db)"
  using tfind_key [of run_id "(t, i)" "db_Runs db" r] tfind_mem [of run_id "(t, i)" "db_Runs db" r] by (simp add: find_run_def)

lemma find_run_upd:
  assumes "\<And>r. run_id (f r) = run_id r"
  shows "find_run (upd_run t i f db) t' i' = (if (t', i') = (t, i) then map_option f (find_run db t i) else find_run db t' i')"
  using tfind_tmodify [of run_id f "(t', i')" "(t, i)"] assms by (simp add: find_run_def upd_run_def)

lemma assign_runner_state [simp]: "run_State (assign_runner n r) = run_State r" "run_id (assign_runner n r) = run_id r"
  by (simp_all add: assign_runner_def run_State_def row_lease_def)

lemma add_Inr:
  "add_active t k db = Inr db' \<Longrightarrow> db' = db\<lparr>db_Tenants := tmodify tn_TenantID t (\<lambda>x. x\<lparr>tn_ActiveCount := tn_ActiveCount x + k\<rparr>) (db_Tenants db)\<rparr>
     \<and> list_all tenant_checks (db_Tenants db')"
  "add_slots n k db = Inr db' \<Longrightarrow> db' = db\<lparr>db_Runners := tmodify rn_ID n (\<lambda>x. x\<lparr>rn_ReservedSlots := rn_ReservedSlots x + k\<rparr>) (db_Runners db)\<rparr>
     \<and> list_all runner_checks (db_Runners db')"
  by (auto simp: add_active_def add_slots_def Let_def split: if_splits)

text \<open>A reservation counts a new slot, unless the run has one, and writes the allocation.\<close>

lemma reserve_stages:
  assumes "reserve_slot t i n epoch db = Inr db'"
  obtains d1 where "(allocated db t i = None \<and> (\<exists>d0. add_active t 1 db = Inr d0 \<and> add_slots n 1 d0 = Inr d1)) \<or> (allocated db t i \<noteq> None \<and> d1 = db)"
    "db' = (case tfind alloc_key (t, i) (db_Allocs d1) of
       None \<Rightarrow> d1\<lparr>db_Allocs := tinsert \<lparr>al_TenantID = t, al_RunID = i, al_RunnerID = n, al_Epoch = epoch, al_State = AllocReserved, al_Slots = 1\<rparr> (db_Allocs d1)\<rparr>
     | Some _ \<Rightarrow> d1\<lparr>db_Allocs := tmodify alloc_key (t, i) (\<lambda>a. a\<lparr>al_Epoch := epoch, al_State := AllocReserved\<rparr>) (db_Allocs d1)\<rparr>)"
proof -
  obtain d1 where d1: "(if allocated db t i = None then res_bind (add_active t 1 db) (add_slots n 1) else Inr db) = Inr d1"
    and r: "res_bind (bigints [epoch]) (\<lambda>_. case tfind alloc_key (t, i) (db_Allocs d1) of
       None \<Rightarrow> Inr (d1\<lparr>db_Allocs := tinsert \<lparr>al_TenantID = t, al_RunID = i, al_RunnerID = n, al_Epoch = epoch,
                          al_State = AllocReserved, al_Slots = 1\<rparr> (db_Allocs d1)\<rparr>)
     | Some _ \<Rightarrow> Inr (d1\<lparr>db_Allocs := tmodify alloc_key (t, i) (\<lambda>a. a\<lparr>al_Epoch := epoch, al_State := AllocReserved\<rparr>) (db_Allocs d1)\<rparr>)) = Inr db'"
    using assms unfolding reserve_slot_def by (rule res_bind_InrE)
  show thesis
  proof (rule that)
    show "(allocated db t i = None \<and> (\<exists>d0. add_active t 1 db = Inr d0 \<and> add_slots n 1 d0 = Inr d1)) \<or> (allocated db t i \<noteq> None \<and> d1 = db)"
      using d1 by (auto simp: res_bind_Inr_iff split: if_splits)
  qed (use r in \<open>elim res_bind_InrE, simp split: option.splits\<close>)
qed

lemma reserve_runs: "reserve_slot t i n epoch db = Inr db' \<Longrightarrow> db_Runs db' = db_Runs db"
  by (erule reserve_stages) (auto dest!: add_Inr split: option.splits)

lemma pick_picked:
  assumes keys: "distinct (map run_id (db_Runs db))" and t: "pick_tenant lk now pref db = Some t" and r: "pick_run lk now pref t db = Some r"
  shows "find_run db (rr_TenantID r) (rr_ID r) = Some r" "rr_TenantID r \<in> tn_TenantID ` set (db_Tenants db)" "runnable db now pref t r"
proof -
  have r': "r \<in> set (db_Runs db)" "runnable db now pref t r" using first_by_mem [OF r [unfolded pick_run_def]] by auto
  then show "runnable db now pref t r" by simp
  show "find_run db (rr_TenantID r) (rr_ID r) = Some r" using tfind_distinct [OF keys r'(1)] by (simp add: find_run_def)
  have "t \<in> set (db_Tenants db)" using first_by_mem [OF t [unfolded pick_tenant_def]] by auto
  then show "rr_TenantID r \<in> tn_TenantID ` set (db_Tenants db)" using r'(2) by (auto simp: runnable_def)
qed

lemma find_SomeD: "List.find P xs = Some x \<Longrightarrow> x \<in> set xs \<and> P x"
  by (auto simp: find_Some_iff)

lemma pick_runner_picked:
  assumes "find_run db (rr_TenantID r) (rr_ID r) = Some r" "rr_TenantID r \<in> tn_TenantID ` set (db_Tenants db)" "pick_runner lk pref r db = Some n"
  shows "picked db r (rn_ID n)"
proof (cases "allocated db (rr_TenantID r) (rr_ID r)")
  case None
  then have "first_by (\<lambda>n. (rn_ReservedSlots n, rn_ID n)) (filter (\<lambda>n. rn_Enabled n \<and> rn_ReservedSlots n < rn_MaxSlots n
      \<and> (rr_RunnerID r = [] \<or> rn_ID n = rr_RunnerID r) \<and> (pref = [] \<or> rn_ID n = pref) \<and> \<not> lk_Runner lk (rn_ID n)) (db_Runners db)) = Some n"
    using assms(3) by (simp add: pick_runner_def)
  from first_by_mem [OF this] show ?thesis using assms(1,2) None by (auto simp: picked_def)
next
  case (Some a)
  then have "List.find (\<lambda>n. rn_ID n = al_RunnerID a \<and> rn_Enabled n \<and> (pref = [] \<or> rn_ID n = pref)) (db_Runners db) = Some n"
    using assms(3) by (simp add: pick_runner_def)
  from find_SomeD [OF this] show ?thesis using assms(1,2) Some by (force simp: picked_def)
qed

context store_law
begin

lemma persist_law:
  assumes I: "I db" and r: "find_run db t i = Some r" and acc: "accepted sha (run_State r) e cs s"
    and p: "persistTransition (run_State r) s cs e kind clk db = Inr db'"
  shows "I db'"
proof (cases "st_Version (run_State r) = st_Version s")
  case True
  then show ?thesis using I p by (simp add: persistTransition_def)
next
  case False
  obtain d1 d2 d3 d4 where d: "update_run (run_State r) s cs e clk (set_runnable s e db) = Inr d1" "quiet d1 d2"
    "release_idle s d2 = Inr d3" "writeSnapshot s (Some (run_State r, e)) d3 = Inr d4" "announce_transition (run_State r) s e kind d4 = Inr db'"
    by (rule persist_stages [OF p False])
  obtain r' where r': "find_run (set_runnable s e db) t i = Some r'" "hard_run r' = hard_run r"
    using find_run_quiet [OF quiet_set_runnable r] by blast
  have eq: "run_State r' = run_State r" by (rule run_State_hard [OF r'(2)])
  have "I (set_runnable s e db)" by (rule law_quiet [OF I quiet_set_runnable])
  from law_write [OF this r'(1), unfolded eq, OF acc False d(1-4)] show ?thesis using announce_law d(5) by blast
qed

lemma transit_law: "I db \<Longrightarrow> find_run db t i = Some r \<Longrightarrow> transit sha r e kind clk db = Inr db' \<Longrightarrow> I db'"
  using persist_law [of db t i r] by (auto simp: transit_def accepted_def split: prod.splits option.splits)

lemma transit_quiet_law:
  assumes "I db" "find_run db t i = Some r" "quiet db d0" "db_Runs d0 = db_Runs db" "transit sha r e kind clk d0 = Inr db'"
  shows "I db'"
  using transit_law [OF law_quiet [OF assms(1,3)] _ assms(5)] assms(2,4) by (simp add: find_run_def)

lemma claim_law:
  assumes I: "I db" and pk: "picked db r n" and c: "claim_on sha r n owner dur now clk db = Inr (db', r')"
  shows "I db'"
proof -
  let ?t = "rr_TenantID r" and ?i = "rr_ID r" and ?e = "claim_event r owner dur now"
  obtain s cs d1 where tr: "accepted sha (run_State r) ?e cs s"
      and d1: "reserve_slot ?t ?i n (rr_LeaseEpoch r + 1) db = Inr d1"
      and p: "persistTransition (run_State r) s cs ?e ''run.claimed'' clk (upd_run ?t ?i (assign_runner n) (set_dispatched ?t now d1)) = Inr db'"
    using c by (auto simp: claim_on_def Let_def reread_def accepted_def res_bind_Inr_iff split: prod.splits option.splits)
  let ?d = "upd_run ?t ?i (assign_runner n) (set_dispatched ?t now d1)"
  have "quiet (upd_run ?t ?i (assign_runner n) d1) ?d"
    using quiet_set_dispatched [of d1 ?t now] by (simp add: quiet_def upd_run_def set_dispatched_def)
  then have "I ?d" using law_quiet law_reserve [OF I pk d1] by blast
  moreover have "find_run d1 ?t ?i = Some r" using pk reserve_runs [OF d1] by (simp add: picked_def find_run_def)
  then have "find_run ?d ?t ?i = Some (assign_runner n r)"
    using find_run_upd [of "assign_runner n" ?t ?i "set_dispatched ?t now d1"] by (simp add: set_dispatched_def find_run_def)
  ultimately show ?thesis using persist_law [of ?d ?t ?i "assign_runner n r"] tr p by simp
qed

lemma claim_run_law: "I db \<Longrightarrow> I (fst (claim_run sha lk owner dur pref now clk db))"
proof -
  assume I: "I db"
  show ?thesis
  proof (cases "pick_tenant lk now pref db")
    case None
    then show ?thesis using I by (simp add: claim_run_def)
  next
    case t: (Some t)
    show ?thesis
    proof (cases "pick_run lk now pref t db")
      case None
      then show ?thesis using I t by (simp add: claim_run_def)
    next
      case r: (Some r)
      note pk = pick_picked [OF law_keys [OF I] t r]
      show ?thesis
      proof (cases "pick_runner lk pref r db")
        case None
        then show ?thesis using I t r law_hold [OF I pk(1)] law_quiet [OF I quiet_postpone] by (simp add: claim_run_def)
      next
        case n: (Some n)
        then show ?thesis using I t r law_hold [OF I pk(1)] claim_law [OF I pick_runner_picked [OF pk(1,2) n]]
          by (simp add: claim_run_def commit_def split: sum.splits prod.splits)
      qed
    qed
  qed
qed

end

end
