(* ===== verification/Run_Laws.thy ===== *)
theory Run_Laws
  imports Run_Machine
begin

section \<open>Every transaction keeps a lawful invariant\<close>

text \<open>
  A transaction of the store is a sequence of the statements whose laws \<open>store_law\<close> names. So an invariant
  that obeys the laws holds after every transaction, and of every execution of the store.
\<close>

lemma commit_fst: "fst (commit db m) = (case m of Inl e \<Rightarrow> db | Inr x \<Rightarrow> fst x)"
  by (simp add: commit_def split: sum.splits prod.splits)

lemma commit_kept: "P db \<Longrightarrow> (\<And>db' x. m = Inr (db', x) \<Longrightarrow> P db') \<Longrightarrow> P (fst (commit db m))"
  by (auto simp: commit_fst split: sum.splits)

lemma reread_Inr: "reread t i db = Inr (db', r) \<Longrightarrow> db' = db \<and> getRun db t i = Inr r"
  by (auto simp: reread_def res_bind_Inr_iff)

context store_law
begin

lemma apply_law: "I db \<Longrightarrow> I (fst (store_apply sha fhash t i e now clk db))"
  unfolding store_apply_def
  by (rule commit_kept) (auto simp: res_bind_Inr_iff Let_def dest!: reread_Inr getRun_find intro: transit_law)

lemma cancel_law: "I db \<Longrightarrow> I (fst (Cancel sha who i now clk db))"
  unfolding Cancel_def
  by (rule commit_kept) (auto simp: res_bind_Inr_iff Let_def split: if_splits dest!: reread_Inr getRun_find intro: transit_law)

lemma transit_approvals_law: "transit sha r e kind clk (db\<lparr>db_Approvals := x\<rparr>) = Inr db' \<Longrightarrow> I db \<Longrightarrow> find_run db t i = Some r \<Longrightarrow> I db'"
  by (rule transit_quiet_law [of db t i r]) auto

lemma append_quiet_law: "appendEvent t i kind body d = Inr db' \<Longrightarrow> I db \<Longrightarrow> quiet db d \<Longrightarrow> I db'"
  using law_append law_quiet by blast

lemma insert_quiet_law: "insert_run (new_row q i input now) d = Inr db' \<Longrightarrow> I db \<Longrightarrow> quiet db d \<Longrightarrow> I db'"
  using law_insert law_quiet by blast

lemma decide_law: "I db \<Longrightarrow> I (fst (Decide sha who a b allow now clk db))"
  unfolding Decide_def
  by (rule commit_kept)
    (auto simp: res_bind_Inr_iff Let_def split: if_splits option.splits dest!: reread_Inr getRun_find intro: transit_approvals_law)

lemma release_law': "I db \<Longrightarrow> (if b then releaseAllocation t i else Inr) db = Inr db' \<Longrightarrow> I db'"
  by (auto split: if_splits intro: law_release)

lemma requeue_law: "I db \<Longrightarrow> I (fst (RequeueCapacity sha r now clk db))"
proof -
  assume I: "I db"
  have kept: "I db'" if "find_run db t i = Some c" "requeue sha c e nb clk db = Inr db'" for t i c e nb db'
  proof -
    from that(2) obtain s cs d1 where d1: "accepted sha (run_State c) e cs s"
        "persistTransition (run_State c) s cs e ''run.capacity_rejected'' clk db = Inr d1"
        "releaseAllocation (rr_TenantID c) (rr_ID c) (upd_run (rr_TenantID c) (rr_ID c) (\<lambda>x. x\<lparr>rr_NotBefore := Some nb\<rparr>) d1) = Inr db'"
      by (auto simp: requeue_def accepted_def res_bind_Inr_iff split: prod.splits option.splits if_splits)
    have "I d1" by (rule persist_law [OF I that(1) d1(1,2)])
    then have "I (upd_run (rr_TenantID c) (rr_ID c) (\<lambda>x. x\<lparr>rr_NotBefore := Some nb\<rparr>) d1)"
      by (rule law_quiet) (rule quiet_upd_run, simp add: hard_run_def)
    then show ?thesis using law_release d1(3) by blast
  qed
  show ?thesis unfolding RequeueCapacity_def
    by (rule commit_kept) (use I in \<open>auto simp: res_bind_Inr_iff Let_def split: if_splits dest!: getRun_find intro: kept\<close>)
qed

lemma yield_quiet: "quiet (upd_run t i (\<lambda>x. x\<lparr>rr_LeaseUntil := Some clk\<rparr>) db) (upd_run t i (yield_lease clk nb) db)"
proof -
  have "hard_run (yield_lease clk nb x) = hard_run (x\<lparr>rr_LeaseUntil := Some clk\<rparr>)" for x by (simp add: hard_run_def yield_lease_def)
  then show ?thesis by (simp add: quiet_def upd_run_def tmodify_def)
qed

lemma defer_law: "I db \<Longrightarrow> I (fst (Defer r nb kind clk db))"
proof -
  assume I: "I db"
  have y: "I (upd_run t i (yield_lease clk nb) db)" for t i by (rule law_quiet [OF law_lease [OF I] yield_quiet])
  have kept: "I db'" if "releaseAllocation t i (upd_run t i (yield_lease clk nb) db) = Inr d" "appendEvent t i kind b d = Inr db'" for t i d b db'
    using law_append [OF law_release [OF y that(1)] that(2)] .
  show ?thesis unfolding Defer_def
    by (rule commit_kept) (use I in \<open>auto simp: res_bind_Inr_iff Let_def split: if_splits option.splits intro: kept law_append [OF y]\<close>)
qed

lemma heartbeat_law: "I db \<Longrightarrow> I (fst (Heartbeat t i owner epoch dur clk db))"
  by (auto simp: Heartbeat_def Let_def law_lease split: option.splits)

lemma worker_event_law: "I db \<Longrightarrow> I (fst (AppendWorkerEvent r kind body clk db))"
  unfolding AppendWorkerEvent_def
  by (rule commit_kept) (auto simp: res_bind_Inr_iff Let_def split: if_splits option.splits intro: law_append)

lemma message_law: "I db \<Longrightarrow> I (fst (AddMessage h who i txt key db))"
  unfolding AddMessage_def
  by (rule commit_kept)
    (auto simp: res_bind_Inr_iff Let_def add_message_def split: if_splits option.splits intro: append_quiet_law)

lemma consume_law: "I db \<Longrightarrow> I (fst (ConsumeMessages t i owner epoch step clk db))"
  unfolding ConsumeMessages_def
  by (rule commit_kept)
    (auto simp: res_bind_Inr_iff Let_def apply_messages_def split: if_splits option.splits intro: law_quiet)

lemma artifact_law: "I db \<Longrightarrow> I (fst (PublishArtifact a db))"
  unfolding PublishArtifact_def
  by (rule commit_kept) (auto simp: res_bind_Inr_iff Let_def split: if_splits option.splits intro: append_quiet_law)

lemma plan_law: "I db \<Longrightarrow> I (fst (PlanSystemEffect r e n now db))"
  unfolding PlanSystemEffect_def
  by (rule commit_kept)
    (auto simp: res_bind_Inr_iff Let_def split: if_splits option.splits dest!: quiet_insert_effect intro: law_quiet)

lemma settle_law: "I db \<Longrightarrow> I (fst (SettleSystemEffect r c db))"
  unfolding SettleSystemEffect_def
  by (rule commit_kept) (auto simp: res_bind_Inr_iff Let_def upd_effect_def split: if_splits intro: law_quiet)

lemma submit_law: "I db \<Longrightarrow> I (fst (Submit rhash q key i now db))"
  unfolding Submit_def
  by (rule commit_kept)
    (auto simp: res_bind_Inr_iff Let_def split: if_splits option.splits intro: insert_quiet_law)

lemma open_attempt_law: "open_attempt c latest r pr ref v tmo aid now db = Inr (db', a) \<Longrightarrow> I db \<Longrightarrow> I db'"
proof -
  assume o: "open_attempt c latest r pr ref v tmo aid now db = Inr (db', a)" and I: "I db"
  have rows: "I (db\<lparr>db_Attempts := x\<rparr>)" for x by (rule law_quiet [OF I]) simp
  have two: "I d2" if "appendEvent t i k b (db\<lparr>db_Attempts := x\<rparr>) = Inr d1" "appendEvent t i k' b' d1 = Inr d2" for t i k b x d1 k' b' d2
    using law_append [OF law_append [OF rows that(1)] that(2)] .
  show ?thesis using o
    by (auto simp: open_attempt_def Let_def res_bind_Inr_iff split: if_splits option.splits intro: two law_append [OF rows])
qed

lemma begin_attempt_law: "I db \<Longrightarrow> I (fst (BeginPricedAttempt r ref v tmo pr sz aid now db))"
  unfolding BeginPricedAttempt_def
  by (rule commit_kept) (auto simp: res_bind_Inr_iff Let_def split: if_splits option.splits intro: open_attempt_law)

lemma complete_attempt_law: "I db \<Longrightarrow> I (fst (CompleteAttempt a ref db))"
  unfolding CompleteAttempt_def
  by (rule commit_kept) (auto simp: res_bind_Inr_iff Let_def upd_attempt_def split: if_splits option.splits intro: law_quiet)

lemma fail_attempt_law: "I db \<Longrightarrow> I (fst (FinishFailedAttempt a p db))"
  unfolding FinishFailedAttempt_def
  by (rule commit_kept)
    (auto simp: res_bind_Inr_iff Let_def upd_attempt_def split: if_splits option.splits intro: append_quiet_law)

lemma project_law: "I db \<Longrightarrow> I (fst (CreateProject t i name src prof db))"
  by (auto simp: CreateProject_def Let_def intro: law_quiet)

text \<open>Trimming a batch: the rows were read before the first of them changed.\<close>

lemma trim_run_find:
  "find_run (trim_run keep r db) t i = (if (t, i) = run_id r then map_option (\<lambda>x. x\<lparr>rr_RetainedFrom := trim_target keep r\<rparr>) (find_run db t i)
     else find_run db t i)"
  using find_run_upd [of "\<lambda>x. x\<lparr>rr_RetainedFrom := trim_target keep r\<rparr>" "rr_TenantID r" "rr_ID r" db t i]
  by (simp add: trim_run_def Let_def find_run_def)

lemma trim_fold_law:
  "I db \<Longrightarrow> distinct (map run_id rs) \<Longrightarrow> 1 \<le> keep \<Longrightarrow>
   (\<And>r. r \<in> set rs \<Longrightarrow> find_run db (rr_TenantID r) (rr_ID r) = Some r \<and> rr_RetainedFrom r < trim_target keep r) \<Longrightarrow>
   I (fold (trim_run keep) rs db)"
proof (induction rs arbitrary: db)
  case (Cons r rs)
  have "I (trim_run keep r db)" using law_trim [of db r r keep] Cons.prems by simp
  moreover have "find_run (trim_run keep r db) (rr_TenantID x) (rr_ID x) = Some x" if "x \<in> set rs" for x
  proof -
    have "run_id x \<noteq> run_id r" using Cons.prems(2) that by (auto simp: image_iff)
    then show ?thesis using Cons.prems(4) [of x] that by (auto simp: trim_run_find)
  qed
  ultimately show ?case using Cons by simp
qed simp

lemma trim_law: "I db \<Longrightarrow> I (fst (TrimEvents locked before keep batch db))"
proof -
  assume I: "I db"
  let ?sel = "filter (\<lambda>r. trimmable before keep r \<and> \<not> locked (rr_ID r)) (db_Runs db)"
  let ?items = "take (nat batch) (sort_key (\<lambda>r. (rr_UpdatedAt r, rr_ID r)) ?sel)"
  have keys: "distinct (map run_id (db_Runs db))" by (rule law_keys [OF I])
  have "distinct (map run_id ?sel)" using keys by (simp add: distinct_map_filter)
  then have "distinct (map run_id (sort_key (\<lambda>r. (rr_UpdatedAt r, rr_ID r)) ?sel))"
    by (simp add: distinct_map)
  then have d: "distinct (map run_id ?items)" by (simp add: distinct_take flip: take_map)
  have m: "find_run db (rr_TenantID r) (rr_ID r) = Some r \<and> rr_RetainedFrom r < trim_target keep r" if "r \<in> set ?items" for r
  proof -
    have "r \<in> set ?sel" using in_set_takeD [OF that] by simp
    then show ?thesis using tfind_distinct [OF keys, of r] by (auto simp: find_run_def trimmable_def)
  qed
  show ?thesis
  proof (cases "keep < 1")
    case False
    then show ?thesis using trim_fold_law [OF I d _ m] I by (auto simp: TrimEvents_def Let_def)
  qed (use I in \<open>simp add: TrimEvents_def\<close>)
qed

lemma action_law: "dg_Bytes d = sha \<Longrightarrow> I db \<Longrightarrow> I (fst (store_do d a db))"
  by (cases a)
    (simp_all add: outcome_of_def law_tenant law_runner project_law submit_law claim_run_law heartbeat_law apply_law Advance_def Resume_def
      cancel_law decide_law requeue_law defer_law worker_event_law message_law consume_law artifact_law plan_law settle_law
      begin_attempt_law complete_attempt_law fail_attempt_law trim_law)

lemma step_law: "dg_Bytes d = sha \<Longrightarrow> I db \<Longrightarrow> store_step d db a out db' \<Longrightarrow> I db'"
  using action_law [of d db a] by (simp add: store_step_def)

lemma later_law: "dg_Bytes d = sha \<Longrightarrow> exec (store_step d) db0 tr db \<Longrightarrow> I db0 \<Longrightarrow> I db"
proof (rotate_tac, induction rule: exec.induct)
  case (exec_step tr s e c s')
  then show ?case using step_law by blast
qed

end

text \<open>An invariant that holds of the empty store holds of every execution.\<close>

locale store_invariant = store_law +
  assumes law_empty: "I empty_store"
begin

lemma run_law: "dg_Bytes d = sha \<Longrightarrow> exec (store_step d) empty_store tr db \<Longrightarrow> I db"
  using later_law law_empty by blast

end

end
