(* ===== verification/Run_Frames.thy ===== *)
theory Run_Frames
  imports Run_Laws
begin

section \<open>What the statements of a transaction leave alone\<close>

lemma hard_map: "map hard_run xs = map hard_run ys \<Longrightarrow> (\<And>r. f (hard_run r) = f r) \<Longrightarrow> map f xs = map f ys"
proof -
  assume h: "map hard_run xs = map hard_run ys" and f: "\<And>r. f (hard_run r) = f r"
  have "map f zs = map f (map hard_run zs)" for zs using f by simp
  then show ?thesis using h by metis
qed

lemma update_Inr:
  assumes "update_run prev s cs e clk db = Inr db'"
  obtains r where "find_run db (st_TenantID s) (st_RunID s) = Some r" "rr_Version r = st_Version prev" "supportedSnapshot r"
    "lease_free (ev_Kind e) \<or> lease_held r (ev_Owner e) (ev_Epoch e) clk"
    "db' = upd_run (st_TenantID s) (st_RunID s) (write_state s cs clk) db"
  using assms by (auto simp: update_run_def res_bind_Inr_iff split: option.splits if_splits)

lemma release_frame:
  assumes "releaseAllocation t i db = Inr db'"
  shows "db_Runs db' = db_Runs db" "db_Events db' = db_Events db" "db_Snapshots db' = db_Snapshots db"
  using assms by (auto simp: releaseAllocation_def res_bind_Inr_iff dest!: add_Inr split: option.splits if_splits)

lemma release_idle_cases: "release_idle s db = Inr db' \<Longrightarrow> db' = db \<or> releaseAllocation (st_TenantID s) (st_RunID s) db = Inr db'"
  by (auto simp: release_idle_def split: if_splits)

lemma release_idle_frame:
  assumes "release_idle s db = Inr db'"
  shows "db_Runs db' = db_Runs db" "db_Events db' = db_Events db" "db_Snapshots db' = db_Snapshots db"
  using release_idle_cases [OF assms] release_frame by (auto split: if_splits)

lemma writeSnapshot_Inr:
  assumes "writeSnapshot s input db = Inr db'"
  shows "\<forall>x \<in> set (db_Snapshots db). \<not> (snapshot_run x = (st_TenantID s, st_RunID s) \<and> sn_Version x = st_Version s)"
    and "db' = db\<lparr>db_Snapshots := tinsert \<lparr>sn_TenantID = st_TenantID s, sn_RunID = st_RunID s, sn_Version = st_Version s,
                 sn_StepSeq = st_StepSeq s, sn_Body = s, sn_Input = input\<rparr> (db_Snapshots db)\<rparr>"
  using assms by (auto simp: writeSnapshot_def res_bind_Inr_iff split: if_splits)

lemma appendEvent_Inr:
  assumes "appendEvent t i kind body db = Inr db'"
  obtains r where "find_run db t i = Some r"
    "db' = (upd_run t i (\<lambda>r. r\<lparr>rr_NextEventSeq := rr_NextEventSeq r + 1\<rparr>) db)\<lparr>db_Events :=
       tinsert \<lparr>xe_TenantID = t, xe_RunID = i, xe_Seq = rr_NextEventSeq r, xe_Type = kind, xe_Payload = body\<rparr> (db_Events db)\<rparr>"
  using assms by (auto simp: appendEvent_def Let_def split: option.splits if_splits)

lemma insert_run_Inr:
  assumes "insert_run r db = Inr db'"
  obtains d1 where "find_run db (rr_TenantID r) (rr_ID r) = None"
    "writeSnapshot (rr_Snapshot r) None (db\<lparr>db_Runs := tinsert r (db_Runs db)\<rparr>) = Inr d1"
    "appendEvent (rr_TenantID r) (rr_ID r) ''run.created'' (PayState (rr_Snapshot r)) d1 = Inr db'"
  using assms by (auto simp: insert_run_def res_bind_Inr_iff split: if_splits)

lemma reserve_frame:
  assumes "reserve_slot t i n epoch db = Inr db'"
  shows "db_Runs db' = db_Runs db" "db_Events db' = db_Events db" "db_Snapshots db' = db_Snapshots db"
proof -
  from assms show "db_Runs db' = db_Runs db" by (rule reserve_runs)
  from assms show "db_Events db' = db_Events db" by (rule reserve_stages) (auto dest!: add_Inr split: option.splits)
  from assms show "db_Snapshots db' = db_Snapshots db" by (rule reserve_stages) (auto dest!: add_Inr split: option.splits)
qed

lemma operator_frame:
  "db_Runs (fst (BootstrapTenant t p role db)) = db_Runs db" "db_Events (fst (BootstrapTenant t p role db)) = db_Events db"
  "db_Snapshots (fst (BootstrapTenant t p role db)) = db_Snapshots db"
  "db_Runs (fst (RegisterRunner n ep slots db)) = db_Runs db" "db_Events (fst (RegisterRunner n ep slots db)) = db_Events db"
  "db_Snapshots (fst (RegisterRunner n ep slots db)) = db_Snapshots db"
  by (auto simp: BootstrapTenant_def RegisterRunner_def Let_def)

lemma hold_frame:
  "db_Events (holdSnapshot r now db) = db_Events db" "db_Snapshots (holdSnapshot r now db) = db_Snapshots db"
  "db_Allocs (holdSnapshot r now db) = db_Allocs db" "db_Runners (holdSnapshot r now db) = db_Runners db"
  by (simp_all add: holdSnapshot_def set_dispatched_def upd_run_def)

lemma write_state_sel [simp]:
  "run_id (write_state s cs clk r) = run_id r" "rr_RunnerID (write_state s cs clk r) = rr_RunnerID r"
  "rr_NextEventSeq (write_state s cs clk r) = rr_NextEventSeq r" "rr_RetainedFrom (write_state s cs clk r) = rr_RetainedFrom r"
  "rr_Hold (write_state s cs clk r) = rr_Hold r"
  by (simp_all add: write_state_def)

lemma assign_runner_sel [simp]:
  "rr_NextEventSeq (assign_runner n r) = rr_NextEventSeq r" "rr_RetainedFrom (assign_runner n r) = rr_RetainedFrom r"
  "rr_RunnerID (assign_runner n r) = n"
  by (simp_all add: assign_runner_def)

lemma map_upd_run: "(\<And>r. h (f r) = h r) \<Longrightarrow> map h (db_Runs (upd_run t i f db)) = map h (db_Runs db)"
  by (simp add: upd_run_def map_tmodify)

lemma upd_run_frame [simp]:
  "db_Events (upd_run t i f db) = db_Events db" "db_Snapshots (upd_run t i f db) = db_Snapshots db"
  "db_Allocs (upd_run t i f db) = db_Allocs db" "db_Runners (upd_run t i f db) = db_Runners db"
  "db_Tenants (upd_run t i f db) = db_Tenants db"
  by (simp_all add: upd_run_def)

lemma find_run_unique:
  "distinct (map run_id (db_Runs db)) \<Longrightarrow> find_run db t i = Some r \<Longrightarrow> y \<in> set (db_Runs db) \<Longrightarrow> run_id y = (t, i) \<Longrightarrow> y = r"
  using tfind_distinct [of run_id "db_Runs db" y] by (simp add: find_run_def)

lemma tmodify_run_keys: "(\<And>r. run_id (f r) = run_id r) \<Longrightarrow> run_id ` set (tmodify run_id k f rows) = run_id ` set rows"
  using arg_cong [OF tmodify_keys [of run_id f k rows], of set] by simp

text \<open>The rows after an update of one run: that run, updated, and the others as they were.\<close>

lemma upd_run_row:
  assumes "distinct (map run_id (db_Runs db))" "find_run db t i = Some r" "x \<in> set (tmodify run_id (t, i) f (db_Runs db))"
  shows "x = f r \<or> (x \<in> set (db_Runs db) \<and> run_id x \<noteq> (t, i))"
proof -
  obtain y where y: "y \<in> set (db_Runs db)" "x = (if run_id y = (t, i) then f y else y)" using assms(3) by (auto simp: set_tmodify)
  then show ?thesis using find_run_unique [OF assms(1,2) y(1)] by (cases "run_id y = (t, i)") simp_all
qed

end
