(* ===== verification/Run_Events.thy ===== *)
theory Run_Events
  imports Run_Frames
begin

section \<open>The event log of a run has no gap\<close>

text \<open>
  The events of a run that are kept carry every number from the retained boundary to the last one given
  out, once each, in the order in which they were appended.
\<close>

definition event_view :: "run_db \<Rightarrow> (run_id \<times> nat \<times> nat) list \<times> event_row list" where
  "event_view db = (map (\<lambda>r. (run_id r, rr_NextEventSeq r, rr_RetainedFrom r)) (db_Runs db), db_Events db)"

definition seqs_of :: "run_id \<Rightarrow> event_row list \<Rightarrow> nat list" where
  "seqs_of k es = map xe_Seq (filter (\<lambda>x. event_run x = k) es)"

fun events_dense :: "(run_id \<times> nat \<times> nat) list \<times> event_row list \<Rightarrow> bool" where
  "events_dense (rs, es) \<longleftrightarrow> distinct (map fst rs) \<and> fst ` set rs \<supseteq> event_run ` set es
     \<and> list_all (\<lambda>(k, n, m). 1 \<le> m \<and> m \<le> n \<and> seqs_of k es = rev [m..<n]) rs"

definition events_ok :: "run_db \<Rightarrow> bool" where
  "events_ok db \<longleftrightarrow> events_dense (event_view db)"

lemma events_ok_iff: "events_ok db \<longleftrightarrow> distinct (map run_id (db_Runs db)) \<and> event_run ` set (db_Events db) \<subseteq> run_id ` set (db_Runs db)
    \<and> (\<forall>r \<in> set (db_Runs db). 1 \<le> rr_RetainedFrom r \<and> rr_RetainedFrom r \<le> rr_NextEventSeq r
         \<and> seqs_of (run_id r) (db_Events db) = rev [rr_RetainedFrom r..<rr_NextEventSeq r])"
  by (auto simp: events_ok_def event_view_def list_all_iff image_image comp_def)

lemma seqs_of_simps [simp]: "seqs_of k (tinsert x es) = (if event_run x = k then [xe_Seq x] else []) @ seqs_of k es"
  by (simp add: seqs_of_def tinsert_def)

lemma events_okD:
  assumes "events_ok db" "r \<in> set (db_Runs db)"
  shows "1 \<le> rr_RetainedFrom r" "rr_RetainedFrom r \<le> rr_NextEventSeq r" "seqs_of (run_id r) (db_Events db) = rev [rr_RetainedFrom r..<rr_NextEventSeq r]"
  using assms unfolding events_ok_iff by blast+

lemma events_ok_keys: "events_ok db \<Longrightarrow> distinct (map run_id (db_Runs db))"
  by (simp add: events_ok_iff)

lemma append_events_ok:
  assumes ok: "events_ok db" and a: "appendEvent t i kind body db = Inr db'"
  shows "events_ok db'"
proof -
  obtain r where r: "find_run db t i = Some r" and db': "db' = (upd_run t i (\<lambda>r. r\<lparr>rr_NextEventSeq := rr_NextEventSeq r + 1\<rparr>) db)\<lparr>db_Events :=
       tinsert \<lparr>xe_TenantID = t, xe_RunID = i, xe_Seq = rr_NextEventSeq r, xe_Type = kind, xe_Payload = body\<rparr> (db_Events db)\<rparr>"
    using a by (rule appendEvent_Inr)
  let ?f = "\<lambda>r. r\<lparr>rr_NextEventSeq := rr_NextEventSeq r + 1\<rparr>"
  note key = find_run_key [OF r]
  have keys: "map run_id (tmodify run_id (t, i) ?f (db_Runs db)) = map run_id (db_Runs db)" by (rule tmodify_keys) simp
  have row: "1 \<le> rr_RetainedFrom x \<and> rr_RetainedFrom x \<le> rr_NextEventSeq x \<and> seqs_of (run_id x) (db_Events db') = rev [rr_RetainedFrom x..<rr_NextEventSeq x]"
    if x: "x \<in> set (tmodify run_id (t, i) ?f (db_Runs db))" for x
    using upd_run_row [OF events_ok_keys [OF ok] r x]
  proof
    assume "x = ?f r"
    then show ?thesis using events_okD [OF ok, of r] key by (simp add: db')
  next
    assume "x \<in> set (db_Runs db) \<and> run_id x \<noteq> (t, i)"
    then show ?thesis using events_okD [OF ok, of x] by (simp add: db' eq_commute)
  qed
  have "event_run ` set (db_Events db') \<subseteq> run_id ` set (db_Runs db')"
  proof -
    have "run_id ` set (db_Runs db') = run_id ` set (db_Runs db)" using tmodify_run_keys [of ?f "(t, i)" "db_Runs db"] by (simp add: db' upd_run_def)
    moreover have "(t, i) \<in> run_id ` set (db_Runs db)" using key by force
    moreover have "event_run ` set (db_Events db') = insert (t, i) (event_run ` set (db_Events db))" by (simp add: db')
    ultimately show ?thesis using ok by (simp add: events_ok_iff)
  qed
  then show ?thesis using ok keys row by (simp add: events_ok_iff db' upd_run_def)
qed

lemma same_events_ok: "events_ok db \<Longrightarrow> event_view db' = event_view db \<Longrightarrow> events_ok db'"
  by (simp add: events_ok_def)

lemma event_view_upd: "(\<And>r. run_id (f r) = run_id r \<and> rr_NextEventSeq (f r) = rr_NextEventSeq r \<and> rr_RetainedFrom (f r) = rr_RetainedFrom r) \<Longrightarrow>
    event_view (upd_run t i f db) = event_view db"
  by (simp add: event_view_def map_upd_run)

lemma event_view_runs: "db_Runs db' = db_Runs db \<Longrightarrow> db_Events db' = db_Events db \<Longrightarrow> event_view db' = event_view db"
  by (simp add: event_view_def)

lemma event_view_quiet: "quiet db db' \<Longrightarrow> event_view db' = event_view db"
  unfolding event_view_def quiet_def by (auto intro: hard_map)

lemma insert_events_ok:
  assumes ok: "events_ok db" and a: "insert_run (new_row q i input now) db = Inr db'"
  shows "events_ok db'"
proof -
  let ?r = "new_row q i input now"
  obtain d1 where none: "find_run db (rr_TenantID ?r) (rr_ID ?r) = None"
    and w: "writeSnapshot (rr_Snapshot ?r) None (db\<lparr>db_Runs := tinsert ?r (db_Runs db)\<rparr>) = Inr d1"
    and e: "appendEvent (rr_TenantID ?r) (rr_ID ?r) ''run.created'' (PayState (rr_Snapshot ?r)) d1 = Inr db'"
    using a by (rule insert_run_Inr)
  have fresh: "run_id ?r \<notin> run_id ` set (db_Runs db)" using none by (simp add: find_run_def tfind_None)
  moreover have "event_run ` set (db_Events db) \<subseteq> run_id ` set (db_Runs db)" using ok by (simp add: events_ok_iff)
  ultimately have "run_id ?r \<notin> event_run ` set (db_Events db)" by blast
  then have "seqs_of (run_id ?r) (db_Events db) = []" by (force simp: seqs_of_def filter_empty_conv)
  moreover have "rr_RetainedFrom ?r = 1" "rr_NextEventSeq ?r = 1" by (simp_all add: new_row_def Let_def)
  ultimately have "events_ok (db\<lparr>db_Runs := tinsert ?r (db_Runs db)\<rparr>)"
    using ok fresh by (auto simp: events_ok_iff tinsert_def)
  then have "events_ok d1" using same_events_ok writeSnapshot_Inr(2) [OF w] by (simp add: event_view_def)
  then show ?thesis using append_events_ok e by blast
qed

lemma trim_events_ok:
  assumes ok: "events_ok db" and x: "find_run db (rr_TenantID r) (rr_ID r) = Some x" "rr_NextEventSeq x = rr_NextEventSeq r"
    and t: "rr_RetainedFrom x < trim_target keep r" "1 \<le> keep"
  shows "events_ok (trim_run keep r db)"
proof -
  let ?m = "trim_target keep r" and ?k = "run_id r"
  let ?es = "filter (\<lambda>x. \<not> (event_run x = ?k \<and> xe_Seq x < ?m)) (db_Events db)" and ?f = "\<lambda>x. x\<lparr>rr_RetainedFrom := ?m\<rparr>"
  note key = find_run_key [OF x(1)]
  have le: "?m \<le> rr_NextEventSeq x" using x(2) t ok key by (auto simp: trim_target_def events_ok_iff)
  have keys: "map run_id (tmodify run_id ?k ?f (db_Runs db)) = map run_id (db_Runs db)" by (rule tmodify_keys) simp
  have other: "seqs_of k ?es = seqs_of k (db_Events db)" if "k \<noteq> ?k" for k
    using that unfolding seqs_of_def filter_filter by (metis (no_types, lifting) filter_cong)
  have "seqs_of ?k ?es = filter (\<lambda>n. \<not> n < ?m) (seqs_of ?k (db_Events db))"
    by (simp add: seqs_of_def filter_map comp_def conj_commute cong: conj_cong)
  also have "\<dots> = rev (filter (\<lambda>n. \<not> n < ?m) [rr_RetainedFrom x..<rr_NextEventSeq x])" using events_okD(3) [OF ok, of x] key by (simp add: rev_filter)
  also have "filter (\<lambda>n. \<not> n < ?m) [rr_RetainedFrom x..<rr_NextEventSeq x] = [?m..<rr_NextEventSeq x]"
  proof -
    have "[rr_RetainedFrom x..<rr_NextEventSeq x] = [rr_RetainedFrom x..<?m] @ [?m..<rr_NextEventSeq x]"
      using t(1) le by (metis le_add_diff_inverse less_imp_le upt_add_eq_append)
    then show ?thesis by (simp add: filter_empty_conv filter_id_conv)
  qed
  finally have mine: "seqs_of ?k ?es = rev [?m..<rr_NextEventSeq x]" .
  have row: "1 \<le> rr_RetainedFrom z \<and> rr_RetainedFrom z \<le> rr_NextEventSeq z \<and> seqs_of (run_id z) ?es = rev [rr_RetainedFrom z..<rr_NextEventSeq z]"
    if z: "z \<in> set (tmodify run_id ?k ?f (db_Runs db))" for z
    using upd_run_row [OF events_ok_keys [OF ok] x(1) z]
  proof
    assume "z = ?f x"
    then show ?thesis using mine le key by (simp add: trim_target_def)
  next
    assume "z \<in> set (db_Runs db) \<and> run_id z \<noteq> ?k"
    then show ?thesis using events_okD [OF ok, of z] other by simp
  qed
  have "event_run ` set ?es \<subseteq> run_id ` set (tmodify run_id ?k ?f (db_Runs db))"
    using ok tmodify_run_keys [of ?f ?k "db_Runs db"] by (auto simp: events_ok_iff)
  then show ?thesis using ok keys row unfolding events_ok_iff trim_run_def Let_def upd_run_def by simp
qed

interpretation run_events: store_invariant sha events_ok for sha
proof
  show "events_ok empty_store" by (simp add: events_ok_iff empty_store_def)
  show "distinct (map run_id (db_Runs db))" if "events_ok db" for db using that by (simp add: events_ok_iff)
  show "events_ok db'" if "events_ok db" "quiet db db'" for db db' using that same_events_ok event_view_quiet by blast
  show "events_ok db'" if "events_ok db" "appendEvent t i kind body db = Inr db'" for db db' t i kind body using that append_events_ok by blast
  show "events_ok db'" if "events_ok db" "releaseAllocation t i db = Inr db'" for db db' t i
    using that same_events_ok event_view_runs release_frame by blast
  show "events_ok (upd_run t i (\<lambda>x. x\<lparr>rr_LeaseUntil := Some u\<rparr>) db)" if "events_ok db" for db t i u
    using that by (rule same_events_ok) (simp add: event_view_upd)
  show "events_ok db'" if "events_ok db" "insert_run (new_row q i input now) db = Inr db'" for db db' q i input now using that insert_events_ok by blast
  show "events_ok (fst (BootstrapTenant t p role db))" if "events_ok db" for db t p role
    using that by (rule same_events_ok) (simp add: event_view_def operator_frame)
  show "events_ok (fst (RegisterRunner n ep slots db))" if "events_ok db" for db n ep slots
    using that by (rule same_events_ok) (simp add: event_view_def operator_frame)
  show "events_ok (trim_run keep r db)" if "events_ok db" "find_run db (rr_TenantID r) (rr_ID r) = Some x" "rr_NextEventSeq x = rr_NextEventSeq r"
      "rr_RetainedFrom x < trim_target keep r" "1 \<le> keep" for db r x keep
    using that by (rule trim_events_ok)
  show "events_ok (holdSnapshot r now db)" if "events_ok db" for db r now
    using that by (rule same_events_ok) (simp add: event_view_def hold_frame holdSnapshot_def set_dispatched_def map_upd_run)
  show "events_ok (upd_run (rr_TenantID r) (rr_ID r) (assign_runner n) d1)" if "events_ok db" "reserve_slot (rr_TenantID r) (rr_ID r) n epoch db = Inr d1"
    for db r n epoch d1
    using same_events_ok [OF that(1), of d1] reserve_frame [OF that(2)] same_events_ok [of d1] by (simp add: event_view_def map_upd_run)
  show "events_ok d4" if "events_ok db" "update_run (run_State r) s cs e clk db = Inr d1" "quiet d1 d2" "release_idle s d2 = Inr d3"
      "writeSnapshot s (Some (run_State r, e)) d3 = Inr d4" for db r s cs e clk d1 d2 d3 d4
  proof -
    have "event_view d1 = event_view db" using that(2) by (rule update_Inr) (simp add: event_view_upd)
    moreover have "event_view d2 = event_view d1" by (rule event_view_quiet [OF that(3)])
    moreover have "event_view d3 = event_view d2" by (rule event_view_runs) (use release_idle_frame [OF that(4)] in auto)
    moreover have "event_view d4 = event_view d3" by (rule event_view_runs) (use writeSnapshot_Inr(2) [OF that(5)] in auto)
    ultimately show ?thesis using same_events_ok [OF that(1), of d4] by simp
  qed
qed

end
