(* ===== verification/Run_Slots.thy ===== *)
theory Run_Slots
  imports Run_Frames
begin

section \<open>Slots are counted exactly\<close>

text \<open>
  The active count of a tenant and the reserved slots of a runner are the numbers of allocations that are
  not released, and an allocation names the runner that its run is bound to.
\<close>

definition slot_view :: "run_db \<Rightarrow> tenant_row list \<times> runner_row list \<times> alloc_row list \<times> (run_id \<times> string) list" where
  "slot_view db = (map hard_tenant (db_Tenants db), db_Runners db, db_Allocs db, map (\<lambda>r. (run_id r, rr_RunnerID r)) (db_Runs db))"

definition tenant_slots :: "string \<Rightarrow> alloc_row list \<Rightarrow> int" where
  "tenant_slots t as = int (tcount (\<lambda>a. unreleased a \<and> al_TenantID a = t) as)"

definition runner_slots :: "string \<Rightarrow> alloc_row list \<Rightarrow> int" where
  "runner_slots n as = int (tcount (\<lambda>a. unreleased a \<and> al_RunnerID a = n) as)"

definition tenants_counted :: "tenant_row list \<Rightarrow> alloc_row list \<Rightarrow> bool" where
  "tenants_counted ts as \<longleftrightarrow> distinct (map tn_TenantID ts) \<and> al_TenantID ` set as \<subseteq> tn_TenantID ` set ts
     \<and> list_all (\<lambda>t. tenant_checks t \<and> tn_ActiveCount t = tenant_slots (tn_TenantID t) as) ts"

definition runners_counted :: "runner_row list \<Rightarrow> alloc_row list \<Rightarrow> bool" where
  "runners_counted ns as \<longleftrightarrow> distinct (map rn_ID ns) \<and> al_RunnerID ` set as \<subseteq> rn_ID ` set ns
     \<and> list_all (\<lambda>n. rn_ID n \<noteq> [] \<and> runner_checks n \<and> rn_ReservedSlots n = runner_slots (rn_ID n) as) ns"

definition allocs_bound :: "alloc_row list \<Rightarrow> (run_id \<times> string) list \<Rightarrow> bool" where
  "allocs_bound as rs \<longleftrightarrow> distinct (map fst rs) \<and> distinct (map alloc_key as)
     \<and> list_all (\<lambda>a. al_Slots a = 1 \<and> al_RunnerID a \<noteq> [] \<and> (alloc_key a, al_RunnerID a) \<in> set rs) as"

fun slots_counted :: "tenant_row list \<times> runner_row list \<times> alloc_row list \<times> (run_id \<times> string) list \<Rightarrow> bool" where
  "slots_counted (ts, ns, as, rs) \<longleftrightarrow> tenants_counted ts as \<and> runners_counted ns as \<and> allocs_bound as rs"

definition slots_ok :: "run_db \<Rightarrow> bool" where
  "slots_ok db \<longleftrightarrow> slots_counted (slot_view db)"

lemma hard_tenant_sel [simp]: "tn_TenantID (hard_tenant t) = tn_TenantID t" "tn_ActiveCount (hard_tenant t) = tn_ActiveCount t"
  "tenant_checks (hard_tenant t) = tenant_checks t"
  by (simp_all add: hard_tenant_def tenant_checks_def)

lemma tenants_hard [simp]: "tenants_counted (map hard_tenant ts) as = tenants_counted ts as"
  by (simp add: tenants_counted_def list_all_iff comp_def image_image)

lemma slots_ok_iff: "slots_ok db \<longleftrightarrow> tenants_counted (db_Tenants db) (db_Allocs db) \<and> runners_counted (db_Runners db) (db_Allocs db)
    \<and> allocs_bound (db_Allocs db) (map (\<lambda>r. (run_id r, rr_RunnerID r)) (db_Runs db))"
  by (simp add: slots_ok_def slot_view_def)

lemma slots_ok_keys: "slots_ok db \<Longrightarrow> distinct (map run_id (db_Runs db))"
  by (simp add: slots_ok_iff allocs_bound_def comp_def)

subsection \<open>Counting\<close>

lemma tcount_tmodify:
  assumes "distinct (map key rows)" "tfind key k rows = Some r"
  shows "tcount P (tmodify key k f rows) + of_bool (P r) = tcount P rows + of_bool (P (f r))"
  using assms
proof (induction rows)
  case (Cons x rows)
  show ?case
  proof (cases "key x = k")
    case True
    then have "k \<notin> key ` set rows" using Cons.prems(1) by simp
    then have "tmodify key k f rows = rows" by (intro tmodify_absent) (simp add: tfind_None)
    then show ?thesis using True Cons.prems by (simp add: tcount_def tmodify_def)
  next
    case False
    then show ?thesis using Cons by (simp add: tcount_def tmodify_def)
  qed
qed simp

text \<open>One allocation changes hands: the counters of its tenant and of its runner follow.\<close>

lemma tenants_shift:
  assumes "tenants_counted ts as" "\<And>u. tenant_slots u as' = tenant_slots u as + (if u = t then d else 0)"
    and "list_all tenant_checks (tmodify tn_TenantID t (\<lambda>x. x\<lparr>tn_ActiveCount := tn_ActiveCount x + d\<rparr>) ts)"
    and "al_TenantID ` set as' \<subseteq> tn_TenantID ` set ts"
  shows "tenants_counted (tmodify tn_TenantID t (\<lambda>x. x\<lparr>tn_ActiveCount := tn_ActiveCount x + d\<rparr>) ts) as'"
proof -
  let ?f = "\<lambda>x. x\<lparr>tn_ActiveCount := tn_ActiveCount x + d\<rparr>"
  have ids: "map tn_TenantID (tmodify tn_TenantID t ?f ts) = map tn_TenantID ts" by (rule tmodify_keys) simp
  moreover have "\<forall>x \<in> set ts. tn_ActiveCount x = tenant_slots (tn_TenantID x) as" using assms(1) by (auto simp: tenants_counted_def list_all_iff)
  moreover have "tn_ActiveCount y = tenant_slots (tn_TenantID y) as'" if y: "y \<in> set (tmodify tn_TenantID t ?f ts)" for y
  proof -
    obtain x where x: "x \<in> set ts" "y = (if tn_TenantID x = t then ?f x else x)" using y unfolding set_tmodify by blast
    then show ?thesis using calculation(2) assms(2) by (cases "tn_TenantID x = t") simp_all
  qed
  moreover have "tn_TenantID ` set (tmodify tn_TenantID t ?f ts) = tn_TenantID ` set ts" using arg_cong [OF ids, of set] by simp
  ultimately show ?thesis using assms(1,3,4) by (simp add: tenants_counted_def list_all_iff)
qed

lemma runners_shift:
  assumes "runners_counted ns as" "\<And>u. runner_slots u as' = runner_slots u as + (if u = n then d else 0)"
    and "list_all runner_checks (tmodify rn_ID n (\<lambda>x. x\<lparr>rn_ReservedSlots := rn_ReservedSlots x + d\<rparr>) ns)"
    and "al_RunnerID ` set as' \<subseteq> rn_ID ` set ns"
  shows "runners_counted (tmodify rn_ID n (\<lambda>x. x\<lparr>rn_ReservedSlots := rn_ReservedSlots x + d\<rparr>) ns) as'"
proof -
  let ?f = "\<lambda>x. x\<lparr>rn_ReservedSlots := rn_ReservedSlots x + d\<rparr>"
  have ids: "map rn_ID (tmodify rn_ID n ?f ns) = map rn_ID ns" by (rule tmodify_keys) simp
  moreover have "\<forall>x \<in> set ns. rn_ID x \<noteq> [] \<and> rn_ReservedSlots x = runner_slots (rn_ID x) as" using assms(1) by (auto simp: runners_counted_def list_all_iff)
  moreover have "rn_ID y \<noteq> [] \<and> rn_ReservedSlots y = runner_slots (rn_ID y) as'" if y: "y \<in> set (tmodify rn_ID n ?f ns)" for y
  proof -
    obtain x where x: "x \<in> set ns" "y = (if rn_ID x = n then ?f x else x)" using y unfolding set_tmodify by blast
    then show ?thesis using calculation(2) assms(2) by (cases "rn_ID x = n") auto
  qed
  moreover have "rn_ID ` set (tmodify rn_ID n ?f ns) = rn_ID ` set ns" using arg_cong [OF ids, of set] by simp
  ultimately show ?thesis using assms(1,3,4) by (simp add: runners_counted_def list_all_iff)
qed

lemma slots_tmodify:
  assumes "distinct (map alloc_key as)" "tfind alloc_key k as = Some a" "al_TenantID (f a) = al_TenantID a" "al_RunnerID (f a) = al_RunnerID a"
  shows "tenant_slots u (tmodify alloc_key k f as) = tenant_slots u as
       + (if u = al_TenantID a then of_bool (unreleased (f a)) - of_bool (unreleased a) else 0)"
    and "runner_slots u (tmodify alloc_key k f as) = runner_slots u as
       + (if u = al_RunnerID a then of_bool (unreleased (f a)) - of_bool (unreleased a) else 0)"
  using tcount_tmodify [OF assms(1,2), of "\<lambda>a. unreleased a \<and> al_TenantID a = u" f]
    tcount_tmodify [OF assms(1,2), of "\<lambda>a. unreleased a \<and> al_RunnerID a = u" f] assms(3,4)
  by (auto simp: tenant_slots_def runner_slots_def split: if_splits)

lemma alloc_ids_tmodify:
  assumes "\<And>a. al_TenantID (f a) = al_TenantID a \<and> al_RunnerID (f a) = al_RunnerID a"
  shows "al_TenantID ` set (tmodify alloc_key k f as) = al_TenantID ` set as" "al_RunnerID ` set (tmodify alloc_key k f as) = al_RunnerID ` set as"
proof -
  have "map al_TenantID (tmodify alloc_key k f as) = map al_TenantID as" "map al_RunnerID (tmodify alloc_key k f as) = map al_RunnerID as"
    using assms by (auto intro: map_tmodify)
  then show "al_TenantID ` set (tmodify alloc_key k f as) = al_TenantID ` set as" "al_RunnerID ` set (tmodify alloc_key k f as) = al_RunnerID ` set as"
    by (metis list.set_map)+
qed

lemma slots_ok_ids: "slots_ok db \<Longrightarrow> al_TenantID ` set (db_Allocs db) \<subseteq> tn_TenantID ` set (db_Tenants db) \<and> al_RunnerID ` set (db_Allocs db) \<subseteq> rn_ID ` set (db_Runners db)"
  by (simp add: slots_ok_iff tenants_counted_def runners_counted_def)

lemma slots_tinsert:
  "tenant_slots u (tinsert a as) = tenant_slots u as + (if u = al_TenantID a then of_bool (unreleased a) else 0)"
  "runner_slots u (tinsert a as) = runner_slots u as + (if u = al_RunnerID a then of_bool (unreleased a) else 0)"
  by (auto simp: tenant_slots_def runner_slots_def)

lemma allocs_tmodify:
  assumes "allocs_bound as rs" "\<And>a. alloc_key (f a) = alloc_key a \<and> al_RunnerID (f a) = al_RunnerID a \<and> al_Slots (f a) = al_Slots a"
  shows "allocs_bound (tmodify alloc_key k f as) rs"
proof -
  have "map alloc_key (tmodify alloc_key k f as) = map alloc_key as" using assms(2) by (intro tmodify_keys) blast
  moreover have "\<forall>a \<in> set (tmodify alloc_key k f as). al_Slots a = 1 \<and> al_RunnerID a \<noteq> [] \<and> (alloc_key a, al_RunnerID a) \<in> set rs"
    by (rule all_tmodify) (use assms in \<open>auto simp: allocs_bound_def list_all_iff\<close>)
  ultimately show ?thesis using assms(1) unfolding allocs_bound_def list_all_iff by simp
qed

lemma release_slots_ok:
  assumes ok: "slots_ok db" and r: "releaseAllocation t i db = Inr db'"
  shows "slots_ok db'"
proof -
  consider "db' = db" | a where "tfind alloc_key (t, i) (db_Allocs db) = Some a" "al_State a \<noteq> AllocReleased"
    using r by (auto simp: releaseAllocation_def split: option.splits if_splits)
  then show ?thesis
  proof cases
    case 1
    then show ?thesis using ok by simp
  next
    case 2
    let ?f = "\<lambda>a. a\<lparr>al_State := AllocReleased\<rparr>"
    let ?as = "tmodify alloc_key (t, i) ?f (db_Allocs db)"
    have b: "allocs_bound (db_Allocs db) (map (\<lambda>r. (run_id r, rr_RunnerID r)) (db_Runs db))" using ok by (simp add: slots_ok_iff)
    have a: "al_Slots a = 1" "al_TenantID a = t" "distinct (map alloc_key (db_Allocs db))" "unreleased a"
      using b tfind_mem [OF 2(1)] tfind_key [OF 2(1)] 2(2) by (auto simp: allocs_bound_def list_all_iff unreleased_def)
    obtain d1 where d1: "add_slots (al_RunnerID a) (-1) (db\<lparr>db_Allocs := ?as\<rparr>) = Inr d1" "add_active t (- 1) d1 = Inr db'"
      using r 2 a(1) by (auto simp: releaseAllocation_def res_bind_Inr_iff)
    note e1 = add_Inr(2) [OF d1(1)] and e2 = add_Inr(1) [OF d1(2)]
    note sl = slots_tmodify [OF a(3) 2(1), of ?f, simplified]
    have ids: "al_TenantID ` set ?as \<subseteq> tn_TenantID ` set (db_Tenants db)" "al_RunnerID ` set ?as \<subseteq> rn_ID ` set (db_Runners db)"
      using alloc_ids_tmodify [of ?f "(t, i)" "db_Allocs db"] slots_ok_ids [OF ok] by simp_all
    have s1: "tenant_slots u ?as = tenant_slots u (db_Allocs db) + (if u = t then - 1 else 0)" for u using sl(1) a by (simp add: unreleased_def)
    have s2: "runner_slots u ?as = runner_slots u (db_Allocs db) + (if u = al_RunnerID a then - 1 else 0)" for u using sl(2) a by (simp add: unreleased_def)
    have "tenants_counted (db_Tenants db') ?as" using tenants_shift [OF _ s1 _ ids(1)] e1 e2 ok by (auto simp: slots_ok_iff)
    moreover have "runners_counted (db_Runners db') ?as" using runners_shift [OF _ s2 _ ids(2)] e1 e2 ok by (auto simp: slots_ok_iff)
    moreover have "allocs_bound ?as (map (\<lambda>r. (run_id r, rr_RunnerID r)) (db_Runs db))" by (rule allocs_tmodify [OF b]) simp
    ultimately show ?thesis using e1 e2 by (simp add: slots_ok_iff)
  qed
qed

subsection \<open>Reserving a slot\<close>

lemma slots_ok_alloc:
  assumes ok: "slots_ok db" and a: "tfind alloc_key (t, i) (db_Allocs db) = Some a" and r: "find_run db t i = Some r"
  shows "al_TenantID a = t" "al_RunID a = i" "al_RunnerID a \<noteq> []" "rr_RunnerID r = al_RunnerID a"
proof -
  show k: "al_TenantID a = t" "al_RunID a = i" using tfind_key [OF a] by auto
  have "al_RunnerID a \<noteq> [] \<and> (alloc_key a, al_RunnerID a) \<in> (\<lambda>r. (run_id r, rr_RunnerID r)) ` set (db_Runs db)"
    using ok tfind_mem [OF a] by (auto simp: slots_ok_iff allocs_bound_def list_all_iff)
  then show "al_RunnerID a \<noteq> []" "rr_RunnerID r = al_RunnerID a" using find_run_unique [OF slots_ok_keys [OF ok] r] k by auto
qed

lemma allocs_assign:
  assumes "allocs_bound as (map (\<lambda>r. (run_id r, rr_RunnerID r)) rs)" "\<And>a. a \<in> set as \<Longrightarrow> alloc_key a = k \<Longrightarrow> al_RunnerID a = n"
  shows "allocs_bound as (map (\<lambda>r. (run_id r, rr_RunnerID r)) (tmodify run_id k (assign_runner n) rs))"
proof -
  have "map run_id (tmodify run_id k (assign_runner n) rs) = map run_id rs" by (rule tmodify_keys) simp
  moreover have "(alloc_key a, al_RunnerID a) \<in> (\<lambda>r. (run_id r, rr_RunnerID r)) ` set (tmodify run_id k (assign_runner n) rs)"
    if a: "a \<in> set as" for a
  proof -
    have "(alloc_key a, al_RunnerID a) \<in> (\<lambda>r. (run_id r, rr_RunnerID r)) ` set rs"
      using assms(1) a by (auto simp: allocs_bound_def list_all_iff)
    then obtain r where r: "r \<in> set rs" "run_id r = alloc_key a" "rr_RunnerID r = al_RunnerID a" by auto
    let ?x = "if run_id r = k then assign_runner n r else r"
    have "?x \<in> set (tmodify run_id k (assign_runner n) rs)" using r(1) unfolding set_tmodify by blast
    moreover have "(alloc_key a, al_RunnerID a) = (run_id ?x, rr_RunnerID ?x)"
      using r assms(2) [OF a] by (cases "run_id r = k") simp_all
    ultimately show ?thesis by (rule rev_image_eqI)
  qed
  ultimately show ?thesis using assms(1) by (simp add: allocs_bound_def list_all_iff comp_def)
qed

lemma reserve_slots_ok:
  assumes ok: "slots_ok db" and pk: "picked db r n" and re: "reserve_slot (rr_TenantID r) (rr_ID r) n epoch db = Inr d"
  shows "slots_ok (upd_run (rr_TenantID r) (rr_ID r) (assign_runner n) d)"
proof -
  let ?t = "rr_TenantID r" and ?i = "rr_ID r" and ?f = "\<lambda>a. a\<lparr>al_Epoch := epoch, al_State := AllocReserved\<rparr>"
  let ?rs = "map (\<lambda>r. (run_id r, rr_RunnerID r)) (db_Runs db)"
  let ?new = "\<lparr>al_TenantID = ?t, al_RunID = ?i, al_RunnerID = n, al_Epoch = epoch, al_State = AllocReserved, al_Slots = 1\<rparr>"
  obtain d1 where d1: "(allocated db ?t ?i = None \<and> (\<exists>d0. add_active ?t 1 db = Inr d0 \<and> add_slots n 1 d0 = Inr d1)) \<or> (allocated db ?t ?i \<noteq> None \<and> d1 = db)"
    and d: "d = (case tfind alloc_key (?t, ?i) (db_Allocs d1) of None \<Rightarrow> d1\<lparr>db_Allocs := tinsert ?new (db_Allocs d1)\<rparr>
      | Some _ \<Rightarrow> d1\<lparr>db_Allocs := tmodify alloc_key (?t, ?i) ?f (db_Allocs d1)\<rparr>)"
    using re by (rule reserve_stages)
  have frame: "db_Allocs d1 = db_Allocs db" "db_Runs d1 = db_Runs db" using d1 by (auto dest!: add_Inr)
  have bound: "allocs_bound (db_Allocs db) ?rs" using ok by (simp add: slots_ok_iff)
  have n: "n \<noteq> []" using pk ok by (auto simp: picked_def slots_ok_iff runners_counted_def list_all_iff)
  have found: "find_run db ?t ?i = Some r" using pk by (simp add: picked_def)
  have keys: "distinct (map alloc_key (db_Allocs db))" using bound by (simp add: allocs_bound_def)
  have mine: "al_RunnerID a = n" if "tfind alloc_key (?t, ?i) (db_Allocs db) = Some a" for a
    using slots_ok_alloc [OF ok that found] pk that by (auto simp: picked_def allocated_def split: if_splits)
  have counted: "tenants_counted (db_Tenants d1) as \<and> runners_counted (db_Runners d1) as"
    if "\<And>u. tenant_slots u as = tenant_slots u (db_Allocs db) + (if u = ?t then of_bool (allocated db ?t ?i = None) else 0)"
      "\<And>u. runner_slots u as = runner_slots u (db_Allocs db) + (if u = n then of_bool (allocated db ?t ?i = None) else 0)"
      "al_TenantID ` set as \<subseteq> tn_TenantID ` set (db_Tenants db)" "al_RunnerID ` set as \<subseteq> rn_ID ` set (db_Runners db)" for as
    using d1
  proof
    assume "allocated db ?t ?i = None \<and> (\<exists>d0. add_active ?t 1 db = Inr d0 \<and> add_slots n 1 d0 = Inr d1)"
    then obtain d0 where a: "allocated db ?t ?i = None" and "add_active ?t 1 db = Inr d0" "add_slots n 1 d0 = Inr d1" by blast
    note e = add_Inr(1) [OF this(2)] add_Inr(2) [OF this(3)]
    have t1: "tenant_slots u as = tenant_slots u (db_Allocs db) + (if u = ?t then 1 else 0)" for u using that(1) a by simp
    have n1: "runner_slots u as = runner_slots u (db_Allocs db) + (if u = n then 1 else 0)" for u using that(2) a by simp
    have "tenants_counted (db_Tenants d1) as" using tenants_shift [OF _ t1 _ that(3)] e ok by (auto simp: slots_ok_iff)
    moreover have "runners_counted (db_Runners d1) as" using runners_shift [OF _ n1 _ that(4)] e ok by (auto simp: slots_ok_iff)
    ultimately show ?thesis ..
  next
    assume "allocated db ?t ?i \<noteq> None \<and> d1 = db"
    then show ?thesis using that ok by (simp add: slots_ok_iff tenants_counted_def runners_counted_def list_all_iff)
  qed
  show ?thesis
  proof (cases "tfind alloc_key (?t, ?i) (db_Allocs db)")
    case None
    have "allocs_bound (tinsert ?new (db_Allocs db)) (map (\<lambda>r. (run_id r, rr_RunnerID r)) (tmodify run_id (?t, ?i) (assign_runner n) (db_Runs db)))"
    proof -
      have free: "(?t, ?i) \<notin> alloc_key ` set (db_Allocs db)" using None by (simp add: tfind_None)
      have old: "allocs_bound (db_Allocs db) (map (\<lambda>r. (run_id r, rr_RunnerID r)) (tmodify run_id (?t, ?i) (assign_runner n) (db_Runs db)))"
        by (rule allocs_assign [OF bound]) (use free in force)
      have "assign_runner n r \<in> set (tmodify run_id (?t, ?i) (assign_runner n) (db_Runs db))"
        using find_run_key [OF found] unfolding set_tmodify by (intro bexI [of _ r]) simp_all
      then have "((?t, ?i), n) \<in> (\<lambda>r. (run_id r, rr_RunnerID r)) ` set (tmodify run_id (?t, ?i) (assign_runner n) (db_Runs db))"
        by (rule rev_image_eqI) simp
      then show ?thesis using old free n by (simp add: allocs_bound_def tinsert_def)
    qed
    moreover have "allocated db ?t ?i = None" using None by (simp add: allocated_def)
    moreover have "al_TenantID ` set (tinsert ?new (db_Allocs db)) \<subseteq> tn_TenantID ` set (db_Tenants db)"
        "al_RunnerID ` set (tinsert ?new (db_Allocs db)) \<subseteq> rn_ID ` set (db_Runners db)"
      using slots_ok_ids [OF ok] pk by (simp_all add: picked_def)
    ultimately show ?thesis using counted [of "tinsert ?new (db_Allocs db)"] None d frame
      by (simp add: slots_ok_iff slots_tinsert unreleased_def upd_run_def)
  next
    case (Some a)
    let ?as = "tmodify alloc_key (?t, ?i) ?f (db_Allocs db)"
    have "allocs_bound ?as (map (\<lambda>r. (run_id r, rr_RunnerID r)) (tmodify run_id (?t, ?i) (assign_runner n) (db_Runs db)))"
    proof (rule allocs_assign)
      show "allocs_bound ?as ?rs" by (rule allocs_tmodify [OF bound]) simp
      have upd: "distinct (map alloc_key ?as)" "tfind alloc_key (?t, ?i) ?as = Some (?f a)"
        using keys Some tmodify_keys [of alloc_key ?f "(?t, ?i)" "db_Allocs db"] tfind_tmodify [of alloc_key ?f "(?t, ?i)" "(?t, ?i)" "db_Allocs db"] by simp_all
      show "al_RunnerID x = n" if "x \<in> set ?as" "alloc_key x = (?t, ?i)" for x
        using tfind_distinct [OF upd(1) that(1)] upd(2) that(2) mine [OF Some] by auto
    qed
    moreover have "of_bool (allocated db ?t ?i = None) = (1 :: int) - of_bool (unreleased a)" using Some by (simp add: allocated_def)
    moreover have "al_TenantID ` set ?as \<subseteq> tn_TenantID ` set (db_Tenants db)" "al_RunnerID ` set ?as \<subseteq> rn_ID ` set (db_Runners db)"
      using alloc_ids_tmodify [of ?f "(?t, ?i)" "db_Allocs db"] slots_ok_ids [OF ok] by simp_all
    ultimately show ?thesis
      using counted [of ?as] slots_tmodify [OF keys Some, of ?f] slots_ok_alloc(1) [OF ok Some found] mine [OF Some] Some d frame
      by (simp add: slots_ok_iff unreleased_def upd_run_def)
  qed
qed

lemma same_slots_ok: "slots_ok db \<Longrightarrow> slot_view db' = slot_view db \<Longrightarrow> slots_ok db'"
  by (simp add: slots_ok_def)

lemma slot_view_upd: "(\<And>r. run_id (f r) = run_id r \<and> rr_RunnerID (f r) = rr_RunnerID r) \<Longrightarrow> slot_view (upd_run t i f db) = slot_view db"
  by (simp add: slot_view_def map_upd_run)

lemma slot_view_quiet: "quiet db db' \<Longrightarrow> slot_view db' = slot_view db"
  unfolding slot_view_def quiet_def by (auto intro: hard_map)

lemma append_slots_ok: "slots_ok db \<Longrightarrow> appendEvent t i kind body db = Inr db' \<Longrightarrow> slots_ok db'"
  by (erule same_slots_ok, erule appendEvent_Inr) (simp add: slot_view_def map_upd_run)

lemma insert_slots_ok: "slots_ok db \<Longrightarrow> insert_run (new_row q i input now) db = Inr db' \<Longrightarrow> slots_ok db'"
proof -
  let ?r = "new_row q i input now"
  assume ok: "slots_ok db" and "insert_run ?r db = Inr db'"
  then obtain d1 where none: "find_run db (rr_TenantID ?r) (rr_ID ?r) = None"
    and w: "writeSnapshot (rr_Snapshot ?r) None (db\<lparr>db_Runs := tinsert ?r (db_Runs db)\<rparr>) = Inr d1"
    and e: "appendEvent (rr_TenantID ?r) (rr_ID ?r) ''run.created'' (PayState (rr_Snapshot ?r)) d1 = Inr db'"
    by (elim insert_run_Inr)
  have "run_id ?r \<notin> run_id ` set (db_Runs db)" using none by (simp add: find_run_def tfind_None)
  then have "slots_ok (db\<lparr>db_Runs := tinsert ?r (db_Runs db)\<rparr>)"
    using ok by (auto simp: slots_ok_iff allocs_bound_def tinsert_def list_all_iff image_image comp_def)
  then have "slots_ok d1" using same_slots_ok writeSnapshot_Inr(2) [OF w] by (simp add: slot_view_def)
  then show ?thesis using append_slots_ok e by blast
qed

lemma tenant_slots_ok: "slots_ok db \<Longrightarrow> slots_ok (fst (BootstrapTenant t p role db))"
proof -
  assume ok: "slots_ok db"
  let ?t = "\<lparr>tn_TenantID = t, tn_MaxActive = 2, tn_ActiveCount = 0, tn_LastDispatched = None\<rparr>"
  have new: "slots_ok (db\<lparr>db_Tenants := tinsert ?t (db_Tenants db), db_Members := m\<rparr>)" if none: "tfind tn_TenantID t (db_Tenants db) = None" for m
  proof -
    have free: "t \<notin> tn_TenantID ` set (db_Tenants db)" using none by (simp add: tfind_None)
    then have "t \<notin> al_TenantID ` set (db_Allocs db)" using slots_ok_ids [OF ok] by blast
    then have "tenant_slots t (db_Allocs db) = 0" by (force simp: tenant_slots_def tcount_eq_0)
    then show ?thesis using ok free by (auto simp: slots_ok_iff tenants_counted_def tinsert_def tenant_checks_def)
  qed
  have "slots_ok (db\<lparr>db_Members := m\<rparr>)" for m using ok by (rule same_slots_ok) (simp add: slot_view_def)
  then show ?thesis using ok new by (simp add: BootstrapTenant_def Let_def)
qed

lemma runner_slots_ok: "slots_ok db \<Longrightarrow> slots_ok (fst (RegisterRunner n ep slots db))"
proof -
  assume ok: "slots_ok db"
  let ?n = "\<lparr>rn_ID = n, rn_Endpoint = ep, rn_MaxSlots = slots, rn_ReservedSlots = 0, rn_Enabled = True\<rparr>"
  let ?f = "\<lambda>x. x\<lparr>rn_Endpoint := ep, rn_MaxSlots := slots\<rparr>"
  have new: "slots_ok (db\<lparr>db_Runners := tinsert ?n (db_Runners db)\<rparr>)"
    if none: "tfind rn_ID n (db_Runners db) = None" and n: "n \<noteq> []" and c: "runner_checks ?n"
  proof -
    have free: "n \<notin> rn_ID ` set (db_Runners db)" using none by (simp add: tfind_None)
    then have "n \<notin> al_RunnerID ` set (db_Allocs db)" using slots_ok_ids [OF ok] by blast
    then have "runner_slots n (db_Allocs db) = 0" by (force simp: runner_slots_def tcount_eq_0)
    then show ?thesis using ok free n c by (auto simp: slots_ok_iff runners_counted_def tinsert_def)
  qed
  have old: "slots_ok (db\<lparr>db_Runners := tmodify rn_ID n ?f (db_Runners db)\<rparr>)" if c: "list_all runner_checks (tmodify rn_ID n ?f (db_Runners db))"
  proof -
    have "map rn_ID (tmodify rn_ID n ?f (db_Runners db)) = map rn_ID (db_Runners db)" by (rule tmodify_keys) simp
    moreover from this have "rn_ID ` set (tmodify rn_ID n ?f (db_Runners db)) = rn_ID ` set (db_Runners db)" by (metis list.set_map)
    moreover have "\<forall>x \<in> set (tmodify rn_ID n ?f (db_Runners db)). rn_ID x \<noteq> [] \<and> rn_ReservedSlots x = runner_slots (rn_ID x) (db_Allocs db)"
      by (rule all_tmodify) (use ok in \<open>auto simp: slots_ok_iff runners_counted_def list_all_iff\<close>)
    ultimately show ?thesis using ok c by (simp add: slots_ok_iff runners_counted_def list_all_iff)
  qed
  show ?thesis using ok new old by (auto simp: RegisterRunner_def Let_def tinsert_def)
qed

interpretation run_slots: store_invariant sha slots_ok for sha
proof
  show "slots_ok empty_store" by (simp add: slots_ok_iff empty_store_def tenants_counted_def runners_counted_def allocs_bound_def)
  show "distinct (map run_id (db_Runs db))" if "slots_ok db" for db using that by (rule slots_ok_keys)
  show "slots_ok db'" if "slots_ok db" "quiet db db'" for db db' using that same_slots_ok slot_view_quiet by blast
  show "slots_ok db'" if "slots_ok db" "appendEvent t i kind body db = Inr db'" for db db' t i kind body using that by (rule append_slots_ok)
  show "slots_ok db'" if "slots_ok db" "releaseAllocation t i db = Inr db'" for db db' t i using that by (rule release_slots_ok)
  show "slots_ok (upd_run t i (\<lambda>x. x\<lparr>rr_LeaseUntil := Some u\<rparr>) db)" if "slots_ok db" for db t i u
    using that by (rule same_slots_ok) (simp add: slot_view_upd)
  show "slots_ok db'" if "slots_ok db" "insert_run (new_row q i input now) db = Inr db'" for db db' q i input now using that by (rule insert_slots_ok)
  show "slots_ok (fst (BootstrapTenant t p role db))" if "slots_ok db" for db t p role using that by (rule tenant_slots_ok)
  show "slots_ok (fst (RegisterRunner n ep slots db))" if "slots_ok db" for db n ep slots using that by (rule runner_slots_ok)
  show "slots_ok (trim_run keep r db)" if "slots_ok db" for db r keep
    using that by (rule same_slots_ok) (simp add: trim_run_def Let_def slot_view_def map_upd_run)
  show "slots_ok (holdSnapshot r now db)" if "slots_ok db" for db r now
    using that by (rule same_slots_ok) (simp add: slot_view_def holdSnapshot_def set_dispatched_def map_upd_run map_tmodify hard_tenant_def)
  show "slots_ok (upd_run (rr_TenantID r) (rr_ID r) (assign_runner n) d1)"
    if "slots_ok db" "picked db r n" "reserve_slot (rr_TenantID r) (rr_ID r) n epoch db = Inr d1" for db r n epoch d1
    using that by (rule reserve_slots_ok)
  show "slots_ok d4" if "slots_ok db" "update_run (run_State r) s cs e clk db = Inr d1" "quiet d1 d2" "release_idle s d2 = Inr d3"
      "writeSnapshot s (Some (run_State r, e)) d3 = Inr d4" for db r s cs e clk d1 d2 d3 d4
  proof -
    have "slot_view d1 = slot_view db" using that(2) by (rule update_Inr) (simp add: slot_view_upd)
    then have "slots_ok d2" using same_slots_ok [OF that(1), of d2] slot_view_quiet [OF that(3)] by simp
    then have "slots_ok d3" using release_idle_cases [OF that(4)] release_slots_ok by blast
    then show ?thesis using same_slots_ok writeSnapshot_Inr(2) [OF that(5)] by (simp add: slot_view_def)
  qed
qed

end
