(* ===== verification/Run_Replay.thy ===== *)
theory Run_Replay
  imports Run_Frames
begin

section \<open>Stored runs are runs of the reducer\<close>

text \<open>
  The store keeps the state of a run in its row, apart from the end of its lease, which heartbeats and
  deferrals move without a transition. A stored run is an execution of the reducer in which the end of the
  lease may change between two events. What the reducer guarantees of runs and does not depend on
  that time holds of stored runs.
\<close>

definition renewed :: "gotime \<Rightarrow> state \<Rightarrow> state" where
  "renewed u s = s\<lparr>st_Lease := (st_Lease s)\<lparr>ls_Until := u\<rparr>\<rparr>"

inductive stored_run :: "(bytes \<Rightarrow> string) \<Rightarrow> string \<Rightarrow> string \<Rightarrow> limits \<Rightarrow> (event, command list) history \<Rightarrow> state \<Rightarrow> bool"
  for sha :: "bytes \<Rightarrow> string" and tenant rid :: string and lim :: limits where
  stored_new: "stored_run sha tenant rid lim [] (NewState tenant rid lim)"
| stored_step: "stored_run sha tenant rid lim tr s \<Longrightarrow> accepted sha s e cs s' \<Longrightarrow> stored_run sha tenant rid lim (tr @ [(e, cs)]) s'"
| stored_lease: "stored_run sha tenant rid lim tr s \<Longrightarrow> stored_run sha tenant rid lim tr (renewed u s)"

locale renewable_invariant = reducer_invariant sha "\<lambda>_ _. True" I "NewState tenant rid lim"
  for sha :: "bytes \<Rightarrow> string" and I :: "(event, command list) history \<Rightarrow> state \<Rightarrow> bool" and tenant rid :: string and lim :: limits +
  assumes lease_blind: "I tr s \<Longrightarrow> I tr (renewed u s)"
begin

lemma stored_holds: "stored_run sha tenant rid lim tr s \<Longrightarrow> I tr s"
proof (induction rule: stored_run.induct)
  case stored_new
  show ?case by (rule initially)
next
  case (stored_step tr s e cs s')
  then show ?case using kept [OF TrueI] by blast
next
  case (stored_lease tr s u)
  then show ?case using lease_blind by blast
qed

end

lemma renewed_sel [simp]:
  "st_PendingEffect (renewed u s) = st_PendingEffect s" "st_Status (renewed u s) = st_Status s" "st_Limits (renewed u s) = st_Limits s"
  "st_ToolCalls (renewed u s) = st_ToolCalls s" "st_ModelRounds (renewed u s) = st_ModelRounds s" "st_StepSeq (renewed u s) = st_StepSeq s"
  "st_Cost (renewed u s) = st_Cost s" "st_Version (renewed u s) = st_Version s" "st_TenantID (renewed u s) = st_TenantID s"
  "st_RunID (renewed u s) = st_RunID s" "st_SchemaVersion (renewed u s) = st_SchemaVersion s" "ls_Epoch (st_Lease (renewed u s)) = ls_Epoch (st_Lease s)"
  "ls_Owner (st_Lease (renewed u s)) = ls_Owner (st_Lease s)" "outstanding (renewed u s) = outstanding s"
  "st_Approval (renewed u s) = st_Approval s" "st_Verification (renewed u s) = st_Verification s"
  "st_VerificationRevision (renewed u s) = st_VerificationRevision s" "st_WorkspaceRevision (renewed u s) = st_WorkspaceRevision s"
  "granted_for (renewed u s) = granted_for s" "grant_open (renewed u s) = grant_open s" "evidence_for (renewed u s) = evidence_for s"
  by (simp_all add: renewed_def outstanding_def granted_for_def grant_open_def evidence_for_def fun_eq_iff split: option.split)

interpretation stored_ledger: renewable_invariant sha ledger_inv tenant rid lim for sha tenant rid lim
  by (intro renewable_invariant.intro ledger.reducer_invariant_axioms renewable_invariant_axioms.intro) (simp add: ledger_inv_def)

interpretation stored_epoch: renewable_invariant sha epoch_inv tenant rid lim for sha tenant rid lim
  by (intro renewable_invariant.intro epoch.reducer_invariant_axioms renewable_invariant_axioms.intro) (simp add: epoch_inv_def)

interpretation stored_budget: renewable_invariant sha budget_inv tenant rid lim for sha tenant rid lim
  by (intro renewable_invariant.intro budget.reducer_invariant_axioms renewable_invariant_axioms.intro) (simp add: budget_inv_def)

interpretation stored_approval: renewable_invariant sha approval_inv tenant rid lim for sha tenant rid lim
  by (intro renewable_invariant.intro approval.reducer_invariant_axioms renewable_invariant_axioms.intro) (simp add: approval_inv_def)

interpretation stored_evidence: renewable_invariant sha evidence_inv tenant rid lim for sha tenant rid lim
  by (intro renewable_invariant.intro evidence.reducer_invariant_axioms renewable_invariant_axioms.intro) (simp add: evidence_inv_def)

interpretation stored_publish: renewable_invariant sha publish_inv tenant rid lim for sha tenant rid lim
  by (intro renewable_invariant.intro publish.reducer_invariant_axioms renewable_invariant_axioms.intro) (simp add: publish_inv_def)

subsection \<open>The chain of snapshots\<close>

text \<open>
  The snapshot rows of a run, newest first: the first was the new state, and each later one replays from its
  recorded input, which is the snapshot before it with the lease as it was at that moment.
\<close>

definition follows :: "(bytes \<Rightarrow> string) \<Rightarrow> snapshot_row \<Rightarrow> snapshot_row \<Rightarrow> bool" where
  "follows sha y x \<longleftrightarrow> (\<exists>u e cs. sn_Input x = Some (renewed u (sn_Body y), e) \<and> accepted sha (renewed u (sn_Body y)) e cs (sn_Body x))
     \<and> st_Version (sn_Body x) = st_Version (sn_Body y) + 1 \<and> st_Version (sn_Body y) \<noteq> max_uint64"

fun snapshot_chain :: "(bytes \<Rightarrow> string) \<Rightarrow> string \<Rightarrow> string \<Rightarrow> snapshot_row list \<Rightarrow> bool" where
  "snapshot_chain sha t i [] = False"
| "snapshot_chain sha t i [x] = (sn_Input x = None \<and> (\<exists>lim. sn_Body x = NewState t i lim))"
| "snapshot_chain sha t i (x # y # xs) = (follows sha y x \<and> snapshot_chain sha t i (y # xs))"

lemma accepted_frame:
  assumes "accepted sha s e cs s'"
  shows "st_TenantID s' = st_TenantID s" "st_RunID s' = st_RunID s" "st_SchemaVersion s' = st_SchemaVersion s" "st_Limits s' = st_Limits s"
    and "st_Version s' \<noteq> st_Version s \<Longrightarrow> st_Version s' = st_Version s + 1 \<and> st_Version s \<noteq> max_uint64"
proof -
  show "st_TenantID s' = st_TenantID s" "st_RunID s' = st_RunID s" "st_SchemaVersion s' = st_SchemaVersion s" "st_Limits s' = st_Limits s"
    using assms by (auto elim!: acceptedE dest!: rule_frame simp: bumped_def)
  show "st_Version s' = st_Version s + 1 \<and> st_Version s \<noteq> max_uint64" if "st_Version s' \<noteq> st_Version s"
  proof -
    from assms show ?thesis
    proof (cases rule: acceptedE)
      case (step n)
      then show ?thesis using rule_frame [OF step(3)] by (auto simp: bumped_def admission_def split: if_splits)
    qed (use that in simp)
  qed
qed

lemma chain_stored:
  "snapshot_chain sha t i (x # xs) \<Longrightarrow> \<exists>lim tr. stored_run sha t i lim tr (sn_Body x) \<and> length tr = length xs
     \<and> st_TenantID (sn_Body x) = t \<and> st_RunID (sn_Body x) = i \<and> st_SchemaVersion (sn_Body x) = SnapshotSchemaVersion
     \<and> unat (st_Version (sn_Body x)) = Suc (length xs)"
proof (induction xs arbitrary: x)
  case Nil
  then show ?case using stored_new by (force simp: NewState_def)
next
  case (Cons y xs)
  then have "snapshot_chain sha t i (y # xs)" by simp
  from Cons.IH [OF this] obtain lim tr where y: "stored_run sha t i lim tr (sn_Body y)" "length tr = length xs" "st_TenantID (sn_Body y) = t" "st_RunID (sn_Body y) = i"
    "st_SchemaVersion (sn_Body y) = SnapshotSchemaVersion" "unat (st_Version (sn_Body y)) = Suc (length xs)" by blast
  from Cons.prems obtain u e cs where e: "accepted sha (renewed u (sn_Body y)) e cs (sn_Body x)"
    and v: "st_Version (sn_Body x) = st_Version (sn_Body y) + 1" "st_Version (sn_Body y) \<noteq> max_uint64" by (auto simp: follows_def)
  have "stored_run sha t i lim (tr @ [(e, cs)]) (sn_Body x)" using stored_step [OF stored_lease [OF y(1)] e] .
  moreover have "unat (st_Version (sn_Body x)) = Suc (length (y # xs))" using y(6) v unat_Suc_word by simp
  ultimately show ?case using y accepted_frame(1-3) [OF e] by (intro exI [of _ lim] exI [of _ "tr @ [(e, cs)]"]) simp
qed

subsection \<open>The invariant\<close>

definition snapshots_of :: "run_id \<Rightarrow> run_db \<Rightarrow> snapshot_row list" where
  "snapshots_of k db = filter (\<lambda>x. snapshot_run x = k) (db_Snapshots db)"

definition row_synced :: "persisted_run \<Rightarrow> bool" where
  "row_synced r \<longleftrightarrow> rr_Hold r = None \<and> rr_State r = st_Status (rr_Snapshot r) \<and> rr_Version r = st_Version (rr_Snapshot r)
     \<and> rr_LeaseOwner r = ls_Owner (st_Lease (rr_Snapshot r)) \<and> rr_LeaseEpoch r = ls_Epoch (st_Lease (rr_Snapshot r))"

definition chained :: "(bytes \<Rightarrow> string) \<Rightarrow> run_id \<Rightarrow> snapshot_row list \<Rightarrow> state \<Rightarrow> bool" where
  "chained sha k xs s \<longleftrightarrow> snapshot_chain sha (fst k) (snd k) xs \<and> sn_Body (hd xs) = s"

definition row_current :: "(bytes \<Rightarrow> string) \<Rightarrow> run_db \<Rightarrow> persisted_run \<Rightarrow> bool" where
  "row_current sha db r \<longleftrightarrow> row_synced r \<and> chained sha (run_id r) (snapshots_of (run_id r) db) (rr_Snapshot r)"

lemma chainedE:
  assumes "chained sha k xs s"
  obtains x ys where "xs = x # ys" "sn_Body x = s" "snapshot_chain sha (fst k) (snd k) (x # ys)"
  using assms by (cases xs) (auto simp: chained_def)

definition snapshot_keyed :: "snapshot_row \<Rightarrow> bool" where
  "snapshot_keyed x \<longleftrightarrow> sn_Version x = st_Version (sn_Body x) \<and> snapshot_run x = (st_TenantID (sn_Body x), st_RunID (sn_Body x))"

definition replay_ok :: "(bytes \<Rightarrow> string) \<Rightarrow> run_db \<Rightarrow> bool" where
  "replay_ok sha db \<longleftrightarrow> distinct (map run_id (db_Runs db)) \<and> snapshot_run ` set (db_Snapshots db) \<subseteq> run_id ` set (db_Runs db)
     \<and> (\<forall>r \<in> set (db_Runs db). row_current sha db r)
     \<and> list_all snapshot_keyed (db_Snapshots db)"

lemma run_State_renewed: "row_current sha db r \<Longrightarrow> run_State r = renewed (ls_Until (row_lease r)) (rr_Snapshot r)"
  by (simp add: row_current_def row_synced_def run_State_def renewed_def row_lease_def)

lemma row_supported: "row_current sha db r \<Longrightarrow> supportedSnapshot r"
proof -
  assume r: "row_current sha db r"
  then obtain x xs where x: "sn_Body x = rr_Snapshot r" "snapshot_chain sha (rr_TenantID r) (rr_ID r) (x # xs)"
    unfolding row_current_def by (auto elim: chainedE)
  have "st_SchemaVersion (rr_Snapshot r) = SnapshotSchemaVersion" using chain_stored [OF x(2)] x(1) by auto
  then show ?thesis using r by (simp add: row_current_def row_synced_def supportedSnapshot_def supported_header_def)
qed

definition replay_row :: "persisted_run \<Rightarrow> run_id \<times> snapshot_hold option \<times> run_status \<times> u64 \<times> state \<times> string \<times> u64" where
  "replay_row r = (run_id r, rr_Hold r, rr_State r, rr_Version r, rr_Snapshot r, rr_LeaseOwner r, rr_LeaseEpoch r)"

lemma row_current_cong:
  "row_current sha db r \<Longrightarrow> replay_row r' = replay_row r \<Longrightarrow> snapshots_of (run_id r) db' = snapshots_of (run_id r) db \<Longrightarrow> row_current sha db' r'"
proof -
  assume c: "row_current sha db r" and b: "replay_row r' = replay_row r" and d: "snapshots_of (run_id r) db' = snapshots_of (run_id r) db"
  have f: "rr_TenantID r' = rr_TenantID r" "rr_ID r' = rr_ID r" "rr_Hold r' = rr_Hold r" "rr_State r' = rr_State r" "rr_Version r' = rr_Version r"
      "rr_Snapshot r' = rr_Snapshot r" "rr_LeaseOwner r' = rr_LeaseOwner r" "rr_LeaseEpoch r' = rr_LeaseEpoch r"
    using b by (simp_all add: replay_row_def)
  show ?thesis using c unfolding row_current_def row_synced_def f d .
qed

lemma same_replay_ok:
  assumes ok: "replay_ok sha db" and r: "map replay_row (db_Runs db') = map replay_row (db_Runs db)" and s: "db_Snapshots db' = db_Snapshots db"
  shows "replay_ok sha db'"
proof -
  have "map (fst \<circ> replay_row) (db_Runs db') = map (fst \<circ> replay_row) (db_Runs db)" using arg_cong [OF r, of "map fst"] by simp
  then have keys: "map run_id (db_Runs db') = map run_id (db_Runs db)" by (simp add: replay_row_def comp_def)
  have ids: "run_id ` set (db_Runs db') = run_id ` set (db_Runs db)" using arg_cong [OF keys, of set] by simp
  have "row_current sha db' r'" if "r' \<in> set (db_Runs db')" for r'
  proof -
    have "replay_row r' \<in> replay_row ` set (db_Runs db)" using imageI [OF that, of replay_row] arg_cong [OF r, of set] by simp
    then obtain r0 where "r0 \<in> set (db_Runs db)" "replay_row r' = replay_row r0" by blast
    then show ?thesis using ok row_current_cong [of sha db r0 r' db'] s by (simp add: replay_ok_def snapshots_of_def)
  qed
  then show ?thesis using ok keys ids s by (simp add: replay_ok_def)
qed

lemma replay_ok_keys: "replay_ok sha db \<Longrightarrow> distinct (map run_id (db_Runs db))"
  by (simp add: replay_ok_def)

lemma replay_ok_row: "replay_ok sha db \<Longrightarrow> find_run db t i = Some r \<Longrightarrow> row_current sha db r"
  using find_run_key by (fastforce simp: replay_ok_def)

lemma write_state_run_State [simp]: "run_State (write_state s cs clk r) = s"
  by (simp add: run_State_def row_lease_def write_state_def)

text \<open>A transition is written to the row and to the chain.\<close>

lemma write_replay_ok:
  assumes ok: "replay_ok sha db" and r: "find_run db t i = Some r" and acc: "accepted sha (run_State r) e cs s"
    and v: "st_Version (run_State r) \<noteq> st_Version s" and u: "update_run (run_State r) s cs e clk db = Inr d1"
    and d2: "map replay_row (db_Runs d4) = map replay_row (db_Runs d1)"
    and d4: "db_Snapshots d4 = tinsert \<lparr>sn_TenantID = st_TenantID s, sn_RunID = st_RunID s, sn_Version = st_Version s,
                 sn_StepSeq = st_StepSeq s, sn_Body = s, sn_Input = Some (run_State r, e)\<rparr> (db_Snapshots db)"
  shows "replay_ok sha d4"
proof -
  let ?x = "\<lparr>sn_TenantID = st_TenantID s, sn_RunID = st_RunID s, sn_Version = st_Version s, sn_StepSeq = st_StepSeq s, sn_Body = s,
               sn_Input = Some (run_State r, e)\<rparr>"
  let ?rows = "tmodify run_id (t, i) (write_state s cs clk) (db_Runs db)" and ?d = "d1\<lparr>db_Snapshots := tinsert ?x (db_Snapshots db)\<rparr>"
  note cur = replay_ok_row [OF ok r] and key = find_run_key [OF r]
  obtain y ys where y: "snapshots_of (run_id r) db = y # ys" "sn_Body y = rr_Snapshot r" "snapshot_chain sha (rr_TenantID r) (rr_ID r) (y # ys)"
    using cur unfolding row_current_def by (auto elim: chainedE)
  have st: "run_State r = renewed (ls_Until (row_lease r)) (sn_Body y)" using run_State_renewed [OF cur] y(2) by simp
  have ids: "st_TenantID s = t" "st_RunID s = i" using accepted_frame(1,2) [OF acc] chain_stored [OF y(3)] key st by auto
  have rows: "db_Runs d1 = ?rows" using u ids by (auto elim!: update_Inr simp: upd_run_def)
  have keys: "map run_id ?rows = map run_id (db_Runs db)" by (rule tmodify_keys) simp
  have "follows sha y ?x" using acc accepted_frame(5) [OF acc] v st by (auto simp: follows_def)
  then have "chained sha (run_id r) (?x # y # ys) s" using y(3) by (simp add: chained_def)
  moreover have "snapshots_of (run_id r) ?d = ?x # y # ys" using y(1) key ids by (simp add: snapshots_of_def tinsert_def)
  moreover have "row_synced (write_state s cs clk r)" using cur by (simp add: row_current_def row_synced_def write_state_def)
  ultimately have "row_current sha ?d (write_state s cs clk r)" by (simp add: row_current_def) (simp add: write_state_def)
  moreover have "row_current sha ?d z" if "z \<in> set (db_Runs db)" "run_id z \<noteq> (t, i)" for z
  proof (rule row_current_cong)
    show "row_current sha db z" using ok that(1) by (simp add: replay_ok_def)
    show "snapshots_of (run_id z) ?d = snapshots_of (run_id z) db" using that(2) ids by (auto simp: snapshots_of_def tinsert_def)
  qed simp
  ultimately have "row_current sha ?d z" if "z \<in> set ?rows" for z using upd_run_row [OF replay_ok_keys [OF ok] r that] by auto
  moreover have "snapshot_run ` set (db_Snapshots ?d) \<subseteq> run_id ` set ?rows"
  proof -
    have "run_id ` set ?rows = run_id ` set (db_Runs db)" by (rule tmodify_run_keys) simp
    moreover have "(t, i) \<in> run_id ` set (db_Runs db)" using key by (intro rev_image_eqI [of r]) simp_all
    moreover have "snapshot_run ` set (db_Snapshots ?d) = insert (t, i) (snapshot_run ` set (db_Snapshots db))" using ids by simp
    ultimately show ?thesis using ok by (simp add: replay_ok_def)
  qed
  moreover have "snapshot_keyed ?x" by (simp add: snapshot_keyed_def)
  ultimately have "replay_ok sha ?d" using ok keys rows by (simp add: replay_ok_def tinsert_def)
  then show ?thesis by (rule same_replay_ok) (use d2 d4 in simp_all)
qed

lemma replay_row_hard: "replay_row (hard_run r) = replay_row r"
  by (simp add: replay_row_def)

lemma replay_quiet: "quiet db db' \<Longrightarrow> map replay_row (db_Runs db') = map replay_row (db_Runs db)"
  unfolding quiet_def by (auto intro: hard_map replay_row_hard)

lemma append_replay_ok: "replay_ok sha db \<Longrightarrow> appendEvent t i kind body db = Inr db' \<Longrightarrow> replay_ok sha db'"
proof -
  assume ok: "replay_ok sha db" and "appendEvent t i kind body db = Inr db'"
  then obtain es where "db' = (upd_run t i (\<lambda>r. r\<lparr>rr_NextEventSeq := rr_NextEventSeq r + 1\<rparr>) db)\<lparr>db_Events := es\<rparr>" by (auto elim!: appendEvent_Inr)
  then show ?thesis by (intro same_replay_ok [OF ok]) (simp_all add: map_upd_run replay_row_def)
qed

lemma insert_replay_ok:
  assumes ok: "replay_ok sha db" and a: "insert_run (new_row q i input now) db = Inr db'"
  shows "replay_ok sha db'"
proof -
  let ?r = "new_row q i input now"
  obtain d1 where none: "find_run db (rr_TenantID ?r) (rr_ID ?r) = None"
    and w: "writeSnapshot (rr_Snapshot ?r) None (db\<lparr>db_Runs := tinsert ?r (db_Runs db)\<rparr>) = Inr d1"
    and e: "appendEvent (rr_TenantID ?r) (rr_ID ?r) ''run.created'' (PayState (rr_Snapshot ?r)) d1 = Inr db'"
    using a by (rule insert_run_Inr)
  obtain lim where new: "rr_Snapshot ?r = NewState (rr_TenantID ?r) (rr_ID ?r) lim" by (simp add: new_row_def Let_def)
  have fresh: "run_id ?r \<notin> run_id ` set (db_Runs db)" using none by (simp add: find_run_def tfind_None)
  then have fresh': "run_id ?r \<notin> snapshot_run ` set (db_Snapshots db)" using ok by (auto simp: replay_ok_def)
  have cols: "rr_Hold ?r = None" "rr_State ?r = st_Status (rr_Snapshot ?r)" "rr_Version ?r = st_Version (rr_Snapshot ?r)" "rr_LeaseOwner ?r = []" "rr_LeaseEpoch ?r = 0"
    by (simp_all add: new_row_def Let_def)
  have ids: "st_TenantID (rr_Snapshot ?r) = rr_TenantID ?r" "st_RunID (rr_Snapshot ?r) = rr_ID ?r" "st_Lease (rr_Snapshot ?r) = zero_lease"
    using new by (simp_all add: NewState_def)
  have empty: "filter (\<lambda>x. snapshot_run x = run_id ?r) (db_Snapshots db) = []" using fresh' by (force simp: filter_empty_conv)
  let ?x = "\<lparr>sn_TenantID = rr_TenantID ?r, sn_RunID = rr_ID ?r, sn_Version = st_Version (rr_Snapshot ?r),
                 sn_StepSeq = st_StepSeq (rr_Snapshot ?r), sn_Body = rr_Snapshot ?r, sn_Input = None\<rparr>"
  have d1: "db_Runs d1 = ?r # db_Runs db" "db_Snapshots d1 = ?x # db_Snapshots db"
    using writeSnapshot_Inr(2) [OF w] ids by (simp_all add: tinsert_def)
  have "snapshots_of (run_id ?r) d1 = [?x]" using empty d1 by (simp add: snapshots_of_def)
  moreover have "row_synced ?r" using cols ids by (simp add: row_synced_def zero_lease_def)
  ultimately have "row_current sha d1 ?r" using new by (auto simp: row_current_def chained_def)
  moreover have "row_current sha d1 z" if "z \<in> set (db_Runs db)" for z
  proof (rule row_current_cong)
    show "row_current sha db z" using ok that by (simp add: replay_ok_def)
    have "run_id z \<in> run_id ` set (db_Runs db)" using that by (rule imageI)
    then have "run_id z \<noteq> run_id ?r" using fresh by metis
    then show "snapshots_of (run_id z) d1 = snapshots_of (run_id z) db" using d1 by (auto simp: snapshots_of_def)
  qed simp
  ultimately have rows: "\<forall>z \<in> set (db_Runs d1). row_current sha d1 z" using d1 by simp
  moreover have "snapshot_keyed ?x" using ids by (simp add: snapshot_keyed_def)
  ultimately have "replay_ok sha d1" unfolding replay_ok_def using ok fresh d1 by (auto simp: replay_ok_def)
  then show ?thesis using append_replay_ok e by blast
qed

interpretation run_replay: store_invariant sha "replay_ok sha" for sha
proof
  show "replay_ok sha empty_store" by (simp add: replay_ok_def empty_store_def)
  show "distinct (map run_id (db_Runs db))" if "replay_ok sha db" for db using that by (rule replay_ok_keys)
  show "replay_ok sha db'" if "replay_ok sha db" "quiet db db'" for db db'
    by (rule same_replay_ok [OF that(1) replay_quiet [OF that(2)]]) (use that(2) in \<open>simp add: quiet_def\<close>)
  show "replay_ok sha db'" if "replay_ok sha db" "appendEvent t i kind body db = Inr db'" for db db' t i kind body using that by (rule append_replay_ok)
  show "replay_ok sha db'" if "replay_ok sha db" "releaseAllocation t i db = Inr db'" for db db' t i
    using release_frame [OF that(2)] by (intro same_replay_ok [OF that(1)]) simp_all
  show "replay_ok sha (upd_run t i (\<lambda>x. x\<lparr>rr_LeaseUntil := Some u\<rparr>) db)" if "replay_ok sha db" for db t i u
    by (rule same_replay_ok [OF that]) (simp_all add: map_upd_run replay_row_def)
  show "replay_ok sha db'" if "replay_ok sha db" "insert_run (new_row q i input now) db = Inr db'" for db db' q i input now
    using that by (rule insert_replay_ok)
  show "replay_ok sha (fst (BootstrapTenant t p role db))" if "replay_ok sha db" for db t p role
    by (rule same_replay_ok [OF that]) (simp_all add: operator_frame)
  show "replay_ok sha (fst (RegisterRunner n ep slots db))" if "replay_ok sha db" for db n ep slots
    by (rule same_replay_ok [OF that]) (simp_all add: operator_frame)
  show "replay_ok sha (trim_run keep r db)" if "replay_ok sha db" for db r keep
    by (rule same_replay_ok [OF that]) (simp_all add: trim_run_def Let_def map_upd_run replay_row_def)
  show "replay_ok sha (holdSnapshot r now db)"
    if "replay_ok sha db" "find_run db (rr_TenantID r) (rr_ID r) = Some r" "\<not> supportedSnapshot r" for db r now
    using row_supported [OF replay_ok_row [OF that(1,2)]] that(3) by blast
  show "replay_ok sha (upd_run (rr_TenantID r) (rr_ID r) (assign_runner n) d1)"
    if "replay_ok sha db" "reserve_slot (rr_TenantID r) (rr_ID r) n epoch db = Inr d1" for db r n epoch d1
    using reserve_frame [OF that(2)] by (intro same_replay_ok [OF that(1)]) (simp_all add: map_upd_run replay_row_def assign_runner_def)
  show "replay_ok sha d4" if "replay_ok sha db" "find_run db t i = Some r" "accepted sha (run_State r) e cs s" "st_Version (run_State r) \<noteq> st_Version s"
      "update_run (run_State r) s cs e clk db = Inr d1" "quiet d1 d2" "release_idle s d2 = Inr d3"
      "writeSnapshot s (Some (run_State r, e)) d3 = Inr d4" for db t i r s cs e clk d1 d2 d3 d4
  proof (rule write_replay_ok [OF that(1-5)])
    show "map replay_row (db_Runs d4) = map replay_row (db_Runs d1)"
      using replay_quiet [OF that(6)] release_idle_frame(1) [OF that(7)] writeSnapshot_Inr(2) [OF that(8)] by simp
    have "db_Snapshots d1 = db_Snapshots db" using that(5) by (rule update_Inr) simp
    then show "db_Snapshots d4 = tinsert \<lparr>sn_TenantID = st_TenantID s, sn_RunID = st_RunID s, sn_Version = st_Version s, sn_StepSeq = st_StepSeq s,
        sn_Body = s, sn_Input = Some (run_State r, e)\<rparr> (db_Snapshots db)"
      using that(6) release_idle_frame(3) [OF that(7)] writeSnapshot_Inr(2) [OF that(8)] by (simp add: quiet_def)
  qed
qed

end
