(* ===== verification/Run_Growth.thy ===== *)
theory Run_Growth
  imports Run_Replay
begin

section \<open>What the store keeps\<close>

text \<open>
  Runs are never removed: the columns a submission wrote do not change, epochs, versions and the event
  counter do not decrease, and a terminal run stays as it ended. An idempotency key keeps its row.
\<close>

definition run_columns :: "persisted_run \<Rightarrow> run_id \<times> string \<times> string \<times> string \<times> string \<times> string \<times> accepted_input \<times> int \<times> run_config \<times> gotime" where
  "run_columns r = (run_id r, rr_ProjectID r, rr_PrincipalID r, rr_ParentRunID r, rr_Task r, rr_BaseCommit r, rr_Input r, rr_Priority r,
     rr_Config r, rr_CreatedAt r)"

definition run_grows :: "persisted_run \<Rightarrow> persisted_run \<Rightarrow> bool" where
  "run_grows r r' \<longleftrightarrow> run_columns r' = run_columns r \<and> rr_LeaseEpoch r \<le> rr_LeaseEpoch r' \<and> rr_Version r \<le> rr_Version r'
     \<and> rr_NextEventSeq r \<le> rr_NextEventSeq r' \<and> rr_RetainedFrom r \<le> rr_RetainedFrom r'
     \<and> (RunStatus_Terminal (rr_State r) \<longrightarrow> rr_State r' = rr_State r \<and> rr_Snapshot r' = rr_Snapshot r)"

lemma run_grows_refl [simp]: "run_grows r r"
  by (simp add: run_grows_def)

lemma run_grows_trans: "run_grows a b \<Longrightarrow> run_grows b c \<Longrightarrow> run_grows a c"
  by (auto simp: run_grows_def)

definition kept_since :: "(bytes \<Rightarrow> string) \<Rightarrow> run_db \<Rightarrow> run_db \<Rightarrow> bool" where
  "kept_since sha db0 db \<longleftrightarrow> replay_ok sha db \<and> idem_kept (db_Idem db0) (db_Idem db)
     \<and> (\<forall>t i r. find_run db0 t i = Some r \<longrightarrow> (\<exists>r'. find_run db t i = Some r' \<and> run_grows r r'))"

text \<open>A statement keeps what was kept when it keeps each run it finds.\<close>

lemma kept_step:
  assumes k: "kept_since sha db0 db" and "replay_ok sha db'" and i: "idem_kept (db_Idem db) (db_Idem db')"
    and g: "\<And>t i r. find_run db t i = Some r \<Longrightarrow> \<exists>r'. find_run db' t i = Some r' \<and> run_grows r r'"
  shows "kept_since sha db0 db'"
  unfolding kept_since_def
proof (intro conjI allI impI)
  show "idem_kept (db_Idem db0) (db_Idem db')" using k i idem_kept_trans unfolding kept_since_def by blast
  show "\<exists>r'. find_run db' t i = Some r' \<and> run_grows r r'" if "find_run db0 t i = Some r" for t i r
  proof -
    from k that obtain x where x: "find_run db t i = Some x" "run_grows r x" unfolding kept_since_def by blast
    from g [OF x(1)] show ?thesis using run_grows_trans [OF x(2)] by blast
  qed
qed (rule assms(2))

lemma upd_grows:
  assumes "\<And>r. run_id (f r) = run_id r" "\<And>r. find_run db t i = Some r \<Longrightarrow> run_grows r (f r)" "find_run db t' i' = Some r"
  shows "\<exists>r'. find_run (upd_run t i f db) t' i' = Some r' \<and> run_grows r r'"
  using assms(2,3) find_run_upd [of f t i db t' i'] assms(1) by (cases "(t', i') = (t, i)") auto

lemma hard_grows: "hard_run r' = hard_run r \<Longrightarrow> run_grows r r'"
proof -
  assume h: "hard_run r' = hard_run r"
  have "run_columns (hard_run x) = run_columns x" for x by (simp add: run_columns_def hard_run_def)
  then have "run_columns r' = run_columns r" using h by metis
  then show ?thesis using hard_run_eqD [OF h] by (simp add: run_grows_def)
qed

lemma find_run_frame: "db_Runs db' = db_Runs db \<Longrightarrow> find_run db' t i = find_run db t i"
  by (simp add: find_run_def)

lemma release_idem: "releaseAllocation t i db = Inr db' \<Longrightarrow> db_Idem db' = db_Idem db"
  by (auto simp: releaseAllocation_def res_bind_Inr_iff dest!: add_Inr split: option.splits if_splits)

lemma reserve_idem: "reserve_slot t i n epoch db = Inr db' \<Longrightarrow> db_Idem db' = db_Idem db"
  by (erule reserve_stages) (auto dest!: add_Inr split: option.splits)

lemma upd_run_idem [simp]: "db_Idem (upd_run t i f db) = db_Idem db"
  by (simp add: upd_run_def)

lemma append_idem: "appendEvent t i kind body db = Inr db' \<Longrightarrow> db_Idem db' = db_Idem db"
  by (erule appendEvent_Inr) simp

lemma append_grows:
  assumes "appendEvent t i kind body db = Inr db'" "find_run db t' i' = Some r"
  shows "\<exists>r'. find_run db' t' i' = Some r' \<and> run_grows r r'"
proof -
  obtain es where "db' = (upd_run t i (\<lambda>r. r\<lparr>rr_NextEventSeq := rr_NextEventSeq r + 1\<rparr>) db)\<lparr>db_Events := es\<rparr>"
    using assms(1) by (auto elim!: appendEvent_Inr)
  then have "find_run db' t' i' = find_run (upd_run t i (\<lambda>r. r\<lparr>rr_NextEventSeq := rr_NextEventSeq r + 1\<rparr>) db) t' i'" by (simp add: find_run_def)
  then show ?thesis using upd_grows [of "\<lambda>r. r\<lparr>rr_NextEventSeq := rr_NextEventSeq r + 1\<rparr>" db t i t' i' r] assms(2)
    by (simp add: run_grows_def run_columns_def)
qed

lemma replay_ok_ids: "replay_ok sha db \<Longrightarrow> find_run db t i = Some r \<Longrightarrow> st_TenantID (run_State r) = t \<and> st_RunID (run_State r) = i"
proof -
  assume ok: "replay_ok sha db" and r: "find_run db t i = Some r"
  note cur = replay_ok_row [OF ok r]
  then obtain x xs where x: "sn_Body x = rr_Snapshot r" "snapshot_chain sha (rr_TenantID r) (rr_ID r) (x # xs)"
    unfolding row_current_def by (auto elim: chainedE)
  show ?thesis using chain_stored [OF x(2)] x(1) find_run_key [OF r] run_State_renewed [OF cur] by auto
qed

text \<open>The columns of a row that \<open>write_state\<close> takes from the transition.\<close>

lemma write_grows:
  assumes cur: "row_current sha db r" and acc: "accepted sha (run_State r) e cs s" and v: "st_Version (run_State r) \<noteq> st_Version s"
  shows "run_grows r (write_state s cs clk r)"
proof -
  have st: "st_Version (run_State r) = rr_Version r" "st_Status (run_State r) = rr_State r" "ls_Epoch (st_Lease (run_State r)) = rr_LeaseEpoch r"
    using cur by (simp_all add: row_current_def row_synced_def run_State_def row_lease_def)
  from acc show ?thesis
  proof (cases rule: acceptedE)
    case (step n)
    have e: "ls_Epoch (st_Lease (run_State r)) \<le> ls_Epoch (st_Lease s)"
      using rule_epoch [OF step(3)] step(4) by (auto simp: bumped_def split: if_splits)
    have "rr_Version r \<le> st_Version s"
      using accepted_frame(5) [OF acc] v st(1) unat_Suc_word [of "rr_Version r"] by (simp add: word_le_nat_alt)
    moreover have "\<not> RunStatus_Terminal (rr_State r)" using admission_facts(2) [OF step(1)] st(2) by simp
    ultimately show ?thesis using e st(3) by (simp add: run_grows_def run_columns_def write_state_def)
  qed (use v in simp)
qed

text \<open>The write of a transition, a new run, and the statements that change one column.\<close>

lemma write_kept:
  assumes k: "kept_since sha db0 db" and r: "find_run db t i = Some r" and acc: "accepted sha (run_State r) e cs s"
    and v: "st_Version (run_State r) \<noteq> st_Version s" and u: "update_run (run_State r) s cs e clk db = Inr d1"
    and q: "quiet d1 d2" and l: "release_idle s d2 = Inr d3" and w: "writeSnapshot s (Some (run_State r, e)) d3 = Inr d4"
  shows "kept_since sha db0 d4"
proof (rule kept_step [OF k])
  have ok: "replay_ok sha db" using k by (simp add: kept_since_def)
  show "replay_ok sha d4" by (rule run_replay.law_write [OF ok r acc v u q l w])
  have d1: "d1 = upd_run t i (write_state s cs clk) db"
    using u accepted_frame(1,2) [OF acc] replay_ok_ids [OF ok r] by (auto elim!: update_Inr)
  have d3: "db_Idem d3 = db_Idem d2" using release_idle_cases [OF l] release_idem by auto
  have d4: "db_Idem d4 = db_Idem d3" "db_Runs d4 = db_Runs d2"
    using writeSnapshot_Inr(2) [OF w] release_idle_frame(1) [OF l] by simp_all
  show "idem_kept (db_Idem db) (db_Idem d4)" using q d1 d3 d4 by (simp add: quiet_def)
  show "\<exists>r'. find_run d4 t' i' = Some r' \<and> run_grows x r'" if x: "find_run db t' i' = Some x" for t' i' x
  proof -
    have "run_grows y (write_state s cs clk y)" if "find_run db t i = Some y" for y
      using write_grows [OF replay_ok_row [OF ok r] acc v] r that by simp
    then obtain y where y: "find_run d1 t' i' = Some y" "run_grows x y"
      using upd_grows [of "write_state s cs clk" db t i, OF _ _ x] d1 by auto
    obtain z where "find_run d2 t' i' = Some z" "hard_run z = hard_run y" using find_run_quiet [OF q y(1)] by blast
    then show ?thesis using run_grows_trans [OF y(2) hard_grows] find_run_frame [OF d4(2)] by auto
  qed
qed

lemma insert_kept:
  assumes k: "kept_since sha db0 db" and a: "insert_run (new_row q i input now) db = Inr db'"
  shows "kept_since sha db0 db'"
proof (rule kept_step [OF k])
  let ?r = "new_row q i input now"
  have ok: "replay_ok sha db" using k by (simp add: kept_since_def)
  show "replay_ok sha db'" by (rule run_replay.law_insert [OF ok a])
  obtain d1 where none: "find_run db (rr_TenantID ?r) (rr_ID ?r) = None"
    and w: "writeSnapshot (rr_Snapshot ?r) None (db\<lparr>db_Runs := tinsert ?r (db_Runs db)\<rparr>) = Inr d1"
    and e: "appendEvent (rr_TenantID ?r) (rr_ID ?r) ''run.created'' (PayState (rr_Snapshot ?r)) d1 = Inr db'"
    using a by (rule insert_run_Inr)
  show "idem_kept (db_Idem db) (db_Idem db')" using append_idem [OF e] writeSnapshot_Inr(2) [OF w] by simp
  show "\<exists>r'. find_run db' t' i' = Some r' \<and> run_grows x r'" if x: "find_run db t' i' = Some x" for t' i' x
  proof -
    have "db_Runs d1 = tinsert ?r (db_Runs db)" using writeSnapshot_Inr(2) [OF w] by simp
    then have "find_run d1 t' i' = Some x" using x none by (auto simp: find_run_def)
    then show ?thesis by (rule append_grows [OF e])
  qed
qed

lemma upd_kept:
  assumes k: "kept_since sha db0 db" and "replay_ok sha db'" and "db_Idem db' = db_Idem db" and "db_Runs db' = db_Runs (upd_run t i f db)"
    and f: "\<And>r. run_id (f r) = run_id r" "\<And>r. find_run db t i = Some r \<Longrightarrow> run_grows r (f r)"
  shows "kept_since sha db0 db'"
proof (rule kept_step [OF k assms(2)])
  show "idem_kept (db_Idem db) (db_Idem db')" using assms(3) by simp
  show "\<exists>r'. find_run db' t' i' = Some r' \<and> run_grows x r'" if x: "find_run db t' i' = Some x" for t' i' x
    using upd_grows [OF f x] find_run_frame [OF assms(4)] by simp
qed

lemma same_kept:
  "kept_since sha db0 db \<Longrightarrow> replay_ok sha db' \<Longrightarrow> db_Idem db' = db_Idem db \<Longrightarrow> db_Runs db' = db_Runs db \<Longrightarrow> kept_since sha db0 db'"
  by (erule (1) kept_step) (simp_all add: find_run_def)

interpretation kept: store_law sha "kept_since sha db0" for sha db0
proof
  note rep = kept_since_def [THEN iffD1, THEN conjunct1]
  fix db db' :: run_db assume k: "kept_since sha db0 db"
  note ok = rep [OF k]
  show "distinct (map run_id (db_Runs db))" using ok by (rule replay_ok_keys)
  show "kept_since sha db0 db'" if q: "quiet db db'"
  proof (rule kept_step [OF k run_replay.law_quiet [OF ok q]])
    show "idem_kept (db_Idem db) (db_Idem db')" using q by (simp add: quiet_def)
    show "\<exists>r'. find_run db' t' i' = Some r' \<and> run_grows x r'" if "find_run db t' i' = Some x" for t' i' x
      using find_run_quiet [OF q that] hard_grows by blast
  qed
  show "kept_since sha db0 db'" if a: "appendEvent t i kind body db = Inr db'" for t i kind body
    by (rule kept_step [OF k run_replay.law_append [OF ok a]]) (use append_idem [OF a] append_grows [OF a] in auto)
  show "kept_since sha db0 db'" if a: "releaseAllocation t i db = Inr db'" for t i
    by (rule same_kept [OF k run_replay.law_release [OF ok a] release_idem [OF a] release_frame(1) [OF a]])
  show "kept_since sha db0 (upd_run t i (\<lambda>x. x\<lparr>rr_LeaseUntil := Some u\<rparr>) db)" for t i u
    by (rule upd_kept [where t = t and i = i and f = "\<lambda>x. x\<lparr>rr_LeaseUntil := Some u\<rparr>", OF k run_replay.law_lease [OF ok]]) (simp_all add: run_grows_def run_columns_def)
  show "kept_since sha db0 db'" if "insert_run (new_row q i input now) db = Inr db'" for q i input now
    by (rule insert_kept [OF k that])
  show "kept_since sha db0 (fst (BootstrapTenant t p role db))" for t p role
    by (rule same_kept [OF k run_replay.law_tenant [OF ok]]) (simp_all add: operator_frame BootstrapTenant_def Let_def)
  show "kept_since sha db0 (fst (RegisterRunner n ep slots db))" for n ep slots
    by (rule same_kept [OF k run_replay.law_runner [OF ok]]) (simp_all add: operator_frame RegisterRunner_def Let_def)
  show "kept_since sha db0 (trim_run keep r db)" if "find_run db (rr_TenantID r) (rr_ID r) = Some x" "rr_NextEventSeq x = rr_NextEventSeq r"
      "rr_RetainedFrom x < trim_target keep r" "1 \<le> keep" for r x keep
    by (rule upd_kept [where t = "rr_TenantID r" and i = "rr_ID r" and f = "\<lambda>x. x\<lparr>rr_RetainedFrom := trim_target keep r\<rparr>", OF k run_replay.law_trim [OF ok that]])
      (use that in \<open>auto simp: trim_run_def Let_def run_grows_def run_columns_def\<close>)
  show "kept_since sha db0 (holdSnapshot r now db)" if "find_run db (rr_TenantID r) (rr_ID r) = Some r" "\<not> supportedSnapshot r" for r now
    using row_supported [OF replay_ok_row [OF ok that(1)]] that(2) by blast
  show "kept_since sha db0 (upd_run (rr_TenantID r) (rr_ID r) (assign_runner n) d1)"
    if "picked db r n" "reserve_slot (rr_TenantID r) (rr_ID r) n epoch db = Inr d1" for r n epoch d1
    by (rule upd_kept [where t = "rr_TenantID r" and i = "rr_ID r" and f = "assign_runner n", OF k run_replay.law_reserve [OF ok that]])
      (use reserve_idem [OF that(2)] reserve_runs [OF that(2)] in \<open>simp_all add: upd_run_def assign_runner_def run_grows_def run_columns_def\<close>)
  show "kept_since sha db0 d4" if "find_run db t i = Some r" "accepted sha (run_State r) e cs s" "st_Version (run_State r) \<noteq> st_Version s"
      "update_run (run_State r) s cs e clk db = Inr d1" "quiet d1 d2" "release_idle s d2 = Inr d3"
      "writeSnapshot s (Some (run_State r, e)) d3 = Inr d4" for t i r s cs e clk d1 d2 d3 d4
    by (rule write_kept [OF k that])
qed

text \<open>From any point of an execution on.\<close>

lemma kept_later:
  assumes "exec (store_step d) empty_store tr db0" "exec (store_step d) db0 tr' db"
  shows "kept_since (dg_Bytes d) db0 db"
proof -
  have "kept_since (dg_Bytes d) db0 db0" using run_replay.run_law [OF refl assms(1)] by (simp add: kept_since_def)
  then show ?thesis by (rule kept.later_law [OF refl assms(2)])
qed

end
