(* ===== verification/Run_Fencing.thy ===== *)
theory Run_Fencing
  imports Run_Growth
begin

section \<open>Leases fence the workers\<close>

text \<open>
  The transactions a worker calls under its lease, with the run, the owner and the epoch it presents and the
  clock value that the lease is compared with.
\<close>

fun worker_action :: "store_action \<Rightarrow> (run_id \<times> string \<times> u64 \<times> gotime) option" where
  "worker_action (AcHeartbeat t i owner epoch dur clk) = Some ((t, i), owner, epoch, clk)"
| "worker_action (AcAdvance t i e now clk) = Some ((t, i), ev_Owner e, ev_Epoch e, clk)"
| "worker_action (AcRequeue r now clk) = Some (run_id r, rr_LeaseOwner r, rr_LeaseEpoch r, clk)"
| "worker_action (AcDefer r nb kind clk) = Some (run_id r, rr_LeaseOwner r, rr_LeaseEpoch r, clk)"
| "worker_action (AcWorkerEvent r kind body clk) = Some (run_id r, rr_LeaseOwner r, rr_LeaseEpoch r, clk)"
| "worker_action (AcConsume t i owner epoch step clk) = Some ((t, i), owner, epoch, clk)"
| "worker_action (AcPlanEffect r e n now) = Some (run_id r, rr_LeaseOwner r, rr_LeaseEpoch r, now)"
| "worker_action (AcBeginAttempt r ref v tmo pr sz aid now) = Some (run_id r, rr_LeaseOwner r, rr_LeaseEpoch r, now)"
| "worker_action _ = None"

text \<open>The lease of a row covers a caller.\<close>

definition covered :: "run_db \<Rightarrow> run_id \<Rightarrow> string \<Rightarrow> u64 \<Rightarrow> gotime \<Rightarrow> bool" where
  "covered db k owner epoch at \<longleftrightarrow> (\<exists>r. find_run db (fst k) (snd k) = Some r \<and> rr_LeaseOwner r = owner \<and> rr_LeaseEpoch r = epoch
     \<and> at < ls_Until (row_lease r))"

lemma held_covered: "find_run db t i = Some r \<Longrightarrow> lease_held r owner epoch at \<Longrightarrow> covered db (t, i) owner epoch at"
  by (auto simp: covered_def lease_held_def row_lease_def split: option.splits)

lemma run_State_lease [simp]: "st_Lease (run_State r) = row_lease r" "ls_Owner (row_lease r) = rr_LeaseOwner r" "ls_Epoch (row_lease r) = rr_LeaseEpoch r"
  by (simp_all add: run_State_def row_lease_def)

lemma holds_covered: "getRun db t i = Inr c \<Longrightarrow> holds_run c r now \<Longrightarrow> covered db (t, i) (rr_LeaseOwner r) (rr_LeaseEpoch r) now"
  using getRun_find [of db t i c] Lease_ValidAtD(3) [of "row_lease c" now] by (auto simp: covered_def holds_run_def)

abbreviation refused :: "run_db \<Rightarrow> run_db \<times> store_outcome \<Rightarrow> bool" where
  "refused db x \<equiv> \<exists>er. x = (db, Refused er)"

lemma commit_or: "(\<And>x. m = Inr x \<Longrightarrow> C) \<Longrightarrow> refused db (outcome_of f (commit db m)) \<or> C"
  by (cases m) (auto simp: commit_def outcome_of_def)

text \<open>A transition that a worker asks for reaches the fenced UPDATE, since it changes the version.\<close>

lemma transit_covered:
  assumes "getRun db t i = Inr r" "transit sha r e kind clk db = Inr db'" "\<not> lease_free (ev_Kind e)" "replay_ok sha db"
  shows "covered db (t, i) (ev_Owner e) (ev_Epoch e) clk"
proof -
  from assms(2) obtain s cs where acc: "accepted sha (run_State r) e cs s" and p: "persistTransition (run_State r) s cs e kind clk db = Inr db'"
    by (auto simp: transit_def accepted_def split: prod.splits option.splits)
  have r: "find_run db t i = Some r" using getRun_find [OF assms(1)] by simp
  have "st_Version (run_State r) \<noteq> st_Version s"
    using acc
  proof (cases rule: acceptedE)
    case (step n)
    then show ?thesis using rule_frame [OF step(3)] by (simp add: bumped_def)
  qed (use assms(3) in \<open>simp add: lease_free_def in_kinds_def\<close>)
  then obtain d1 where u: "update_run (run_State r) s cs e clk (set_runnable s e db) = Inr d1" using persist_stages [OF p] by blast
  then obtain x where x: "find_run (set_runnable s e db) t i = Some x" "lease_held x (ev_Owner e) (ev_Epoch e) clk"
    using assms(3) accepted_frame(1,2) [OF acc] replay_ok_ids [OF assms(4) r] by (auto elim!: update_Inr)
  obtain y where y: "find_run (set_runnable s e db) t i = Some y" "hard_run y = hard_run r"
    using find_run_quiet [OF quiet_set_runnable r] by blast
  then have "lease_held r (ev_Owner e) (ev_Epoch e) clk" using x hard_run_eqD(7-9) [OF y(2)] by (simp add: lease_held_def)
  then show ?thesis by (rule held_covered [OF r])
qed

lemma apply_covered:
  assumes "replay_ok sha db" "\<not> lease_free (ev_Kind e)"
  shows "refused db (outcome_of f (store_apply sha fhash t i e now clk db)) \<or> covered db (t, i) (ev_Owner e) (ev_Epoch e) clk"
proof -
  have "covered db (t, i) (ev_Owner e) (ev_Epoch e) clk"
    if "getRun db t i = Inr r" "transit sha r (e\<lparr>ev_At := now\<rparr>) (eventType (ev_Kind e)) clk db = Inr x" for r x
    using transit_covered [OF that] assms by simp
  then show ?thesis unfolding store_apply_def by (intro commit_or) (auto simp: res_bind_Inr_iff Let_def)
qed

lemma requeue_covered:
  assumes "replay_ok sha db"
  shows "refused db (outcome_of f (RequeueCapacity sha r now clk db)) \<or> covered db (run_id r) (rr_LeaseOwner r) (rr_LeaseEpoch r) clk"
proof -
  let ?e = "\<lambda>c. (plain_event EventCapacityRejected (st_Version (run_State r)) now)\<lparr>ev_Owner := rr_LeaseOwner r, ev_Epoch := rr_LeaseEpoch r, ev_NotBefore := Some (now + 1000000000)\<rparr>"
  have "covered db (run_id r) (rr_LeaseOwner r) (rr_LeaseEpoch r) clk"
    if "getRun db (rr_TenantID r) (rr_ID r) = Inr c" "requeue sha c (?e c) nb clk db = Inr x" for c nb x
  proof -
    from that(2) obtain y where "transit sha c (?e c) ''run.capacity_rejected'' clk db = Inr y"
      by (auto simp: requeue_def transit_def res_bind_Inr_iff split: prod.splits option.splits if_splits)
    from transit_covered [OF that(1) this _ assms] show ?thesis by (simp add: plain_event_def lease_free_def in_kinds_def)
  qed
  then show ?thesis unfolding RequeueCapacity_def by (intro commit_or) (auto simp: res_bind_Inr_iff Let_def split: if_splits)
qed

lemma defer_covered: "refused db (outcome_of f (Defer r nb kind clk db)) \<or> covered db (run_id r) (rr_LeaseOwner r) (rr_LeaseEpoch r) clk"
  unfolding Defer_def by (intro commit_or) (auto simp: res_bind_Inr_iff Let_def split: option.splits if_splits intro: held_covered)

lemma worker_event_covered:
  "refused db (outcome_of f (AppendWorkerEvent r kind body clk db)) \<or> covered db (run_id r) (rr_LeaseOwner r) (rr_LeaseEpoch r) clk"
  unfolding AppendWorkerEvent_def by (intro commit_or) (auto simp: res_bind_Inr_iff Let_def split: option.splits if_splits intro: held_covered)

lemma consume_covered: "refused db (outcome_of f (ConsumeMessages t i owner epoch step clk db)) \<or> covered db (t, i) owner epoch clk"
  unfolding ConsumeMessages_def
  by (intro commit_or) (auto simp: res_bind_Inr_iff Let_def split: if_splits dest!: getRun_find intro: held_covered)

lemma plan_covered: "refused db (outcome_of f (PlanSystemEffect r e n now db)) \<or> covered db (run_id r) (rr_LeaseOwner r) (rr_LeaseEpoch r) now"
  unfolding PlanSystemEffect_def
  by (intro commit_or) (auto simp: res_bind_Inr_iff Let_def split: option.splits if_splits intro: holds_covered)

lemma begin_covered:
  "refused db (outcome_of f (BeginPricedAttempt r ref v tmo pr sz aid now db)) \<or> covered db (run_id r) (rr_LeaseOwner r) (rr_LeaseEpoch r) now"
  unfolding BeginPricedAttempt_def
  by (intro commit_or) (auto simp: res_bind_Inr_iff Let_def split: if_splits intro: holds_covered)

lemma heartbeat_covered: "refused db (outcome_of f (Heartbeat t i owner epoch dur clk db)) \<or> covered db (t, i) owner epoch clk"
  by (auto simp: Heartbeat_def outcome_of_def intro: held_covered split: option.splits)

lemma advance_covered:
  assumes "replay_ok sha db"
  shows "refused db (outcome_of f (Advance sha fhash t i e now clk db)) \<or> covered db (t, i) (ev_Owner e) (ev_Epoch e) clk"
proof (cases "in_kinds (ev_Kind e) [EventClaimed, EventApprovalDecided, EventCancelRequested, EventResumeRequested, EventCapacityRejected]")
  case False
  then have "\<not> lease_free (ev_Kind e)" by (auto simp: lease_free_def in_kinds_def)
  from apply_covered [OF assms this] show ?thesis using False by (simp only: Advance_def if_False)
qed (simp add: Advance_def outcome_of_def)

text \<open>Every transaction under a lease is refused and changes nothing, unless the row is leased to its caller.\<close>

lemma worker_covered:
  assumes "replay_ok (dg_Bytes d) db" and "worker_action a = Some (k, owner, epoch, at)"
  shows "refused db (store_do d a db) \<or> covered db k owner epoch at"
  using assms(2)
  by (elim worker_action.elims) (simp_all only: store_do.simps option.inject prod.inject option.distinct, elim conjE, hypsubst,
    (rule heartbeat_covered advance_covered [OF assms(1)] requeue_covered [OF assms(1)] defer_covered worker_event_covered
    consume_covered plan_covered begin_covered)+)

subsection \<open>A claim takes over\<close>

definition bound_row :: "persisted_run \<Rightarrow> state \<times> string" where
  "bound_row r = (run_State r, rr_RunnerID r)"

lemma append_bound:
  assumes "appendEvent t i kind body db = Inr db'" "find_run db t' i' = Some r"
  shows "\<exists>r'. find_run db' t' i' = Some r' \<and> bound_row r' = bound_row r"
proof -
  obtain es where d: "db' = (upd_run t i (\<lambda>r. r\<lparr>rr_NextEventSeq := rr_NextEventSeq r + 1\<rparr>) db)\<lparr>db_Events := es\<rparr>"
    using assms(1) by (auto elim!: appendEvent_Inr)
  show ?thesis using find_run_upd [of "\<lambda>r. r\<lparr>rr_NextEventSeq := rr_NextEventSeq r + 1\<rparr>" t i db t' i'] assms(2)
    by (auto simp: d find_run_def bound_row_def run_State_def row_lease_def)
qed

lemma announce_bound:
  assumes "announce_transition prev s e kind db = Inr db'" "find_run db t i = Some r"
  shows "\<exists>r'. find_run db' t i = Some r' \<and> bound_row r' = bound_row r"
proof -
  let ?b = "PayProgress (progressEvent s e)" and ?t = "st_TenantID s" and ?i = "st_RunID s"
  obtain d1 d2 where d1: "appendEvent ?t ?i kind ?b db = Inr d1"
      and d2: "(case st_Approval s of
           Some a \<Rightarrow> if st_Status s = StatusWaitingApproval \<and> st_Status prev \<noteq> StatusWaitingApproval
                     then appendEvent ?t ?i ''approval.required'' (PayApproval (approval_id a) a) d1 else Inr d1
         | None \<Rightarrow> Inr d1) = Inr d2"
      and d3: "(if RunStatus_Terminal (st_Status s) \<and> kind \<noteq> ''run.finished'' then appendEvent ?t ?i ''run.finished'' ?b d2 else Inr d2) = Inr db'"
    using assms(1) unfolding announce_transition_def Let_def by (elim res_bind_InrE) blast
  obtain r1 where r1: "find_run d1 t i = Some r1" "bound_row r1 = bound_row r" using append_bound [OF d1 assms(2)] by blast
  have "\<exists>r2. find_run d2 t i = Some r2 \<and> bound_row r2 = bound_row r1"
    using d2 append_bound [OF _ r1(1)] r1(1) by (auto split: option.splits if_splits)
  then obtain r2 where r2: "find_run d2 t i = Some r2" "bound_row r2 = bound_row r1" by blast
  show ?thesis using d3 append_bound [OF _ r2(1)] r2 r1(2) by (auto split: if_splits)
qed

lemma persist_bound:
  assumes "persistTransition (run_State r) s cs e kind clk db = Inr db'" "st_Version (run_State r) \<noteq> st_Version s"
    "find_run db (st_TenantID s) (st_RunID s) = Some r"
  shows "\<exists>r'. find_run db' (st_TenantID s) (st_RunID s) = Some r' \<and> bound_row r' = (s, rr_RunnerID r)"
proof -
  let ?t = "st_TenantID s" and ?i = "st_RunID s"
  obtain d1 d2 d3 d4 where u: "update_run (run_State r) s cs e clk (set_runnable s e db) = Inr d1" and q: "quiet d1 d2"
    and l: "release_idle s d2 = Inr d3" and w: "writeSnapshot s (Some (run_State r, e)) d3 = Inr d4"
    and a: "announce_transition (run_State r) s e kind d4 = Inr db'" using persist_stages [OF assms(1,2)] by blast
  obtain r0 where r0: "find_run (set_runnable s e db) ?t ?i = Some r0" "hard_run r0 = hard_run r"
    using find_run_quiet [OF quiet_set_runnable assms(3)] by blast
  have d1: "d1 = upd_run ?t ?i (write_state s cs clk) (set_runnable s e db)" using u by (auto elim!: update_Inr)
  have r1: "find_run d1 ?t ?i = Some (write_state s cs clk r0)" using find_run_upd [of "write_state s cs clk" ?t ?i "set_runnable s e db" ?t ?i] r0(1) d1 by simp
  obtain r2 where r2: "find_run d2 ?t ?i = Some r2" "hard_run r2 = hard_run (write_state s cs clk r0)" using find_run_quiet [OF q r1] by blast
  have "find_run d4 ?t ?i = Some r2" using r2(1) release_idle_frame(1) [OF l] writeSnapshot_Inr(2) [OF w] by (simp add: find_run_def)
  moreover have "bound_row r2 = (s, rr_RunnerID r)"
    using run_State_hard [OF r2(2)] hard_run_eqD(10) [OF r2(2)] hard_run_eqD(10) [OF r0(2)] by (simp add: bound_row_def)
  ultimately show ?thesis using announce_bound [OF a] by metis
qed

lemma claim_lease: "rule sha s e cs n \<Longrightarrow> ev_Kind e = EventClaimed \<Longrightarrow> ev_Lease e = Some (st_Lease n)"
  by (cases rule: rule.cases) (auto simp: outcome_defs claimable_def settles_def)

lemma claim_takes:
  assumes ok: "replay_ok sha db" and c: "claim_run sha lk owner dur pref now clk db = (db', Inr r')"
  shows "\<exists>r. find_run db (rr_TenantID r') (rr_ID r') = Some r \<and> find_run db' (rr_TenantID r') (rr_ID r') = Some r'
    \<and> (case rr_LeaseUntil r of None \<Rightarrow> True | Some u \<Rightarrow> u \<le> now) \<and> claimable_state (rr_State r)
    \<and> row_lease r' = \<lparr>ls_Owner = owner, ls_Epoch = rr_LeaseEpoch r + 1, ls_Until = now + dur\<rparr>
    \<and> rr_LeaseEpoch r < rr_LeaseEpoch r' \<and> rr_RunnerID r' \<in> rn_ID ` set (db_Runners db)"
proof -
  obtain t r n where t: "pick_tenant lk now pref db = Some t" and r: "pick_run lk now pref t db = Some r" and n: "pick_runner lk pref r db = Some n"
    and c': "commit db (claim_on sha r (rn_ID n) owner dur now clk db) = (db', Inr r')"
    using c by (auto simp: claim_run_def split: if_splits option.splits)
  note pk = pick_picked [OF replay_ok_keys [OF ok] t r]
  let ?t = "rr_TenantID r" and ?i = "rr_ID r" and ?e = "claim_event r owner dur now"
  obtain s cs d1 where acc: "accepted sha (run_State r) ?e cs s" and d1: "reserve_slot ?t ?i (rn_ID n) (rr_LeaseEpoch r + 1) db = Inr d1"
      and p: "persistTransition (run_State r) s cs ?e ''run.claimed'' clk (upd_run ?t ?i (assign_runner (rn_ID n)) (set_dispatched ?t now d1)) = Inr db'"
      and g: "getRun db' ?t ?i = Inr r'"
    using c' by (auto simp: claim_on_def commit_def Let_def reread_def accepted_def res_bind_Inr_iff split: prod.splits option.splits sum.splits)
  from acc obtain k where k: "rule sha (run_State r) ?e cs k" "s = bumped k"
    by (rule acceptedE) (simp_all add: claim_event_def plain_event_def Let_def)
  have ids: "st_TenantID s = ?t" "st_RunID s = ?i" using accepted_frame(1,2) [OF acc] replay_ok_ids [OF ok pk(1)] by simp_all
  let ?d = "upd_run ?t ?i (assign_runner (rn_ID n)) (set_dispatched ?t now d1)"
  have "find_run (set_dispatched ?t now d1) ?t ?i = Some r" using pk(1) reserve_runs [OF d1] by (simp add: set_dispatched_def find_run_def)
  then have "find_run ?d ?t ?i = Some (assign_runner (rn_ID n) r)"
    using find_run_upd [of "assign_runner (rn_ID n)" ?t ?i "set_dispatched ?t now d1" ?t ?i] by simp
  moreover have "st_Version (run_State r) \<noteq> st_Version s" using rule_frame [OF k(1)] k(2) by (simp add: bumped_def)
  ultimately obtain x where x: "find_run db' ?t ?i = Some x" "bound_row x = (s, rn_ID n)"
    using persist_bound [of "assign_runner (rn_ID n) r" s cs ?e "''run.claimed''" clk ?d db'] p ids by auto
  have x': "x = r'" using x(1) getRun_find [OF g] by simp
  have l: "st_Lease s = \<lparr>ls_Owner = owner, ls_Epoch = rr_LeaseEpoch r + 1, ls_Until = now + dur\<rparr>"
    using claim_lease [OF k(1)] k(2) by (simp add: claim_event_def plain_event_def Let_def bumped_def)
  have s: "run_State r' = s" "rr_RunnerID r' = rn_ID n" using x(2) x' by (simp_all add: bound_row_def)
  have "rr_LeaseEpoch r < ls_Epoch (st_Lease s)"
    using rule_epoch [OF k(1)] unfolding k(2) by (auto simp: claim_event_def plain_event_def Let_def bumped_def)
  then have "rr_LeaseEpoch r < rr_LeaseEpoch r'" using run_State_lease(1,3) [of r'] s(1) by simp
  moreover have "row_lease r' = st_Lease s" using run_State_lease(1) [of r'] s(1) by simp
  moreover have "rn_ID n \<in> rn_ID ` set (db_Runners db)" using pick_runner_picked [OF pk(1,2) n] by (simp add: picked_def)
  moreover have "rr_TenantID r' = ?t" "rr_ID r' = ?i" "find_run db' ?t ?i = Some r'" using x(1) x' find_run_key [OF x(1)] by simp_all
  ultimately show ?thesis using pk(1,3) l s(2) by (intro exI [of _ r]) (simp add: runnable_def)
qed

end
