(* ===== verification/Run_Demo.thy ===== *)
theory Run_Demo
  imports Run_Fencing Runtime_Demo
begin

section \<open>An evaluated execution of the run store\<close>

definition sample_digests :: digests where
  "sample_digests = \<lparr>dg_Bytes = (\<lambda>_. replicate 64 CHR ''0''), dg_Request = sq_Task, dg_Frame = (\<lambda>_. replicate 64 CHR ''0'')\<rparr>"

definition sample_request :: submit_request where
  "sample_request = \<lparr>sq_TenantID = ''acme'', sq_PrincipalID = ''dev'', sq_ProjectID = ''proj'', sq_ParentRunID = [], sq_Priority = 0,
     sq_Task = ''fix'', sq_BaseCommit = ''abc'', sq_Config = \<lparr>cf_Provider = ''p'', cf_Model = ''m'', cf_Fallback = None, cf_MaxModelRounds = 5,
       cf_MaxToolCalls = 5, cf_MaxCost = 0, cf_MaxRuntimeSeconds = 60, cf_MaxNoProgressBatches = 3\<rparr>\<rparr>"

definition no_locks :: locked_rows where
  "no_locks = \<lparr>lk_Tenant = (\<lambda>_. False), lk_Run = (\<lambda>_. False), lk_Runner = (\<lambda>_. False)\<rparr>"

definition sample_db1 :: run_db where
  "sample_db1 = empty_store\<lparr>db_Tenants := [\<lparr>tn_TenantID = ''acme'', tn_MaxActive = 2, tn_ActiveCount = 0, tn_LastDispatched = None\<rparr>],
     db_Members := [\<lparr>mb_TenantID = ''acme'', mb_PrincipalID = ''dev'', mb_Role = ''developer''\<rparr>]\<rparr>"

definition sample_db2 :: run_db where
  "sample_db2 = sample_db1\<lparr>db_Projects := [\<lparr>pj_TenantID = ''acme'', pj_ID = ''proj'', pj_Name = ''name'', pj_SourceID = ''src'', pj_ProfileID = ''prof''\<rparr>]\<rparr>"

definition sample_db3 :: run_db where
  "sample_db3 = sample_db2\<lparr>db_Runners := [\<lparr>rn_ID = ''runner'', rn_Endpoint = ''unix'', rn_MaxSlots = 4, rn_ReservedSlots = 0, rn_Enabled = True\<rparr>]\<rparr>"

definition sample_input :: accepted_input where
  "sample_input = \<lparr>ai_ProjectID = ''proj'', ai_Task = ''fix'', ai_BaseCommit = ''abc'', ai_SourceID = ''src'', ai_ProfileID = ''prof''\<rparr>"

definition sample_row :: persisted_run where
  "sample_row = (new_row sample_request ''run'' sample_input 1000)"

definition sample_db4 :: run_db where
  "sample_db4 = sample_db3\<lparr>db_Idem := [\<lparr>ik_TenantID = ''acme'', ik_PrincipalID = ''dev'', ik_Route = ''/v1/projects/proj/runs'', ik_Key = ''key'',
       ik_RequestHash = ''fix'', ik_ResourceID = ''run'', ik_Message = None\<rparr>],
     db_Runs := [sample_row\<lparr>rr_NextEventSeq := 2\<rparr>],
     db_Snapshots := [\<lparr>sn_TenantID = ''acme'', sn_RunID = ''run'', sn_Version = 1, sn_StepSeq = 0, sn_Body = rr_Snapshot sample_row, sn_Input = None\<rparr>],
     db_Events := [\<lparr>xe_TenantID = ''acme'', xe_RunID = ''run'', xe_Seq = 1, xe_Type = ''run.created'', xe_Payload = PayState (rr_Snapshot sample_row)\<rparr>]\<rparr>"

lemma sample_ids: "ID_Validate ''acme'' = None" "ID_Validate ''dev'' = None" "ID_Validate ''proj'' = None"
  by code_simp+

lemma sample_step1: "store_do sample_digests (AcBootstrap ''acme'' ''dev'' ''developer'') empty_store = (sample_db1, Done)"
  by (simp add: sample_db1_def empty_store_def BootstrapTenant_def Let_def outcome_of_def sample_ids tinsert_def)

lemma sample_step2: "store_do sample_digests (AcProject ''acme'' ''proj'' ''name'' ''src'' ''prof'') sample_db1 = (sample_db2, Done)"
  by (simp add: sample_db2_def sample_db1_def empty_store_def CreateProject_def Let_def outcome_of_def sample_ids tinsert_def)

lemma sample_step3: "store_do sample_digests (AcRunner ''runner'' ''unix'' 4) sample_db2 = (sample_db3, Done)"
  by (simp add: sample_db3_def sample_db2_def sample_db1_def empty_store_def RegisterRunner_def Let_def outcome_of_def tinsert_def runner_checks_def)

lemmas sample_dbs = sample_db3_def sample_db2_def sample_db1_def empty_store_def

lemma sample_insert: "insert_run sample_row (sample_db3\<lparr>db_Idem := db_Idem sample_db4\<rparr>) = Inr sample_db4"
  by (simp add: sample_db4_def sample_dbs sample_row_def insert_run_def writeSnapshot_def bigints_def require_def appendEvent_def new_row_def Let_def
      find_run_def tinsert_def upd_run_def tmodify_def NewState_def sample_request_def)

lemma sample_checks: "submit_checks sample_request ''key'' = Inr ()"
proof -
  have "\<not> blank ''fix''" by code_simp
  then show ?thesis by (simp add: submit_checks_def sample_request_def valid_or_def sample_ids Config_Validate_def)
qed

lemma sample_step4: "store_do sample_digests (AcSubmit sample_request ''key'' ''run'' 1000) sample_db3 = (sample_db4, GotRun (sample_row\<lparr>rr_NextEventSeq := 2\<rparr>))"
proof -
  have 1: "parent_input sample_request sample_db3 = Inr None" by (simp add: parent_input_def sample_request_def)
  have 2: "find_idem sample_db3 (sq_TenantID sample_request) (sq_PrincipalID sample_request) (submit_route sample_request) ''key'' = None"
    by (simp add: find_idem_def sample_dbs)
  have 3: "tfind tn_TenantID (sq_TenantID sample_request) (db_Tenants sample_db3) \<noteq> None" by (simp add: sample_dbs sample_request_def)
  have 4: "snapshotInput sample_request (sample_db3\<lparr>db_Idem := db_Idem sample_db4\<rparr>) = Inr sample_input"
    by (simp add: snapshotInput_def sample_dbs sample_request_def sample_input_def)
  have 5: "tinsert \<lparr>ik_TenantID = sq_TenantID sample_request, ik_PrincipalID = sq_PrincipalID sample_request, ik_Route = submit_route sample_request,
                 ik_Key = ''key'', ik_RequestHash = dg_Request sample_digests sample_request, ik_ResourceID = ''run'', ik_Message = None\<rparr> (db_Idem sample_db3)
      = db_Idem sample_db4"
    by (simp add: sample_db4_def sample_dbs sample_request_def submit_route_def sample_digests_def tinsert_def)
  have 6: "getRun sample_db4 (sq_TenantID sample_request) ''run'' = Inr (sample_row\<lparr>rr_NextEventSeq := 2\<rparr>)"
    by (simp add: getRun_def find_run_def sample_db4_def sample_row_def new_row_def Let_def sample_request_def supportedSnapshot_def supported_header_def NewState_def)
  show ?thesis using 3
    by (simp add: Submit_def sample_checks 1 2 5 Let_def 4 sample_insert [unfolded sample_row_def] 6 outcome_of_def commit_def)
qed

definition sample_claim :: event where
  "sample_claim = claim_event sample_row ''w1'' 30000000000 2000"

definition sample_claimed :: state where
  "sample_claimed = (rr_Snapshot sample_row)\<lparr>st_Version := 2, st_Status := StatusRunning,
     st_Lease := \<lparr>ls_Owner = ''w1'', ls_Epoch = 1, ls_Until = 30000002000\<rparr>\<rparr>"

lemmas sample_row_defs = sample_row_def new_row_def sample_request_def Let_def NewState_def zero_lease_def

lemma sample_accepted:
  "Transition (dg_Bytes sample_digests) (run_State sample_row) sample_claim = (sample_claimed, command_of CommandInitializeWorkspace, None)"
  by (simp add: sample_claimed_def sample_claim_def sample_row_defs claim_event_def plain_event_def run_State_def row_lease_def demo_eval)

definition sample_snapshot :: snapshot_row where
  "sample_snapshot = \<lparr>sn_TenantID = ''acme'', sn_RunID = ''run'', sn_Version = 2, sn_StepSeq = 0, sn_Body = sample_claimed,
     sn_Input = Some (run_State sample_row, sample_claim)\<rparr>"

definition sample_row5 :: persisted_run where
  "sample_row5 = (write_state sample_claimed (command_of CommandInitializeWorkspace) 2001 (assign_runner ''runner'' sample_row))\<lparr>rr_NextEventSeq := 3\<rparr>"

definition sample_db5 :: run_db where
  "sample_db5 = sample_db4\<lparr>
     db_Tenants := [\<lparr>tn_TenantID = ''acme'', tn_MaxActive = 2, tn_ActiveCount = 1, tn_LastDispatched = Some 2000\<rparr>],
     db_Runners := [\<lparr>rn_ID = ''runner'', rn_Endpoint = ''unix'', rn_MaxSlots = 4, rn_ReservedSlots = 1, rn_Enabled = True\<rparr>],
     db_Allocs := [\<lparr>al_TenantID = ''acme'', al_RunID = ''run'', al_RunnerID = ''runner'', al_Epoch = 1, al_State = AllocReserved, al_Slots = 1\<rparr>],
     db_Runs := [sample_row5], db_Snapshots := sample_snapshot # db_Snapshots sample_db4,
     db_Steps := [\<lparr>sp_TenantID = ''acme'', sp_RunID = ''run'', sp_Seq = 0, sp_Kind = StageInitialize, sp_OutputRef = []\<rparr>],
     db_Events := \<lparr>xe_TenantID = ''acme'', xe_RunID = ''run'', xe_Seq = 2, xe_Type = ''run.claimed'',
         xe_Payload = PayProgress (progressEvent sample_claimed sample_claim)\<rparr> # db_Events sample_db4\<rparr>"

text \<open>The row as the store has it; only its event counter differs from the one that was submitted.\<close>

abbreviation sample_row4 :: persisted_run where "sample_row4 \<equiv> sample_row\<lparr>rr_NextEventSeq := 2\<rparr>"

lemma sample_row_sel [simp]:
  "rr_TenantID sample_row = ''acme''" "rr_ID sample_row = ''run''" "rr_Hold sample_row = None" "rr_NotBefore sample_row = None"
  "rr_LeaseUntil sample_row = None" "rr_RunnerID sample_row = []" "rr_State sample_row = StatusQueued" "rr_LeaseEpoch sample_row = 0"
  "rr_Version sample_row = 1" "st_SchemaVersion (rr_Snapshot sample_row) = SnapshotSchemaVersion" "st_Version (rr_Snapshot sample_row) = 1"
  "rr_LeaseOwner sample_row = []"
  by (simp_all add: sample_row_defs)

lemma sample_picks:
  "pick_tenant no_locks 2000 [] sample_db4 = Some \<lparr>tn_TenantID = ''acme'', tn_MaxActive = 2, tn_ActiveCount = 0, tn_LastDispatched = None\<rparr>"
  "pick_run no_locks 2000 [] \<lparr>tn_TenantID = ''acme'', tn_MaxActive = 2, tn_ActiveCount = 0, tn_LastDispatched = None\<rparr> sample_db4 = Some sample_row4"
  "pick_runner no_locks [] sample_row4 sample_db4 = Some \<lparr>rn_ID = ''runner'', rn_Endpoint = ''unix'', rn_MaxSlots = 4, rn_ReservedSlots = 0, rn_Enabled = True\<rparr>"
  by (simp_all add: pick_tenant_def pick_run_def pick_runner_def first_by_def runnable_def allocated_def sample_db4_def sample_dbs no_locks_def claimable_state_def)

lemma sample_claim_event: "claim_event sample_row4 ''w1'' 30000000000 2000 = sample_claim"
  by (simp add: sample_claim_def claim_event_def run_State_def)

lemma sample_state4: "run_State sample_row4 = run_State sample_row" "supportedSnapshot sample_row4"
  by (simp_all add: run_State_def row_lease_def supportedSnapshot_def supported_header_def)

lemma sample_reserved:
  "reserve_slot ''acme'' ''run'' ''runner'' 1 sample_db4 = Inr (sample_db4\<lparr>
     db_Tenants := [\<lparr>tn_TenantID = ''acme'', tn_MaxActive = 2, tn_ActiveCount = 1, tn_LastDispatched = None\<rparr>],
     db_Runners := db_Runners sample_db5, db_Allocs := db_Allocs sample_db5\<rparr>)"
  by (simp add: sample_db5_def sample_db4_def sample_dbs reserve_slot_def allocated_def add_active_def add_slots_def tmodify_def Let_def tenant_checks_def
      runner_checks_def bigints_def require_def tinsert_def)

lemma sample_claimed_sel [simp]:
  "st_TenantID sample_claimed = ''acme''" "st_RunID sample_claimed = ''run''" "st_Version sample_claimed = 2" "st_StepSeq sample_claimed = 0"
  "st_Status sample_claimed = StatusRunning" "st_Stage sample_claimed = StageInitialize" "st_OutputRef sample_claimed = []"
  "st_Lease sample_claimed = \<lparr>ls_Owner = ''w1'', ls_Epoch = 1, ls_Until = 30000002000\<rparr>" "st_PendingEffect sample_claimed = None"
  "st_Approval sample_claimed = None" "st_Version (run_State sample_row) = 1"
  by (simp_all add: sample_claimed_def sample_row_defs run_State_def)

lemma sample_claim_sel [simp]:
  "ev_Kind sample_claim = EventClaimed" "ev_Effects sample_claim = []" "ev_Receipt sample_claim = None" "ev_Epoch sample_claim = 1"
  by (simp_all add: sample_claim_def claim_event_def plain_event_def Let_def)

lemma sample_persisted:
  "persistTransition (run_State sample_row) sample_claimed (command_of CommandInitializeWorkspace) sample_claim ''run.claimed'' 2001
     (upd_run ''acme'' ''run'' (assign_runner ''runner'') (set_dispatched ''acme'' 2000 (sample_db4\<lparr>
       db_Tenants := [\<lparr>tn_TenantID = ''acme'', tn_MaxActive = 2, tn_ActiveCount = 1, tn_LastDispatched = None\<rparr>],
       db_Runners := db_Runners sample_db5, db_Allocs := db_Allocs sample_db5\<rparr>))) = Inr sample_db5"
  by (simp add: persistTransition_def sample_db5_def sample_db4_def sample_dbs set_dispatched_def upd_run_def tmodify_def tinsert_def set_runnable_def in_kinds_def
      update_run_def bigints_def require_def find_run_def assign_runner_def supportedSnapshot_def supported_header_def lease_free_def write_state_def
      upsert_step_def Let_def write_pending_def write_receipt_def write_approval_def release_idle_def writeSnapshot_def
      announce_transition_def appendEvent_def sample_row5_def sample_snapshot_def)

lemma sample_step5:
  "store_do sample_digests (AcClaim no_locks ''w1'' 30000000000 [] 2000 2001) sample_db4 = (sample_db5, GotRun sample_row5)"
proof -
  have "getRun sample_db5 ''acme'' ''run'' = Inr sample_row5"
    by (simp add: getRun_def find_run_def sample_db5_def sample_row5_def write_state_def assign_runner_def supportedSnapshot_def supported_header_def)
       (simp add: sample_claimed_def)
  then have "claim_on (dg_Bytes sample_digests) sample_row4 ''runner'' ''w1'' 30000000000 2000 2001 sample_db4 = Inr (sample_db5, sample_row5)"
    by (simp add: claim_on_def sample_claim_event sample_state4 sample_accepted sample_reserved sample_persisted reread_def)
  then show ?thesis by (simp add: claim_run_def sample_picks sample_state4 outcome_of_def commit_def)
qed

definition sample_history :: "(store_action, store_outcome) history" where
  "sample_history = [(AcBootstrap ''acme'' ''dev'' ''developer'', Done), (AcProject ''acme'' ''proj'' ''name'' ''src'' ''prof'', Done),
     (AcRunner ''runner'' ''unix'' 4, Done), (AcSubmit sample_request ''key'' ''run'' 1000, GotRun sample_row4),
     (AcClaim no_locks ''w1'' 30000000000 [] 2000 2001, GotRun sample_row5)]"

lemmas sample_steps = sample_step1 [folded store_step_def] sample_step2 [folded store_step_def] sample_step3 [folded store_step_def]
  sample_step4 [folded store_step_def] sample_step5 [folded store_step_def]

lemma sample_exec: "exec (store_step sample_digests) empty_store sample_history sample_db5"
  unfolding sample_history_def
  by (rule exec_Cons [where step = "store_step sample_digests"], rule sample_steps)+ (rule exec_init)

end
