(* ===== verification/Run_Store_Correct.thy ===== *)
theory Run_Store_Correct
  imports Run_Events Run_Slots Run_Demo
begin

section \<open>Properties of the run store\<close>

abbreviation store_run :: "digests \<Rightarrow> (store_action, store_outcome) history \<Rightarrow> run_db \<Rightarrow> bool" where
  "store_run d tr db \<equiv> exec (store_step d) empty_store tr db"

subsection \<open>Slots\<close>

lemma release_succeeds: "slots_ok db \<Longrightarrow> \<exists>db'. releaseAllocation t i db = Inr db'"
proof -
  assume ok: "slots_ok db"
  show ?thesis
  proof (cases "tfind alloc_key (t, i) (db_Allocs db)")
    case None
    then show ?thesis by (simp add: releaseAllocation_def)
  next
    case (Some a)
    show ?thesis
    proof (cases "al_State a = AllocReleased")
      case True
      then show ?thesis using Some by (simp add: releaseAllocation_def)
    next
      case False
      have t: "al_TenantID a = t" "unreleased a" "a \<in> set (db_Allocs db)" "al_Slots a = 1"
        using tfind_key [OF Some] tfind_mem [OF Some] False ok by (auto simp: unreleased_def slots_ok_iff allocs_bound_def list_all_iff)
      have pos: "1 \<le> tenant_slots t (db_Allocs db)" "1 \<le> runner_slots (al_RunnerID a) (db_Allocs db)"
        using t by (auto simp: tenant_slots_def runner_slots_def Suc_le_eq tcount_eq_0 simp flip: neq0_conv)
      have ts: "tenant_checks x" "tn_ActiveCount x = tenant_slots (tn_TenantID x) (db_Allocs db)" if "x \<in> set (db_Tenants db)" for x
        using ok that by (auto simp: slots_ok_iff tenants_counted_def list_all_iff)
      have ns: "runner_checks x" "rn_ReservedSlots x = runner_slots (rn_ID x) (db_Allocs db)" if "x \<in> set (db_Runners db)" for x
        using ok that by (auto simp: slots_ok_iff runners_counted_def list_all_iff)
      have "tenant_checks (x\<lparr>tn_ActiveCount := tn_ActiveCount x - 1\<rparr>)" if "x \<in> set (db_Tenants db)" "tn_TenantID x = t" for x
        using ts(1) [OF that(1)] pos(1) ts(2) [OF that(1)] that(2) unfolding tenant_checks_def by simp
      then have "list_all tenant_checks (tmodify tn_TenantID t (\<lambda>x. x\<lparr>tn_ActiveCount := tn_ActiveCount x - 1\<rparr>) (db_Tenants db))"
        using ts(1) by (auto simp: list_all_iff tmodify_def)
      moreover have "runner_checks (x\<lparr>rn_ReservedSlots := rn_ReservedSlots x - 1\<rparr>)" if "x \<in> set (db_Runners db)" "rn_ID x = al_RunnerID a" for x
        using ns(1) [OF that(1)] pos(2) ns(2) [OF that(1)] that(2) unfolding runner_checks_def by simp
      then have "list_all runner_checks (tmodify rn_ID (al_RunnerID a) (\<lambda>x. x\<lparr>rn_ReservedSlots := rn_ReservedSlots x - 1\<rparr>) (db_Runners db))"
        using ns(1) by (auto simp: list_all_iff tmodify_def)
      ultimately show ?thesis using Some False t(4) by (simp add: releaseAllocation_def add_slots_def add_active_def)
    qed
  qed
qed

text \<open>
  C13. Slots are counted exactly. In every execution of the run store the active count of a tenant is the
  number of its allocations that are not released and stays within its limit, the reserved slots of a runner
  are the number of such allocations on it and stay within its capacity, and giving a slot back never
  violates a constraint of the schema, so no terminal transition is lost to the accounting.
\<close>

theorem slots_accounted:
  assumes "store_run d tr db" and "t \<in> set (db_Tenants db)" and "n \<in> set (db_Runners db)"
  shows "tn_ActiveCount t = int (length (filter (\<lambda>a. unreleased a \<and> al_TenantID a = tn_TenantID t) (db_Allocs db)))
    \<and> tn_ActiveCount t \<le> tn_MaxActive t
    \<and> rn_ReservedSlots n = int (length (filter (\<lambda>a. unreleased a \<and> al_RunnerID a = rn_ID n) (db_Allocs db)))
    \<and> rn_ReservedSlots n \<le> rn_MaxSlots n
    \<and> (\<exists>db'. releaseAllocation tenant rid db = Inr db')"
proof -
  have ok: "slots_ok db" using run_slots.run_law [OF refl assms(1)] .
  then show ?thesis using assms(2,3) release_succeeds [OF ok, of tenant rid]
    by (auto simp: slots_ok_iff tenants_counted_def runners_counted_def list_all_iff tenant_checks_def runner_checks_def
        tenant_slots_def runner_slots_def tcount_def)
qed

lemma sample_rows:
  "\<lparr>tn_TenantID = ''acme'', tn_MaxActive = 2, tn_ActiveCount = 1, tn_LastDispatched = Some 2000\<rparr> \<in> set (db_Tenants sample_db5)"
  "\<lparr>rn_ID = ''runner'', rn_Endpoint = ''unix'', rn_MaxSlots = 4, rn_ReservedSlots = 1, rn_Enabled = True\<rparr> \<in> set (db_Runners sample_db5)"
  "find_run sample_db5 ''acme'' ''run'' = Some sample_row5"
  by (simp_all add: sample_db5_def find_run_def sample_row5_def write_state_def assign_runner_def)

theorem slots_accounted_witness:
  "1 = length (filter (\<lambda>a. unreleased a \<and> al_TenantID a = ''acme'') (db_Allocs sample_db5))
    \<and> (\<exists>db'. releaseAllocation ''acme'' ''run'' sample_db5 = Inr db')"
  using slots_accounted [OF sample_exec sample_rows(1,2), of "''acme''" "''run''"] by simp

subsection \<open>Event pages\<close>

lemma sorted_page:
  assumes "seqs_of k es = rev [m..<n]" "m \<le> Suc after" "Suc after \<le> n"
  shows "map xe_Seq (sort_key xe_Seq (filter (\<lambda>x. event_run x = k \<and> after < xe_Seq x) es)) = [Suc after..<n]"
proof -
  let ?xs = "filter (\<lambda>x. event_run x = k \<and> after < xe_Seq x) es"
  have "map xe_Seq ?xs = filter (\<lambda>s. after < s) (seqs_of k es)" by (simp add: seqs_of_def filter_map comp_def conj_commute cong: conj_cong)
  then have s: "map xe_Seq ?xs = rev (filter (\<lambda>s. after < s) [m..<n])" by (simp add: assms(1) rev_filter)
  have "[m..<n] = [m..<Suc after] @ [Suc after..<n]" using assms(2,3) by (metis le_add_diff_inverse upt_add_eq_append)
  then have "filter (\<lambda>s. after < s) [m..<n] = [Suc after..<n]" by (simp add: filter_empty_conv filter_id_conv del: upt_Suc)
  then have "sorted_list_of_set (set (map xe_Seq (sort_key xe_Seq ?xs))) = [Suc after..<n]"
    using arg_cong [OF s, of set] by (simp add: sorted_list_of_set_range flip: atLeastLessThan_upt)
  moreover have "distinct (map xe_Seq (sort_key xe_Seq ?xs))"
  proof -
    have "distinct (map xe_Seq ?xs)" using s \<open>filter (\<lambda>s. after < s) [m..<n] = [Suc after..<n]\<close> by simp
    then show ?thesis by (simp add: distinct_map)
  qed
  ultimately show ?thesis using sorted_list_of_set.idem_if_sorted_distinct [of "map xe_Seq (sort_key xe_Seq ?xs)"] by simp
qed

text \<open>
  C19. Reading the event log never skips an event. In every execution, a page after a cursor carries exactly the next
  numbers, without a gap or a repetition and all of the run, up to the requested size; the reader is refused
  when its cursor is ahead of the log, and told to start over when the log has been trimmed past it.
\<close>

theorem event_pages_exact:
  assumes "store_run d tr db" and "find_run db t i = Some r" and "valid_id t" and "1 \<le> lim \<and> lim \<le> 1000"
  shows "(if rr_NextEventSeq r \<le> after then Events t i after lim db = Inl (SErr ErrConflict)
     else if Suc after < rr_RetainedFrom r then Events t i after lim db = Inl (SErr ErrReset)
     else \<exists>page. Events t i after lim db = Inr page \<and> map xe_Seq page = take (nat lim) [Suc after..<rr_NextEventSeq r]
            \<and> list_all (\<lambda>x. event_run x = (t, i)) page)"
proof -
  have ok: "events_ok db" by (rule run_events.run_law [OF refl assms(1)])
  have rep: "replay_ok (dg_Bytes d) db" by (rule run_replay.run_law [OF refl assms(1)])
  note key = find_run_key [OF assms(2)]
  have get: "getRun db t i = Inr r" using assms(2) row_supported [OF replay_ok_row [OF rep assms(2)]] by (simp add: getRun_def)
  note dense = events_okD [OF ok, of r]
  have page: "Events t i after lim db = (if rr_NextEventSeq r - 1 < after then Inl (SErr ErrConflict)
      else if 0 < rr_RetainedFrom r \<and> after < rr_RetainedFrom r - 1 then Inl (SErr ErrReset)
      else Inr (take (nat lim) (sort_key xe_Seq (filter (\<lambda>x. event_run x = (t, i) \<and> after < xe_Seq x) (db_Events db)))))"
    using assms(3,4) get by (simp add: Events_def valid_or_def)
  have "list_all (\<lambda>x. event_run x = (t, i)) (take k (sort_key xe_Seq (filter (\<lambda>x. event_run x = (t, i) \<and> after < xe_Seq x) es)))" for k es
    by (auto simp: list_all_iff dest!: in_set_takeD)
  then show ?thesis using page dense key sorted_page [of "(t, i)" "db_Events db" "rr_RetainedFrom r" "rr_NextEventSeq r" after]
    by (auto simp: take_map [symmetric])
qed

lemma sample_valid: "valid_id ''acme''"
  using sample_ids(1) by simp

theorem event_pages_exact_witness:
  "\<exists>page. Events ''acme'' ''run'' 0 10 sample_db5 = Inr page \<and> map xe_Seq page = [1, 2]"
proof -
  have "rr_NextEventSeq sample_row5 = 3" "rr_RetainedFrom sample_row5 = 1"
    by (simp_all add: sample_row5_def sample_row_def new_row_def Let_def write_state_def assign_runner_def)
  then show ?thesis
    using event_pages_exact [OF sample_exec sample_rows(3) sample_valid, of 10 0] by (auto simp: upt_rec)
qed

subsection \<open>Stored runs\<close>

text \<open>
  C7. The database refines the reducer. In every execution of the store, whatever the order of its
  transactions, the row of a run can be read, its state is reached from the new state of the run by accepted events, one
  for each version, between which only the end of the lease moves, and so it has what the reducer guarantees: the dispatched
  effects agree in order with the receipts and the pending effect, the claims have increasing epochs, the tool calls are within the limit,
  no approval is used twice, and a terminal run was published once.
\<close>

theorem stored_runs_lawful:
  assumes "store_run d tr db" and "find_run db t i = Some r"
  shows "getRun db t i = Inr r \<and> rr_State r = st_Status (run_State r)
    \<and> (\<exists>lim es. stored_run (dg_Bytes d) t i lim es (run_State r) \<and> unat (rr_Version r) = Suc (length es)
        \<and> map effect_key (dispatches es) = map receipt_key (settlements es) @ map effect_key (outstanding (run_State r))
        \<and> sorted_wrt (<) (0 # claim_epochs es) \<and> rr_LeaseEpoch r = last (0 # claim_epochs es)
        \<and> within (st_ToolCalls (run_State r)) (lm_MaxToolCalls (st_Limits (run_State r)))
        \<and> length (filter ef_RequiresApproval (dispatches es)) \<le> count_history (\<lambda>(e, cs). approves e) es
        \<and> count_history (\<lambda>(e, cs). publishes cs) es = of_bool (RunStatus_Terminal (rr_State r)))"
proof -
  have rep: "replay_ok (dg_Bytes d) db" by (rule run_replay.run_law [OF refl assms(1)])
  note cur = replay_ok_row [OF rep assms(2)] and key = find_run_key [OF assms(2)]
  have get: "getRun db t i = Inr r" using assms(2) row_supported [OF cur] by (simp add: getRun_def)
  have cols: "rr_State r = st_Status (run_State r)" "rr_Version r = st_Version (run_State r)"
    using cur by (simp_all add: row_current_def row_synced_def run_State_def)
  obtain x xs where x: "sn_Body x = rr_Snapshot r" "snapshot_chain (dg_Bytes d) t i (x # xs)"
    using cur key unfolding row_current_def by (auto elim: chainedE)
  obtain lim es where e: "stored_run (dg_Bytes d) t i lim es (rr_Snapshot r)" "length es = length xs" "unat (st_Version (rr_Snapshot r)) = Suc (length xs)"
    using chain_stored [OF x(2)] x(1) by auto
  have st: "stored_run (dg_Bytes d) t i lim es (run_State r)" using stored_lease [OF e(1)] run_State_renewed [OF cur] by simp
  have v: "unat (rr_Version r) = Suc (length es)" using e cols(2) by (simp add: run_State_def)
  show ?thesis
    using get cols st v stored_ledger.stored_holds [OF st] stored_epoch.stored_holds [OF st] stored_budget.stored_holds [OF st] stored_approval.stored_holds [OF st]
      stored_publish.stored_holds [OF st]
    by (intro conjI exI [of _ lim] exI [of _ es])
      (simp_all add: ledger_inv_def epoch_inv_def budget_inv_def approval_inv_def publish_inv_def)
qed

theorem stored_runs_lawful_witness: "getRun sample_db5 ''acme'' ''run'' = Inr sample_row5 \<and> rr_State sample_row5 = st_Status (run_State sample_row5)"
  using stored_runs_lawful [OF sample_exec sample_rows(3)] by blast

lemma chain_follows: "snapshot_chain sha t i xs \<Longrightarrow> Suc k < length xs \<Longrightarrow> follows sha (xs ! Suc k) (xs ! k)"
proof (induction sha t i xs arbitrary: k rule: snapshot_chain.induct)
  case (3 sha t i x y xs)
  then show ?case by (cases k) auto
qed simp_all

lemma chain_versions:
  "snapshot_chain sha t i xs \<Longrightarrow> map (unat \<circ> st_Version \<circ> sn_Body) xs = rev [1..<Suc (length xs)] \<and> (\<exists>lim. sn_Body (last xs) = NewState t i lim)"
proof (induction sha t i xs rule: snapshot_chain.induct)
  case (2 sha t i x)
  then show ?case using chain_stored [of sha t i x "[]"] by auto
next
  case (3 sha t i x y xs)
  then show ?case using chain_stored [of sha t i x "y # xs"] by auto
qed simp

lemma snapshots_chained:
  assumes rep: "replay_ok sha db" and r: "find_run db t i = Some r"
  shows "snapshot_chain sha t i (snapshots_of (t, i) db)" "sn_Body (hd (snapshots_of (t, i) db)) = rr_Snapshot r"
    "map (unat \<circ> sn_Version) (snapshots_of (t, i) db) = rev [1..<Suc (unat (rr_Version r))]"
proof -
  note cur = replay_ok_row [OF rep r] and key = find_run_key [OF r]
  let ?xs = "snapshots_of (t, i) db"
  show c: "snapshot_chain sha t i ?xs" "sn_Body (hd ?xs) = rr_Snapshot r" using cur key by (simp_all add: row_current_def chained_def)
  obtain x xs where x: "?xs = x # xs" using c(1) by (cases ?xs) auto
  have v: "rr_Version r = st_Version (rr_Snapshot r)" using cur by (simp add: row_current_def row_synced_def)
  then have len: "unat (rr_Version r) = length ?xs" using chain_stored [of sha t i x xs] c x by auto
  have "map (unat \<circ> sn_Version) ?xs = map (unat \<circ> st_Version \<circ> sn_Body) ?xs"
    using rep by (auto simp: replay_ok_def list_all_iff snapshot_keyed_def snapshots_of_def)
  then show "map (unat \<circ> sn_Version) ?xs = rev [1..<Suc (unat (rr_Version r))]" using chain_versions [OF c(1)] len by simp
qed

text \<open>
  C14. The snapshots are an audit trail. In every execution a run has exactly one snapshot for each version from 1 to
  the current one; the first is the new state, the newest is the state of the row, and each other one is what \<open>Transition\<close> returns
  on the state and the event that are recorded with it, where the state is the snapshot before it up to the end of the lease.
\<close>

theorem snapshots_replay:
  assumes "store_run d tr db" and "find_run db t i = Some r"
  shows "(let xs = snapshots_of (t, i) db in
    map (unat \<circ> sn_Version) xs = rev [1..<Suc (unat (rr_Version r))]
    \<and> sn_Body (hd xs) = rr_Snapshot r \<and> (\<exists>lim. sn_Body (last xs) = NewState t i lim)
    \<and> (\<forall>k. Suc k < length xs \<longrightarrow> (\<exists>u e cs. sn_Input (xs ! k) = Some (renewed u (sn_Body (xs ! Suc k)), e)
         \<and> Transition (dg_Bytes d) (renewed u (sn_Body (xs ! Suc k))) e = (sn_Body (xs ! k), cs, None))))"
proof -
  let ?xs = "snapshots_of (t, i) db"
  note c = snapshots_chained [OF run_replay.run_law [OF refl assms(1)] assms(2)]
  show ?thesis unfolding Let_def
  proof (intro conjI allI impI)
    show "map (unat \<circ> sn_Version) ?xs = rev [1..<Suc (unat (rr_Version r))]" by (rule c(3))
    show "sn_Body (hd ?xs) = rr_Snapshot r" by (rule c(2))
    show "\<exists>lim. sn_Body (last ?xs) = NewState t i lim" using chain_versions [OF c(1)] by simp
  next
    fix k assume "Suc k < length ?xs"
    then show "\<exists>u e cs. sn_Input (?xs ! k) = Some (renewed u (sn_Body (?xs ! Suc k)), e)
         \<and> Transition (dg_Bytes d) (renewed u (sn_Body (?xs ! Suc k))) e = (sn_Body (?xs ! k), cs, None)"
      using chain_follows [OF c(1)] by (auto simp: follows_def accepted_def)
  qed
qed

theorem snapshots_replay_witness:
  "map (unat \<circ> sn_Version) (snapshots_of (''acme'', ''run'') sample_db5) = [2, 1] \<and> sn_Body (hd (snapshots_of (''acme'', ''run'') sample_db5)) = sample_claimed"
proof -
  have v: "rr_Version sample_row5 = 2" "rr_Snapshot sample_row5 = sample_claimed" by (simp_all add: sample_row5_def write_state_def)
  show ?thesis using snapshots_replay [OF sample_exec sample_rows(3)] unfolding Let_def v by (auto simp: upt_rec)
qed

subsection \<open>Leases\<close>



subsection \<open>Submissions\<close>

text \<open>What a successful submission leaves: the key with its digest and the run, which the parent, if any, admits.\<close>

lemma submit_recorded:
  assumes "Submit h q key i now db = (db', Inr (r, b))"
  shows "submit_checks q key = Inr ()" "\<exists>x. parent_input q db = Inr x"
    "\<exists>k. find_idem db' (sq_TenantID q) (sq_PrincipalID q) (submit_route q) key = Some k \<and> ik_RequestHash k = h q \<and> ik_ResourceID k = rr_ID r"
    "find_run db' (sq_TenantID q) (rr_ID r) = Some r"
proof -
  let ?k = "\<lparr>ik_TenantID = sq_TenantID q, ik_PrincipalID = sq_PrincipalID q, ik_Route = submit_route q,
              ik_Key = key, ik_RequestHash = h q, ik_ResourceID = i, ik_Message = None\<rparr>"
  let ?db1 = "db\<lparr>db_Idem := tinsert ?k (db_Idem db)\<rparr>"
  obtain x where c: "submit_checks q key = Inr ()" and x: "parent_input q db = Inr x"
    and m: "(case find_idem db (sq_TenantID q) (sq_PrincipalID q) (submit_route q) key of
       Some k \<Rightarrow>
         if ik_RequestHash k \<noteq> h q then Inl (SErr ErrConflict)
         else res_bind (getRun db (sq_TenantID q) (ik_ResourceID k)) (\<lambda>r. Inr (db, r, True))
     | None \<Rightarrow>
         if tfind tn_TenantID (sq_TenantID q) (db_Tenants db) = None then Inl SErrDatabase
         else let db1 = ?db1 in
           res_bind (case x of Some x \<Rightarrow> Inr x | None \<Rightarrow> snapshotInput q db1) (\<lambda>input.
           res_bind (insert_run (new_row q i input now) db1) (\<lambda>db2.
           res_bind (getRun db2 (sq_TenantID q) i) (\<lambda>r. Inr (db2, r, False))))) = Inr (db', r, b)"
    using assms by (auto simp: Submit_def commit_def res_bind_Inr_iff split: sum.splits prod.splits)
  show "submit_checks q key = Inr ()" "\<exists>x. parent_input q db = Inr x" using c x by auto
  show "\<exists>k. find_idem db' (sq_TenantID q) (sq_PrincipalID q) (submit_route q) key = Some k \<and> ik_RequestHash k = h q \<and> ik_ResourceID k = rr_ID r"
    and "find_run db' (sq_TenantID q) (rr_ID r) = Some r"
  proof (atomize (full), cases "find_idem db (sq_TenantID q) (sq_PrincipalID q) (submit_route q) key")
    case (Some k)
    then have "db' = db" "ik_RequestHash k = h q" and g: "getRun db (sq_TenantID q) (ik_ResourceID k) = Inr r"
      using m by (auto simp: res_bind_Inr_iff split: if_splits)
    then show "(\<exists>k. find_idem db' (sq_TenantID q) (sq_PrincipalID q) (submit_route q) key = Some k \<and> ik_RequestHash k = h q \<and> ik_ResourceID k = rr_ID r)
        \<and> find_run db' (sq_TenantID q) (rr_ID r) = Some r"
      using Some getRun_find [OF g] find_run_key [of db "sq_TenantID q" "ik_ResourceID k" r] by simp
  next
    case None
    then obtain input where ins: "insert_run (new_row q i input now) ?db1 = Inr db'" and g: "getRun db' (sq_TenantID q) i = Inr r"
      using m by (auto simp: Let_def res_bind_Inr_iff split: if_splits)
    have "db_Idem db' = tinsert ?k (db_Idem db)" using ins by (auto elim!: insert_run_Inr dest!: append_idem writeSnapshot_Inr(2))
    then have "find_idem db' (sq_TenantID q) (sq_PrincipalID q) (submit_route q) key = Some ?k" by (simp add: find_idem_def)
    then show "(\<exists>k. find_idem db' (sq_TenantID q) (sq_PrincipalID q) (submit_route q) key = Some k \<and> ik_RequestHash k = h q \<and> ik_ResourceID k = rr_ID r)
        \<and> find_run db' (sq_TenantID q) (rr_ID r) = Some r"
      using getRun_find [OF g] by (auto dest: find_run_key)
  qed
qed

lemma later_run:
  assumes "kept_since sha db0 db" "find_run db0 t i = Some r"
  obtains r' where "getRun db t i = Inr r'" "find_run db t i = Some r'" "run_grows r r'"
proof -
  from assms obtain r' where r': "find_run db t i = Some r'" "run_grows r r'" unfolding kept_since_def by blast
  moreover have "replay_ok sha db" using assms(1) by (simp add: kept_since_def)
  then have "supportedSnapshot r'" by (rule row_supported [OF replay_ok_row [OF _ r'(1)]])
  ultimately show thesis using that by (simp add: getRun_def)
qed

lemma later_parent: "kept_since sha db0 db \<Longrightarrow> parent_input q db0 = Inr x \<Longrightarrow> \<exists>y. parent_input q db = Inr y"
proof (cases "sq_ParentRunID q = []")
  case False
  assume k: "kept_since sha db0 db" and p: "parent_input q db0 = Inr x"
  then obtain r where r: "find_run db0 (sq_TenantID q) (sq_ParentRunID q) = Some r" "rr_ProjectID r = sq_ProjectID q" "rr_Task r = sq_Task q"
      "rr_BaseCommit r = sq_BaseCommit q" "RunStatus_Terminal (rr_State r)"
    using False by (auto simp: parent_input_def res_bind_Inr_iff split: if_splits dest!: getRun_find)
  obtain r' where r': "getRun db (sq_TenantID q) (sq_ParentRunID q) = Inr r'" "run_grows r r'" using later_run [OF k r(1)] by metis
  have "rr_ProjectID r' = rr_ProjectID r" "rr_Task r' = rr_Task r" "rr_BaseCommit r' = rr_BaseCommit r" "rr_State r' = rr_State r"
    using r'(2) r(5) by (auto simp: run_grows_def run_columns_def)
  then show ?thesis using False r r'(1) by (simp add: parent_input_def)
qed (simp add: parent_input_def)

text \<open>
  C9. A submission creates one run, however often it is repeated. Once a submission has returned a run, every later
  submission of that principal to that project with the same key leaves the database unchanged: it is refused, or its digest is the
  recorded one and it returns that same run. A repetition of the very same request is not refused.
\<close>

theorem submit_exactly_once:
  assumes "store_run d (tr @ (AcSubmit q key i now, GotRun r) # tr') db"
    and "sq_TenantID q' = sq_TenantID q" and "sq_PrincipalID q' = sq_PrincipalID q" and "sq_ProjectID q' = sq_ProjectID q"
  shows "((\<exists>er. Submit (dg_Request d) q' key i' now' db = (db, Inl er))
      \<or> dg_Request d q' = dg_Request d q \<and> (\<exists>r'. Submit (dg_Request d) q' key i' now' db = (db, Inr (r', True)) \<and> run_grows r r'))
    \<and> (\<exists>r'. Submit (dg_Request d) q key i' now' db = (db, Inr (r', True)) \<and> run_grows r r')"
proof -
  let ?t = "sq_TenantID q" and ?h = "dg_Request d"
  obtain db0 db1 where e0: "store_run d tr db0" and s: "store_step d db0 (AcSubmit q key i now) (GotRun r) db1"
    and e1: "exec (store_step d) db1 tr' db" using assms(1) by (rule exec_at)
  obtain b where c: "Submit ?h q key i now db0 = (db1, Inr (r, b))"
    using s by (cases "Submit ?h q key i now db0") (auto simp: store_step_def outcome_of_def split: sum.splits)
  note rec = submit_recorded [OF c]
  have k1: "kept_since (dg_Bytes d) db1 db" by (rule kept_later [OF exec_step [OF e0 s] e1])
  have k0: "kept_since (dg_Bytes d) db0 db"
    by (rule kept_later [OF e0 exec_append [OF e1 exec_one [where step = "store_step d", OF s]]])
  obtain k where k: "find_idem db1 ?t (sq_PrincipalID q) (submit_route q) key = Some k" "ik_RequestHash k = ?h q" "ik_ResourceID k = rr_ID r"
    using rec(3) by blast
  then have idem: "find_idem db ?t (sq_PrincipalID q) (submit_route q) key = Some k"
    using k1 by (auto simp: kept_since_def idem_kept_def find_idem_def)
  obtain r' where r': "getRun db ?t (rr_ID r) = Inr r'" "run_grows r r'" using later_run [OF k1 rec(4)] by metis
  have route: "submit_route q' = submit_route q" using assms(4) by (simp add: submit_route_def)
  obtain y where "parent_input q db = Inr y" using rec(2) later_parent [OF k0] by blast
  then have same: "Submit ?h q key i' now' db = (db, Inr (r', True))"
    using rec(1) idem k(2,3) r'(1) by (simp add: Submit_def commit_def)
  have "(\<exists>er. Submit ?h q' key i' now' db = (db, Inl er)) \<or> ?h q' = ?h q \<and> Submit ?h q' key i' now' db = (db, Inr (r', True))"
    using assms(2,3) route idem k(2,3) r'(1)
    by (cases "submit_checks q' key"; cases "parent_input q' db") (auto simp: Submit_def commit_def)
  then show ?thesis using same r'(2) by blast
qed

theorem submit_exactly_once_witness:
  "\<exists>r'. Submit (dg_Request sample_digests) sample_request ''key'' ''other'' 5000 sample_db5 = (sample_db5, Inr (r', True)) \<and> run_grows sample_row4 r'"
proof -
  have "store_run sample_digests (take 3 sample_history @ (AcSubmit sample_request ''key'' ''run'' 1000, GotRun sample_row4) # drop 4 sample_history) sample_db5"
    using sample_exec by (simp add: sample_history_def)
  from submit_exactly_once [OF this refl refl refl] show ?thesis by blast
qed

subsection \<open>Keys and references\<close>




end
