(* ===== verification/Spec2Isabelle.thy ===== *)
theory Spec2Isabelle
  imports Runtime_Correct Quota_Correct Quota_Retry Runner_Grant Runner_Journal_Correct Runner_Import Runner_Spool Runner_Engine_Correct
    Event_Stream_Correct Provider_Turn Model_Pricing Text_Batch_Correct Run_Store_Correct
begin

section \<open>Verification of forge-runtime\<close>

text \<open>
  forge-runtime runs coding agents durably. A \<^emph>\<open>run\<close> is a snapshot that changes only through the pure
  reducer \<open>runtime.Transition\<close>; a worker that holds the lease of the run loads the snapshot, carries out
  the commands the reducer returned (build the context, call a model, execute an effect in a
  workspace, verify, finalize) and feeds the outcomes back as events. Model calls are paid for through
  the quota ledger (\<open>internal/quota\<close>). Snapshots, events, leases and slots live in the database of the
  run store (\<open>internal/persistence\<close>), from which the event stream (\<open>internal/eventstream\<close>) serves
  readers. A model call is a stream of pieces that a provider assembles to a turn (\<open>internal/provider\<close>),
  priced and published in batches of text by the worker (\<open>internal/application\<close>). Effects, verifications and snapshots are calls of the \<^emph>\<open>runner\<close>
  (\<open>internal/runner\<close>), a second process which accepts them under signed grants, keeps a journal of its
  workspaces and operations, changes the files of a workspace, starts jobs in a sandbox and publishes
  receipts; the receipts return to the reducer as evidence. Workers crash, leases expire, calls are
  repeated: the reducer, the store, the ledger and the journal are what makes that harmless, and they are what
  this development models and proves correct.

  \<^bold>\<open>Shared theories.\<close>
  \<^item> \<open>Forge_Prelude\<close>: Go's \<open>int64\<close> and \<open>uint64\<close>, error-or-value results, the collections of simp rules.
    \<open>uint64\<close> counters are 64-bit words; \<open>int64\<close> values are integers with \<open>wrap64\<close> written at every
    operation that may overflow.
  \<^item> \<open>Forge_Machine\<close>, \<open>Forge_Order\<close>: executions of a machine with their history. The locale
    \<open>ghost_invariant\<close> carries an invariant of state and history through every execution,
    \<open>monotone_machine\<close> relates two moments of one. \<open>Forge_Table\<close>: tables with a primary key.
  \<^item> \<open>Go_Text\<close>, \<open>Go_Json\<close>, \<open>Go_Base64\<close>: what the sources use of \<open>strings\<close>, \<open>path\<close>, \<open>strconv\<close>,
    \<open>unicode/utf8\<close>, \<open>encoding/json\<close> and \<open>encoding/base64\<close>. \<open>Go_Utf8\<close>, \<open>Go_Literal\<close>: a valid string is the
    sequence of its runes, and a JSON string literal decodes to the string it was made of.

  \<^bold>\<open>Runs.\<close>
  \<^item> \<open>Domain\<close> (\<open>domain/types.go\<close>, \<open>domain/canonical.go\<close>): identifiers, status and stage, leases, money with
    its overflow checks, canonical JSON.
  \<^item> \<open>Runtime_Types\<close>, \<open>Runtime_Progress\<close>, \<open>Runtime_Reducer\<close> (\<open>runtime/types.go\<close>, \<open>progress.go\<close>, \<open>reducer.go\<close>):
    every struct as a record, every function of the reducer as a definition in the order of the source.
  \<^item> \<open>Runtime_Rules\<close> states the reducer as an inductive relation, one rule per way an event is accepted,
    and shows that \<open>Transition\<close> refines it. \<open>Runtime_Steps\<close> has the facts about one rule,
    \<open>Runtime_Runs\<close> lifts them to runs through the locale \<open>reducer_invariant\<close> (a sublocale of
    \<open>ghost_invariant\<close>), \<open>Runtime_Liveness\<close> shows that a valid snapshot can always be brought to an end.
  \<^item> \<open>Runtime_Correct\<close>: approval before dispatch and only once, receipts in dispatch order, fencing of
    stale workers, completion on trusted evidence, budgets and exact cost, dominance of a stop, a single
    terminal result, no silent resumption after an unexplained change, and the way to an end.
    \<open>Runtime_Demo\<close> evaluates a complete run for their witnesses.

  \<^bold>\<open>Run store.\<close>
  \<^item> \<open>Run_Tables\<close>, \<open>Run_Persist\<close>, \<open>Run_Store\<close>, \<open>Run_Control\<close>, \<open>Run_Records\<close> (\<open>internal/persistence\<close>): the tables as lists of
    records, \<open>persistTransition\<close> statement by statement, and every transaction of submission, scheduling,
    control, messages, artifacts, system effects, model attempts, the event log and its retention as a
    function of the tables, with the constraints of the schema as errors.
  \<^item> \<open>Run_Machine\<close>: the transactions as steps of a machine. The locale \<open>store_law\<close> names the groups of
    statements through which a transaction changes a run, a slot, a snapshot or an event and what an
    invariant promises of each; \<open>Run_Laws\<close> proves once that such an invariant holds of every execution
    (\<open>store_invariant\<close>). \<open>Run_Events\<close> (numbering of the log), \<open>Run_Slots\<close> (counters), \<open>Run_Replay\<close> (the rows
    are runs of the reducer), \<open>Run_Growth\<close> (what never decreases) are its interpretations; \<open>Run_Fencing\<close>
    has the transactions of a worker. \<open>Run_Frames\<close> says what a statement leaves alone.
  \<^item> \<open>Run_Store_Correct\<close>: the database refines the reducer, so that approvals, receipts and the single end of
    a run hold of what is stored; a worker with an old epoch changes nothing; a repeated submission
    creates one run; slots are counted exactly; the snapshots replay; pages of events have no gap; the
    tables are well formed. \<open>Run_Demo\<close> evaluates an execution of the store for the witnesses.

  \<^bold>\<open>Event stream.\<close> \<open>Event_Stream\<close> (\<open>eventstream/hub.go\<close>): manager, hubs and subscriptions, one function per critical
  section. \<open>Event_Stream_Invariant\<close> is the machine of all interleavings of these sections with its
  invariant, \<open>Event_Stream_Correct\<close> shows that delivery has no gap and that every subscriber is attended.

  \<^bold>\<open>Model turns.\<close>
  \<^item> \<open>Provider_Types\<close>, \<open>Provider_Assembly\<close> (\<open>provider/types.go\<close>, \<open>errors.go\<close>, \<open>input_budget.go\<close>, \<open>assembly.go\<close>): requests,
    limits, classification of errors, the assembly of a streamed turn; \<open>Provider_Turn\<close>: a completed turn
    is exactly what was streamed.
  \<^item> \<open>Model_Pricing\<close> (\<open>application/pricing.go\<close>): quotes, reservations, settlements; a settlement stays within its
    reservation.
  \<^item> \<open>Text_Batch\<close>, \<open>Text_Batch_Correct\<close> (\<open>application/text_batch.go\<close>): the text sink; its batches carry the streamed
    text exactly, and it always returns.

  \<^bold>\<open>Quotas.\<close>
  \<^item> \<open>Quota_Store\<close> (\<open>quota/types.go\<close>, \<open>quota/store.go\<close>): every transaction of the store as a function of its two
    tables with the constraints of the schema. \<open>Quota_Retry\<close> (\<open>quota/retry.go\<close>): the retry policy.
  \<^item> \<open>Quota_Accounting\<close>: the locale \<open>mutation_law\<close> is the contract of an update of a reservation; each
    update of the store is an interpretation. \<open>Quota_Correct\<close>: the ledger balances in every execution,
    an attempt is dispatched at most once, admission keeps the limits, settlement succeeds.

  \<^bold>\<open>Runner: grants and journal.\<close>
  \<^item> \<open>Runner_Types\<close> (\<open>runner/types.go\<close>, \<open>sandbox/types.go\<close>, \<open>sandbox/logs.go\<close>): requests, workspaces,
    operations, jobs, log policies. \<open>Runner_Grant\<close> (\<open>runner/grant.go\<close>): issuing and checking grants.
  \<^item> \<open>Runner_Journal\<close> (\<open>runner/journal.go\<close>, \<open>log_journal.go\<close>, the tables of \<open>storage.go\<close>): each transaction as a
    function of the tables. \<open>Runner_Machine\<close> makes them the steps of a machine;
    \<open>Runner_Invariant\<close>, \<open>Runner_History\<close> and \<open>Runner_Budget\<close> prove its invariants, its order in time and
    its budgets; \<open>Runner_Journal_Correct\<close> states the single writer, the single admission and final
    settlement, fencing, release, log budgets and volume leases, with \<open>Runner_Demo\<close> as the witness.

  \<^bold>\<open>Runner: files.\<close>
  \<^item> \<open>Runner_Tree\<close>, \<open>Runner_Tree_Laws\<close>, \<open>Runner_Path\<close>, \<open>Runner_Files\<close> (\<open>runner/files.go\<close>): directories,
    manifests and their hash, safe paths, decoding of tool arguments, the plan and the application of a
    patch, the read-only tools. \<open>Runner_Loop\<close> has the locales of loops over files, one key per turn;
    \<open>Runner_Patch\<close> shows that a patch realizes its plan and never leaves half a file, \<open>Runner_Import\<close>
    (\<open>runner/initialization.go\<close>) that an import, also a resumed one, reproduces its source.
  \<^item> \<open>Runner_Logs\<close>, \<open>Runner_Spool\<close> (\<open>runner/log_capture.go\<close>): the framed spool of a job's output, its writer
    and its reader, and that what was captured is read back.

  \<^bold>\<open>Runner: engine.\<close>
  \<^item> \<open>Runner_World\<close>, \<open>Runner_Engine\<close>, \<open>Runner_Service\<close>, \<open>Runner_Open\<close> (\<open>runner/engine.go\<close>, \<open>verification.go\<close>,
    \<open>log_publication.go\<close>, \<open>sync_linux.go\<close>, \<open>storage.go\<close>): the state of the runner is the journal, the files of
    its workspaces and the fields of \<open>Engine\<close>; every method of \<open>Service\<close>, the executor of an operation,
    reconciliation, the publication of logs and receipts, opening and shutdown are functions of it.
  \<^item> \<open>Runner_Logic\<close>: the locale \<open>engine_relation\<close> is what a relation between the states before and after
    must satisfy so that every piece of a handler keeps it; \<open>settling_relation\<close> extends it to the handlers
    that settle operations. \<open>Runner_Triples\<close> has assertions for handlers under interference.
    \<open>Runner_System\<close> composes the calls and interprets the first locale with the execution of the journal
    machine, \<open>Runner_Settle\<close> with the absence of a settlement.
  \<^item> \<open>Runner_Stop\<close>, \<open>Runner_Evidence\<close>, \<open>Runner_Engine_Correct\<close>: the handlers refine the journal machine, so its
    properties hold of the runner; an executor settles with evidence only; a stop receipt is true and
    stays true; a refused request has no effect. \<open>Runner_Engine_Demo\<close> evaluates the engine for the
    witnesses.

  \<^bold>\<open>Concurrency.\<close> A transaction of a database is one step. Calls of the engine run concurrently: its state
  holds a schedule, and every access to the journal or to a field of \<open>Engine\<close> first lets the next part of
  the schedule, any transactions of other calls, take place. The files of a workspace are under the lock
  \<open>lockWorkspace\<close>, so they change under a call only while it waits for that lock (\<open>ev_Wait\<close>) or through
  the job it started. A crash is the end of a call at an error of its surroundings.

  The run store, too, takes a transaction as one step: it locks the rows it changes before it reads them,
  and the clock values it reads are arguments. The rows that \<open>SKIP LOCKED\<close> passes over are an argument of
  the claim, and a transaction that fails to commit leaves the tables as they were.

  \<^bold>\<open>Parameters.\<close> SHA-256, HMAC-SHA256, the JSON codecs of structs, the floating-point jitter product of the
  retry policy, the answers of the sandbox backend, of the artifact store, of the file system and of
  the clock, JSON schema validation and the append of a text batch are arguments. A theorem that needs something of them says so: an injective hash where a
  hash must determine a tree, a codec that inverts its encoder, the unforged digest of a grant.

  \<^bold>\<open>Bounds and fuel.\<close> The recursive-descent decoder of JSON and the UTF-8 scan take fuel; every recursive call
  of the decoder consumes a character or descends one level, so twice the length of the input is
  enough, and a rune has at least one byte. The wait loop of \<open>execute\<close> runs over the list of polls the surroundings
  answer; a list that ends while the job still runs is an executor that has not returned yet and has
  settled nothing. All other loops are structural or have a termination proof.

  \<^bold>\<open>Simplifications.\<close> Where the engine returns an operation together with an error, the model returns
  the error. The texts of errors of \<open>os\<close> and \<open>encoding/json\<close> are shortened. Columns of a table that are
  written and never read are left out. The deep copies of the reducer are the identity on values. JSON
  columns of the run store hold the decoded value, identifiers are compared bytewise, a held snapshot
  is only marked as held, and \<open>pg_notify\<close> and telemetry have no effect.

  \<^bold>\<open>Not modelled.\<close> The worker loop (\<open>internal/application\<close> apart from pricing and text batches), which calls the parts
  above in turn; the cleanup of workspaces, the inspection and release of held snapshots, tokens
  and read-only queries of the run store; the HTTP interface, the HTTP clients of the model providers,
  the artifact store, retention of objects, RPC and generated code, the Docker backend and the inspection of
  volumes, configuration, telemetry, commands and tooling: they are input and output around the
  parts above. Of the runner, \<open>openJournal\<close> (schema and migrations), \<open>Close\<close>, permission bits other
  than the executable bit, and the opening of log directories.
\<close>

end
